(* ===== verification/Prelude.thy ===== *)
theory Prelude
  imports Main "HOL-Library.Multiset" "HOL-Library.Word"
begin

text \<open>
  Shared vocabulary of the development: fallible results as sums whose left side is either an
  error value of the program or a panic, the list traversals that Rust's \<open>?\<close> operator in a loop
  gives, \<open>slice::get\<close> and \<open>Iterator::position\<close>, the three-valued \<open>std::cmp::Ordering\<close>, and the
  interface a comparison function offers to the code that sorts or searches with it.
\<close>

named_theorems result_simps \<open>unfolding of fallible computations\<close>
named_theorems cmp_simps \<open>three-way comparisons\<close>

subsection \<open>Fallible results\<close>

text \<open>
  A function returning \<open>Result<T, E>\<close> that may also panic (an index out of range, an
  \<open>assert!\<close>, an \<open>expect\<close>) ends in one of three ways; the first two are the left of a sum.
\<close>

datatype 'e fault = Failed 'e | Panic string

type_synonym ('e, 'a) res = "'e fault + 'a"

abbreviation Ok :: "'a \<Rightarrow> ('e, 'a) res" where "Ok \<equiv> Inr"
abbreviation Err :: "'e \<Rightarrow> ('e, 'a) res" where "Err e \<equiv> Inl (Failed e)"
abbreviation Panics :: "string \<Rightarrow> ('e, 'a) res" where "Panics m \<equiv> Inl (Panic m)"

definition rbind :: "'e + 'a \<Rightarrow> ('a \<Rightarrow> 'e + 'b) \<Rightarrow> 'e + 'b" where
  "rbind m f = (case m of Inl e \<Rightarrow> Inl e | Inr a \<Rightarrow> f a)"

lemma rbind_simps [simp]:
  "rbind (Inl e) f = Inl e"
  "rbind (Inr a) f = f a"
  by (simp_all add: rbind_def)

lemma rbind_Inr_iff [result_simps]: "rbind m f = Inr b \<longleftrightarrow> (\<exists>a. m = Inr a \<and> f a = Inr b)"
  by (cases m) auto

lemma rbind_Inl_iff [result_simps]:
  "rbind m f = Inl e \<longleftrightarrow> m = Inl e \<or> (\<exists>a. m = Inr a \<and> f a = Inl e)"
  by (cases m) auto

lemma rbind_cong [fundef_cong]:
  "m = m' \<Longrightarrow> (\<And>a. m' = Inr a \<Longrightarrow> f a = f' a) \<Longrightarrow> rbind m f = rbind m' f'"
  by (cases m') auto

definition rmap :: "('a \<Rightarrow> 'b) \<Rightarrow> 'e + 'a \<Rightarrow> 'e + 'b" where
  "rmap f m = (case m of Inl e \<Rightarrow> Inl e | Inr a \<Rightarrow> Inr (f a))"

lemma rmap_simps [simp]:
  "rmap f (Inl e) = Inl e"
  "rmap f (Inr a) = Inr (f a)"
  by (simp_all add: rmap_def)

lemma rmap_Inr_iff [result_simps]: "rmap f m = Inr b \<longleftrightarrow> (\<exists>a. m = Inr a \<and> b = f a)"
  by (cases m) auto

lemma rmap_Inl_iff [result_simps]: "rmap f m = Inl e \<longleftrightarrow> m = Inl e"
  by (cases m) auto

definition is_ok :: "'e + 'a \<Rightarrow> bool" where
  "is_ok m = (case m of Inl _ \<Rightarrow> False | Inr _ \<Rightarrow> True)"

lemma is_ok_simps [simp]: "\<not> is_ok (Inl e)" "is_ok (Inr a)"
  by (simp_all add: is_ok_def)

lemma is_ok_iff [result_simps]: "is_ok m \<longleftrightarrow> (\<exists>a. m = Inr a)"
  by (cases m) auto

definition ok_or :: "'e \<Rightarrow> 'a option \<Rightarrow> ('e, 'a) res" where
  "ok_or e x = (case x of None \<Rightarrow> Err e | Some a \<Rightarrow> Ok a)"

lemma ok_or_simps [simp]: "ok_or e None = Err e" "ok_or e (Some a) = Ok a"
  by (simp_all add: ok_or_def)

lemma ok_or_Inr_iff [result_simps]: "ok_or e x = Inr a \<longleftrightarrow> x = Some a"
  by (cases x) auto

text \<open>A loop that pushes \<open>f(x)?\<close> for every element: the first failure is the result.\<close>

fun traverse :: "('a \<Rightarrow> 'e + 'b) \<Rightarrow> 'a list \<Rightarrow> 'e + 'b list" where
  "traverse f [] = Inr []"
| "traverse f (x # xs) = rbind (f x) (\<lambda>y. rbind (traverse f xs) (\<lambda>ys. Inr (y # ys)))"

text \<open>A loop that keeps the elements for which \<open>p(x)?\<close> holds.\<close>

fun filter_res :: "('a \<Rightarrow> 'e + bool) \<Rightarrow> 'a list \<Rightarrow> 'e + 'a list" where
  "filter_res p [] = Inr []"
| "filter_res p (x # xs) =
     rbind (p x) (\<lambda>b. rbind (filter_res p xs) (\<lambda>ys. Inr (if b then x # ys else ys)))"

lemma traverse_Inr_iff: "traverse f xs = Inr ys \<longleftrightarrow> list_all2 (\<lambda>x y. f x = Inr y) xs ys"
  by (induction xs arbitrary: ys) (auto simp: result_simps list_all2_Cons1)

lemma traverse_length: "traverse f xs = Inr ys \<Longrightarrow> length ys = length xs"
  by (auto simp: traverse_Inr_iff dest: list_all2_lengthD)

lemma traverse_nth: "traverse f xs = Inr ys \<Longrightarrow> i < length xs \<Longrightarrow> f (xs ! i) = Inr (ys ! i)"
  by (auto simp: traverse_Inr_iff list_all2_conv_all_nth)

lemma traverse_nthI:
  "length ys = length xs \<Longrightarrow> (\<And>i. i < length xs \<Longrightarrow> f (xs ! i) = Inr (ys ! i)) \<Longrightarrow> traverse f xs = Inr ys"
  by (simp add: traverse_Inr_iff list_all2_conv_all_nth)

lemma traverse_ok: "(\<And>x. x \<in> set xs \<Longrightarrow> f x = Inr (g x)) \<Longrightarrow> traverse f xs = Inr (map g xs)"
  by (induction xs) auto

lemma traverse_set: "traverse f xs = Inr ys \<Longrightarrow> y \<in> set ys \<Longrightarrow> \<exists>x\<in>set xs. f x = Inr y"
  by (fastforce simp: traverse_Inr_iff list_all2_conv_all_nth in_set_conv_nth)

lemma traverse_total: "(\<And>x. x \<in> set xs \<Longrightarrow> is_ok (f x)) \<Longrightarrow> is_ok (traverse f xs)"
proof (induction xs)
  case Nil
  then show ?case by simp
next
  case (Cons x xs)
  from Cons.prems have "is_ok (f x)" by simp
  moreover from Cons have "is_ok (traverse f xs)" by simp
  ultimately show ?case by (auto simp: is_ok_iff)
qed

lemma traverse_is_ok: "is_ok (traverse f xs) \<longleftrightarrow> (\<forall>x\<in>set xs. is_ok (f x))"
  using traverse_total [of xs f] by (auto simp: is_ok_iff traverse_Inr_iff list_all2_conv_all_nth in_set_conv_nth)

lemma traverse_enumerate_is_ok:
  "is_ok (traverse f (enumerate n xs)) \<longleftrightarrow> (\<forall>i<length xs. is_ok (f (n + i, xs ! i)))"
  by (simp add: traverse_is_ok all_set_conv_all_nth nth_enumerate_eq)

lemma traverse_Inl_first:
  "traverse f xs = Inl e \<longleftrightarrow>
     (\<exists>us x vs. xs = us @ x # vs \<and> (\<forall>u\<in>set us. is_ok (f u)) \<and> f x = Inl e)"
proof (induction xs)
  case Nil
  then show ?case by simp
next
  case (Cons a xs)
  show ?case
  proof (cases "f a")
    case (Inl e')
    then have "\<not> is_ok (f a)" by simp
    with Inl show ?thesis by (force simp: Cons_eq_append_conv)
  next
    case (Inr b)
    then have "traverse f (a # xs) = Inl e \<longleftrightarrow> traverse f xs = Inl e"
      by (auto simp: result_simps)
    also have "\<dots> \<longleftrightarrow> (\<exists>us x vs. xs = us @ x # vs \<and> (\<forall>u\<in>set us. is_ok (f u)) \<and> f x = Inl e)"
      by (rule Cons.IH)
    also have "\<dots> \<longleftrightarrow>
        (\<exists>us x vs. a # xs = us @ x # vs \<and> (\<forall>u\<in>set us. is_ok (f u)) \<and> f x = Inl e)"
    proof
      assume "\<exists>us x vs. xs = us @ x # vs \<and> (\<forall>u\<in>set us. is_ok (f u)) \<and> f x = Inl e"
      then obtain us x vs where h: "xs = us @ x # vs" "\<forall>u\<in>set us. is_ok (f u)" "f x = Inl e" by blast
      then have "a # xs = (a # us) @ x # vs" "\<forall>u\<in>set (a # us). is_ok (f u)" using Inr by auto
      with h(3) show "\<exists>us x vs. a # xs = us @ x # vs \<and> (\<forall>u\<in>set us. is_ok (f u)) \<and> f x = Inl e"
        by blast
    next
      assume "\<exists>us x vs. a # xs = us @ x # vs \<and> (\<forall>u\<in>set us. is_ok (f u)) \<and> f x = Inl e"
      with Inr show "\<exists>us x vs. xs = us @ x # vs \<and> (\<forall>u\<in>set us. is_ok (f u)) \<and> f x = Inl e"
        by (fastforce simp: Cons_eq_append_conv)
    qed
    finally show ?thesis .
  qed
qed

lemma traverse_append:
  "traverse f (xs @ ys) = rbind (traverse f xs) (\<lambda>us. rbind (traverse f ys) (\<lambda>vs. Inr (us @ vs)))"
proof (induction xs)
  case Nil
  show ?case by (cases "traverse f ys") auto
next
  case (Cons x xs)
  then show ?case
    by (cases "f x"; cases "traverse f xs"; cases "traverse f ys") auto
qed

lemma traverse_snoc: "traverse f (xs @ [x]) = rbind (traverse f xs) (\<lambda>us. rmap (\<lambda>v. us @ [v]) (f x))"
  by (cases "traverse f xs"; cases "f x") (simp_all add: traverse_append)

lemma filter_res_ok:
  "(\<And>x. x \<in> set xs \<Longrightarrow> p x = Inr (q x)) \<Longrightarrow> filter_res p xs = Inr (filter q xs)"
  by (induction xs) auto

lemma filter_res_Inr_iff:
  "filter_res p xs = Inr ys \<longleftrightarrow> (\<forall>x\<in>set xs. is_ok (p x)) \<and> filter (\<lambda>x. p x = Inr True) xs = ys"
proof (induction xs arbitrary: ys)
  case Nil
  show ?case by simp
next
  case (Cons x xs)
  show ?case
  proof (cases "p x")
    case (Inl e)
    then show ?thesis by simp
  next
    case (Inr b)
    then have "filter_res p (x # xs) = Inr ys \<longleftrightarrow>
        (\<exists>zs. filter_res p xs = Inr zs \<and> (if b then x # zs else zs) = ys)"
      by (auto simp: rbind_Inr_iff)
    with Inr show ?thesis by (auto simp: Cons.IH)
  qed
qed

lemma traverse_cong [fundef_cong]:
  "xs = ys \<Longrightarrow> (\<And>x. x \<in> set ys \<Longrightarrow> f x = g x) \<Longrightarrow> traverse f xs = traverse g ys"
proof -
  assume eq: "\<And>x. x \<in> set ys \<Longrightarrow> f x = g x" and "xs = ys"
  from eq have "traverse f ys = traverse g ys"
    by (induction ys) auto
  with \<open>xs = ys\<close> show ?thesis by simp
qed

subsection \<open>Slices and iterators\<close>

definition get :: "'a list \<Rightarrow> nat \<Rightarrow> 'a option" where
  "get xs i = (if i < length xs then Some (xs ! i) else None)"

lemma get_simps [simp]:
  "get [] i = None"
  "get (x # xs) 0 = Some x"
  "get (x # xs) (Suc i) = get xs i"
  by (simp_all add: get_def)

lemma get_Some_iff: "get xs i = Some x \<longleftrightarrow> i < length xs \<and> xs ! i = x"
  by (auto simp: get_def)

text \<open>Indexing with \<open>[i]\<close> panics out of range.\<close>

definition index :: "'a list \<Rightarrow> nat \<Rightarrow> ('e, 'a) res" where
  "index xs i = (if i < length xs then Ok (xs ! i) else Panics ''index out of bounds'')"

lemma index_ok [simp]: "i < length xs \<Longrightarrow> index xs i = Ok (xs ! i)"
  by (simp add: index_def)

lemma index_Inr_iff [result_simps]: "index xs i = Inr x \<longleftrightarrow> i < length xs \<and> xs ! i = x"
  by (auto simp: index_def)

lemma index_not_Err [simp]: "index xs i \<noteq> Err e"
  by (simp add: index_def)

fun position :: "('a \<Rightarrow> bool) \<Rightarrow> 'a list \<Rightarrow> nat option" where
  "position p [] = None"
| "position p (x # xs) = (if p x then Some 0 else map_option Suc (position p xs))"

lemma position_None_iff: "position p xs = None \<longleftrightarrow> (\<forall>x\<in>set xs. \<not> p x)"
  by (induction xs) auto

lemma position_Some_iff:
  "position p xs = Some i \<longleftrightarrow> i < length xs \<and> p (xs ! i) \<and> (\<forall>j<i. \<not> p (xs ! j))"
proof (induction xs arbitrary: i)
  case Nil
  then show ?case by simp
next
  case (Cons x xs)
  show ?case
  proof (cases i)
    case 0
    then show ?thesis by auto
  next
    case (Suc k)
    have "(\<forall>j<Suc k. \<not> p ((x # xs) ! j)) \<longleftrightarrow> \<not> p x \<and> (\<forall>j<k. \<not> p (xs ! j))"
      by (auto simp: less_Suc_eq_0_disj)
    with Suc Cons show ?thesis by auto
  qed
qed

lemma position_bound: "position p xs = Some i \<Longrightarrow> i < length xs"
  by (simp add: position_Some_iff)

lemma position_ex: "(\<exists>i. position p xs = Some i) \<longleftrightarrow> (\<exists>x\<in>set xs. p x)"
  using position_None_iff [of p xs] by (cases "position p xs") auto

subsection \<open>Comparison functions\<close>

text \<open>\<open>std::cmp::Ordering\<close>, and the comparison of a linearly ordered key.\<close>

datatype ordering = Less | Equal | Greater

fun reverse :: "ordering \<Rightarrow> ordering" where
  "reverse Less = Greater"
| "reverse Equal = Equal"
| "reverse Greater = Less"

fun then_with :: "ordering \<Rightarrow> ordering \<Rightarrow> ordering" where
  "then_with Less _ = Less"
| "then_with Greater _ = Greater"
| "then_with Equal c = c"

definition cmp :: "'a::linorder \<Rightarrow> 'a \<Rightarrow> ordering" where
  "cmp x y = (if x < y then Less else if x = y then Equal else Greater)"

lemma cmp_iff [cmp_simps]:
  "cmp x y = Less \<longleftrightarrow> x < y"
  "cmp x y = Equal \<longleftrightarrow> x = y"
  "cmp x y = Greater \<longleftrightarrow> y < x"
  by (auto simp: cmp_def)

text \<open>
  What a comparison promises the code that sorts or searches with it: swapping the arguments
  reverses the answer, and ``not greater'' is transitive. \<open>linear_cmp\<close> adds that equal means
  identical. The first suffices for stable sorting, the second makes the sorted list unique.
\<close>

locale preorder_cmp =
  fixes c :: "'a \<Rightarrow> 'a \<Rightarrow> ordering"
  assumes swap: "c y x = reverse (c x y)"
    and trans_le: "c x y \<noteq> Greater \<Longrightarrow> c y z \<noteq> Greater \<Longrightarrow> c x z \<noteq> Greater"
begin

lemma greater_iff: "c x y = Greater \<longleftrightarrow> c y x = Less"
  by (subst swap) (cases "c y x"; simp)

lemma equal_sym: "c x y = Equal \<longleftrightarrow> c y x = Equal"
  by (subst swap) (cases "c y x"; simp)

lemma refl_eq [simp]: "c x x = Equal"
  using greater_iff [of x x] by (cases "c x x") auto

lemma total_le: "c x y \<noteq> Greater \<or> c y x \<noteq> Greater"
  using greater_iff [of x y] by auto

lemma not_greater_iff: "c x y \<noteq> Greater \<longleftrightarrow> c y x \<noteq> Less"
  by (simp add: greater_iff)

lemma less_trans: "c x y = Less \<Longrightarrow> c y z \<noteq> Greater \<Longrightarrow> c x z = Less"
proof -
  assume xy: "c x y = Less" and yz: "c y z \<noteq> Greater"
  from xy yz have "c x z \<noteq> Greater" by (metis ordering.distinct(3) trans_le)
  moreover have "c x z \<noteq> Equal"
  proof
    assume "c x z = Equal"
    then have "c z x = Equal" by (rule equal_sym [THEN iffD1])
    then have "c z x \<noteq> Greater" by simp
    with yz have "c y x \<noteq> Greater" by (rule trans_le)
    with xy show False by (simp add: greater_iff)
  qed
  ultimately show ?thesis by (cases "c x z") auto
qed

lemma greater_trans: "c x y = Greater \<Longrightarrow> c y z \<noteq> Less \<Longrightarrow> c x z = Greater"
proof -
  assume xy: "c x y = Greater" and yz: "c y z \<noteq> Less"
  from yz have "c z y \<noteq> Greater" by (simp add: not_greater_iff)
  have "c y x = Less" using xy by (simp add: greater_iff)
  have "c z x = Less"
  proof (rule ccontr)
    assume "c z x \<noteq> Less"
    then have "c x z \<noteq> Greater" by (simp add: greater_iff)
    then have "c x y \<noteq> Greater" using \<open>c z y \<noteq> Greater\<close> by (rule trans_le)
    with xy show False by simp
  qed
  then show ?thesis by (simp add: greater_iff)
qed

end

locale linear_cmp = preorder_cmp +
  assumes eq_id: "c x y = Equal \<Longrightarrow> x = y"
begin

lemma eq_iff: "c x y = Equal \<longleftrightarrow> x = y"
  using eq_id by auto

lemma antisym_le: "c x y \<noteq> Greater \<Longrightarrow> c y x \<noteq> Greater \<Longrightarrow> x = y"
  using greater_iff [of x y] greater_iff [of y x] eq_id [of x y] by (cases "c x y") auto

end

interpretation lin: linear_cmp "cmp :: 'a::linorder \<Rightarrow> 'a \<Rightarrow> ordering"
  by unfold_locales (auto simp: cmp_def split: if_splits)

text \<open>Comparing by a key is again a comparison; by an injective key, a linear one.\<close>

definition cmp_key :: "('a \<Rightarrow> 'k::linorder) \<Rightarrow> 'a \<Rightarrow> 'a \<Rightarrow> ordering" where
  "cmp_key k x y = cmp (k x) (k y)"

lemma cmp_key_preorder: "preorder_cmp (cmp_key k)"
  by unfold_locales (auto simp: cmp_key_def cmp_def split: if_splits)

lemma cmp_key_linear: "inj k \<Longrightarrow> linear_cmp (cmp_key k)"
  by (intro linear_cmp.intro cmp_key_preorder linear_cmp_axioms.intro)
    (auto simp: cmp_key_def cmp_simps dest: injD)

end
