(* ===== verification/Sort_By.thy ===== *)
theory Sort_By
  imports Prelude
begin

text \<open>
  \<open>slice::sort_by\<close>, the stable sort of the standard library, as insertion from the right, and the
  left-to-right search for the first best element that the program's arg-max loops perform. The
  facts are proved in the comparison locales of \<open>Prelude\<close>, so every component that sorts or
  searches gets them from the interpretation for its own comparison.
\<close>

fun insert_by :: "('a \<Rightarrow> 'a \<Rightarrow> ordering) \<Rightarrow> 'a \<Rightarrow> 'a list \<Rightarrow> 'a list" where
  "insert_by c x [] = [x]"
| "insert_by c x (y # ys) = (if c x y = Greater then y # insert_by c x ys else x # y # ys)"

fun sort_by :: "('a \<Rightarrow> 'a \<Rightarrow> ordering) \<Rightarrow> 'a list \<Rightarrow> 'a list" where
  "sort_by c [] = []"
| "sort_by c (x # xs) = insert_by c x (sort_by c xs)"

text \<open>
  \<open>for x in xs { match best { None => best = x, Some(b) => if better x b { best = x } } }\<close>
\<close>

fun best_from :: "('a \<Rightarrow> 'a \<Rightarrow> bool) \<Rightarrow> 'a option \<Rightarrow> 'a list \<Rightarrow> 'a option" where
  "best_from better b [] = b"
| "best_from better None (x # xs) = best_from better (Some x) xs"
| "best_from better (Some b) (x # xs) = best_from better (Some (if better x b then x else b)) xs"

lemma mset_insert_by [simp]: "mset (insert_by c x xs) = {#x#} + mset xs"
  by (induction xs) auto

lemma mset_sort_by [simp]: "mset (sort_by c xs) = mset xs"
  by (induction xs) auto

lemma set_sort_by [simp]: "set (sort_by c xs) = set xs"
  by (metis mset_sort_by set_mset_mset)

lemma set_insert_by [simp]: "set (insert_by c x xs) = insert x (set xs)"
  by (induction xs) auto

lemma length_sort_by [simp]: "length (sort_by c xs) = length xs"
  by (metis mset_sort_by size_mset)

lemma best_from_Some: "\<exists>m. best_from better (Some b) xs = Some m"
  by (induction xs arbitrary: b) auto

lemma best_from_None_iff: "best_from better None xs = None \<longleftrightarrow> xs = []"
proof (cases xs)
  case (Cons x ys)
  then obtain m where "best_from better None xs = Some m"
    using best_from_Some [of better x ys] by auto
  with Cons show ?thesis by simp
qed simp

lemma best_from_mem: "best_from better b xs = Some m \<Longrightarrow> m \<in> set xs \<or> b = Some m"
  by (induction better b xs rule: best_from.induct) (auto split: if_splits)

lemma best_from_append:
  "best_from better b (xs @ ys) = best_from better (best_from better b xs) ys"
  by (induction better b xs rule: best_from.induct) auto

context preorder_cmp
begin

lemma sorted_insert_by:
  "sorted_wrt (\<lambda>a b. c a b \<noteq> Greater) xs \<Longrightarrow> sorted_wrt (\<lambda>a b. c a b \<noteq> Greater) (insert_by c x xs)"
proof (induction xs)
  case Nil
  show ?case by simp
next
  case (Cons y ys)
  then have ys: "\<forall>z\<in>set ys. c y z \<noteq> Greater"
    and IH: "sorted_wrt (\<lambda>a b. c a b \<noteq> Greater) (insert_by c x ys)" by simp_all
  show ?case
  proof (cases "c x y = Greater")
    case True
    then have "c y x \<noteq> Greater" by (simp add: greater_iff)
    with True ys IH show ?thesis by auto
  next
    case False
    then have "\<forall>z\<in>set ys. c x z \<noteq> Greater" using ys trans_le by blast
    with False Cons.prems show ?thesis by simp
  qed
qed

lemma sorted_sort_by: "sorted_wrt (\<lambda>a b. c a b \<noteq> Greater) (sort_by c xs)"
  by (induction xs) (auto intro: sorted_insert_by)

text \<open>Stability: the elements equal to any pivot keep their order.\<close>

lemma insert_by_stable:
  "sorted_wrt (\<lambda>a b. c a b \<noteq> Greater) xs \<Longrightarrow>
   filter (\<lambda>y. c y p = Equal) (insert_by c x xs) = filter (\<lambda>y. c y p = Equal) (x # xs)"
proof (induction xs)
  case Nil
  show ?case by simp
next
  case (Cons y ys)
  show ?case
  proof (cases "c x y = Greater")
    case True
    have "\<not> (c x p = Equal \<and> c y p = Equal)"
    proof
      assume "c x p = Equal \<and> c y p = Equal"
      then have "c x p \<noteq> Greater" and "c p y \<noteq> Greater" using equal_sym [of y p] by simp_all
      then have "c x y \<noteq> Greater" by (rule trans_le)
      with True show False by simp
    qed
    with True Cons show ?thesis by auto
  next
    case False
    then show ?thesis by simp
  qed
qed

lemma sort_by_stable: "filter (\<lambda>y. c y p = Equal) (sort_by c xs) = filter (\<lambda>y. c y p = Equal) xs"
  by (induction xs) (simp_all add: insert_by_stable sorted_sort_by)

text \<open>The search keeps the first element that no other one beats.\<close>

lemma best_from_upper:
  "best_from (\<lambda>x b. c x b = Greater) (Some b) xs = Some m \<Longrightarrow>
   c b m \<noteq> Greater \<and> (\<forall>x\<in>set xs. c x m \<noteq> Greater)"
proof (induction xs arbitrary: b)
  case Nil
  then show ?case by simp
next
  case (Cons x xs)
  show ?case
  proof (cases "c x b = Greater")
    case True
    with Cons have *: "c x m \<noteq> Greater" "\<forall>y\<in>set xs. c y m \<noteq> Greater" by auto
    moreover have "c b x \<noteq> Greater" using True by (simp add: greater_iff)
    ultimately have "c b m \<noteq> Greater" using trans_le by blast
    with * show ?thesis by simp
  next
    case False
    with Cons have *: "c b m \<noteq> Greater" "\<forall>y\<in>set xs. c y m \<noteq> Greater" by auto
    with False have "c x m \<noteq> Greater" using trans_le by blast
    with * show ?thesis by simp
  qed
qed

lemma best_from_first:
  "best_from (\<lambda>x b. c x b = Greater) (Some b) xs = Some m \<Longrightarrow>
   (m = b \<or> c m b = Greater) \<and>
   (m = b \<or> (\<exists>us vs. xs = us @ m # vs \<and> (\<forall>u\<in>set us. c m u = Greater)))"
proof (induction xs arbitrary: b)
  case Nil
  then show ?case by simp
next
  case (Cons x xs)
  show ?case
  proof (cases "c x b = Greater")
    case True
    with Cons have IH: "m = x \<or> c m x = Greater"
      "m = x \<or> (\<exists>us vs. xs = us @ m # vs \<and> (\<forall>u\<in>set us. c m u = Greater))" by auto
    have mb: "c m b = Greater"
      using IH(1) True greater_trans [of m x b] by auto
    from IH have "\<exists>us vs. x # xs = us @ m # vs \<and> (\<forall>u\<in>set us. c m u = Greater)"
    proof (cases "m = x")
      case True
      then have "x # xs = [] @ m # xs" by simp
      then show ?thesis by fastforce
    next
      case False
      with IH obtain us vs where "xs = us @ m # vs" "\<forall>u\<in>set us. c m u = Greater" "c m x = Greater"
        by auto
      then have "x # xs = (x # us) @ m # vs" "\<forall>u\<in>set (x # us). c m u = Greater" by auto
      then show ?thesis by blast
    qed
    with mb show ?thesis by blast
  next
    case False
    with Cons have IH: "m = b \<or> c m b = Greater"
      "m = b \<or> (\<exists>us vs. xs = us @ m # vs \<and> (\<forall>u\<in>set us. c m u = Greater))" by auto
    show ?thesis
    proof (cases "m = b")
      case True
      then show ?thesis by simp
    next
      case mb: False
      with IH obtain us vs where d: "xs = us @ m # vs" "\<forall>u\<in>set us. c m u = Greater" "c m b = Greater"
        by auto
      have "c m x = Greater"
        using d(3) False greater_trans [of m b x] greater_iff [of x b] by auto
      with d have "x # xs = (x # us) @ m # vs" "\<forall>u\<in>set (x # us). c m u = Greater" by auto
      with d(3) show ?thesis by blast
    qed
  qed
qed

end

context linear_cmp
begin

text \<open>For a linear comparison the sorted arrangement of a multiset is unique.\<close>

lemma sorted_unique:
  "sorted_wrt (\<lambda>a b. c a b \<noteq> Greater) xs \<Longrightarrow> sorted_wrt (\<lambda>a b. c a b \<noteq> Greater) ys \<Longrightarrow>
   mset xs = mset ys \<Longrightarrow> xs = ys"
proof (induction xs arbitrary: ys)
  case Nil
  then show ?case by simp
next
  case (Cons x xs)
  then obtain y ys' where ys: "ys = y # ys'" by (cases ys) auto
  have mem: "x \<in> set ys" "y \<in> set (x # xs)"
    using Cons.prems(3) ys by (metis list.set_intros(1) mset_eq_setD)+
  have "c x y \<noteq> Greater" using mem(2) Cons.prems(1) by auto
  moreover have "c y x \<noteq> Greater" using mem(1) Cons.prems(2) ys by auto
  ultimately have "x = y" by (rule antisym_le)
  with Cons ys show ?case by auto
qed

lemma sort_by_perm: "mset xs = mset ys \<Longrightarrow> sort_by c xs = sort_by c ys"
  by (rule sorted_unique) (simp_all add: sorted_sort_by)

end

text \<open>Sorting depends on the comparison of the sorted elements only.\<close>

lemma insert_by_cong:
  "(\<And>y. y \<in> set xs \<Longrightarrow> c x y = d x y) \<Longrightarrow> insert_by c x xs = insert_by d x xs"
  by (induction xs) auto

lemma sort_by_cong:
  "(\<And>x y. x \<in> set xs \<Longrightarrow> y \<in> set xs \<Longrightarrow> c x y = d x y) \<Longrightarrow> sort_by c xs = sort_by d xs"
proof (induction xs)
  case Nil
  show ?case by simp
next
  case (Cons x xs)
  then have "sort_by c xs = sort_by d xs" by simp
  with Cons.prems show ?case by (auto intro: insert_by_cong)
qed

lemma insert_by_map: "insert_by c (f x) (map f xs) = map f (insert_by (\<lambda>a b. c (f a) (f b)) x xs)"
  by (induction xs) auto

lemma sort_by_map: "sort_by c (map f xs) = map f (sort_by (\<lambda>a b. c (f a) (f b)) xs)"
  by (induction xs) (simp_all add: insert_by_map)

end
