(* ===== verification/Rust_Str.thy ===== *)
theory Rust_Str
  imports Sort_By "HOL-Library.Char_ord" "HOL-Library.List_Lexorder" "HOL-Library.Sublist"
begin

text \<open>
  Rust's \<open>String\<close>/\<open>str\<close> as the list of its UTF-8 bytes (Isabelle's \<open>char\<close> is one byte), with
  the operations of the standard library the program calls. \<open>chars\<close> cuts a string at its
  character boundaries: a byte opens a new scalar value unless it is a continuation byte
  (\<open>0b10xxxxxx\<close>), which is how \<open>str::is_char_boundary\<close> decides. Comparison of strings is the
  lexicographic order on bytes, i.e. the library's order on \<open>char list\<close>.
\<close>

subsection \<open>Characters and character boundaries\<close>

definition is_cont :: "char \<Rightarrow> bool" where
  "is_cont c \<longleftrightarrow> 128 \<le> (of_char c :: nat) \<and> (of_char c :: nat) < 192"

definition is_char_boundary :: "string \<Rightarrow> nat \<Rightarrow> bool" where
  "is_char_boundary s i \<longleftrightarrow> i = 0 \<or> i = length s \<or> (i < length s \<and> \<not> is_cont (s ! i))"

function chars :: "string \<Rightarrow> string list" where
  "chars [] = []"
| "chars (c # cs) = (c # takeWhile is_cont cs) # chars (dropWhile is_cont cs)"
  by pat_completeness auto
termination
  by (relation "measure length") (auto simp: less_Suc_eq_le length_dropWhile_le)

abbreviation char_count :: "string \<Rightarrow> nat" where
  "char_count s \<equiv> length (chars s)"

text \<open>A string is well cut when it does not start in the middle of a scalar value.\<close>

definition utf8_start :: "string \<Rightarrow> bool" where
  "utf8_start s \<longleftrightarrow> (case s of [] \<Rightarrow> True | c # _ \<Rightarrow> \<not> is_cont c)"

lemma concat_chars [simp]: "concat (chars s) = s"
  by (induction s rule: chars.induct) auto

lemma chars_Nil_iff [simp]: "chars s = [] \<longleftrightarrow> s = []"
  by (cases s) auto

lemma chars_nonempty: "g \<in> set (chars s) \<Longrightarrow> g \<noteq> []"
  by (induction s rule: chars.induct) auto

text \<open>A scalar value: one leading byte and its continuation bytes.\<close>

definition is_scalar :: "string \<Rightarrow> bool" where
  "is_scalar g \<longleftrightarrow> (case g of [] \<Rightarrow> False | c # cs \<Rightarrow> \<not> is_cont c \<and> (\<forall>d\<in>set cs. is_cont d))"

lemma utf8_start_dropWhile: "utf8_start (dropWhile is_cont s)"
  by (induction s) (auto simp: utf8_start_def)

lemma chars_scalar: "utf8_start s \<Longrightarrow> g \<in> set (chars s) \<Longrightarrow> is_scalar g"
proof (induction s rule: chars.induct)
  case 1
  then show ?case by simp
next
  case (2 c cs)
  have "is_scalar (c # takeWhile is_cont cs)"
    using "2.prems"(1) by (auto simp: is_scalar_def utf8_start_def dest: set_takeWhileD)
  with 2 utf8_start_dropWhile show ?case by auto
qed

lemma chars_concat: "(\<And>g. g \<in> set gs \<Longrightarrow> is_scalar g) \<Longrightarrow> chars (concat gs) = gs"
proof (induction gs)
  case Nil
  then show ?case by simp
next
  case (Cons g gs)
  from Cons.prems [of g] obtain c cs where g: "g = c # cs" "\<not> is_cont c" "\<forall>d\<in>set cs. is_cont d"
    by (cases g) (auto simp: is_scalar_def)
  have "takeWhile is_cont (concat gs) = [] \<and> dropWhile is_cont (concat gs) = concat gs"
  proof (cases gs)
    case Nil
    then show ?thesis by simp
  next
    case (Cons h hs)
    with Cons.prems [of h] obtain d ds where "h = d # ds" "\<not> is_cont d"
      by (cases h) (auto simp: is_scalar_def)
    with Cons show ?thesis by simp
  qed
  with g Cons show ?case by (simp add: takeWhile_append2 dropWhile_append2)
qed

text \<open>Cutting at a boundary: the characters of both parts together.\<close>

lemma chars_append: "utf8_start t \<Longrightarrow> chars (s @ t) = chars s @ chars t"
proof (induction s rule: chars.induct)
  case 1
  then show ?case by simp
next
  case (2 c cs)
  show ?case
  proof (cases "\<forall>d\<in>set cs. is_cont d")
    case True
    have "takeWhile is_cont t = [] \<and> dropWhile is_cont t = t"
      using "2.prems" by (cases t) (auto simp: utf8_start_def)
    moreover from True have tw: "takeWhile is_cont cs = cs"
      by (simp add: takeWhile_eq_all_conv)
    ultimately show ?thesis using True
      by (simp add: takeWhile_append2 dropWhile_append2 tw)
  next
    case False
    then obtain d where "d \<in> set cs" "\<not> is_cont d" by blast
    then show ?thesis using 2
      by (simp add: takeWhile_append1 [of d] dropWhile_append1 [of d])
  qed
qed

text \<open>
  \<open>String::from_utf8_lossy\<close>: the width of the encoded character at the front, or how many bytes of
  it are sound before the first one that is not; each unsound run becomes U+FFFD.
\<close>

definition utf8_front :: "nat list \<Rightarrow> bool \<times> nat" where
  "utf8_front bs =
     (let b0 = hd bs; cont = (\<lambda>i. i < length bs \<and> 128 \<le> bs ! i \<and> bs ! i < 192);
          within = (\<lambda>lo hi. 1 < length bs \<and> lo \<le> bs ! 1 \<and> bs ! 1 \<le> hi);
          second = (if b0 = 224 then within 160 191 else if b0 = 237 then within 128 159
            else if b0 = 240 then within 144 191 else if b0 = 244 then within 128 143 else within 128 191)
      in if b0 < 128 then (True, 1)
         else if 194 \<le> b0 \<and> b0 \<le> 223 then (if second then (True, 2) else (False, 1))
         else if 224 \<le> b0 \<and> b0 \<le> 239 then
           (if \<not> second then (False, 1) else if cont 2 then (True, 3) else (False, 2))
         else if 240 \<le> b0 \<and> b0 \<le> 244 then
           (if \<not> second then (False, 1) else if \<not> cont 2 then (False, 2) else if cont 3 then (True, 4) else (False, 3))
         else (False, 1))"

function from_utf8_lossy :: "string \<Rightarrow> string" where
  "from_utf8_lossy [] = []"
| "from_utf8_lossy (c # cs) =
     (case utf8_front (map of_char (c # cs)) of
        (ok, n) \<Rightarrow> (if ok then take n (c # cs) else [CHR 0xEF, CHR 0xBF, CHR 0xBD]) @
          from_utf8_lossy (drop (max 1 n) (c # cs)))"
  by pat_completeness auto
termination
  by (relation "measure length") auto

lemma from_utf8_lossy_ascii: "\<forall>c\<in>set s. (of_char c :: nat) < 128 \<Longrightarrow> from_utf8_lossy s = s"
  by (induction s rule: from_utf8_lossy.induct) (auto simp: utf8_front_def)

subsection \<open>ASCII case, white space, cutting\<close>

definition ascii_lower :: "char \<Rightarrow> char" where
  "ascii_lower c = (let n = of_char c :: nat in if 65 \<le> n \<and> n \<le> 90 then char_of (n + 32) else c)"

definition to_ascii_lowercase :: "string \<Rightarrow> string" where
  "to_ascii_lowercase s = map ascii_lower s"

definition eq_ignore_ascii_case :: "string \<Rightarrow> string \<Rightarrow> bool" where
  "eq_ignore_ascii_case s t \<longleftrightarrow> to_ascii_lowercase s = to_ascii_lowercase t"

lemma ascii_lower_idem [simp]: "ascii_lower (ascii_lower c) = ascii_lower c"
  by (auto simp: ascii_lower_def Let_def)

lemma to_ascii_lowercase_idem [simp]:
  "to_ascii_lowercase (to_ascii_lowercase s) = to_ascii_lowercase s"
  by (simp add: to_ascii_lowercase_def)

text \<open>The Unicode \<open>White_Space\<close> scalar values, as their UTF-8 bytes.\<close>

definition is_ws :: "string \<Rightarrow> bool" where
  "is_ws g = (let bs = map (of_char :: char \<Rightarrow> nat) g in
     (length bs = 1 \<and> (9 \<le> bs ! 0 \<and> bs ! 0 \<le> 13 \<or> bs ! 0 = 32)) \<or>
     bs = [194, 133] \<or> bs = [194, 160] \<or> bs = [225, 154, 128] \<or>
     (length bs = 3 \<and> bs ! 0 = 226 \<and> bs ! 1 = 128 \<and>
        (128 \<le> bs ! 2 \<and> bs ! 2 \<le> 138 \<or> bs ! 2 = 168 \<or> bs ! 2 = 169 \<or> bs ! 2 = 175)) \<or>
     bs = [226, 129, 159] \<or> bs = [227, 128, 128])"

definition trim_with :: "('a \<Rightarrow> bool) \<Rightarrow> 'a list \<Rightarrow> 'a list" where
  "trim_with p xs = rev (dropWhile p (rev (dropWhile p xs)))"

definition trim :: "string \<Rightarrow> string" where
  "trim s = concat (trim_with is_ws (chars s))"

definition trim_start_matches :: "char \<Rightarrow> string \<Rightarrow> string" where
  "trim_start_matches c s = dropWhile (\<lambda>d. d = c) s"

definition trim_end_matches :: "char \<Rightarrow> string \<Rightarrow> string" where
  "trim_end_matches c s = rev (dropWhile (\<lambda>d. d = c) (rev s))"

lemma set_trim_with: "set (trim_with p xs) \<subseteq> set xs"
proof
  fix x
  assume "x \<in> set (trim_with p xs)"
  then have "x \<in> set (dropWhile p (rev (dropWhile p xs)))" by (simp add: trim_with_def)
  then have "x \<in> set (rev (dropWhile p xs))" by (rule set_dropWhileD)
  then show "x \<in> set xs" by (auto dest: set_dropWhileD)
qed

lemma dropWhile_id: "xs = [] \<or> \<not> p (hd xs) \<Longrightarrow> dropWhile p xs = xs"
  by (cases xs) auto

lemma trim_with_idem [simp]: "trim_with p (trim_with p xs) = trim_with p xs"
proof -
  define ys where "ys = dropWhile p xs"
  define zs where "zs = rev (dropWhile p (rev ys))"
  have z: "trim_with p xs = zs" by (simp add: trim_with_def zs_def ys_def)
  have "prefix zs ys"
    using suffix_dropWhile [of p "rev ys"] by (simp add: zs_def suffix_to_prefix)
  then have "zs = [] \<or> hd zs = hd ys" by (cases zs) (auto simp: prefix_def)
  moreover have "ys = [] \<or> \<not> p (hd ys)" unfolding ys_def by (metis hd_dropWhile)
  moreover have "ys = [] \<Longrightarrow> zs = []" by (simp add: zs_def)
  ultimately have "zs = [] \<or> \<not> p (hd zs)" by metis
  then have 1: "dropWhile p zs = zs" by (rule dropWhile_id)
  have "rev zs = [] \<or> \<not> p (hd (rev zs))" unfolding zs_def rev_rev_ident by (metis hd_dropWhile)
  then have 2: "dropWhile p (rev zs) = rev zs" by (rule dropWhile_id)
  have "trim_with p zs = zs" unfolding trim_with_def 1 2 by simp
  with z show ?thesis by simp
qed

lemma trim_idem: "utf8_start s \<Longrightarrow> trim (trim s) = trim s"
proof -
  assume "utf8_start s"
  then have "\<And>g. g \<in> set (trim_with is_ws (chars s)) \<Longrightarrow> is_scalar g"
    by (meson chars_scalar set_trim_with subsetD)
  then have "chars (trim s) = trim_with is_ws (chars s)"
    unfolding trim_def by (rule chars_concat)
  then show ?thesis by (simp add: trim_def)
qed

text \<open>\<open>split_once\<close>, \<open>rsplit_once\<close> and \<open>split\<close> at an ASCII character.\<close>

fun split_once :: "char \<Rightarrow> string \<Rightarrow> (string \<times> string) option" where
  "split_once c [] = None"
| "split_once c (d # ds) =
     (if d = c then Some ([], ds) else map_option (\<lambda>(k, v). (d # k, v)) (split_once c ds))"

definition rsplit_once :: "char \<Rightarrow> string \<Rightarrow> (string \<times> string) option" where
  "rsplit_once c s = map_option (\<lambda>(k, v). (rev v, rev k)) (split_once c (rev s))"

fun split_on :: "char \<Rightarrow> string \<Rightarrow> string list" where
  "split_on c [] = [[]]"
| "split_on c (d # ds) =
     (if d = c then [] # split_on c ds
      else (case split_on c ds of [] \<Rightarrow> [[d]] | g # gs \<Rightarrow> (d # g) # gs))"

definition starts_with :: "string \<Rightarrow> string \<Rightarrow> bool" where
  "starts_with p s \<longleftrightarrow> prefix p s"

definition contains_char :: "char \<Rightarrow> string \<Rightarrow> bool" where
  "contains_char c s \<longleftrightarrow> c \<in> set s"

lemma split_once_Some_iff:
  "split_once c s = Some (k, v) \<longleftrightarrow> s = k @ c # v \<and> c \<notin> set k"
proof (induction s arbitrary: k)
  case Nil
  then show ?case by simp
next
  case (Cons d ds)
  then show ?case by (cases k) auto
qed

lemma split_once_None_iff: "split_once c s = None \<longleftrightarrow> c \<notin> set s"
  by (induction s) auto

lemma split_on_nonempty [simp]: "split_on c s \<noteq> []"
  by (induction s) (auto split: list.splits)

fun join_with :: "char \<Rightarrow> string list \<Rightarrow> string" where
  "join_with c [] = []"
| "join_with c [g] = g"
| "join_with c (g # gs) = g @ c # join_with c gs"

lemma join_split [simp]: "join_with c (split_on c s) = s"
proof (induction s)
  case Nil
  then show ?case by simp
next
  case (Cons d ds)
  then show ?case
    by (cases "split_on c ds"; cases "tl (split_on c ds)") auto
qed

text \<open>Quoting, as in \<open>'\{name\}'\<close>.\<close>

definition sq :: "string \<Rightarrow> string" where
  "sq s = CHR 0x27 # s @ [CHR 0x27]"

end
