(* ===== verification/Rust_Num.thy ===== *)
theory Rust_Num
  imports Rust_Str
begin

text \<open>
  Machine integers and their decimal text. An \<open>i64\<close> is a 64-bit word read as two's complement;
  \<open>usize\<close> quantities (row counts, indices) are \<open>nat\<close>. Printing is \<open>Display\<close>
  (\<open>to_string\<close>, \<open>\{x\}\<close>) and the zero-padded \<open>\{x:020\}\<close>; parsing is \<open>str::parse\<close>, which
  accumulates digit by digit with a range check at every step and reports the first problem.
\<close>

type_synonym i64 = "64 word"

definition i64_min :: int where "i64_min = - (2 ^ 63)"
definition i64_max :: int where "i64_max = 2 ^ 63 - 1"

definition in_i64 :: "int \<Rightarrow> bool" where
  "in_i64 n \<longleftrightarrow> i64_min \<le> n \<and> n \<le> i64_max"

lemma sint_range [simp]: "in_i64 (sint (x :: i64))"
  using sint_ge [of x] sint_lt [of x] by (simp add: in_i64_def i64_min_def i64_max_def)

lemma sint_of_int: "in_i64 n \<Longrightarrow> sint (word_of_int n :: i64) = n"
  by (subst sint_sbintrunc')
     (auto simp: in_i64_def i64_min_def i64_max_def intro!: signed_take_bit_int_eq_self)

lemma word_of_sint [simp]: "word_of_int (sint (x :: i64)) = x"
  by simp

definition i64_cmp :: "i64 \<Rightarrow> i64 \<Rightarrow> ordering" where
  "i64_cmp = cmp_key sint"

interpretation i64: linear_cmp i64_cmp
  unfolding i64_cmp_def by (rule cmp_key_linear) (auto simp: inj_def signed_word_eqI)

definition i64_min_of :: "i64 \<Rightarrow> i64 \<Rightarrow> i64" where
  "i64_min_of a b = (if sint b < sint a then b else a)"

definition i64_max_of :: "i64 \<Rightarrow> i64 \<Rightarrow> i64" where
  "i64_max_of a b = (if sint a \<le> sint b then b else a)"

lemma sint_i64_min_of [simp]: "sint (i64_min_of a b) = min (sint a) (sint b)"
  by (simp add: i64_min_of_def min_def)

lemma sint_i64_max_of [simp]: "sint (i64_max_of a b) = max (sint a) (sint b)"
  by (simp add: i64_max_of_def max_def)

subsection \<open>Printing\<close>

definition digit :: "nat \<Rightarrow> char" where
  "digit d = char_of (48 + d)"

fun show_nat :: "nat \<Rightarrow> string" where
  "show_nat n = (if n < 10 then [digit n] else show_nat (n div 10) @ [digit (n mod 10)])"

declare show_nat.simps [simp del]

definition show_int :: "int \<Rightarrow> string" where
  "show_int n = (if n < 0 then CHR ''-'' # show_nat (nat (- n)) else show_nat (nat n))"

definition show_i64 :: "i64 \<Rightarrow> string" where
  "show_i64 x = show_int (sint x)"

definition show_bool :: "bool \<Rightarrow> string" where
  "show_bool b = (if b then ''true'' else ''false'')"

text \<open>\<open>\{n:020\}\<close>: zeros after the sign, to a total width of 20.\<close>

definition pad20 :: "int \<Rightarrow> string" where
  "pad20 n = (if n < 0
     then CHR ''-'' # (let d = show_nat (nat (- n)) in replicate (19 - length d) (CHR ''0'') @ d)
     else (let d = show_nat (nat n) in replicate (20 - length d) (CHR ''0'') @ d))"

subsection \<open>Parsing\<close>

datatype int_err = IntEmpty | InvalidDigit | PosOverflow | NegOverflow

fun int_err_text :: "int_err \<Rightarrow> string" where
  "int_err_text IntEmpty = ''cannot parse integer from empty string''"
| "int_err_text InvalidDigit = ''invalid digit found in string''"
| "int_err_text PosOverflow = ''number too large to fit in target type''"
| "int_err_text NegOverflow = ''number too small to fit in target type''"

definition is_digit :: "char \<Rightarrow> bool" where
  "is_digit c \<longleftrightarrow> 48 \<le> (of_char c :: nat) \<and> (of_char c :: nat) \<le> 57"

definition digit_val :: "char \<Rightarrow> int" where
  "digit_val c = int (of_char c) - 48"

fun parse_digits :: "bool \<Rightarrow> int \<Rightarrow> string \<Rightarrow> int_err + int" where
  "parse_digits neg acc [] = Inr acc"
| "parse_digits neg acc (c # cs) =
     (if \<not> is_digit c then Inl InvalidDigit
      else let r = (if neg then 10 * acc - digit_val c else 10 * acc + digit_val c) in
        if \<not> in_i64 r then Inl (if neg then NegOverflow else PosOverflow)
        else parse_digits neg r cs)"

definition parse_i64 :: "string \<Rightarrow> int_err + i64" where
  "parse_i64 s = rmap word_of_int
     (case s of
        [] \<Rightarrow> Inl IntEmpty
      | c # cs \<Rightarrow>
          if (c = CHR ''+'' \<or> c = CHR ''-'') \<and> cs = [] then Inl InvalidDigit
          else if c = CHR ''-'' then parse_digits True 0 cs
          else if c = CHR ''+'' then parse_digits False 0 cs
          else parse_digits False 0 s)"

text \<open>\<open>str::parse::<bool>\<close> accepts exactly the two words.\<close>

definition parse_bool_std :: "string \<Rightarrow> bool option" where
  "parse_bool_std s = (if s = ''true'' then Some True else if s = ''false'' then Some False else None)"

subsection \<open>Printing then parsing\<close>

lemma of_char_digit: "d < 10 \<Longrightarrow> of_char (digit d) = (48 + d :: nat)"
  by (simp add: digit_def)

lemma is_digit_digit: "d < 10 \<Longrightarrow> is_digit (digit d)"
  by (simp add: is_digit_def of_char_digit)

lemma digit_val_digit: "d < 10 \<Longrightarrow> digit_val (digit d) = int d"
  by (simp add: digit_val_def of_char_digit)

lemma show_nat_nonempty [simp]: "show_nat n \<noteq> []"
  by (subst show_nat.simps) simp

lemma show_nat_digits: "c \<in> set (show_nat n) \<Longrightarrow> is_digit c"
proof (induction n rule: show_nat.induct)
  case (1 n)
  then show ?case
    by (cases "n < 10") (auto simp: show_nat.simps [of n] is_digit_digit)
qed

lemma parse_digits_app:
  "parse_digits neg acc (xs @ ys) = rbind (parse_digits neg acc xs) (\<lambda>a. parse_digits neg a ys)"
  by (induction neg acc xs rule: parse_digits.induct) (simp_all add: Let_def)

text \<open>Reading the digits of a number back, in either sign, as long as it stays in range.\<close>

lemma parse_digits_show_pos:
  "int n \<le> i64_max \<Longrightarrow> parse_digits False 0 (show_nat n) = Inr (int n)"
proof (induction n rule: show_nat.induct)
  case (1 n)
  show ?case
  proof (cases "n < 10")
    case True
    then show ?thesis
      by (subst show_nat.simps)
         (simp add: is_digit_digit digit_val_digit in_i64_def i64_min_def i64_max_def)
  next
    case False
    have "int (n div 10) \<le> int n" by simp
    with "1.prems" have le: "int (n div 10) \<le> i64_max" by linarith
    have eq: "10 * int (n div 10) + int (n mod 10) = int n"
      by (metis mult_div_mod_eq of_nat_add of_nat_mult of_nat_numeral)
    have "in_i64 (int n)" using "1.prems" by (simp add: in_i64_def i64_min_def)
    with False "1.IH" [OF _ le] eq show ?thesis
      by (subst show_nat.simps)
         (simp add: parse_digits_app is_digit_digit digit_val_digit Let_def del: of_nat_mod)
  qed
qed

lemma parse_digits_show_neg:
  "i64_min \<le> - int n \<Longrightarrow> parse_digits True 0 (show_nat n) = Inr (- int n)"
proof (induction n rule: show_nat.induct)
  case (1 n)
  show ?case
  proof (cases "n < 10")
    case True
    then show ?thesis
      by (subst show_nat.simps)
         (simp add: is_digit_digit digit_val_digit in_i64_def i64_min_def i64_max_def)
  next
    case False
    have "int (n div 10) \<le> int n" by simp
    with "1.prems" have le: "i64_min \<le> - int (n div 10)" by linarith
    have eq: "- (10 * int (n div 10)) - int (n mod 10) = - int n"
      by (metis (no_types, lifting) mult_div_mod_eq of_nat_add of_nat_mult of_nat_numeral
          minus_add_distrib uminus_add_conv_diff diff_conv_add_uminus)
    have "in_i64 (- int n)" using "1.prems" by (simp add: in_i64_def i64_max_def)
    with False "1.IH" [OF _ le] eq show ?thesis
      by (subst show_nat.simps)
         (simp add: parse_digits_app is_digit_digit digit_val_digit Let_def del: of_nat_mod)
  qed
qed

lemma show_nat_head: "\<exists>c cs. show_nat n = c # cs \<and> is_digit c"
  using show_nat_nonempty [of n] show_nat_digits [of _ n] by (cases "show_nat n") auto

lemma parse_show_i64: "parse_i64 (show_i64 x) = Inr x"
proof (cases "sint x < 0")
  case True
  have "i64_min \<le> - int (nat (- sint x))"
    using sint_range [of x] True by (simp add: in_i64_def)
  from parse_digits_show_neg [OF this] True show ?thesis
    by (simp add: parse_i64_def show_i64_def show_int_def)
next
  case False
  have le: "int (nat (sint x)) \<le> i64_max"
    using sint_range [of x] False by (simp add: in_i64_def)
  obtain c cs where c: "show_nat (nat (sint x)) = c # cs" "is_digit c"
    using show_nat_head by blast
  then have "c \<noteq> CHR ''+''" "c \<noteq> CHR ''-''" by (auto simp: is_digit_def)
  with c parse_digits_show_pos [OF le] False show ?thesis
    by (simp add: parse_i64_def show_i64_def show_int_def)
qed

lemma show_i64_inj: "show_i64 x = show_i64 y \<longleftrightarrow> x = y"
  by (metis parse_show_i64 sum.inject(2))

text \<open>A printed number starts no continuation byte and contains no white space.\<close>

lemma is_digit_not_cont: "is_digit c \<Longrightarrow> \<not> is_cont c"
  by (simp add: is_digit_def is_cont_def)

end
