(* ===== verification/Float64.thy ===== *)
theory Float64
  imports Rust_Num
begin

text \<open>
  IEEE-754 binary64 (\<open>f64\<close>) on bit patterns, executable: a finite float is an integer
  significand times a power of two, the arithmetic operations compute the exact result in
  integers and round it to nearest, ties to even (\<open>round_ne\<close>). Orders are by an integer key:
  \<open>partial_cmp\<close> compares sign-magnitude values (both zeros equal, NaN incomparable) and
  \<open>total_cmp\<close> is the total order on bit patterns. Every operation that produces a NaN gives the
  canonical quiet one, where hardware may choose another payload.
\<close>

datatype f64 = F64 (to_bits: "64 word")

subsection \<open>Fields of the format\<close>

definition bits_int :: "f64 \<Rightarrow> int" where
  "bits_int x = uint (to_bits x)"

definition is_neg :: "f64 \<Rightarrow> bool" where
  "is_neg x \<longleftrightarrow> 2 ^ 63 \<le> bits_int x"

definition mag :: "f64 \<Rightarrow> int" where
  "mag x = bits_int x mod 2 ^ 63"

definition expo :: "f64 \<Rightarrow> int" where
  "expo x = mag x div 2 ^ 52"

definition mant :: "f64 \<Rightarrow> int" where
  "mant x = mag x mod 2 ^ 52"

definition inf_mag :: int where "inf_mag = 2047 * 2 ^ 52"

definition is_nan :: "f64 \<Rightarrow> bool" where
  "is_nan x \<longleftrightarrow> inf_mag < mag x"

definition is_infinite :: "f64 \<Rightarrow> bool" where
  "is_infinite x \<longleftrightarrow> mag x = inf_mag"

definition is_finite :: "f64 \<Rightarrow> bool" where
  "is_finite x \<longleftrightarrow> mag x < inf_mag"

definition is_zero :: "f64 \<Rightarrow> bool" where
  "is_zero x \<longleftrightarrow> mag x = 0"

definition mk :: "bool \<Rightarrow> int \<Rightarrow> f64" where
  "mk s m = F64 (word_of_int ((if s then 2 ^ 63 else 0) + m))"

definition nan :: f64 where "nan = mk False (2047 * 2 ^ 52 + 2 ^ 51)"
definition finf :: "bool \<Rightarrow> f64" where "finf s = mk s inf_mag"
definition fzero :: "bool \<Rightarrow> f64" where "fzero s = mk s 0"

text \<open>The significand and the exponent of a finite float: its value is \<open>\<plusminus>sig * 2 ^ fexp\<close>.\<close>

definition sig :: "f64 \<Rightarrow> int" where
  "sig x = (if expo x = 0 then mant x else mant x + 2 ^ 52)"

definition fexp :: "f64 \<Rightarrow> int" where
  "fexp x = (if expo x = 0 then - 1074 else expo x - 1075)"

subsection \<open>Orders\<close>

definition key :: "f64 \<Rightarrow> int" where
  "key x = (if is_neg x then - mag x else mag x)"

definition total_key :: "f64 \<Rightarrow> int" where
  "total_key x = (if is_neg x then - mag x - 1 else mag x)"

definition partial_cmp :: "f64 \<Rightarrow> f64 \<Rightarrow> ordering option" where
  "partial_cmp x y = (if is_nan x \<or> is_nan y then None else Some (cmp_key key x y))"

definition total_cmp :: "f64 \<Rightarrow> f64 \<Rightarrow> ordering" where
  "total_cmp = cmp_key total_key"

definition feq :: "f64 \<Rightarrow> f64 \<Rightarrow> bool" where
  "feq x y \<longleftrightarrow> partial_cmp x y = Some Equal"

definition flt :: "f64 \<Rightarrow> f64 \<Rightarrow> bool" where
  "flt x y \<longleftrightarrow> partial_cmp x y = Some Less"

definition fmin :: "f64 \<Rightarrow> f64 \<Rightarrow> f64" where
  "fmin x y = (if is_nan x then y else if is_nan y then x else if flt y x then y else x)"

definition fmax :: "f64 \<Rightarrow> f64 \<Rightarrow> f64" where
  "fmax x y = (if is_nan x then y else if is_nan y then x else if flt x y then y else x)"

subsection \<open>Rounding\<close>

text \<open>The number of binary digits.\<close>

fun bitlen :: "int \<Rightarrow> int" where
  "bitlen n = (if n \<le> 0 then 0 else 1 + bitlen (n div 2))"

declare bitlen.simps [simp del]

text \<open>\<open>m / 2 ^ k\<close> rounded to the nearest integer, ties to even.\<close>

definition shift_ne :: "int \<Rightarrow> nat \<Rightarrow> int" where
  "shift_ne m k =
     (let q = m div 2 ^ k; r = m mod 2 ^ k in
      if 2 ^ k < 2 * r \<or> 2 * r = 2 ^ k \<and> odd q then q + 1 else q)"

text \<open>
  The float nearest to \<open>\<plusminus>m * 2 ^ e\<close>: the last digit kept has weight \<open>2 ^ t\<close>; the magnitude bits
  are \<open>(t + 1074) * 2 ^ 52 + q\<close>, where a carry out of \<open>q\<close> moves into the exponent by itself.
\<close>

definition round_ne :: "bool \<Rightarrow> int \<Rightarrow> int \<Rightarrow> f64" where
  "round_ne s m e =
     (if m = 0 then fzero s
      else let t = max (e + bitlen m - 53) (- 1074);
               q = (if t \<le> e then m * 2 ^ nat (e - t) else shift_ne m (nat (t - e)));
               b = (t + 1074) * 2 ^ 52 + q
           in if inf_mag \<le> b then finf s else mk s b)"

subsection \<open>Arithmetic\<close>

definition fneg :: "f64 \<Rightarrow> f64" where
  "fneg x = mk (\<not> is_neg x) (mag x)"

definition fabs :: "f64 \<Rightarrow> f64" where
  "fabs x = mk False (mag x)"

definition signed_sig :: "f64 \<Rightarrow> int" where
  "signed_sig x = (if is_neg x then - sig x else sig x)"

definition fadd :: "f64 \<Rightarrow> f64 \<Rightarrow> f64" where
  "fadd x y =
     (if is_nan x \<or> is_nan y then nan
      else if is_infinite x then (if is_infinite y \<and> is_neg x \<noteq> is_neg y then nan else x)
      else if is_infinite y then y
      else if is_zero x \<and> is_zero y then fzero (is_neg x \<and> is_neg y)
      else let e = min (fexp x) (fexp y);
               n = signed_sig x * 2 ^ nat (fexp x - e) + signed_sig y * 2 ^ nat (fexp y - e)
           in round_ne (n < 0) \<bar>n\<bar> e)"

definition fsub :: "f64 \<Rightarrow> f64 \<Rightarrow> f64" where
  "fsub x y = fadd x (fneg y)"

definition fmul :: "f64 \<Rightarrow> f64 \<Rightarrow> f64" where
  "fmul x y =
     (let s = (is_neg x \<noteq> is_neg y) in
      if is_nan x \<or> is_nan y then nan
      else if is_infinite x \<or> is_infinite y then
        (if is_zero x \<or> is_zero y then nan else finf s)
      else round_ne s (sig x * sig y) (fexp x + fexp y))"

text \<open>
  Quotient and root keep more than 64 significant digits and fold the remainder into a final
  sticky digit, which is enough for the one rounding that follows.
\<close>

definition fdiv :: "f64 \<Rightarrow> f64 \<Rightarrow> f64" where
  "fdiv x y =
     (let s = (is_neg x \<noteq> is_neg y) in
      if is_nan x \<or> is_nan y then nan
      else if is_infinite x then (if is_infinite y then nan else finf s)
      else if is_infinite y then fzero s
      else if is_zero y then (if is_zero x then nan else finf s)
      else let n = sig x * 2 ^ 128; q = n div sig y
           in round_ne s (2 * q + (if n mod sig y = 0 then 0 else 1)) (fexp x - fexp y - 129))"

text \<open>The integer square root, from the most significant digit of the root down.\<close>

fun isqrt_from :: "nat \<Rightarrow> int \<Rightarrow> int \<Rightarrow> int" where
  "isqrt_from 0 n r = r"
| "isqrt_from (Suc k) n r =
     (let r' = r + 2 ^ k in isqrt_from k n (if r' * r' \<le> n then r' else r))"

definition fsqrt :: "f64 \<Rightarrow> f64" where
  "fsqrt x =
     (if is_nan x then nan
      else if is_zero x then x
      else if is_neg x then nan
      else if is_infinite x then x
      else let d = (if even (fexp x) then 0 else 1);
               n = sig x * 2 ^ 128 * (1 + d); e = fexp x - d - 128;
               r = isqrt_from 96 n 0
           in round_ne False (2 * r + (if r * r = n then 0 else 1)) (e div 2 - 1))"

subsection \<open>Conversions\<close>

text \<open>\<open>n as f64\<close> for a machine integer \<open>n\<close>.\<close>

definition of_int64 :: "int \<Rightarrow> f64" where
  "of_int64 n = round_ne (n < 0) \<bar>n\<bar> 0"

definition of_i64 :: "i64 \<Rightarrow> f64" where
  "of_i64 x = of_int64 (sint x)"

text \<open>The integer part, towards fzero, of a finite float.\<close>

definition trunc_abs :: "f64 \<Rightarrow> int" where
  "trunc_abs x = (if 0 \<le> fexp x then sig x * 2 ^ nat (fexp x) else sig x div 2 ^ nat (- fexp x))"

definition trunc_int :: "f64 \<Rightarrow> int" where
  "trunc_int x = (if is_neg x then - trunc_abs x else trunc_abs x)"

text \<open>\<open>x as i64\<close> and \<open>x as usize\<close> saturate; NaN becomes 0.\<close>

definition to_i64 :: "f64 \<Rightarrow> i64" where
  "to_i64 x = word_of_int
     (if is_nan x then 0
      else if is_infinite x then (if is_neg x then i64_min else i64_max)
      else max i64_min (min i64_max (trunc_int x)))"

definition to_usize :: "f64 \<Rightarrow> nat" where
  "to_usize x =
     (if is_nan x then 0
      else if is_infinite x then (if is_neg x then 0 else 2 ^ 64 - 1)
      else min (2 ^ 64 - 1) (nat (trunc_int x)))"

text \<open>\<open>trunc\<close>, \<open>fract\<close> and \<open>round\<close> (half away from fzero).\<close>

definition ftrunc :: "f64 \<Rightarrow> f64" where
  "ftrunc x = (if is_finite x then round_ne (is_neg x) (trunc_abs x) 0 else if is_nan x then nan else x)"

definition ffract :: "f64 \<Rightarrow> f64" where
  "ffract x = fsub x (ftrunc x)"

definition fround :: "f64 \<Rightarrow> f64" where
  "fround x =
     (if is_nan x then nan
      else if is_infinite x \<or> 0 \<le> fexp x then x
      else let k = nat (- fexp x) in round_ne (is_neg x) ((sig x + 2 ^ (k - 1)) div 2 ^ k) 0)"

text \<open>\<open>x.clamp(lo, hi)\<close>; NaN stays NaN.\<close>

definition fclamp :: "f64 \<Rightarrow> f64 \<Rightarrow> f64 \<Rightarrow> f64" where
  "fclamp lo hi x = (let y = (if flt x lo then lo else x) in if flt hi y then hi else y)"

subsection \<open>Facts about the format\<close>

lemma bits_int_bounds: "0 \<le> bits_int x" "bits_int x < 2 ^ 64"
  using uint_lt2p [of "to_bits x"] by (simp_all add: bits_int_def)

lemma mag_bounds: "0 \<le> mag x" "mag x < 2 ^ 63"
  by (simp_all add: mag_def)

lemma bits_int_split: "bits_int x = (if is_neg x then 2 ^ 63 else 0) + mag x"
proof (cases "is_neg x")
  case True
  then have "bits_int x mod 2 ^ 63 = (bits_int x - 2 ^ 63) mod 2 ^ 63" by simp
  also have "\<dots> = bits_int x - 2 ^ 63"
    using True bits_int_bounds [of x] by (intro mod_pos_pos_trivial) (simp_all add: is_neg_def)
  finally show ?thesis using True by (simp add: mag_def)
next
  case False
  then show ?thesis using bits_int_bounds [of x] by (simp add: is_neg_def mag_def)
qed

lemma f64_eqI: "is_neg x = is_neg y \<Longrightarrow> mag x = mag y \<Longrightarrow> x = y"
proof -
  assume "is_neg x = is_neg y" "mag x = mag y"
  then have "bits_int x = bits_int y" by (simp add: bits_int_split)
  then show ?thesis by (cases x; cases y) (simp add: bits_int_def word_uint_eq_iff)
qed

lemma uint_of_small: "0 \<le> v \<Longrightarrow> v < 2 ^ 64 \<Longrightarrow> uint (word_of_int v :: 64 word) = v"
  by (simp add: uint_word_of_int_eq take_bit_int_eq_self)

lemma mk_fields [simp]:
  assumes "0 \<le> m" "m < 2 ^ 63"
  shows "is_neg (mk s m) = s" "mag (mk s m) = m"
proof -
  have "bits_int (mk s m) = (if s then 2 ^ 63 else 0) + m"
    unfolding bits_int_def mk_def f64.sel using assms by (intro uint_of_small) auto
  then show "is_neg (mk s m) = s" "mag (mk s m) = m"
    using assms by (auto simp: is_neg_def mag_def)
qed

lemma mk_eta [simp]: "mk (is_neg x) (mag x) = x"
  using mag_bounds [of x] by (intro f64_eqI) simp_all

lemma nan_is_nan [simp]: "is_nan nan"
  by (simp add: is_nan_def nan_def inf_mag_def)

lemma finf_not_nan [simp]: "\<not> is_nan (finf s)"
  by (simp add: is_nan_def finf_def inf_mag_def)

lemma fzero_fields [simp]: "mag (fzero s) = 0" "is_neg (fzero s) = s" "\<not> is_nan (fzero s)"
  by (simp_all add: fzero_def is_nan_def inf_mag_def)

lemma classify: "is_nan x \<or> is_infinite x \<or> is_finite x"
  by (auto simp: is_nan_def is_infinite_def is_finite_def)

lemma finite_not_nan [simp]: "is_finite x \<Longrightarrow> \<not> is_nan x"
  by (simp add: is_nan_def is_finite_def)

subsection \<open>Orders\<close>

lemma total_key_inj: "inj total_key"
proof (rule injI)
  fix x y
  assume "total_key x = total_key y"
  then show "x = y"
    using mag_bounds [of x] mag_bounds [of y]
    by (intro f64_eqI) (auto simp: total_key_def split: if_splits)
qed

interpretation f64_total: linear_cmp total_cmp
  unfolding total_cmp_def by (rule cmp_key_linear) (rule total_key_inj)

interpretation f64_key: preorder_cmp "cmp_key key"
  by (rule cmp_key_preorder)

text \<open>The total order refines the IEEE order: it only separates the two zeros and the NaNs.\<close>

lemma key_less_total: "key x < key y \<Longrightarrow> total_key x < total_key y"
  using mag_bounds [of x] mag_bounds [of y] by (auto simp: key_def total_key_def split: if_splits)

lemma partial_cmp_swap: "partial_cmp y x = map_option reverse (partial_cmp x y)"
  by (auto simp: partial_cmp_def cmp_key_def cmp_def)

lemma flt_iff: "flt x y \<longleftrightarrow> \<not> is_nan x \<and> \<not> is_nan y \<and> key x < key y"
  by (auto simp: flt_def partial_cmp_def cmp_key_def cmp_simps)

lemma feq_iff: "feq x y \<longleftrightarrow> \<not> is_nan x \<and> \<not> is_nan y \<and> key x = key y"
  by (auto simp: feq_def partial_cmp_def cmp_key_def cmp_simps)

lemma fmin_key: "\<not> is_nan x \<Longrightarrow> \<not> is_nan y \<Longrightarrow> key (fmin x y) = min (key x) (key y)"
  by (auto simp: fmin_def flt_iff)

lemma fmax_key: "\<not> is_nan x \<Longrightarrow> \<not> is_nan y \<Longrightarrow> key (fmax x y) = max (key x) (key y)"
  by (auto simp: fmax_def flt_iff)

lemma fmin_not_nan: "\<not> is_nan x \<Longrightarrow> \<not> is_nan (fmin x y)"
  by (auto simp: fmin_def)

lemma fmax_not_nan: "\<not> is_nan x \<Longrightarrow> \<not> is_nan (fmax x y)"
  by (auto simp: fmax_def)

subsection \<open>Exact rounding of integers\<close>

lemma bitlen_bounds: "0 < n \<Longrightarrow> 2 ^ nat (bitlen n - 1) \<le> n \<and> n < 2 ^ nat (bitlen n) \<and> 1 \<le> bitlen n"
proof (induction n rule: bitlen.induct)
  case (1 n)
  show ?case
  proof (cases "n = 1")
    case True
    then show ?thesis by (simp add: bitlen.simps)
  next
    case False
    with "1.prems" have h: "0 < n div 2" "\<not> n \<le> 0" by auto
    with "1.IH" have IH: "2 ^ nat (bitlen (n div 2) - 1) \<le> n div 2" "n div 2 < 2 ^ nat (bitlen (n div 2))"
      "1 \<le> bitlen (n div 2)" by auto
    have b: "bitlen n = 1 + bitlen (n div 2)" using h by (subst bitlen.simps) simp
    have "nat (bitlen n - 1) = Suc (nat (bitlen (n div 2) - 1))"
      and "nat (bitlen n) = Suc (nat (bitlen (n div 2)))"
      unfolding b using IH(3) by arith+
    then have "2 ^ nat (bitlen n - 1) = 2 * (2 ^ nat (bitlen (n div 2) - 1) :: int)"
      and "2 ^ nat (bitlen n) = 2 * (2 ^ nat (bitlen (n div 2)) :: int)" by simp_all
    with IH b show ?thesis by linarith
  qed
qed

lemma bitlen_le: "0 < n \<Longrightarrow> n < 2 ^ k \<Longrightarrow> bitlen n \<le> int k"
proof (rule ccontr)
  assume n: "0 < n" "n < 2 ^ k" and "\<not> bitlen n \<le> int k"
  then have "k \<le> nat (bitlen n - 1)" by simp
  then have "(2::int) ^ k \<le> 2 ^ nat (bitlen n - 1)" by (intro power_increasing) auto
  with bitlen_bounds [OF n(1)] n(2) show False by linarith
qed

text \<open>Values of at most 53 significant digits that lie in the normal range are not rounded.\<close>

lemma round_ne_exact:
  assumes m: "0 < m" "m < 2 ^ 53" and e: "- 1074 \<le> e" "e \<le> 960"
  defines "k \<equiv> nat (min (53 - bitlen m) (e + 1074))"
  shows "round_ne s m e = mk s ((e - int k + 1074) * 2 ^ 52 + m * 2 ^ k)"
    and "m * 2 ^ k < 2 ^ 53" and "(e - int k + 1074) * 2 ^ 52 + m * 2 ^ k < inf_mag"
proof -
  have bl: "bitlen m \<le> 53" using bitlen_le [OF m] by simp
  have k: "int k = min (53 - bitlen m) (e + 1074)" using bl e by (simp add: k_def)
  then have t: "max (e + bitlen m - 53) (- 1074) = e - int k" by auto
  have mlt: "m < 2 ^ nat (bitlen m)" using bitlen_bounds [OF m(1)] by simp
  have "m * 2 ^ k < 2 ^ nat (bitlen m) * 2 ^ k" using mlt by simp
  also have "\<dots> = 2 ^ (nat (bitlen m) + k)" by (simp add: power_add)
  also have "\<dots> \<le> 2 ^ 53" using k bl bitlen_bounds [OF m(1)] by (intro power_increasing) auto
  finally show q: "m * 2 ^ k < 2 ^ 53" .
  have "(e - int k + 1074) * 2 ^ 52 \<le> 2034 * (2 ^ 52 :: int)"
    using e by (intro mult_right_mono) auto
  with q show b: "(e - int k + 1074) * 2 ^ 52 + m * 2 ^ k < inf_mag" by (simp add: inf_mag_def)
  have "nat (e - (e - int k)) = k" by simp
  with m t b show "round_ne s m e = mk s ((e - int k + 1074) * 2 ^ 52 + m * 2 ^ k)"
    by (simp add: round_ne_def Let_def)
qed

end
