(* ===== verification/Types.thy ===== *)
theory Types
  imports Float64
begin

text \<open>
  The data model (\<open>src/types.rs\<close>) and the error type (\<open>src/error.rs\<close>): logical column types,
  schemas, cell values and row-oriented datasets with their three row combinators. A mapper whose
  row has the wrong length makes \<open>map_rows\<close> panic. The raw text of a parse error keeps the value
  whose \<open>Debug\<close> rendering it is, instead of the rendered characters.
\<close>

subsection \<open>Schemas and values\<close>

datatype data_type = TInt64 | TFloat64 | TBool | TUtf8

record field =
  fname :: string
  ftype :: data_type

record schema =
  sfields :: "field list"

datatype value_t = Null | Int64 i64 | Float64 f64 | Bool bool | Utf8 string

type_synonym row = "value_t list"

record data_set =
  ds_schema :: schema
  rows :: "row list"

definition mk_field :: "string \<Rightarrow> data_type \<Rightarrow> field" where
  "mk_field n t = \<lparr>fname = n, ftype = t\<rparr>"

definition schema_new :: "field list \<Rightarrow> schema" where
  "schema_new fs = \<lparr>sfields = fs\<rparr>"

definition field_names :: "schema \<Rightarrow> string list" where
  "field_names s = map fname (sfields s)"

definition index_of :: "schema \<Rightarrow> string \<Rightarrow> nat option" where
  "index_of s n = position (\<lambda>f. fname f = n) (sfields s)"

definition data_set_new :: "schema \<Rightarrow> row list \<Rightarrow> data_set" where
  "data_set_new s rs = \<lparr>ds_schema = s, rows = rs\<rparr>"

definition row_count :: "data_set \<Rightarrow> nat" where
  "row_count ds = length (rows ds)"

lemma data_set_new_sel [simp]:
  "ds_schema (data_set_new s rs) = s" "rows (data_set_new s rs) = rs"
  by (simp_all add: data_set_new_def)

lemma data_set_eqI: "ds_schema a = ds_schema b \<Longrightarrow> rows a = rows b \<Longrightarrow> a = (b :: data_set)"
  by (cases a; cases b) simp

lemma index_of_Some_iff:
  "index_of s n = Some i \<longleftrightarrow>
     i < length (sfields s) \<and> fname (sfields s ! i) = n \<and> (\<forall>j<i. fname (sfields s ! j) \<noteq> n)"
  by (simp add: index_of_def position_Some_iff)

lemma index_of_bound: "index_of s n = Some i \<Longrightarrow> i < length (sfields s)"
  by (simp add: index_of_Some_iff)

lemma index_of_None_iff: "index_of s n = None \<longleftrightarrow> n \<notin> set (field_names s)"
  by (auto simp: index_of_def position_None_iff field_names_def)

lemma index_of_distinct:
  "distinct (field_names s) \<Longrightarrow> i < length (sfields s) \<Longrightarrow> index_of s (fname (sfields s ! i)) = Some i"
  by (auto simp: index_of_Some_iff field_names_def distinct_conv_nth)

subsection \<open>Well-formed datasets\<close>

text \<open>What ingestion promises: every row has one cell per field, each null or of the field's type.\<close>

fun has_type :: "value_t \<Rightarrow> data_type \<Rightarrow> bool" where
  "has_type Null _ = True"
| "has_type (Int64 _) t = (t = TInt64)"
| "has_type (Float64 _) t = (t = TFloat64)"
| "has_type (Bool _) t = (t = TBool)"
| "has_type (Utf8 _) t = (t = TUtf8)"

definition wf_row :: "schema \<Rightarrow> row \<Rightarrow> bool" where
  "wf_row s r \<longleftrightarrow> list_all2 (\<lambda>v f. has_type v (ftype f)) r (sfields s)"

definition wf_ds :: "data_set \<Rightarrow> bool" where
  "wf_ds ds \<longleftrightarrow> list_all (wf_row (ds_schema ds)) (rows ds)"

lemma wf_row_length: "wf_row s r \<Longrightarrow> length r = length (sfields s)"
  by (simp add: wf_row_def list_all2_lengthD)

lemma wf_row_nth: "wf_row s r \<Longrightarrow> i < length (sfields s) \<Longrightarrow> has_type (r ! i) (ftype (sfields s ! i))"
  by (auto simp: wf_row_def list_all2_conv_all_nth)

lemma wf_ds_row: "wf_ds ds \<Longrightarrow> r \<in> set (rows ds) \<Longrightarrow> wf_row (ds_schema ds) r"
  by (simp add: wf_ds_def list_all_iff)

lemma wf_ds_new [simp]: "wf_ds (data_set_new s rs) \<longleftrightarrow> (\<forall>r\<in>set rs. wf_row s r)"
  by (simp add: wf_ds_def list_all_iff)

lemma wf_row_traverse:
  assumes "traverse f (sfields s) = Inr r" and "\<And>fd v. fd \<in> set (sfields s) \<Longrightarrow> f fd = Inr v \<Longrightarrow> has_type v (ftype fd)"
  shows "wf_row s r"
  using assms by (auto simp: wf_row_def traverse_Inr_iff list_all2_conv_all_nth)

subsection \<open>Errors\<close>

text \<open>
  The chain of causes behind an engine error (\<open>Error::source\<close>), as far as the program looks at
  it: whether a link is an \<open>io::Error\<close>.
\<close>

datatype err_src = SrcIo string | SrcOther string "err_src option"

datatype csv_kind = CsvIo | CsvOther

datatype raw_text = RawText string | RawDebug value_t

datatype ingestion_error =
    IoErr string
  | ExcelErr string
  | CsvErr csv_kind string
  | ParquetErr err_src
  | EngineErr string err_src
  | SchemaMismatch string
  | ParseError nat string raw_text string

type_synonym 'a result = "(ingestion_error, 'a) res"

subsection \<open>Row combinators\<close>

definition filter_rows :: "data_set \<Rightarrow> (row \<Rightarrow> bool) \<Rightarrow> data_set" where
  "filter_rows ds p = data_set_new (ds_schema ds) (filter p (rows ds))"

text \<open>The check of \<open>map_rows\<close> on every mapped row.\<close>

definition checked_map :: "nat \<Rightarrow> (row \<Rightarrow> row) \<Rightarrow> row \<Rightarrow> row result" where
  "checked_map expected_len f r =
     (let out = f r in
      if length out = expected_len then Ok out
      else Panics ''mapped row length does not match schema length'')"

definition map_rows :: "data_set \<Rightarrow> (row \<Rightarrow> row) \<Rightarrow> data_set result" where
  "map_rows ds f =
     rmap (data_set_new (ds_schema ds)) (traverse (checked_map (length (sfields (ds_schema ds))) f) (rows ds))"

definition reduce_rows :: "data_set \<Rightarrow> 'a \<Rightarrow> ('a \<Rightarrow> row \<Rightarrow> 'a) \<Rightarrow> 'a" where
  "reduce_rows ds init f = fold (\<lambda>r acc. f acc r) (rows ds) init"

lemma filter_rows_sel [simp]:
  "ds_schema (filter_rows ds p) = ds_schema ds" "rows (filter_rows ds p) = filter p (rows ds)"
  by (simp_all add: filter_rows_def)

lemma filter_rows_wf: "wf_ds ds \<Longrightarrow> wf_ds (filter_rows ds p)"
  by (auto simp: filter_rows_def dest: wf_ds_row)

lemma filter_rows_filter_rows: "filter_rows (filter_rows ds p) q = filter_rows ds (\<lambda>r. p r \<and> q r)"
  by (rule data_set_eqI) simp_all

lemma checked_map_Inr [result_simps]:
  "checked_map n f r = Inr out \<longleftrightarrow> out = f r \<and> length (f r) = n"
  by (auto simp: checked_map_def Let_def)

lemma checked_map_ok [simp]: "length (f r) = n \<Longrightarrow> checked_map n f r = Inr (f r)"
  by (simp add: checked_map_def)

lemma map_rows_ok:
  "(\<And>r. r \<in> set (rows ds) \<Longrightarrow> length (f r) = length (sfields (ds_schema ds))) \<Longrightarrow>
   map_rows ds f = Ok (data_set_new (ds_schema ds) (map f (rows ds)))"
  by (simp add: map_rows_def traverse_ok)

lemma reduce_rows_eq_foldl: "reduce_rows ds init f = foldl f init (rows ds)"
  by (simp add: reduce_rows_def foldl_conv_fold)

end
