(* ===== verification/Reduce.thy ===== *)
theory Reduce
  imports Types Complex_Main
begin

text \<open>
  Single-column reductions (\<open>src/processing/reduce.rs\<close>) and the two thin wrappers of
  \<open>filter.rs\<close> and \<open>map.rs\<close>. \<open>i64\<close> addition follows the build: with overflow checks (the
  \<open>dev\<close> and \<open>test\<close> profiles) an overflowing sum panics, without them (\<open>release\<close>) it wraps; the
  switch is the argument \<open>checks\<close>. Welford's update is written over a record of arithmetic
  operations: the program uses it at \<open>f64_arith\<close>, and the same definition at the reals shows
  that the recurrence computes mean and squared deviations.
\<close>

subsection \<open>filter and map\<close>

definition filter_ds :: "data_set \<Rightarrow> (row \<Rightarrow> bool) \<Rightarrow> data_set" where
  "filter_ds ds p = filter_rows ds p"

definition map_ds :: "data_set \<Rightarrow> (row \<Rightarrow> row) \<Rightarrow> data_set result" where
  "map_ds ds f = map_rows ds f"

subsection \<open>Operations\<close>

datatype variance_kind = Population | Sample

datatype reduce_op =
    Count | Sum | Min | Max | Mean
  | Variance variance_kind | StdDev variance_kind
  | SumSquares | L2Norm | CountDistinctNonNull | Median

subsection \<open>Welford's running mean and squared deviation\<close>

record 'a arith =
  a_add :: "'a \<Rightarrow> 'a \<Rightarrow> 'a"
  a_sub :: "'a \<Rightarrow> 'a \<Rightarrow> 'a"
  a_mul :: "'a \<Rightarrow> 'a \<Rightarrow> 'a"
  a_div :: "'a \<Rightarrow> 'a \<Rightarrow> 'a"
  a_zero :: 'a
  a_of_nat :: "nat \<Rightarrow> 'a"

definition f64_arith :: "f64 arith" where
  "f64_arith = \<lparr>a_add = fadd, a_sub = fsub, a_mul = fmul, a_div = fdiv,
     a_zero = fzero False, a_of_nat = (\<lambda>n. of_int64 (int n))\<rparr>"

record 'a welford =
  w_n :: nat
  w_mean :: 'a
  w_m2 :: 'a

definition welford_default :: "'a arith \<Rightarrow> 'a welford" where
  "welford_default A = \<lparr>w_n = 0, w_mean = a_zero A, w_m2 = a_zero A\<rparr>"

definition observe :: "'a arith \<Rightarrow> 'a \<Rightarrow> 'a welford \<Rightarrow> 'a welford" where
  "observe A x w =
     (let n = w_n w + 1;
          delta = a_sub A x (w_mean w);
          m = a_add A (w_mean w) (a_div A delta (a_of_nat A n));
          delta2 = a_sub A x m
      in \<lparr>w_n = n, w_mean = m, w_m2 = a_add A (w_m2 w) (a_mul A delta delta2)\<rparr>)"

definition welford_mean :: "'a welford \<Rightarrow> 'a option" where
  "welford_mean w = (if 0 < w_n w then Some (w_mean w) else None)"

definition welford_variance :: "'a arith \<Rightarrow> variance_kind \<Rightarrow> 'a welford \<Rightarrow> 'a option" where
  "welford_variance A kind w =
     (if w_n w = 0 then None
      else case kind of
        Population \<Rightarrow> Some (a_div A (w_m2 w) (a_of_nat A (w_n w)))
      | Sample \<Rightarrow>
          if w_n w < 2 then None else Some (a_div A (w_m2 w) (a_of_nat A (w_n w - 1))))"

definition observation_count :: "'a welford \<Rightarrow> nat" where
  "observation_count w = w_n w"

subsection \<open>Typed sum, minimum and maximum\<close>

text \<open>\<open>a + v\<close> on \<open>i64\<close>.\<close>

definition add_i64 :: "bool \<Rightarrow> i64 \<Rightarrow> i64 \<Rightarrow> i64 result" where
  "add_i64 checks a v =
     (if checks \<and> \<not> in_i64 (sint a + sint v) then Panics ''attempt to add with overflow''
      else Ok (a + v))"

fun step_i64 :: "bool \<Rightarrow> reduce_op \<Rightarrow> i64 option \<Rightarrow> i64 \<Rightarrow> i64 result" where
  "step_i64 checks Sum (Some a) v = add_i64 checks a v"
| "step_i64 checks Sum None v = Ok v"
| "step_i64 checks Min (Some a) v = Ok (i64_min_of a v)"
| "step_i64 checks Min None v = Ok v"
| "step_i64 checks Max (Some a) v = Ok (i64_max_of a v)"
| "step_i64 checks Max None v = Ok v"
| "step_i64 checks _ _ v = Panics ''internal error: entered unreachable code''"

fun loop_i64 :: "bool \<Rightarrow> reduce_op \<Rightarrow> nat \<Rightarrow> i64 option \<Rightarrow> row list \<Rightarrow> i64 option result" where
  "loop_i64 checks op idx acc [] = Ok acc"
| "loop_i64 checks op idx acc (r # rs) =
     (case get r idx of
        Some (Int64 v) \<Rightarrow> rbind (step_i64 checks op acc v) (\<lambda>a. loop_i64 checks op idx (Some a) rs)
      | _ \<Rightarrow> loop_i64 checks op idx acc rs)"

fun step_f64 :: "reduce_op \<Rightarrow> f64 option \<Rightarrow> f64 \<Rightarrow> f64 result" where
  "step_f64 Sum (Some a) v = Ok (fadd a v)"
| "step_f64 Sum None v = Ok v"
| "step_f64 Min (Some a) v = Ok (fmin a v)"
| "step_f64 Min None v = Ok v"
| "step_f64 Max (Some a) v = Ok (fmax a v)"
| "step_f64 Max None v = Ok v"
| "step_f64 _ _ v = Panics ''internal error: entered unreachable code''"

fun loop_f64 :: "reduce_op \<Rightarrow> nat \<Rightarrow> f64 option \<Rightarrow> row list \<Rightarrow> f64 option result" where
  "loop_f64 op idx acc [] = Ok acc"
| "loop_f64 op idx acc (r # rs) =
     (case get r idx of
        Some (Float64 v) \<Rightarrow> rbind (step_f64 op acc v) (\<lambda>a. loop_f64 op idx (Some a) rs)
      | _ \<Rightarrow> loop_f64 op idx acc rs)"

definition or_null :: "('a \<Rightarrow> value_t) \<Rightarrow> 'a option \<Rightarrow> value_t" where
  "or_null c x = (case x of None \<Rightarrow> Null | Some a \<Rightarrow> c a)"

fun reduce_numeric_typed ::
  "bool \<Rightarrow> data_set \<Rightarrow> nat \<Rightarrow> data_type \<Rightarrow> reduce_op \<Rightarrow> value_t option result" where
  "reduce_numeric_typed checks ds idx TInt64 op =
     rmap (\<lambda>acc. Some (or_null Int64 acc)) (loop_i64 checks op idx None (rows ds))"
| "reduce_numeric_typed checks ds idx TFloat64 op =
     rmap (\<lambda>acc. Some (or_null Float64 acc)) (loop_f64 op idx None (rows ds))"
| "reduce_numeric_typed checks ds idx _ op = Ok (Some Null)"

subsection \<open>Mean, variance, deviation, squares\<close>

text \<open>A numeric cell of the column's own type as a float; anything else is skipped.\<close>

definition stat_cell :: "bool \<Rightarrow> nat \<Rightarrow> row \<Rightarrow> f64 option" where
  "stat_cell is_int idx r =
     (case get r idx of
        Some (Int64 v) \<Rightarrow> if is_int then Some (of_i64 v) else None
      | Some (Float64 v) \<Rightarrow> if \<not> is_int then Some v else None
      | _ \<Rightarrow> None)"

fun loop_stats :: "bool \<Rightarrow> nat \<Rightarrow> f64 welford \<times> f64 \<times> bool \<Rightarrow> row list \<Rightarrow> f64 welford \<times> f64 \<times> bool" where
  "loop_stats is_int idx st [] = st"
| "loop_stats is_int idx (w, ss, any) (r # rs) =
     (case stat_cell is_int idx r of
        Some x \<Rightarrow> loop_stats is_int idx (observe f64_arith x w, fadd ss (fmul x x), True) rs
      | None \<Rightarrow> loop_stats is_int idx (w, ss, any) rs)"

fun stats_value :: "reduce_op \<Rightarrow> f64 welford \<Rightarrow> f64 \<Rightarrow> value_t result" where
  "stats_value Mean w ss = (case welford_mean w of Some m \<Rightarrow> Ok (Float64 m) | None \<Rightarrow> Panics ''n > 0'')"
| "stats_value (Variance kind) w ss = Ok (or_null Float64 (welford_variance f64_arith kind w))"
| "stats_value (StdDev kind) w ss =
     Ok (or_null (\<lambda>v. Float64 (fsqrt v)) (welford_variance f64_arith kind w))"
| "stats_value SumSquares w ss = Ok (Float64 ss)"
| "stats_value L2Norm w ss = Ok (Float64 (fsqrt ss))"
| "stats_value _ w ss = Panics ''internal error: entered unreachable code''"

definition reduce_numeric_float_stats ::
  "data_set \<Rightarrow> nat \<Rightarrow> data_type \<Rightarrow> reduce_op \<Rightarrow> value_t option result" where
  "reduce_numeric_float_stats ds idx dt op =
     (if dt = TInt64 \<or> dt = TFloat64 then
        (case loop_stats (dt = TInt64) idx (welford_default f64_arith, fzero False, False) (rows ds) of
           (w, ss, any) \<Rightarrow> if \<not> any then Ok (Some Null) else rmap Some (stats_value op w ss))
      else Ok (Some Null))"

subsection \<open>Distinct values\<close>

fun distinct_key :: "data_type \<Rightarrow> value_t \<Rightarrow> value_t option" where
  "distinct_key TInt64 (Int64 v) = Some (Int64 v)"
| "distinct_key TFloat64 (Float64 v) = Some (Float64 v)"
| "distinct_key TBool (Bool v) = Some (Bool v)"
| "distinct_key TUtf8 (Utf8 v) = Some (Utf8 v)"
| "distinct_key _ _ = None"

text \<open>The \<open>HashSet\<close> of the non-null values seen (floats by their bits), as a list without repeats.\<close>

fun collect_set :: "data_type \<Rightarrow> nat \<Rightarrow> value_t list \<Rightarrow> row list \<Rightarrow> value_t list" where
  "collect_set dt idx acc [] = acc"
| "collect_set dt idx acc (r # rs) =
     (case get r idx of
        None \<Rightarrow> collect_set dt idx acc rs
      | Some v \<Rightarrow> (case distinct_key dt v of
           None \<Rightarrow> collect_set dt idx acc rs
         | Some k \<Rightarrow> collect_set dt idx (List.insert k acc) rs))"

definition reduce_count_distinct_non_null ::
  "data_set \<Rightarrow> nat \<Rightarrow> data_type \<Rightarrow> value_t option" where
  "reduce_count_distinct_non_null ds idx dt =
     Some (Int64 (word_of_nat (length (collect_set dt idx [] (rows ds)))))"

subsection \<open>Median\<close>

text \<open>The comparison handed to \<open>sort_by\<close>: incomparable floats count as equal.\<close>

definition median_cmp :: "f64 \<Rightarrow> f64 \<Rightarrow> ordering" where
  "median_cmp a b = (case partial_cmp a b of None \<Rightarrow> Equal | Some c \<Rightarrow> c)"

definition fsum_half :: "f64 \<Rightarrow> f64 \<Rightarrow> f64" where
  "fsum_half a b = fdiv (fadd a b) (of_int64 2)"

definition median_of :: "f64 list \<Rightarrow> f64" where
  "median_of xs =
     (let s = sort_by median_cmp xs; n = length xs in
      if n mod 2 = 1 then s ! (n div 2) else fsum_half (s ! (n div 2 - 1)) (s ! (n div 2)))"

definition reduce_median :: "data_set \<Rightarrow> nat \<Rightarrow> value_t option" where
  "reduce_median ds idx =
     (case get (sfields (ds_schema ds)) idx of
        None \<Rightarrow> None
      | Some f \<Rightarrow>
          if ftype f \<noteq> TInt64 \<and> ftype f \<noteq> TFloat64 then Some Null
          else let xs = List.map_filter (stat_cell (ftype f = TInt64) idx) (rows ds) in
            if xs = [] then Some Null else Some (Float64 (median_of xs)))"

subsection \<open>Dispatch\<close>

definition reduce :: "bool \<Rightarrow> data_set \<Rightarrow> string \<Rightarrow> reduce_op \<Rightarrow> value_t option result" where
  "reduce checks ds column op =
     (case index_of (ds_schema ds) column of
        None \<Rightarrow> Ok None
      | Some idx \<Rightarrow>
          (let with_type = (\<lambda>k. case get (sfields (ds_schema ds)) idx of
                              None \<Rightarrow> Ok None | Some f \<Rightarrow> k (ftype f)) in
           case op of
             Count \<Rightarrow> Ok (Some (Int64 (word_of_nat (row_count ds))))
           | CountDistinctNonNull \<Rightarrow> with_type (\<lambda>t. Ok (reduce_count_distinct_non_null ds idx t))
           | Sum \<Rightarrow> with_type (\<lambda>t. reduce_numeric_typed checks ds idx t op)
           | Min \<Rightarrow> with_type (\<lambda>t. reduce_numeric_typed checks ds idx t op)
           | Max \<Rightarrow> with_type (\<lambda>t. reduce_numeric_typed checks ds idx t op)
           | Median \<Rightarrow> Ok (reduce_median ds idx)
           | _ \<Rightarrow> with_type (\<lambda>t. reduce_numeric_float_stats ds idx t op)))"

subsection \<open>Cells of a column\<close>

text \<open>The values the typed loops see, in row order, and the loops as recursions over them.\<close>

definition int_cells :: "nat \<Rightarrow> row list \<Rightarrow> i64 list" where
  "int_cells idx rs = List.map_filter (\<lambda>r. case get r idx of Some (Int64 v) \<Rightarrow> Some v | _ \<Rightarrow> None) rs"

definition float_cells :: "nat \<Rightarrow> row list \<Rightarrow> f64 list" where
  "float_cells idx rs = List.map_filter (\<lambda>r. case get r idx of Some (Float64 v) \<Rightarrow> Some v | _ \<Rightarrow> None) rs"

definition stat_cells :: "bool \<Rightarrow> nat \<Rightarrow> row list \<Rightarrow> f64 list" where
  "stat_cells is_int idx rs = List.map_filter (stat_cell is_int idx) rs"

fun run_acc :: "('a option \<Rightarrow> 'a \<Rightarrow> 'e + 'a) \<Rightarrow> 'a option \<Rightarrow> 'a list \<Rightarrow> 'e + 'a option" where
  "run_acc step acc [] = Inr acc"
| "run_acc step acc (v # vs) = rbind (step acc v) (\<lambda>a. run_acc step (Some a) vs)"

lemma loop_i64_cells: "loop_i64 checks op idx acc rs = run_acc (step_i64 checks op) acc (int_cells idx rs)"
  by (induction rs arbitrary: acc) (simp_all add: int_cells_def map_filter_simps split: option.splits value_t.splits)

lemma loop_f64_cells: "loop_f64 op idx acc rs = run_acc (step_f64 op) acc (float_cells idx rs)"
  by (induction rs arbitrary: acc) (simp_all add: float_cells_def map_filter_simps split: option.splits value_t.splits)

lemma stat_cells_int: "stat_cells True idx rs = map of_i64 (int_cells idx rs)"
  by (induction rs)
     (simp_all add: stat_cells_def int_cells_def stat_cell_def map_filter_simps split: option.splits value_t.splits)

lemma stat_cells_float: "stat_cells False idx rs = float_cells idx rs"
  by (induction rs)
     (simp_all add: stat_cells_def float_cells_def stat_cell_def map_filter_simps split: option.splits value_t.splits)

lemma loop_stats_cells:
  "loop_stats is_int idx (w, ss, any) rs =
     (let xs = stat_cells is_int idx rs in
      (fold (observe f64_arith) xs w, foldl (\<lambda>s x. fadd s (fmul x x)) ss xs, any \<or> xs \<noteq> []))"
  by (induction rs arbitrary: w ss any)
     (simp_all add: stat_cells_def map_filter_simps Let_def split: option.splits)

lemma map_filter_mset: "mset rs = mset rs' \<Longrightarrow> mset (List.map_filter f rs) = mset (List.map_filter f rs')"
  by (simp add: map_filter_def)

subsection \<open>Sum\<close>

text \<open>Every partial sum, from the second value on, stays in range.\<close>

definition sums_in_range :: "i64 list \<Rightarrow> bool" where
  "sums_in_range vs \<longleftrightarrow> (\<forall>k \<le> length vs. in_i64 (\<Sum>v\<leftarrow>take k vs. sint v))"

lemma all_le_Suc: "(\<forall>k \<le> Suc n. P k) \<longleftrightarrow> P 0 \<and> (\<forall>k \<le> n. P (Suc k))"
  by (metis Suc_le_mono le0 not0_implies_Suc)

lemma sint_add_in_range: "in_i64 (sint a + sint v) \<Longrightarrow> sint (a + v) = sint a + (sint v :: int)" for a v :: i64
  using sint_of_int [of "sint a + sint v"] by simp

lemma run_sum_wrap: "run_acc (step_i64 False Sum) (Some a) vs = Ok (Some (a + sum_list vs))"
  by (induction vs arbitrary: a) (simp_all add: add_i64_def add.assoc)

lemma run_sum_checked:
  "run_acc (step_i64 True Sum) (Some a) vs =
     (if \<forall>k \<le> length vs. in_i64 (sint a + (\<Sum>v\<leftarrow>take k vs. sint v))
      then Ok (Some (a + sum_list vs)) else Panics ''attempt to add with overflow'')"
proof (induction vs arbitrary: a)
  case Nil
  show ?case by simp
next
  case (Cons v vs)
  let ?P = "\<lambda>a vs. \<forall>k \<le> length vs. in_i64 (sint a + (\<Sum>v\<leftarrow>take k vs. sint v))"
  show ?case
  proof (cases "in_i64 (sint a + sint v)")
    case True
    then have "?P a (v # vs) \<longleftrightarrow> ?P (a + v) vs"
      unfolding sint_add_in_range [OF True] by (simp add: all_le_Suc add.assoc)
    moreover have "run_acc (step_i64 True Sum) (Some a) (v # vs) = run_acc (step_i64 True Sum) (Some (a + v)) vs"
      using True by (simp add: add_i64_def)
    ultimately show ?thesis by (simp only: Cons.IH) (simp add: add.assoc)
  next
    case False
    then have "\<not> ?P a (v # vs)"
      by (auto intro!: exI [of _ "Suc 0"])
    with False show ?thesis by (simp only: if_False) (simp add: add_i64_def)
  qed
qed

lemma run_sum_i64:
  "run_acc (step_i64 checks Sum) None vs =
     (if checks \<and> \<not> sums_in_range vs then Panics ''attempt to add with overflow''
      else Ok (if vs = [] then None else Some (sum_list vs)))"
proof (cases vs)
  case Nil
  then show ?thesis by (simp add: sums_in_range_def in_i64_def i64_min_def i64_max_def)
next
  case (Cons v ws)
  have "in_i64 0" by (simp add: in_i64_def i64_min_def i64_max_def)
  then have "sums_in_range vs \<longleftrightarrow> (\<forall>k \<le> length ws. in_i64 (sint v + (\<Sum>v\<leftarrow>take k ws. sint v)))"
    by (simp add: Cons sums_in_range_def all_le_Suc)
  then show ?thesis by (cases checks) (simp_all add: Cons run_sum_checked run_sum_wrap)
qed

lemma sum_list_in_range: "sums_in_range vs \<Longrightarrow> sint (sum_list vs) = (\<Sum>v\<leftarrow>vs. sint v)"
proof -
  assume "sums_in_range vs"
  then have "in_i64 (\<Sum>v\<leftarrow>take (length vs) vs. sint v)" unfolding sums_in_range_def by blast
  then have "sint (word_of_int (\<Sum>v\<leftarrow>vs. sint v) :: i64) = (\<Sum>v\<leftarrow>vs. sint v)" by (simp add: sint_of_int)
  moreover have "(word_of_int (\<Sum>v\<leftarrow>vs. sint v) :: i64) = sum_list vs" by (induction vs) simp_all
  ultimately show ?thesis by simp
qed

lemma get_index: "index_of s c = Some idx \<Longrightarrow> get (sfields s) idx = Some (sfields s ! idx)"
  by (simp add: get_Some_iff index_of_bound)

lemmas reduce_unfold = reduce_def get_index Let_def

subsection \<open>Minimum and maximum\<close>

lemma run_min_i64:
  "\<exists>m. run_acc (step_i64 checks Min) (Some a) vs = Ok (Some m) \<and>
     m \<in> insert a (set vs) \<and> (\<forall>v \<in> insert a (set vs). sint m \<le> sint v)"
proof (induction vs arbitrary: a)
  case (Cons v vs)
  have "i64_min_of a v \<in> {a, v}" by (simp add: i64_min_of_def)
  with Cons.IH [of "i64_min_of a v"] show ?case by auto
qed simp

lemma run_max_i64:
  "\<exists>m. run_acc (step_i64 checks Max) (Some a) vs = Ok (Some m) \<and>
     m \<in> insert a (set vs) \<and> (\<forall>v \<in> insert a (set vs). sint v \<le> sint m)"
proof (induction vs arbitrary: a)
  case (Cons v vs)
  have "i64_max_of a v \<in> {a, v}" by (simp add: i64_max_of_def)
  with Cons.IH [of "i64_max_of a v"] show ?case by auto
qed simp

text \<open>A float that is no worse than every number of a set; not-a-number only if all are.\<close>

definition best_float :: "(int \<Rightarrow> int \<Rightarrow> bool) \<Rightarrow> f64 set \<Rightarrow> f64 \<Rightarrow> bool" where
  "best_float le S m \<longleftrightarrow> m \<in> S \<and> (\<forall>x\<in>S. is_nan x \<or> (\<not> is_nan m \<and> le (key m) (key x)))"

lemma best_float_fmin:
  "best_float (\<le>) (insert (fmin a v) S) m \<Longrightarrow> best_float (\<le>) (insert a (insert v S)) m"
  by (auto simp: best_float_def fmin_def flt_iff split: if_splits)

lemma best_float_fmax:
  "best_float (\<ge>) (insert (fmax a v) S) m \<Longrightarrow> best_float (\<ge>) (insert a (insert v S)) m"
  by (auto simp: best_float_def fmax_def flt_iff split: if_splits)

lemma run_min_f64:
  "\<exists>m. run_acc (step_f64 Min) (Some a) vs = Ok (Some m) \<and> best_float (\<le>) (insert a (set vs)) m"
proof (induction vs arbitrary: a)
  case (Cons v vs)
  from Cons.IH [of "fmin a v"] show ?case by (auto intro: best_float_fmin)
qed (simp add: best_float_def)

lemma run_max_f64:
  "\<exists>m. run_acc (step_f64 Max) (Some a) vs = Ok (Some m) \<and> best_float (\<ge>) (insert a (set vs)) m"
proof (induction vs arbitrary: a)
  case (Cons v vs)
  from Cons.IH [of "fmax a v"] show ?case by (auto intro: best_float_fmax)
qed (simp add: best_float_def)

lemma run_sum_f64: "run_acc (step_f64 Sum) (Some a) vs = Ok (Some (foldl fadd a vs))"
  by (induction vs arbitrary: a) simp_all

lemma run_f64_ok:
  "op \<in> {Sum, Min, Max} \<Longrightarrow> is_ok (run_acc (step_f64 op) acc vs)"
proof (induction vs arbitrary: acc)
  case (Cons v vs)
  then show ?case by (cases acc) auto
qed simp

subsection \<open>Distinct values\<close>

lemma distinct_key_iff: "distinct_key dt v = Some k \<longleftrightarrow> k = v \<and> v \<noteq> Null \<and> has_type v dt"
  by (cases dt; cases v) auto

lemma collect_set_set:
  "distinct acc \<Longrightarrow> distinct (collect_set dt idx acc rs) \<and>
   set (collect_set dt idx acc rs) =
     set acc \<union> {v. v \<noteq> Null \<and> has_type v dt \<and> (\<exists>r\<in>set rs. get r idx = Some v)}"
proof (induction rs arbitrary: acc)
  case (Cons r rs)
  show ?case
  proof (cases "Option.bind (get r idx) (distinct_key dt)")
    case None
    then have "collect_set dt idx acc (r # rs) = collect_set dt idx acc rs"
      by (cases "get r idx") (auto simp: Option.bind_def split: option.splits)
    moreover have "get r idx = Some v \<Longrightarrow> v = Null \<or> \<not> has_type v dt" for v
      using None distinct_key_iff [of dt v v] by auto
    ultimately show ?thesis using Cons by auto
  next
    case (Some k)
    then have "get r idx = Some k" "k \<noteq> Null" "has_type k dt" "distinct_key dt k = Some k"
      by (auto simp: Option.bind_eq_Some_conv distinct_key_iff)
    with Cons show ?thesis by auto
  qed
qed simp

lemma collect_set_card:
  "length (collect_set dt idx [] rs) =
     card {v. v \<noteq> Null \<and> has_type v dt \<and> (\<exists>r\<in>set rs. get r idx = Some v)}"
  using collect_set_set [of "[]" dt idx rs] distinct_card [of "collect_set dt idx [] rs"] by simp

subsection \<open>Median\<close>

lemma median_cmp_key: "\<not> is_nan a \<Longrightarrow> \<not> is_nan b \<Longrightarrow> median_cmp a b = cmp_key key a b"
  by (simp add: median_cmp_def partial_cmp_def cmp_key_def)

lemma sort_median: "\<forall>x\<in>set xs. \<not> is_nan x \<Longrightarrow> sort_by median_cmp xs = sort_by (cmp_key key) xs"
  by (rule sort_by_cong) (simp add: median_cmp_key)

lemma sorted_keys: "sorted (map key (sort_by (cmp_key key) xs))"
  using f64_key.sorted_sort_by [of xs] by (simp add: sorted_wrt_map cmp_key_def cmp_simps not_less)

lemma key_inj_pos: "(is_zero x \<longrightarrow> \<not> is_neg x) \<Longrightarrow> (is_zero y \<longrightarrow> \<not> is_neg y) \<Longrightarrow> key x = key y \<Longrightarrow> x = y"
  using mag_bounds [of x] mag_bounds [of y]
  by (intro f64_eqI) (auto simp: key_def is_zero_def split: if_splits)

lemma sorted_list_eq: "sorted xs \<Longrightarrow> sorted ys \<Longrightarrow> mset xs = mset ys \<Longrightarrow> xs = ys"
  by (metis properties_for_sort)

lemma median_of_perm:
  assumes "mset xs = mset ys" and ok: "\<forall>x\<in>set xs. \<not> is_nan x \<and> (is_zero x \<longrightarrow> \<not> is_neg x)"
  shows "median_of xs = median_of ys"
proof -
  let ?s = "sort_by (cmp_key key)"
  have "map key (?s xs) = map key (?s ys)"
    by (rule sorted_list_eq) (simp_all add: sorted_keys assms(1))
  moreover have "set xs = set ys" using assms(1) by (rule mset_eq_setD)
  moreover have "inj_on key (set xs)" using ok key_inj_pos by (intro inj_onI) blast
  ultimately have "?s xs = ?s ys" by (intro map_inj_on [of key]) simp_all
  moreover have "length xs = length ys" using assms(1) by (rule mset_eq_length)
  ultimately show ?thesis using ok \<open>set xs = set ys\<close> by (simp add: median_of_def sort_median Let_def)
qed

subsection \<open>Welford's recurrence over the reals\<close>

definition real_arith :: "real arith" where
  "real_arith = \<lparr>a_add = (+), a_sub = (-), a_mul = (*), a_div = (/), a_zero = 0, a_of_nat = real\<rparr>"

text \<open>The state that the observations so far call for: their number, mean and squared deviations.\<close>

definition welford_state :: "real list \<Rightarrow> real welford" where
  "welford_state xs =
     (let n = real (length xs); m = sum_list xs / n
      in \<lparr>w_n = length xs, w_mean = m, w_m2 = (\<Sum>x\<leftarrow>xs. (x - m)\<^sup>2)\<rparr>)"

lemma square_dev:
  "(\<Sum>x\<leftarrow>xs. (x - c)\<^sup>2) = (\<Sum>x\<leftarrow>xs. x\<^sup>2) - 2 * c * sum_list xs + real (length xs) * c\<^sup>2" for c :: real
  by (induction xs) (simp_all add: power2_diff algebra_simps)

lemma welford_mean_step: fixes n s x :: real assumes "0 < n"
  shows "s / n + (x - s / n) / (n + 1) = (s + x) / (n + 1)"
proof -
  define a where "a = s / n"
  have s: "s = a * n" using assms by (simp add: a_def)
  have "a + (x - a) / (n + 1) = (a * n + x) / (n + 1)"
    using assms by (simp add: divide_simps) (simp add: algebra_simps)
  then show ?thesis by (simp add: s assms flip: a_def)
qed

lemma welford_m2_step: fixes n s x q :: real assumes "0 < n"
  shows "q - 2 * (s / n) * s + n * (s / n)\<^sup>2 + (x - s / n) * (x - (s + x) / (n + 1)) =
      q - 2 * ((s + x) / (n + 1)) * s + n * ((s + x) / (n + 1))\<^sup>2 + (x - (s + x) / (n + 1))\<^sup>2"
proof -
  define a b where "a = s / n" and "b = (s + x) / (n + 1)"
  have s: "s = a * n" and sx: "s + x = b * (n + 1)" using assms by (simp_all add: a_def b_def)
  then have x: "x = b * (n + 1) - a * n" by auto
  have "q - 2 * a * s + n * a\<^sup>2 + (x - a) * (x - b) = q - 2 * b * s + n * b\<^sup>2 + (x - b)\<^sup>2"
    unfolding s x by (simp add: power2_eq_square algebra_simps)
  then show ?thesis unfolding a_def b_def .
qed

lemma observe_welford_state:
  "observe real_arith x (welford_state xs) = welford_state (xs @ [x])"
proof (cases "xs = []")
  case True
  then show ?thesis by (simp add: observe_def welford_state_def real_arith_def Let_def)
next
  case False
  define n s q where "n = real (length xs)" and "s = sum_list xs" and "q = (\<Sum>x\<leftarrow>xs. x\<^sup>2)"
  have n: "n > 0" using False by (simp add: n_def)
  show ?thesis
    using welford_mean_step [OF n, of s x] welford_m2_step [OF n, of q s x]
    by (simp add: observe_def welford_state_def real_arith_def Let_def square_dev
        add.commute [of 1 n] flip: n_def s_def q_def)
qed

lemma fold_welford: "fold (observe real_arith) xs (welford_default real_arith) = welford_state xs"
proof (induction xs rule: rev_induct)
  case Nil
  show ?case by (simp add: welford_default_def welford_state_def real_arith_def)
qed (simp add: observe_welford_state)

subsection \<open>Properties\<close>

text \<open>C22: The sum of an \<open>Int64\<close> column ignores every other cell; it is null without values,
  panics exactly when the build checks overflow and a partial sum leaves the range, and otherwise
  is the two's-complement sum, which is the mathematical one whenever the partial sums fit.\<close>

theorem reduce_sum_int64:
  assumes "index_of (ds_schema ds) c = Some idx"
    and "ftype (sfields (ds_schema ds) ! idx) = TInt64"
  shows "let vs = int_cells idx (rows ds) in
      reduce checks ds c Sum =
        (if checks \<and> \<not> sums_in_range vs then Panics ''attempt to add with overflow''
         else Ok (Some (if vs = [] then Null else Int64 (sum_list vs)))) \<and>
      (sums_in_range vs \<longrightarrow> sint (sum_list vs) = (\<Sum>v\<leftarrow>vs. sint v))"
  using assms by (simp add: reduce_unfold loop_i64_cells run_sum_i64 or_null_def sum_list_in_range)

text \<open>\<open>Min\<close> and \<open>Max\<close> of an \<open>Int64\<close> column return an extremal value of the column, null only
  when it has no value.\<close>

theorem reduce_extremum_int64:
  assumes "index_of (ds_schema ds) c = Some idx"
    and "ftype (sfields (ds_schema ds) ! idx) = TInt64"
  shows "let vs = int_cells idx (rows ds) in
      if vs = [] then reduce checks ds c Min = Ok (Some Null) \<and> reduce checks ds c Max = Ok (Some Null)
      else \<exists>lo\<in>set vs. \<exists>hi\<in>set vs.
        reduce checks ds c Min = Ok (Some (Int64 lo)) \<and> reduce checks ds c Max = Ok (Some (Int64 hi)) \<and>
        (\<forall>v\<in>set vs. sint lo \<le> sint v \<and> sint v \<le> sint hi)"
proof (cases "int_cells idx (rows ds)")
  case Nil
  with assms show ?thesis by (simp add: reduce_unfold loop_i64_cells or_null_def)
next
  case (Cons v vs)
  obtain lo hi where
    "run_acc (step_i64 checks Min) (Some v) vs = Ok (Some lo)" "lo \<in> insert v (set vs)"
    "\<forall>w \<in> insert v (set vs). sint lo \<le> sint w"
    "run_acc (step_i64 checks Max) (Some v) vs = Ok (Some hi)" "hi \<in> insert v (set vs)"
    "\<forall>w \<in> insert v (set vs). sint w \<le> sint hi"
    using run_min_i64 [of checks v vs] run_max_i64 [of checks v vs] by blast
  with assms Cons show ?thesis
    by (auto simp: reduce_unfold loop_i64_cells or_null_def)
qed

text \<open>\<open>Min\<close> and \<open>Max\<close> of a \<open>Float64\<close> column skip not-a-number: they return a value that bounds
  every number of the column, and are not-a-number only when every value is.\<close>

theorem reduce_extremum_float64:
  assumes "index_of (ds_schema ds) c = Some idx"
    and "ftype (sfields (ds_schema ds) ! idx) = TFloat64"
  shows "let vs = float_cells idx (rows ds) in
      if vs = [] then reduce checks ds c Min = Ok (Some Null) \<and> reduce checks ds c Max = Ok (Some Null)
      else \<exists>lo hi.
        reduce checks ds c Min = Ok (Some (Float64 lo)) \<and> reduce checks ds c Max = Ok (Some (Float64 hi)) \<and>
        best_float (\<le>) (set vs) lo \<and> best_float (\<ge>) (set vs) hi"
proof (cases "float_cells idx (rows ds)")
  case Nil
  with assms show ?thesis by (simp add: reduce_unfold loop_f64_cells or_null_def)
next
  case (Cons v vs)
  with assms run_min_f64 [of v vs] run_max_f64 [of v vs] show ?thesis
    by (auto simp: reduce_unfold loop_f64_cells or_null_def)
qed

text \<open>\<open>CountDistinctNonNull\<close> is the number of different non-null values of the column's type
  (floats compared by their bits).\<close>

theorem reduce_count_distinct:
  assumes "index_of (ds_schema ds) c = Some idx"
  shows "reduce checks ds c CountDistinctNonNull =
    Ok (Some (Int64 (word_of_nat
      (card {v. v \<noteq> Null \<and> has_type v (ftype (sfields (ds_schema ds) ! idx)) \<and>
                (\<exists>r\<in>set (rows ds). get r idx = Some v)}))))"
  using assms by (simp add: reduce_unfold reduce_count_distinct_non_null_def collect_set_card)

text \<open>The median of a numeric column without not-a-number cells is the middle element, or half
  the sum of the two middle elements, of the cells in ascending order; without negative zeros it
  does not depend on the order of the rows.\<close>

theorem reduce_median_middle:
  assumes "index_of (ds_schema ds) c = Some idx"
    and "ftype (sfields (ds_schema ds) ! idx) = t" "t = TInt64 \<or> t = TFloat64"
    and "stat_cells (t = TInt64) idx (rows ds) = xs" "xs \<noteq> []" "\<forall>x\<in>set xs. \<not> is_nan x"
  shows "(\<exists>s. mset s = mset xs \<and> sorted (map key s) \<and>
      reduce checks ds c Median = Ok (Some (Float64 (let n = length xs in
        if odd n then s ! (n div 2) else fdiv (fadd (s ! (n div 2 - 1)) (s ! (n div 2))) (of_int64 2))))) \<and>
    ((\<forall>x\<in>set xs. is_zero x \<longrightarrow> \<not> is_neg x) \<longrightarrow>
      (\<forall>rs. mset rs = mset (rows ds) \<longrightarrow>
        reduce checks (data_set_new (ds_schema ds) rs) c Median = reduce checks ds c Median))"
proof (intro conjI impI allI)
  show "\<exists>s. mset s = mset xs \<and> sorted (map key s) \<and>
      reduce checks ds c Median = Ok (Some (Float64 (let n = length xs in
        if odd n then s ! (n div 2) else fdiv (fadd (s ! (n div 2 - 1)) (s ! (n div 2))) (of_int64 2))))"
    using assms
    by (intro exI [of _ "sort_by (cmp_key key) xs"])
       (auto simp: reduce_unfold reduce_median_def median_of_def sort_median sorted_keys fsum_half_def
         odd_iff_mod_2_eq_one stat_cells_def)
next
  fix rs assume pos: "\<forall>x\<in>set xs. is_zero x \<longrightarrow> \<not> is_neg x" and rs: "mset rs = mset (rows ds)"
  let ?ys = "stat_cells (t = TInt64) idx rs"
  have ys: "mset ?ys = mset xs" using map_filter_mset [OF rs, of "stat_cell (t = TInt64) idx"] assms(4) by (simp add: stat_cells_def)
  then have "median_of ?ys = median_of xs"
    using pos assms(6) mset_eq_setD [OF ys] by (intro median_of_perm) auto
  moreover have "?ys \<noteq> []" using ys assms(5) by auto
  ultimately show "reduce checks (data_set_new (ds_schema ds) rs) c Median = reduce checks ds c Median"
    using assms by (auto simp: reduce_unfold reduce_median_def stat_cells_def)
qed

text \<open>In exact arithmetic the running update computes the number of observations, their
  arithmetic mean and their population and sample variance.\<close>

theorem welford_exact:
  assumes "xs \<noteq> []"
  shows "let w = fold (observe real_arith) xs (welford_default real_arith); n = real (length xs);
           \<mu> = sum_list xs / n in
      observation_count w = length xs \<and> welford_mean w = Some \<mu> \<and>
      welford_variance real_arith Population w = Some ((\<Sum>x\<leftarrow>xs. (x - \<mu>)\<^sup>2) / n) \<and>
      welford_variance real_arith Sample w =
        (if length xs < 2 then None else Some ((\<Sum>x\<leftarrow>xs. (x - \<mu>)\<^sup>2) / (n - 1)))"
  unfolding fold_welford Let_def using assms
  by (simp add: welford_state_def observation_count_def welford_mean_def
      welford_variance_def real_arith_def Let_def of_nat_diff Suc_le_eq)

lemma w_n_fold: "w_n (fold (observe A) xs w) = w_n w + length xs"
  by (induction xs arbitrary: w) (simp_all add: observe_def Let_def)

lemma stats_value_ok:
  "0 < w_n w \<Longrightarrow> op \<notin> {Count, Sum, Min, Max, CountDistinctNonNull, Median} \<Longrightarrow>
   \<exists>v. stats_value op w ss = Ok v"
  by (cases op) (auto simp: welford_mean_def)

lemma reduce_float_stats_ok:
  assumes "op \<notin> {Count, Sum, Min, Max, CountDistinctNonNull, Median}"
  shows "\<exists>v. reduce_numeric_float_stats ds idx t op = Ok (Some v)"
proof -
  let ?xs = "stat_cells (t = TInt64) idx (rows ds)"
  let ?w = "fold (observe f64_arith) ?xs (welford_default f64_arith)"
  show ?thesis
  proof (cases "?xs = []")
    case False
    then have "0 < w_n ?w" by (simp add: w_n_fold)
    then obtain v where "stats_value op ?w (foldl (\<lambda>s x. fadd s (fmul x x)) (fzero False) ?xs) = Ok v"
      using stats_value_ok [OF _ assms] by blast
    with False show ?thesis
      by (cases t) (simp_all add: reduce_numeric_float_stats_def loop_stats_cells Let_def)
  qed (simp add: reduce_numeric_float_stats_def loop_stats_cells Let_def)
qed

lemma reduce_typed_extremum_ok:
  assumes "op = Min \<or> op = Max"
  shows "\<exists>v. reduce_numeric_typed checks ds idx t op = Ok (Some v)"
proof (cases t)
  case TInt64
  show ?thesis
  proof (cases "int_cells idx (rows ds)")
    case (Cons v vs)
    with TInt64 assms run_min_i64 [of checks v vs] run_max_i64 [of checks v vs] show ?thesis
      by (auto simp: loop_i64_cells)
  qed (simp add: TInt64 loop_i64_cells)
next
  case TFloat64
  have "is_ok (run_acc (step_f64 op) None (float_cells idx (rows ds)))"
    using assms by (intro run_f64_ok) auto
  then show ?thesis by (auto simp: TFloat64 loop_f64_cells is_ok_iff)
qed simp_all

lemma reduce_typed_sum:
  "reduce_numeric_typed checks ds idx t Sum =
     (if checks \<and> t = TInt64 \<and> \<not> sums_in_range (int_cells idx (rows ds))
      then Panics ''attempt to add with overflow''
      else Ok (Some (case t of
        TInt64 \<Rightarrow> (let vs = int_cells idx (rows ds) in if vs = [] then Null else Int64 (sum_list vs))
      | TFloat64 \<Rightarrow> (case float_cells idx (rows ds) of [] \<Rightarrow> Null | v # vs \<Rightarrow> Float64 (foldl fadd v vs))
      | _ \<Rightarrow> Null)))"
  by (cases t)
     (simp_all add: loop_i64_cells loop_f64_cells run_sum_i64 run_sum_f64 or_null_def Let_def split: list.split)

text \<open>C21: A reduction returns no value exactly for a missing column and never fails, except that
  summing an \<open>Int64\<close> column panics when the build checks overflow and a partial sum leaves the range.\<close>

theorem reduce_safe:
  "(reduce checks ds c op = Ok None \<longleftrightarrow> index_of (ds_schema ds) c = None) \<and>
   (\<not> is_ok (reduce checks ds c op) \<longleftrightarrow>
      checks \<and> op = Sum \<and> (\<exists>idx. index_of (ds_schema ds) c = Some idx \<and>
        ftype (sfields (ds_schema ds) ! idx) = TInt64 \<and> \<not> sums_in_range (int_cells idx (rows ds))))"
proof (cases "index_of (ds_schema ds) c")
  case None
  then show ?thesis by (simp add: reduce_def)
next
  case (Some idx)
  let ?t = "ftype (sfields (ds_schema ds) ! idx)"
  obtain v where v: "op \<notin> {Count, Sum, Min, Max, CountDistinctNonNull, Median} \<Longrightarrow>
      reduce_numeric_float_stats ds idx ?t op = Ok (Some v)"
    using reduce_float_stats_ok by blast
  obtain u where u: "op = Min \<or> op = Max \<Longrightarrow> reduce_numeric_typed checks ds idx ?t op = Ok (Some u)"
    using reduce_typed_extremum_ok by blast
  show ?thesis
    using Some v u
    by (cases op) (simp_all add: reduce_unfold reduce_count_distinct_non_null_def reduce_typed_sum
        reduce_median_def del: reduce_numeric_typed.simps)
qed

lemma reduce_statistics_aux:
  assumes "index_of (ds_schema ds) c = Some idx"
    and "ftype (sfields (ds_schema ds) ! idx) = t" "t = TInt64 \<or> t = TFloat64"
  shows "let xs = stat_cells (t = TInt64) idx (rows ds);
           w = fold (observe f64_arith) xs (welford_default f64_arith);
           ss = foldl (\<lambda>s x. fadd s (fmul x x)) (fzero False) xs;
           val = (\<lambda>v. Ok (Some (if xs = [] then Null else v)))
       in reduce checks ds c Mean = val (Float64 (w_mean w)) \<and>
          reduce checks ds c (Variance k) = val (or_null Float64 (welford_variance f64_arith k w)) \<and>
          reduce checks ds c (StdDev k) =
            val (or_null (\<lambda>v. Float64 (fsqrt v)) (welford_variance f64_arith k w)) \<and>
          reduce checks ds c SumSquares = val (Float64 ss) \<and>
          reduce checks ds c L2Norm = val (Float64 (fsqrt ss))"
  using assms
  by (auto simp: reduce_unfold reduce_numeric_float_stats_def loop_stats_cells welford_mean_def w_n_fold)

text \<open>Mean, variance, deviation, sum of squares and norm of a numeric column are those of the
  running statistics over its non-null cells in row order, null when there is none.\<close>

theorem reduce_statistics:
  assumes "index_of (ds_schema ds) c = Some idx"
    and "ftype (sfields (ds_schema ds) ! idx) = t" "t = TInt64 \<or> t = TFloat64"
  shows "let xs = stat_cells (t = TInt64) idx (rows ds);
           w = fold (observe f64_arith) xs (welford_default f64_arith);
           ss = foldl (\<lambda>s x. fadd s (fmul x x)) (fzero False) xs;
           val = (\<lambda>v. Ok (Some (if xs = [] then Null else v)))
       in reduce checks ds c Mean = val (Float64 (w_mean w)) \<and>
          reduce checks ds c (Variance k) = val (or_null Float64 (welford_variance f64_arith k w)) \<and>
          reduce checks ds c (StdDev k) =
            val (or_null (\<lambda>v. Float64 (fsqrt v)) (welford_variance f64_arith k w)) \<and>
          reduce checks ds c SumSquares = val (Float64 ss) \<and>
          reduce checks ds c L2Norm = val (Float64 (fsqrt ss))"
  by (rule reduce_statistics_aux [OF assms])

subsection \<open>Witnesses\<close>

text \<open>A small dataset with nulls in both numeric columns.\<close>

definition sample_ds :: data_set where
  "sample_ds = data_set_new
     (schema_new [mk_field ''id'' TInt64, mk_field ''score'' TFloat64, mk_field ''tag'' TUtf8])
     [[Int64 3, Float64 (of_int64 10), Utf8 ''a''],
      [Int64 1, Null, Utf8 ''b''],
      [Null, Float64 (of_int64 4), Utf8 ''a''],
      [Int64 2, Float64 (of_int64 7), Null]]"

lemma sample_cells:
  "index_of (ds_schema sample_ds) ''id'' = Some 0" "index_of (ds_schema sample_ds) ''score'' = Some 1"
  "ftype (sfields (ds_schema sample_ds) ! 0) = TInt64" "ftype (sfields (ds_schema sample_ds) ! 1) = TFloat64"
  "int_cells 0 (rows sample_ds) = [3, 1, 2]"
  "float_cells 1 (rows sample_ds) = [of_int64 10, of_int64 4, of_int64 7]"
  "stat_cells True 0 (rows sample_ds) = [of_int64 3, of_int64 1, of_int64 2]"
  by code_simp+

lemma reduce_sum_int64_witness:
  "reduce True sample_ds ''id'' Sum = Ok (Some (Int64 6)) \<and> sint (6 :: i64) = 6"
proof -
  have "sums_in_range [3, 1, 2]"
    by (simp add: sums_in_range_def all_le_Suc in_i64_def i64_min_def i64_max_def)
  then show ?thesis
    using reduce_sum_int64 [of sample_ds "''id''" 0 True] by (simp add: sample_cells)
qed

lemma reduce_extremum_int64_witness:
  "\<exists>lo hi. reduce True sample_ds ''id'' Min = Ok (Some (Int64 lo)) \<and>
     reduce True sample_ds ''id'' Max = Ok (Some (Int64 hi)) \<and> sint lo \<le> 1 \<and> 3 \<le> sint hi"
  using reduce_extremum_int64 [of sample_ds "''id''" 0 True] by (auto simp: sample_cells)

lemma reduce_extremum_float64_witness:
  "\<exists>lo hi. reduce True sample_ds ''score'' Min = Ok (Some (Float64 lo)) \<and>
     reduce True sample_ds ''score'' Max = Ok (Some (Float64 hi)) \<and>
     best_float (\<le>) {of_int64 10, of_int64 4, of_int64 7} lo \<and>
     best_float (\<ge>) {of_int64 10, of_int64 4, of_int64 7} hi"
  using reduce_extremum_float64 [of sample_ds "''score''" 1 True]
  by (simp add: sample_cells del: One_nat_def)

lemma reduce_count_distinct_witness:
  "reduce True sample_ds ''id'' CountDistinctNonNull = Ok (Some (Int64 (word_of_nat
      (card {v. v \<noteq> Null \<and> has_type v TInt64 \<and> (\<exists>r\<in>set (rows sample_ds). get r 0 = Some v)}))))"
  using reduce_count_distinct [of sample_ds "''id''" 0 True] by (simp add: sample_cells)

lemma reduce_median_middle_witness:
  "\<exists>s. mset s = mset [of_int64 3, of_int64 1, of_int64 2] \<and> sorted (map key s) \<and>
     reduce True sample_ds ''id'' Median = Ok (Some (Float64 (s ! 1)))"
proof -
  have "\<forall>x\<in>set [of_int64 3, of_int64 1, of_int64 2]. \<not> is_nan x"
    "\<forall>x\<in>set [of_int64 3, of_int64 1, of_int64 2]. is_zero x \<longrightarrow> \<not> is_neg x" by code_simp+
  with reduce_median_middle [of sample_ds "''id''" 0 TInt64 "[of_int64 3, of_int64 1, of_int64 2]" True]
  show ?thesis by (simp add: sample_cells del: mset.simps)
qed

lemma welford_exact_witness:
  "welford_mean (fold (observe real_arith) [2, 4, 9] (welford_default real_arith)) = Some 5 \<and>
   welford_variance real_arith Sample (fold (observe real_arith) [2, 4, 9] (welford_default real_arith)) = Some 13"
  using welford_exact [of "[2, 4, 9]"] by (simp add: Let_def)

lemma reduce_statistics_witness:
  "reduce True sample_ds ''score'' SumSquares = Ok (Some (Float64
     (fadd (fadd (fadd (fzero False) (fmul (of_int64 10) (of_int64 10))) (fmul (of_int64 4) (of_int64 4)))
           (fmul (of_int64 7) (of_int64 7)))))"
  using reduce_statistics [of sample_ds "''score''" 1 TFloat64 True Population]
  by (simp add: sample_cells stat_cells_float Let_def del: One_nat_def)

end
