(* ===== verification/Execution.thy ===== *)
theory Execution
  imports Reduce
begin

text \<open>
  The execution engine (\<open>src/execution/\<close>): splitting the rows into chunks, running the chunks on a
  pool of threads under a counting semaphore, the metrics the workers update atomically, and the
  events they emit. A parallel run is a step relation: every chunk is a task with a program point,
  and a step is one access to shared state by one task, in any interleaving the pool allows.
  A predicate or mapper is a function that may panic (\<open>None\<close>). The pool runs at most \<open>threads\<close>
  tasks at a time; after a panic it frees the thread, while the permit of the unwound task stays
  taken, because \<open>release\<close> is an ordinary statement after the loop.
\<close>

subsection \<open>Options and chunks\<close>

record execution_options =
  num_threads :: "nat option"
  chunk_size :: nat
  max_in_flight_chunks :: nat

text \<open>\<open>available\<close> is \<open>thread::available_parallelism\<close>, where an error counts as one.\<close>

definition default_execution_options :: "nat \<Rightarrow> execution_options" where
  "default_execution_options available =
     \<lparr>num_threads = Some available, chunk_size = 4096, max_in_flight_chunks = max available 1\<rparr>"

record execution_engine =
  pool_threads :: nat
  eng_opts :: execution_options

definition engine_new :: "nat \<Rightarrow> execution_options \<Rightarrow> execution_engine result" where
  "engine_new available opts =
     (if \<not> 0 < chunk_size opts then Panics ''chunk_size must be > 0''
      else if \<not> 0 < max_in_flight_chunks opts then Panics ''max_in_flight_chunks must be > 0''
      else if num_threads opts = Some 0 then Panics ''num_threads must be > 0 when set''
      else Ok \<lparr>pool_threads = max (case num_threads opts of Some n \<Rightarrow> n | None \<Rightarrow> available) 1,
               eng_opts = opts\<rparr>)"

text \<open>The loop of \<open>chunk_ranges\<close>; it is entered with a positive chunk csize, which \<open>engine_new\<close> asserts.\<close>

function chunk_loop :: "nat \<Rightarrow> nat \<Rightarrow> nat \<Rightarrow> (nat \<times> nat) list" where
  "chunk_loop n_rows csize start =
     (if start < n_rows \<and> 0 < csize
      then (start, min (start + csize) n_rows) # chunk_loop n_rows csize (min (start + csize) n_rows)
      else [])"
  by pat_completeness auto
termination by (relation "measure (\<lambda>(n, _, s). n - s)") auto

declare chunk_loop.simps [simp del]

definition chunk_ranges :: "nat \<Rightarrow> nat \<Rightarrow> (nat \<times> nat) list" where
  "chunk_ranges n_rows csize = (if n_rows = 0 then [] else chunk_loop n_rows csize 0)"

definition slice :: "'a list \<Rightarrow> nat \<times> nat \<Rightarrow> 'a list" where
  "slice xs r = drop (fst r) (take (snd r) xs)"

text \<open>What the engine relies on: the ranges are consecutive, non-empty and cover the rows.\<close>

fun consecutive :: "nat \<Rightarrow> nat \<Rightarrow> (nat \<times> nat) list \<Rightarrow> bool" where
  "consecutive start stop [] = (start = stop)"
| "consecutive start stop ((a, b) # rs) = (a = start \<and> a < b \<and> b \<le> stop \<and> consecutive b stop rs)"

locale chunk_plan =
  fixes ranges :: "(nat \<times> nat) list" and n_rows :: nat
  assumes cover: "consecutive 0 n_rows ranges"
begin

lemma concat_slices_from:
  "consecutive a n_rows rs \<Longrightarrow> length xs = n_rows \<Longrightarrow> concat (map (slice xs) rs) = drop a xs"
proof (induction rs arbitrary: a)
  case (Cons r rs)
  obtain a' b where ab: "r = (a', b)" by (cases r)
  with Cons.prems(1) have r: "r = (a, b)" "a < b" "b \<le> n_rows" "consecutive b n_rows rs" by simp_all
  have "drop a xs = slice xs r @ drop b xs"
    using r append_take_drop_id [of "b - a" "drop a xs"] by (simp add: slice_def drop_take)
  with r Cons show ?case by simp
qed simp

lemma concat_slices: "length xs = n_rows \<Longrightarrow> concat (map (slice xs) ranges) = xs"
  using concat_slices_from [OF cover] by simp

lemma range_bounds: "consecutive a n_rows rs \<Longrightarrow> (i, j) \<in> set rs \<Longrightarrow> a \<le> i \<and> i < j \<and> j \<le> n_rows"
  by (induction rs arbitrary: a) fastforce+

lemma length_slice: "length xs = n_rows \<Longrightarrow> (i, j) \<in> set ranges \<Longrightarrow> length (slice xs (i, j)) = j - i"
  using range_bounds [OF cover] by (auto simp: slice_def)

lemma sum_lengths: "length xs = n_rows \<Longrightarrow> (\<Sum>r\<leftarrow>ranges. length (slice xs r)) = n_rows"
  using arg_cong [OF concat_slices, of xs length] by (simp add: length_concat comp_def)

lemma few_chunks_from: "consecutive a n_rows rs \<Longrightarrow> length rs + a \<le> n_rows"
  by (induction rs arbitrary: a) fastforce+

lemma few_chunks: "length ranges \<le> n_rows"
  using few_chunks_from [OF cover] by simp

end

lemma consecutive_chunk_loop: "0 < csize \<Longrightarrow> start \<le> n \<Longrightarrow> consecutive start n (chunk_loop n csize start)"
proof (induction n csize start rule: chunk_loop.induct)
  case (1 n csize start)
  then show ?case by (subst chunk_loop.simps) auto
qed

interpretation plan: chunk_plan "chunk_ranges n (Suc k)" n for n k
  by unfold_locales (simp add: chunk_ranges_def consecutive_chunk_loop)

subsection \<open>Metrics\<close>

text \<open>
  Atomic counters of 64 bits. \<open>started_at\<close> is written and never read; the clock is not modelled:
  durations are numbers of nanoseconds that the environment chooses.
\<close>

definition fetch_add :: "nat \<Rightarrow> nat \<Rightarrow> nat" where
  "fetch_add d n = (n + d) mod 2 ^ 64"

definition fetch_sub1 :: "nat \<Rightarrow> nat" where
  "fetch_sub1 n = (if n = 0 then 2 ^ 64 - 1 else n - 1)"

record metrics =
  run_id :: nat
  elapsed_ns :: nat
  rows_processed :: nat
  chunks_started :: nat
  chunks_finished :: nat
  throttle_wait_ns :: nat
  active_chunks :: nat
  max_active_chunks :: nat

definition metrics_new :: metrics where
  "metrics_new = \<lparr>run_id = 0, elapsed_ns = 0, rows_processed = 0, chunks_started = 0,
     chunks_finished = 0, throttle_wait_ns = 0, active_chunks = 0, max_active_chunks = 0\<rparr>"

text \<open>Beginning a run clears the counters. The counter of runs wraps at \<open>2 ^ 64\<close>; the
  code also adds one to the old counter and discards the sum, whose overflow after that many runs is not
  modelled.\<close>

definition begin_run :: "metrics \<Rightarrow> metrics" where
  "begin_run m = m\<lparr>run_id := fetch_add 1 (run_id m), elapsed_ns := 0, rows_processed := 0,
     chunks_started := 0, chunks_finished := 0, throttle_wait_ns := 0, active_chunks := 0,
     max_active_chunks := 0\<rparr>"

definition end_run :: "nat \<Rightarrow> metrics \<Rightarrow> metrics" where
  "end_run ns m = m\<lparr>elapsed_ns := min ns (2 ^ 64 - 1)\<rparr>"

definition on_row_processed :: "metrics \<Rightarrow> metrics" where
  "on_row_processed m = m\<lparr>rows_processed := fetch_add 1 (rows_processed m)\<rparr>"

definition on_throttle_wait :: "nat \<Rightarrow> metrics \<Rightarrow> metrics" where
  "on_throttle_wait ns m =
     m\<lparr>throttle_wait_ns := fetch_add (min ns (2 ^ 64 - 1)) (throttle_wait_ns m)\<rparr>"

text \<open>The two accesses of \<open>on_chunk_start\<close> before \<open>update_max_usize\<close>, and the two of \<open>on_chunk_end\<close>.\<close>

definition chunk_start_count :: "metrics \<Rightarrow> metrics" where
  "chunk_start_count m = m\<lparr>chunks_started := fetch_add 1 (chunks_started m)\<rparr>"

definition chunk_start_active :: "metrics \<Rightarrow> metrics" where
  "chunk_start_active m = m\<lparr>active_chunks := fetch_add 1 (active_chunks m)\<rparr>"

definition chunk_end_count :: "metrics \<Rightarrow> metrics" where
  "chunk_end_count m = m\<lparr>chunks_finished := fetch_add 1 (chunks_finished m)\<rparr>"

definition chunk_end_active :: "metrics \<Rightarrow> metrics" where
  "chunk_end_active m = m\<lparr>active_chunks := fetch_sub1 (active_chunks m)\<rparr>"

record metrics_snapshot =
  snap_run_id :: nat
  snap_elapsed :: "nat option"
  snap_rows_processed :: nat
  snap_chunks_started :: nat
  snap_chunks_finished :: nat
  snap_throttle_wait :: nat
  snap_max_active_chunks :: nat

definition snapshot :: "metrics \<Rightarrow> metrics_snapshot" where
  "snapshot m = \<lparr>snap_run_id = run_id m,
     snap_elapsed = (if 0 < elapsed_ns m then Some (elapsed_ns m) else None),
     snap_rows_processed = rows_processed m, snap_chunks_started = chunks_started m,
     snap_chunks_finished = chunks_finished m, snap_throttle_wait = throttle_wait_ns m,
     snap_max_active_chunks = max_active_chunks m\<rparr>"

datatype execution_event =
    RunStarted
  | ThrottleWaited nat
  | ChunkStarted nat nat
  | ChunkFinished nat
  | ReduceStarted string reduce_op
  | ReduceFinished "value_t option"
  | RunFinished nat metrics_snapshot

subsection \<open>A parallel run\<close>

text \<open>
  The program points of a chunk's closure. \<open>Blocked\<close> is inside \<open>acquire\<close>, with the flag
  \<open>waited\<close>; \<open>Running k out\<close> has taken \<open>k\<close> rows; \<open>Panicked k\<close> is unwound by row \<open>k\<close>.
\<close>

datatype phase =
    Queued
  | Blocked bool
  | Acquired nat
  | Admitted
  | Counted
  | Activated nat
  | MaxLoaded nat nat
  | Started
  | Running nat "row list"
  | Emitted "row list"
  | Ended "row list"
  | Deactivated "row list"
  | Done "row list"
  | Panicked nat

record job =
  jb_rows :: "row list"
  jb_ranges :: "(nat \<times> nat) list"
  jb_work :: "row \<Rightarrow> row list option"
  jb_permits :: nat
  jb_threads :: nat

record run_state =
  permits :: nat
  run_metrics :: metrics
  tasks :: "phase list"
  events :: "execution_event list"

definition occupies :: "phase \<Rightarrow> nat" where
  "occupies p = (case p of Queued \<Rightarrow> 0 | Done _ \<Rightarrow> 0 | Panicked _ \<Rightarrow> 0 | _ \<Rightarrow> 1)"

definition chunk :: "job \<Rightarrow> nat \<Rightarrow> row list" where
  "chunk jb i = slice (jb_rows jb) (jb_ranges jb ! i)"

abbreviation goto :: "nat \<Rightarrow> phase \<Rightarrow> run_state \<Rightarrow> run_state" where
  "goto i p s \<equiv> s\<lparr>tasks := (tasks s)[i := p]\<rparr>"

abbreviation at_pc :: "run_state \<Rightarrow> nat \<Rightarrow> phase \<Rightarrow> bool" where
  "at_pc s i p \<equiv> i < length (tasks s) \<and> tasks s ! i = p"

abbreviation metric :: "(metrics \<Rightarrow> metrics) \<Rightarrow> run_state \<Rightarrow> run_state" where
  "metric f s \<equiv> s\<lparr>run_metrics := f (run_metrics s)\<rparr>"

abbreviation emit :: "execution_event \<Rightarrow> run_state \<Rightarrow> run_state" where
  "emit e s \<equiv> s\<lparr>events := events s @ [e]\<rparr>"

text \<open>One step is one access to the state tasks share. Taken as one are the counting of a
  wait and its event, and the counting of a row and the work on it, which touch different parts of it.\<close>

inductive step :: "job \<Rightarrow> run_state \<Rightarrow> run_state \<Rightarrow> bool" for jb where
  schedule: "at_pc s i Queued \<Longrightarrow> sum_list (map occupies (tasks s)) < jb_threads jb \<Longrightarrow>
     step jb s (goto i (Blocked False) s)"
| block: "at_pc s i (Blocked False) \<Longrightarrow> permits s = 0 \<Longrightarrow> step jb s (goto i (Blocked True) s)"
| acquire: "at_pc s i (Blocked waited) \<Longrightarrow> 0 < permits s \<Longrightarrow> (\<not> waited \<longrightarrow> d = 0) \<Longrightarrow>
     step jb s (goto i (Acquired d) (s\<lparr>permits := permits s - 1\<rparr>))"
| not_throttled: "at_pc s i (Acquired 0) \<Longrightarrow> step jb s (goto i Admitted s)"
| throttled: "at_pc s i (Acquired d) \<Longrightarrow> 0 < d \<Longrightarrow>
     step jb s (goto i Admitted (emit (ThrottleWaited d) (metric (on_throttle_wait d) s)))"
| count_start: "at_pc s i Admitted \<Longrightarrow> step jb s (goto i Counted (metric chunk_start_count s))"
| activate: "at_pc s i Counted \<Longrightarrow> s' = metric chunk_start_active s \<Longrightarrow>
     step jb s (goto i (Activated (active_chunks (run_metrics s'))) s')"
| max_enough: "at_pc s i (Activated now) \<Longrightarrow> now \<le> max_active_chunks (run_metrics s) \<Longrightarrow>
     step jb s (goto i Started s)"
| max_load: "at_pc s i (Activated now) \<Longrightarrow> max_active_chunks (run_metrics s) < now \<Longrightarrow>
     step jb s (goto i (MaxLoaded now (max_active_chunks (run_metrics s))) s)"
| max_swap: "at_pc s i (MaxLoaded now cur) \<Longrightarrow> max_active_chunks (run_metrics s) = cur \<Longrightarrow>
     step jb s (goto i Started (metric (\<lambda>m. m\<lparr>max_active_chunks := now\<rparr>) s))"
| max_retry: "at_pc s i (MaxLoaded now cur) \<Longrightarrow> max_active_chunks (run_metrics s) \<noteq> cur \<Longrightarrow>
     step jb s (goto i (Activated now) s)"
| announce: "at_pc s i Started \<Longrightarrow> jb_ranges jb ! i = (a, b) \<Longrightarrow>
     step jb s (goto i (Running 0 []) (emit (ChunkStarted a (b - a)) s))"
| row_ok: "at_pc s i (Running k out) \<Longrightarrow> k < length (chunk jb i) \<Longrightarrow> jb_work jb (chunk jb i ! k) = Some ys \<Longrightarrow>
     step jb s (goto i (Running (k + 1) (out @ ys)) (metric on_row_processed s))"
| row_panic: "at_pc s i (Running k out) \<Longrightarrow> k < length (chunk jb i) \<Longrightarrow> jb_work jb (chunk jb i ! k) = None \<Longrightarrow>
     step jb s (goto i (Panicked k) (metric on_row_processed s))"
| finish: "at_pc s i (Running k out) \<Longrightarrow> k = length (chunk jb i) \<Longrightarrow>
     step jb s (goto i (Emitted out) (emit (ChunkFinished (length out)) s))"
| count_end: "at_pc s i (Emitted out) \<Longrightarrow> step jb s (goto i (Ended out) (metric chunk_end_count s))"
| deactivate: "at_pc s i (Ended out) \<Longrightarrow> step jb s (goto i (Deactivated out) (metric chunk_end_active s))"
| release: "at_pc s i (Deactivated out) \<Longrightarrow>
     step jb s (goto i (Done out) (s\<lparr>permits := permits s + 1\<rparr>))"

definition run_init :: "metrics \<Rightarrow> job \<Rightarrow> run_state" where
  "run_init m jb = \<lparr>permits = jb_permits jb, run_metrics = begin_run m,
     tasks = replicate (length (jb_ranges jb)) Queued, events = [RunStarted]\<rparr>"

definition reachable :: "metrics \<Rightarrow> job \<Rightarrow> run_state \<Rightarrow> bool" where
  "reachable m jb = (step jb)\<^sup>*\<^sup>* (run_init m jb)"

definition is_done :: "phase \<Rightarrow> bool" where
  "is_done p = (case p of Done _ \<Rightarrow> True | _ \<Rightarrow> False)"

definition finished :: "run_state \<Rightarrow> bool" where
  "finished s \<longleftrightarrow> list_all is_done (tasks s)"

lemma is_done_iff: "is_done p \<longleftrightarrow> (\<exists>out. p = Done out)"
  by (cases p) (simp_all add: is_done_def)

text \<open>\<open>collect\<close> gathers the chunks in range order; then the run ends.\<close>

definition collected :: "run_state \<Rightarrow> row list" where
  "collected s = concat (map (\<lambda>p. case p of Done out \<Rightarrow> out | _ \<Rightarrow> []) (tasks s))"

definition run_result :: "data_set \<Rightarrow> run_state \<Rightarrow> data_set" where
  "run_result ds s = data_set_new (ds_schema ds) (collected s)"

definition run_end :: "nat \<Rightarrow> nat \<Rightarrow> run_state \<Rightarrow> run_state" where
  "run_end ns1 ns2 s =
     (let s1 = metric (end_run ns1) s in emit (RunFinished ns2 (snapshot (run_metrics s1))) s1)"

definition engine_job :: "execution_engine \<Rightarrow> data_set \<Rightarrow> (row \<Rightarrow> row list option) \<Rightarrow> job" where
  "engine_job e ds work = \<lparr>jb_rows = rows ds,
     jb_ranges = chunk_ranges (row_count ds) (chunk_size (eng_opts e)),
     jb_work = work, jb_permits = max_in_flight_chunks (eng_opts e), jb_threads = pool_threads e\<rparr>"

text \<open>The loop bodies of \<open>filter_parallel\<close> and \<open>map_parallel\<close>.\<close>

definition filter_parallel :: "execution_engine \<Rightarrow> data_set \<Rightarrow> (row \<Rightarrow> bool option) \<Rightarrow> job" where
  "filter_parallel e ds predicate =
     engine_job e ds (\<lambda>r. map_option (\<lambda>b. if b then [r] else []) (predicate r))"

definition map_parallel :: "execution_engine \<Rightarrow> data_set \<Rightarrow> (row \<Rightarrow> row option) \<Rightarrow> job" where
  "map_parallel e ds mapper =
     engine_job e ds (\<lambda>r. Option.bind (mapper r) (\<lambda>mapped.
       if length mapped = length (sfields (ds_schema ds)) then Some [mapped] else None))"

text \<open>The sequential \<open>reduce\<close> of the engine, with its events and metrics.\<close>

definition engine_reduce ::
  "bool \<Rightarrow> nat \<Rightarrow> nat \<Rightarrow> data_set \<Rightarrow> string \<Rightarrow> reduce_op \<Rightarrow> metrics \<Rightarrow>
   (value_t option \<times> metrics \<times> execution_event list) result" where
  "engine_reduce checks ns1 ns2 ds column op m =
     (let m1 = begin_run m in
      rmap (\<lambda>out. let m2 = end_run ns1 m1 in
          (out, m2, [RunStarted, ReduceStarted column op, ReduceFinished out, RunFinished ns2 (snapshot m2)]))
        (reduce checks ds column op))"

subsection \<open>Counting over tasks\<close>

definition total :: "(nat \<Rightarrow> phase \<Rightarrow> nat) \<Rightarrow> phase list \<Rightarrow> nat" where
  "total w ts = (\<Sum>i<length ts. w i (ts ! i))"

lemma total_upd:
  assumes "i < length ts"
  shows "total w (ts[i := p]) + w i (ts ! i) = total w ts + w i p"
proof -
  have "total w ts = w i (ts ! i) + (\<Sum>j\<in>{..<length ts} - {i}. w j (ts ! j))"
    unfolding total_def using assms by (subst sum.remove [of _ i]) auto
  moreover have "total w (ts[i := p]) = w i p + (\<Sum>j\<in>{..<length ts} - {i}. w j (ts ! j))"
    unfolding total_def using assms by (subst sum.remove [of _ i]) (auto intro: sum.cong)
  ultimately show ?thesis by simp
qed

lemma total_mono: "(\<And>i p. w i p \<le> v i p) \<Longrightarrow> total w ts \<le> total v ts"
  by (simp add: total_def sum_mono)

lemma total_upper: "(\<And>i. i < length ts \<Longrightarrow> w i (ts ! i) \<le> c i) \<Longrightarrow> total w ts \<le> (\<Sum>i<length ts. c i)"
  unfolding total_def by (rule sum_mono) simp

lemma total_member: "i < length ts \<Longrightarrow> w i (ts ! i) \<le> total w ts"
  unfolding total_def by (rule member_le_sum) auto

lemma occupies_total: "sum_list (map occupies ts) = total (\<lambda>_. occupies) ts"
  by (simp add: total_def sum_list_sum_nth atLeast0LessThan)

text \<open>Who holds a permit, who has been counted where, and how many rows each task has taken.\<close>

definition holds :: "nat \<Rightarrow> phase \<Rightarrow> nat" where
  "holds i p = (case p of Queued \<Rightarrow> 0 | Blocked _ \<Rightarrow> 0 | Done _ \<Rightarrow> 0 | _ \<Rightarrow> 1)"

definition w_started :: "nat \<Rightarrow> phase \<Rightarrow> nat" where
  "w_started i p = (case p of Queued \<Rightarrow> 0 | Blocked _ \<Rightarrow> 0 | Acquired _ \<Rightarrow> 0 | Admitted \<Rightarrow> 0 | _ \<Rightarrow> 1)"

definition w_active :: "nat \<Rightarrow> phase \<Rightarrow> nat" where
  "w_active i p = (case p of Queued \<Rightarrow> 0 | Blocked _ \<Rightarrow> 0 | Acquired _ \<Rightarrow> 0 | Admitted \<Rightarrow> 0 | Counted \<Rightarrow> 0
     | Deactivated _ \<Rightarrow> 0 | Done _ \<Rightarrow> 0 | _ \<Rightarrow> 1)"

definition w_finished :: "nat \<Rightarrow> phase \<Rightarrow> nat" where
  "w_finished i p = (case p of Ended _ \<Rightarrow> 1 | Deactivated _ \<Rightarrow> 1 | Done _ \<Rightarrow> 1 | _ \<Rightarrow> 0)"

definition w_rows :: "job \<Rightarrow> nat \<Rightarrow> phase \<Rightarrow> nat" where
  "w_rows jb i p = (case p of Running k _ \<Rightarrow> k | Panicked k \<Rightarrow> k + 1
     | Emitted _ \<Rightarrow> length (chunk jb i) | Ended _ \<Rightarrow> length (chunk jb i)
     | Deactivated _ \<Rightarrow> length (chunk jb i) | Done _ \<Rightarrow> length (chunk jb i) | _ \<Rightarrow> 0)"

lemmas weights = holds_def w_started_def w_active_def w_finished_def w_rows_def occupies_def

text \<open>What the rows of a chunk yield up to a point, provided no row panics.\<close>

definition yields :: "job \<Rightarrow> row list \<Rightarrow> row list \<Rightarrow> bool" where
  "yields jb rs out \<longleftrightarrow> (\<forall>r\<in>set rs. jb_work jb r \<noteq> None) \<and> out = concat (map (the \<circ> jb_work jb) rs)"

definition max_seen :: "phase \<Rightarrow> bool" where
  "max_seen p = (case p of Queued \<Rightarrow> False | Blocked _ \<Rightarrow> False | Acquired _ \<Rightarrow> False | Admitted \<Rightarrow> False
     | Counted \<Rightarrow> False | Activated _ \<Rightarrow> False | MaxLoaded _ _ \<Rightarrow> False | _ \<Rightarrow> True)"

definition phase_ok :: "job \<Rightarrow> metrics \<Rightarrow> nat \<Rightarrow> phase \<Rightarrow> bool" where
  "phase_ok jb m i p \<longleftrightarrow>
     (case p of
        Activated now \<Rightarrow> 1 \<le> now \<and> now \<le> jb_permits jb
      | MaxLoaded now cur \<Rightarrow> cur < now \<and> now \<le> jb_permits jb \<and> cur \<le> max_active_chunks m
      | Running k out \<Rightarrow> k \<le> length (chunk jb i) \<and> yields jb (take k (chunk jb i)) out
      | Emitted out \<Rightarrow> yields jb (chunk jb i) out
      | Ended out \<Rightarrow> yields jb (chunk jb i) out
      | Deactivated out \<Rightarrow> yields jb (chunk jb i) out
      | Done out \<Rightarrow> yields jb (chunk jb i) out
      | Panicked k \<Rightarrow> k < length (chunk jb i) \<and> jb_work jb (chunk jb i ! k) = None
      | _ \<Rightarrow> True) \<and>
     (max_seen p \<longrightarrow> 1 \<le> max_active_chunks m)"

text \<open>
  What \<open>engine_new\<close> and \<open>chunk_ranges\<close> give a run; a vector of rows is shorter than \<open>2 ^ 63\<close>
  (Rust bounds an allocation by \<open>isize::MAX\<close> bytes), a \<open>usize\<close> is below \<open>2 ^ 64\<close>.
\<close>

definition job_ok :: "job \<Rightarrow> bool" where
  "job_ok jb \<longleftrightarrow> consecutive 0 (length (jb_rows jb)) (jb_ranges jb) \<and> length (jb_rows jb) < 2 ^ 63 \<and>
     0 < jb_permits jb \<and> jb_permits jb < 2 ^ 64 \<and> 0 < jb_threads jb"

definition inv :: "job \<Rightarrow> run_state \<Rightarrow> bool" where
  "inv jb s \<longleftrightarrow> (let ts = tasks s; m = run_metrics s in
     length ts = length (jb_ranges jb) \<and>
     permits s + total holds ts = jb_permits jb \<and>
     total (\<lambda>_. occupies) ts \<le> jb_threads jb \<and>
     chunks_started m = total w_started ts \<and>
     active_chunks m = total w_active ts \<and>
     chunks_finished m = total w_finished ts \<and>
     rows_processed m = total (w_rows jb) ts \<and>
     max_active_chunks m \<le> jb_permits jb \<and>
     (\<forall>i<length ts. phase_ok jb m i (ts ! i)))"

lemma invD:
  assumes "inv jb s"
  shows "length (tasks s) = length (jb_ranges jb)"
    and "permits s + total holds (tasks s) = jb_permits jb"
    and "total (\<lambda>_. occupies) (tasks s) \<le> jb_threads jb"
    and "chunks_started (run_metrics s) = total w_started (tasks s)"
    and "active_chunks (run_metrics s) = total w_active (tasks s)"
    and "chunks_finished (run_metrics s) = total w_finished (tasks s)"
    and "rows_processed (run_metrics s) = total (w_rows jb) (tasks s)"
    and "max_active_chunks (run_metrics s) \<le> jb_permits jb"
    and "i < length (tasks s) \<Longrightarrow> phase_ok jb (run_metrics s) i (tasks s ! i)"
  using assms by (simp_all add: inv_def Let_def)

text \<open>The counters never reach the width at which they would wrap.\<close>

lemma few_tasks: "job_ok jb \<Longrightarrow> length (jb_ranges jb) < 2 ^ 63"
  using chunk_plan.few_chunks [of "jb_ranges jb" "length (jb_rows jb)"]
  by (simp add: job_ok_def chunk_plan_def)

lemma total_one: "(\<And>i p. w i p \<le> 1) \<Longrightarrow> total w ts \<le> length ts"
  using total_upper [of ts w "\<lambda>_. 1"] by simp

lemma sum_chunks: "job_ok jb \<Longrightarrow> (\<Sum>i<length (jb_ranges jb). length (chunk jb i)) = length (jb_rows jb)"
  using chunk_plan.sum_lengths [of "jb_ranges jb" "length (jb_rows jb)" "jb_rows jb"]
  by (simp add: job_ok_def chunk_plan_def chunk_def sum_list_sum_nth atLeast0LessThan)

lemma w_rows_le: "phase_ok jb m i p \<Longrightarrow> w_rows jb i p \<le> length (chunk jb i)"
  by (cases p) (auto simp: phase_ok_def w_rows_def)

lemma rows_bound:
  assumes "inv jb s" "job_ok jb"
  shows "total (w_rows jb) (tasks s) \<le> length (jb_rows jb)"
proof -
  have "total (w_rows jb) (tasks s) \<le> (\<Sum>i<length (tasks s). length (chunk jb i))"
    using invD(9) [OF assms(1)] by (intro total_upper w_rows_le)
  then show ?thesis using sum_chunks [OF assms(2)] invD(1) [OF assms(1)] by simp
qed

lemma counters_small:
  assumes "inv jb s" "job_ok jb"
  shows "total w_started (tasks s) + 1 < 2 ^ 64"
    and "total w_finished (tasks s) + 1 < 2 ^ 64"
    and "total (w_rows jb) (tasks s) + 1 < 2 ^ 64"
proof -
  have n: "length (tasks s) < 2 ^ 63" using few_tasks [OF assms(2)] invD(1) [OF assms(1)] by simp
  have "total w_started (tasks s) \<le> length (tasks s)" "total w_finished (tasks s) \<le> length (tasks s)"
    by (intro total_one; simp add: weights split: phase.splits)+
  then have "total w_started (tasks s) < 2 ^ 63" "total w_finished (tasks s) < 2 ^ 63"
    using n by (meson le_less_trans)+
  then show "total w_started (tasks s) + 1 < 2 ^ 64" "total w_finished (tasks s) + 1 < 2 ^ 64" by simp_all
  show "total (w_rows jb) (tasks s) + 1 < 2 ^ 64"
    using rows_bound [OF assms] assms(2) by (simp add: job_ok_def)
qed

text \<open>A task about to become active has a permit that the active ones do not use.\<close>

lemma active_room:
  assumes "inv jb s" "i < length (tasks s)" "tasks s ! i = Counted"
  shows "total w_active (tasks s) + 1 \<le> jb_permits jb"
proof -
  let ?ts = "(tasks s)[i := Started]"
  have "total w_active ?ts \<le> total holds ?ts" by (intro total_mono) (simp add: weights split: phase.splits)
  moreover have "total w_active ?ts = total w_active (tasks s) + 1" "total holds ?ts = total holds (tasks s)"
    using total_upd [OF assms(2), of w_active Started] total_upd [OF assms(2), of holds Started] assms(3)
    by (simp_all add: weights)
  ultimately show ?thesis using invD(2) [OF assms(1)] by linarith
qed

subsection \<open>The invariant holds in every interleaving\<close>

lemma phase_ok_mono:
  "max_active_chunks m \<le> max_active_chunks m' \<Longrightarrow> phase_ok jb m i p \<Longrightarrow> phase_ok jb m' i p"
  by (cases p) (auto simp: phase_ok_def)

text \<open>One task moving from \<open>p\<close> to \<open>p'\<close> preserves the invariant when the counters move by its weights.\<close>

lemma inv_move:
  assumes inv: "inv jb s" and i: "i < length (tasks s)" and p: "tasks s ! i = p"
    and ts: "tasks s' = (tasks s)[i := p']"
    and perm: "permits s' + holds i p' = permits s + holds i p"
    and occ: "total (\<lambda>_. occupies) (tasks s) + occupies p' \<le> jb_threads jb + occupies p"
    and st: "chunks_started (run_metrics s') + w_started i p = chunks_started (run_metrics s) + w_started i p'"
    and ac: "active_chunks (run_metrics s') + w_active i p = active_chunks (run_metrics s) + w_active i p'"
    and fi: "chunks_finished (run_metrics s') + w_finished i p = chunks_finished (run_metrics s) + w_finished i p'"
    and ro: "rows_processed (run_metrics s') + w_rows jb i p = rows_processed (run_metrics s) + w_rows jb i p'"
    and mx: "max_active_chunks (run_metrics s) \<le> max_active_chunks (run_metrics s')"
      "max_active_chunks (run_metrics s') \<le> jb_permits jb"
    and ok: "phase_ok jb (run_metrics s') i p'"
  shows "inv jb s'"
proof -
  note upd = total_upd [OF i, of _ p', unfolded p]
  note d = invD [OF inv]
  have "\<forall>j<length (tasks s'). phase_ok jb (run_metrics s') j (tasks s' ! j)"
    using d(9) phase_ok_mono [OF mx(1)] ok i by (simp add: ts nth_list_update)
  moreover have "permits s' + total holds (tasks s') = jb_permits jb"
    using upd [of holds] d(2) perm unfolding ts by linarith
  moreover have "total (\<lambda>_. occupies) (tasks s') \<le> jb_threads jb"
    using upd [of "\<lambda>_. occupies"] occ unfolding ts by linarith
  moreover have "chunks_started (run_metrics s') = total w_started (tasks s')"
    using upd [of w_started] d(4) st unfolding ts by linarith
  moreover have "active_chunks (run_metrics s') = total w_active (tasks s')"
    using upd [of w_active] d(5) ac unfolding ts by linarith
  moreover have "chunks_finished (run_metrics s') = total w_finished (tasks s')"
    using upd [of w_finished] d(6) fi unfolding ts by linarith
  moreover have "rows_processed (run_metrics s') = total (w_rows jb) (tasks s')"
    using upd [of "w_rows jb"] d(7) ro unfolding ts by linarith
  ultimately show ?thesis using d(1) mx(2) unfolding inv_def Let_def by (simp add: ts)
qed

lemmas metric_ops = chunk_start_count_def chunk_start_active_def chunk_end_count_def chunk_end_active_def
  on_row_processed_def on_throttle_wait_def

lemma fetch_add_small: "n < 18446744073709551615 \<Longrightarrow> fetch_add (Suc 0) n = Suc n"
  by (simp add: fetch_add_def)

lemma fetch_sub1_pos: "0 < n \<Longrightarrow> fetch_sub1 n + 1 = n"
  by (simp add: fetch_sub1_def)

lemma yields_snoc:
  "k < length rs \<Longrightarrow> yields jb (take k rs) out \<Longrightarrow> jb_work jb (rs ! k) = Some ys \<Longrightarrow>
   yields jb (take (Suc k) rs) (out @ ys)"
  by (auto simp: yields_def take_Suc_conv_app_nth)

lemma inv_init:
  assumes "job_ok jb"
  shows "inv jb (run_init m jb)"
proof -
  have "total w (replicate n Queued) = 0" if "\<And>i. w i Queued = 0" for w n
    using that by (simp add: total_def)
  then show ?thesis
    by (simp add: inv_def run_init_def begin_run_def weights phase_ok_def max_seen_def Let_def)
qed

lemma step_inv:
  assumes "step jb s s'" and inv: "inv jb s" and ok: "job_ok jb"
  shows "inv jb s'"
  using assms(1)
proof cases
  case (schedule i)
  then show ?thesis
    by (intro inv_move [OF inv, of i Queued])
       (auto simp: weights phase_ok_def max_seen_def invD(8) [OF inv] occupies_total)
next
  case (block i)
  then show ?thesis
    using invD(3) [OF inv] invD(8) [OF inv]
    by (intro inv_move [OF inv, of i "Blocked False"]) (auto simp: weights phase_ok_def max_seen_def)
next
  case (acquire i w d)
  then show ?thesis
    using invD(3) [OF inv] invD(8) [OF inv]
    by (intro inv_move [OF inv, of i "Blocked w"]) (auto simp: weights phase_ok_def max_seen_def)
next
  case (not_throttled i)
  then show ?thesis
    using invD(3) [OF inv] invD(8) [OF inv]
    by (intro inv_move [OF inv, of i "Acquired 0"]) (auto simp: weights phase_ok_def max_seen_def)
next
  case (throttled i d)
  then show ?thesis
    using invD(3) [OF inv] invD(8) [OF inv]
    by (intro inv_move [OF inv, of i "Acquired d"]) (auto simp: weights phase_ok_def max_seen_def metric_ops)
next
  case (count_start i)
  then show ?thesis
    using invD(3) [OF inv] invD(8) [OF inv] counters_small(1) [OF inv ok] invD(4) [OF inv]
    by (intro inv_move [OF inv, of i Admitted])
       (auto simp: weights phase_ok_def max_seen_def metric_ops fetch_add_small)
next
  case (activate i s1)
  have "total w_active (tasks s) + 1 \<le> jb_permits jb" using activate by (intro active_room [OF inv]) auto
  moreover have "jb_permits jb < 2 ^ 64" using ok by (simp add: job_ok_def)
  ultimately have "fetch_add 1 (active_chunks (run_metrics s)) = active_chunks (run_metrics s) + 1"
    "active_chunks (run_metrics s) + 1 \<le> jb_permits jb"
    using invD(5) [OF inv] by (simp_all add: fetch_add_small)
  then show ?thesis
    using activate invD(3) [OF inv] invD(8) [OF inv]
    by (intro inv_move [OF inv, of i Counted]) (auto simp: weights phase_ok_def max_seen_def metric_ops)
next
  case (max_enough i now)
  then show ?thesis
    using invD(3) [OF inv] invD(8) [OF inv] invD(9) [OF inv, of i]
    by (intro inv_move [OF inv, of i "Activated now"]) (auto simp: weights phase_ok_def max_seen_def)
next
  case (max_load i now)
  then show ?thesis
    using invD(3) [OF inv] invD(8) [OF inv] invD(9) [OF inv, of i]
    by (intro inv_move [OF inv, of i "Activated now"]) (auto simp: weights phase_ok_def max_seen_def)
next
  case (max_swap i now cur)
  then show ?thesis
    using invD(3) [OF inv] invD(8) [OF inv] invD(9) [OF inv, of i]
    by (intro inv_move [OF inv, of i "MaxLoaded now cur"]) (auto simp: weights phase_ok_def max_seen_def)
next
  case (max_retry i now cur)
  then show ?thesis
    using invD(3) [OF inv] invD(8) [OF inv] invD(9) [OF inv, of i]
    by (intro inv_move [OF inv, of i "MaxLoaded now cur"]) (auto simp: weights phase_ok_def max_seen_def)
next
  case (announce i a b)
  then show ?thesis
    using invD(3) [OF inv] invD(8) [OF inv] invD(9) [OF inv, of i]
    by (intro inv_move [OF inv, of i Started]) (auto simp: weights phase_ok_def max_seen_def yields_def)
next
  case (row_ok i k out ys)
  then show ?thesis
    using invD(3) [OF inv] invD(8) [OF inv] invD(9) [OF inv, of i] counters_small(3) [OF inv ok] invD(7) [OF inv]
    by (intro inv_move [OF inv, of i "Running k out"])
       (auto simp: weights phase_ok_def max_seen_def metric_ops fetch_add_small yields_snoc)
next
  case (row_panic i k out)
  then show ?thesis
    using invD(3) [OF inv] invD(8) [OF inv] invD(9) [OF inv, of i] counters_small(3) [OF inv ok] invD(7) [OF inv]
    by (intro inv_move [OF inv, of i "Running k out"])
       (auto simp: weights phase_ok_def max_seen_def metric_ops fetch_add_small)
next
  case (finish i k out)
  then show ?thesis
    using invD(3) [OF inv] invD(8) [OF inv] invD(9) [OF inv, of i]
    by (intro inv_move [OF inv, of i "Running k out"]) (auto simp: weights phase_ok_def max_seen_def)
next
  case (count_end i out)
  then show ?thesis
    using invD(3) [OF inv] invD(8) [OF inv] invD(9) [OF inv, of i] counters_small(2) [OF inv ok] invD(6) [OF inv]
    by (intro inv_move [OF inv, of i "Emitted out"])
       (auto simp: weights phase_ok_def max_seen_def metric_ops fetch_add_small)
next
  case (deactivate i out)
  have "0 < active_chunks (run_metrics s)"
    using deactivate total_member [of i "tasks s" w_active] invD(5) [OF inv] by (simp add: weights)
  then have "fetch_sub1 (active_chunks (run_metrics s)) + 1 = active_chunks (run_metrics s)"
    by (rule fetch_sub1_pos)
  then show ?thesis
    using deactivate invD(3) [OF inv] invD(8) [OF inv] invD(9) [OF inv, of i]
    by (intro inv_move [OF inv, of i "Ended out"]) (auto simp: weights phase_ok_def max_seen_def metric_ops)
next
  case (release i out)
  then show ?thesis
    using invD(3) [OF inv] invD(8) [OF inv] invD(9) [OF inv, of i]
    by (intro inv_move [OF inv, of i "Deactivated out"]) (auto simp: weights phase_ok_def max_seen_def)
qed

lemma reachable_inv: "reachable m jb s \<Longrightarrow> job_ok jb \<Longrightarrow> inv jb s"
  unfolding reachable_def by (induction rule: rtranclp_induct) (auto intro: inv_init step_inv)

subsection \<open>Every run ends\<close>

text \<open>
  The work left to a task; a retry of \<open>update_max_usize\<close> is paid for by the growth of the maximum
  \<open>M\<close> since it was read.
\<close>

definition left :: "job \<Rightarrow> nat \<Rightarrow> nat \<Rightarrow> phase \<Rightarrow> nat" where
  "left jb M i p = (let L = length (chunk jb i); N = 2 * jb_permits jb in
     case p of Done _ \<Rightarrow> 0 | Panicked _ \<Rightarrow> 0 | Deactivated _ \<Rightarrow> 1 | Ended _ \<Rightarrow> 2 | Emitted _ \<Rightarrow> 3
     | Running k _ \<Rightarrow> 4 + (L - k) | Started \<Rightarrow> 5 + L
     | MaxLoaded now cur \<Rightarrow> 6 + L + 2 * (now - cur) | Activated now \<Rightarrow> 7 + L + 2 * (now - M)
     | Counted \<Rightarrow> 8 + L + N | Admitted \<Rightarrow> 9 + L + N | Acquired _ \<Rightarrow> 10 + L + N
     | Blocked w \<Rightarrow> (if w then 11 else 12) + L + N | Queued \<Rightarrow> 13 + L + N)"

definition run_measure :: "job \<Rightarrow> run_state \<Rightarrow> nat" where
  "run_measure jb s = total (left jb (max_active_chunks (run_metrics s))) (tasks s)"

lemma left_mono: "M \<le> M' \<Longrightarrow> left jb M' i p \<le> left jb M i p"
  by (cases p) (simp_all add: left_def Let_def)

lemma measure_move:
  assumes "i < length (tasks s)" "tasks s ! i = p" "tasks s' = (tasks s)[i := p']"
    and "M = max_active_chunks (run_metrics s)" "M \<le> max_active_chunks (run_metrics s')"
    and "left jb M i p' < left jb M i p"
  shows "run_measure jb s' < run_measure jb s"
proof -
  have "run_measure jb s' \<le> total (left jb M) ((tasks s)[i := p'])"
    unfolding run_measure_def assms(3) by (intro total_mono left_mono assms(5))
  moreover have "total (left jb M) ((tasks s)[i := p']) + left jb M i p =
      total (left jb M) (tasks s) + left jb M i p'"
    using total_upd [OF assms(1), of "left jb M" p'] assms(2) by simp
  ultimately show ?thesis using assms(4,6) by (simp add: run_measure_def)
qed

lemma step_decreases:
  assumes st: "step jb s s'" and inv: "inv jb s" and ok: "job_ok jb"
  shows "run_measure jb s' < run_measure jb s"
  using st
proof cases
  case (activate i s1)
  then have "phase_ok jb (run_metrics s') i (tasks s' ! i)"
    using invD(9) [OF step_inv [OF st inv ok], of i] by simp
  with activate show ?thesis
    by (intro measure_move [of i s Counted]) (auto simp: left_def metric_ops phase_ok_def Let_def)
next
  case (max_retry i now cur)
  then show ?thesis
    using invD(9) [OF inv, of i]
    by (intro measure_move [of i s "MaxLoaded now cur"]) (auto simp: left_def phase_ok_def Let_def)
next
  case (max_swap i now cur)
  then show ?thesis
    using invD(9) [OF inv, of i]
    by (intro measure_move [of i s "MaxLoaded now cur"]) (auto simp: left_def phase_ok_def Let_def)
next
  case (row_ok i k out ys)
  then show ?thesis
    by (intro measure_move [of i s "Running k out"]) (auto simp: left_def metric_ops Let_def)
next
  case (row_panic i k out)
  then show ?thesis
    by (intro measure_move [of i s "Running k out"]) (auto simp: left_def metric_ops Let_def)
qed (auto intro!: measure_move simp: left_def metric_ops Let_def)

definition w_panicked :: "nat \<Rightarrow> phase \<Rightarrow> nat" where
  "w_panicked i p = (case p of Panicked _ \<Rightarrow> 1 | _ \<Rightarrow> 0)"

definition over :: "phase \<Rightarrow> bool" where
  "over p = (case p of Done _ \<Rightarrow> True | Panicked _ \<Rightarrow> True | _ \<Rightarrow> False)"

definition settled :: "run_state \<Rightarrow> bool" where
  "settled s \<longleftrightarrow> list_all over (tasks s)"

definition idle :: "phase \<Rightarrow> bool" where
  "idle p = (case p of Queued \<Rightarrow> True | Blocked _ \<Rightarrow> True | Done _ \<Rightarrow> True | Panicked _ \<Rightarrow> True | _ \<Rightarrow> False)"

lemma idle_cases:
  assumes "idle p"
  obtains "p = Queued" | w where "p = Blocked w" | out where "p = Done out" | k where "p = Panicked k"
  using assms by (cases p) (auto simp: idle_def)

text \<open>A task past \<open>acquire\<close> can always go on.\<close>

lemma task_can_step:
  assumes "inv jb s" "i < length (tasks s)"
    and "\<not> idle (tasks s ! i)"
  shows "\<exists>s'. step jb s s'"
proof (cases "tasks s ! i")
  case (Acquired d)
  then show ?thesis using assms(2) by (cases "d = 0") (blast intro: step.intros | simp add: step.throttled)+
next
  case (Activated now)
  then show ?thesis using assms(2)
    by (cases "now \<le> max_active_chunks (run_metrics s)") (auto simp: not_le intro: max_enough max_load)
next
  case (MaxLoaded now cur)
  then show ?thesis using assms(2)
    by (cases "max_active_chunks (run_metrics s) = cur") (auto intro: max_swap max_retry)
next
  case Started
  obtain a b where "jb_ranges jb ! i = (a, b)" by (cases "jb_ranges jb ! i")
  with Started show ?thesis using assms(2) by (auto intro: announce)
next
  case (Running k out)
  then have "k \<le> length (chunk jb i)" using invD(9) [OF assms(1,2)] by (simp add: phase_ok_def)
  then consider "k = length (chunk jb i)" | "k < length (chunk jb i)" by linarith
  then show ?thesis
  proof cases
    case 1
    with Running show ?thesis using assms(2) by (auto intro: finish)
  next
    case 2
    with Running show ?thesis using assms(2)
      by (cases "jb_work jb (chunk jb i ! k)") (auto intro: row_ok row_panic)
  qed
qed (use assms in \<open>auto simp: idle_def intro: step.intros\<close>)

lemma progress:
  assumes inv: "inv jb s" and ok: "job_ok jb" and few: "total w_panicked (tasks s) < jb_permits jb"
    and ns: "\<not> settled s"
  shows "\<exists>s'. step jb s s'"
proof (cases "\<exists>i<length (tasks s). \<not> idle (tasks s ! i)")
  case True
  then show ?thesis using task_can_step [OF inv] by blast
next
  case False
  then have idle: "idle (tasks s ! i)" if "i < length (tasks s)" for i using that by blast
  have "holds i (tasks s ! i) = w_panicked i (tasks s ! i)" if "i < length (tasks s)" for i
    using idle [OF that] by (cases rule: idle_cases) (auto simp: weights w_panicked_def)
  then have "total holds (tasks s) = total w_panicked (tasks s)" by (simp add: total_def)
  then have perm: "0 < permits s" using invD(2) [OF inv] few by linarith
  show ?thesis
  proof (cases "\<exists>i<length (tasks s). \<exists>w. tasks s ! i = Blocked w")
    case True
    then obtain i w where "at_pc s i (Blocked w)" by blast
    then show ?thesis using perm acquire [of i s w 0] by blast
  next
    case noblock: False
    from ns obtain i where i: "i < length (tasks s)" "\<not> over (tasks s ! i)"
      by (auto simp: settled_def list_all_length)
    with idle [OF i(1)] noblock have "tasks s ! i = Queued" by (cases rule: idle_cases) (auto simp: over_def)
    moreover have "occupies (tasks s ! j) = 0" if "j < length (tasks s)" for j
      using idle [OF that] noblock that by (cases rule: idle_cases) (auto simp: occupies_def)
    then have "total (\<lambda>_. occupies) (tasks s) = 0" by (simp add: total_def)
    then have "sum_list (map occupies (tasks s)) < jb_threads jb"
      using ok by (simp add: occupies_total job_ok_def)
    ultimately show ?thesis using schedule [of i s jb] i(1) by blast
  qed
qed

subsection \<open>What a finished run has computed\<close>

lemma concat_map_concat: "concat (map f (concat (map g xs))) = concat (map (\<lambda>i. concat (map f (g i))) xs)"
  by (induction xs) simp_all

lemma concat_if: "concat (map (\<lambda>r. if p r then [r] else []) xs) = filter p xs"
  by (induction xs) simp_all

lemma finished_collected:
  assumes inv: "inv jb s" and ok: "job_ok jb" and fin: "finished s"
  shows "yields jb (jb_rows jb) (collected s)"
proof -
  let ?n = "length (jb_ranges jb)"
  let ?f = "concat \<circ> map (the \<circ> jb_work jb)"
  have len: "length (tasks s) = ?n" by (rule invD(1) [OF inv])
  have each: "\<exists>out. tasks s ! i = Done out \<and> yields jb (chunk jb i) out" if "i < ?n" for i
  proof -
    have "\<exists>out. tasks s ! i = Done out"
      using fin that len by (simp add: finished_def list_all_length is_done_iff)
    then obtain out where "tasks s ! i = Done out" by blast
    with invD(9) [OF inv, of i] that len show ?thesis by (simp add: phase_ok_def)
  qed
  have plan: "chunk_plan (jb_ranges jb) (length (jb_rows jb))" using ok by (simp add: job_ok_def chunk_plan_def)
  have rows: "concat (map (chunk jb) [0..<?n]) = jb_rows jb"
    using chunk_plan.concat_slices [OF plan refl] map_nth [of "jb_ranges jb"]
    by (simp add: chunk_def [abs_def] map_map [symmetric, unfolded comp_def] flip: map_map)
  have "map (\<lambda>p. case p of Done out \<Rightarrow> out | _ \<Rightarrow> []) (tasks s) = map (\<lambda>i. ?f (chunk jb i)) [0..<?n]"
    by (rule nth_equalityI) (use len each in \<open>force simp: yields_def\<close>)+
  then have "collected s = concat (map (\<lambda>i. ?f (chunk jb i)) [0..<?n])" by (simp add: collected_def)
  also have "\<dots> = ?f (concat (map (chunk jb) [0..<?n]))"
    by (simp add: concat_map_concat)
  finally have "collected s = ?f (jb_rows jb)" unfolding rows .
  moreover have "jb_work jb r \<noteq> None" if "r \<in> set (jb_rows jb)" for r
  proof -
    from that obtain i where "i < ?n" "r \<in> set (chunk jb i)" by (subst (asm) rows [symmetric]) auto
    with each [of i] show ?thesis by (auto simp: yields_def)
  qed
  ultimately show ?thesis by (simp add: yields_def)
qed

lemma finished_metrics:
  assumes inv: "inv jb s" and ok: "job_ok jb" and fin: "finished s"
  shows "permits s = jb_permits jb"
    and "rows_processed (run_metrics s) = length (jb_rows jb)"
    and "chunks_started (run_metrics s) = length (jb_ranges jb)"
    and "chunks_finished (run_metrics s) = length (jb_ranges jb)"
    and "active_chunks (run_metrics s) = 0"
    and "jb_rows jb \<noteq> [] \<Longrightarrow> 1 \<le> max_active_chunks (run_metrics s)"
proof -
  have each: "\<exists>out. tasks s ! i = Done out" if "i < length (tasks s)" for i
    using fin that by (auto simp: finished_def list_all_length is_done_iff)
  have sum: "total w (tasks s) = (\<Sum>i<length (tasks s). c i)" if "\<And>i out. w i (Done out) = c i" for w c
    unfolding total_def using that each by (intro sum.cong) fastforce+
  note d = invD [OF inv]
  show "permits s = jb_permits jb" using d(2) sum [of holds "\<lambda>_. 0"] by (simp add: weights)
  show "active_chunks (run_metrics s) = 0" using d(5) sum [of w_active "\<lambda>_. 0"] by (simp add: weights)
  show "chunks_started (run_metrics s) = length (jb_ranges jb)"
    using d(1,4) sum [of w_started "\<lambda>_. 1"] by (simp add: weights)
  show "chunks_finished (run_metrics s) = length (jb_ranges jb)"
    using d(1,6) sum [of w_finished "\<lambda>_. 1"] by (simp add: weights)
  show "rows_processed (run_metrics s) = length (jb_rows jb)"
    using d(1,7) sum [of "w_rows jb" "\<lambda>i. length (chunk jb i)"] sum_chunks [OF ok] by (simp add: weights)
  assume "jb_rows jb \<noteq> []"
  then have "jb_ranges jb \<noteq> []" using ok by (auto simp: job_ok_def)
  then have "0 < length (tasks s)" using d(1) by simp
  with each [of 0] d(9) [of 0] show "1 \<le> max_active_chunks (run_metrics s)"
    by (auto simp: phase_ok_def max_seen_def)
qed

lemma engine_job_ok:
  assumes "engine_new available opts = Ok e" "length (rows ds) < 2 ^ 63" "max_in_flight_chunks opts < 2 ^ 64"
  shows "job_ok (engine_job e ds work)"
proof -
  obtain c where c: "chunk_size (eng_opts e) = Suc c"
    using assms(1) by (cases "chunk_size opts") (auto simp: engine_new_def split: if_splits)
  with assms plan.cover [of "row_count ds" c] show ?thesis
    by (auto simp: job_ok_def engine_job_def engine_new_def row_count_def split: if_splits)
qed

lemma engine_job_sel [simp]:
  "jb_rows (engine_job e ds work) = rows ds" "jb_work (engine_job e ds work) = work"
  "jb_permits (engine_job e ds work) = max_in_flight_chunks (eng_opts e)"
  "jb_ranges (engine_job e ds work) = chunk_ranges (row_count ds) (chunk_size (eng_opts e))"
  by (simp_all add: engine_job_def)

subsection \<open>Properties\<close>

text \<open>C1: In every interleaving, a finished parallel filter has kept exactly the rows that the
  sequential filter keeps, in their order, and its metrics count every row and chunk once.\<close>

theorem filter_parallel_correct:
  assumes "engine_new available opts = Ok e"
    and "length (rows ds) < 2 ^ 63" "max_in_flight_chunks opts < 2 ^ 64"
    and "reachable m (filter_parallel e ds (\<lambda>r. Some (p r))) s" "finished s"
  shows "run_result ds s = filter_ds ds p \<and>
    rows_processed (run_metrics s) = row_count ds \<and> active_chunks (run_metrics s) = 0 \<and>
    chunks_started (run_metrics s) = length (chunk_ranges (row_count ds) (chunk_size (eng_opts e))) \<and>
    chunks_finished (run_metrics s) = chunks_started (run_metrics s)"
proof -
  let ?jb = "filter_parallel e ds (\<lambda>r. Some (p r))"
  have ok: "job_ok ?jb" unfolding filter_parallel_def by (rule engine_job_ok [OF assms(1-3)])
  note inv = reachable_inv [OF assms(4) ok]
  have "collected s = concat (map (\<lambda>r. if p r then [r] else []) (rows ds))"
    using finished_collected [OF inv ok assms(5)] by (simp add: yields_def filter_parallel_def comp_def)
  also have "\<dots> = filter p (rows ds)" by (rule concat_if)
  finally show ?thesis
    using finished_metrics [OF inv ok assms(5)]
    by (simp add: run_result_def filter_ds_def filter_rows_def filter_parallel_def row_count_def)
qed

text \<open>C2: In every interleaving, a finished parallel map has produced what the sequential map
  produces, and it finishes only if every mapped row has the schema's length.\<close>

theorem map_parallel_correct:
  assumes "engine_new available opts = Ok e"
    and "length (rows ds) < 2 ^ 63" "max_in_flight_chunks opts < 2 ^ 64"
    and "reachable m (map_parallel e ds (\<lambda>r. Some (f r))) s" "finished s"
  shows "map_ds ds f = Ok (run_result ds s) \<and>
    rows_processed (run_metrics s) = row_count ds \<and> active_chunks (run_metrics s) = 0"
proof -
  let ?jb = "map_parallel e ds (\<lambda>r. Some (f r))" and ?n = "length (sfields (ds_schema ds))"
  have ok: "job_ok ?jb" unfolding map_parallel_def by (rule engine_job_ok [OF assms(1-3)])
  note inv = reachable_inv [OF assms(4) ok]
  have y: "yields ?jb (rows ds) (collected s)"
    using finished_collected [OF inv ok assms(5)] by (simp add: map_parallel_def)
  then have len: "length (f r) = ?n" if "r \<in> set (rows ds)" for r
    using that by (auto simp: yields_def map_parallel_def split: if_splits)
  have "collected s = concat (map (the \<circ> jb_work ?jb) (rows ds))" using y unfolding yields_def by blast
  also have "map (the \<circ> jb_work ?jb) (rows ds) = map (\<lambda>r. [f r]) (rows ds)"
    by (rule map_cong) (simp_all add: map_parallel_def len)
  finally have "collected s = map f (rows ds)" by simp
  moreover have "map_rows ds f = Ok (data_set_new (ds_schema ds) (map f (rows ds)))"
    by (rule map_rows_ok) (rule len)
  ultimately show ?thesis
    using finished_metrics [OF inv ok assms(5)]
    by (simp add: run_result_def map_ds_def map_parallel_def row_count_def)
qed

text \<open>C4: At every moment of a run, panics included, no more chunks are active than the limit on
  chunks in flight, neither now nor at the recorded maximum, and no more than the limit hold permits.\<close>

theorem in_flight_bounded:
  assumes "engine_new available opts = Ok e"
    and "length (rows ds) < 2 ^ 63" "max_in_flight_chunks opts < 2 ^ 64"
    and "reachable m (engine_job e ds work) s"
  shows "active_chunks (run_metrics s) \<le> max_in_flight_chunks opts \<and>
    max_active_chunks (run_metrics s) \<le> max_in_flight_chunks opts \<and>
    permits s + total holds (tasks s) = max_in_flight_chunks opts \<and>
    sum_list (map occupies (tasks s)) \<le> pool_threads e"
proof -
  have opts: "max_in_flight_chunks (eng_opts e) = max_in_flight_chunks opts"
    using assms(1) by (auto simp: engine_new_def split: if_splits)
  note inv = reachable_inv [OF assms(4) engine_job_ok [OF assms(1-3)]]
  have "total w_active (tasks s) \<le> total holds (tasks s)"
    by (intro total_mono) (simp add: weights split: phase.splits)
  then show ?thesis
    using invD(2,3,5,8) [OF inv] opts by (simp add: occupies_total engine_job_def)
qed

lemma chunk_rows: "set (chunk jb i) \<subseteq> set (jb_rows jb)"
  by (auto simp: chunk_def slice_def split: prod.splits dest!: in_set_takeD in_set_dropD)

lemma no_panic:
  assumes "inv jb s" "\<forall>r\<in>set (jb_rows jb). jb_work jb r \<noteq> None" "i < length (tasks s)"
  shows "w_panicked i (tasks s ! i) = 0"
proof (cases "tasks s ! i")
  case (Panicked k)
  with invD(9) [OF assms(1,3)] have "k < length (chunk jb i)" "jb_work jb (chunk jb i ! k) = None"
    by (simp_all add: phase_ok_def)
  with chunk_rows [of jb i] assms(2) show ?thesis by (meson nth_mem subsetD)
qed (simp_all add: w_panicked_def)

lemma no_panic_progress:
  assumes inv: "inv jb s" and ok: "job_ok jb" and total: "\<forall>r\<in>set (jb_rows jb). jb_work jb r \<noteq> None" and nf: "\<not> finished s"
  shows "\<exists>s'. step jb s s'"
proof -
  note np = no_panic [OF inv total]
  have "over (tasks s ! i) = is_done (tasks s ! i)" if "i < length (tasks s)" for i
    using np [OF that] by (cases "tasks s ! i") (auto simp: w_panicked_def over_def is_done_def)
  then have "\<not> settled s" using nf by (auto simp: settled_def finished_def list_all_length)
  moreover have "total w_panicked (tasks s) = 0" using np by (simp add: total_def)
  ultimately show ?thesis using progress [OF inv ok] ok by (simp add: job_ok_def)
qed

lemma run_completes:
  assumes "inv jb s" "job_ok jb" "\<forall>r\<in>set (jb_rows jb). jb_work jb r \<noteq> None"
  shows "\<exists>s'. (step jb)\<^sup>*\<^sup>* s s' \<and> finished s'"
  using assms(1)
proof (induction "run_measure jb s" arbitrary: s rule: less_induct)
  case less
  show ?case
  proof (cases "finished s")
    case False
    then obtain s1 where st: "step jb s s1" using no_panic_progress [OF less.prems assms(2,3)] by blast
    from less.hyps [OF step_decreases [OF st less.prems assms(2)] step_inv [OF st less.prems assms(2)]]
    obtain s' where "(step jb)\<^sup>*\<^sup>* s1 s'" "finished s'" by blast
    with st show ?thesis by (meson converse_rtranclp_into_rtranclp)
  qed auto
qed

text \<open>C3: A run ends: every step of any run uses up part of a bounded amount of work, so that no run
  goes on for ever; when the work panics on no row of the dataset, the run is never stuck before every
  chunk is done, and a finished state can be reached from every state of it.\<close>

theorem run_ends:
  assumes "job_ok jb" and "reachable m jb s"
  shows "(\<forall>s'. step jb s s' \<longrightarrow> reachable m jb s' \<and> run_measure jb s' < run_measure jb s) \<and>
    ((\<forall>r\<in>set (jb_rows jb). jb_work jb r \<noteq> None) \<longrightarrow>
      (\<not> finished s \<longrightarrow> (\<exists>s'. step jb s s')) \<and> (\<exists>s'. (step jb)\<^sup>*\<^sup>* s s' \<and> finished s'))"
proof -
  note inv = reachable_inv [OF assms(2,1)]
  have "reachable m jb s'" if "step jb s s'" for s'
    using assms(2) that unfolding reachable_def by (rule rtranclp.rtrancl_into_rtrancl)
  then show ?thesis
    using step_decreases [OF _ inv assms(1)] no_panic_progress [OF inv assms(1)]
      run_completes [OF inv assms(1)] by blast
qed

text \<open>
  Two one-row chunks on two threads with one permit, and a mapper that panics: the first task keeps
  the permit, so the second one waits for ever.
\<close>

definition stuck_ds :: data_set where
  "stuck_ds = data_set_new (schema_new []) [[], []]"

definition stuck_job :: job where
  "stuck_job = map_parallel \<lparr>pool_threads = 2, eng_opts =
      \<lparr>num_threads = Some 2, chunk_size = 1, max_in_flight_chunks = 1\<rparr>\<rparr> stuck_ds (\<lambda>r. None)"

lemma stuck_job_sel:
  "jb_rows stuck_job = [[], []]" "jb_ranges stuck_job = [(0, 1), (1, 2)]" "jb_work stuck_job = (\<lambda>r. None)"
  "jb_permits stuck_job = 1" "jb_threads stuck_job = 2"
  by (simp_all add: stuck_job_def map_parallel_def engine_job_def stuck_ds_def row_count_def
      chunk_ranges_def chunk_loop.simps)

lemma reach_step: "reachable m jb s \<Longrightarrow> step jb s s' \<Longrightarrow> reachable m jb s'"
  unfolding reachable_def by (rule rtranclp.rtrancl_into_rtrancl)

definition stuck_metrics :: metrics where
  "stuck_metrics = metrics_new\<lparr>run_id := 1, rows_processed := 1, chunks_started := 1,
     active_chunks := 1, max_active_chunks := 1\<rparr>"

definition stuck_state :: run_state where
  "stuck_state = \<lparr>permits = 0, run_metrics = stuck_metrics,
     tasks = [Panicked 0, Blocked True], events = [RunStarted, ChunkStarted 0 1]\<rparr>"

lemma stuck_reachable: "reachable metrics_new stuck_job stuck_state"
proof -
  let ?J = stuck_job
  let ?m0 = "begin_run metrics_new"
  let ?s = "\<lambda>p m t0 t1 ev. \<lparr>permits = p, run_metrics = m, tasks = [t0, t1], events = ev\<rparr>"
  have r: "reachable metrics_new ?J (?s 1 ?m0 Queued Queued [RunStarted])"
    by (simp add: reachable_def run_init_def stuck_job_sel)
  have r: "reachable metrics_new ?J (?s 1 ?m0 (Blocked False) Queued [RunStarted])"
    using reach_step [OF r schedule [of 0]] by (simp add: stuck_job_sel occupies_def)
  have r: "reachable metrics_new ?J (?s 0 ?m0 (Acquired 0) Queued [RunStarted])"
    using reach_step [OF r acquire [of 0 _ False 0]] by simp
  have r: "reachable metrics_new ?J (?s 0 ?m0 Admitted Queued [RunStarted])"
    using reach_step [OF r not_throttled [of 0]] by simp
  have r: "reachable metrics_new ?J (?s 0 (chunk_start_count ?m0) Counted Queued [RunStarted])"
    using reach_step [OF r count_start [of 0]] by simp
  let ?m2 = "chunk_start_active (chunk_start_count ?m0)"
  have m2: "active_chunks ?m2 = 1" "max_active_chunks ?m2 = 0"
    by (simp_all add: metric_ops begin_run_def metrics_new_def fetch_add_def)
  have r: "reachable metrics_new ?J (?s 0 ?m2 (Activated 1) Queued [RunStarted])"
    using reach_step [OF r activate [of 0, OF _ refl]] m2 by simp
  have r: "reachable metrics_new ?J (?s 0 ?m2 (MaxLoaded 1 0) Queued [RunStarted])"
    using reach_step [OF r max_load [of 0 _ 1]] m2 by simp
  let ?m3 = "?m2\<lparr>max_active_chunks := 1\<rparr>"
  have r: "reachable metrics_new ?J (?s 0 ?m3 Started Queued [RunStarted])"
    using reach_step [OF r max_swap [of 0 _ 1 0]] m2 by simp
  have r: "reachable metrics_new ?J (?s 0 ?m3 (Running 0 []) Queued [RunStarted, ChunkStarted 0 1])"
    using reach_step [OF r announce [of 0 _ _ 0 1]] by (simp add: stuck_job_sel)
  have r: "reachable metrics_new ?J (?s 0 (on_row_processed ?m3) (Panicked 0) Queued [RunStarted, ChunkStarted 0 1])"
    using reach_step [OF r row_panic [of 0 _ 0 "[]"]] by (simp add: stuck_job_sel chunk_def slice_def)
  have r: "reachable metrics_new ?J (?s 0 (on_row_processed ?m3) (Panicked 0) (Blocked False) [RunStarted, ChunkStarted 0 1])"
    using reach_step [OF r schedule [of 1]] by (simp add: stuck_job_sel occupies_def)
  have r: "reachable metrics_new ?J (?s 0 (on_row_processed ?m3) (Panicked 0) (Blocked True) [RunStarted, ChunkStarted 0 1])"
    using reach_step [OF r block [of 1]] by simp
  moreover have "on_row_processed ?m3 = stuck_metrics"
    by (simp add: metric_ops begin_run_def metrics_new_def fetch_add_def stuck_metrics_def)
  ultimately show ?thesis by (simp add: stuck_state_def)
qed

lemma stuck_no_step: "\<not> step stuck_job stuck_state s'"
proof
  assume "step stuck_job stuck_state s'"
  then show False
    by cases (auto simp: stuck_state_def less_Suc_eq)
qed

text \<open>C5: A chunk whose mapper panics keeps its permit: with as many panics as permits the run is
  stuck, here with one task blocked in \<open>acquire\<close> for ever, so the call neither returns nor unwinds.\<close>

theorem panic_leaks_permit:
  "job_ok stuck_job \<and> reachable metrics_new stuck_job stuck_state \<and>
   tasks stuck_state = [Panicked 0, Blocked True] \<and> permits stuck_state = 0 \<and>
   active_chunks (run_metrics stuck_state) = 1 \<and> (\<nexists>s'. step stuck_job stuck_state s')"
  using stuck_reachable stuck_no_step
  by (simp add: job_ok_def stuck_job_sel stuck_state_def stuck_metrics_def metrics_new_def)

subsection \<open>Witnesses\<close>

definition sample_exec_opts :: execution_options where
  "sample_exec_opts = \<lparr>num_threads = Some 3, chunk_size = 2, max_in_flight_chunks = 2\<rparr>"

definition sample_engine :: execution_engine where
  "sample_engine = \<lparr>pool_threads = 3, eng_opts = sample_exec_opts\<rparr>"

lemma sample_engine_new: "engine_new 8 sample_exec_opts = Ok sample_engine"
  by (simp add: engine_new_def sample_exec_opts_def sample_engine_def)

lemma sample_rows: "length (rows sample_ds) = 4"
  by (simp add: sample_ds_def)

lemma sample_bounds: "length (rows sample_ds) < 2 ^ 63" "max_in_flight_chunks sample_exec_opts < 2 ^ 64"
  by (simp_all add: sample_rows sample_exec_opts_def)

lemma sample_job_ok: "job_ok (engine_job sample_engine sample_ds work)"
  by (rule engine_job_ok [OF sample_engine_new sample_bounds])

lemma sample_run:
  assumes "\<forall>r\<in>set (rows sample_ds). work r \<noteq> None"
  shows "\<exists>s. reachable metrics_new (engine_job sample_engine sample_ds work) s \<and> finished s"
  using run_completes [OF inv_init [OF sample_job_ok] sample_job_ok] assms
  by (simp add: reachable_def)

lemma filter_parallel_correct_witness:
  "\<exists>s. finished s \<and> rows_processed (run_metrics s) = row_count sample_ds \<and>
       run_result sample_ds s = filter_ds sample_ds (\<lambda>r. r ! 0 \<noteq> Null)"
proof -
  obtain s where s: "reachable metrics_new (filter_parallel sample_engine sample_ds (\<lambda>r. Some (r ! 0 \<noteq> Null))) s"
    "finished s"
    unfolding filter_parallel_def using sample_run [of "\<lambda>r. map_option (\<lambda>b. if b then [r] else []) (Some (r ! 0 \<noteq> Null))"] by auto
  from filter_parallel_correct [OF sample_engine_new sample_bounds this] s(2) show ?thesis by blast
qed

lemma map_parallel_correct_witness:
  "\<exists>s. finished s \<and> map_ds sample_ds (\<lambda>r. [Null, Null, Null]) = Ok (run_result sample_ds s)"
proof -
  have "length (sfields (ds_schema sample_ds)) = 3" by (simp add: sample_ds_def schema_new_def)
  then obtain s where s: "reachable metrics_new (map_parallel sample_engine sample_ds (\<lambda>r. Some [Null, Null, Null])) s"
    "finished s"
    unfolding map_parallel_def using sample_run [of "\<lambda>r. Some [[Null, Null, Null]]"] by auto
  from map_parallel_correct [OF sample_engine_new sample_bounds this] s(2) show ?thesis by blast
qed

lemma in_flight_bounded_witness:
  "active_chunks (run_metrics (run_init metrics_new (engine_job sample_engine sample_ds (\<lambda>r. None)))) \<le> 2"
  using in_flight_bounded [OF sample_engine_new sample_bounds, of metrics_new "\<lambda>r. None"
      "run_init metrics_new (engine_job sample_engine sample_ds (\<lambda>r. None))"]
  by (simp add: reachable_def) (simp add: sample_exec_opts_def)

lemma run_ends_witness:
  "\<exists>s'. (step (engine_job sample_engine sample_ds (\<lambda>r. Some [r])))\<^sup>*\<^sup>*
        (run_init metrics_new (engine_job sample_engine sample_ds (\<lambda>r. Some [r]))) s' \<and> finished s'"
  using run_ends [OF sample_job_ok, of metrics_new "\<lambda>r. Some [r]"
      "run_init metrics_new (engine_job sample_engine sample_ds (\<lambda>r. Some [r]))"]
  by (simp add: reachable_def)

end
