(* ===== verification/Rust_Path.thy ===== *)
theory Rust_Path
  imports Rust_Str "HOL-Library.Product_Lexorder"
begin

text \<open>
  \<open>std::path\<close> on Unix: the components of a path (repeated separators and inner \<open>.\<close> components
  vanish), its file name and extension. Paths compare component by component.
\<close>

type_synonym path = string

definition components :: "path \<Rightarrow> string list" where
  "components p = filter (\<lambda>c. c \<noteq> [] \<and> c \<noteq> ''.'') (split_on (CHR ''/'') p)"

definition file_name :: "path \<Rightarrow> string option" where
  "file_name p =
     (let cs = components p in if cs = [] \<or> last cs = ''..'' then None else Some (last cs))"

definition extension :: "path \<Rightarrow> string option" where
  "extension p = Option.bind (file_name p) (\<lambda>n.
     Option.bind (rsplit_once (CHR ''.'') n) (\<lambda>(before, after). if before = [] then None else Some after))"

lemma extension_examples:
  "extension ''dir.d/people.csv'' = Some ''csv''" "extension ''a/.hidden'' = None" "extension ''a.tar.gz/'' = Some ''gz''"
  "extension ''noext'' = None" "extension ''dot.'' = Some []" "extension ''..'' = None"
  by code_simp+

subsection \<open>Components and their order\<close>

datatype path_component = RootDir | CurDir | ParentDir | Normal string

fun component_key :: "path_component \<Rightarrow> nat \<times> string" where
  "component_key RootDir = (0, [])"
| "component_key CurDir = (1, [])"
| "component_key ParentDir = (2, [])"
| "component_key (Normal s) = (3, s)"

lemma component_key_inj: "component_key a = component_key b \<Longrightarrow> a = b"
  by (cases a; cases b) auto

instantiation path_component :: linorder
begin

definition less_eq_path_component :: "path_component \<Rightarrow> path_component \<Rightarrow> bool" where
  "a \<le> b \<longleftrightarrow> component_key a \<le> component_key b"

definition less_path_component :: "path_component \<Rightarrow> path_component \<Rightarrow> bool" where
  "a < b \<longleftrightarrow> component_key a < component_key b"

instance
  by standard (auto simp: less_eq_path_component_def less_path_component_def intro: component_key_inj)

end

definition path_components :: "path \<Rightarrow> path_component list" where
  "path_components p =
     (if p = [] then []
      else let first = hd (split_on (CHR ''/'') p) in
        if first = [] then [RootDir] else if first = ''.'' then [CurDir] else []) @
     map (\<lambda>c. if c = ''..'' then ParentDir else Normal c) (components p)"

definition path_cmp :: "path \<Rightarrow> path \<Rightarrow> ordering" where
  "path_cmp = cmp_key path_components"

interpretation path: preorder_cmp path_cmp
  unfolding path_cmp_def by (rule cmp_key_preorder)

text \<open>Paths are equal when their components are.\<close>

definition path_eq :: "path \<Rightarrow> path \<Rightarrow> bool" where
  "path_eq p q \<longleftrightarrow> path_components p = path_components q"

definition strip_prefix :: "path \<Rightarrow> path \<Rightarrow> path_component list option" where
  "strip_prefix p root =
     (let n = length (path_components root) in
      if take n (path_components p) = path_components root then Some (drop n (path_components p)) else None)"

text \<open>\<open>Vec::dedup\<close>: of equal neighbours the first stays.\<close>

fun dedup_from :: "path \<Rightarrow> path list \<Rightarrow> path list" where
  "dedup_from p [] = [p]"
| "dedup_from p (q # qs) = (if path_eq p q then dedup_from p qs else p # dedup_from q qs)"

definition dedup :: "path list \<Rightarrow> path list" where
  "dedup ps = (case ps of [] \<Rightarrow> [] | p # qs \<Rightarrow> dedup_from p qs)"

lemma path_components_examples:
  "path_components ''/a//b/./c'' = [RootDir, Normal ''a'', Normal ''b'', Normal ''c'']"
  "path_components ''./a/..'' = [CurDir, Normal ''a'', ParentDir]"
  "path_components [] = []" "path_components ''/'' = [RootDir]"
  by code_simp+

text \<open>Sorting and removing neighbours leaves strictly increasing paths and loses none.\<close>

lemma dedup_from_sorted:
  assumes "sorted_wrt (\<lambda>a b. path_cmp a b \<noteq> Greater) (p # ps)"
  shows "sorted_wrt (\<lambda>a b. path_cmp a b = Less) (dedup_from p ps) \<and>
    path_components ` set (dedup_from p ps) = path_components ` set (p # ps) \<and> set (dedup_from p ps) \<subseteq> set (p # ps)"
  using assms
proof (induction ps arbitrary: p)
  case (Cons q qs)
  show ?case
  proof (cases "path_eq p q")
    case True
    with Cons.prems have "sorted_wrt (\<lambda>a b. path_cmp a b \<noteq> Greater) (p # qs)" by simp
    from Cons.IH [OF this] True show ?thesis by (auto simp: path_eq_def)
  next
    case False
    from Cons.prems have "sorted_wrt (\<lambda>a b. path_cmp a b \<noteq> Greater) (q # qs)" by simp
    note IH = Cons.IH [OF this]
    have pq: "path_cmp p q = Less"
      using Cons.prems False by (auto simp: path_cmp_def cmp_key_def path_eq_def cmp_def split: if_splits)
    have "path_cmp p r = Less" if "r \<in> set (dedup_from q qs)" for r
    proof -
      from IH that have "r = q \<or> r \<in> set qs" by auto
      with Cons.prems have "path_cmp q r \<noteq> Greater" by auto
      with pq show ?thesis by (rule path.less_trans)
    qed
    with IH False show ?thesis by auto
  qed
qed simp

lemma sort_dedup:
  "sorted_wrt (\<lambda>a b. path_cmp a b = Less) (dedup (sort_by path_cmp ps)) \<and>
    path_components ` set (dedup (sort_by path_cmp ps)) = path_components ` set ps \<and>
    set (dedup (sort_by path_cmp ps)) \<subseteq> set ps"
proof (cases "sort_by path_cmp ps")
  case Nil
  then show ?thesis using set_sort_by [of path_cmp ps] by (simp add: dedup_def)
next
  case (Cons q qs)
  with path.sorted_sort_by [of ps] have "sorted_wrt (\<lambda>a b. path_cmp a b \<noteq> Greater) (q # qs)" by simp
  moreover have "set ps = set (q # qs)" using set_sort_by [of path_cmp ps] Cons by simp
  ultimately show ?thesis using dedup_from_sorted [of q qs] by (simp add: dedup_def Cons)
qed

lemma sorted_components:
  "map path_components (sort_by path_cmp ps) = sort_by cmp (map path_components ps)"
  by (simp add: sort_by_map path_cmp_def cmp_key_def [abs_def])

end
