(* ===== verification/Partition.thy ===== *)
theory Partition
  imports Types Rust_Path
begin

text \<open>
  Discovery of input files (\<open>src/ingestion/partition.rs\<close>): hive-style partition directories, glob
  expansion, directory scans and explicit lists. The file system answers whether a path is a
  directory or a file and lists what a walk of a directory yields, in an order of its own; glob
  patterns are compiled and matched by a library.
\<close>

record partition_segment =
  sg_key :: string
  sg_value :: string

record partitioned_file =
  pf_path :: path
  pf_segments :: "partition_segment list"

record file_system =
  fs_is_dir :: "path \<Rightarrow> bool"
  fs_is_file :: "path \<Rightarrow> bool"
  fs_walk :: "path \<Rightarrow> path list"
  fs_pattern :: "string \<Rightarrow> string + (path_component list \<Rightarrow> bool)"
  fs_glob :: "string \<Rightarrow> string + (string + path) list"

subsection \<open>Hive-style segments\<close>

definition parse_partition_segment :: "string \<Rightarrow> partition_segment option" where
  "parse_partition_segment c =
     Option.bind (split_once (CHR ''='') c) (\<lambda>(k, v).
       if k = [] \<or> v = [] then None else Some \<lparr>sg_key = k, sg_value = v\<rparr>)"

fun hive_segments_for_relative_parent :: "path_component list \<Rightarrow> partition_segment list option" where
  "hive_segments_for_relative_parent [] = Some []"
| "hive_segments_for_relative_parent (Normal part # cs) =
     Option.bind (parse_partition_segment part) (\<lambda>sg.
       map_option (Cons sg) (hive_segments_for_relative_parent cs))"
| "hive_segments_for_relative_parent (_ # cs) = hive_segments_for_relative_parent cs"

subsection \<open>Discovery\<close>

definition compile_pattern ::
  "file_system \<Rightarrow> string option \<Rightarrow> (path_component list \<Rightarrow> bool) option result" where
  "compile_pattern F pat =
     (case pat of
        None \<Rightarrow> Ok None
      | Some p \<Rightarrow> (case fs_pattern F p of
          Inl e \<Rightarrow> Err (SchemaMismatch (''invalid glob pattern '' @ sq p @ '': '' @ e))
        | Inr m \<Rightarrow> Ok (Some m)))"

text \<open>The relative path of a walked entry that is a file and matches.\<close>

definition selected :: "file_system \<Rightarrow> path \<Rightarrow> (path_component list \<Rightarrow> bool) option \<Rightarrow> path \<Rightarrow> path_component list option" where
  "selected F root pattern p =
     (if \<not> fs_is_file F p then None
      else Option.bind (strip_prefix p root) (\<lambda>rel.
        case pattern of
          Some m \<Rightarrow> if m rel then Some rel else None
        | None \<Rightarrow> Some rel))"

definition hive_entry ::
  "file_system \<Rightarrow> path \<Rightarrow> (path_component list \<Rightarrow> bool) option \<Rightarrow> path \<Rightarrow> partitioned_file option" where
  "hive_entry F root pattern p =
     Option.bind (selected F root pattern p) (\<lambda>rel.
       map_option (\<lambda>sgs. \<lparr>pf_path = p, pf_segments = sgs\<rparr>)
         (hive_segments_for_relative_parent (butlast rel)))"

definition discover_hive_partitioned_files ::
  "file_system \<Rightarrow> path \<Rightarrow> string option \<Rightarrow> partitioned_file list result" where
  "discover_hive_partitioned_files F root file_pattern =
     (if \<not> fs_is_dir F root
      then Err (SchemaMismatch (''hive partition root must be an existing directory: '' @ root))
      else rmap (\<lambda>pattern. sort_by (\<lambda>a b. path_cmp (pf_path a) (pf_path b))
             (List.map_filter (hive_entry F root pattern) (fs_walk F root)))
           (compile_pattern F file_pattern))"

definition paths_from_directory_scan :: "file_system \<Rightarrow> path \<Rightarrow> string option \<Rightarrow> path list result" where
  "paths_from_directory_scan F root relative_pattern =
     (if \<not> fs_is_dir F root
      then Err (SchemaMismatch (''directory scan root must be an existing directory: '' @ root))
      else rmap (\<lambda>pattern. dedup (sort_by path_cmp
             (filter (\<lambda>p. selected F root pattern p \<noteq> None) (fs_walk F root))))
           (compile_pattern F relative_pattern))"

definition paths_from_glob :: "file_system \<Rightarrow> string \<Rightarrow> path list result" where
  "paths_from_glob F pattern =
     (case fs_glob F pattern of
        Inl e \<Rightarrow> Err (SchemaMismatch (''invalid glob pattern '' @ sq pattern @ '': '' @ e))
      | Inr entries \<Rightarrow>
          rmap (\<lambda>ps. dedup (sort_by path_cmp (filter (fs_is_file F) ps)))
            (traverse (\<lambda>en. case en of
                Inl e \<Rightarrow> Err (SchemaMismatch (''glob expansion error for '' @ sq pattern @ '': '' @ e))
              | Inr p \<Rightarrow> Ok p) entries))"

text \<open>The set of paths seen so far, as the list of their components.\<close>

fun explicit_loop :: "file_system \<Rightarrow> path_component list list \<Rightarrow> path list \<Rightarrow> path list result" where
  "explicit_loop F seen [] = Ok []"
| "explicit_loop F seen (p # ps) =
     (if \<not> fs_is_file F p then Err (SchemaMismatch (''explicit path is not an existing file: '' @ p))
      else if path_components p \<in> set seen then explicit_loop F seen ps
      else rmap (Cons p) (explicit_loop F (path_components p # seen) ps))"

definition paths_from_explicit_list :: "file_system \<Rightarrow> path list \<Rightarrow> path list result" where
  "paths_from_explicit_list F paths = explicit_loop F [] paths"

subsection \<open>Segments\<close>

lemma parse_partition_segment_Some_iff:
  "parse_partition_segment c = Some sg \<longleftrightarrow>
     c = sg_key sg @ CHR ''='' # sg_value sg \<and> sg_key sg \<noteq> [] \<and> sg_value sg \<noteq> [] \<and> CHR ''='' \<notin> set (sg_key sg)"
proof -
  have "parse_partition_segment c = Some sg \<longleftrightarrow>
      split_once (CHR ''='') c = Some (sg_key sg, sg_value sg) \<and> sg_key sg \<noteq> [] \<and> sg_value sg \<noteq> []"
    by (cases sg) (auto simp: parse_partition_segment_def Option.bind_eq_Some_conv split: if_splits)
  then show ?thesis by (auto simp: split_once_Some_iff)
qed

definition valid_segment :: "partition_segment \<Rightarrow> bool" where
  "valid_segment sg \<longleftrightarrow> sg_key sg \<noteq> [] \<and> sg_value sg \<noteq> [] \<and> CHR ''='' \<notin> set (sg_key sg)"

definition show_segment :: "partition_segment \<Rightarrow> path_component" where
  "show_segment sg = Normal (sg_key sg @ CHR ''='' # sg_value sg)"

lemma hive_segments_Some_iff:
  "list_all (\<lambda>c. c \<noteq> RootDir \<and> c \<noteq> CurDir \<and> c \<noteq> ParentDir) cs \<Longrightarrow>
   hive_segments_for_relative_parent cs = Some sgs \<longleftrightarrow> list_all valid_segment sgs \<and> cs = map show_segment sgs"
proof (induction cs arbitrary: sgs rule: hive_segments_for_relative_parent.induct)
  case (2 part cs)
  then show ?case
    by (cases sgs) (auto simp: Option.bind_eq_Some_conv parse_partition_segment_Some_iff valid_segment_def show_segment_def)
qed auto

subsection \<open>Sequences of paths\<close>

lemma dedup_components: "map path_components (dedup ps) = remdups_adj (map path_components ps)"
proof -
  have "map path_components (dedup_from p qs) = remdups_adj (path_components p # map path_components qs)" for p qs
    by (induction p qs rule: dedup_from.induct) (auto simp: path_eq_def)
  then show ?thesis by (cases ps) (simp_all add: dedup_def)
qed

text \<open>Every element at its first occurrence.\<close>

fun first_occurrences :: "'a list \<Rightarrow> 'a list" where
  "first_occurrences [] = []"
| "first_occurrences (x # xs) = x # filter (\<lambda>y. y \<noteq> x) (first_occurrences xs)"

lemma first_occurrences_facts [simp]:
  "set (first_occurrences xs) = set xs" "distinct (first_occurrences xs)"
  by (induction xs) auto

lemma explicit_loop_spec:
  "case explicit_loop F seen ps of
     Inl e \<Rightarrow> \<exists>p\<in>set ps. \<not> fs_is_file F p
   | Inr out \<Rightarrow> list_all (fs_is_file F) ps \<and> subseq out ps \<and>
       map path_components out = filter (\<lambda>c. c \<notin> set seen) (first_occurrences (map path_components ps))"
proof (induction F seen ps rule: explicit_loop.induct)
  case (2 F seen p ps)
  show ?case
  proof (cases "fs_is_file F p")
    case isf: True
    show ?thesis
    proof (cases "path_components p \<in> set seen")
      case True
      then have "filter (\<lambda>c. c \<notin> set seen) (filter (\<lambda>y. y \<noteq> path_components p) cs) = filter (\<lambda>c. c \<notin> set seen) cs" for cs
        by (auto intro: filter_cong)
      with "2.IH"(1) isf True show ?thesis by (auto split: sum.splits)
    next
      case False
      have "filter (\<lambda>c. c \<notin> set seen) (filter (\<lambda>y. y \<noteq> path_components p) cs) =
          filter (\<lambda>c. c \<notin> set (path_components p # seen)) cs" for cs
        by (auto intro: filter_cong)
      with "2.IH"(2) isf False show ?thesis
        by (cases "explicit_loop F (path_components p # seen) ps") auto
    qed
  qed simp
qed simp

subsection \<open>Properties\<close>

text \<open>What a walk of a directory yields: paths below it, the directory itself not being a file.\<close>

definition walks_below :: "file_system \<Rightarrow> path \<Rightarrow> bool" where
  "walks_below F root \<longleftrightarrow> (\<forall>p\<in>set (fs_walk F root). \<exists>rel. path_components p = path_components root @ rel \<and>
     list_all (\<lambda>c. c \<noteq> RootDir \<and> c \<noteq> CurDir \<and> c \<noteq> ParentDir) rel \<and> (fs_is_file F p \<longrightarrow> rel \<noteq> []))"

lemma hive_entry_Some_iff:
  assumes "walks_below F root" "p \<in> set (fs_walk F root)"
  shows "hive_entry F root pattern p = Some f \<longleftrightarrow> p = pf_path f \<and> fs_is_file F p \<and> list_all valid_segment (pf_segments f) \<and>
    (\<exists>name. path_components p = path_components root @ map show_segment (pf_segments f) @ [name] \<and>
       (case pattern of Some m \<Rightarrow> m (map show_segment (pf_segments f) @ [name]) | None \<Rightarrow> True))"
proof (cases "fs_is_file F p")
  case False
  then show ?thesis by (auto simp: hive_entry_def selected_def)
next
  case True
  from assms True obtain rel where rel: "path_components p = path_components root @ rel" "rel \<noteq> []"
    "list_all (\<lambda>c. c \<noteq> RootDir \<and> c \<noteq> CurDir \<and> c \<noteq> ParentDir) rel"
    unfolding walks_below_def by blast
  then have sp: "strip_prefix p root = Some rel" by (simp add: strip_prefix_def Let_def)
  have norm: "list_all (\<lambda>c. c \<noteq> RootDir \<and> c \<noteq> CurDir \<and> c \<noteq> ParentDir) (butlast rel)"
    using rel(3) by (auto simp: list_all_iff dest: in_set_butlastD)
  have "hive_entry F root pattern p = Some f \<longleftrightarrow> (case pattern of Some m \<Rightarrow> m rel | None \<Rightarrow> True) \<and> p = pf_path f \<and>
      hive_segments_for_relative_parent (butlast rel) = Some (pf_segments f)"
    by (cases f) (auto simp: hive_entry_def selected_def True sp split: option.splits)
  also have "\<dots> \<longleftrightarrow> (case pattern of Some m \<Rightarrow> m rel | None \<Rightarrow> True) \<and> p = pf_path f \<and>
      list_all valid_segment (pf_segments f) \<and> butlast rel = map show_segment (pf_segments f)"
    using hive_segments_Some_iff [OF norm] by auto
  also have "\<dots> \<longleftrightarrow> p = pf_path f \<and> list_all valid_segment (pf_segments f) \<and>
      (\<exists>name. rel = map show_segment (pf_segments f) @ [name] \<and>
        (case pattern of Some m \<Rightarrow> m (map show_segment (pf_segments f) @ [name]) | None \<Rightarrow> True))"
    using rel(2) by (cases rel rule: rev_cases) auto
  finally show ?thesis using True rel(1) by auto
qed

text \<open>Partition discovery returns, sorted by path, exactly the files below the root whose
  directories all have the form key=value with both sides non-empty and that match the pattern,
  each with its keys and values in order.\<close>

theorem hive_discovery:
  assumes "fs_is_dir F root" "compile_pattern F pat = Ok pattern" "walks_below F root"
  shows "\<exists>out. discover_hive_partitioned_files F root pat = Ok out \<and>
    sorted_wrt (\<lambda>a b. path_cmp (pf_path a) (pf_path b) \<noteq> Greater) out \<and>
    (\<forall>f. f \<in> set out \<longleftrightarrow> pf_path f \<in> set (fs_walk F root) \<and> fs_is_file F (pf_path f) \<and>
       list_all valid_segment (pf_segments f) \<and>
       (\<exists>name. path_components (pf_path f) = path_components root @ map show_segment (pf_segments f) @ [name] \<and>
          (case pattern of Some m \<Rightarrow> m (map show_segment (pf_segments f) @ [name]) | None \<Rightarrow> True)))"
proof -
  let ?found = "List.map_filter (hive_entry F root pattern) (fs_walk F root)"
  let ?c = "\<lambda>a b. path_cmp (pf_path a) (pf_path b)"
  have "preorder_cmp ?c"
    unfolding path_cmp_def cmp_key_def using cmp_key_preorder [of "path_components \<circ> pf_path"]
    by (simp add: cmp_key_def [abs_def])
  from preorder_cmp.sorted_sort_by [OF this] have "sorted_wrt (\<lambda>a b. ?c a b \<noteq> Greater) (sort_by ?c ?found)" .
  moreover have "f \<in> set ?found \<longleftrightarrow> (\<exists>p\<in>set (fs_walk F root). hive_entry F root pattern p = Some f)" for f
    by (auto simp: List.map_filter_def intro: rev_image_eqI)
  ultimately show ?thesis
    using assms(1,2) hive_entry_Some_iff [OF assms(3)]
    by (auto simp: discover_hive_partitioned_files_def)
qed

text \<open>A directory scan gives the same sequence of paths whatever order the walk yields them in, and
  that sequence is strictly increasing.\<close>

theorem scan_deterministic:
  assumes "mset (fs_walk F root) = mset ws"
  shows "rmap (map path_components) (paths_from_directory_scan F root pat) =
      rmap (map path_components) (paths_from_directory_scan (F\<lparr>fs_walk := \<lambda>_. ws\<rparr>) root pat) \<and>
    (case paths_from_directory_scan F root pat of Inl _ \<Rightarrow> True
     | Inr out \<Rightarrow> sorted_wrt (\<lambda>a b. path_cmp a b = Less) out)"
proof -
  let ?G = "F\<lparr>fs_walk := \<lambda>_. ws\<rparr>"
  have cp: "compile_pattern ?G pat = compile_pattern F pat" by (cases pat) (simp_all add: compile_pattern_def)
  have sel: "selected ?G root pattern = selected F root pattern" for pattern by (simp add: selected_def [abs_def])
  have "sort_by cmp (map path_components (filter q (fs_walk F root))) = sort_by cmp (map path_components (filter q ws))" for q
    by (rule lin.sort_by_perm) (simp add: assms mset_filter)
  then have "map path_components (dedup (sort_by path_cmp (filter q (fs_walk F root)))) =
      map path_components (dedup (sort_by path_cmp (filter q ws)))" for q
    by (simp add: dedup_components sorted_components)
  then show ?thesis
    using sort_dedup
    by (cases "compile_pattern F pat") (auto simp: paths_from_directory_scan_def cp sel)
qed

text \<open>An explicit list is refused when a path is not a file, and otherwise loses exactly the later
  occurrences of repeated paths.\<close>

theorem explicit_list_first_occurrences:
  "case paths_from_explicit_list F ps of
     Inl e \<Rightarrow> \<exists>p\<in>set ps. \<not> fs_is_file F p
   | Inr out \<Rightarrow> list_all (fs_is_file F) ps \<and> subseq out ps \<and>
       map path_components out = first_occurrences (map path_components ps)"
  using explicit_loop_spec [where F = F and seen = "[]" and ps = ps]
  by (auto simp: paths_from_explicit_list_def split: sum.splits)

subsection \<open>Witnesses\<close>

definition small_tree :: file_system where
  "small_tree = \<lparr>fs_is_dir = (\<lambda>p. p = ''t''), fs_is_file = (\<lambda>p. p \<in> set [''t/dt=2/b.csv'', ''t/tmp/c.csv'', ''t/dt=1/r=us/a.csv'']),
     fs_walk = (\<lambda>_. [''t'', ''t/dt=2'', ''t/dt=2/b.csv'', ''t/tmp/c.csv'', ''t/dt=1/r=us/a.csv'']),
     fs_pattern = (\<lambda>_. Inl ''no patterns''), fs_glob = (\<lambda>_. Inr [])\<rparr>"

lemma hive_discovery_witness:
  "\<exists>out. discover_hive_partitioned_files small_tree ''t'' None = Ok out \<and>
     \<lparr>pf_path = ''t/dt=1/r=us/a.csv'', pf_segments = [\<lparr>sg_key = ''dt'', sg_value = ''1''\<rparr>, \<lparr>sg_key = ''r'', sg_value = ''us''\<rparr>]\<rparr> \<in> set out"
proof -
  have "path_components ''t'' = [Normal ''t'']" "path_components ''t/dt=2'' = [Normal ''t'', Normal ''dt=2'']"
    "path_components ''t/dt=2/b.csv'' = [Normal ''t'', Normal ''dt=2'', Normal ''b.csv'']"
    "path_components ''t/tmp/c.csv'' = [Normal ''t'', Normal ''tmp'', Normal ''c.csv'']"
    and a: "path_components ''t/dt=1/r=us/a.csv'' = [Normal ''t'', Normal ''dt=1'', Normal ''r=us'', Normal ''a.csv'']"
    by code_simp+
  then have below: "walks_below small_tree ''t''" by (simp add: walks_below_def small_tree_def)
  have dir: "fs_is_dir small_tree ''t''" "compile_pattern small_tree None = Ok None"
    by (simp_all add: small_tree_def compile_pattern_def)
  from hive_discovery [OF dir below] obtain out where out: "discover_hive_partitioned_files small_tree ''t'' None = Ok out"
    "\<And>f. f \<in> set out \<longleftrightarrow> pf_path f \<in> set (fs_walk small_tree ''t'') \<and> fs_is_file small_tree (pf_path f) \<and>
       list_all valid_segment (pf_segments f) \<and>
       (\<exists>name. path_components (pf_path f) = path_components ''t'' @ map show_segment (pf_segments f) @ [name])"
    by auto
  then show ?thesis
    using a \<open>path_components ''t'' = [Normal ''t'']\<close>
    by (auto simp: small_tree_def valid_segment_def show_segment_def)
qed

lemma scan_deterministic_witness:
  "rmap (map path_components) (paths_from_directory_scan small_tree ''t'' None) =
     rmap (map path_components) (paths_from_directory_scan (small_tree\<lparr>fs_walk := \<lambda>_. rev (fs_walk small_tree ''t'')\<rparr>) ''t'' None)"
  using scan_deterministic [of small_tree "''t''" "rev (fs_walk small_tree ''t'')" None] by simp

end
