(* ===== verification/Polars_Bridge.thy ===== *)
theory Polars_Bridge
  imports Types
begin

text \<open>
  Conversion between datasets and Polars frames (\<open>src/ingestion/polars_bridge.rs\<close>), and the
  readers that hand a frame over (\<open>parquet.rs\<close>, \<open>ingest_csv_from_path\<close>). A frame is what these
  functions observe of it: named columns with a dtype and a list of cells (a single-precision cell by
  its widening). What Polars computes is a
  field of \<open>polars\<close>: building a frame, casting a column, reading a file.
\<close>

subsection \<open>Frames\<close>

datatype polars_dtype =
    PInt8 | PInt16 | PInt32 | PInt64 | PUInt8 | PUInt16 | PUInt32 | PUInt64
  | PFloat32 | PFloat64 | PBoolean | PString | POther string

datatype any_value =
    AvNull | AvInt64 i64 | AvFloat64 f64 | AvBoolean bool | AvString string | AvStringOwned string
  | AvInt8 "8 word" | AvInt16 "16 word" | AvInt32 "32 word"
  | AvUInt8 "8 word" | AvUInt16 "16 word" | AvUInt32 "32 word" | AvUInt64 "64 word"
  | AvFloat32 f64 | AvOther string

record series =
  s_name :: string
  s_dtype :: polars_dtype
  s_cells :: "any_value list"

record frame =
  f_height :: nat
  f_columns :: "series list"

datatype polars_error = PeIo string | PeColumnNotFound string | PeOther err_src

record polars =
  df_new :: "nat \<Rightarrow> series list \<Rightarrow> polars_error + frame"
  s_cast :: "series \<Rightarrow> polars_dtype \<Rightarrow> polars_error + series"
  pe_text :: "polars_error \<Rightarrow> string"
  av_text :: "any_value \<Rightarrow> string"
  dtype_text :: "polars_dtype \<Rightarrow> string"

definition polars_error_to_ingestion :: "string \<Rightarrow> polars_error \<Rightarrow> ingestion_error" where
  "polars_error_to_ingestion action e = (case e of PeIo m \<Rightarrow> IoErr m
     | PeColumnNotFound n \<Rightarrow> EngineErr action (SrcOther n None)
     | PeOther src \<Rightarrow> EngineErr action src)"

definition map_polars :: "string \<Rightarrow> polars_error + 'a \<Rightarrow> 'a result" where
  "map_polars action r =
     (case r of Inl e \<Rightarrow> Err (polars_error_to_ingestion action e) | Inr x \<Rightarrow> Ok x)"

lemma map_polars_simps [simp]:
  "map_polars action (Inr x) = Ok x"
  "map_polars action (Inl e) = Err (polars_error_to_ingestion action e)"
  by (simp_all add: map_polars_def)

text \<open>\<open>DataFrame::column\<close>: the column of a name.\<close>

definition column :: "frame \<Rightarrow> string \<Rightarrow> series option" where
  "column df n = find (\<lambda>s. s_name s = n) (f_columns df)"

subsection \<open>Schemas of frames\<close>

definition int_dtypes :: "polars_dtype set" where
  "int_dtypes = {PInt8, PInt16, PInt32, PInt64, PUInt8, PUInt16, PUInt32, PUInt64}"

definition infer_dtype :: "polars_dtype \<Rightarrow> data_type option" where
  "infer_dtype p =
     (if p \<in> int_dtypes then Some TInt64
      else case p of PFloat32 \<Rightarrow> Some TFloat64 | PFloat64 \<Rightarrow> Some TFloat64 | PBoolean \<Rightarrow> Some TBool
        | PString \<Rightarrow> Some TUtf8 | _ \<Rightarrow> None)"

definition infer_schema_from_dataframe :: "polars \<Rightarrow> frame \<Rightarrow> schema result" where
  "infer_schema_from_dataframe P df =
     rmap schema_new (traverse (\<lambda>s. case infer_dtype (s_dtype s) of
         Some t \<Rightarrow> Ok (mk_field (s_name s) t)
       | None \<Rightarrow> Err (SchemaMismatch
           (''unsupported polars dtype for output schema: '' @ dtype_text P (s_dtype s)))) (f_columns df))"

definition infer_schema_from_dataframe_lossy :: "frame \<Rightarrow> schema" where
  "infer_schema_from_dataframe_lossy df =
     schema_new (map (\<lambda>s. mk_field (s_name s)
       (case infer_dtype (s_dtype s) of Some t \<Rightarrow> t | None \<Rightarrow> TUtf8)) (f_columns df))"

subsection \<open>Dataset to frame\<close>

definition target_dtype :: "data_type \<Rightarrow> polars_dtype" where
  "target_dtype t = (case t of TInt64 \<Rightarrow> PInt64 | TFloat64 \<Rightarrow> PFloat64 | TBool \<Rightarrow> PBoolean | TUtf8 \<Rightarrow> PString)"

definition type_name :: "data_type \<Rightarrow> string" where
  "type_name t = (case t of TInt64 \<Rightarrow> ''Int64'' | TFloat64 \<Rightarrow> ''Float64'' | TBool \<Rightarrow> ''Bool'' | TUtf8 \<Rightarrow> ''Utf8'')"

text \<open>One cell of a column of the given type; a short row counts as null.\<close>

definition cell_to_any :: "data_type \<Rightarrow> value_t option \<Rightarrow> any_value option" where
  "cell_to_any t c =
     (case (t, c) of
        (_, None) \<Rightarrow> Some AvNull
      | (_, Some Null) \<Rightarrow> Some AvNull
      | (TInt64, Some (Int64 x)) \<Rightarrow> Some (AvInt64 x)
      | (TFloat64, Some (Float64 x)) \<Rightarrow> Some (AvFloat64 x)
      | (TBool, Some (Bool x)) \<Rightarrow> Some (AvBoolean x)
      | (TUtf8, Some (Utf8 x)) \<Rightarrow> Some (AvString x)
      | _ \<Rightarrow> None)"

definition column_cell :: "field \<Rightarrow> nat \<Rightarrow> nat \<times> row \<Rightarrow> any_value result" where
  "column_cell f col_idx = (\<lambda>(row_idx0, r).
     case cell_to_any (ftype f) (get r col_idx) of
       Some av \<Rightarrow> Ok av
     | None \<Rightarrow> Err (ParseError (row_idx0 + 1) (fname f)
         (case get r col_idx of Some v \<Rightarrow> RawDebug v | None \<Rightarrow> RawText [])
         (''value does not match schema type '' @ type_name (ftype f))))"

definition column_series :: "row list \<Rightarrow> nat \<times> field \<Rightarrow> series result" where
  "column_series rs = (\<lambda>(col_idx, f).
     rmap (\<lambda>cells. \<lparr>s_name = fname f, s_dtype = target_dtype (ftype f), s_cells = cells\<rparr>)
       (traverse (column_cell f col_idx) (enumerate 0 rs)))"

definition dataset_to_dataframe :: "polars \<Rightarrow> data_set \<Rightarrow> frame result" where
  "dataset_to_dataframe P ds =
     rbind (traverse (column_series (rows ds)) (enumerate 0 (sfields (ds_schema ds)))) (\<lambda>cols.
       map_polars ''failed to build polars DataFrame'' (df_new P (row_count ds) cols))"

subsection \<open>Frame to dataset\<close>

definition missing :: "string \<Rightarrow> string \<Rightarrow> ingestion_error" where
  "missing kind n = SchemaMismatch (''missing required '' @ kind @ '' '' @ sq n)"

fun any_to_value :: "data_type \<Rightarrow> any_value \<Rightarrow> value_t option" where
  "any_to_value _ AvNull = Some Null"
| "any_to_value TInt64 (AvInt64 v) = Some (Int64 v)"
| "any_to_value TFloat64 (AvFloat64 v) = Some (Float64 v)"
| "any_to_value TBool (AvBoolean v) = Some (Bool v)"
| "any_to_value TUtf8 (AvString v) = Some (Utf8 v)"
| "any_to_value TUtf8 (AvStringOwned v) = Some (Utf8 v)"
| "any_to_value _ _ = None"

text \<open>\<open>Series::get\<close> fails past the end.\<close>

definition frame_cell :: "polars \<Rightarrow> nat \<Rightarrow> nat \<Rightarrow> field \<times> series \<Rightarrow> value_t result" where
  "frame_cell P row_idx0 user_row = (\<lambda>(f, s).
     if row_idx0 < length (s_cells s) then
       (let av = s_cells s ! row_idx0 in
        case any_to_value (ftype f) av of
          Some v \<Rightarrow> Ok v
        | None \<Rightarrow> Err (ParseError user_row (fname f) (RawText (av_text P av))
            (''unexpected value for '' @ type_name (ftype f))))
     else Err (ParseError user_row (fname f) (RawText [])
            (pe_text P (PeOther (SrcOther ''index out of bounds'' None)))))"

definition cast_column :: "polars \<Rightarrow> frame \<Rightarrow> string \<Rightarrow> nat \<Rightarrow> field \<Rightarrow> series result" where
  "cast_column P df missing_kind user_row_start f =
     (case column df (fname f) of
        None \<Rightarrow> Err (missing missing_kind (fname f))
      | Some s \<Rightarrow> (case s_cast P s (target_dtype (ftype f)) of
          Inl e \<Rightarrow> Err (ParseError user_row_start (fname f) (RawText []) (pe_text P e))
        | Inr s' \<Rightarrow> Ok s'))"

definition dataframe_to_dataset :: "polars \<Rightarrow> frame \<Rightarrow> schema \<Rightarrow> string \<Rightarrow> nat \<Rightarrow> data_set result" where
  "dataframe_to_dataset P df s missing_kind user_row_start =
     (case find (\<lambda>f. column df (fname f) = None) (sfields s) of
        Some f \<Rightarrow> Err (missing missing_kind (fname f))
      | None \<Rightarrow>
          rbind (traverse (cast_column P df missing_kind user_row_start) (sfields s)) (\<lambda>cols.
          rmap (data_set_new s)
            (traverse (\<lambda>row_idx0. traverse (frame_cell P row_idx0 (row_idx0 + user_row_start))
                (zip (sfields s) cols)) [0..<f_height df])))"

subsection \<open>Readers\<close>

text \<open>What a file yields when Polars opens it and when it collects it.\<close>

type_synonym scan = "polars_error + (polars_error + frame)"

definition open_frame :: "string \<Rightarrow> scan \<Rightarrow> frame result" where
  "open_frame fmt sc =
     rbind (map_polars (''failed to read '' @ fmt @ '' with polars'') sc)
       (map_polars (''failed to collect '' @ fmt @ '' with polars''))"

definition ingest_csv_from_path :: "polars \<Rightarrow> scan \<Rightarrow> schema \<Rightarrow> data_set result" where
  "ingest_csv_from_path P sc s =
     rbind (open_frame ''csv'' sc) (\<lambda>df. dataframe_to_dataset P df s ''column'' 2)"

definition dtype_compatible_with_schema :: "data_type \<Rightarrow> polars_dtype \<Rightarrow> bool" where
  "dtype_compatible_with_schema t p =
     (case t of
        TUtf8 \<Rightarrow> p = PString
      | TBool \<Rightarrow> p = PBoolean
      | TInt64 \<Rightarrow> p \<in> int_dtypes
      | TFloat64 \<Rightarrow> p = PFloat32 \<or> p = PFloat64 \<or> p \<in> int_dtypes)"

definition validate_parquet_column_types :: "polars \<Rightarrow> frame \<Rightarrow> schema \<Rightarrow> unit result" where
  "validate_parquet_column_types P df s =
     rmap (\<lambda>_. ()) (traverse (\<lambda>f.
       case column df (fname f) of
         None \<Rightarrow> Err (missing ''column'' (fname f))
       | Some c \<Rightarrow>
           if \<not> dtype_compatible_with_schema (ftype f) (s_dtype c)
           then Err (ParseError 1 (fname f) (RawText (dtype_text P (s_dtype c))) ''parquet column type mismatch'')
           else Ok ()) (sfields s))"

definition ingest_parquet_from_path :: "polars \<Rightarrow> scan \<Rightarrow> schema \<Rightarrow> data_set result" where
  "ingest_parquet_from_path P sc s =
     rbind (open_frame ''parquet'' sc) (\<lambda>df.
     rbind (validate_parquet_column_types P df s) (\<lambda>_.
     dataframe_to_dataset P df s ''column'' 1))"

subsection \<open>What conversion yields\<close>

lemma any_to_value_type: "any_to_value t av = Some v \<Longrightarrow> has_type v t"
  by (cases "(t, av)" rule: any_to_value.cases) auto

lemma cell_to_any_back:
  "has_type v t \<Longrightarrow> Option.bind (cell_to_any t (Some v)) (any_to_value t) = Some v"
  by (cases v; cases t) (auto simp: cell_to_any_def)

lemma cell_to_any_typed: "has_type v t \<Longrightarrow> \<exists>av. cell_to_any t (Some v) = Some av"
  by (cases v; cases t) (auto simp: cell_to_any_def)

lemma frame_cell_type: "frame_cell P i u (f, s) = Ok v \<Longrightarrow> has_type v (ftype f)"
  by (auto simp: frame_cell_def Let_def dest: any_to_value_type split: if_splits option.splits)

lemma cast_columns_length: "traverse (cast_column P df k u) fs = Inr cols \<Longrightarrow> length cols = length fs"
  by (rule traverse_length)

lemma dataframe_to_dataset_wf:
  assumes "dataframe_to_dataset P df s k u = Ok ds"
  shows "ds_schema ds = s \<and> row_count ds = f_height df \<and> wf_ds ds"
proof -
  from assms obtain cols rs where
    cols: "traverse (cast_column P df k u) (sfields s) = Inr cols" and
    rs: "traverse (\<lambda>i. traverse (frame_cell P i (i + u)) (zip (sfields s) cols)) [0..<f_height df] = Inr rs" and
    ds: "ds = data_set_new s rs"
    by (auto simp: dataframe_to_dataset_def result_simps split: option.splits)
  have "wf_row s r" if "r \<in> set rs" for r
  proof -
    from traverse_set [OF rs that] obtain i where i: "traverse (frame_cell P i (i + u)) (zip (sfields s) cols) = Inr r"
      by auto
    have "length r = length (sfields s)"
      using traverse_length [OF i] traverse_length [OF cols] by simp
    moreover have "has_type (r ! j) (ftype (sfields s ! j))" if "j < length (sfields s)" for j
      using traverse_nth [OF i, of j] that traverse_length [OF cols] by (simp add: frame_cell_type)
    ultimately show ?thesis by (simp add: wf_row_def list_all2_conv_all_nth)
  qed
  then show ?thesis using traverse_length [OF rs] by (simp add: ds row_count_def)
qed

subsection \<open>Round trip\<close>

text \<open>
  What the round trip relies on: a frame of distinctly named columns of the right length is built
  as given, and casting a column to its own dtype returns it.
\<close>

definition builds_frames :: "polars \<Rightarrow> bool" where
  "builds_frames P \<longleftrightarrow> (\<forall>n cols. distinct (map s_name cols) \<longrightarrow> (\<forall>s\<in>set cols. length (s_cells s) = n) \<longrightarrow>
     df_new P n cols = Inr \<lparr>f_height = n, f_columns = cols\<rparr>)"

definition casts_to_self :: "polars \<Rightarrow> bool" where
  "casts_to_self P \<longleftrightarrow> (\<forall>s. s_cast P s (s_dtype s) = Inr s)"

definition typed_series :: "row list \<Rightarrow> nat \<Rightarrow> field \<Rightarrow> series" where
  "typed_series rs i f = \<lparr>s_name = fname f, s_dtype = target_dtype (ftype f),
     s_cells = map (\<lambda>r. the (cell_to_any (ftype f) (get r i))) rs\<rparr>"

lemma traverse_enumerate:
  "(\<And>i x. i < length xs \<Longrightarrow> xs ! i = x \<Longrightarrow> f (i, x) = Inr (g i x)) \<Longrightarrow>
   traverse f (enumerate 0 xs) = Inr (map (\<lambda>i. g i (xs ! i)) [0..<length xs])"
  by (subst traverse_ok [of _ _ "\<lambda>(i, x). g i x"])
     (auto simp: in_set_enumerate_eq intro!: nth_equalityI simp: nth_enumerate_eq)

lemma wf_get: "wf_row s r \<Longrightarrow> i < length (sfields s) \<Longrightarrow> get r i = Some (r ! i)"
  by (simp add: get_Some_iff wf_row_length)

lemma column_series_typed:
  assumes "\<forall>r\<in>set rs. wf_row s r" "i < length (sfields s)"
  shows "column_series rs (i, sfields s ! i) = Ok (typed_series rs i (sfields s ! i))"
proof -
  let ?f = "sfields s ! i"
  have cell: "column_cell ?f i (j, r) = Ok (the (cell_to_any (ftype ?f) (get r i)))" if "r \<in> set rs" for j r
  proof -
    have "has_type (r ! i) (ftype ?f)" "get r i = Some (r ! i)"
      using assms that wf_get [of s r i] by (simp_all add: wf_row_nth)
    then show ?thesis using cell_to_any_typed [of "r ! i" "ftype ?f"] by (auto simp: column_cell_def)
  qed
  have "traverse (column_cell ?f i) (enumerate 0 rs) =
      Inr (map (\<lambda>j. the (cell_to_any (ftype ?f) (get (rs ! j) i))) [0..<length rs])"
    by (rule traverse_enumerate) (auto intro: cell)
  moreover have "map (\<lambda>j. the (cell_to_any (ftype ?f) (get (rs ! j) i))) [0..<length rs] =
      map (\<lambda>r. the (cell_to_any (ftype ?f) (get r i))) rs"
    by (rule nth_equalityI) simp_all
  ultimately show ?thesis by (simp add: column_series_def typed_series_def)
qed

definition frame_of :: "data_set \<Rightarrow> frame" where
  "frame_of ds = (let fs = sfields (ds_schema ds) in
     \<lparr>f_height = row_count ds, f_columns = map (\<lambda>i. typed_series (rows ds) i (fs ! i)) [0..<length fs]\<rparr>)"

lemma dataset_to_dataframe_typed:
  assumes "builds_frames P" "wf_ds ds" "distinct (field_names (ds_schema ds))"
  shows "dataset_to_dataframe P ds = Ok (frame_of ds)"
proof -
  let ?fs = "sfields (ds_schema ds)"
  let ?cols = "map (\<lambda>i. typed_series (rows ds) i (?fs ! i)) [0..<length ?fs]"
  have "traverse (column_series (rows ds)) (enumerate 0 ?fs) = Inr ?cols"
    by (rule traverse_enumerate) (use assms(2) in \<open>auto simp: column_series_typed wf_ds_def list_all_iff\<close>)
  moreover have "map s_name ?cols = field_names (ds_schema ds)"
    by (rule nth_equalityI) (simp_all add: field_names_def typed_series_def)
  then have "df_new P (row_count ds) ?cols = Inr (frame_of ds)"
    using assms(1,3) by (simp add: builds_frames_def frame_of_def typed_series_def row_count_def Let_def)
  ultimately show ?thesis by (simp add: dataset_to_dataframe_def)
qed

lemma column_frame_of:
  assumes "distinct (field_names (ds_schema ds))" "i < length (sfields (ds_schema ds))"
  shows "column (frame_of ds) (fname (sfields (ds_schema ds) ! i)) =
    Some (typed_series (rows ds) i (sfields (ds_schema ds) ! i))"
  unfolding column_def find_Some_iff
  using assms by (intro exI [of _ i]) (auto simp: frame_of_def typed_series_def Let_def field_names_def distinct_conv_nth)

lemma dataframe_to_dataset_typed:
  assumes "casts_to_self P" "wf_ds ds" "distinct (field_names (ds_schema ds))"
  shows "dataframe_to_dataset P (frame_of ds) (ds_schema ds) k u = Ok ds"
proof -
  let ?fs = "sfields (ds_schema ds)"
  let ?cols = "map (\<lambda>i. typed_series (rows ds) i (?fs ! i)) [0..<length ?fs]"
  have "column (frame_of ds) (fname f) \<noteq> None" if "f \<in> set ?fs" for f
    using that column_frame_of [OF assms(3)] by (auto simp: in_set_conv_nth)
  then have nomiss: "find (\<lambda>f. column (frame_of ds) (fname f) = None) ?fs = None"
    by (simp add: find_None_iff)
  have cast: "cast_column P (frame_of ds) k u (?fs ! i) = Ok (typed_series (rows ds) i (?fs ! i))"
    if "i < length ?fs" for i
    using column_frame_of [OF assms(3) that] assms(1) [unfolded casts_to_self_def, THEN spec, of "typed_series (rows ds) i (?fs ! i)"]
    by (simp add: cast_column_def typed_series_def)
  have cols: "traverse (cast_column P (frame_of ds) k u) ?fs = Inr ?cols"
    unfolding traverse_Inr_iff list_all2_conv_all_nth using cast by simp
  have row: "traverse (frame_cell P j (j + u)) (zip ?fs ?cols) = Inr (rows ds ! j)" if j: "j < length (rows ds)" for j
  proof -
    have wf: "wf_row (ds_schema ds) (rows ds ! j)" using assms(2) j by (simp add: wf_ds_def list_all_length)
    have "frame_cell P j (j + u) (?fs ! i, typed_series (rows ds) i (?fs ! i)) = Ok (rows ds ! j ! i)"
      if i: "i < length ?fs" for i
    proof -
      obtain av where "cell_to_any (ftype (?fs ! i)) (Some (rows ds ! j ! i)) = Some av"
        using cell_to_any_typed wf_row_nth [OF wf i] by blast
      with cell_to_any_back [OF wf_row_nth [OF wf i]] show ?thesis
        using i j wf_get [OF wf i] by (simp add: frame_cell_def typed_series_def Let_def)
    qed
    then show ?thesis
      unfolding traverse_Inr_iff list_all2_conv_all_nth using wf_row_length [OF wf] by simp
  qed
  have "traverse (\<lambda>j. traverse (frame_cell P j (j + u)) (zip ?fs ?cols)) [0..<f_height (frame_of ds)] = Inr (rows ds)"
  proof (rule traverse_nthI)
    show "length (rows ds) = length [0..<f_height (frame_of ds)]" by (simp add: frame_of_def row_count_def Let_def)
    fix j assume "j < length [0..<f_height (frame_of ds)]"
    then have "j < length (rows ds)" by (simp add: frame_of_def row_count_def Let_def)
    then show "traverse (frame_cell P ([0..<f_height (frame_of ds)] ! j) ([0..<f_height (frame_of ds)] ! j + u))
        (zip ?fs ?cols) = Inr (rows ds ! j)"
      using row [of j] by (simp add: frame_of_def row_count_def Let_def)
  qed
  then show ?thesis
    by (simp add: dataframe_to_dataset_def nomiss cols)
qed

lemma infer_dtype_target [simp]: "infer_dtype (target_dtype t) = Some t"
  by (cases t) (simp_all add: infer_dtype_def target_dtype_def int_dtypes_def)

lemma schema_eqI: "sfields s = sfields t \<Longrightarrow> s = (t :: schema)"
  by (cases s; cases t) simp

lemma infer_schema_frame_of:
  "infer_schema_from_dataframe P (frame_of ds) = Ok (ds_schema ds)"
  "infer_schema_from_dataframe_lossy (frame_of ds) = ds_schema ds"
proof -
  let ?fs = "sfields (ds_schema ds)"
  have fields: "map (\<lambda>i. mk_field (fname (?fs ! i)) (ftype (?fs ! i))) [0..<length ?fs] = ?fs"
    by (rule nth_equalityI) (simp_all add: mk_field_def)
  have "traverse (\<lambda>s. case infer_dtype (s_dtype s) of Some t \<Rightarrow> Ok (mk_field (s_name s) t)
       | None \<Rightarrow> Err (SchemaMismatch (''unsupported polars dtype for output schema: '' @ dtype_text P (s_dtype s))))
      (f_columns (frame_of ds)) = (Inr ?fs :: field list result)"
    unfolding traverse_Inr_iff list_all2_conv_all_nth
    by (simp add: frame_of_def typed_series_def Let_def mk_field_def)
  then show "infer_schema_from_dataframe P (frame_of ds) = Ok (ds_schema ds)"
    unfolding infer_schema_from_dataframe_def by (simp add: schema_new_def)
  show "infer_schema_from_dataframe_lossy (frame_of ds) = ds_schema ds"
    by (rule schema_eqI)
       (simp add: infer_schema_from_dataframe_lossy_def frame_of_def typed_series_def Let_def schema_new_def
         comp_def fields)
qed

subsection \<open>Properties\<close>

text \<open>Whatever Polars returns, a dataset converted from a frame has the requested schema, one row
  per frame row, and only cells of their field's type.\<close>

theorem dataframe_to_dataset_typed_rows:
  assumes "dataframe_to_dataset P df s kind start = Ok ds"
  shows "ds_schema ds = s \<and> row_count ds = f_height df \<and> wf_ds ds"
  by (rule dataframe_to_dataset_wf [OF assms])

text \<open>A well-formed dataset with distinct column names survives the conversion to a frame and
  back, and its schema is inferred from the frame by both inferences.\<close>

theorem frame_roundtrip:
  assumes "builds_frames P" "casts_to_self P" "wf_ds ds" "distinct (field_names (ds_schema ds))"
  shows "\<exists>df. dataset_to_dataframe P ds = Ok df \<and>
    dataframe_to_dataset P df (ds_schema ds) kind start = Ok ds \<and>
    infer_schema_from_dataframe P df = Ok (ds_schema ds) \<and>
    infer_schema_from_dataframe_lossy df = ds_schema ds"
  using dataset_to_dataframe_typed [OF assms(1,3,4)] dataframe_to_dataset_typed [OF assms(2,3,4)]
    infer_schema_frame_of by blast

subsection \<open>Witnesses\<close>

text \<open>A Polars that builds every frame and casts a column to its own dtype only.\<close>

definition plain_polars :: polars where
  "plain_polars = \<lparr>df_new = (\<lambda>n cols. Inr \<lparr>f_height = n, f_columns = cols\<rparr>),
     s_cast = (\<lambda>s t. if s_dtype s = t then Inr s else Inl (PeOther (SrcOther ''cast'' None))),
     pe_text = (\<lambda>_. ''error''), av_text = (\<lambda>_. ''?''), dtype_text = (\<lambda>_. ''?'')\<rparr>"

definition two_rows :: data_set where
  "two_rows = data_set_new (schema_new [mk_field ''id'' TInt64, mk_field ''ok'' TBool])
     [[Int64 7, Bool True], [Null, Bool False]]"

lemma frame_roundtrip_witness:
  "\<exists>df. dataset_to_dataframe plain_polars two_rows = Ok df \<and>
     dataframe_to_dataset plain_polars df (ds_schema two_rows) ''column'' 1 = Ok two_rows"
proof -
  have "builds_frames plain_polars" "casts_to_self plain_polars"
    by (simp_all add: builds_frames_def casts_to_self_def plain_polars_def)
  moreover have "wf_ds two_rows" "distinct (field_names (ds_schema two_rows))" by code_simp+
  ultimately show ?thesis using frame_roundtrip [of plain_polars two_rows "''column''" 1] by blast
qed

lemma dataframe_to_dataset_typed_rows_witness:
  "\<exists>ds. dataframe_to_dataset plain_polars \<lparr>f_height = 1, f_columns =
        [\<lparr>s_name = ''a'', s_dtype = PString, s_cells = [AvString ''x'']\<rparr>]\<rparr>
      (schema_new [mk_field ''a'' TUtf8]) ''column'' 1 = Ok ds \<and> wf_ds ds"
proof -
  have "dataframe_to_dataset plain_polars \<lparr>f_height = 1, f_columns =
        [\<lparr>s_name = ''a'', s_dtype = PString, s_cells = [AvString ''x'']\<rparr>]\<rparr>
      (schema_new [mk_field ''a'' TUtf8]) ''column'' 1 =
      Ok (data_set_new (schema_new [mk_field ''a'' TUtf8]) [[Utf8 ''x'']])" by code_simp
  from dataframe_to_dataset_typed_rows [OF this] this show ?thesis by blast
qed

end
