(* ===== verification/Arrow.thy ===== *)
theory Arrow
  imports Polars_Bridge
begin

text \<open>
  Arrow interchange (\<open>src/transform.rs\<close>, module \<open>arrow\<close>): datasets to record batches and back. An
  array is the list of its cells, null or not; building a batch from columns (\<open>try_new\<close>) and
  joining batches (\<open>concat_batches\<close>) belong to the library and are parameters.
\<close>

subsection \<open>Batches\<close>

datatype arrow_dtype = ArInt64 | ArFloat64 | ArBoolean | ArUtf8 | ArLargeUtf8 | ArOther string

datatype arrow_array =
    ArrInt64 "i64 option list"
  | ArrFloat64 "f64 option list"
  | ArrBoolean "bool option list"
  | ArrString "string option list"
  | ArrLargeString "string option list"
  | ArrOther string nat

record arrow_field =
  af_name :: string
  af_dtype :: arrow_dtype
  af_nullable :: bool

record arrow_schema =
  as_fields :: "arrow_field list"
  as_metadata :: "(string \<times> string) list"

record batch =
  rb_schema :: arrow_schema
  rb_columns :: "arrow_array list"
  rb_rows :: nat

definition schema_from_record_batch :: "(arrow_dtype \<Rightarrow> string) \<Rightarrow> batch \<Rightarrow> schema result" where
  "schema_from_record_batch dbg b =
     rmap schema_new (traverse (\<lambda>f.
       case af_dtype f of
         ArInt64 \<Rightarrow> Ok (mk_field (af_name f) TInt64)
       | ArFloat64 \<Rightarrow> Ok (mk_field (af_name f) TFloat64)
       | ArBoolean \<Rightarrow> Ok (mk_field (af_name f) TBool)
       | ArUtf8 \<Rightarrow> Ok (mk_field (af_name f) TUtf8)
       | ArLargeUtf8 \<Rightarrow> Ok (mk_field (af_name f) TUtf8)
       | other \<Rightarrow> Err (SchemaMismatch (''unsupported Arrow dtype in schema: '' @ dbg other)))
       (as_fields (rb_schema b)))"

subsection \<open>From a dataset\<close>

text \<open>A cell of a column; the error names row 1 whatever the row.\<close>

definition arrow_cell :: "(value_t \<Rightarrow> 'a option) \<Rightarrow> string \<Rightarrow> field \<Rightarrow> nat \<Rightarrow> row \<Rightarrow> 'a option result" where
  "arrow_cell proj shown f col_idx r =
     (case get r col_idx of
        None \<Rightarrow> Ok None
      | Some v \<Rightarrow>
          if v = Null then Ok None
          else case proj v of
            Some x \<Rightarrow> Ok (Some x)
          | None \<Rightarrow> Err (ParseError 1 (fname f) (RawDebug v) (''value does not match schema type '' @ shown)))"

fun as_int64 :: "value_t \<Rightarrow> i64 option" where "as_int64 (Int64 x) = Some x" | "as_int64 _ = None"
fun as_float64 :: "value_t \<Rightarrow> f64 option" where "as_float64 (Float64 x) = Some x" | "as_float64 _ = None"
fun as_bool :: "value_t \<Rightarrow> bool option" where "as_bool (Bool x) = Some x" | "as_bool _ = None"
fun as_utf8 :: "value_t \<Rightarrow> string option" where "as_utf8 (Utf8 x) = Some x" | "as_utf8 _ = None"

definition arrow_column :: "row list \<Rightarrow> nat \<times> field \<Rightarrow> (arrow_field \<times> arrow_array) result" where
  "arrow_column rs = (\<lambda>(col_idx, f).
     case ftype f of
       TInt64 \<Rightarrow> rmap (\<lambda>v. (\<lparr>af_name = fname f, af_dtype = ArInt64, af_nullable = True\<rparr>, ArrInt64 v))
         (traverse (arrow_cell as_int64 ''Int64'' f col_idx) rs)
     | TFloat64 \<Rightarrow> rmap (\<lambda>v. (\<lparr>af_name = fname f, af_dtype = ArFloat64, af_nullable = True\<rparr>, ArrFloat64 v))
         (traverse (arrow_cell as_float64 ''Float64'' f col_idx) rs)
     | TBool \<Rightarrow> rmap (\<lambda>v. (\<lparr>af_name = fname f, af_dtype = ArBoolean, af_nullable = True\<rparr>, ArrBoolean v))
         (traverse (arrow_cell as_bool ''Bool'' f col_idx) rs)
     | TUtf8 \<Rightarrow> rmap (\<lambda>v. (\<lparr>af_name = fname f, af_dtype = ArUtf8, af_nullable = True\<rparr>, ArrString v))
         (traverse (arrow_cell as_utf8 ''Utf8'' f col_idx) rs))"

type_synonym try_new = "arrow_schema \<Rightarrow> arrow_array list \<Rightarrow> err_src + batch"

definition dataset_to_record_batch :: "try_new \<Rightarrow> data_set \<Rightarrow> batch result" where
  "dataset_to_record_batch build_batch ds =
     rbind (traverse (arrow_column (rows ds)) (enumerate 0 (sfields (ds_schema ds)))) (\<lambda>fcs.
       case build_batch \<lparr>as_fields = map fst fcs, as_metadata = []\<rparr> (map snd fcs) of
         Inl e \<Rightarrow> Err (EngineErr ''failed to build Arrow RecordBatch'' e)
       | Inr b \<Rightarrow> Ok b)"

subsection \<open>To a dataset\<close>

text \<open>\<open>is_null\<close> and \<open>value\<close> panic past the end of the array.\<close>

definition array_value :: "('a \<Rightarrow> value_t) \<Rightarrow> 'a option list \<Rightarrow> nat \<Rightarrow> value_t result" where
  "array_value con cells row_i =
     rmap (\<lambda>c. case c of None \<Rightarrow> Null | Some x \<Rightarrow> con x) (index cells row_i)"

definition not_a :: "field \<Rightarrow> string \<Rightarrow> value_t result" where
  "not_a f shown = Err (SchemaMismatch (''arrow column '' @ sq (fname f) @ '' is not '' @ shown))"

definition batch_cell :: "batch \<Rightarrow> nat \<Rightarrow> field \<times> nat \<Rightarrow> value_t result" where
  "batch_cell b row_i = (\<lambda>(f, idx).
     rbind (index (rb_columns b) idx) (\<lambda>arr.
     case ftype f of
       TInt64 \<Rightarrow> (case arr of ArrInt64 a \<Rightarrow> array_value Int64 a row_i | _ \<Rightarrow> not_a f ''Int64'')
     | TFloat64 \<Rightarrow> (case arr of ArrFloat64 a \<Rightarrow> array_value Float64 a row_i | _ \<Rightarrow> not_a f ''Float64'')
     | TBool \<Rightarrow> (case arr of ArrBoolean a \<Rightarrow> array_value Bool a row_i | _ \<Rightarrow> not_a f ''Boolean'')
     | TUtf8 \<Rightarrow> (case arr of
         ArrString a \<Rightarrow> array_value Utf8 a row_i
       | ArrLargeString a \<Rightarrow> array_value Utf8 a row_i
       | _ \<Rightarrow> not_a f ''Utf8/LargeUtf8'')))"

definition record_batch_to_dataset :: "batch \<Rightarrow> schema \<Rightarrow> data_set result" where
  "record_batch_to_dataset b s =
     rbind (traverse (\<lambda>f. ok_or (SchemaMismatch (''missing required column '' @ sq (fname f)))
         (position (\<lambda>af. af_name af = fname f) (as_fields (rb_schema b)))) (sfields s)) (\<lambda>col_idx.
     rmap (data_set_new s)
       (traverse (\<lambda>row_i. traverse (batch_cell b row_i) (zip (sfields s) col_idx)) [0..<rb_rows b]))"

definition record_batches_to_dataset ::
  "(arrow_schema \<Rightarrow> batch list \<Rightarrow> err_src + batch) \<Rightarrow> batch list \<Rightarrow> schema \<Rightarrow> data_set result" where
  "record_batches_to_dataset concat_batches batches s =
     (case batches of
        [] \<Rightarrow> Ok (data_set_new s [])
      | b0 # rest \<Rightarrow>
          if list_ex (\<lambda>b. rb_schema b \<noteq> rb_schema b0) rest
          then Err (SchemaMismatch ''record_batches_to_dataset: all batches must share the same Arrow schema'')
          else rbind (if length batches = 1 then Ok b0
               else case concat_batches (rb_schema b0) batches of
                 Inl e \<Rightarrow> Err (EngineErr ''arrow concat_batches failed'' e)
               | Inr m \<Rightarrow> Ok m)
             (\<lambda>merged. record_batch_to_dataset merged s))"

subsection \<open>What the library promises\<close>

fun array_length :: "arrow_array \<Rightarrow> nat" where
  "array_length (ArrInt64 a) = length a"
| "array_length (ArrFloat64 a) = length a"
| "array_length (ArrBoolean a) = length a"
| "array_length (ArrString a) = length a"
| "array_length (ArrLargeString a) = length a"
| "array_length (ArrOther _ n) = n"

fun array_dtype :: "arrow_array \<Rightarrow> arrow_dtype" where
  "array_dtype (ArrInt64 _) = ArInt64"
| "array_dtype (ArrFloat64 _) = ArFloat64"
| "array_dtype (ArrBoolean _) = ArBoolean"
| "array_dtype (ArrString _) = ArUtf8"
| "array_dtype (ArrLargeString _) = ArLargeUtf8"
| "array_dtype (ArrOther t _) = ArOther t"

text \<open>\<open>try_new\<close> accepts nullable columns of one length and of the declared types, at least one.\<close>

definition builds_batches :: "try_new \<Rightarrow> bool" where
  "builds_batches bld \<longleftrightarrow> (\<forall>sc cols n. cols \<noteq> [] \<longrightarrow> list_all (\<lambda>a. array_length a = n) cols \<longrightarrow>
     list_all2 (\<lambda>f a. af_dtype f = array_dtype a \<and> af_nullable f) (as_fields sc) cols \<longrightarrow>
     bld sc cols = Inr \<lparr>rb_schema = sc, rb_columns = cols, rb_rows = n\<rparr>)"

fun append_array :: "arrow_array \<Rightarrow> arrow_array \<Rightarrow> arrow_array" where
  "append_array (ArrInt64 a) (ArrInt64 b) = ArrInt64 (a @ b)"
| "append_array (ArrFloat64 a) (ArrFloat64 b) = ArrFloat64 (a @ b)"
| "append_array (ArrBoolean a) (ArrBoolean b) = ArrBoolean (a @ b)"
| "append_array (ArrString a) (ArrString b) = ArrString (a @ b)"
| "append_array (ArrLargeString a) (ArrLargeString b) = ArrLargeString (a @ b)"
| "append_array (ArrOther t n) b = ArrOther t (n + array_length b)"
| "append_array a _ = a"

definition batch_ok :: "batch \<Rightarrow> bool" where
  "batch_ok b \<longleftrightarrow> list_all2 (\<lambda>f a. af_dtype f = array_dtype a) (as_fields (rb_schema b)) (rb_columns b) \<and>
     list_all (\<lambda>a. array_length a = rb_rows b) (rb_columns b)"

definition append_batch :: "batch \<Rightarrow> batch \<Rightarrow> batch" where
  "append_batch a b = \<lparr>rb_schema = rb_schema a,
     rb_columns = map2 append_array (rb_columns a) (rb_columns b), rb_rows = rb_rows a + rb_rows b\<rparr>"

text \<open>\<open>concat_batches\<close> appends the columns of batches of one schema.\<close>

definition appends_batches :: "(arrow_schema \<Rightarrow> batch list \<Rightarrow> err_src + batch) \<Rightarrow> bool" where
  "appends_batches cb \<longleftrightarrow> (\<forall>b0 bs. list_all batch_ok (b0 # bs) \<longrightarrow> list_all (\<lambda>b. rb_schema b = rb_schema b0) bs \<longrightarrow>
     cb (rb_schema b0) (b0 # bs) = Inr (foldl append_batch b0 bs))"

subsection \<open>Columns of a typed dataset\<close>

definition typed_array :: "data_type \<Rightarrow> value_t list \<Rightarrow> arrow_array" where
  "typed_array t cells =
     (case t of TInt64 \<Rightarrow> ArrInt64 (map as_int64 cells) | TFloat64 \<Rightarrow> ArrFloat64 (map as_float64 cells)
      | TBool \<Rightarrow> ArrBoolean (map as_bool cells) | TUtf8 \<Rightarrow> ArrString (map as_utf8 cells))"

definition arrow_field_of :: "field \<Rightarrow> arrow_field" where
  "arrow_field_of f = \<lparr>af_name = fname f, af_dtype =
     (case ftype f of TInt64 \<Rightarrow> ArInt64 | TFloat64 \<Rightarrow> ArFloat64 | TBool \<Rightarrow> ArBoolean | TUtf8 \<Rightarrow> ArUtf8), af_nullable = True\<rparr>"

lemma arrow_cells_typed:
  assumes "\<forall>r\<in>set rs. wf_row s r" "i < length (sfields s)"
    and "\<And>v. has_type v (ftype (sfields s ! i)) \<Longrightarrow> v \<noteq> Null \<Longrightarrow> proj v \<noteq> None" "proj Null = None"
  shows "traverse (arrow_cell proj shown f i) rs = Ok (map (\<lambda>r. proj (r ! i)) rs)"
proof (rule traverse_ok)
  fix r assume "r \<in> set rs"
  then have "get r i = Some (r ! i)" "has_type (r ! i) (ftype (sfields s ! i))"
    using assms(1,2) wf_get wf_row_nth by auto
  then show "arrow_cell proj shown f i r = Ok (proj (r ! i))"
    using assms(3) [of "r ! i"] assms(4) by (auto simp: arrow_cell_def)
qed

lemma typed_projections:
  "has_type v TInt64 \<Longrightarrow> v \<noteq> Null \<Longrightarrow> as_int64 v \<noteq> None"
  "has_type v TFloat64 \<Longrightarrow> v \<noteq> Null \<Longrightarrow> as_float64 v \<noteq> None"
  "has_type v TBool \<Longrightarrow> v \<noteq> Null \<Longrightarrow> as_bool v \<noteq> None"
  "has_type v TUtf8 \<Longrightarrow> v \<noteq> Null \<Longrightarrow> as_utf8 v \<noteq> None"
  by (cases v; simp)+

lemma arrow_column_typed:
  assumes "\<forall>r\<in>set rs. wf_row s r" "i < length (sfields s)"
  shows "arrow_column rs (i, sfields s ! i) =
    Ok (arrow_field_of (sfields s ! i), typed_array (ftype (sfields s ! i)) (map (\<lambda>r. r ! i) rs))"
proof (cases "ftype (sfields s ! i)")
  case TInt64
  with arrow_cells_typed [OF assms, of as_int64] typed_projections(1) show ?thesis
    by (simp add: arrow_column_def typed_array_def arrow_field_of_def comp_def)
next
  case TFloat64
  with arrow_cells_typed [OF assms, of as_float64] typed_projections(2) show ?thesis
    by (simp add: arrow_column_def typed_array_def arrow_field_of_def comp_def)
next
  case TBool
  with arrow_cells_typed [OF assms, of as_bool] typed_projections(3) show ?thesis
    by (simp add: arrow_column_def typed_array_def arrow_field_of_def comp_def)
next
  case TUtf8
  with arrow_cells_typed [OF assms, of as_utf8] typed_projections(4) show ?thesis
    by (simp add: arrow_column_def typed_array_def arrow_field_of_def comp_def)
qed

definition batch_of :: "data_set \<Rightarrow> batch" where
  "batch_of ds = \<lparr>rb_schema = \<lparr>as_fields = map arrow_field_of (sfields (ds_schema ds)), as_metadata = []\<rparr>,
     rb_columns = map (\<lambda>i. typed_array (ftype (sfields (ds_schema ds) ! i)) (map (\<lambda>r. r ! i) (rows ds))) [0..<length (sfields (ds_schema ds))],
     rb_rows = length (rows ds)\<rparr>"

lemma array_length_typed [simp]: "array_length (typed_array t cells) = length cells"
  by (cases t) (simp_all add: typed_array_def)

lemma array_dtype_typed [simp]:
  "array_dtype (typed_array t cells) = (case t of TInt64 \<Rightarrow> ArInt64 | TFloat64 \<Rightarrow> ArFloat64 | TBool \<Rightarrow> ArBoolean | TUtf8 \<Rightarrow> ArUtf8)"
  by (cases t) (simp_all add: typed_array_def)

lemma batch_of_sel [simp]:
  "as_fields (rb_schema (batch_of ds)) = map arrow_field_of (sfields (ds_schema ds))"
  "rb_rows (batch_of ds) = length (rows ds)"
  by (simp_all add: batch_of_def)

lemma to_batch_typed:
  assumes "builds_batches bld" "wf_ds ds" "sfields (ds_schema ds) \<noteq> []"
  shows "dataset_to_record_batch bld ds = Ok (batch_of ds)"
proof -
  let ?fs = "sfields (ds_schema ds)" and ?cols = "rb_columns (batch_of ds)"
  have wf: "\<forall>r\<in>set (rows ds). wf_row (ds_schema ds) r" using assms(2) by (simp add: wf_ds_row)
  have "traverse (arrow_column (rows ds)) (enumerate 0 ?fs) = Ok (zip (map arrow_field_of ?fs) ?cols)"
    by (rule traverse_nthI) (simp_all add: batch_of_def nth_enumerate_eq arrow_column_typed [OF wf])
  moreover have "bld (rb_schema (batch_of ds)) ?cols = Inr \<lparr>rb_schema = rb_schema (batch_of ds), rb_columns = ?cols, rb_rows = length (rows ds)\<rparr>"
    using assms(3) by (intro assms(1) [unfolded builds_batches_def, rule_format])
      (auto simp: batch_of_def list_all_iff list_all2_conv_all_nth arrow_field_of_def)
  ultimately show ?thesis
    by (simp add: dataset_to_record_batch_def batch_of_def)
qed

lemma batch_cell_typed:
  assumes "wf_ds ds" "i < length (sfields (ds_schema ds))" "j < length (rows ds)"
  shows "batch_cell (batch_of ds) j (sfields (ds_schema ds) ! i, i) = Ok (rows ds ! j ! i)"
proof -
  have "has_type (rows ds ! j ! i) (ftype (sfields (ds_schema ds) ! i))"
    using wf_row_nth [OF wf_ds_row [OF assms(1), of "rows ds ! j"] assms(2)] assms(3) by simp
  then show ?thesis using assms(2,3)
    by (cases "rows ds ! j ! i"; cases "ftype (sfields (ds_schema ds) ! i)")
       (simp_all add: batch_cell_def batch_of_def typed_array_def array_value_def)
qed

lemma from_batch_typed:
  assumes "wf_ds ds" "distinct (field_names (ds_schema ds))"
  shows "record_batch_to_dataset (batch_of ds) (ds_schema ds) = Ok ds"
proof -
  let ?fs = "sfields (ds_schema ds)"
  have pos: "position (\<lambda>af. af_name af = fname (?fs ! i)) (map arrow_field_of ?fs) = Some i" if "i < length ?fs" for i
    using index_of_distinct [OF assms(2) that] by (simp add: index_of_Some_iff position_Some_iff arrow_field_of_def)
  have "traverse (\<lambda>f. ok_or (SchemaMismatch (''missing required column '' @ sq (fname f)))
      (position (\<lambda>af. af_name af = fname f) (as_fields (rb_schema (batch_of ds))))) ?fs = (Ok [0..<length ?fs] :: nat list result)"
    by (rule traverse_nthI) (simp_all add: pos)
  moreover have row: "traverse (batch_cell (batch_of ds) j) (zip ?fs [0..<length ?fs]) = Ok (rows ds ! j)" if "j < length (rows ds)" for j
    by (rule traverse_nthI)
      (use batch_cell_typed [OF assms(1) _ that] wf_row_length [OF wf_ds_row [OF assms(1), of "rows ds ! j"]] that in simp_all)
  have "traverse (\<lambda>j. traverse (batch_cell (batch_of ds) j) (zip ?fs [0..<length ?fs])) [0..<rb_rows (batch_of ds)] = Ok (rows ds)"
    by (rule traverse_nthI) (simp_all add: row)
  ultimately show ?thesis by (simp add: record_batch_to_dataset_def data_set_eqI)
qed

lemma schema_of_batch: "schema_from_record_batch dbg (batch_of ds) = Ok (ds_schema ds)"
proof -
  have "traverse (\<lambda>f. case af_dtype f of
         ArInt64 \<Rightarrow> Ok (mk_field (af_name f) TInt64)
       | ArFloat64 \<Rightarrow> Ok (mk_field (af_name f) TFloat64)
       | ArBoolean \<Rightarrow> Ok (mk_field (af_name f) TBool)
       | ArUtf8 \<Rightarrow> Ok (mk_field (af_name f) TUtf8)
       | ArLargeUtf8 \<Rightarrow> Ok (mk_field (af_name f) TUtf8)
       | ArOther x \<Rightarrow> Err (SchemaMismatch (''unsupported Arrow dtype in schema: '' @ dbg (ArOther x)))) (map arrow_field_of fs) = (Ok fs :: field list result)" for fs
    by (intro traverse_nthI) (auto simp: arrow_field_of_def mk_field_def split: data_type.split)
  then show ?thesis by (simp add: schema_from_record_batch_def batch_of_def schema_new_def schema_eqI)
qed

subsection \<open>Joined batches\<close>

lemma append_batch_sel [simp]:
  "rb_schema (append_batch a b) = rb_schema a" "rb_rows (append_batch a b) = rb_rows a + rb_rows b"
  "rb_columns (append_batch a b) = map2 append_array (rb_columns a) (rb_columns b)"
  by (simp_all add: append_batch_def)

lemma append_array_sel:
  "array_dtype a = array_dtype b \<Longrightarrow> array_dtype (append_array a b) = array_dtype a \<and>
     array_length (append_array a b) = array_length a + array_length b"
  by (cases a; cases b) auto

lemma append_batch_ok:
  assumes "batch_ok a" "batch_ok b" "rb_schema b = rb_schema a"
  shows "batch_ok (append_batch a b)"
  using assms append_array_sel by (auto simp: batch_ok_def list_all2_conv_all_nth list_all_length)

lemma array_value_append:
  "i < length a \<Longrightarrow> array_value con (a @ b) i = array_value con a i"
  "length a = n \<Longrightarrow> array_value con (a @ b) (n + i) = array_value con b i"
  by (auto simp: array_value_def index_def nth_append)

lemma append_batch_cell:
  assumes "batch_ok a" "batch_ok b" "rb_schema b = rb_schema a"
  shows "i < rb_rows a \<Longrightarrow> batch_cell (append_batch a b) i (f, k) = batch_cell a i (f, k)"
    and "batch_cell (append_batch a b) (rb_rows a + i) (f, k) = batch_cell b i (f, k)"
proof -
  have len: "length (rb_columns a) = length (rb_columns b)"
    using assms by (auto simp: batch_ok_def dest!: list_all2_lengthD)
  have col: "array_dtype (rb_columns a ! k) = array_dtype (rb_columns b ! k) \<and> array_length (rb_columns a ! k) = rb_rows a"
    if "k < length (rb_columns a)"
    using assms that len by (auto simp: batch_ok_def list_all2_conv_all_nth list_all_length)
  show "i < rb_rows a \<Longrightarrow> batch_cell (append_batch a b) i (f, k) = batch_cell a i (f, k)"
    using len col
    by (cases "k < length (rb_columns a)"; cases "rb_columns a ! k"; cases "rb_columns b ! k"; cases "ftype f")
       (auto simp: batch_cell_def index_def array_value_append)
  show "batch_cell (append_batch a b) (rb_rows a + i) (f, k) = batch_cell b i (f, k)"
    using len col
    by (cases "k < length (rb_columns a)"; cases "rb_columns a ! k"; cases "rb_columns b ! k"; cases "ftype f")
       (auto simp: batch_cell_def index_def array_value_append)
qed

lemma append_batch_dataset:
  assumes "batch_ok a" "batch_ok b" "rb_schema b = rb_schema a"
  shows "record_batch_to_dataset (append_batch a b) s =
    rbind (record_batch_to_dataset a s) (\<lambda>da. rmap (\<lambda>db. data_set_new s (rows da @ rows db)) (record_batch_to_dataset b s))"
proof -
  let ?idx = "traverse (\<lambda>f. ok_or (SchemaMismatch (''missing required column '' @ sq (fname f)))
         (position (\<lambda>af. af_name af = fname f) (as_fields (rb_schema a)))) (sfields s) :: nat list result"
  let ?rows = "\<lambda>b col_idx js. traverse (\<lambda>i. traverse (batch_cell b i) (zip (sfields s) col_idx)) js"
  have l: "?rows (append_batch a b) col_idx [0..<rb_rows a] = ?rows a col_idx [0..<rb_rows a]" for col_idx
    by (rule traverse_cong [OF refl], rule traverse_cong [OF refl]) (use append_batch_cell(1) [OF assms] in auto)
  have cell: "traverse (batch_cell (append_batch a b) (rb_rows a + i)) zs = traverse (batch_cell b i) zs" for i zs
    by (rule traverse_cong [OF refl]) (use append_batch_cell(2) [OF assms] in auto)
  have shifted: "?rows (append_batch a b) col_idx (map ((+) (rb_rows a)) js) = ?rows b col_idx js" for col_idx js
    by (induction js) (simp_all add: cell)
  have r: "?rows (append_batch a b) col_idx [rb_rows a..<rb_rows a + rb_rows b] = ?rows b col_idx [0..<rb_rows b]" for col_idx
  proof -
    have "[rb_rows a..<rb_rows a + rb_rows b] = map ((+) (rb_rows a)) [0..<rb_rows b]"
      by (rule nth_equalityI) simp_all
    then show ?thesis by (simp only: shifted)
  qed
  show ?thesis
  proof (cases ?idx)
    case (Inr col_idx)
    have "[0..<rb_rows a + rb_rows b] = [0..<rb_rows a] @ [rb_rows a..<rb_rows a + rb_rows b]" by (rule upt_add_eq_append) simp
    then have "?rows (append_batch a b) col_idx [0..<rb_rows a + rb_rows b] =
        rbind (?rows a col_idx [0..<rb_rows a]) (\<lambda>us. rmap (\<lambda>vs. us @ vs) (?rows b col_idx [0..<rb_rows b]))"
      by (simp only: traverse_append l r) (cases "?rows b col_idx [0..<rb_rows b]"; cases "?rows a col_idx [0..<rb_rows a]"; simp)
    then show ?thesis
      using Inr assms(3)
      by (cases "?rows a col_idx [0..<rb_rows a]"; cases "?rows b col_idx [0..<rb_rows b]")
         (simp_all add: record_batch_to_dataset_def)
  qed (simp add: record_batch_to_dataset_def assms(3))
qed

lemma fold_batches_dataset:
  assumes "list_all batch_ok (a # bs)" "list_all (\<lambda>b. rb_schema b = rb_schema a) bs"
  shows "batch_ok (foldl append_batch a bs) \<and> rb_schema (foldl append_batch a bs) = rb_schema a \<and>
    record_batch_to_dataset (foldl append_batch a bs) s =
      rmap (\<lambda>dss. data_set_new s (concat (map rows dss))) (traverse (\<lambda>b. record_batch_to_dataset b s) (a # bs))"
  using assms
proof (induction bs rule: rev_induct)
  case Nil
  have "record_batch_to_dataset a s = Ok ds \<Longrightarrow> data_set_new s (rows ds) = ds" for ds
    by (auto simp: record_batch_to_dataset_def result_simps)
  with Nil show ?case by (cases "record_batch_to_dataset a s") auto
next
  case (snoc b bs)
  let ?m = "foldl append_batch a bs"
  from snoc have m: "batch_ok ?m" "rb_schema ?m = rb_schema a" "batch_ok b" "rb_schema b = rb_schema a"
    and IH: "record_batch_to_dataset ?m s =
      rmap (\<lambda>dss. data_set_new s (concat (map rows dss))) (traverse (\<lambda>b. record_batch_to_dataset b s) (a # bs))"
    by auto
  have "record_batch_to_dataset (append_batch ?m b) s = rmap (\<lambda>dss. data_set_new s (concat (map rows dss)))
      (traverse (\<lambda>b. record_batch_to_dataset b s) ((a # bs) @ [b]))"
    using m unfolding append_batch_dataset [OF m(1,3) m(4) [folded m(2)]] IH traverse_snoc
    by (cases "traverse (\<lambda>b. record_batch_to_dataset b s) (a # bs)"; cases "record_batch_to_dataset b s")
       (simp_all del: traverse.simps(2))
  with m append_batch_ok [OF m(1,3)] show ?case by simp
qed

subsection \<open>Properties\<close>

text \<open>C13: A well-formed dataset with distinct column names, at least one, survives the conversion to an
  Arrow batch and back, and its schema is read off the batch.\<close>

theorem arrow_roundtrip:
  assumes "builds_batches bld" "wf_ds ds" "sfields (ds_schema ds) \<noteq> []" "distinct (field_names (ds_schema ds))"
  shows "\<exists>b. dataset_to_record_batch bld ds = Ok b \<and> record_batch_to_dataset b (ds_schema ds) = Ok ds \<and>
    schema_from_record_batch dbg b = Ok (ds_schema ds)"
  using to_batch_typed [OF assms(1-3)] from_batch_typed [OF assms(2,4)] schema_of_batch by blast

text \<open>Converting several batches at once is converting each and appending the rows, the first
  failure included.\<close>

theorem batches_are_concatenated:
  assumes "appends_batches cb" "list_all batch_ok bs" "\<forall>b\<in>set bs. rb_schema b = rb_schema (hd bs)"
  shows "record_batches_to_dataset cb bs s =
    rmap (\<lambda>dss. data_set_new s (concat (map rows dss))) (traverse (\<lambda>b. record_batch_to_dataset b s) bs)"
proof (cases bs)
  case (Cons b0 rest)
  have "rb_schema b = rb_schema b0" if "b \<in> set rest" for b
  proof -
    from that have "b \<in> set bs" by (simp add: Cons)
    from bspec [OF assms(3) this] show ?thesis unfolding Cons list.sel .
  qed
  moreover have "list_all batch_ok (b0 # rest)" using assms(2) unfolding Cons .
  ultimately have ok: "list_all batch_ok (b0 # rest)" "list_all (\<lambda>b. rb_schema b = rb_schema b0) rest"
    by (simp_all only: list_all_iff) blast
  note folded = fold_batches_dataset [OF ok, of s]
  have "cb (rb_schema b0) (b0 # rest) = Inr (foldl append_batch b0 rest)"
    by (rule assms(1) [unfolded appends_batches_def, rule_format, OF ok])
  moreover have "\<not> list_ex (\<lambda>b. rb_schema b \<noteq> rb_schema b0) rest" using ok(2) by (auto simp: list_all_iff list_ex_iff)
  ultimately have "record_batches_to_dataset cb bs s = record_batch_to_dataset (foldl append_batch b0 rest) s"
    by (cases rest) (simp_all add: record_batches_to_dataset_def Cons)
  then show ?thesis by (simp only: folded Cons)
qed (simp add: record_batches_to_dataset_def)

text \<open>A cell that does not match its column's type is reported as being in row 1, whatever its row:
  here the second.\<close>

theorem arrow_error_row:
  "dataset_to_record_batch bld (data_set_new (schema_new [mk_field ''n'' TInt64]) [[Int64 1], [Bool True]]) =
     Err (ParseError 1 ''n'' (RawDebug (Bool True)) ''value does not match schema type Int64'') \<and>
   dataset_to_dataframe P (data_set_new (schema_new [mk_field ''n'' TInt64]) [[Int64 1], [Bool True]]) =
     Err (ParseError 2 ''n'' (RawDebug (Bool True)) ''value does not match schema type Int64'')"
  by (simp add: dataset_to_record_batch_def arrow_column_def arrow_cell_def schema_new_def mk_field_def
      dataset_to_dataframe_def column_series_def column_cell_def cell_to_any_def type_name_def)

subsection \<open>Witnesses\<close>

text \<open>A library that keeps its promises.\<close>

definition plain_try_new :: try_new where
  "plain_try_new sc cols =
     (case cols of [] \<Rightarrow> Inl (SrcOther ''no columns'' None)
      | a # _ \<Rightarrow> Inr \<lparr>rb_schema = sc, rb_columns = cols, rb_rows = array_length a\<rparr>)"

definition plain_concat :: "arrow_schema \<Rightarrow> batch list \<Rightarrow> err_src + batch" where
  "plain_concat sc bs = (case bs of [] \<Rightarrow> Inl (SrcOther ''no batch'' None) | b # rest \<Rightarrow> Inr (foldl append_batch b rest))"

lemma arrow_roundtrip_witness:
  "\<exists>b. dataset_to_record_batch plain_try_new two_rows = Ok b \<and> record_batch_to_dataset b (ds_schema two_rows) = Ok two_rows"
proof -
  have "builds_batches plain_try_new" by (auto simp: builds_batches_def plain_try_new_def split: list.split)
  moreover have "wf_ds two_rows" "sfields (ds_schema two_rows) \<noteq> []" "distinct (field_names (ds_schema two_rows))" by code_simp+
  ultimately show ?thesis using arrow_roundtrip [of plain_try_new two_rows] by blast
qed

lemma batches_are_concatenated_witness:
  "record_batches_to_dataset plain_concat [batch_of two_rows, batch_of two_rows] (ds_schema two_rows) =
     Ok (data_set_new (ds_schema two_rows) (rows two_rows @ rows two_rows))"
proof -
  have law: "appends_batches plain_concat" by (auto simp: appends_batches_def plain_concat_def)
  have ok: "list_all batch_ok [batch_of two_rows, batch_of two_rows]" by code_simp
  have rt: "record_batch_to_dataset (batch_of two_rows) (ds_schema two_rows) = Ok two_rows" by code_simp
  show ?thesis using batches_are_concatenated [OF law ok, of "ds_schema two_rows"] rt by simp
qed

end
