(* ===== verification/Text_Formats.thy ===== *)
theory Text_Formats
  imports Types "HOL-Library.AList"
begin

text \<open>
  Text to cells: \<open>str::parse::<f64>\<close>, the reader-based CSV ingestion (\<open>src/ingestion/csv.rs\<close>) and
  the XML interchange (\<open>src/ingestion/xml.rs\<close>). The CSV tokenizer and the XML reader and writer are
  libraries: the program sees a header and a sequence of records, or a sequence of events, each of
  which may be an error. Displaying a float (\<open>show_f64\<close>) and \<open>Debug\<close> of strings (\<open>dbg\<close>) are
  parameters.
\<close>

subsection \<open>Floats from text\<close>

datatype float_err = FloatEmpty | FloatInvalid

fun float_err_text :: "float_err \<Rightarrow> string" where
  "float_err_text FloatEmpty = ''cannot parse float from empty string''"
| "float_err_text FloatInvalid = ''invalid float literal''"

text \<open>\<open>\<plusminus>m * 10 ^ e\<close>, correctly rounded: below the point, two more bits than any result needs and a sticky one.\<close>

definition of_decimal :: "bool \<Rightarrow> int \<Rightarrow> int \<Rightarrow> f64" where
  "of_decimal neg m e =
     (if 0 \<le> e then round_ne neg (m * 10 ^ nat e) 0
      else let d = 10 ^ nat (- e);
               k = nat (max 0 (bitlen d - bitlen m + 66));
               q = m * 2 ^ k div d; r = m * 2 ^ k mod d
           in round_ne neg (2 * q + (if r = 0 then 0 else 1)) (- int k - 1))"

definition digits_int :: "string \<Rightarrow> int" where
  "digits_int cs = foldl (\<lambda>a c. 10 * a + digit_val c) 0 cs"

text \<open>Digits, an optional point with digits, an optional exponent; at least one digit of the first two.\<close>

definition parse_decimal :: "bool \<Rightarrow> string \<Rightarrow> f64 option" where
  "parse_decimal neg s =
     (let ip = takeWhile is_digit s; s1 = dropWhile is_digit s;
          (fp, s2) = (case s1 of c # cs \<Rightarrow>
              if c = CHR ''.'' then (takeWhile is_digit cs, dropWhile is_digit cs) else ([], s1)
            | [] \<Rightarrow> ([], []));
          m = digits_int (ip @ fp); scale = - int (length fp)
      in if ip = [] \<and> fp = [] then None
         else case s2 of
           [] \<Rightarrow> Some (of_decimal neg m scale)
         | c # cs \<Rightarrow>
             if c \<noteq> CHR ''e'' \<and> c \<noteq> CHR ''E'' then None
             else (let (sg, ds) = (case cs of
                      c' # cs' \<Rightarrow> if c' = CHR ''-'' then (- 1, cs') else if c' = CHR ''+'' then (1, cs') else (1, cs)
                    | [] \<Rightarrow> (1, []))
                   in if ds = [] \<or> \<not> list_all is_digit ds then None
                      else Some (of_decimal neg m (scale + sg * digits_int ds))))"

definition parse_f64 :: "string \<Rightarrow> float_err + f64" where
  "parse_f64 s =
     (case s of
        [] \<Rightarrow> Inl FloatEmpty
      | c # cs \<Rightarrow>
          (let neg = (c = CHR ''-''); body = (if c = CHR ''-'' \<or> c = CHR ''+'' then cs else s);
               low = to_ascii_lowercase body
           in if low = ''inf'' \<or> low = ''infinity'' then Inr (finf neg)
              else if low = ''nan'' then Inr (if neg then fneg nan else nan)
              else case parse_decimal neg body of Some x \<Rightarrow> Inr x | None \<Rightarrow> Inl FloatInvalid))"

subsection \<open>CSV\<close>

definition parse_bool :: "string \<Rightarrow> string + bool" where
  "parse_bool s =
     (let l = to_ascii_lowercase s in
      if l \<in> set [''true'', ''t'', ''1'', ''yes'', ''y''] then Inr True
      else if l \<in> set [''false'', ''f'', ''0'', ''no'', ''n''] then Inr False
      else Inl ''expected bool (true/false/1/0/yes/no)'')"

definition parse_typed_value :: "nat \<Rightarrow> string \<Rightarrow> data_type \<Rightarrow> string \<Rightarrow> value_t result" where
  "parse_typed_value row column dt raw =
     (let trimmed = trim raw;
          fail = (\<lambda>m. Err (ParseError row column (RawText raw) m)) in
      if trimmed = [] then Ok Null
      else case dt of
        TUtf8 \<Rightarrow> Ok (Utf8 trimmed)
      | TInt64 \<Rightarrow> (case parse_i64 trimmed of Inr i \<Rightarrow> Ok (Int64 i) | Inl e \<Rightarrow> fail (int_err_text e))
      | TFloat64 \<Rightarrow> (case parse_f64 trimmed of Inr f \<Rightarrow> Ok (Float64 f) | Inl e \<Rightarrow> fail (float_err_text e))
      | TBool \<Rightarrow> (case parse_bool trimmed of Inr b \<Rightarrow> Ok (Bool b) | Inl m \<Rightarrow> fail m))"

type_synonym csv_error = "csv_kind \<times> string"

definition csv_try :: "csv_error + 'a \<Rightarrow> 'a result" where
  "csv_try r = (case r of Inl (k, m) \<Rightarrow> Err (CsvErr k m) | Inr x \<Rightarrow> Ok x)"

text \<open>The index of every schema field among the headers; \<open>dbg\<close> prints the header list.\<close>

definition header_index :: "(string list \<Rightarrow> string) \<Rightarrow> string list \<Rightarrow> field \<Rightarrow> nat result" where
  "header_index dbg headers f =
     ok_or (SchemaMismatch (''missing required column '' @ sq (fname f) @ ''. headers='' @ dbg headers))
       (position (\<lambda>h. h = fname f) headers)"

definition csv_row :: "schema \<Rightarrow> nat list \<Rightarrow> nat \<times> (csv_error + string list) \<Rightarrow> row result" where
  "csv_row s col_idxs = (\<lambda>(row_idx0, rec).
     rbind (csv_try rec) (\<lambda>flds.
       traverse (\<lambda>(f, csv_idx).
           parse_typed_value (row_idx0 + 2) (fname f) (ftype f)
             (case get flds csv_idx of Some raw \<Rightarrow> raw | None \<Rightarrow> []))
         (zip (sfields s) col_idxs)))"

definition ingest_csv_from_reader ::
  "(string list \<Rightarrow> string) \<Rightarrow> csv_error + string list \<Rightarrow> (csv_error + string list) list \<Rightarrow> schema \<Rightarrow> data_set result" where
  "ingest_csv_from_reader dbg headers records s =
     rbind (csv_try headers) (\<lambda>hs.
     rbind (traverse (header_index dbg hs) (sfields s)) (\<lambda>col_idxs.
     rmap (data_set_new s) (traverse (csv_row s col_idxs) (enumerate 0 records))))"

subsection \<open>XML\<close>

definition xml_err :: "string \<Rightarrow> ingestion_error" where
  "xml_err m = SchemaMismatch m"

definition value_to_text :: "(f64 \<Rightarrow> string) \<Rightarrow> value_t \<Rightarrow> string" where
  "value_to_text show_f64 v =
     (case v of Null \<Rightarrow> [] | Int64 i \<Rightarrow> show_i64 i | Float64 f \<Rightarrow> show_f64 f | Bool b \<Rightarrow> show_bool b | Utf8 s \<Rightarrow> s)"

definition parse_text_to_value :: "(string \<Rightarrow> string) \<Rightarrow> string \<Rightarrow> data_type \<Rightarrow> value_t result" where
  "parse_text_to_value dbg raw dt =
     (let trimmed = trim raw in
      if trimmed = [] then Ok Null
      else case dt of
        TInt64 \<Rightarrow> (case parse_i64 trimmed of Inr i \<Rightarrow> Ok (Int64 i)
          | Inl _ \<Rightarrow> Err (xml_err (''invalid Int64 in XML: '' @ dbg trimmed)))
      | TFloat64 \<Rightarrow> (case parse_f64 trimmed of Inr f \<Rightarrow> Ok (Float64 f)
          | Inl _ \<Rightarrow> Err (xml_err (''invalid Float64 in XML: '' @ dbg trimmed)))
      | TBool \<Rightarrow> (let l = to_ascii_lowercase trimmed in
          if l \<in> set [''true'', ''1'', ''yes''] then Ok (Bool True)
          else if l \<in> set [''false'', ''0'', ''no''] then Ok (Bool False)
          else Err (xml_err (''invalid Bool in XML: '' @ dbg trimmed)))
      | TUtf8 \<Rightarrow> Ok (Utf8 trimmed))"

text \<open>
  Events of the XML library. A reader yields the content of a text event, or the message of the
  error that decoding or unescaping it raises; entity references in text are events of their own
  (\<open>GeneralRef\<close>, since version 0.38), as are comments, declarations and the like.
\<close>

datatype xml_event =
    XDecl | XStart string | XEnd string | XText "string + string" | XGeneralRef string | XOther | XEof

type_synonym field_map = "(string \<times> string) list"

definition map_lookup :: "field_map \<Rightarrow> string \<Rightarrow> string option" where
  "map_lookup m k = map_of m k"

definition push_text :: "string \<Rightarrow> string \<Rightarrow> field_map \<Rightarrow> field_map" where
  "push_text k text m =
     (case map_of m k of
        Some v \<Rightarrow> AList.update k (v @ '' '' @ text) m
      | None \<Rightarrow> AList.update k text m)"

definition row_from_field_map :: "(string \<Rightarrow> string) \<Rightarrow> schema \<Rightarrow> field_map \<Rightarrow> row result" where
  "row_from_field_map dbg s flds =
     traverse (\<lambda>f. parse_text_to_value dbg
         (case map_lookup flds (fname f) of Some raw \<Rightarrow> raw | None \<Rightarrow> []) (ftype f)) (sfields s)"

record xml_state =
  xs_rows :: "row list"
  xs_in_record :: bool
  xs_field_values :: field_map
  xs_active_field :: "string option"

definition ROOT :: string where "ROOT = ''rdp_records''"
definition RECORD :: string where "RECORD = ''record''"

definition xml_step :: "(string \<Rightarrow> string) \<Rightarrow> schema \<Rightarrow> xml_event \<Rightarrow> xml_state \<Rightarrow> xml_state result" where
  "xml_step dbg s ev st =
     (case ev of
        XStart name \<Rightarrow>
          if name = RECORD then Ok (st\<lparr>xs_in_record := True, xs_field_values := []\<rparr>)
          else if xs_in_record st \<and> name \<noteq> ROOT then Ok (st\<lparr>xs_active_field := Some name\<rparr>)
          else Ok st
      | XText t \<Rightarrow>
          (case xs_active_field st of
             None \<Rightarrow> Ok st
           | Some f \<Rightarrow> (case t of
               Inl e \<Rightarrow> Err (xml_err (''xml text: '' @ e))
             | Inr text \<Rightarrow> Ok (st\<lparr>xs_field_values := push_text f text (xs_field_values st)\<rparr>)))
      | XEnd name \<Rightarrow>
          if name = RECORD \<and> xs_in_record st then
            rmap (\<lambda>r. st\<lparr>xs_rows := xs_rows st @ [r], xs_in_record := False, xs_active_field := None\<rparr>)
              (row_from_field_map dbg s (xs_field_values st))
          else if xs_active_field st = Some name then Ok (st\<lparr>xs_active_field := None\<rparr>)
          else Ok st
      | _ \<Rightarrow> Ok st)"

text \<open>The loop stops at the end of the file; a read error is a failed event.\<close>

fun xml_loop :: "(string \<Rightarrow> string) \<Rightarrow> schema \<Rightarrow> xml_state \<Rightarrow> (string + xml_event) list \<Rightarrow> xml_state result" where
  "xml_loop dbg s st [] = Ok st"
| "xml_loop dbg s st (Inl e # evs) = Err (xml_err (''xml parse: '' @ e))"
| "xml_loop dbg s st (Inr ev # evs) =
     (if ev = XEof then Ok st else rbind (xml_step dbg s ev st) (\<lambda>st'. xml_loop dbg s st' evs))"

definition xml_init :: xml_state where
  "xml_init = \<lparr>xs_rows = [], xs_in_record = False, xs_field_values = [], xs_active_field = None\<rparr>"

text \<open>The events of an opened file, or the error opening it.\<close>

definition ingest_xml_from_path ::
  "(string \<Rightarrow> string) \<Rightarrow> string + (string + xml_event) list \<Rightarrow> schema \<Rightarrow> data_set result" where
  "ingest_xml_from_path dbg file s =
     (case file of
        Inl e \<Rightarrow> Err (IoErr e)
      | Inr evs \<Rightarrow> rmap (\<lambda>st. data_set_new s (xs_rows st)) (xml_loop dbg s xml_init evs))"

text \<open>The events handed to the writer; the text is escaped by the writer.\<close>

definition cell_events :: "(f64 \<Rightarrow> string) \<Rightarrow> field \<times> value_t \<Rightarrow> xml_event list" where
  "cell_events show_f64 = (\<lambda>(f, cell).
     let text = value_to_text show_f64 cell in
     [XStart (fname f)] @ (if text = [] then [] else [XText (Inr text)]) @ [XEnd (fname f)])"

definition row_events :: "(f64 \<Rightarrow> string) \<Rightarrow> schema \<Rightarrow> row \<Rightarrow> xml_event list" where
  "row_events show_f64 s r =
     [XStart RECORD] @ concat (map (cell_events show_f64) (zip (sfields s) r)) @ [XEnd RECORD]"

definition export_events :: "(f64 \<Rightarrow> string) \<Rightarrow> data_set \<Rightarrow> xml_event list" where
  "export_events show_f64 ds =
     [XDecl, XStart ROOT] @ concat (map (row_events show_f64 (ds_schema ds)) (rows ds)) @ [XEnd ROOT, XEof]"

text \<open>The writer's own errors: the first event it refuses ends the export with that message.\<close>

definition write_message :: "xml_event \<Rightarrow> string" where
  "write_message ev =
     (case ev of
        XDecl \<Rightarrow> ''write xml decl: ''
      | XStart n \<Rightarrow> if n = ROOT then ''write xml root: '' else if n = RECORD then ''write record start: ''
                    else ''write field start: ''
      | XText _ \<Rightarrow> ''write field text: ''
      | XEnd n \<Rightarrow> if n = ROOT then ''write xml root end: '' else if n = RECORD then ''write record end: ''
                  else ''write field end: ''
      | _ \<Rightarrow> ''write xml eof: '')"

definition export_dataset_to_xml ::
  "(f64 \<Rightarrow> string) \<Rightarrow> (xml_event list \<Rightarrow> xml_event \<Rightarrow> string option) \<Rightarrow> string option \<Rightarrow> data_set \<Rightarrow>
   xml_event list result" where
  "export_dataset_to_xml show_f64 refuses create_error ds =
     (case create_error of
        Some e \<Rightarrow> Err (IoErr e)
      | None \<Rightarrow>
          (let evs = export_events show_f64 ds in
           rmap (\<lambda>_. evs) (traverse (\<lambda>i. case refuses (take i evs) (evs ! i) of
               Some e \<Rightarrow> Err (xml_err (write_message (evs ! i) @ e)) | None \<Rightarrow> Ok ()) [0..<length evs])))"

subsection \<open>Trimming printed values\<close>

definition plain :: "char \<Rightarrow> bool" where
  "plain c \<longleftrightarrow> 32 < (of_char c :: nat) \<and> (of_char c :: nat) < 127"

lemma chars_plain: "\<forall>c\<in>set s. plain c \<Longrightarrow> chars s = map (\<lambda>c. [c]) s"
proof (induction s)
  case (Cons c s)
  then have "\<forall>d\<in>set s. \<not> is_cont d" by (auto simp: plain_def is_cont_def)
  then have "takeWhile is_cont s = [] \<and> dropWhile is_cont s = s" by (cases s) auto
  with Cons show ?case by simp
qed simp

lemma plain_not_ws: "plain c \<Longrightarrow> \<not> is_ws [c]"
  by (simp add: plain_def is_ws_def Let_def)

lemma trim_plain:
  assumes "\<forall>c\<in>set s. plain c"
  shows "trim s = s"
proof -
  have "trim_with is_ws (map (\<lambda>c. [c]) s) = map (\<lambda>c. [c]) s"
  proof (cases "s = []")
    case False
    then have "\<not> is_ws [hd s]" "\<not> is_ws [last s]" using assms plain_not_ws by auto
    then show ?thesis
      using False by (simp add: trim_with_def dropWhile_id hd_map hd_rev last_map flip: rev_map)
  qed (simp add: trim_with_def)
  moreover have "concat (map (\<lambda>c. [c]) s) = s" by (induction s) simp_all
  ultimately show ?thesis by (simp add: trim_def chars_plain [OF assms])
qed

lemma digit_plain: "is_digit c \<Longrightarrow> plain c"
  by (simp add: is_digit_def plain_def)

lemma show_i64_plain: "c \<in> set (show_i64 x) \<Longrightarrow> plain c"
proof -
  have "plain (CHR ''-'')" by (simp add: plain_def)
  then show "c \<in> set (show_i64 x) \<Longrightarrow> plain c"
    by (auto simp: show_i64_def show_int_def split: if_splits intro: digit_plain show_nat_digits)
qed

lemma trim_show_i64 [simp]: "trim (show_i64 x) = show_i64 x"
  by (rule trim_plain) (auto dest: show_i64_plain)

lemma show_i64_nonempty [simp]: "show_i64 x \<noteq> []"
  by (simp add: show_i64_def show_int_def)

lemma trim_show_bool [simp]: "trim (show_bool b) = show_bool b"
  by (rule trim_plain) (auto simp: show_bool_def plain_def)

subsection \<open>What the CSV reader yields\<close>

lemma csv_row_cells:
  assumes "csv_row s idxs (i, rec) = Ok r" "length idxs = length (sfields s)"
  shows "\<exists>flds. rec = Inr flds \<and> length r = length (sfields s) \<and>
    (\<forall>j<length (sfields s). parse_typed_value (i + 2) (fname (sfields s ! j)) (ftype (sfields s ! j))
        (case get flds (idxs ! j) of Some raw \<Rightarrow> raw | None \<Rightarrow> []) = Ok (r ! j))"
proof (cases rec)
  case (Inl e)
  with assms(1) show ?thesis by (cases e) (simp add: csv_row_def csv_try_def)
next
  case (Inr flds)
  with assms(1) have t: "traverse (\<lambda>(f, csv_idx). parse_typed_value (i + 2) (fname f) (ftype f)
             (case get flds csv_idx of Some raw \<Rightarrow> raw | None \<Rightarrow> [])) (zip (sfields s) idxs) = Inr r"
    by (simp add: csv_row_def csv_try_def)
  from traverse_length [OF t] traverse_nth [OF t] show ?thesis
    using assms(2) by (auto simp: Inr)
qed

lemma parse_typed_value_type: "parse_typed_value row c t raw = Ok v \<Longrightarrow> has_type v t"
  by (auto simp: parse_typed_value_def Let_def split: if_splits data_type.splits sum.splits)

lemma csv_reader_spec:
  assumes "ingest_csv_from_reader dbg (Inr hs) recs s = Ok ds"
  shows "ds_schema ds = s \<and> length (rows ds) = length recs \<and>
    (\<forall>i<length recs. \<exists>flds. recs ! i = Inr flds \<and> length (rows ds ! i) = length (sfields s) \<and>
      (\<forall>j<length (sfields s). \<exists>k. position (\<lambda>h. h = fname (sfields s ! j)) hs = Some k \<and>
        parse_typed_value (i + 2) (fname (sfields s ! j)) (ftype (sfields s ! j))
          (case get flds k of Some raw \<Rightarrow> raw | None \<Rightarrow> []) = Ok (rows ds ! i ! j)))"
proof -
  from assms obtain idxs rs where
    idxs: "traverse (header_index dbg hs) (sfields s) = Inr idxs" and
    rs: "traverse (csv_row s idxs) (enumerate 0 recs) = Inr rs" and ds: "ds = data_set_new s rs"
    by (auto simp: ingest_csv_from_reader_def csv_try_def result_simps)
  have pos: "position (\<lambda>h. h = fname (sfields s ! j)) hs = Some (idxs ! j)" if "j < length (sfields s)" for j
    using traverse_nth [OF idxs that] by (simp add: header_index_def result_simps)
  have row: "csv_row s idxs (i, recs ! i) = Ok (rs ! i)" if "i < length recs" for i
    using traverse_nth [OF rs, of i] that by (simp add: nth_enumerate_eq)
  show ?thesis
    using traverse_length [OF rs] csv_row_cells [OF row traverse_length [OF idxs]] pos
    by (fastforce simp: ds)
qed

subsection \<open>Reading back an export\<close>

fun xml_run :: "(string \<Rightarrow> string) \<Rightarrow> schema \<Rightarrow> xml_event list \<Rightarrow> xml_state \<Rightarrow> xml_state result" where
  "xml_run dbg s [] st = Ok st"
| "xml_run dbg s (ev # evs) st = rbind (xml_step dbg s ev st) (xml_run dbg s evs)"

lemma xml_run_append: "xml_run dbg s (us @ vs) st = rbind (xml_run dbg s us st) (xml_run dbg s vs)"
proof (induction us arbitrary: st)
  case (Cons u us)
  show ?case by (cases "xml_step dbg s u st") (simp_all add: Cons)
qed simp

lemma xml_loop_run:
  "XEof \<notin> set evs \<Longrightarrow> xml_loop dbg s st (map Inr evs @ [Inr XEof]) = xml_run dbg s evs st"
  by (induction evs arbitrary: st) (auto intro!: arg_cong2 [of _ _ _ _ rbind])

text \<open>The fields of a record fill the map with the texts of the non-empty cells.\<close>

definition cell_text :: "(f64 \<Rightarrow> string) \<Rightarrow> (field \<times> value_t) list \<Rightarrow> string \<Rightarrow> string option" where
  "cell_text show_f64 ps n = map_option (\<lambda>p. value_to_text show_f64 (snd p))
     (find (\<lambda>p. fname (fst p) = n \<and> value_to_text show_f64 (snd p) \<noteq> []) ps)"

lemma cell_text_Cons:
  "cell_text show_f64 ((f, c) # ps) n =
     (if fname f = n \<and> value_to_text show_f64 c \<noteq> [] then Some (value_to_text show_f64 c)
      else cell_text show_f64 ps n)"
  by (simp add: cell_text_def)

lemma run_cells:
  assumes "distinct (map (fname \<circ> fst) ps)"
    and "\<forall>p\<in>set ps. fname (fst p) \<noteq> RECORD \<and> fname (fst p) \<noteq> ROOT \<and> map_of (xs_field_values st) (fname (fst p)) = None"
    and "xs_in_record st" "xs_active_field st = None"
  shows "\<exists>m. xml_run dbg s (concat (map (cell_events show_f64) ps)) st = Ok (st\<lparr>xs_field_values := m\<rparr>) \<and>
    (\<forall>n. map_of m n = (case cell_text show_f64 ps n of Some t \<Rightarrow> Some t | None \<Rightarrow> map_of (xs_field_values st) n))"
  using assms
proof (induction ps arbitrary: st)
  case Nil
  then show ?case by (intro exI [of _ "xs_field_values st"]) (simp add: cell_text_def)
next
  case (Cons p ps)
  obtain f c where p: "p = (f, c)" by (cases p)
  let ?t = "value_to_text show_f64 c"
  let ?m = "if ?t = [] then xs_field_values st else push_text (fname f) ?t (xs_field_values st)"
  let ?st = "st\<lparr>xs_field_values := ?m\<rparr>"
  have f: "fname f \<noteq> RECORD" "fname f \<noteq> ROOT" "map_of (xs_field_values st) (fname f) = None"
    using Cons.prems(2) p by auto
  have "fname f \<notin> (fname \<circ> fst) ` set ps" using Cons.prems(1) p by simp
  then have other: "fname (fst q) \<noteq> fname f" if "q \<in> set ps" for q
    using that by (metis comp_apply imageI)
  have st: "st\<lparr>xs_active_field := None\<rparr> = st" using Cons.prems(4) by simp
  have cell: "xml_run dbg s (cell_events show_f64 (f, c)) st = Ok ?st"
    using f Cons.prems(3,4) st by (cases st) (simp add: cell_events_def xml_step_def Let_def)
  have m: "map_of ?m n = (if n = fname f \<and> ?t \<noteq> [] then Some ?t else map_of (xs_field_values st) n)" for n
    using f(3) by (auto simp: push_text_def update_conv)
  have "\<exists>m'. xml_run dbg s (concat (map (cell_events show_f64) ps)) ?st = Ok (?st\<lparr>xs_field_values := m'\<rparr>) \<and>
      (\<forall>n. map_of m' n = (case cell_text show_f64 ps n of Some t \<Rightarrow> Some t | None \<Rightarrow> map_of (xs_field_values ?st) n))"
  proof (rule Cons.IH)
    show "distinct (map (fname \<circ> fst) ps)" using Cons.prems(1) by (simp add: comp_def)
    show "\<forall>q\<in>set ps. fname (fst q) \<noteq> RECORD \<and> fname (fst q) \<noteq> ROOT \<and> map_of (xs_field_values ?st) (fname (fst q)) = None"
      using Cons.prems(2) other by (simp add: m)
  qed (use Cons.prems(3,4) in simp_all)
  then obtain m' where m': "xml_run dbg s (concat (map (cell_events show_f64) ps)) ?st = Ok (?st\<lparr>xs_field_values := m'\<rparr>)"
    "\<forall>n. map_of m' n = (case cell_text show_f64 ps n of Some t \<Rightarrow> Some t | None \<Rightarrow> map_of (xs_field_values ?st) n)" by blast
  have "cell_text show_f64 ps (fname f) = None"
    using other by (auto simp: cell_text_def find_None_iff)
  then have "map_of m' n = (case cell_text show_f64 (p # ps) n of Some t \<Rightarrow> Some t | None \<Rightarrow> map_of (xs_field_values st) n)" for n
    using m'(2) [rule_format, of n] m [of n] \<open>cell_text show_f64 ps (fname f) = None\<close> f(3)
    by (cases "n = fname f") (auto simp: cell_text_Cons p split: option.splits)
  moreover have "xml_run dbg s (concat (map (cell_events show_f64) (p # ps))) st = Ok (st\<lparr>xs_field_values := m'\<rparr>)"
    using cell m'(1) by (simp add: xml_run_append p)
  ultimately show ?case by blast
qed

text \<open>Cells that survive as text: strings already trimmed and not empty, floats that print back.\<close>

definition text_stable :: "(f64 \<Rightarrow> string) \<Rightarrow> value_t \<Rightarrow> bool" where
  "text_stable show_f64 v \<longleftrightarrow>
     (case v of
        Utf8 t \<Rightarrow> t \<noteq> [] \<and> trim t = t
      | Float64 f \<Rightarrow> show_f64 f \<noteq> [] \<and> trim (show_f64 f) = show_f64 f \<and> parse_f64 (show_f64 f) = Inr f
      | _ \<Rightarrow> True)"

lemma to_ascii_lowercase_bool [simp]: "to_ascii_lowercase (show_bool b) = show_bool b"
  by (cases b) (simp_all add: show_bool_def to_ascii_lowercase_def ascii_lower_def)

lemma parse_printed:
  assumes "has_type v t" "text_stable show_f64 v"
  shows "parse_text_to_value dbg (value_to_text show_f64 v) t = Ok v"
proof (cases v)
  case (Bool b)
  have "parse_text_to_value dbg (show_bool b) TBool = Ok (Bool b)"
    by (cases b) (simp_all add: parse_text_to_value_def Let_def, simp_all add: show_bool_def)
  with Bool assms(1) show ?thesis by (simp add: value_to_text_def)
qed (use assms in \<open>auto simp: value_to_text_def parse_text_to_value_def text_stable_def parse_show_i64 Let_def trim_plain\<close>)

lemma find_unique:
  assumes "x \<in> set xs" "\<And>y. y \<in> set xs \<Longrightarrow> P y \<Longrightarrow> y = x"
  shows "find P xs = (if P x then Some x else None)"
proof (cases "find P xs")
  case None
  with assms(1) show ?thesis by (auto simp: find_None_iff)
next
  case (Some y)
  then have "y \<in> set xs" "P y" by (auto simp: find_Some_iff)
  with assms(2) Some show ?thesis by auto
qed

lemma run_row:
  assumes wf: "wf_row s r" and names: "distinct (field_names s)" "RECORD \<notin> set (field_names s)" "ROOT \<notin> set (field_names s)"
    and stable: "\<forall>v\<in>set r. text_stable show_f64 v" and st: "xs_active_field st = None" "\<not> xs_in_record st"
  shows "\<exists>st'. xml_run dbg s (row_events show_f64 s r) st = Ok st' \<and> xs_rows st' = xs_rows st @ [r] \<and>
    xs_active_field st' = None \<and> \<not> xs_in_record st'"
proof -
  let ?ps = "zip (sfields s) r"
  let ?st = "st\<lparr>xs_in_record := True, xs_field_values := []\<rparr>"
  have len: "length r = length (sfields s)" by (rule wf_row_length [OF wf])
  have nm: "map (fname \<circ> fst) ?ps = field_names s"
    using len by (simp add: field_names_def flip: map_map)
  have "\<forall>p\<in>set ?ps. fname (fst p) \<noteq> RECORD \<and> fname (fst p) \<noteq> ROOT"
  proof
    fix p assume "p \<in> set ?ps"
    then have "fst p \<in> set (sfields s)" by (metis prod.collapse set_zip_leftD)
    then have "fname (fst p) \<in> set (field_names s)" by (simp add: field_names_def)
    with names(2,3) show "fname (fst p) \<noteq> RECORD \<and> fname (fst p) \<noteq> ROOT" by metis
  qed
  then have "\<forall>p\<in>set ?ps. fname (fst p) \<noteq> RECORD \<and> fname (fst p) \<noteq> ROOT \<and> map_of (xs_field_values ?st) (fname (fst p)) = None"
    by simp
  moreover have "distinct (map (fname \<circ> fst) ?ps)" using nm names(1) by simp
  ultimately obtain m where "xml_run dbg s (concat (map (cell_events show_f64) ?ps)) ?st = Ok (?st\<lparr>xs_field_values := m\<rparr>)"
    "\<forall>n. map_of m n = (case cell_text show_f64 ?ps n of Some t \<Rightarrow> Some t | None \<Rightarrow> map_of (xs_field_values ?st) n)"
    using run_cells [of ?ps ?st dbg s show_f64] st by auto
  then have m: "xml_run dbg s (concat (map (cell_events show_f64) ?ps)) ?st = Ok (?st\<lparr>xs_field_values := m\<rparr>)"
    "\<And>n. map_of m n = cell_text show_f64 ?ps n" by (simp_all split: option.split)
  have tx: "(case map_lookup m (fname (sfields s ! j)) of Some raw \<Rightarrow> raw | None \<Rightarrow> []) = value_to_text show_f64 (r ! j)"
    if j: "j < length (sfields s)" for j
  proof -
    have uniq: "fname (fst p) = fname (sfields s ! j) \<longleftrightarrow> p = (sfields s ! j, r ! j)" if "p \<in> set ?ps" for p
    proof -
      from that obtain n where n: "n < length (sfields s)" "p = (sfields s ! n, r ! n)"
        unfolding set_zip by auto
      moreover have "fname (sfields s ! n) = fname (sfields s ! j) \<longleftrightarrow> n = j"
        using nth_eq_iff_index_eq [OF names(1), of n j] n(1) j by (simp add: field_names_def)
      ultimately show ?thesis by auto
    qed
    have "(sfields s ! j, r ! j) \<in> set ?ps" using j len by (auto simp: in_set_zip)
    then have "find (\<lambda>p. fname (fst p) = fname (sfields s ! j) \<and> value_to_text show_f64 (snd p) \<noteq> []) ?ps =
        (if value_to_text show_f64 (r ! j) = [] then None else Some (sfields s ! j, r ! j))"
      by (subst find_unique) (use uniq in auto)
    then show ?thesis by (simp add: map_lookup_def m(2) cell_text_def)
  qed
  have "row_from_field_map dbg s m = Ok r"
    unfolding row_from_field_map_def
  proof (rule traverse_nthI [OF len])
    fix j assume j: "j < length (sfields s)"
    have "parse_text_to_value dbg (value_to_text show_f64 (r ! j)) (ftype (sfields s ! j)) = Ok (r ! j)"
      using wf_row_nth [OF wf j] stable j len by (intro parse_printed) auto
    then show "parse_text_to_value dbg (case map_lookup m (fname (sfields s ! j)) of None \<Rightarrow> [] | Some raw \<Rightarrow> raw)
        (ftype (sfields s ! j)) = Inr (r ! j)" by (simp add: tx [OF j])
  qed
  then show ?thesis
    using m(1) st by (simp add: row_events_def xml_run_append xml_step_def ROOT_def RECORD_def)
qed

text \<open>Only typed rows are ever collected.\<close>

lemma parse_text_to_value_type: "parse_text_to_value dbg raw t = Ok v \<Longrightarrow> has_type v t"
  by (auto simp: parse_text_to_value_def Let_def split: if_splits data_type.splits sum.splits)

lemma xml_step_wf: "xml_step dbg s ev st = Ok st' \<Longrightarrow> list_all (wf_row s) (xs_rows st) \<Longrightarrow> list_all (wf_row s) (xs_rows st')"
  by (auto simp: xml_step_def result_simps row_from_field_map_def split: xml_event.splits if_splits option.splits sum.splits
      intro!: wf_row_traverse dest: parse_text_to_value_type)

lemma xml_loop_wf: "xml_loop dbg s st evs = Ok st' \<Longrightarrow> list_all (wf_row s) (xs_rows st) \<Longrightarrow> list_all (wf_row s) (xs_rows st')"
  by (induction dbg s st evs rule: xml_loop.induct) (auto simp: result_simps split: if_splits dest: xml_step_wf)

lemma ingest_xml_wf: "ingest_xml_from_path dbg file s = Ok ds \<Longrightarrow> ds_schema ds = s \<and> wf_ds ds"
  using xml_loop_wf [of dbg s xml_init]
  by (fastforce simp: ingest_xml_from_path_def result_simps xml_init_def list_all_iff split: sum.splits)

definition xml_exportable :: "(f64 \<Rightarrow> string) \<Rightarrow> data_set \<Rightarrow> bool" where
  "xml_exportable show_f64 ds \<longleftrightarrow> wf_ds ds \<and> distinct (field_names (ds_schema ds)) \<and>
     RECORD \<notin> set (field_names (ds_schema ds)) \<and> ROOT \<notin> set (field_names (ds_schema ds)) \<and>
     (\<forall>r\<in>set (rows ds). \<forall>v\<in>set r. text_stable show_f64 v)"

lemma run_rows:
  assumes "xml_exportable show_f64 ds" "set rs \<subseteq> set (rows ds)" "xs_active_field st = None" "\<not> xs_in_record st"
  shows "\<exists>st'. xml_run dbg (ds_schema ds) (concat (map (row_events show_f64 (ds_schema ds)) rs)) st = Ok st' \<and>
    xs_rows st' = xs_rows st @ rs \<and> xs_active_field st' = None \<and> \<not> xs_in_record st'"
  using assms(2-)
proof (induction rs arbitrary: st)
  case (Cons r rs)
  have r: "wf_row (ds_schema ds) r" "\<forall>v\<in>set r. text_stable show_f64 v"
    using assms(1) Cons.prems(1) by (auto simp: xml_exportable_def wf_ds_row)
  obtain st1 where 1: "xml_run dbg (ds_schema ds) (row_events show_f64 (ds_schema ds) r) st = Ok st1"
    "xs_rows st1 = xs_rows st @ [r]" "xs_active_field st1 = None" "\<not> xs_in_record st1"
    using run_row [OF r(1) _ _ _ r(2) Cons.prems(2,3), of dbg] assms(1) by (auto simp: xml_exportable_def)
  obtain st2 where 2: "xml_run dbg (ds_schema ds) (concat (map (row_events show_f64 (ds_schema ds)) rs)) st1 = Ok st2"
    "xs_rows st2 = xs_rows st1 @ rs" "xs_active_field st2 = None" "\<not> xs_in_record st2"
    using Cons.IH [of st1] Cons.prems(1) 1 by auto
  from 1 2 show ?case by (simp add: xml_run_append)
qed simp

lemma xml_reads_export:
  assumes "xml_exportable show_f64 ds"
  shows "ingest_xml_from_path dbg (Inr (map Inr (export_events show_f64 ds))) (ds_schema ds) = Ok ds"
proof -
  let ?rows = "concat (map (row_events show_f64 (ds_schema ds)) (rows ds))"
  let ?body = "[XDecl, XStart ROOT] @ ?rows @ [XEnd ROOT]"
  obtain st where st: "xml_run dbg (ds_schema ds) ?rows xml_init = Ok st" "xs_rows st = rows ds"
    "xs_active_field st = None" "\<not> xs_in_record st"
    using run_rows [OF assms, of "rows ds" xml_init dbg] by (auto simp: xml_init_def)
  have "xml_step dbg (ds_schema ds) XDecl xml_init = Ok xml_init"
    "xml_step dbg (ds_schema ds) (XStart ROOT) xml_init = Ok xml_init"
    "xml_step dbg (ds_schema ds) (XEnd ROOT) st = Ok st"
    using st(3) by (simp_all add: xml_step_def xml_init_def ROOT_def RECORD_def)
  with st(1) have "xml_run dbg (ds_schema ds) ?body xml_init = Ok st"
    by (simp add: xml_run_append)
  moreover have "XEof \<notin> set ?body"
    by (auto simp: row_events_def cell_events_def Let_def split: if_splits)
  from xml_loop_run [OF this] have
    "xml_loop dbg (ds_schema ds) xml_init (map Inr ?body @ [Inr XEof]) = xml_run dbg (ds_schema ds) ?body xml_init" .
  moreover have "map Inr (export_events show_f64 ds) = map Inr ?body @ [Inr XEof]"
    by (simp add: export_events_def)
  ultimately have "xml_loop dbg (ds_schema ds) xml_init (map Inr (export_events show_f64 ds)) = Ok st"
    by metis
  with st(2) show ?thesis by (simp add: ingest_xml_from_path_def data_set_eqI)
qed

subsection \<open>The file in between\<close>

text \<open>
  The writer escapes the five markup characters of a text and writes names as they are; the reader
  yields references as events of their own, ends a name at a space, and normalises line ends. A
  document is plain when none of this applies: properly nested elements with plain names and plain
  texts. The library reads such a document as it was written; it promises nothing of the kind for
  others.
\<close>

definition plain_cell_text :: "string \<Rightarrow> bool" where
  "plain_cell_text t \<longleftrightarrow> t \<noteq> [] \<and> trim t = t \<and> list_all (\<lambda>c. c \<notin> set ''&<>'' \<and> c \<noteq> CHR 0x22 \<and> c \<noteq> CHR 0x27 \<and> c \<noteq> CHR 0x0D) t"

definition name_start :: "char \<Rightarrow> bool" where
  "name_start c \<longleftrightarrow> c \<in> set ''_abcdefghijklmnopqrstuvwxyzABCDEFGHIJKLMNOPQRSTUVWXYZ''"

definition plain_name :: "string \<Rightarrow> bool" where
  "plain_name n \<longleftrightarrow> n \<noteq> [] \<and> name_start (hd n) \<and> list_all (\<lambda>c. name_start c \<or> c \<in> set ''0123456789.-'') n"

fun plain_event :: "xml_event \<Rightarrow> bool" where
  "plain_event (XStart n) = plain_name n"
| "plain_event (XEnd n) = plain_name n"
| "plain_event (XText t) = (case t of Inr text \<Rightarrow> plain_cell_text text | Inl _ \<Rightarrow> False)"
| "plain_event XDecl = True"
| "plain_event XEof = True"
| "plain_event _ = False"

text \<open>Every element is closed, a text ends its element, and the last event is the end of the file.\<close>

fun nested :: "string list \<Rightarrow> xml_event list \<Rightarrow> bool" where
  "nested open_tags [] = False"
| "nested open_tags (XEof # evs) = (open_tags = [] \<and> evs = [])"
| "nested open_tags (XStart n # evs) = nested (n # open_tags) evs"
| "nested open_tags (XEnd n # evs) = (open_tags \<noteq> [] \<and> hd open_tags = n \<and> nested (tl open_tags) evs)"
| "nested open_tags (XText t # evs) = (evs \<noteq> [] \<and> open_tags \<noteq> [] \<and> hd evs = XEnd (hd open_tags) \<and> nested open_tags evs)"
| "nested open_tags (XDecl # evs) = (open_tags = [] \<and> nested open_tags evs)"
| "nested open_tags (_ # evs) = False"

definition plain_document :: "xml_event list \<Rightarrow> bool" where
  "plain_document evs \<longleftrightarrow> nested [] evs \<and> list_all plain_event evs"

definition reads_plain :: "(xml_event list \<Rightarrow> (string + xml_event) list) \<Rightarrow> bool" where
  "reads_plain reread \<longleftrightarrow> (\<forall>evs. plain_document evs \<longrightarrow> reread evs = map Inr evs)"

definition plain_cells :: "(f64 \<Rightarrow> string) \<Rightarrow> data_set \<Rightarrow> bool" where
  "plain_cells show_f64 ds \<longleftrightarrow> list_all plain_name (field_names (ds_schema ds)) \<and>
     (\<forall>r\<in>set (rows ds). \<forall>v\<in>set r. v \<noteq> Null \<longrightarrow> plain_cell_text (value_to_text show_f64 v))"

lemma nested_cell: "nested open_tags (cell_events show_f64 p @ evs) = nested open_tags evs"
  by (cases p; cases "value_to_text show_f64 (snd p) = []") (simp_all add: cell_events_def Let_def)

lemma nested_cells: "nested open_tags (concat (map (cell_events show_f64) ps) @ evs) = nested open_tags evs"
  by (induction ps) (simp_all add: nested_cell)

lemma nested_rows: "nested open_tags (concat (map (row_events show_f64 s) rs) @ evs) = nested open_tags evs"
  by (induction rs) (auto simp: row_events_def nested_cells)

lemma plain_rows:
  assumes "list_all plain_name (field_names s)" "\<forall>v\<in>set r. v \<noteq> Null \<longrightarrow> plain_cell_text (value_to_text show_f64 v)"
  shows "list_all plain_event (row_events show_f64 s r)"
proof -
  have "list_all plain_event (cell_events show_f64 (f, v))" if "(f, v) \<in> set (zip (sfields s) r)" for f v
  proof -
    have "plain_name (fname f)" "v \<noteq> Null \<Longrightarrow> plain_cell_text (value_to_text show_f64 v)"
      using that assms by (auto simp: field_names_def list_all_iff dest: set_zip_leftD set_zip_rightD)
    then show ?thesis by (cases "v = Null") (simp_all add: cell_events_def Let_def value_to_text_def)
  qed
  moreover have "plain_name RECORD" by code_simp
  ultimately show ?thesis by (auto simp: row_events_def list_all_iff)
qed

lemma export_plain:
  assumes "plain_cells show_f64 ds"
  shows "plain_document (export_events show_f64 ds)"
proof -
  have "list_all plain_event (concat (map (row_events show_f64 (ds_schema ds)) (rows ds)))"
    using assms plain_rows [of "ds_schema ds"] by (auto simp: plain_cells_def list_all_iff)
  moreover have "plain_name ROOT" by code_simp
  ultimately show ?thesis by (simp add: plain_document_def export_events_def nested_rows)
qed

subsection \<open>Properties\<close>

text \<open>The CSV reader yields one row per record under the requested schema; every cell is the
  parsed text of the column whose header has the field's name, wherever that column stands, and is
  of the field's type.\<close>

theorem csv_reader_cells:
  assumes "ingest_csv_from_reader dbg (Inr headers) recs s = Ok ds"
  shows "ds_schema ds = s \<and> length (rows ds) = length recs \<and> wf_ds ds \<and>
    (\<forall>i<length recs. \<exists>flds. recs ! i = Inr flds \<and>
      (\<forall>j<length (sfields s). \<exists>k. position (\<lambda>h. h = fname (sfields s ! j)) headers = Some k \<and>
        parse_typed_value (i + 2) (fname (sfields s ! j)) (ftype (sfields s ! j))
          (case get flds k of Some raw \<Rightarrow> raw | None \<Rightarrow> []) = Ok (rows ds ! i ! j)))"
proof -
  note spec = csv_reader_spec [OF assms]
  have "wf_row s (rows ds ! i)" if "i < length recs" for i
    using spec that by (fastforce simp: wf_row_def list_all2_conv_all_nth dest: parse_typed_value_type)
  then have "wf_ds ds" using spec by (simp add: wf_ds_def list_all_length)
  with spec show ?thesis by blast
qed

text \<open>C15: A dataset written as XML and read again is the same dataset, when its column names are distinct,
  plain and not the two tags, its strings are plain (trimmed, not empty, without markup characters),
  and its floats are printed so that they parse back, over an XML library that reads plain documents
  as they were written. Texts with markup characters are excluded; they do not survive
  (\<open>xml_loses_references\<close>).\<close>

theorem xml_roundtrip:
  assumes "xml_exportable show_f64 ds" "plain_cells show_f64 ds" "reads_plain reread"
  shows "\<exists>evs. export_dataset_to_xml show_f64 (\<lambda>_ _. None) None ds = Ok evs \<and>
    ingest_xml_from_path dbg (Inr (reread evs)) (ds_schema ds) = Ok ds"
proof -
  have "traverse (\<lambda>i. Ok ()) [0..<n] = (Inr (map (\<lambda>_. ()) [0..<n]) :: unit list result)" for n
    by (rule traverse_ok) simp
  then have "export_dataset_to_xml show_f64 (\<lambda>_ _. None) None ds = Ok (export_events show_f64 ds)"
    by (simp add: export_dataset_to_xml_def Let_def)
  moreover have "reread (export_events show_f64 ds) = map Inr (export_events show_f64 ds)"
    using assms(3) export_plain [OF assms(2)] by (simp add: reads_plain_def)
  ultimately show ?thesis using xml_reads_export [OF assms(1)] by auto
qed

text \<open>A character reference inside a field's text is dropped and splits the text: the file the
  writer makes of the cell \<open>a&b\<close> is read back as \<open>a b\<close>.\<close>

theorem xml_loses_references:
  "ingest_xml_from_path dbg
     (Inr (map Inr [XStart ROOT, XStart RECORD, XStart ''t'', XText (Inr ''a''), XGeneralRef ''amp'',
        XText (Inr ''b''), XEnd ''t'', XEnd RECORD, XEnd ROOT, XEof]))
     (schema_new [mk_field ''t'' TUtf8]) =
   Ok (data_set_new (schema_new [mk_field ''t'' TUtf8]) [[Utf8 ''a b'']])"
proof -
  have "trim ''a b'' = ''a b''" by code_simp
  then show ?thesis
    by (simp add: ingest_xml_from_path_def xml_init_def xml_step_def ROOT_def RECORD_def push_text_def
        row_from_field_map_def map_lookup_def parse_text_to_value_def schema_new_def mk_field_def Let_def)
qed

subsection \<open>Witnesses\<close>

lemma csv_reader_cells_witness:
  "\<exists>ds. ingest_csv_from_reader (\<lambda>_. ''?'') (Inr [''b'', ''a'']) [Inr ['' yes '', ''-5'']]
      (schema_new [mk_field ''a'' TInt64, mk_field ''b'' TBool]) = Ok ds \<and> wf_ds ds"
proof -
  have "ingest_csv_from_reader (\<lambda>_. ''?'') (Inr [''b'', ''a'']) [Inr ['' yes '', ''-5'']]
      (schema_new [mk_field ''a'' TInt64, mk_field ''b'' TBool]) =
      Ok (data_set_new (schema_new [mk_field ''a'' TInt64, mk_field ''b'' TBool]) [[Int64 (- 5), Bool True]])"
    by code_simp
  from csv_reader_cells [OF this] this show ?thesis by blast
qed

text \<open>A library that drops the text of every document that is not plain.\<close>

definition plain_reader :: "xml_event list \<Rightarrow> (string + xml_event) list" where
  "plain_reader evs = (if plain_document evs then map Inr evs else map Inr (filter (\<lambda>ev. case ev of XText _ \<Rightarrow> False | _ \<Rightarrow> True) evs))"

lemma xml_roundtrip_witness:
  "\<exists>evs. export_dataset_to_xml (\<lambda>_. ''1.5'') (\<lambda>_ _. None) None
        (data_set_new (schema_new [mk_field ''a'' TInt64, mk_field ''b'' TUtf8]) [[Int64 (- 5), Utf8 ''x y''], [Null, Utf8 ''z'']]) = Ok evs \<and>
     ingest_xml_from_path (\<lambda>s. s) (Inr (plain_reader evs)) (schema_new [mk_field ''a'' TInt64, mk_field ''b'' TUtf8]) =
       Ok (data_set_new (schema_new [mk_field ''a'' TInt64, mk_field ''b'' TUtf8]) [[Int64 (- 5), Utf8 ''x y''], [Null, Utf8 ''z'']])"
proof -
  let ?ds = "data_set_new (schema_new [mk_field ''a'' TInt64, mk_field ''b'' TUtf8]) [[Int64 (- 5), Utf8 ''x y''], [Null, Utf8 ''z'']]"
  have "xml_exportable (\<lambda>_. ''1.5'') ?ds" "plain_cells (\<lambda>_. ''1.5'') ?ds" by code_simp+
  moreover have "reads_plain plain_reader" by (simp add: reads_plain_def plain_reader_def)
  ultimately have "\<exists>evs. export_dataset_to_xml (\<lambda>_. ''1.5'') (\<lambda>_ _. None) None ?ds = Ok evs \<and>
      ingest_xml_from_path (\<lambda>s. s) (Inr (plain_reader evs)) (ds_schema ?ds) = Ok ?ds"
    by (rule xml_roundtrip)
  then show ?thesis by simp
qed

end
