(* ===== verification/Json.thy ===== *)
theory Json
  imports Text_Formats Polars_Bridge
begin

text \<open>
  JSON ingestion (\<open>src/ingestion/json.rs\<close>). A parsed document is the tree of \<open>serde_json::Value\<close>;
  the parser itself (\<open>parse_json\<close>) and the printing of a tree (\<open>jtext\<close>) belong to the library.
  Numbers keep the three representations the accessors distinguish; the parser yields natural numbers
  below \<open>2 ^ 64\<close> and negative ones from \<open>- 2 ^ 63\<close> on, which the types here do not enforce. From a file, Polars reads the
  frame and evaluates the projection (\<open>project\<close>).
\<close>

subsection \<open>Documents\<close>

datatype json_num = JPosInt nat | JNegInt int | JFloat f64

datatype json =
    JNull
  | JBool bool
  | JNumber json_num
  | JString string
  | JArray "json list"
  | JObject "(string \<times> json) list"

definition as_i64 :: "json \<Rightarrow> i64 option" where
  "as_i64 v = (case v of
     JNumber (JPosInt n) \<Rightarrow> if int n \<le> i64_max then Some (word_of_nat n) else None
   | JNumber (JNegInt n) \<Rightarrow> Some (word_of_int n)
   | _ \<Rightarrow> None)"

definition as_u64 :: "json \<Rightarrow> nat option" where
  "as_u64 v = (case v of JNumber (JPosInt n) \<Rightarrow> Some n | _ \<Rightarrow> None)"

definition as_f64 :: "json \<Rightarrow> f64 option" where
  "as_f64 v = (case v of
     JNumber (JPosInt n) \<Rightarrow> Some (of_int64 (int n))
   | JNumber (JNegInt n) \<Rightarrow> Some (of_int64 n)
   | JNumber (JFloat f) \<Rightarrow> Some f
   | _ \<Rightarrow> None)"

text \<open>Documents made from values: an integer, a float (null when not finite), an object whose repeated
  name keeps its place and takes the later value.\<close>

definition json_of_i64 :: "i64 \<Rightarrow> json" where
  "json_of_i64 i = JNumber (if sint i < 0 then JNegInt (sint i) else JPosInt (nat (sint i)))"

definition json_of_f64 :: "f64 \<Rightarrow> json" where
  "json_of_f64 f = (if is_finite f then JNumber (JFloat f) else JNull)"

definition build_object :: "(string \<times> json) list \<Rightarrow> (string \<times> json) list" where
  "build_object kvs = fold (\<lambda>(k, v). AList.update k v) kvs []"

lemma as_i64_json_of_i64 [simp]: "as_i64 (json_of_i64 i) = Some i"
proof (cases "sint i < 0")
  case False
  then have "sint i \<le> i64_max" using sint_range [of i] by (simp add: in_i64_def)
  with False show ?thesis by (simp add: json_of_i64_def as_i64_def)
qed (simp add: json_of_i64_def as_i64_def)

lemma json_of_i64_not_null [simp]: "json_of_i64 i \<noteq> JNull"
  by (simp add: json_of_i64_def)

lemma build_object_lookup:
  assumes "distinct ns" "length vs = length ns" "i < length ns"
  shows "map_of (build_object (zip ns vs)) (ns ! i) = Some (vs ! i)"
proof -
  have "map_of (fold (\<lambda>(k, v). AList.update k v) kvs m) = map_of m ++ map_of (rev kvs)" for kvs m :: "(string \<times> json) list"
    by (induction kvs arbitrary: m) (auto simp: update_conv' map_add_upd_left fun_eq_iff map_add_def split: option.split)
  then have "map_of (build_object (zip ns vs)) = map_of (rev (zip ns vs))" by (simp add: build_object_def)
  moreover have "distinct (map fst (rev (zip ns vs)))" using assms(1,2) by (simp add: rev_map [symmetric])
  ultimately show ?thesis using assms by (auto intro!: map_of_is_SomeI simp: in_set_zip)
qed

subsection \<open>Values\<close>

definition convert_json_value :: "(json \<Rightarrow> string) \<Rightarrow> nat \<Rightarrow> string \<Rightarrow> data_type \<Rightarrow> json \<Rightarrow> value_t result" where
  "convert_json_value jtext row col_name dt v =
     (let fail = (\<lambda>m. Err (ParseError row col_name (RawText (jtext v)) m)) in
      if v = JNull then Ok Null
      else case dt of
        TUtf8 \<Rightarrow> (case v of JString s \<Rightarrow> Ok (Utf8 s) | _ \<Rightarrow> fail ''expected string'')
      | TBool \<Rightarrow> (case v of JBool b \<Rightarrow> Ok (Bool b) | _ \<Rightarrow> fail ''expected bool'')
      | TInt64 \<Rightarrow> (case as_i64 v of
          Some n \<Rightarrow> Ok (Int64 n)
        | None \<Rightarrow> (case as_u64 v of
            Some n \<Rightarrow> if int n \<le> i64_max then Ok (Int64 (word_of_nat n)) else fail ''u64 out of range for i64''
          | None \<Rightarrow> fail ''expected integer number''))
      | TFloat64 \<Rightarrow> (case as_f64 v of Some f \<Rightarrow> Ok (Float64 f) | None \<Rightarrow> fail ''expected number''))"

text \<open>Descending through objects along the segments after the first.\<close>

fun descend :: "json \<Rightarrow> string list \<Rightarrow> json option" where
  "descend current [] = Some current"
| "descend current (seg # segs) =
     (case current of
        JObject m \<Rightarrow> Option.bind (map_of m seg) (\<lambda>v. descend v segs)
      | _ \<Rightarrow> None)"

definition get_by_dot_path :: "(string \<times> json) list \<Rightarrow> string \<Rightarrow> json option" where
  "get_by_dot_path root path =
     Option.bind (map_of root (hd (split_on (CHR ''.'') path))) (\<lambda>current.
       if \<not> contains_char (CHR ''.'') path then Some current
       else descend current (tl (split_on (CHR ''.'') path)))"

definition row_label :: "nat \<Rightarrow> string" where
  "row_label n = ''row '' @ show_nat n"

definition json_cell :: "(json \<Rightarrow> string) \<Rightarrow> nat \<Rightarrow> (string \<times> json) list \<Rightarrow> field \<Rightarrow> value_t result" where
  "json_cell jtext row_num obj f =
     rbind (ok_or (SchemaMismatch (row_label row_num @ '' missing required field '' @ sq (fname f)))
              (get_by_dot_path obj (fname f)))
       (convert_json_value jtext row_num (fname f) (ftype f))"

definition json_row :: "(json \<Rightarrow> string) \<Rightarrow> schema \<Rightarrow> nat \<times> json \<Rightarrow> row result" where
  "json_row jtext s = (\<lambda>(idx0, v).
     (case v of
        JObject obj \<Rightarrow> traverse (json_cell jtext (idx0 + 1) obj) (sfields s)
      | _ \<Rightarrow> Err (SchemaMismatch (row_label (idx0 + 1) @ '' is not a json object''))))"

definition ingest_json_values :: "(json \<Rightarrow> string) \<Rightarrow> json list \<Rightarrow> schema \<Rightarrow> data_set result" where
  "ingest_json_values jtext vs s = rmap (data_set_new s) (traverse (json_row jtext s) (enumerate 0 vs))"

subsection \<open>Text\<close>

text \<open>\<open>str::lines\<close>: no final empty line, a carriage return before the line feed dropped.\<close>

definition strip_cr :: "string \<Rightarrow> string" where
  "strip_cr l = (if l \<noteq> [] \<and> last l = CHR 0x0D then butlast l else l)"

definition str_lines :: "string \<Rightarrow> string list" where
  "str_lines s =
     (let ls = split_on (CHR 0x0A) s in
      map strip_cr (butlast ls) @ (if last ls = [] then [] else [last ls]))"

text \<open>The NDJSON loop; a line is numbered among all lines, blank ones included.\<close>

fun ndjson_values :: "(string \<Rightarrow> string + json) \<Rightarrow> nat \<Rightarrow> string list \<Rightarrow> json list result" where
  "ndjson_values parse_json i [] = Ok []"
| "ndjson_values parse_json i (l # ls) =
     (let line = trim l in
      if line = [] then ndjson_values parse_json (i + 1) ls
      else case parse_json line of
        Inl e \<Rightarrow> Err (SchemaMismatch (''invalid ndjson at line '' @ show_nat (i + 1) @ '': '' @ e))
      | Inr v \<Rightarrow> rmap (Cons v) (ndjson_values parse_json (i + 1) ls))"

definition ingest_json_from_str ::
  "(json \<Rightarrow> string) \<Rightarrow> (string \<Rightarrow> string + json) \<Rightarrow> string \<Rightarrow> schema \<Rightarrow> data_set result" where
  "ingest_json_from_str jtext parse_json input s =
     (let trimmed = trim input in
      if trimmed = [] then Err (SchemaMismatch ''json input is empty'')
      else case parse_json trimmed of
        Inr v \<Rightarrow> (case v of
            JArray items \<Rightarrow> ingest_json_values jtext items s
          | JObject _ \<Rightarrow> ingest_json_values jtext [v] s
          | _ \<Rightarrow> Err (SchemaMismatch ''json must be an object, an array of objects, or NDJSON''))
      | Inl _ \<Rightarrow> rbind (ndjson_values parse_json 0 (str_lines trimmed)) (\<lambda>vs. ingest_json_values jtext vs s))"

subsection \<open>Files\<close>

datatype pexpr = PCol string | PField pexpr string | PAlias pexpr string

definition expr_for_dot_path :: "string \<Rightarrow> pexpr" where
  "expr_for_dot_path path =
     (case split_on (CHR ''.'') path of
        [] \<Rightarrow> PAlias (PCol path) path
      | root # segs \<Rightarrow> PAlias (foldl PField (PCol root) segs) path)"

definition json_polars_error :: "string \<Rightarrow> polars_error \<Rightarrow> ingestion_error" where
  "json_polars_error action e =
     (case e of
        PeColumnNotFound n \<Rightarrow> SchemaMismatch (''missing required field '' @ sq n)
      | other \<Rightarrow> polars_error_to_ingestion action other)"

definition json_try :: "string \<Rightarrow> polars_error + 'a \<Rightarrow> 'a result" where
  "json_try action r = (case r of Inl e \<Rightarrow> Err (json_polars_error action e) | Inr x \<Rightarrow> Ok x)"

datatype json_format = JsonLines | JsonDoc

text \<open>
  \<open>ext\<close> is the path's extension (empty without one), \<open>read\<close> what the file yields in a format: an
  error opening it, or what the JSON reader makes of it; \<open>project df derived names\<close> is
  \<open>df.lazy().with_columns(derived).select(names).collect()\<close>, without the first call when
  \<open>derived\<close> is empty.
\<close>

definition ingest_json_from_path ::
  "polars \<Rightarrow> (frame \<Rightarrow> pexpr list \<Rightarrow> string list \<Rightarrow> polars_error + frame) \<Rightarrow>
   string \<Rightarrow> (json_format \<Rightarrow> string + (polars_error + frame)) \<Rightarrow> schema \<Rightarrow> data_set result" where
  "ingest_json_from_path P project ext read s =
     (let fmt = (if eq_ignore_ascii_case ext ''ndjson'' then JsonLines else JsonDoc) in
      case read fmt of
        Inl e \<Rightarrow> Err (IoErr e)
      | Inr r \<Rightarrow> rbind (json_try ''failed to read json with polars'' r) (\<lambda>df.
          case find (\<lambda>f. \<not> contains_char (CHR ''.'') (fname f) \<and> column df (fname f) = None) (sfields s) of
            Some f \<Rightarrow> Err (SchemaMismatch (''missing required field '' @ sq (fname f)))
          | None \<Rightarrow>
              (let derived = map (expr_for_dot_path \<circ> fname) (filter (\<lambda>f. contains_char (CHR ''.'') (fname f)) (sfields s)) in
               rbind (json_try ''failed to project json fields'' (project df derived (field_names s))) (\<lambda>projected.
               dataframe_to_dataset P projected s ''field'' 1))))"

subsection \<open>What the conversion yields\<close>

lemma convert_json_value_type: "convert_json_value jtext row c t v = Ok x \<Longrightarrow> has_type x t"
  by (auto simp: convert_json_value_def Let_def split: if_splits data_type.splits json.splits option.splits)

lemma json_row_wf: "json_row jtext s (i, v) = Ok r \<Longrightarrow> wf_row s r"
  by (auto simp: json_row_def json_cell_def result_simps split: json.splits
      intro!: wf_row_traverse dest: convert_json_value_type)

lemma split_on_no_sep: "c \<notin> set s \<Longrightarrow> split_on c s = [s]"
  by (induction s) auto

text \<open>A path lookup is one descent from the root, dots or not.\<close>

lemma get_by_dot_path_descend:
  "get_by_dot_path root path = descend (JObject root) (split_on (CHR ''.'') path)"
proof (cases "CHR ''.'' \<in> set path")
  case True
  then show ?thesis
    by (cases "split_on (CHR ''.'') path") (auto simp: get_by_dot_path_def contains_char_def)
next
  case False
  then show ?thesis
    by (simp add: get_by_dot_path_def contains_char_def split_on_no_sep)
qed

text \<open>
  What a cell keeps of the document's value: the same integer, the same text, the same truth value;
  a number of any representation as a float; null as null.
\<close>

fun json_same :: "json \<Rightarrow> value_t \<Rightarrow> bool" where
  "json_same v Null \<longleftrightarrow> v = JNull"
| "json_same v (Bool b) \<longleftrightarrow> v = JBool b"
| "json_same v (Utf8 t) \<longleftrightarrow> v = JString t"
| "json_same v (Float64 f) \<longleftrightarrow> as_f64 v = Some f"
| "json_same v (Int64 n) \<longleftrightarrow> v = JNumber (JPosInt (nat (sint n))) \<and> 0 \<le> sint n \<or> (\<exists>k. v = JNumber (JNegInt k) \<and> n = word_of_int k)"

text \<open>The values that fit a column: integers of the 64-bit range, numbers, strings, booleans, null.\<close>

definition json_fits :: "data_type \<Rightarrow> json \<Rightarrow> bool" where
  "json_fits t v \<longleftrightarrow> v = JNull \<or>
     (case t of
        TUtf8 \<Rightarrow> (case v of JString _ \<Rightarrow> True | _ \<Rightarrow> False)
      | TBool \<Rightarrow> (case v of JBool _ \<Rightarrow> True | _ \<Rightarrow> False)
      | TInt64 \<Rightarrow> (case v of JNumber (JPosInt n) \<Rightarrow> int n \<le> i64_max | JNumber (JNegInt _) \<Rightarrow> True | _ \<Rightarrow> False)
      | TFloat64 \<Rightarrow> (case v of JNumber _ \<Rightarrow> True | _ \<Rightarrow> False))"

lemma as_i64_same: "as_i64 v = Some n \<Longrightarrow> json_same v (Int64 n)"
  using sint_of_int [of "int k" for k]
  by (auto simp: as_i64_def in_i64_def i64_min_def split: json.splits json_num.splits if_splits)

lemma as_u64_in_range: "as_u64 v = Some n \<Longrightarrow> int n \<le> i64_max \<Longrightarrow> as_i64 v = Some (word_of_nat n)"
  by (auto simp: as_i64_def as_u64_def split: json.splits json_num.splits)

lemma convert_json_value_same: "convert_json_value jtext row c t v = Ok x \<Longrightarrow> json_same v x"
  using as_i64_same [of v] as_u64_in_range [of v]
  by (auto simp: convert_json_value_def Let_def split: if_splits data_type.splits json.splits option.splits)

lemma convert_json_value_fits: "is_ok (convert_json_value jtext row c t v) \<longleftrightarrow> json_fits t v"
  by (auto simp: convert_json_value_def Let_def json_fits_def as_i64_def as_u64_def as_f64_def
      split: data_type.splits json.splits json_num.splits option.splits)

definition json_field :: "json \<Rightarrow> field \<Rightarrow> json option" where
  "json_field v f = (case v of JObject _ \<Rightarrow> descend v (split_on (CHR ''.'') (fname f)) | _ \<Rightarrow> None)"

definition json_accepts :: "schema \<Rightarrow> json \<Rightarrow> bool" where
  "json_accepts s v \<longleftrightarrow> (case v of JObject _ \<Rightarrow> True | _ \<Rightarrow> False) \<and>
     list_all (\<lambda>f. case json_field v f of Some w \<Rightarrow> json_fits (ftype f) w | None \<Rightarrow> False) (sfields s)"

lemma json_row_is_ok: "is_ok (json_row jtext s (i, v)) \<longleftrightarrow> json_accepts s v"
proof (cases "\<exists>obj. v = JObject obj")
  case True
  then obtain obj where v: "v = JObject obj" by blast
  have "is_ok (json_cell jtext (i + 1) obj f) \<longleftrightarrow>
      (case json_field v f of Some w \<Rightarrow> json_fits (ftype f) w | None \<Rightarrow> False)" for f
    by (cases "descend (JObject obj) (split_on (CHR ''.'') (fname f))")
       (auto simp: v json_cell_def json_field_def get_by_dot_path_descend convert_json_value_fits)
  then show ?thesis by (simp add: v json_row_def json_accepts_def traverse_is_ok list_all_iff)
next
  case False
  then show ?thesis by (auto simp: json_row_def json_accepts_def split: json.split)
qed

lemma json_row_cell:
  assumes "json_row jtext s (i, v) = Ok r" "j < length (sfields s)"
  shows "\<exists>w. json_field v (sfields s ! j) = Some w \<and> json_same w (r ! j)"
proof -
  obtain obj where v: "v = JObject obj" "traverse (json_cell jtext (i + 1) obj) (sfields s) = Ok r"
    using assms(1) by (auto simp: json_row_def split: json.splits)
  from traverse_nth [OF v(2) assms(2)] show ?thesis
    by (auto simp: v(1) json_cell_def json_field_def result_simps get_by_dot_path_descend dest: convert_json_value_same)
qed

text \<open>The line loop as one search for the first line that does not parse.\<close>

definition bad_line :: "(string \<Rightarrow> string + json) \<Rightarrow> string \<Rightarrow> bool" where
  "bad_line parse_json l \<longleftrightarrow> trim l \<noteq> [] \<and> \<not> is_ok (parse_json (trim l))"

lemma ndjson_values_spec:
  "ndjson_values parse_json n ls =
    (case position (bad_line parse_json) ls of
       None \<Rightarrow> Ok (map (projr \<circ> parse_json) (filter (\<lambda>l. l \<noteq> []) (map trim ls)))
     | Some i \<Rightarrow> Err (SchemaMismatch (''invalid ndjson at line '' @ show_nat (n + i + 1) @ '': '' @ projl (parse_json (trim (ls ! i))))))"
proof (induction parse_json n ls rule: ndjson_values.induct)
  case (2 parse_json n l ls)
  then show ?case
    by (cases "parse_json (trim l)") (auto simp: Let_def bad_line_def split: option.splits)
qed simp

subsection \<open>Properties\<close>

text \<open>C16: JSON ingestion succeeds exactly when every element is an object in which every field's dot
  path leads to a value that fits the field's type; the dataset then has one well-typed row per
  element, in order, and no cell changes its value: integers beyond the 64-bit range are refused.\<close>

theorem json_values_exact:
  "case ingest_json_values jtext vs s of
     Inl e \<Rightarrow> \<exists>v\<in>set vs. \<not> json_accepts s v
   | Inr ds \<Rightarrow> ds_schema ds = s \<and> length (rows ds) = length vs \<and> wf_ds ds \<and> list_all (json_accepts s) vs \<and>
       list_all2 (\<lambda>v r. list_all2 (\<lambda>f x. \<exists>w. json_field v f = Some w \<and> json_same w x) (sfields s) r) vs (rows ds)"
proof (cases "ingest_json_values jtext vs s")
  case (Inl e)
  then have "\<not> is_ok (traverse (json_row jtext s) (enumerate 0 vs))"
    by (simp add: ingest_json_values_def result_simps)
  with Inl show ?thesis by (auto simp: traverse_enumerate_is_ok json_row_is_ok intro: nth_mem)
next
  case (Inr ds)
  then obtain rs where rs: "traverse (json_row jtext s) (enumerate 0 vs) = Ok rs" "ds = data_set_new s rs"
    by (auto simp: ingest_json_values_def result_simps)
  have len: "length rs = length vs" using traverse_length [OF rs(1)] by simp
  have row: "json_row jtext s (i, vs ! i) = Ok (rs ! i)" if "i < length vs" for i
    using traverse_nth [OF rs(1), of i] that by (simp add: nth_enumerate_eq)
  have "is_ok (json_row jtext s (i, vs ! i))" if "i < length vs" for i using row [OF that] by simp
  then have acc: "json_accepts s (vs ! i)" if "i < length vs" for i using that json_row_is_ok by blast
  have "list_all2 (\<lambda>f x. \<exists>w. json_field (vs ! i) f = Some w \<and> json_same w x) (sfields s) (rs ! i)" if "i < length vs" for i
    using json_row_cell [OF row [OF that]] wf_row_length [OF json_row_wf [OF row [OF that]]]
    by (simp add: list_all2_conv_all_nth)
  moreover have "\<forall>r\<in>set rs. wf_row s r"
    using json_row_wf [OF row] len by (auto simp: in_set_conv_nth)
  ultimately show ?thesis
    using len acc by (simp add: Inr rs(2) list_all2_conv_all_nth list_all_length)
qed

text \<open>A text that is no single document is read line by line: when every line that is not blank
  parses, the result is that of the array of the lines' values; otherwise the error names the number
  of the first line that does not parse, blank lines counted.\<close>

theorem ndjson_is_array:
  assumes "trim input \<noteq> []" "parse_json (trim input) = Inl e"
  shows "ingest_json_from_str jtext parse_json input s =
    (let lines = str_lines (trim input) in
     case position (bad_line parse_json) lines of
       None \<Rightarrow> ingest_json_values jtext (map (projr \<circ> parse_json) (filter (\<lambda>l. l \<noteq> []) (map trim lines))) s
     | Some i \<Rightarrow> Err (SchemaMismatch (''invalid ndjson at line '' @ show_nat (i + 1) @ '': '' @ projl (parse_json (trim (lines ! i))))))"
  using assms by (simp add: ingest_json_from_str_def Let_def ndjson_values_spec split: option.split)

subsection \<open>Witnesses\<close>

lemma ndjson_is_array_witness:
  "ingest_json_from_str (\<lambda>_. []) (\<lambda>t. if t = ''{}'' then Inr (JObject [(''a'', JNull)]) else Inl ''bad'') [CHR ''{'', CHR ''}'', CHR 0x0A, CHR 0x0A, CHR ''x''] (schema_new []) =
     Err (SchemaMismatch ''invalid ndjson at line 3: bad'') \<and>
   ingest_json_from_str (\<lambda>_. []) (\<lambda>t. if t = ''{}'' then Inr (JObject [(''a'', JNull)]) else Inl ''bad'') [CHR ''{'', CHR ''}'', CHR 0x0A, CHR ''{'', CHR ''}''] (schema_new [mk_field ''a'' TUtf8]) =
     Ok (data_set_new (schema_new [mk_field ''a'' TUtf8]) [[Null], [Null]])"
proof (rule conjI)
  let ?p = "\<lambda>t. if t = ''{}'' then Inr (JObject [(''a'', JNull)]) else Inl ''bad''"
  have 1: "trim [CHR ''{'', CHR ''}'', CHR 0x0A, CHR 0x0A, CHR ''x''] = [CHR ''{'', CHR ''}'', CHR 0x0A, CHR 0x0A, CHR ''x'']" by code_simp
  show "ingest_json_from_str (\<lambda>_. []) ?p [CHR ''{'', CHR ''}'', CHR 0x0A, CHR 0x0A, CHR ''x''] (schema_new []) =
     Err (SchemaMismatch ''invalid ndjson at line 3: bad'')"
    by (subst ndjson_is_array [where e = "''bad''"]; code_simp)
  show "ingest_json_from_str (\<lambda>_. []) ?p [CHR ''{'', CHR ''}'', CHR 0x0A, CHR ''{'', CHR ''}''] (schema_new [mk_field ''a'' TUtf8]) =
     Ok (data_set_new (schema_new [mk_field ''a'' TUtf8]) [[Null], [Null]])"
    by (subst ndjson_is_array [where e = "''bad''"]; code_simp)
qed

end
