(* ===== verification/Kafka.thy ===== *)
theory Kafka
  imports Json
begin

text \<open>
  Streaming load (\<open>src/kafka\<close>): records and builders, the bounded poll window of the consumer, the
  load of records into a landing dataset, and the export of a dataset as messages. The broker
  client is a parameter: what each poll returns and when, a producer state with \<open>send\<close> and
  \<open>flush\<close>; \<open>parse_json\<close> and \<open>jtext\<close> are the JSON library.
\<close>

subsection \<open>Records\<close>

record kafka_header =
  kh_name :: string
  kh_value :: string

record kafka_record =
  kr_topic :: string
  kr_partition :: "32 word"
  kr_offset :: i64
  kr_timestamp_ms :: "i64 option"
  kr_key :: "string option"
  kr_value :: string
  kr_headers :: "kafka_header list"

definition value_bytes :: "kafka_record \<Rightarrow> string" where
  "value_bytes r = kr_value r"

definition key_bytes :: "kafka_record \<Rightarrow> string option" where
  "key_bytes r = kr_key r"

subsection \<open>Builders\<close>

record consumer_builder =
  cb_brokers :: string
  cb_group_id :: string
  cb_topic :: string
  cb_auto_offset_reset :: string
  cb_session_timeout_ms :: "32 word option"

definition consumer_new :: "string \<Rightarrow> string \<Rightarrow> string \<Rightarrow> consumer_builder" where
  "consumer_new brokers group_id topic = \<lparr>cb_brokers = brokers, cb_group_id = group_id, cb_topic = topic,
     cb_auto_offset_reset = ''earliest'', cb_session_timeout_ms = None\<rparr>"

definition with_auto_offset_reset :: "string \<Rightarrow> consumer_builder \<Rightarrow> consumer_builder" where
  "with_auto_offset_reset v b = b\<lparr>cb_auto_offset_reset := v\<rparr>"

definition with_session_timeout_ms :: "32 word \<Rightarrow> consumer_builder \<Rightarrow> consumer_builder" where
  "with_session_timeout_ms ms b = b\<lparr>cb_session_timeout_ms := Some ms\<rparr>"

definition consumer_validate :: "consumer_builder \<Rightarrow> unit result" where
  "consumer_validate b =
     (if trim (cb_brokers b) = [] then Err (SchemaMismatch ''kafka brokers must not be empty'')
      else if trim (cb_group_id b) = [] then Err (SchemaMismatch ''kafka group_id must not be empty'')
      else if trim (cb_topic b) = [] then Err (SchemaMismatch ''kafka topic must not be empty'')
      else Ok ())"

record producer_builder =
  pb_brokers :: string
  pb_topic :: string
  pb_message_timeout_ms :: "64 word"
  pb_key_column :: "string option"
  pb_value_column :: "string option"
  pb_headers :: "(string \<times> string) list"

definition producer_new :: "string \<Rightarrow> string \<Rightarrow> producer_builder" where
  "producer_new brokers topic = \<lparr>pb_brokers = brokers, pb_topic = topic, pb_message_timeout_ms = 5000,
     pb_key_column = None, pb_value_column = None, pb_headers = []\<rparr>"

definition with_message_timeout_ms :: "64 word \<Rightarrow> producer_builder \<Rightarrow> producer_builder" where
  "with_message_timeout_ms ms b = b\<lparr>pb_message_timeout_ms := ms\<rparr>"

definition with_key_column :: "string \<Rightarrow> producer_builder \<Rightarrow> producer_builder" where
  "with_key_column c b = b\<lparr>pb_key_column := Some c\<rparr>"

definition with_value_column :: "string \<Rightarrow> producer_builder \<Rightarrow> producer_builder" where
  "with_value_column c b = b\<lparr>pb_value_column := Some c\<rparr>"

definition with_header :: "string \<Rightarrow> string \<Rightarrow> producer_builder \<Rightarrow> producer_builder" where
  "with_header n v b = b\<lparr>pb_headers := pb_headers b @ [(n, v)]\<rparr>"

definition producer_validate :: "producer_builder \<Rightarrow> unit result" where
  "producer_validate b =
     (if trim (pb_brokers b) = [] then Err (SchemaMismatch ''kafka brokers must not be empty'')
      else if trim (pb_topic b) = [] then Err (SchemaMismatch ''kafka topic must not be empty'')
      else Ok ())"

subsection \<open>The poll window\<close>

record raw_message =
  rm_topic :: string
  rm_partition :: "32 word"
  rm_offset :: i64
  rm_timestamp_ms :: "i64 option"
  rm_key :: "string option"
  rm_payload :: "string option"
  rm_headers :: "(string \<times> string option) list option"

definition record_of_message :: "raw_message \<Rightarrow> kafka_record" where
  "record_of_message m = \<lparr>kr_topic = rm_topic m, kr_partition = rm_partition m, kr_offset = rm_offset m,
     kr_timestamp_ms = rm_timestamp_ms m, kr_key = map_option from_utf8_lossy (rm_key m),
     kr_value = from_utf8_lossy (case rm_payload m of Some p \<Rightarrow> p | None \<Rightarrow> []),
     kr_headers = (case rm_headers m of
         Some hs \<Rightarrow> map (\<lambda>(n, v). \<lparr>kh_name = n, kh_value = (case v of Some b \<Rightarrow> from_utf8_lossy b | None \<Rightarrow> [])\<rparr>) hs
       | None \<Rightarrow> [])\<rparr>"

datatype poll = PMessage raw_message | PError err_src | PNothing

text \<open>
  The loop over what happens: each turn first reads the clock (milliseconds since the start), then
  polls. \<open>None\<close> is a loop still running when the observations end.
\<close>

fun poll_loop :: "nat \<Rightarrow> kafka_record list \<Rightarrow> (nat \<times> poll) list \<Rightarrow> kafka_record list result option" where
  "poll_loop max_records out turns =
     (if max_records \<le> length out then Some (Ok out)
      else case turns of
        [] \<Rightarrow> None
      | (now, p) # rest \<Rightarrow>
          if 15000 \<le> now then Some (Ok out)
          else (case p of
              PMessage m \<Rightarrow> poll_loop max_records (out @ [record_of_message m]) rest
            | PError e \<Rightarrow> Some (Err (EngineErr ''kafka consumer poll failed'' e))
            | PNothing \<Rightarrow> poll_loop max_records out rest))"

declare poll_loop.simps [simp del]

definition poll_window :: "nat \<Rightarrow> (nat \<times> poll) list \<Rightarrow> kafka_record list result option" where
  "poll_window max_records turns = (if max_records = 0 then Some (Ok []) else poll_loop max_records [] turns)"

subsection \<open>Load\<close>

definition is_metadata :: "field \<Rightarrow> bool" where
  "is_metadata f = starts_with ''_kafka_'' (fname f)"

definition schema_non_metadata_fields :: "schema \<Rightarrow> field list" where
  "schema_non_metadata_fields s = filter (\<lambda>f. \<not> is_metadata f) (sfields s)"

definition kafka_metadata_value :: "kafka_record \<Rightarrow> string \<Rightarrow> value_t result" where
  "kafka_metadata_value r n =
     (if n = ''_kafka_topic'' then Ok (Utf8 (kr_topic r))
      else if n = ''_kafka_partition'' then Ok (Int64 (scast (kr_partition r)))
      else if n = ''_kafka_offset'' then Ok (Int64 (kr_offset r))
      else if n = ''_kafka_timestamp_ms'' then Ok (case kr_timestamp_ms r of Some t \<Rightarrow> Int64 t | None \<Rightarrow> Null)
      else if n = ''_kafka_key'' then Ok (case kr_key r of Some k \<Rightarrow> Utf8 k | None \<Rightarrow> Null)
      else Err (SchemaMismatch (''unknown kafka metadata column '' @ sq n)))"

definition string_to_value :: "string \<Rightarrow> data_type \<Rightarrow> value_t result" where
  "string_to_value t dt =
     (case dt of
        TUtf8 \<Rightarrow> Ok (Utf8 t)
      | TInt64 \<Rightarrow> (case parse_i64 t of Inr i \<Rightarrow> Ok (Int64 i)
          | Inl e \<Rightarrow> Err (SchemaMismatch (''kafka value int64 cast failed: '' @ int_err_text e)))
      | TFloat64 \<Rightarrow> (case parse_f64 t of Inr f \<Rightarrow> Ok (Float64 f)
          | Inl e \<Rightarrow> Err (SchemaMismatch (''kafka value float64 cast failed: '' @ float_err_text e)))
      | TBool \<Rightarrow> (case parse_bool_std t of Some b \<Rightarrow> Ok (Bool b)
          | None \<Rightarrow> Err (SchemaMismatch
              (''kafka value bool cast failed: '' @ ''provided string was not `true` or `false`''))))"

definition json_field_to_value :: "(json \<Rightarrow> string) \<Rightarrow> json option \<Rightarrow> data_type \<Rightarrow> value_t result" where
  "json_field_to_value jtext v dt =
     (case v of
        None \<Rightarrow> Ok Null
      | Some JNull \<Rightarrow> Ok Null
      | Some w \<Rightarrow>
          (case (w, dt) of
             (JNumber n, TInt64) \<Rightarrow>
               (case as_i64 w of Some i \<Rightarrow> Ok (Int64 i)
                | None \<Rightarrow> Err (SchemaMismatch ''expected i64 in kafka value JSON''))
           | (JNumber n, TFloat64) \<Rightarrow> Ok (Float64 (case as_f64 w of Some f \<Rightarrow> f | None \<Rightarrow> nan))
           | (JBool b, TBool) \<Rightarrow> Ok (Bool b)
           | (JString t, _) \<Rightarrow> string_to_value t dt
           | _ \<Rightarrow> string_to_value (jtext w) dt))"

definition record_to_row ::
  "(json \<Rightarrow> string) \<Rightarrow> (string \<Rightarrow> string + json) \<Rightarrow> kafka_record \<Rightarrow> schema \<Rightarrow> row result" where
  "record_to_row jtext parse_json r s =
     (let value_json = (case parse_json (kr_value r) of Inr v \<Rightarrow> Some v | Inl _ \<Rightarrow> None);
          non_meta = schema_non_metadata_fields s in
      traverse (\<lambda>f.
        if is_metadata f then kafka_metadata_value r (fname f)
        else case value_json of
          Some (JObject obj) \<Rightarrow> json_field_to_value jtext (map_of obj (fname f)) (ftype f)
        | _ \<Rightarrow> if length non_meta = 1 \<and> fname (non_meta ! 0) = fname f
               then string_to_value (kr_value r) (ftype f)
               else Ok Null) (sfields s))"

definition elt_load_kafka_records ::
  "(json \<Rightarrow> string) \<Rightarrow> (string \<Rightarrow> string + json) \<Rightarrow> kafka_record list \<Rightarrow> schema \<Rightarrow> data_set result" where
  "elt_load_kafka_records jtext parse_json records s =
     rmap (data_set_new s) (traverse (\<lambda>r. record_to_row jtext parse_json r s) records)"

text \<open>\<open>envelope\<close> and \<open>bare\<close> deserialize the two accepted documents.\<close>

definition elt_load_kafka_records_json ::
  "(json \<Rightarrow> string) \<Rightarrow> (string \<Rightarrow> string + json) \<Rightarrow> (string \<Rightarrow> kafka_record list option) \<Rightarrow>
   (string \<Rightarrow> string + kafka_record list) \<Rightarrow> string \<Rightarrow> schema \<Rightarrow> data_set result" where
  "elt_load_kafka_records_json jtext parse_json envelope bare txt_in s =
     rbind (case envelope txt_in of
         Some rs \<Rightarrow> Ok rs
       | None \<Rightarrow> (case bare txt_in of
           Inr rs \<Rightarrow> Ok rs
         | Inl e \<Rightarrow> Err (SchemaMismatch (''invalid kafka stream record JSON: '' @ e))))
       (\<lambda>rs. elt_load_kafka_records jtext parse_json rs s)"

subsection \<open>Consumption\<close>

text \<open>\<open>client\<close> creates and subscribes a consumer: an error, or what its polls return.\<close>

definition consumer_build ::
  "(consumer_builder \<Rightarrow> err_src option) \<Rightarrow> (consumer_builder \<Rightarrow> err_src + (nat \<times> poll) list) \<Rightarrow>
   consumer_builder \<Rightarrow> (nat \<times> poll) list result" where
  "consumer_build create subscribe b =
     rbind (consumer_validate b) (\<lambda>_.
       case create b of
         Some e \<Rightarrow> Err (EngineErr ''failed to create kafka consumer'' e)
       | None \<Rightarrow> (case subscribe b of
           Inl e \<Rightarrow> Err (EngineErr (''kafka subscribe to topic '' @ sq (cb_topic b) @ '' failed'') e)
         | Inr turns \<Rightarrow> Ok turns))"

definition poll_kafka_window ::
  "(consumer_builder \<Rightarrow> err_src option) \<Rightarrow> (consumer_builder \<Rightarrow> err_src + (nat \<times> poll) list) \<Rightarrow>
   consumer_builder \<Rightarrow> nat \<Rightarrow> kafka_record list result option" where
  "poll_kafka_window create subscribe b max_records =
     (case consumer_build create subscribe b of
        Inl e \<Rightarrow> Some (Inl e)
      | Inr turns \<Rightarrow> poll_window max_records turns)"

definition poll_kafka_window_loaded ::
  "(json \<Rightarrow> string) \<Rightarrow> (string \<Rightarrow> string + json) \<Rightarrow> (consumer_builder \<Rightarrow> err_src option) \<Rightarrow>
   (consumer_builder \<Rightarrow> err_src + (nat \<times> poll) list) \<Rightarrow> consumer_builder \<Rightarrow> schema \<Rightarrow> nat \<Rightarrow> data_set result option" where
  "poll_kafka_window_loaded jtext parse_json create subscribe b s max_records =
     map_option (\<lambda>r. rbind r (\<lambda>rs. elt_load_kafka_records jtext parse_json rs s))
       (poll_kafka_window create subscribe b max_records)"

subsection \<open>Export\<close>

definition value_to_json :: "value_t \<Rightarrow> json" where
  "value_to_json v =
     (case v of
        Null \<Rightarrow> JNull
      | Bool b \<Rightarrow> JBool b
      | Int64 i \<Rightarrow> json_of_i64 i
      | Float64 f \<Rightarrow> json_of_f64 f
      | Utf8 t \<Rightarrow> JString t)"

definition value_to_string :: "(f64 \<Rightarrow> string) \<Rightarrow> value_t \<Rightarrow> string option" where
  "value_to_string show_f64 v =
     (case v of
        Utf8 t \<Rightarrow> Some t
      | Int64 i \<Rightarrow> Some (show_i64 i)
      | Float64 f \<Rightarrow> Some (show_f64 f)
      | Bool b \<Rightarrow> Some (show_bool b)
      | Null \<Rightarrow> None)"

text \<open>The object of a row; a repeated name keeps its place and takes the later value.\<close>

definition row_object :: "schema \<Rightarrow> row \<Rightarrow> (string \<times> json) list" where
  "row_object s r = build_object (zip (field_names s) (map value_to_json r))"

definition row_payload ::
  "(json \<Rightarrow> string) \<Rightarrow> (f64 \<Rightarrow> string) \<Rightarrow> schema \<Rightarrow> row \<Rightarrow> string option \<Rightarrow> string result" where
  "row_payload jtext show_f64 s r value_column =
     (case value_column of
        Some c \<Rightarrow>
          rbind (ok_or (SchemaMismatch (''kafka value_column '' @ sq c @ '' not in schema'')) (index_of s c)) (\<lambda>idx.
          rbind (index r idx) (\<lambda>v.
          ok_or (SchemaMismatch (''kafka value_column '' @ sq c @ '' is null'')) (value_to_string show_f64 v)))
      | None \<Rightarrow> Ok (jtext (JObject (row_object s r))))"

record kafka_message =
  km_topic :: string
  km_key :: string
  km_payload :: string
  km_headers :: "(string \<times> string) list"

definition row_key :: "(f64 \<Rightarrow> string) \<Rightarrow> schema \<Rightarrow> string option \<Rightarrow> nat \<Rightarrow> row \<Rightarrow> string result" where
  "row_key show_f64 s key_column idx r =
     (case Option.bind key_column (index_of s) of
        None \<Rightarrow> Ok (show_nat idx)
      | Some i \<Rightarrow> rmap (\<lambda>v. case value_to_string show_f64 v of Some k \<Rightarrow> k | None \<Rightarrow> show_nat idx) (index r i))"

definition row_message ::
  "(json \<Rightarrow> string) \<Rightarrow> (f64 \<Rightarrow> string) \<Rightarrow> producer_builder \<Rightarrow> schema \<Rightarrow> nat \<Rightarrow> row \<Rightarrow> kafka_message result" where
  "row_message jtext show_f64 b s idx r =
     rbind (row_payload jtext show_f64 s r (pb_value_column b)) (\<lambda>payload.
     rmap (\<lambda>k. \<lparr>km_topic = pb_topic b, km_key = k, km_payload = payload, km_headers = pb_headers b\<rparr>)
       (row_key show_f64 s (pb_key_column b) idx r))"

fun send_rows ::
  "(kafka_message \<Rightarrow> 'p \<Rightarrow> err_src + 'p) \<Rightarrow> (json \<Rightarrow> string) \<Rightarrow> (f64 \<Rightarrow> string) \<Rightarrow> producer_builder \<Rightarrow>
   schema \<Rightarrow> nat \<Rightarrow> row list \<Rightarrow> 'p \<Rightarrow> nat result \<times> 'p" where
  "send_rows send jtext show_f64 b s idx [] pr = (Ok idx, pr)"
| "send_rows send jtext show_f64 b s idx (r # rs) pr =
     (case row_message jtext show_f64 b s idx r of
        Inl e \<Rightarrow> (Inl e, pr)
      | Inr m \<Rightarrow>
          (case send m pr of
             Inl e \<Rightarrow> (Err (EngineErr (''kafka produce to topic '' @ sq (pb_topic b) @ '' failed'') e), pr)
           | Inr pr' \<Rightarrow> send_rows send jtext show_f64 b s (idx + 1) rs pr'))"

text \<open>\<open>create\<close> makes a producer in its initial state.\<close>

definition export_dataset_to_kafka ::
  "(producer_builder \<Rightarrow> err_src + 'p) \<Rightarrow> (kafka_message \<Rightarrow> 'p \<Rightarrow> err_src + 'p) \<Rightarrow> ('p \<Rightarrow> err_src option \<times> 'p) \<Rightarrow>
   (json \<Rightarrow> string) \<Rightarrow> (f64 \<Rightarrow> string) \<Rightarrow> producer_builder \<Rightarrow> data_set \<Rightarrow> nat result \<times> 'p option" where
  "export_dataset_to_kafka create send flush jtext show_f64 b ds =
     (case producer_validate b of
        Inl e \<Rightarrow> (Inl e, None)
      | Inr _ \<Rightarrow>
          (case create b of
             Inl e \<Rightarrow> (Err (EngineErr ''failed to create kafka producer'' e), None)
           | Inr pr \<Rightarrow>
               (case send_rows send jtext show_f64 b (ds_schema ds) 0 (rows ds) pr of
                  (Inl e, pr') \<Rightarrow> (Inl e, Some pr')
                | (Inr sent, pr') \<Rightarrow>
                    (case flush pr' of
                       (Some e, pr'') \<Rightarrow> (Err (EngineErr ''kafka producer flush failed'' e), Some pr'')
                     | (None, pr'') \<Rightarrow> (Ok sent, Some pr'')))))"

subsection \<open>The window\<close>

definition messages :: "(nat \<times> poll) list \<Rightarrow> raw_message list" where
  "messages turns = List.map_filter (\<lambda>(_, p). case p of PMessage m \<Rightarrow> Some m | _ \<Rightarrow> None) turns"

lemma messages_simps [simp]:
  "messages [] = []"
  "messages ((t, PMessage m) # ts) = m # messages ts"
  "messages ((t, PError e) # ts) = messages ts"
  "messages ((t, PNothing) # ts) = messages ts"
  by (simp_all add: messages_def List.map_filter_def)

lemma poll_loop_Some:
  "poll_loop n out turns = Some (Ok res) \<Longrightarrow> length out \<le> n \<Longrightarrow>
   \<exists>k\<le>length turns. res = out @ map record_of_message (messages (take k turns)) \<and> length res \<le> n \<and>
     list_all (\<lambda>(t, _). t < 15000) (take k turns) \<and> (length res = n \<or> (k < length turns \<and> 15000 \<le> fst (turns ! k)))"
proof (induction turns arbitrary: out)
  case Nil
  then show ?case by (auto simp: poll_loop.simps [of n out] split: if_splits)
next
  case (Cons turn turns)
  obtain t p where turn: "turn = (t, p)" by force
  consider "n \<le> length out" | "length out < n" "15000 \<le> t" | "length out < n" "t < 15000" by linarith
  then show ?case
  proof cases
    case 1
    with Cons.prems have "res = out" "length res = n" by (simp_all add: poll_loop.simps [of n out])
    then show ?thesis by (intro exI [of _ 0]) simp
  next
    case 2
    with Cons.prems turn have "res = out" by (simp add: poll_loop.simps [of n out])
    with 2 turn show ?thesis by (intro exI [of _ 0]) simp
  next
    case 3
    show ?thesis
    proof (cases p)
      case (PMessage m)
      with Cons.prems 3 turn have "poll_loop n (out @ [record_of_message m]) turns = Some (Ok res)"
        by (simp add: poll_loop.simps [of n out])
      from Cons.IH [OF this] 3(1) have "\<exists>k\<le>length turns. res = (out @ [record_of_message m]) @ map record_of_message (messages (take k turns)) \<and> length res \<le> n \<and>
          list_all (\<lambda>(t, _). t < 15000) (take k turns) \<and> (length res = n \<or> (k < length turns \<and> 15000 \<le> fst (turns ! k)))" by simp
      then obtain k where "k \<le> length turns" "length res \<le> n"
        "res = (out @ [record_of_message m]) @ map record_of_message (messages (take k turns))"
        "list_all (\<lambda>(t, _). t < 15000) (take k turns)" "length res = n \<or> (k < length turns \<and> 15000 \<le> fst (turns ! k))" by blast
      with 3 turn PMessage show ?thesis by (intro exI [of _ "Suc k"]) simp
    next
      case (PError e)
      with Cons.prems 3 turn show ?thesis by (simp add: poll_loop.simps [of n out])
    next
      case PNothing
      with Cons.prems 3 turn have "poll_loop n out turns = Some (Ok res)" by (simp add: poll_loop.simps [of n out])
      from Cons.IH [OF this Cons.prems(2)] obtain k where "k \<le> length turns" "length res \<le> n"
        "res = out @ map record_of_message (messages (take k turns))"
        "list_all (\<lambda>(t, _). t < 15000) (take k turns)" "length res = n \<or> (k < length turns \<and> 15000 \<le> fst (turns ! k))" by blast
      with 3 turn PNothing show ?thesis by (intro exI [of _ "Suc k"]) simp
    qed
  qed
qed

lemma poll_loop_ends: "\<exists>x\<in>set turns. 15000 \<le> fst x \<Longrightarrow> poll_loop n out turns \<noteq> None"
proof (induction turns arbitrary: out)
  case (Cons turn turns)
  obtain t p where turn: "turn = (t, p)" by force
  with Cons.prems have "t < 15000 \<Longrightarrow> \<exists>x\<in>set turns. 15000 \<le> fst x" by auto
  with Cons.IH turn show ?case by (subst poll_loop.simps) (cases p; auto)
qed simp

subsection \<open>Typed landing\<close>

definition metadata_type :: "string \<Rightarrow> data_type option" where
  "metadata_type n = map_of [(''_kafka_topic'', TUtf8), (''_kafka_partition'', TInt64), (''_kafka_offset'', TInt64),
     (''_kafka_timestamp_ms'', TInt64), (''_kafka_key'', TUtf8)] n"

lemma metadata_value_type:
  assumes "kafka_metadata_value r n = Ok v" "metadata_type n = Some t"
  shows "has_type v t"
  using assms by (auto simp: kafka_metadata_value_def metadata_type_def split: if_splits option.splits)

lemma string_to_value_type: "string_to_value t dt = Ok v \<Longrightarrow> has_type v dt"
  by (auto simp: string_to_value_def split: data_type.splits sum.splits option.splits)

lemma json_field_to_value_type: "json_field_to_value jtext w dt = Ok v \<Longrightarrow> has_type v dt"
  using string_to_value_type
  by (auto simp: json_field_to_value_def split: option.splits json.splits data_type.splits)

lemma record_to_row_wf:
  assumes "record_to_row jtext parse_json r s = Ok out"
    and "\<forall>f\<in>set (sfields s). is_metadata f \<longrightarrow> metadata_type (fname f) = Some (ftype f)"
  shows "wf_row s out"
  using assms(1) unfolding record_to_row_def Let_def
proof (rule wf_row_traverse)
  fix f v
  assume f: "f \<in> set (sfields s)"
    and "(if is_metadata f then kafka_metadata_value r (fname f)
      else case case parse_json (kr_value r) of Inl x \<Rightarrow> None | Inr x \<Rightarrow> Some x of
          None \<Rightarrow> if length (schema_non_metadata_fields s) = 1 \<and> fname (schema_non_metadata_fields s ! 0) = fname f
            then string_to_value (kr_value r) (ftype f) else Ok Null
        | Some (JObject obj) \<Rightarrow> json_field_to_value jtext (map_of obj (fname f)) (ftype f)
        | Some _ \<Rightarrow> if length (schema_non_metadata_fields s) = 1 \<and> fname (schema_non_metadata_fields s ! 0) = fname f
            then string_to_value (kr_value r) (ftype f) else Ok Null) = Inr v"
  then show "has_type v (ftype f)"
    using assms(2) metadata_value_type [of r "fname f" v]
    by (auto split: if_splits option.splits json.splits sum.splits dest: string_to_value_type json_field_to_value_type)
qed

subsection \<open>Rows as messages\<close>

lemma row_object_lookup:
  assumes "distinct (field_names s)" "length r = length (sfields s)" "i < length (sfields s)"
  shows "map_of (row_object s r) (fname (sfields s ! i)) = Some (value_to_json (r ! i))"
  using build_object_lookup [of "field_names s" "map value_to_json r" i] assms by (simp add: row_object_def field_names_def)

lemma value_json_back:
  assumes "has_type v t" "\<forall>f. v = Float64 f \<longrightarrow> is_finite f" "\<forall>u. v = Utf8 u \<longrightarrow> t = TUtf8"
  shows "json_field_to_value jtext (Some (value_to_json v)) t = Ok v"
proof (cases v)
  case (Int64 i)
  obtain n where "json_of_i64 i = JNumber n" by (simp add: json_of_i64_def)
  with as_i64_json_of_i64 [of i] show ?thesis
    using assms(1) by (simp add: Int64 json_field_to_value_def value_to_json_def)
qed (use assms in \<open>auto simp: json_field_to_value_def value_to_json_def json_of_f64_def string_to_value_def as_f64_def\<close>)

subsection \<open>Properties\<close>

text \<open>C23: A poll window that returns holds the messages that arrived before the deadline, in order and at
  most as many as asked for; it stops when it is full or at the first turn past the deadline.\<close>

theorem poll_window_prefix:
  assumes "poll_window n turns = Some (Ok out)"
  shows "length out \<le> n \<and> (\<exists>k\<le>length turns. out = map record_of_message (messages (take k turns)) \<and>
    list_all (\<lambda>(t, _). t < 15000) (take k turns) \<and> (length out = n \<or> (k < length turns \<and> 15000 \<le> fst (turns ! k))))"
proof (cases "n = 0")
  case True
  with assms show ?thesis by (auto simp: poll_window_def intro!: exI [of _ 0])
next
  case False
  with assms poll_loop_Some [of n "[]" turns out] show ?thesis by (auto simp: poll_window_def)
qed

text \<open>The window always ends once the clock has passed the deadline, whatever the polls return.\<close>

theorem poll_window_ends:
  assumes "\<exists>x\<in>set turns. 15000 \<le> fst x"
  shows "poll_window n turns \<noteq> None"
  using poll_loop_ends [OF assms] by (simp add: poll_window_def)

text \<open>Loading records yields typed rows, one per record, when the metadata columns of the landing
  schema are declared with their types.\<close>

theorem kafka_load_typed:
  assumes "elt_load_kafka_records jtext parse_json records s = Ok ds"
    and "\<forall>f\<in>set (sfields s). is_metadata f \<longrightarrow> metadata_type (fname f) = Some (ftype f)"
  shows "ds_schema ds = s \<and> length (rows ds) = length records \<and> wf_ds ds"
proof -
  from assms(1) obtain rs where rs: "traverse (\<lambda>r. record_to_row jtext parse_json r s) records = Ok rs" "ds = data_set_new s rs"
    by (auto simp: elt_load_kafka_records_def result_simps)
  have "wf_row s out" if "out \<in> set rs" for out
    using traverse_set [OF rs(1) that] record_to_row_wf [OF _ assms(2)] by blast
  with rs traverse_length [OF rs(1)] show ?thesis by simp
qed

text \<open>A metadata column declared with another type is filled with a value of the wrong type without an
  error, and the dataset cannot be turned into a frame afterwards.\<close>

theorem kafka_metadata_untyped:
  "\<exists>ds. elt_load_kafka_records jtext parse_json
        [\<lparr>kr_topic = t, kr_partition = 0, kr_offset = 7, kr_timestamp_ms = None, kr_key = None, kr_value = v, kr_headers = []\<rparr>]
        (schema_new [mk_field ''_kafka_offset'' TUtf8]) = Ok ds \<and> \<not> wf_ds ds \<and>
      dataset_to_dataframe P ds =
        Err (ParseError 1 ''_kafka_offset'' (RawDebug (Int64 7)) ''value does not match schema type Utf8'')"
proof (intro exI conjI)
  have m: "is_metadata \<lparr>fname = ''_kafka_offset'', ftype = TUtf8\<rparr>" by code_simp
  let ?ds = "data_set_new (schema_new [mk_field ''_kafka_offset'' TUtf8]) [[Int64 7]]"
  show "elt_load_kafka_records jtext parse_json
        [\<lparr>kr_topic = t, kr_partition = 0, kr_offset = 7, kr_timestamp_ms = None, kr_key = None, kr_value = v, kr_headers = []\<rparr>]
        (schema_new [mk_field ''_kafka_offset'' TUtf8]) = Ok ?ds"
    using m by (simp add: elt_load_kafka_records_def record_to_row_def schema_new_def mk_field_def kafka_metadata_value_def)
  show "\<not> wf_ds ?ds" by code_simp
  show "dataset_to_dataframe P ?ds =
        Err (ParseError 1 ''_kafka_offset'' (RawDebug (Int64 7)) ''value does not match schema type Utf8'')"
    by (simp add: dataset_to_dataframe_def column_series_def column_cell_def cell_to_any_def type_name_def schema_new_def mk_field_def)
qed

text \<open>A row exported as a message is read back by the load with the same schema: for distinct names
  other than metadata, finite floats, and a JSON library that reads the row's document back.\<close>

theorem kafka_row_roundtrip:
  assumes "wf_row s r" "distinct (field_names s)" "\<forall>f\<in>set (sfields s). \<not> is_metadata f"
    and "\<forall>f. Float64 f \<in> set r \<longrightarrow> is_finite f"
    and "parse_json (jtext (JObject (row_object s r))) = Inr (JObject (row_object s r))"
    and "row_payload jtext show_f64 s r None = Ok payload" "kr_value rec = payload"
  shows "record_to_row jtext parse_json rec s = Ok r"
proof -
  have parsed: "parse_json (kr_value rec) = Inr (JObject (row_object s r))"
    using assms(5-7) by (simp add: row_payload_def)
  have len: "length r = length (sfields s)" by (rule wf_row_length [OF assms(1)])
  have cell: "json_field_to_value jtext (map_of (row_object s r) (fname (sfields s ! i))) (ftype (sfields s ! i)) = Ok (r ! i)"
    if i: "i < length (sfields s)" for i
  proof -
    have "map_of (row_object s r) (fname (sfields s ! i)) = Some (value_to_json (r ! i))"
      using row_object_lookup [OF assms(2) len i] .
    moreover have "has_type (r ! i) (ftype (sfields s ! i))" by (rule wf_row_nth [OF assms(1) i])
    moreover from this have "\<forall>u. r ! i = Utf8 u \<longrightarrow> ftype (sfields s ! i) = TUtf8" by auto
    moreover have "\<forall>f. r ! i = Float64 f \<longrightarrow> is_finite f" using assms(4) i len by (metis nth_mem)
    ultimately show ?thesis using value_json_back by metis
  qed
  show ?thesis
    unfolding record_to_row_def Let_def
    by (rule traverse_nthI [OF len]) (use assms(3) cell parsed in \<open>simp add: all_set_conv_all_nth\<close>)
qed

text \<open>With a producer that accepts everything, an export sends one message per row in order; when a
  row cannot be encoded the rows before it have been sent all the same, and the call fails.\<close>

theorem export_sends_in_order:
  assumes "producer_validate b = Ok ()"
  shows "export_dataset_to_kafka (\<lambda>_. Inr []) (\<lambda>m log. Inr (log @ [m])) (\<lambda>log. (None, log)) jtext show_f64 b ds =
    (let enc = (\<lambda>(i, r). row_message jtext show_f64 b (ds_schema ds) i r); irs = enumerate 0 (rows ds) in
     (case traverse enc irs of Inr ms \<Rightarrow> Ok (length (rows ds)) | Inl e \<Rightarrow> Inl e,
      Some (map (projr \<circ> enc) (takeWhile (is_ok \<circ> enc) irs))))"
proof -
  let ?enc = "\<lambda>(i, r). row_message jtext show_f64 b (ds_schema ds) i r"
  have "send_rows (\<lambda>m log. Inr (log @ [m])) jtext show_f64 b (ds_schema ds) i rs log =
    (case traverse ?enc (enumerate i rs) of Inr ms \<Rightarrow> Ok (i + length rs) | Inl e \<Rightarrow> Inl e,
     log @ map (projr \<circ> ?enc) (takeWhile (is_ok \<circ> ?enc) (enumerate i rs)))" for i rs log
  proof (induction rs arbitrary: i log)
    case (Cons r rs)
    show ?case
    proof (cases "row_message jtext show_f64 b (ds_schema ds) i r")
      case (Inr m)
      with Cons [of "Suc i" "log @ [m]"] show ?thesis
        by (cases "traverse ?enc (enumerate (Suc i) rs)") simp_all
    qed simp
  qed simp
  from this [of 0 "rows ds" "[]"] assms show ?thesis
    by (cases "traverse ?enc (enumerate 0 (rows ds))") (simp_all add: export_dataset_to_kafka_def Let_def)
qed

subsection \<open>Witnesses\<close>

definition one_message :: raw_message where
  "one_message = \<lparr>rm_topic = ''t'', rm_partition = 3, rm_offset = 9, rm_timestamp_ms = None, rm_key = None,
     rm_payload = Some ''x'', rm_headers = None\<rparr>"

lemma poll_window_prefix_witness:
  "\<exists>out. poll_window 2 [(0, PMessage one_message), (500, PNothing), (15000, PMessage one_message)] = Some (Ok out) \<and> length out \<le> 2"
proof -
  have "poll_window 2 [(0, PMessage one_message), (500, PNothing), (15000, PMessage one_message)] = Some (Ok [record_of_message one_message])"
    by (simp add: poll_window_def poll_loop.simps)
  from poll_window_prefix [OF this] this show ?thesis by blast
qed

lemma poll_window_ends_witness: "poll_window 5 [(0, PNothing), (15000, PNothing)] \<noteq> None"
  by (rule poll_window_ends) simp

lemma kafka_load_typed_witness:
  "\<exists>ds. elt_load_kafka_records (\<lambda>_. []) (\<lambda>_. Inl ''bad'') [record_of_message one_message]
      (schema_new [mk_field ''_kafka_offset'' TInt64, mk_field ''text'' TUtf8]) = Ok ds \<and> wf_ds ds"
proof -
  let ?s = "schema_new [mk_field ''_kafka_offset'' TInt64, mk_field ''text'' TUtf8]"
  have load: "elt_load_kafka_records (\<lambda>_. []) (\<lambda>_. Inl ''bad'') [record_of_message one_message] ?s =
      Ok (data_set_new ?s [[Int64 9, Utf8 ''x'']])" by code_simp
  have "list_all (\<lambda>f. is_metadata f \<longrightarrow> metadata_type (fname f) = Some (ftype f)) (sfields ?s)" by code_simp
  then have "\<forall>f\<in>set (sfields ?s). is_metadata f \<longrightarrow> metadata_type (fname f) = Some (ftype f)" by (simp add: list_all_iff)
  from kafka_load_typed [OF load this] load show ?thesis by blast
qed

lemma kafka_row_roundtrip_witness:
  "record_to_row (\<lambda>_. ''doc'') (\<lambda>_. Inr (JObject [(''id'', json_of_i64 5)])) (record_of_message one_message\<lparr>kr_value := ''doc''\<rparr>)
     (schema_new [mk_field ''id'' TInt64]) = Ok [Int64 5]"
proof (rule kafka_row_roundtrip)
  show "wf_row (schema_new [mk_field ''id'' TInt64]) [Int64 5]" "distinct (field_names (schema_new [mk_field ''id'' TInt64]))"
    by code_simp+
  have "list_all (\<lambda>f. \<not> is_metadata f) (sfields (schema_new [mk_field ''id'' TInt64]))" by code_simp
  then show "\<forall>f\<in>set (sfields (schema_new [mk_field ''id'' TInt64])). \<not> is_metadata f" by (simp add: list_all_iff)
  show "\<forall>f. Float64 f \<in> set [Int64 5] \<longrightarrow> is_finite f" by simp
  have "row_object (schema_new [mk_field ''id'' TInt64]) [Int64 5] = [(''id'', json_of_i64 5)]" by code_simp
  then show "Inr (JObject [(''id'', json_of_i64 5)]) = Inr (JObject (row_object (schema_new [mk_field ''id'' TInt64]) [Int64 5]))"
    by simp
  show "row_payload (\<lambda>_. ''doc'') (\<lambda>_. []) (schema_new [mk_field ''id'' TInt64]) [Int64 5] None = Ok ''doc''"
    by (simp add: row_payload_def)
qed simp

lemma export_sends_in_order_witness:
  "export_dataset_to_kafka (\<lambda>_. Inr []) (\<lambda>m log. Inr (log @ [m])) (\<lambda>log. (None, log)) (\<lambda>_. []) (\<lambda>_. [])
      (with_value_column ''n'' (producer_new ''b'' ''t''))
      (data_set_new (schema_new [mk_field ''n'' TInt64]) [[Int64 4], [Null]]) =
    (Err (SchemaMismatch (''kafka value_column '' @ sq ''n'' @ '' is null'')),
     Some [\<lparr>km_topic = ''t'', km_key = ''0'', km_payload = ''4'', km_headers = []\<rparr>])"
proof -
  have v: "producer_validate (with_value_column ''n'' (producer_new ''b'' ''t'')) = Ok ()" by code_simp
  have n: "show_nat 0 = ''0''" "show_i64 4 = ''4''" by code_simp+
  show ?thesis
    by (subst export_sends_in_order [OF v])
       (simp add: row_message_def row_payload_def row_key_def value_to_string_def with_value_column_def producer_new_def
         schema_new_def mk_field_def index_of_def n)
qed

end
