(* ===== verification/Utf8_Steps.thy ===== *)
theory Utf8_Steps
  imports Types
begin

text \<open>
  The string transforms that work on a dataset directly (\<open>src/transform.rs\<close>), the summary of what
  they changed (\<open>src/privacy.rs\<close>) and the cut of long texts (\<open>src/reports.rs\<close>). \<open>checks\<close> says
  whether the build checks \<open>usize\<close> overflow; \<open>sha256\<close> is the digest of the hash library.
\<close>

definition add_usize :: "bool \<Rightarrow> nat \<Rightarrow> nat \<Rightarrow> nat result" where
  "add_usize checks a b =
     (if a + b < 2 ^ 64 then Ok (a + b)
      else if checks then Panics ''attempt to add with overflow''
      else Ok ((a + b) mod 2 ^ 64))"

subsection \<open>Steps on a column\<close>

definition utf8_field_index :: "data_set \<Rightarrow> string \<Rightarrow> nat result" where
  "utf8_field_index ds column =
     rbind (ok_or (SchemaMismatch (''unknown column '' @ sq column @ '' for UTF-8 transform''))
              (index_of (ds_schema ds) column)) (\<lambda>idx.
     rbind (index (sfields (ds_schema ds)) idx) (\<lambda>f.
       if ftype f \<noteq> TUtf8
       then Err (SchemaMismatch (''column '' @ sq column @ '' must be Utf8 for this transform''))
       else Ok idx))"

text \<open>The loop over the rows: \<open>row[idx]\<close> panics past the end, other values stay.\<close>

definition update_cell :: "(string \<Rightarrow> string result) \<Rightarrow> nat \<Rightarrow> row \<Rightarrow> row result" where
  "update_cell f idx r =
     rbind (index r idx) (\<lambda>v. case v of
         Utf8 t \<Rightarrow> rmap (\<lambda>t'. r[idx := Utf8 t']) (f t)
       | _ \<Rightarrow> Ok r)"

definition update_column :: "(string \<Rightarrow> string result) \<Rightarrow> data_set \<Rightarrow> string \<Rightarrow> data_set result" where
  "update_column f ds column =
     rbind (utf8_field_index ds column) (\<lambda>idx.
     rmap (\<lambda>rs. data_set_new (ds_schema ds) rs) (traverse (update_cell f idx) (rows ds)))"

definition truncate_text :: "nat \<Rightarrow> string \<Rightarrow> string" where
  "truncate_text max_chars t = concat (take max_chars (chars t))"

definition utf8_truncate_dataset :: "data_set \<Rightarrow> string \<Rightarrow> nat \<Rightarrow> data_set result" where
  "utf8_truncate_dataset ds column max_chars = update_column (\<lambda>t. Ok (truncate_text max_chars t)) ds column"

definition hex_digit :: "nat \<Rightarrow> char" where
  "hex_digit d = (if d < 10 then char_of (48 + d) else char_of (87 + d))"

definition hex_text :: "nat list \<Rightarrow> string" where
  "hex_text bytes = concat (map (\<lambda>b. [hex_digit (b div 16), hex_digit (b mod 16)]) bytes)"

definition utf8_sha256_dataset :: "(string \<Rightarrow> nat list) \<Rightarrow> data_set \<Rightarrow> string \<Rightarrow> data_set result" where
  "utf8_sha256_dataset sha256 ds column = update_column (\<lambda>t. Ok (hex_text (sha256 t))) ds column"

definition redact_text :: "bool \<Rightarrow> nat \<Rightarrow> nat \<Rightarrow> string \<Rightarrow> string \<Rightarrow> string result" where
  "redact_text checks keep_left keep_right redaction t =
     (let chs = chars t; n = length chs in
      rmap (\<lambda>kept.
        if kept < n then concat (take keep_left chs) @ redaction @ concat (drop (n - keep_right) chs)
        else t) (add_usize checks keep_left keep_right))"

definition utf8_redact_middle_dataset ::
  "bool \<Rightarrow> data_set \<Rightarrow> string \<Rightarrow> nat \<Rightarrow> nat \<Rightarrow> string \<Rightarrow> data_set result" where
  "utf8_redact_middle_dataset checks ds column keep_left keep_right redaction =
     update_column (redact_text checks keep_left keep_right redaction) ds column"

subsection \<open>Change summaries\<close>

record change_summary =
  cs_column :: string
  cs_non_null_cells_compared :: nat
  cs_cells_changed :: nat

definition compare_cells :: "nat \<Rightarrow> nat \<Rightarrow> row \<times> row \<Rightarrow> nat \<times> nat \<Rightarrow> nat \<times> nat" where
  "compare_cells bi ai = (\<lambda>(br, ar) (non_null, changed).
     (case (get br bi, get ar ai) of
        (Some (Utf8 sb), Some (Utf8 sa)) \<Rightarrow> (non_null + 1, if sb \<noteq> sa then changed + 1 else changed)
      | _ \<Rightarrow> (non_null, changed)))"

definition column_summary :: "data_set \<Rightarrow> data_set \<Rightarrow> string \<Rightarrow> change_summary option" where
  "column_summary before after name =
     Option.bind (index_of (ds_schema before) name) (\<lambda>bi.
     Option.bind (index_of (ds_schema after) name) (\<lambda>ai.
       case fold (compare_cells bi ai) (zip (rows before) (rows after)) (0, 0) of
         (non_null, changed) \<Rightarrow> Some \<lparr>cs_column = name, cs_non_null_cells_compared = non_null, cs_cells_changed = changed\<rparr>))"

definition summarize_utf8_column_changes :: "data_set \<Rightarrow> data_set \<Rightarrow> string list \<Rightarrow> change_summary list" where
  "summarize_utf8_column_changes before after columns = List.map_filter (column_summary before after) columns"

definition render_privacy_report_markdown :: "change_summary list \<Rightarrow> string" where
  "render_privacy_report_markdown rs =
     ''## Privacy / masking summary (UTF-8 diffs)'' @ [CHR 0x0A, CHR 0x0A] @
     concat (map (\<lambda>r. ''- **'' @ cs_column r @ ''**: changed **'' @ show_nat (cs_cells_changed r) @ ''** / **'' @
       show_nat (cs_non_null_cells_compared r) @ ''** non-null cells'' @ [CHR 0x0A]) rs)"

subsection \<open>Cutting a text by bytes\<close>

text \<open>Back to the nearest character boundary.\<close>

fun boundary_below :: "string \<Rightarrow> nat \<Rightarrow> nat" where
  "boundary_below input 0 = 0"
| "boundary_below input (Suc e) = (if is_char_boundary input (Suc e) then Suc e else boundary_below input e)"

definition truncate_utf8_by_bytes :: "string \<Rightarrow> nat \<Rightarrow> string" where
  "truncate_utf8_by_bytes input max_bytes =
     (if length input \<le> max_bytes then input
      else take (boundary_below input max_bytes) input @ [CHR 0xE2, CHR 0x80, CHR 0xA6] @
        '' [truncated from '' @ show_nat (length input) @ '' bytes]'')"

subsection \<open>What a step changes\<close>

text \<open>The dataset with a function applied to the texts of a column; nulls stay.\<close>

definition map_text :: "(string \<Rightarrow> string) \<Rightarrow> value_t \<Rightarrow> value_t" where
  "map_text g v = (case v of Utf8 t \<Rightarrow> Utf8 (g t) | _ \<Rightarrow> v)"

definition with_texts :: "(string \<Rightarrow> string) \<Rightarrow> nat \<Rightarrow> data_set \<Rightarrow> data_set" where
  "with_texts g idx ds = data_set_new (ds_schema ds) (map (\<lambda>r. r[idx := map_text g (r ! idx)]) (rows ds))"

lemma map_text_simps [simp]:
  "map_text g Null = Null" "map_text g (Int64 i) = Int64 i" "map_text g (Float64 f) = Float64 f"
  "map_text g (Bool b) = Bool b" "map_text g (Utf8 t) = Utf8 (g t)"
  by (simp_all add: map_text_def)

lemma has_type_map_text [simp]: "has_type (map_text g v) t \<longleftrightarrow> has_type v t"
  by (cases v) simp_all

lemma map_text_Utf8: "v = Utf8 t \<Longrightarrow> map_text g v = Utf8 (g t)"
  by simp

lemma with_texts_sel [simp]:
  "ds_schema (with_texts g idx ds) = ds_schema ds"
  "rows (with_texts g idx ds) = map (\<lambda>r. r[idx := map_text g (r ! idx)]) (rows ds)"
  by (simp_all add: with_texts_def)

lemma wf_with_texts: "wf_ds ds \<Longrightarrow> wf_ds (with_texts g idx ds)"
proof -
  assume wf: "wf_ds ds"
  have "has_type (r[idx := map_text g (r ! idx)] ! i) t \<longleftrightarrow> has_type (r ! i) t" for r i t
    by (cases "i = idx \<and> idx < length r") (auto simp: list_update_beyond)
  with wf show "wf_ds (with_texts g idx ds)"
    by (auto simp: wf_ds_def wf_row_def list_all_iff list_all2_conv_all_nth)
qed

lemma update_cell_text:
  assumes "idx < length r" "\<And>t. r ! idx = Utf8 t \<Longrightarrow> f t = Ok (g t)"
  shows "update_cell f idx r = Ok (r[idx := map_text g (r ! idx)])"
proof -
  have "r[idx := v] = r" if "r ! idx = v" for v using that by (metis list_update_id)
  with assms show ?thesis by (cases "r ! idx") (simp_all add: update_cell_def index_def)
qed

text \<open>
  The outcome of a step whose text function is total on the column: the updated dataset, or the
  error that names the column.
\<close>

definition text_step :: "(string \<Rightarrow> string) \<Rightarrow> data_set \<Rightarrow> string \<Rightarrow> data_set result" where
  "text_step g ds c =
     (case index_of (ds_schema ds) c of
        None \<Rightarrow> Err (SchemaMismatch (''unknown column '' @ sq c @ '' for UTF-8 transform''))
      | Some idx \<Rightarrow>
          if ftype (sfields (ds_schema ds) ! idx) = TUtf8 then Ok (with_texts g idx ds)
          else Err (SchemaMismatch (''column '' @ sq c @ '' must be Utf8 for this transform'')))"

lemma update_column_text_step:
  assumes "wf_ds ds" "\<And>t. f t = Ok (g t)"
  shows "update_column f ds c = text_step g ds c"
proof (cases "index_of (ds_schema ds) c")
  case None
  then show ?thesis by (simp add: update_column_def utf8_field_index_def text_step_def)
next
  case (Some idx)
  note b = index_of_bound [OF Some]
  have "traverse (update_cell f idx) (rows ds) = Ok (map (\<lambda>r. r[idx := map_text g (r ! idx)]) (rows ds))"
    using b assms by (intro traverse_ok update_cell_text) (simp_all add: wf_row_length [OF wf_ds_row [OF assms(1)]])
  with Some b show ?thesis
    by (simp add: update_column_def utf8_field_index_def text_step_def with_texts_def index_def)
qed

definition redacted :: "nat \<Rightarrow> nat \<Rightarrow> string \<Rightarrow> string \<Rightarrow> string" where
  "redacted l r redaction t =
     (if l + r < length (chars t)
      then concat (take l (chars t)) @ redaction @ concat (drop (length (chars t) - r) (chars t)) else t)"

lemma redact_text_in_range: "l + r < 2 ^ 64 \<Longrightarrow> redact_text checks l r redaction t = Ok (redacted l r redaction t)"
  by (simp add: redact_text_def Let_def add_usize_def redacted_def)

text \<open>Characters of a cut text.\<close>

lemma chars_truncate: "utf8_start t \<Longrightarrow> chars (truncate_text n t) = take n (chars t)"
  unfolding truncate_text_def by (rule chars_concat) (auto dest: in_set_takeD chars_scalar)

lemma truncate_text_idem: "utf8_start t \<Longrightarrow> truncate_text n (truncate_text n t) = truncate_text n t"
  by (simp add: truncate_text_def [of n "truncate_text n t"] chars_truncate) (simp add: truncate_text_def)

lemma truncate_text_short: "length (chars t) \<le> n \<Longrightarrow> truncate_text n t = t"
  by (simp add: truncate_text_def)

lemma truncate_text_same_iff: "utf8_start t \<Longrightarrow> truncate_text n t = t \<longleftrightarrow> length (chars t) \<le> n"
  using chars_truncate [of t n] truncate_text_short [of t n] by (metis length_take min.cobounded2)

lemma fold_compare:
  "fold (compare_cells bi ai) ps (n, c) =
    (n + length (filter (\<lambda>(br, ar). \<exists>x y. get br bi = Some (Utf8 x) \<and> get ar ai = Some (Utf8 y)) ps),
     c + length (filter (\<lambda>(br, ar). \<exists>x y. get br bi = Some (Utf8 x) \<and> get ar ai = Some (Utf8 y) \<and> x \<noteq> y) ps))"
proof (induction ps arbitrary: n c)
  case (Cons p ps)
  obtain br ar where p: "p = (br, ar)" by (cases p)
  consider x y where "get br bi = Some (Utf8 x)" "get ar ai = Some (Utf8 y)"
    | "\<not> (\<exists>x y. get br bi = Some (Utf8 x) \<and> get ar ai = Some (Utf8 y))" by blast
  then show ?case
  proof cases
    case 1
    then have "compare_cells bi ai p (n, c) = (Suc n, if x \<noteq> y then Suc c else c)"
      by (simp add: p compare_cells_def)
    with 1 show ?thesis by (simp add: Cons p)
  next
    case 2
    then have "compare_cells bi ai p (n, c) = (n, c)"
      by (auto simp: p compare_cells_def split: option.split value_t.split)
    with 2 show ?thesis by (simp add: Cons p) blast
  qed
qed simp

lemma boundary_below_spec:
  "boundary_below s e \<le> e \<and> is_char_boundary s (boundary_below s e) \<and>
   (\<forall>k. boundary_below s e < k \<longrightarrow> k \<le> e \<longrightarrow> \<not> is_char_boundary s k)"
proof (induction e)
  case 0
  then show ?case by (simp add: is_char_boundary_def)
next
  case (Suc e)
  then show ?case by (auto simp: le_Suc_eq)
qed

lemma summary_of_rows:
  assumes "index_of (ds_schema before) c = Some bi" "index_of (ds_schema after) c = Some ai"
  shows "summarize_utf8_column_changes before after [c] =
    [\<lparr>cs_column = c,
      cs_non_null_cells_compared = length (filter (\<lambda>(br, ar). \<exists>x y. get br bi = Some (Utf8 x) \<and> get ar ai = Some (Utf8 y)) (zip (rows before) (rows after))),
      cs_cells_changed = length (filter (\<lambda>(br, ar). \<exists>x y. get br bi = Some (Utf8 x) \<and> get ar ai = Some (Utf8 y) \<and> x \<noteq> y) (zip (rows before) (rows after)))\<rparr>]"
  using assms by (simp add: summarize_utf8_column_changes_def column_summary_def List.map_filter_def fold_compare)

subsection \<open>Properties\<close>

text \<open>On a well-formed dataset each string step fails exactly on an unknown or non-string column and
  otherwise changes the texts of that column only: the schema, the other columns, the nulls and the
  order of the rows stay, and the result is well-formed.\<close>

theorem string_steps_exact:
  assumes "wf_ds ds" "keep_left + keep_right < 2 ^ 64"
  shows "utf8_truncate_dataset ds c n = text_step (truncate_text n) ds c \<and>
    utf8_sha256_dataset sha256 ds c = text_step (\<lambda>t. hex_text (sha256 t)) ds c \<and>
    utf8_redact_middle_dataset checks ds c keep_left keep_right redaction = text_step (redacted keep_left keep_right redaction) ds c \<and>
    (case text_step g ds c of Inr out \<Rightarrow> wf_ds out \<and> ds_schema out = ds_schema ds \<and> length (rows out) = length (rows ds) | Inl _ \<Rightarrow> True)"
  using assms wf_with_texts [OF assms(1)]
  by (simp add: utf8_truncate_dataset_def utf8_sha256_dataset_def utf8_redact_middle_dataset_def
      update_column_text_step redact_text_in_range text_step_def split: option.split)

text \<open>The privacy summary after cutting a column to \<open>n\<close> characters counts as changed exactly the
  texts longer than \<open>n\<close>, among all texts of the column; every other column is reported unchanged.\<close>

theorem summary_after_truncation:
  assumes "wf_ds ds" "utf8_truncate_dataset ds c n = Ok out" "index_of (ds_schema ds) c = Some idx"
    and "index_of (ds_schema ds) d = Some j" "\<And>r t. r \<in> set (rows ds) \<Longrightarrow> Utf8 t \<in> set r \<Longrightarrow> utf8_start t"
  shows "summarize_utf8_column_changes ds out [d] =
    [\<lparr>cs_column = d,
      cs_non_null_cells_compared = length (filter (\<lambda>r. \<exists>t. r ! j = Utf8 t) (rows ds)),
      cs_cells_changed = (if d = c then length (filter (\<lambda>r. \<exists>t. r ! j = Utf8 t \<and> n < length (chars t)) (rows ds)) else 0)\<rparr>]"
proof -
  let ?cut = "\<lambda>r. r[idx := map_text (truncate_text n) (r ! idx)]"
  have out: "out = with_texts (truncate_text n) idx ds"
    using assms(1-3) by (simp add: utf8_truncate_dataset_def update_column_text_step text_step_def split: if_splits)
  have zip: "zip (rows ds) (map ?cut (rows ds)) = map (\<lambda>r. (r, ?cut r)) (rows ds)"
    by (simp add: zip_map2 zip_same_conv_map)
  have j: "j < length r" if "r \<in> set (rows ds)" for r
    using wf_row_length [OF wf_ds_row [OF assms(1) that]] index_of_bound [OF assms(4)] by simp
  have jd: "j = idx \<longleftrightarrow> d = c" using assms(3,4) by (metis index_of_Some_iff option.inject)
  have compared: "(\<exists>x y. get r j = Some (Utf8 x) \<and> get (?cut r) j = Some (Utf8 y)) \<longleftrightarrow> (\<exists>t. r ! j = Utf8 t)"
    if "r \<in> set (rows ds)" for r
    using j [OF that] by (cases "j = idx") (auto simp: get_def)
  have changed: "(\<exists>x y. get r j = Some (Utf8 x) \<and> get (?cut r) j = Some (Utf8 y) \<and> x \<noteq> y) \<longleftrightarrow>
      d = c \<and> (\<exists>t. r ! j = Utf8 t \<and> n < length (chars t))" if r: "r \<in> set (rows ds)" for r
  proof (cases "r ! j")
    case (Utf8 t)
    then have "utf8_start t" using assms(5) [OF r, of t] j [OF r] nth_mem [of j r] by simp
    then show ?thesis using j [OF r] jd Utf8 truncate_text_same_iff [of t n] by (cases "j = idx") (auto simp: get_def)
  qed (use j [OF r] in \<open>auto simp: get_def\<close>)
  show ?thesis
    using assms(4) compared changed
    by (simp add: summary_of_rows out zip filter_map o_def cong: filter_cong)
qed

text \<open>Without overflow checks, keeping \<open>2 ^ 64 - 1\<close> characters on the left and one on the right
  wraps the comparison to zero: the two-character text is kept whole, the redaction is inserted and
  the last character repeated. With checks the call panics.\<close>

theorem redact_overflow:
  "utf8_redact_middle_dataset False (data_set_new (schema_new [mk_field ''s'' TUtf8]) [[Utf8 ''ab'']]) ''s'' (2 ^ 64 - 1) 1 ''***'' =
     Ok (data_set_new (schema_new [mk_field ''s'' TUtf8]) [[Utf8 ''ab***b'']]) \<and>
   utf8_redact_middle_dataset True (data_set_new (schema_new [mk_field ''s'' TUtf8]) [[Utf8 ''ab'']]) ''s'' (2 ^ 64 - 1) 1 ''***'' =
     Panics ''attempt to add with overflow''"
proof -
  have "redact_text False (2 ^ 64 - 1) 1 ''***'' ''ab'' = Ok ''ab***b''"
    by (simp add: redact_text_def add_usize_def is_cont_def)
  moreover have "redact_text True (2 ^ 64 - 1) 1 ''***'' ''ab'' = Panics ''attempt to add with overflow''"
    by (simp add: redact_text_def add_usize_def)
  ultimately show ?thesis
    by (simp add: utf8_redact_middle_dataset_def update_column_def utf8_field_index_def index_of_def schema_new_def
        mk_field_def update_cell_def index_def)
qed

text \<open>A text cut by bytes keeps the longest prefix of whole characters within the limit, and says how
  long the input was.\<close>

theorem byte_cut_is_maximal:
  assumes "max_bytes < length input"
  shows "\<exists>e\<le>max_bytes. is_char_boundary input e \<and> (\<forall>k\<le>max_bytes. is_char_boundary input k \<longrightarrow> k \<le> e) \<and>
    truncate_utf8_by_bytes input max_bytes =
      take e input @ [CHR 0xE2, CHR 0x80, CHR 0xA6] @ '' [truncated from '' @ show_nat (length input) @ '' bytes]''"
  using assms boundary_below_spec [of input max_bytes]
  by (intro exI [of _ "boundary_below input max_bytes"]) (auto simp: truncate_utf8_by_bytes_def not_less [symmetric])

subsection \<open>Witnesses\<close>

definition cut_example :: data_set where
  "cut_example = data_set_new (schema_new [mk_field ''id'' TInt64, mk_field ''s'' TUtf8])
     [[Int64 1, Utf8 ''abc''], [Int64 2, Null], [Int64 3, Utf8 ''a'']]"

lemma string_steps_exact_witness:
  "utf8_redact_middle_dataset True cut_example ''s'' 1 1 ''#'' =
     Ok (data_set_new (schema_new [mk_field ''id'' TInt64, mk_field ''s'' TUtf8])
       [[Int64 1, Utf8 ''a#c''], [Int64 2, Null], [Int64 3, Utf8 ''a'']])"
proof -
  have "utf8_redact_middle_dataset True cut_example ''s'' 1 1 ''#'' = text_step (redacted 1 1 ''#'') cut_example ''s''"
    using string_steps_exact [of cut_example 1 1 "''s''" 0 "\<lambda>_. []" True "''#''" id] by (simp add: cut_example_def wf_row_def mk_field_def schema_new_def)
  then show ?thesis
    by (simp add: text_step_def cut_example_def mk_field_def schema_new_def index_of_def with_texts_def redacted_def is_cont_def)
qed

lemma summary_after_truncation_witness:
  "summarize_utf8_column_changes cut_example (data_set_new (ds_schema cut_example)
     [[Int64 1, Utf8 ''ab''], [Int64 2, Null], [Int64 3, Utf8 ''a'']]) [''s''] =
   [\<lparr>cs_column = ''s'', cs_non_null_cells_compared = 2, cs_cells_changed = 1\<rparr>]"
proof -
  have "utf8_truncate_dataset cut_example ''s'' 2 = Ok (data_set_new (ds_schema cut_example)
     [[Int64 1, Utf8 ''ab''], [Int64 2, Null], [Int64 3, Utf8 ''a'']])" by code_simp
  moreover have "wf_ds cut_example" by (simp add: cut_example_def wf_row_def mk_field_def schema_new_def)
  moreover have "index_of (ds_schema cut_example) ''s'' = Some 1" by code_simp
  moreover have "utf8_start t" if "r \<in> set (rows cut_example)" "Utf8 t \<in> set r" for r t
    using that by (auto simp: cut_example_def utf8_start_def is_cont_def)
  moreover have "length (filter (\<lambda>r. \<exists>t. r ! 1 = Utf8 t) (rows cut_example)) = 2"
    "length (filter (\<lambda>r. \<exists>t. r ! 1 = Utf8 t \<and> 2 < length (chars t)) (rows cut_example)) = 1"
    by (simp_all add: cut_example_def is_cont_def)
  ultimately show ?thesis
    using summary_after_truncation [of cut_example "''s''" 2 _ 1 "''s''" 1] by simp
qed

lemma byte_cut_is_maximal_witness:
  "\<exists>e\<le>2. is_char_boundary ''abc'' e \<and> (\<forall>k\<le>2. is_char_boundary ''abc'' k \<longrightarrow> k \<le> e) \<and>
    truncate_utf8_by_bytes ''abc'' 2 =
      take e ''abc'' @ [CHR 0xE2, CHR 0x80, CHR 0xA6] @ '' [truncated from '' @ show_nat 3 @ '' bytes]''"
  using byte_cut_is_maximal [of 2 "''abc''"] by (simp only: list.size) (simp add: numeral_3_eq_3)

end
