(* ===== verification/Export.thy ===== *)
theory Export
  imports Utf8_Steps Json
begin

text \<open>
  Line-delimited JSON export, the split into training and test rows, and the filter by text length
  (\<open>src/export.rs\<close>). The serialisation of an object never fails, its keys being strings; \<open>jtext\<close>
  is the printer of the JSON library.
\<close>

definition cell_to_json :: "value_t \<Rightarrow> json" where
  "cell_to_json v =
     (case v of
        Null \<Rightarrow> JNull
      | Int64 i \<Rightarrow> json_of_i64 i
      | Float64 x \<Rightarrow> json_of_f64 x
      | Bool b \<Rightarrow> JBool b
      | Utf8 s \<Rightarrow> JString s)"

definition row_line :: "(json \<Rightarrow> string) \<Rightarrow> string list \<Rightarrow> nat list \<Rightarrow> row \<Rightarrow> string result" where
  "row_line jtext column_order idx r =
     rmap (\<lambda>vs. jtext (JObject (build_object (zip column_order (map cell_to_json vs)))) @ [CHR 0x0A])
       (traverse (index r) idx)"

definition dataset_to_jsonl :: "(json \<Rightarrow> string) \<Rightarrow> data_set \<Rightarrow> string list \<Rightarrow> string result" where
  "dataset_to_jsonl jtext ds column_order =
     rbind (traverse (\<lambda>name. ok_or (SchemaMismatch (''dataset_to_jsonl: unknown column '' @ sq name)) (index_of (ds_schema ds) name))
              column_order) (\<lambda>idx.
     rmap concat (traverse (row_line jtext column_order idx) (rows ds)))"

definition train_test_row_indices :: "nat \<Rightarrow> f64 \<Rightarrow> nat list \<times> nat list" where
  "train_test_row_indices n test_fraction =
     (let tf = fclamp (fzero False) (of_int64 1) test_fraction;
          test_n = min (to_usize (fround (fmul (of_int64 (int n)) tf))) n;
          train_n = n - test_n in
      ([0..<train_n], [train_n..<n]))"

definition keep_short :: "nat \<Rightarrow> nat \<Rightarrow> row \<Rightarrow> bool" where
  "keep_short idx max_chars r =
     (case get r idx of
        Some (Utf8 s) \<Rightarrow> length (chars s) \<le> max_chars
      | Some Null \<Rightarrow> True
      | None \<Rightarrow> True
      | _ \<Rightarrow> False)"

definition filter_rows_max_utf8_chars :: "data_set \<Rightarrow> string \<Rightarrow> nat \<Rightarrow> data_set result" where
  "filter_rows_max_utf8_chars ds col max_chars =
     rbind (ok_or (SchemaMismatch (''filter_rows_max_utf8_chars: unknown column '' @ sq col))
              (index_of (ds_schema ds) col)) (\<lambda>idx.
     rbind (index (sfields (ds_schema ds)) idx) (\<lambda>f.
       if ftype f \<noteq> TUtf8 then Err (SchemaMismatch (''column '' @ sq col @ '' must be Utf8''))
       else Ok (data_set_new (ds_schema ds) (filter (keep_short idx max_chars) (rows ds)))))"

text \<open>A change summary as JSON (\<open>src/privacy.rs\<close>); \<open>pretty\<close> is \<open>serde_json::to_string_pretty\<close>.\<close>

definition json_of_summary :: "change_summary \<Rightarrow> json" where
  "json_of_summary s = JObject [(''column'', JString (cs_column s)),
     (''non_null_cells_compared'', JNumber (JPosInt (cs_non_null_cells_compared s))), (''cells_changed'', JNumber (JPosInt (cs_cells_changed s)))]"

definition render_privacy_report_json :: "(json \<Rightarrow> string + string) \<Rightarrow> change_summary list \<Rightarrow> string result" where
  "render_privacy_report_json pretty rs =
     (case pretty (JArray (map json_of_summary rs)) of
        Inl e \<Rightarrow> Err (SchemaMismatch (''privacy report json: '' @ e))
      | Inr t \<Rightarrow> Ok t)"

subsection \<open>Texts of objects\<close>

text \<open>A compact object text: braces around something without a line feed.\<close>

definition object_text :: "string \<Rightarrow> bool" where
  "object_text l \<longleftrightarrow> (\<exists>m. l = CHR ''{'' # m @ [CHR ''}''] \<and> CHR 0x0A \<notin> set m)"

lemma not_ws_brace: "\<not> is_ws (CHR ''{'' # cs)"
  by (simp add: is_ws_def Let_def)

lemma trim_braces:
  assumes "l = CHR ''{'' # m" "w = [] \<or> w = [CHR 0x0A]"
  shows "trim (l @ CHR ''}'' # w) = l @ ''}''"
proof -
  have "utf8_start (CHR ''}'' # w)" by (simp add: utf8_start_def is_cont_def)
  then have split: "chars (l @ CHR ''}'' # w) = chars l @ ''}'' # chars w"
    using assms(2) by (auto simp: chars_append is_cont_def)
  obtain g gs where l: "chars l = g # gs" "\<not> is_ws g"
    using not_ws_brace by (simp add: assms(1))
  have end_brace: "\<not> is_ws ''}''" by (simp add: is_ws_def Let_def)
  have "is_ws [CHR 0x0A]" by (simp add: is_ws_def Let_def)
  then have ws: "\<forall>x\<in>set (chars w). is_ws x" using assms(2) by auto
  then have drop: "dropWhile is_ws (rev (chars w) @ ys) = dropWhile is_ws ys" for ys
    by (intro dropWhile_append2) simp
  have "trim_with is_ws (chars l @ ''}'' # chars w) = chars l @ [''}'']"
    using end_brace l drop by (simp add: trim_with_def)
  then show ?thesis by (simp add: trim_def split)
qed

lemma trim_object_text: "object_text l \<Longrightarrow> trim l = l"
  using trim_braces [of "CHR ''{'' # m" m "[]" for m] by (auto simp: object_text_def)

lemma trim_object_lines:
  assumes "ls \<noteq> []" "\<forall>l\<in>set ls. object_text l"
  shows "trim (concat (map (\<lambda>l. l @ [CHR 0x0A]) ls)) = join_with (CHR 0x0A) ls"
proof -
  have join: "concat (map (\<lambda>l. l @ [c]) ls) = join_with c ls @ [c]" if "ls \<noteq> []" for c and ls :: "string list"
    using that by (induction c ls rule: join_with.induct) auto
  obtain l0 rest where ls: "ls = l0 # rest" using assms(1) by (cases ls) auto
  have head: "\<exists>m. join_with c (l # k) = l @ m" for c l k by (cases k) auto
  have last: "\<exists>m. join_with c ls = m @ last ls" if "ls \<noteq> []" for c and ls :: "string list"
    using that by (induction c ls rule: join_with.induct) auto
  obtain m where m: "l0 = CHR ''{'' # m @ ''}''" using assms(2) by (auto simp: ls object_text_def)
  obtain m1 where m1: "join_with (CHR 0x0A) ls = l0 @ m1" using head [of "CHR 0x0A" l0 rest] unfolding ls by blast
  obtain m2 where m2: "join_with (CHR 0x0A) ls = m2 @ last ls" using last assms(1) by blast
  obtain m3 where m3: "last ls = CHR ''{'' # m3 @ ''}''"
    using assms by (auto simp: object_text_def dest!: bspec [OF _ last_in_set])
  define u where "u = m2 @ CHR ''{'' # m3"
  have u: "join_with (CHR 0x0A) ls = u @ ''}''" by (simp add: m2 m3 u_def)
  with m1 m have "hd u = CHR ''{''" by (cases u; simp add: u_def)
  then obtain v where "u = CHR ''{'' # v" by (cases u) (auto simp: u_def)
  then show ?thesis using trim_braces [of u v "[CHR 0x0A]"] by (simp add: join assms(1) u)
qed

lemma split_join:
  "ls \<noteq> [] \<Longrightarrow> \<forall>l\<in>set ls. c \<notin> set l \<Longrightarrow> split_on c (join_with c ls) = ls"
proof (induction c ls rule: join_with.induct)
  case (3 c g h gs)
  have "split_on c (g @ c # t) = g # split_on c t" if "c \<notin> set g" for g t
    using that by (induction g) auto
  with 3 show ?case by simp
qed (auto simp: split_on_no_sep)

lemma str_lines_join:
  assumes "ls \<noteq> []" "\<forall>l\<in>set ls. object_text l"
  shows "str_lines (join_with (CHR 0x0A) ls) = ls"
proof -
  have "\<forall>l\<in>set ls. CHR 0x0A \<notin> set l" using assms(2) by (fastforce simp: object_text_def)
  then have split: "split_on (CHR 0x0A) (join_with (CHR 0x0A) ls) = ls" using assms(1) by (rule split_join [rotated])
  have "strip_cr l = l" if "object_text l" for l using that by (auto simp: strip_cr_def object_text_def)
  then have "map strip_cr (butlast ls) = butlast ls"
    using assms(2) by (intro map_idI) (auto dest: in_set_butlastD)
  moreover have "last ls \<noteq> []" using assms by (auto simp: object_text_def dest!: bspec [OF _ last_in_set])
  ultimately show ?thesis by (simp add: str_lines_def split Let_def append_butlast_last_id assms(1))
qed

subsection \<open>Rows as objects\<close>

definition row_json :: "schema \<Rightarrow> row \<Rightarrow> json" where
  "row_json s r = JObject (build_object (zip (field_names s) (map cell_to_json r)))"

lemma convert_cell_json:
  assumes "has_type v t" "\<forall>f. v = Float64 f \<longrightarrow> is_finite f"
  shows "convert_json_value jtext n c t (cell_to_json v) = Ok v"
  using assms
  by (cases v; cases t) (auto simp: convert_json_value_def cell_to_json_def json_of_f64_def as_f64_def)

lemma json_row_of_row_json:
  assumes "wf_row s r" "distinct (field_names s)" "\<forall>n\<in>set (field_names s). CHR ''.'' \<notin> set n"
    and "\<forall>f. Float64 f \<in> set r \<longrightarrow> is_finite f"
  shows "json_row jtext s (i, row_json s r) = Ok r"
proof -
  note len = wf_row_length [OF assms(1)]
  have "json_cell jtext n (build_object (zip (field_names s) (map cell_to_json r))) (sfields s ! j) = Ok (r ! j)"
    if j: "j < length (sfields s)" for n j
  proof -
    have fin: "\<forall>f. r ! j = Float64 f \<longrightarrow> is_finite f" using assms(4) j len by (metis nth_mem)
    have "CHR ''.'' \<notin> set (fname (sfields s ! j))" using assms(3) j by (simp add: field_names_def)
    then show ?thesis
      using build_object_lookup [of "field_names s" "map cell_to_json r" j] assms(2) j len
        convert_cell_json [OF wf_row_nth [OF assms(1) j] fin]
      by (simp add: json_cell_def get_by_dot_path_def contains_char_def split_on_no_sep field_names_def)
  qed
  then show ?thesis by (simp add: json_row_def row_json_def) (rule traverse_nthI; simp add: len)
qed

lemma dataset_to_jsonl_rows:
  assumes "wf_ds ds" "distinct (field_names (ds_schema ds))"
  shows "dataset_to_jsonl jtext ds (field_names (ds_schema ds)) =
    Ok (concat (map (\<lambda>r. jtext (row_json (ds_schema ds) r) @ [CHR 0x0A]) (rows ds)))"
proof -
  let ?s = "ds_schema ds" and ?n = "length (sfields (ds_schema ds))"
  have "traverse (\<lambda>name. ok_or (SchemaMismatch (''dataset_to_jsonl: unknown column '' @ sq name)) (index_of ?s name))
      (field_names ?s) = Ok [0..<?n]"
    by (rule traverse_nthI) (simp_all add: field_names_def index_of_distinct [OF assms(2)])
  moreover have "row_line jtext (field_names ?s) [0..<?n] r = Ok (jtext (row_json ?s r) @ [CHR 0x0A])" if "r \<in> set (rows ds)" for r
  proof -
    have "length r = ?n" by (rule wf_row_length [OF wf_ds_row [OF assms(1) that]])
    moreover from this have "traverse (index r) [0..<?n] = (Ok r :: row result)" by (intro traverse_nthI) (simp_all add: index_def)
    ultimately show ?thesis by (simp add: row_line_def row_json_def)
  qed
  ultimately show ?thesis by (simp add: dataset_to_jsonl_def traverse_ok)
qed

subsection \<open>Properties\<close>

lemma ingest_lines:
  assumes "trim t = j" "j \<noteq> []" "parse_json j = Inl e" "str_lines j = ls"
  shows "ingest_json_from_str jtext parse_json t s = rbind (ndjson_values parse_json 0 ls) (\<lambda>vs. ingest_json_values jtext vs s)"
  using assms by (simp add: ingest_json_from_str_def Let_def)

text \<open>C14: A dataset exported line by line and read back as JSON text is the same dataset, for at least one
  row, distinct names without dots, finite floats, and a JSON library that prints objects on one line,
  reads them back, and takes several lines for no single document.\<close>

theorem jsonl_roundtrip:
  assumes "wf_ds ds" "rows ds \<noteq> []" "distinct (field_names (ds_schema ds))"
    and "\<forall>n\<in>set (field_names (ds_schema ds)). CHR ''.'' \<notin> set n"
    and "\<forall>r\<in>set (rows ds). \<forall>f. Float64 f \<in> set r \<longrightarrow> is_finite f"
    and "\<forall>r\<in>set (rows ds). object_text (jtext (row_json (ds_schema ds) r)) \<and>
      parse_json (jtext (row_json (ds_schema ds) r)) = Inr (row_json (ds_schema ds) r)"
    and "1 < length (rows ds) \<longrightarrow> \<not> is_ok (parse_json (join_with (CHR 0x0A) (map (\<lambda>r. jtext (row_json (ds_schema ds) r)) (rows ds))))"
  shows "rbind (dataset_to_jsonl jtext ds (field_names (ds_schema ds))) (\<lambda>t. ingest_json_from_str jtext parse_json t (ds_schema ds)) = Ok ds"
proof -
  let ?s = "ds_schema ds" and ?line = "\<lambda>r. jtext (row_json (ds_schema ds) r)"
  let ?lines = "map ?line (rows ds)" and ?docs = "map (row_json (ds_schema ds)) (rows ds)"
  have lines: "?lines \<noteq> []" "\<forall>l\<in>set ?lines. object_text l" using assms(2,6) by simp_all
  have jsonl: "dataset_to_jsonl jtext ds (field_names ?s) = Ok (concat (map (\<lambda>l. l @ [CHR 0x0A]) ?lines))"
    using dataset_to_jsonl_rows [OF assms(1,3)] by (simp add: o_def)
  note trimmed = trim_object_lines [OF lines]
  have row: "json_row jtext ?s (i, row_json ?s r) = Ok r" if "r \<in> set (rows ds)" for i r
    using json_row_of_row_json [OF wf_ds_row [OF assms(1) that] assms(3,4)] assms(5) that by blast
  have reread: "ingest_json_values jtext ?docs ?s = Ok ds"
  proof -
    have "traverse (json_row jtext ?s) (enumerate 0 ?docs) = Ok (rows ds)"
      by (rule traverse_nthI) (simp_all add: nth_enumerate_eq row)
    then show ?thesis by (simp add: ingest_json_values_def data_set_new_def)
  qed
  have nonempty: "join_with (CHR 0x0A) ?lines \<noteq> []"
    using lines by (cases "rows ds"; cases "tl (rows ds)") (auto simp: object_text_def)
  show ?thesis
  proof (cases "1 < length (rows ds)")
    case False
    then obtain r where r: "rows ds = [r]" using assms(2) by (cases "rows ds"; cases "tl (rows ds)") auto
    then have "trim (concat (map (\<lambda>l. l @ [CHR 0x0A]) ?lines)) = ?line r" using trimmed by simp
    moreover have "parse_json (?line r) = Inr (row_json ?s r)" using assms(6) r by simp
    moreover have "?line r \<noteq> []" using lines r by (auto simp: object_text_def)
    ultimately show ?thesis using reread r by (simp add: jsonl ingest_json_from_str_def row_json_def)
  next
    case True
    have good: "trim (?line r) = ?line r \<and> parse_json (?line r) = Inr (row_json ?s r) \<and> ?line r \<noteq> []" if "r \<in> set (rows ds)" for r
      using assms(6) that trim_object_text by (auto simp: object_text_def)
    then have "position (bad_line parse_json) ?lines = None" by (auto simp: position_None_iff bad_line_def)
    moreover have "map (projr \<circ> parse_json) (filter (\<lambda>l. l \<noteq> []) (map trim ?lines)) = ?docs"
      using good by (simp add: filter_map o_def cong: map_cong filter_cong)
    ultimately have "ndjson_values parse_json 0 ?lines = Ok ?docs" by (simp add: ndjson_values_spec)
    moreover obtain e where "parse_json (join_with (CHR 0x0A) ?lines) = Inl e"
      using assms(7) True by (cases "parse_json (join_with (CHR 0x0A) ?lines)") auto
    ultimately show ?thesis
      using ingest_lines [OF trimmed nonempty _ str_lines_join [OF lines]] reread by (simp only: jsonl rbind_simps)
  qed
qed

text \<open>An empty dataset exports to the empty text, which is refused on reading.\<close>

theorem empty_jsonl_refused:
  "dataset_to_jsonl jtext (data_set_new s []) (field_names s) = Ok [] \<and>
   ingest_json_from_str jtext parse_json [] s = Err (SchemaMismatch ''json input is empty'')"
proof
  have "index_of s n \<noteq> None" if "n \<in> set (field_names s)" for n
    using that by (simp add: index_of_None_iff)
  then have "is_ok (traverse (\<lambda>name. ok_or (SchemaMismatch (''dataset_to_jsonl: unknown column '' @ sq name)) (index_of s name)) (field_names s) :: nat list result)"
    by (simp only: traverse_is_ok) (auto simp: is_ok_iff ok_or_Inr_iff)
  then show "dataset_to_jsonl jtext (data_set_new s []) (field_names s) = Ok []"
    by (auto simp: dataset_to_jsonl_def is_ok_iff)
  show "ingest_json_from_str jtext parse_json [] s = Err (SchemaMismatch ''json input is empty'')"
    by (simp add: ingest_json_from_str_def trim_def trim_with_def)
qed

text \<open>The split is a partition in order, whatever the fraction; a fraction that is no number trains on
  every row.\<close>

theorem split_is_partition:
  "fst (train_test_row_indices n x) @ snd (train_test_row_indices n x) = [0..<n] \<and>
   train_test_row_indices n nan = ([0..<n], [])"
proof
  have "[0..<n - k] @ [n - k..<n] = [0..<n]" for k
    using upt_add_eq_append [of 0 "n - k" "n - (n - k)"] by simp
  then show "fst (train_test_row_indices n x) @ snd (train_test_row_indices n x) = [0..<n]"
    by (simp add: train_test_row_indices_def Let_def)
  have "fmul y (fclamp (fzero False) (of_int64 1) nan) = nan" for y
    by (simp add: fclamp_def flt_iff fmul_def Let_def)
  moreover have "to_usize (fround nan) = 0" by (simp add: fround_def to_usize_def)
  ultimately show "train_test_row_indices n nan = ([0..<n], [])"
    by (simp add: train_test_row_indices_def Let_def)
qed

text \<open>Cutting a column to \<open>n\<close> characters makes the filter on that length keep every row, and cutting
  again change nothing.\<close>

theorem cut_then_filter:
  assumes "wf_ds ds" "utf8_truncate_dataset ds c n = Ok out"
    and "\<And>r t. r \<in> set (rows ds) \<Longrightarrow> Utf8 t \<in> set r \<Longrightarrow> utf8_start t"
  shows "filter_rows_max_utf8_chars out c n = Ok out \<and> utf8_truncate_dataset out c n = Ok out"
proof -
  let ?cut = "map_text (truncate_text n)"
  obtain idx where idx: "index_of (ds_schema ds) c = Some idx" "ftype (sfields (ds_schema ds) ! idx) = TUtf8"
      "out = with_texts (truncate_text n) idx ds"
    using assms(1,2) by (auto simp: utf8_truncate_dataset_def update_column_text_step text_step_def split: option.splits if_splits)
  note b = index_of_bound [OF idx(1)]
  have cell: "keep_short idx n (r[idx := ?cut (r ! idx)]) \<and> ?cut (?cut (r ! idx)) = ?cut (r ! idx)"
    if r: "r \<in> set (rows ds)" for r
  proof -
    have row: "idx < length r" "has_type (r ! idx) TUtf8"
      using wf_ds_row [OF assms(1) r] b idx(2) wf_row_nth [of "ds_schema ds" r idx] wf_row_length by force+
    then have "utf8_start t" if "r ! idx = Utf8 t" for t using assms(3) [OF r, of t] that by (metis nth_mem)
    with row show ?thesis by (cases "r ! idx") (auto simp: keep_short_def get_def chars_truncate truncate_text_idem)
  qed
  have "filter (keep_short idx n) (rows out) = rows out"
    using cell by (auto simp: idx(3) filter_id_conv)
  moreover have "with_texts (truncate_text n) idx out = out"
    using cell b by (intro data_set_eqI) (simp_all add: idx(3) wf_row_length [OF wf_ds_row [OF assms(1)]])
  moreover have "data_set_new (ds_schema ds) (rows out) = out" by (rule data_set_eqI) (simp_all add: idx(3))
  moreover have "ds_schema out = ds_schema ds" by (simp add: idx(3))
  moreover have "wf_ds out" using wf_with_texts [OF assms(1)] by (simp add: idx(3))
  ultimately show ?thesis
    using idx(1,2) b
    by (simp add: filter_rows_max_utf8_chars_def index_def utf8_truncate_dataset_def update_column_text_step text_step_def)
qed

subsection \<open>Witnesses\<close>

definition small_jtext :: "json \<Rightarrow> string" where
  "small_jtext v = (if v = JObject [(''a'', JNull)] then ''{n}'' else ''{t}'')"

definition small_parse :: "string \<Rightarrow> string + json" where
  "small_parse t =
     (if t = ''{n}'' then Inr (JObject [(''a'', JNull)])
      else if t = ''{t}'' then Inr (JObject [(''a'', JBool True)]) else Inl ''not a document'')"

definition small_set :: data_set where
  "small_set = data_set_new (schema_new [mk_field ''a'' TBool]) [[Null], [Bool True]]"

lemma jsonl_roundtrip_witness:
  "rbind (dataset_to_jsonl small_jtext small_set [''a'']) (\<lambda>t. ingest_json_from_str small_jtext small_parse t (ds_schema small_set)) = Ok small_set"
proof -
  have s: "ds_schema small_set = schema_new [mk_field ''a'' TBool]" "rows small_set = [[Null], [Bool True]]"
    by (simp_all add: small_set_def)
  have rows: "row_json (ds_schema small_set) [Null] = JObject [(''a'', JNull)]"
    "row_json (ds_schema small_set) [Bool True] = JObject [(''a'', JBool True)]"
    by (simp_all add: s row_json_def field_names_def schema_new_def mk_field_def build_object_def cell_to_json_def)
  have names: "field_names (ds_schema small_set) = [''a'']" by (simp add: s field_names_def schema_new_def mk_field_def)
  have "object_text ''{n}''" "object_text ''{t}''" by (auto simp: object_text_def)
  then show ?thesis
    using jsonl_roundtrip [of small_set small_jtext small_parse]
    by (simp add: names rows s(2) small_jtext_def small_parse_def) (simp add: small_set_def wf_row_def schema_new_def mk_field_def)
qed

lemma cut_then_filter_witness:
  "filter_rows_max_utf8_chars (data_set_new (ds_schema cut_example)
     [[Int64 1, Utf8 ''ab''], [Int64 2, Null], [Int64 3, Utf8 ''a'']]) ''s'' 2 =
   Ok (data_set_new (ds_schema cut_example)
     [[Int64 1, Utf8 ''ab''], [Int64 2, Null], [Int64 3, Utf8 ''a'']])"
proof -
  have "utf8_truncate_dataset cut_example ''s'' 2 = Ok (data_set_new (ds_schema cut_example)
     [[Int64 1, Utf8 ''ab''], [Int64 2, Null], [Int64 3, Utf8 ''a'']])" by code_simp
  moreover have "wf_ds cut_example" by (simp add: cut_example_def wf_row_def mk_field_def schema_new_def)
  moreover have "utf8_start t" if "r \<in> set (rows cut_example)" "Utf8 t \<in> set r" for r t
    using that by (auto simp: cut_example_def utf8_start_def is_cont_def)
  ultimately show ?thesis using cut_then_filter by blast
qed

end
