(* ===== verification/Multi.thy ===== *)
theory Multi
  imports Reduce
begin

text \<open>
  Multi-column and row-index reductions (\<open>src/processing/multi.rs\<close>): one pass that feeds a Welford
  accumulator per column, the first row attaining an extremum, and the most frequent values. The
  iteration order of \<open>HashMap::into_values\<close> is unspecified: it is the argument \<open>hash_order\<close>, any
  function that permutes the buckets.
\<close>

subsection \<open>Mean and deviation of several columns\<close>

record feature_mean_std =
  fm_mean :: value_t
  fm_std_dev :: value_t

type_synonym feature_slot = "string \<times> nat \<times> data_type"

text \<open>The loop that resolves the requested names; \<open>None\<close> for a missing or non-numeric column.\<close>

fun feature_meta :: "schema \<Rightarrow> string list \<Rightarrow> feature_slot list option" where
  "feature_meta s [] = Some []"
| "feature_meta s (name # names) =
     Option.bind (index_of s name) (\<lambda>idx.
     Option.bind (get (sfields s) idx) (\<lambda>f.
       if ftype f \<noteq> TInt64 \<and> ftype f \<noteq> TFloat64 then None
       else map_option (Cons (name, idx, ftype f)) (feature_meta s names)))"

definition feature_cell :: "row \<Rightarrow> feature_slot \<Rightarrow> f64 option" where
  "feature_cell r m = (case m of (_, idx, dt) \<Rightarrow>
     (case (get r idx, dt) of
        (Some (Int64 v), TInt64) \<Rightarrow> Some (of_i64 v)
      | (Some (Float64 v), TFloat64) \<Rightarrow> Some v
      | _ \<Rightarrow> None))"

text \<open>The inner loop over the columns: one row updates every accumulator.\<close>

definition observe_row :: "feature_slot list \<Rightarrow> row \<Rightarrow> f64 welford list \<Rightarrow> f64 welford list" where
  "observe_row meta r ws =
     map2 (\<lambda>m w. case feature_cell r m of Some x \<Rightarrow> observe f64_arith x w | None \<Rightarrow> w) meta ws"

definition feature_out :: "variance_kind \<Rightarrow> feature_slot \<Rightarrow> f64 welford \<Rightarrow> string \<times> feature_mean_std" where
  "feature_out kind m acc =
     (let mean = or_null Float64 (welford_mean acc);
          sd = or_null (\<lambda>v. Float64 (fsqrt v)) (welford_variance f64_arith kind acc)
      in (fst m, if observation_count acc = 0 then \<lparr>fm_mean = Null, fm_std_dev = Null\<rparr>
                 else \<lparr>fm_mean = mean, fm_std_dev = sd\<rparr>))"

definition feature_wise_mean_std ::
  "data_set \<Rightarrow> string list \<Rightarrow> variance_kind \<Rightarrow> (string \<times> feature_mean_std) list option" where
  "feature_wise_mean_std ds columns kind =
     map_option
       (\<lambda>meta. map2 (feature_out kind) meta
          (fold (observe_row meta) (rows ds) (replicate (length meta) (welford_default f64_arith))))
       (feature_meta (ds_schema ds) columns)"

subsection \<open>First row of an extremum\<close>

fun cmp_non_null_values :: "value_t \<Rightarrow> value_t \<Rightarrow> ordering option" where
  "cmp_non_null_values (Int64 x) (Int64 y) = Some (i64_cmp x y)"
| "cmp_non_null_values (Float64 x) (Float64 y) = Some (total_cmp x y)"
| "cmp_non_null_values (Utf8 x) (Utf8 y) = Some (cmp x y)"
| "cmp_non_null_values (Bool x) (Bool y) = Some (cmp x y)"
| "cmp_non_null_values _ _ = None"

fun arg_loop :: "ordering \<Rightarrow> nat \<Rightarrow> nat \<Rightarrow> (nat \<times> value_t) option \<Rightarrow> row list \<Rightarrow> (nat \<times> value_t) option" where
  "arg_loop want idx r best [] = best"
| "arg_loop want idx r best (row # rs) =
     (case get row idx of
        None \<Rightarrow> arg_loop want idx (r + 1) best rs
      | Some cell \<Rightarrow>
          if cell = Null then arg_loop want idx (r + 1) best rs
          else case best of
            None \<Rightarrow> arg_loop want idx (r + 1) (Some (r, cell)) rs
          | Some (br, bv) \<Rightarrow>
              arg_loop want idx (r + 1)
                (if cmp_non_null_values cell bv = Some want then Some (r, cell) else Some (br, bv)) rs)"

definition arg_max_row :: "data_set \<Rightarrow> string \<Rightarrow> (nat \<times> value_t) option option" where
  "arg_max_row ds c = map_option (\<lambda>idx. arg_loop Greater idx 0 None (rows ds)) (index_of (ds_schema ds) c)"

definition arg_min_row :: "data_set \<Rightarrow> string \<Rightarrow> (nat \<times> value_t) option option" where
  "arg_min_row ds c = map_option (\<lambda>idx. arg_loop Less idx 0 None (rows ds)) (index_of (ds_schema ds) c)"

subsection \<open>Most frequent values\<close>

definition show_bits :: "f64 \<Rightarrow> string" where
  "show_bits x = show_int (bits_int x)"

fun freq_bucket_key :: "value_t \<Rightarrow> string option" where
  "freq_bucket_key Null = None"
| "freq_bucket_key (Int64 x) = Some (''i:'' @ show_i64 x)"
| "freq_bucket_key (Float64 x) = Some (''f:'' @ show_bits x)"
| "freq_bucket_key (Bool b) = Some (''b:'' @ show_bool b)"
| "freq_bucket_key (Utf8 s) = Some (''s:'' @ s)"

fun value_sort_key :: "value_t \<Rightarrow> string" where
  "value_sort_key Null = []"
| "value_sort_key (Int64 x) = ''i:'' @ pad20 (sint x)"
| "value_sort_key (Float64 x) = ''f:'' @ pad20 (bits_int x)"
| "value_sort_key (Bool b) = ''b:'' @ show_bool b"
| "value_sort_key (Utf8 s) = ''s:'' @ s"

text \<open>The map from bucket keys to a value and its count, in first-seen order.\<close>

type_synonym buckets = "(string \<times> value_t \<times> i64) list"

fun bump :: "string \<Rightarrow> value_t \<Rightarrow> buckets \<Rightarrow> buckets" where
  "bump bk cell [] = [(bk, cell, 1)]"
| "bump bk cell ((k, v, c) # bs) =
     (if k = bk then (k, v, c + 1) # bs else (k, v, c) # bump bk cell bs)"

definition bucket_row :: "nat \<Rightarrow> row \<Rightarrow> buckets \<Rightarrow> buckets" where
  "bucket_row idx r bs =
     (case get r idx of
        None \<Rightarrow> bs
      | Some cell \<Rightarrow> (case freq_bucket_key cell of None \<Rightarrow> bs | Some bk \<Rightarrow> bump bk cell bs))"

definition freq_cmp :: "value_t \<times> i64 \<Rightarrow> value_t \<times> i64 \<Rightarrow> ordering" where
  "freq_cmp a b =
     then_with (i64_cmp (snd b) (snd a)) (cmp (value_sort_key (fst a)) (value_sort_key (fst b)))"

definition top_k_by_frequency ::
  "((value_t \<times> i64) list \<Rightarrow> (value_t \<times> i64) list) \<Rightarrow> data_set \<Rightarrow> string \<Rightarrow> nat \<Rightarrow> (value_t \<times> i64) list option" where
  "top_k_by_frequency hash_order ds c k =
     map_option
       (\<lambda>idx. take k (sort_by freq_cmp (hash_order (map snd (fold (bucket_row idx) (rows ds) [])))))
       (index_of (ds_schema ds) c)"

subsection \<open>The accumulators of one pass\<close>

lemma feature_cell_stat:
  "dt = TInt64 \<or> dt = TFloat64 \<Longrightarrow> feature_cell r (n, idx, dt) = stat_cell (dt = TInt64) idx r"
  by (auto simp: feature_cell_def stat_cell_def split: option.splits value_t.splits)

lemma length_observe_row [simp]: "length (observe_row meta r ws) = min (length meta) (length ws)"
  by (simp add: observe_row_def)

lemma length_fold_observe:
  "length ws = length meta \<Longrightarrow> length (fold (observe_row meta) rs ws) = length meta"
  by (induction rs arbitrary: ws) simp_all

lemma fold_observe_row:
  assumes "length ws = length meta" "i < length meta"
    and "meta ! i = (n, idx, dt)" "dt = TInt64 \<or> dt = TFloat64"
  shows "length (fold (observe_row meta) rs ws) = length meta \<and>
    fold (observe_row meta) rs ws ! i = fold (observe f64_arith) (stat_cells (dt = TInt64) idx rs) (ws ! i)"
  using assms(1)
proof (induction rs arbitrary: ws)
  case Nil
  then show ?case by (simp add: stat_cells_def map_filter_simps)
next
  case (Cons r rs)
  have "observe_row meta r ws ! i =
      (case stat_cell (dt = TInt64) idx r of Some x \<Rightarrow> observe f64_arith x (ws ! i) | None \<Rightarrow> ws ! i)"
    using Cons.prems assms(2-4) by (simp add: observe_row_def feature_cell_stat)
  with Cons show ?case by (simp add: stat_cells_def map_filter_simps split: option.splits)
qed

lemma feature_meta_Cons:
  "feature_meta s (name # names) =
     (case index_of s name of
        None \<Rightarrow> None
      | Some idx \<Rightarrow> let t = ftype (sfields s ! idx) in
          if t = TInt64 \<or> t = TFloat64 then map_option (Cons (name, idx, t)) (feature_meta s names) else None)"
  by (auto simp: get_index Let_def split: option.split)

declare feature_meta.simps(2) [simp del]

lemma feature_meta_Some_iff:
  "feature_meta s names = Some meta \<longleftrightarrow>
     list_all2 (\<lambda>name m. case m of (n, idx, dt) \<Rightarrow> n = name \<and> index_of s name = Some idx \<and>
       dt = ftype (sfields s ! idx) \<and> (dt = TInt64 \<or> dt = TFloat64)) names meta"
  by (induction names arbitrary: meta)
     (auto simp: feature_meta_Cons list_all2_Cons1 Let_def split: option.splits if_splits)

lemma feature_meta_None_iff:
  "feature_meta s names = None \<longleftrightarrow>
     (\<exists>name\<in>set names. \<forall>idx. index_of s name = Some idx \<longrightarrow> ftype (sfields s ! idx) \<in> {TBool, TUtf8})"
proof (induction names)
  case (Cons name names)
  show ?case
  proof (cases "index_of s name")
    case (Some idx)
    then show ?thesis using Cons
      by (cases "ftype (sfields s ! idx)") (auto simp: feature_meta_Cons)
  qed (simp add: feature_meta_Cons)
qed simp

lemma or_null_fold_mean:
  "or_null Float64 (welford_mean (fold (observe f64_arith) xs (welford_default f64_arith))) =
     (if xs = [] then Null else Float64 (w_mean (fold (observe f64_arith) xs (welford_default f64_arith))))"
  by (simp add: or_null_def welford_mean_def w_n_fold) (simp add: welford_default_def)

subsection \<open>A linear comparison of all values\<close>

text \<open>\<open>cmp_non_null_values\<close> completed across types, so that the search lemmas apply to it.\<close>

fun type_rank :: "value_t \<Rightarrow> nat" where
  "type_rank Null = 0"
| "type_rank (Int64 _) = 1"
| "type_rank (Float64 _) = 2"
| "type_rank (Bool _) = 3"
| "type_rank (Utf8 _) = 4"

definition value_cmp :: "value_t \<Rightarrow> value_t \<Rightarrow> ordering" where
  "value_cmp a b = (case cmp_non_null_values a b of
     Some c \<Rightarrow> c | None \<Rightarrow> cmp (type_rank a) (type_rank b))"

lemma value_cmp_same [simp]:
  "value_cmp (Int64 x) (Int64 y) = i64_cmp x y"
  "value_cmp (Float64 u) (Float64 v) = total_cmp u v"
  "value_cmp (Utf8 s) (Utf8 t) = cmp s t"
  "value_cmp (Bool a) (Bool b) = cmp a b"
  by (simp_all add: value_cmp_def)

lemma value_cmp_rank: "type_rank a \<noteq> type_rank b \<Longrightarrow> value_cmp a b = cmp (type_rank a) (type_rank b)"
  by (cases a; cases b) (simp_all add: value_cmp_def)

lemma value_cmp_null [simp]: "value_cmp Null Null = Equal"
  by (simp add: value_cmp_def cmp_simps)

lemma type_rank_eq_cases:
  assumes "type_rank a = type_rank b"
  obtains "a = Null" "b = Null" | x y where "a = Int64 x" "b = Int64 y"
  | x y where "a = Float64 x" "b = Float64 y" | x y where "a = Bool x" "b = Bool y"
  | x y where "a = Utf8 x" "b = Utf8 y"
  using assms that by (cases a; cases b) auto

lemma value_cmp_le_rank: "value_cmp a b \<noteq> Greater \<Longrightarrow> type_rank a \<le> type_rank b"
  using value_cmp_rank [of a b] by (cases "type_rank a = type_rank b") (auto simp: cmp_simps)

interpretation vals: linear_cmp value_cmp
proof
  show "value_cmp y x = reverse (value_cmp x y)" for x y
  proof (cases "type_rank x = type_rank y")
    case True
    then show ?thesis
      by (cases rule: type_rank_eq_cases) (simp_all, (rule i64.swap f64_total.swap lin.swap)+)
  next
    case False
    then show ?thesis by (simp add: value_cmp_rank lin.swap [of "type_rank y" "type_rank x"])
  qed
  show "value_cmp x z \<noteq> Greater" if xy: "value_cmp x y \<noteq> Greater" and yz: "value_cmp y z \<noteq> Greater" for x y z
  proof (cases "type_rank x = type_rank y \<and> type_rank y = type_rank z")
    case True
    then show ?thesis using xy yz
      by (cases x; cases y; cases z; simp)
         (erule (1) i64.trans_le, erule (1) f64_total.trans_le, erule (1) lin.trans_le, erule (1) lin.trans_le)
  next
    case False
    then have "type_rank x < type_rank z" using value_cmp_le_rank [OF xy] value_cmp_le_rank [OF yz] by auto
    then show ?thesis by (simp add: value_cmp_rank cmp_simps)
  qed
  show "x = y" if "value_cmp x y = Equal" for x y
  proof (cases "type_rank x = type_rank y")
    case True
    then show ?thesis using that
      by (cases rule: type_rank_eq_cases) (simp_all add: i64.eq_iff f64_total.eq_iff lin.eq_iff)
  next
    case False
    with that show ?thesis by (simp add: value_cmp_rank cmp_simps)
  qed
qed

subsection \<open>The search for an extremum\<close>

text \<open>The non-null cells of a column with their row numbers, in row order.\<close>

fun row_cells :: "nat \<Rightarrow> nat \<Rightarrow> row list \<Rightarrow> (nat \<times> value_t) list" where
  "row_cells idx r [] = []"
| "row_cells idx r (row # rs) =
     (case get row idx of
        None \<Rightarrow> row_cells idx (r + 1) rs
      | Some v \<Rightarrow> if v = Null then row_cells idx (r + 1) rs else (r, v) # row_cells idx (r + 1) rs)"

lemma row_cells_set:
  "(i, v) \<in> set (row_cells idx r rs) \<longleftrightarrow>
     r \<le> i \<and> i < r + length rs \<and> get (rs ! (i - r)) idx = Some v \<and> v \<noteq> Null"
proof (induction rs arbitrary: r)
  case (Cons row rs)
  show ?case
  proof (cases "i = r")
    case True
    then show ?thesis using Cons [of "Suc r"] by (auto split: option.split)
  next
    case False
    then have "(i, v) \<in> set (row_cells idx r (row # rs)) \<longleftrightarrow> (i, v) \<in> set (row_cells idx (r + 1) rs)"
      by (auto split: option.split)
    with False Cons [of "r + 1"] show ?thesis by (cases "r < i") (auto simp: nth_Cons')
  qed
qed simp

lemma row_cells_mem: "p \<in> set (row_cells idx 0 rs) \<Longrightarrow> \<exists>r\<in>set rs. get r idx = Some (snd p) \<and> snd p \<noteq> Null"
  by (cases p) (auto simp: row_cells_set)

lemma row_cells_sorted: "sorted_wrt (\<lambda>a b. fst a < fst b) (row_cells idx r rs)"
proof (induction rs arbitrary: r)
  case (Cons row rs)
  have "\<forall>p\<in>set (row_cells idx (r + 1) rs). r < fst p" by (auto simp: row_cells_set)
  with Cons show ?case by (simp split: option.split)
qed simp

lemma arg_loop_best:
  "arg_loop want idx r best rs =
     best_from (\<lambda>x b. cmp_non_null_values (snd x) (snd b) = Some want) best (row_cells idx r rs)"
  by (induction rs arbitrary: r best) (auto split: option.splits)

lemma best_from_cong:
  "(\<And>x y. x \<in> set xs \<union> set_option b \<Longrightarrow> y \<in> set xs \<union> set_option b \<Longrightarrow> p x y = q x y) \<Longrightarrow>
   best_from p b xs = best_from q b xs"
proof (induction p b xs rule: best_from.induct)
  case (3 p b x xs)
  have "p x b = q x b" by (rule "3.prems") auto
  moreover have "best_from p (Some (if p x b then x else b)) xs = best_from q (Some (if p x b then x else b)) xs"
    by (rule "3.IH") (auto intro!: "3.prems" split: if_splits)
  ultimately show ?case by simp
next
  case (2 p x xs)
  then show ?case by simp
qed simp

lemma typed_cmp: "has_type v t \<Longrightarrow> has_type w t \<Longrightarrow> v \<noteq> Null \<Longrightarrow> w \<noteq> Null \<Longrightarrow>
    cmp_non_null_values v w = Some (value_cmp v w)"
  by (cases v; cases w) auto

lemma preorder_cmp_on: "preorder_cmp c \<Longrightarrow> preorder_cmp (\<lambda>a b. c (f a) (f b))"
  unfolding preorder_cmp_def by blast

lemma preorder_cmp_flip: "preorder_cmp c \<Longrightarrow> preorder_cmp (\<lambda>a b. c b a)"
  unfolding preorder_cmp_def by blast

text \<open>What a search over the cells finds: the first cell that no other one beats.\<close>

lemma best_cell:
  fixes cells :: "(nat \<times> 'a) list"
  assumes "preorder_cmp c" and "best_from (\<lambda>x b. c x b = Greater) None cells = Some m"
    and "sorted_wrt (\<lambda>a b. fst a < fst b) cells"
  shows "m \<in> set cells \<and> (\<forall>x\<in>set cells. c x m \<noteq> Greater \<and> (fst x < fst m \<longrightarrow> c m x = Greater))"
proof (cases cells)
  case Nil
  with assms(2) show ?thesis by simp
next
  case (Cons x xs)
  then have b: "best_from (\<lambda>x b. c x b = Greater) (Some x) xs = Some m" using assms(2) by simp
  have up: "c x m \<noteq> Greater" "\<forall>y\<in>set xs. c y m \<noteq> Greater"
    using preorder_cmp.best_from_upper [OF assms(1) b] by auto
  have lt: "\<forall>y\<in>set xs. fst x < fst y" using assms(3) Cons by simp
  consider "m = x" | us vs where "xs = us @ m # vs" "\<forall>u\<in>set us. c m u = Greater" "c m x = Greater"
    using preorder_cmp.best_from_first [OF assms(1) b] by auto
  then show ?thesis
  proof cases
    case 1
    have "y \<in> set xs \<Longrightarrow> \<not> fst y < fst x" for y using lt by (meson less_asym)
    with 1 up Cons show ?thesis by auto
  next
    case 2
    then have "\<forall>v\<in>set vs. fst m < fst v" using assms(3) Cons by (simp add: sorted_wrt_append)
    then have "y \<in> set vs \<Longrightarrow> \<not> fst y < fst m" for y by (meson less_asym)
    with 2 up Cons show ?thesis by auto
  qed
qed

definition first_extremum :: "ordering \<Rightarrow> nat \<Rightarrow> row list \<Rightarrow> (nat \<times> value_t) option \<Rightarrow> bool" where
  "first_extremum want idx rs best \<longleftrightarrow>
     (let cell = (\<lambda>i v. i < length rs \<and> get (rs ! i) idx = Some v \<and> v \<noteq> Null) in
      case best of
        None \<Rightarrow> \<not> (\<exists>i v. cell i v)
      | Some (r, m) \<Rightarrow> cell r m \<and>
          (\<forall>i v. cell i v \<longrightarrow> cmp_non_null_values v m \<noteq> Some want \<and>
                 (i < r \<longrightarrow> cmp_non_null_values m v = Some want)))"

lemma arg_loop_first:
  assumes typed: "\<forall>r\<in>set rs. \<forall>v. get r idx = Some v \<longrightarrow> has_type v t" and "want = Less \<or> want = Greater"
  shows "first_extremum want idx rs (arg_loop want idx 0 None rs)"
proof -
  let ?cells = "row_cells idx 0 rs"
  define c where "c = (if want = Greater then (\<lambda>(a :: nat \<times> value_t) (b :: nat \<times> value_t). value_cmp (snd a) (snd b))
                       else (\<lambda>(a :: nat \<times> value_t) (b :: nat \<times> value_t). value_cmp (snd b) (snd a)))"
  have pre: "preorder_cmp c"
    using preorder_cmp_on [OF vals.preorder_cmp_axioms, of snd] preorder_cmp_flip by (auto simp: c_def)
  have agree: "cmp_non_null_values (snd x) (snd y) = Some want \<longleftrightarrow> c x y = Greater"
    if "x \<in> set ?cells" "y \<in> set ?cells" for x y
  proof -
    have "cmp_non_null_values (snd x) (snd y) = Some (value_cmp (snd x) (snd y))"
      using that [THEN row_cells_mem] typed by (intro typed_cmp [of _ t]) auto
    then show ?thesis using assms(2) vals.greater_iff by (auto simp: c_def)
  qed
  have loop: "arg_loop want idx 0 None rs = best_from (\<lambda>x b. c x b = Greater) None ?cells"
    unfolding arg_loop_best by (rule best_from_cong) (auto simp: agree)
  show ?thesis
  proof (cases "arg_loop want idx 0 None rs")
    case None
    then have "?cells = []" using loop by (simp add: best_from_None_iff)
    then have "(i, v) \<notin> set ?cells" for i v by simp
    then show ?thesis by (simp add: None first_extremum_def row_cells_set)
  next
    case (Some m)
    have best: "m \<in> set ?cells" "\<And>x. x \<in> set ?cells \<Longrightarrow> c x m \<noteq> Greater"
      "\<And>x. x \<in> set ?cells \<Longrightarrow> fst x < fst m \<Longrightarrow> c m x = Greater"
      using best_cell [OF pre, of ?cells m] Some loop row_cells_sorted by auto
    have "cmp_non_null_values v (snd m) \<noteq> Some want \<and> (i < fst m \<longrightarrow> cmp_non_null_values (snd m) v = Some want)"
      if "(i, v) \<in> set ?cells" for i v
      using best(2,3) [OF that] agree [OF that best(1)] agree [OF best(1) that] by auto
    then show ?thesis
      using best(1) by (cases m) (auto simp: Some first_extremum_def row_cells_set)
  qed
qed

subsection \<open>Keys of values\<close>

text \<open>Both keys determine the value: decimal digits can be read back, whatever the padding.\<close>

definition dec_val :: "string \<Rightarrow> int" where
  "dec_val cs = foldl (\<lambda>a c. 10 * a + digit_val c) 0 cs"

lemma dec_val_snoc: "dec_val (cs @ [c]) = 10 * dec_val cs + digit_val c"
  by (simp add: dec_val_def)

lemma dec_val_show_nat: "dec_val (show_nat n) = int n"
proof (induction n rule: show_nat.induct)
  case (1 n)
  show ?case
  proof (cases "n < 10")
    case True
    then show ?thesis by (simp add: show_nat.simps [of n] dec_val_def digit_val_digit)
  next
    case False
    then have "dec_val (show_nat n) = 10 * int (n div 10) + int (n mod 10)"
      using 1 by (subst show_nat.simps) (simp add: dec_val_snoc digit_val_digit)
    then show ?thesis by (simp add: zdiv_int zmod_int)
  qed
qed

lemma dec_val_zeros: "dec_val (replicate k (CHR ''0'') @ cs) = dec_val cs"
  by (induction k) (simp_all add: dec_val_def digit_val_def)

lemma show_nat_not_minus: "show_nat n = CHR ''-'' # cs \<Longrightarrow> False"
  using show_nat_digits [of "CHR ''-''" n] by (simp add: is_digit_def)

lemma show_int_inj: "show_int m = show_int n \<Longrightarrow> m = n"
  by (cases "m < 0"; cases "n < 0")
     (auto simp: show_int_def dest: show_nat_not_minus show_nat_not_minus [OF sym] arg_cong [of _ _ dec_val]
       simp: dec_val_show_nat)

definition padded :: "nat \<Rightarrow> nat \<Rightarrow> string" where
  "padded w n = (let d = show_nat n in replicate (w - length d) (CHR ''0'') @ d)"

lemma dec_val_padded: "dec_val (padded w n) = int n"
  by (simp add: padded_def Let_def dec_val_zeros dec_val_show_nat)

lemma padded_not_minus: "padded w n = CHR ''-'' # cs \<Longrightarrow> False"
proof -
  assume "padded w n = CHR ''-'' # cs"
  then have "CHR ''-'' \<in> set (padded w n)" by simp
  then show False
    using show_nat_digits [of "CHR ''-''" n] by (auto simp: padded_def Let_def is_digit_def)
qed

lemma pad20_padded: "pad20 n = (if n < 0 then CHR ''-'' # padded 19 (nat (- n)) else padded 20 (nat n))"
  by (simp add: pad20_def padded_def)

lemma pad20_inj: "pad20 m = pad20 n \<Longrightarrow> m = n"
  by (cases "m < 0"; cases "n < 0")
     (auto simp: pad20_padded dec_val_padded dest: padded_not_minus padded_not_minus [OF sym] arg_cong [of _ _ dec_val])

lemma bits_int_inj: "bits_int x = bits_int y \<Longrightarrow> x = y"
  by (cases x; cases y) (simp add: bits_int_def word_uint_eq_iff)

lemma sint_inj: "sint (x :: i64) = sint y \<Longrightarrow> x = y"
  by (simp add: signed_word_eqI)

lemma value_sort_key_inj: "value_sort_key v = value_sort_key w \<Longrightarrow> v = w"
  by (cases v; cases w) (auto dest!: pad20_inj bits_int_inj sint_inj simp: show_bool_def split: if_splits)

lemma freq_bucket_key_inj: "freq_bucket_key v = Some k \<Longrightarrow> freq_bucket_key w = Some k \<Longrightarrow> v = w"
  by (cases v; cases w)
     (auto dest!: show_int_inj bits_int_inj sint_inj simp: show_i64_def show_bits_def show_bool_def split: if_splits)

lemma freq_bucket_key_None [simp]: "freq_bucket_key v = None \<longleftrightarrow> v = Null"
  by (cases v) auto

interpretation freq: linear_cmp freq_cmp
proof
  show "freq_cmp y x = reverse (freq_cmp x y)" for x y
    unfolding freq_cmp_def i64_cmp_def cmp_key_def cmp_def by auto
  show "freq_cmp x z \<noteq> Greater" if "freq_cmp x y \<noteq> Greater" and "freq_cmp y z \<noteq> Greater" for x y z
    using that unfolding freq_cmp_def i64_cmp_def cmp_key_def cmp_def by (auto split: if_splits)
  show "x = y" if "freq_cmp x y = Equal" for x y
    using that unfolding freq_cmp_def i64_cmp_def cmp_key_def cmp_def
    by (auto split: if_splits intro!: prod_eqI dest: sint_inj value_sort_key_inj)
qed

lemma sint_eq_iff: "sint (x :: i64) = sint y \<longleftrightarrow> x = y"
  using sint_inj by blast

lemma freq_cmp_le:
  "freq_cmp a b \<noteq> Greater \<longleftrightarrow> sint (snd b) < sint (snd a) \<or>
     (snd a = snd b \<and> value_sort_key (fst a) \<le> value_sort_key (fst b))"
  by (cases "sint (snd b)" "sint (snd a)" rule: linorder_cases)
     (auto simp: freq_cmp_def i64_cmp_def cmp_key_def cmp_def sint_eq_iff not_less)

subsection \<open>The buckets\<close>

definition value_cells :: "nat \<Rightarrow> row list \<Rightarrow> value_t list" where
  "value_cells idx rs = filter (\<lambda>v. v \<noteq> Null) (List.map_filter (\<lambda>r. get r idx) rs)"

definition bucket_inv :: "value_t list \<Rightarrow> buckets \<Rightarrow> bool" where
  "bucket_inv cells bs \<longleftrightarrow> distinct (map fst bs) \<and>
     (\<forall>k v c. (k, v, c) \<in> set bs \<longleftrightarrow>
        v \<in> set cells \<and> freq_bucket_key v = Some k \<and> c = word_of_nat (count_list cells v))"

lemma bump_keys: "set (map fst (bump k v bs)) = insert k (set (map fst bs))"
  by (induction k v bs rule: bump.induct) auto

lemma bump_distinct: "distinct (map fst bs) \<Longrightarrow> distinct (map fst (bump k v bs))"
proof (induction k v bs rule: bump.induct)
  case (2 k v k' v' c bs)
  then show ?case using bump_keys [of k v bs] by auto
qed simp

lemma bump_set:
  "distinct (map fst bs) \<Longrightarrow>
   (k', v', c') \<in> set (bump k v bs) \<longleftrightarrow>
     (if k' = k then (\<exists>c. (k, v', c) \<in> set bs \<and> c' = c + 1) \<or> (k \<notin> set (map fst bs) \<and> v' = v \<and> c' = 1)
      else (k', v', c') \<in> set bs)"
proof (induction k v bs rule: bump.induct)
  case (2 k v k1 v1 c1 bs)
  show ?case
  proof (cases "k1 = k")
    case True
    with "2.prems" show ?thesis by (force simp: image_iff)
  next
    case False
    then have "(k', v', c') \<in> set (bump k v bs) \<longleftrightarrow>
        (if k' = k then (\<exists>c. (k, v', c) \<in> set bs \<and> c' = c + 1) \<or> (k \<notin> set (map fst bs) \<and> v' = v \<and> c' = 1)
         else (k', v', c') \<in> set bs)"
      using 2 by simp
    with False show ?thesis by auto
  qed
qed auto

lemma bump_inv:
  assumes inv: "bucket_inv cells bs" and k: "freq_bucket_key v = Some k"
  shows "bucket_inv (cells @ [v]) (bump k v bs)"
proof -
  have d: "distinct (map fst bs)" using inv by (simp add: bucket_inv_def)
  have mem: "(k', v', c) \<in> set bs \<longleftrightarrow>
      v' \<in> set cells \<and> freq_bucket_key v' = Some k' \<and> c = word_of_nat (count_list cells v')" for k' v' c
    using inv by (simp add: bucket_inv_def)
  have new: "k \<notin> set (map fst bs) \<longleftrightarrow> v \<notin> set cells"
  proof
    assume notin: "k \<notin> set (map fst bs)"
    have "v \<in> set cells \<Longrightarrow> (k, v, word_of_nat (count_list cells v)) \<in> set bs" using k by (simp add: mem)
    then show "v \<notin> set cells" using notin by force
  next
    assume "v \<notin> set cells"
    show "k \<notin> set (map fst bs)"
    proof
      assume "k \<in> set (map fst bs)"
      then obtain v' c where "(k, v', c) \<in> set bs" by auto
      then have "v' \<in> set cells" "freq_bucket_key v' = Some k" by (simp_all add: mem)
      with k \<open>v \<notin> set cells\<close> show False using freq_bucket_key_inj by blast
    qed
  qed
  have "(k', v', c) \<in> set (bump k v bs) \<longleftrightarrow> v' \<in> set (cells @ [v]) \<and> freq_bucket_key v' = Some k' \<and>
      c = word_of_nat (count_list (cells @ [v]) v')" for k' v' c
  proof (cases "k' = k")
    case True
    show ?thesis
    proof (cases "v' = v")
      case eq: True
      have "v \<notin> set cells \<Longrightarrow> count_list cells v = 0" by (rule count_notin)
      then show ?thesis
        unfolding bump_set [OF d] new using True eq k
        by (cases "v \<in> set cells") (auto simp: mem add.commute)
    next
      case False
      then have "freq_bucket_key v' \<noteq> Some k" using k freq_bucket_key_inj by blast
      with True False show ?thesis unfolding bump_set [OF d] new by (simp add: mem)
    qed
  next
    case False
    then have "freq_bucket_key v' = Some k' \<Longrightarrow> v' \<noteq> v" using k by auto
    with False show ?thesis unfolding bump_set [OF d] by (auto simp: mem)
  qed
  with bump_distinct [OF d] show ?thesis by (simp add: bucket_inv_def)
qed

lemma fold_buckets: "bucket_inv (value_cells idx rs) (fold (bucket_row idx) rs [])"
proof (induction rs rule: rev_induct)
  case Nil
  show ?case by (simp add: bucket_inv_def value_cells_def map_filter_simps)
next
  case (snoc r rs)
  let ?bs = "fold (bucket_row idx) rs []"
  have cells: "value_cells idx (rs @ [r]) = value_cells idx rs @
      (case get r idx of None \<Rightarrow> [] | Some v \<Rightarrow> if v = Null then [] else [v])"
    by (simp add: value_cells_def map_filter_def split: option.split)
  show ?case
  proof (cases "get r idx")
    case (Some v)
    then show ?thesis
      using snoc bump_inv [OF snoc, of v] by (cases "freq_bucket_key v") (auto simp: cells bucket_row_def)
  qed (use snoc in \<open>simp add: cells bucket_row_def\<close>)
qed

lemma bucket_values:
  assumes "bucket_inv cells bs"
  shows "distinct (map fst (map snd bs)) \<and>
    set (map snd bs) = {(v, word_of_nat (count_list cells v)) | v. v \<in> set cells \<and> v \<noteq> Null}"
proof
  have mem: "(k, v, c) \<in> set bs \<longleftrightarrow>
      v \<in> set cells \<and> freq_bucket_key v = Some k \<and> c = word_of_nat (count_list cells v)" for k v c
    using assms by (simp add: bucket_inv_def)
  have "inj_on (fst \<circ> snd) (set bs)"
    by (intro inj_onI) (clarsimp simp: mem)
  moreover have "distinct bs" using assms by (auto simp: bucket_inv_def distinct_map)
  ultimately show "distinct (map fst (map snd bs))" by (simp add: distinct_map comp_def)
  show "set (map snd bs) = {(v, word_of_nat (count_list cells v)) | v. v \<in> set cells \<and> v \<noteq> Null}"
  proof (intro set_eqI iffI)
    fix p :: "value_t \<times> i64" assume "p \<in> {(v, word_of_nat (count_list cells v)) | v. v \<in> set cells \<and> v \<noteq> Null}"
    then obtain v where v: "p = (v, word_of_nat (count_list cells v))" "v \<in> set cells" "v \<noteq> Null" by blast
    then obtain k where "freq_bucket_key v = Some k" by (cases "freq_bucket_key v") auto
    with v have "(k, p) \<in> set bs" by (simp add: mem)
    then show "p \<in> set (map snd bs)" by force
  qed (auto simp: mem)
qed

subsection \<open>Properties\<close>

text \<open>\<open>feature_wise_mean_std\<close> fails exactly when a name is missing or its column is not numeric,
  and otherwise its single pass yields for every listed column what the separate \<open>Mean\<close> and
  \<open>StdDev\<close> reductions of that column yield.\<close>

theorem feature_wise_is_reduce:
  "case feature_wise_mean_std ds columns kind of
     None \<Rightarrow> \<exists>c\<in>set columns. \<forall>idx. index_of (ds_schema ds) c = Some idx \<longrightarrow>
               ftype (sfields (ds_schema ds) ! idx) \<in> {TBool, TUtf8}
   | Some out \<Rightarrow> map fst out = columns \<and>
       (\<forall>i<length columns.
          reduce checks ds (columns ! i) Mean = Ok (Some (fm_mean (snd (out ! i)))) \<and>
          reduce checks ds (columns ! i) (StdDev kind) = Ok (Some (fm_std_dev (snd (out ! i)))))"
proof (cases "feature_meta (ds_schema ds) columns")
  case None
  then have "feature_wise_mean_std ds columns kind = None" by (simp add: feature_wise_mean_std_def)
  with None show ?thesis unfolding feature_meta_None_iff by simp
next
  case (Some meta)
  let ?ws = "fold (observe_row meta) (rows ds) (replicate (length meta) (welford_default f64_arith))"
  let ?out = "map2 (feature_out kind) meta ?ws"
  have all2: "list_all2 (\<lambda>name m. case m of (n, idx, dt) \<Rightarrow> n = name \<and>
      index_of (ds_schema ds) name = Some idx \<and> dt = ftype (sfields (ds_schema ds) ! idx) \<and>
      (dt = TInt64 \<or> dt = TFloat64)) columns meta"
    using Some by (simp add: feature_meta_Some_iff)
  then have len: "length meta = length columns" by (simp add: list_all2_lengthD)
  have col: "length ?ws = length meta \<and> fst (?out ! i) = columns ! i \<and>
      reduce checks ds (columns ! i) Mean = Ok (Some (fm_mean (snd (?out ! i)))) \<and>
      reduce checks ds (columns ! i) (StdDev kind) = Ok (Some (fm_std_dev (snd (?out ! i))))"
    if i: "i < length columns" for i
  proof -
    obtain n idx dt where m: "meta ! i = (n, idx, dt)" by (cases "meta ! i")
    then have h: "n = columns ! i" "index_of (ds_schema ds) (columns ! i) = Some idx"
      "ftype (sfields (ds_schema ds) ! idx) = dt" "dt = TInt64 \<or> dt = TFloat64"
      using list_all2_nthD [OF all2 i] by auto
    let ?xs = "stat_cells (dt = TInt64) idx (rows ds)"
    let ?w = "fold (observe f64_arith) ?xs (welford_default f64_arith)"
    have ws: "length ?ws = length meta" "?ws ! i = ?w"
      using fold_observe_row [of _ meta i, OF _ _ m h(4)] i len by simp_all
    have "?out ! i = feature_out kind (n, idx, dt) ?w" using i len ws m by simp
    moreover have "observation_count ?w = length ?xs"
      by (simp add: observation_count_def w_n_fold welford_default_def)
    ultimately show ?thesis
      using ws(1) h by (simp add: reduce_statistics_aux [OF h(2-4), unfolded Let_def] feature_out_def or_null_fold_mean Let_def)
  qed
  have "length ?ws = length meta" by (rule length_fold_observe) simp
  then have "map fst ?out = columns"
    using col len by (intro nth_equalityI) auto
  with col show ?thesis by (simp add: feature_wise_mean_std_def Some)
qed

text \<open>\<open>arg_max_row\<close> and \<open>arg_min_row\<close> return the first row attaining the extremum of a typed
  column: no non-null cell compares beyond it and every earlier one compares strictly short of it.\<close>

theorem arg_rows_first:
  assumes "wf_ds ds" and "index_of (ds_schema ds) c = Some idx"
  shows "\<exists>hi lo. arg_max_row ds c = Some hi \<and> first_extremum Greater idx (rows ds) hi \<and>
                 arg_min_row ds c = Some lo \<and> first_extremum Less idx (rows ds) lo"
proof -
  have typed: "\<forall>r\<in>set (rows ds). \<forall>v. get r idx = Some v \<longrightarrow> has_type v (ftype (sfields (ds_schema ds) ! idx))"
    using wf_ds_row [OF assms(1)] wf_row_nth index_of_bound [OF assms(2)] by (auto simp: get_Some_iff)
  show ?thesis
    using arg_loop_first [OF typed, of Greater] arg_loop_first [OF typed, of Less] assms(2)
    by (auto simp: arg_max_row_def arg_min_row_def)
qed

text \<open>\<open>top_k_by_frequency\<close> returns the first \<open>k\<close> of the distinct non-null cells with their
  numbers of occurrences, by descending count and then ascending sort key, whatever order the hash map yields.\<close>

theorem top_k_spec:
  assumes hash: "\<And>xs. mset (hash_order xs) = mset xs" and idx: "index_of (ds_schema ds) c = Some idx"
  shows "\<exists>top. top_k_by_frequency hash_order ds c k = Some (take k top) \<and>
      top_k_by_frequency (\<lambda>xs. xs) ds c k = Some (take k top) \<and> distinct (map fst top) \<and>
      set top = {(v, word_of_nat (count_list (value_cells idx (rows ds)) v)) | v.
                  v \<in> set (value_cells idx (rows ds)) \<and> v \<noteq> Null} \<and>
      sorted_wrt (\<lambda>a b. sint (snd b) < sint (snd a) \<or>
        (snd a = snd b \<and> value_sort_key (fst a) \<le> value_sort_key (fst b))) top"
proof -
  let ?vs = "map snd (fold (bucket_row idx) (rows ds) [])"
  let ?top = "sort_by freq_cmp ?vs"
  have same: "sort_by freq_cmp (hash_order ?vs) = ?top" by (rule freq.sort_by_perm) (rule hash)
  have dist: "distinct (map fst ?vs)" and set: "set ?top = {(v, word_of_nat (count_list (value_cells idx (rows ds)) v)) | v.
      v \<in> set (value_cells idx (rows ds)) \<and> v \<noteq> Null}"
    using bucket_values [OF fold_buckets [of idx "rows ds"]] by simp_all
  have "mset (map fst ?top) = mset (map fst ?vs)" by (simp only: mset_map mset_sort_by)
  from mset_eq_imp_distinct_iff [OF this] dist have "distinct (map fst ?top)" by (rule iffD2)
  moreover have "sorted_wrt (\<lambda>a b. sint (snd b) < sint (snd a) \<or>
      (snd a = snd b \<and> value_sort_key (fst a) \<le> value_sort_key (fst b))) ?top"
    using freq.sorted_sort_by [of ?vs] by (simp add: freq_cmp_le)
  moreover have "top_k_by_frequency hash_order ds c k = Some (take k ?top)"
    "top_k_by_frequency (\<lambda>xs. xs) ds c k = Some (take k ?top)"
    by (simp_all only: top_k_by_frequency_def idx same option.map)
  ultimately show ?thesis using set by blast
qed

subsection \<open>Witnesses\<close>

lemma feature_wise_is_reduce_witness:
  "\<exists>out. feature_wise_mean_std sample_ds [''id'', ''score''] Sample = Some out \<and>
     reduce True sample_ds ''score'' Mean = Ok (Some (fm_mean (snd (out ! 1))))"
proof -
  have "feature_meta (ds_schema sample_ds) [''id'', ''score''] \<noteq> None"
    by (simp add: feature_meta_None_iff sample_cells del: One_nat_def)
  then obtain out where out: "feature_wise_mean_std sample_ds [''id'', ''score''] Sample = Some out"
    by (auto simp: feature_wise_mean_std_def)
  then show ?thesis using feature_wise_is_reduce [where ds = sample_ds and columns = "[''id'', ''score'']"
        and kind = Sample and checks = True]
    by (auto dest: spec [of _ 1])
qed

lemma arg_rows_first_witness:
  "\<exists>hi lo. arg_max_row sample_ds ''id'' = Some hi \<and> first_extremum Greater 0 (rows sample_ds) hi \<and>
           arg_min_row sample_ds ''id'' = Some lo \<and> first_extremum Less 0 (rows sample_ds) lo"
proof -
  have "wf_ds sample_ds" by code_simp
  then show ?thesis using arg_rows_first [of sample_ds "''id''" 0] by (simp add: sample_cells)
qed

lemma top_k_spec_witness: "top_k_by_frequency rev sample_ds ''tag'' 1 = Some [(Utf8 ''a'', 2)]"
proof -
  have "index_of (ds_schema sample_ds) ''tag'' = Some 2"
    and "top_k_by_frequency (\<lambda>xs. xs) sample_ds ''tag'' 1 = Some [(Utf8 ''a'', 2)]" by code_simp+
  then show ?thesis using top_k_spec [of rev sample_ds "''tag''" 2 1] by auto
qed

end
