(* ===== verification/Plan.thy ===== *)
theory Plan
  imports Polars_Bridge Multi
begin

text \<open>
  The lazy pipeline (\<open>src/pipeline/mod.rs\<close>). A \<open>DataFrame\<close> holds a lazy plan; every operation adds a
  node to it, and only \<open>collect\<close>, \<open>reduce\<close> and \<open>feature_wise_mean_std\<close> evaluate one. Plans and
  expressions are the syntax trees the code builds; evaluating them is a field of \<open>engine\<close>. The
  operations that only add a node return the plan itself: the source wraps it in \<open>Ok\<close>. \<open>LQuery\<close>
  stands for the plan that Polars SQL builds for a query over named plans.
\<close>

subsection \<open>Expressions and plans\<close>

datatype lit = LitValue value_t | LitU32 "32 word" | LitSeries series

datatype bin_op = OpEq | OpLt | OpGt | OpOr | OpAdd | OpSub | OpMul | OpDiv | OpMod

datatype fun_op =
    FnIsNull | FnIsNotNull | FnNot | FnAbs | FnSqrt | FnDropNulls | FnLenChars
  | FnStrictCast polars_dtype | FnCast polars_dtype | FnContains lit bool | FnIsIn lit bool

datatype agg_op =
    AgSum | AgMin | AgMax | AgMean | AgMedian | AgVar nat | AgStd nat | AgCount | AgNUnique
  | AgNullCount | AgQuantile lit

datatype expr =
    ECol string
  | ELit lit
  | ELen
  | EFun fun_op expr
  | EAgg agg_op expr
  | EBin bin_op expr expr
  | EPow expr expr
  | EFillNull expr expr
  | EAlias expr string

datatype join_type = JoinInner | JoinLeft | JoinRight | JoinFull

datatype lazy_frame =
    LFrame frame
  | LFilter lazy_frame expr
  | LWithColumns lazy_frame "expr list"
  | LSelect lazy_frame "expr list"
  | LRename lazy_frame "string list" "string list" bool
  | LDrop lazy_frame "string list" bool
  | LGroupBy lazy_frame "expr list" "expr list"
  | LJoin lazy_frame lazy_frame "expr list" "expr list" join_type
  | LLimit lazy_frame "32 word"
  | LQuery "(string \<times> lazy_frame) list" string

record engine =
  le_collect :: "lazy_frame \<Rightarrow> polars_error + frame"
  le_schema :: "lazy_frame \<Rightarrow> polars_error + (string \<times> polars_dtype) list"

subsection \<open>Operations that add a node\<close>

datatype predicate =
    PredEq string value_t
  | PredNotNull string
  | PredModEqInt64 string i64 i64

datatype join_kind = Inner | LeftJoin | RightJoin | Full

datatype agg =
    CountRows string
  | CountNotNull string string
  | AggSum string string
  | AggMin string string
  | AggMax string string
  | AggMean string string
  | AggVariance string string variance_kind
  | AggStdDev string string variance_kind
  | AggSumSquares string string
  | AggL2Norm string string
  | AggCountDistinctNonNull string string
  | AggMedian string string

datatype cast_mode = Strict | Lossy

abbreviation lit_value :: "value_t \<Rightarrow> expr" where
  "lit_value v \<equiv> ELit (LitValue v)"

definition from_dataset :: "polars \<Rightarrow> data_set \<Rightarrow> lazy_frame result" where
  "from_dataset P ds = rmap LFrame (dataset_to_dataframe P ds)"

definition predicate_expr :: "predicate \<Rightarrow> expr" where
  "predicate_expr p =
     (case p of
        PredEq c v \<Rightarrow> (case v of Null \<Rightarrow> EFun FnIsNull (ECol c) | _ \<Rightarrow> EBin OpEq (ECol c) (lit_value v))
      | PredNotNull c \<Rightarrow> EFun FnIsNotNull (ECol c)
      | PredModEqInt64 c modulus equals \<Rightarrow>
          EBin OpEq (EBin OpMod (ECol c) (lit_value (Int64 modulus))) (lit_value (Int64 equals)))"

definition df_filter :: "lazy_frame \<Rightarrow> predicate \<Rightarrow> lazy_frame" where
  "df_filter lf p = LFilter lf (predicate_expr p)"

definition with_mul_f64 :: "lazy_frame \<Rightarrow> string \<Rightarrow> string \<Rightarrow> f64 \<Rightarrow> lazy_frame" where
  "with_mul_f64 lf name src factor =
     LWithColumns lf [EAlias (EBin OpMul (ECol src) (lit_value (Float64 factor))) name]"

definition with_add_f64 :: "lazy_frame \<Rightarrow> string \<Rightarrow> string \<Rightarrow> f64 \<Rightarrow> lazy_frame" where
  "with_add_f64 lf name src delta =
     LWithColumns lf [EAlias (EBin OpAdd (ECol src) (lit_value (Float64 delta))) name]"

definition multiply_f64 :: "lazy_frame \<Rightarrow> string \<Rightarrow> f64 \<Rightarrow> lazy_frame" where
  "multiply_f64 lf c factor =
     LWithColumns lf [EAlias (EBin OpMul (ECol c) (lit_value (Float64 factor))) c]"

definition add_f64 :: "lazy_frame \<Rightarrow> string \<Rightarrow> f64 \<Rightarrow> lazy_frame" where
  "add_f64 lf c delta =
     LWithColumns lf [EAlias (EBin OpAdd (ECol c) (lit_value (Float64 delta))) c]"

definition df_select :: "lazy_frame \<Rightarrow> string list \<Rightarrow> lazy_frame" where
  "df_select lf columns = LSelect lf (map ECol columns)"

definition df_rename :: "lazy_frame \<Rightarrow> (string \<times> string) list \<Rightarrow> lazy_frame" where
  "df_rename lf pairs = LRename lf (map fst pairs) (map snd pairs) True"

definition cast_with_mode :: "lazy_frame \<Rightarrow> string \<Rightarrow> data_type \<Rightarrow> cast_mode \<Rightarrow> lazy_frame" where
  "cast_with_mode lf c t mode =
     LWithColumns lf [EAlias
       (case mode of
          Strict \<Rightarrow> EFun (FnStrictCast (target_dtype t)) (ECol c)
        | Lossy \<Rightarrow> EFun (FnCast (target_dtype t)) (ECol c)) c]"

definition df_cast :: "lazy_frame \<Rightarrow> string \<Rightarrow> data_type \<Rightarrow> lazy_frame" where
  "df_cast lf c t = cast_with_mode lf c t Strict"

definition df_drop :: "lazy_frame \<Rightarrow> string list \<Rightarrow> lazy_frame" where
  "df_drop lf columns = LDrop lf columns True"

definition value_to_lit_expr :: "value_t \<Rightarrow> expr result" where
  "value_to_lit_expr v =
     (if v = Null
      then Err (SchemaMismatch ''Value::Null is not supported as a literal expression; use fill_null or cast/collect to materialize'')
      else Ok (lit_value v))"

definition fill_null :: "lazy_frame \<Rightarrow> string \<Rightarrow> value_t \<Rightarrow> lazy_frame result" where
  "fill_null lf c v = rmap (\<lambda>e. LWithColumns lf [EAlias (EFillNull (ECol c) e) c]) (value_to_lit_expr v)"

definition with_literal :: "lazy_frame \<Rightarrow> string \<Rightarrow> value_t \<Rightarrow> lazy_frame result" where
  "with_literal lf name v = rmap (\<lambda>e. LWithColumns lf [EAlias e name]) (value_to_lit_expr v)"

definition ddof :: "variance_kind \<Rightarrow> nat" where
  "ddof k = (case k of Population \<Rightarrow> 0 | Sample \<Rightarrow> 1)"

definition as_float :: "string \<Rightarrow> expr" where
  "as_float c = EFun (FnStrictCast PFloat64) (ECol c)"

definition sum_squares :: "string \<Rightarrow> expr" where
  "sum_squares c = EAgg AgSum (EPow (as_float c) (lit_value (Float64 (of_int64 2))))"

definition agg_to_expr :: "agg \<Rightarrow> expr" where
  "agg_to_expr a =
     (case a of
        CountRows n \<Rightarrow> EAlias ELen n
      | CountNotNull c n \<Rightarrow> EAlias (EAgg AgCount (ECol c)) n
      | AggSum c n \<Rightarrow> EAlias (EAgg AgSum (ECol c)) n
      | AggMin c n \<Rightarrow> EAlias (EAgg AgMin (ECol c)) n
      | AggMax c n \<Rightarrow> EAlias (EAgg AgMax (ECol c)) n
      | AggMean c n \<Rightarrow> EAlias (EAgg AgMean (as_float c)) n
      | AggVariance c n k \<Rightarrow> EAlias (EAgg (AgVar (ddof k)) (as_float c)) n
      | AggStdDev c n k \<Rightarrow> EAlias (EAgg (AgStd (ddof k)) (as_float c)) n
      | AggSumSquares c n \<Rightarrow> EAlias (sum_squares c) n
      | AggL2Norm c n \<Rightarrow> EAlias (EFun FnSqrt (sum_squares c)) n
      | AggCountDistinctNonNull c n \<Rightarrow> EAlias (EAgg AgNUnique (EFun FnDropNulls (ECol c))) n
      | AggMedian c n \<Rightarrow> EAlias (EAgg AgMedian (as_float c)) n)"

definition df_group_by :: "lazy_frame \<Rightarrow> string list \<Rightarrow> agg list \<Rightarrow> lazy_frame result" where
  "df_group_by lf ks aggs =
     (if ks = [] then Err (SchemaMismatch ''group_by requires at least one key column'')
      else if aggs = [] then Err (SchemaMismatch ''group_by requires at least one aggregation'')
      else Ok (LGroupBy lf (map ECol ks) (map agg_to_expr aggs)))"

definition df_join :: "lazy_frame \<Rightarrow> lazy_frame \<Rightarrow> string list \<Rightarrow> string list \<Rightarrow> join_kind \<Rightarrow> lazy_frame result" where
  "df_join lf other left_on right_on how =
     (if left_on = [] \<or> right_on = [] then Err (SchemaMismatch ''join requires at least one join key on each side'')
      else if length left_on \<noteq> length right_on
      then Err (SchemaMismatch (''join requires left_on and right_on to have same length (left_on='' @
             show_nat (length left_on) @ '', right_on='' @ show_nat (length right_on) @ '')''))
      else Ok (LJoin lf other (map ECol left_on) (map ECol right_on)
        (case how of Inner \<Rightarrow> JoinInner | LeftJoin \<Rightarrow> JoinLeft | RightJoin \<Rightarrow> JoinRight | Full \<Rightarrow> JoinFull)))"

subsection \<open>Evaluation\<close>

definition collect_plan :: "polars \<Rightarrow> engine \<Rightarrow> lazy_frame \<Rightarrow> data_set result" where
  "collect_plan P E lf =
     rbind (map_polars ''failed to collect polars lazy plan'' (le_collect E lf)) (\<lambda>df.
     rbind (infer_schema_from_dataframe P df) (\<lambda>out_schema.
     dataframe_to_dataset P df out_schema ''column'' 1))"

definition collect_with_schema :: "polars \<Rightarrow> engine \<Rightarrow> lazy_frame \<Rightarrow> schema \<Rightarrow> data_set result" where
  "collect_with_schema P E lf s =
     rbind (map_polars ''failed to collect polars lazy plan'' (le_collect E lf)) (\<lambda>df.
     dataframe_to_dataset P df s ''column'' 1)"

definition anyvalue_to_value :: "polars \<Rightarrow> any_value \<Rightarrow> value_t" where
  "anyvalue_to_value P av =
     (case av of
        AvNull \<Rightarrow> Null
      | AvInt8 v \<Rightarrow> Int64 (scast v)
      | AvInt16 v \<Rightarrow> Int64 (scast v)
      | AvInt32 v \<Rightarrow> Int64 (scast v)
      | AvInt64 v \<Rightarrow> Int64 v
      | AvUInt8 v \<Rightarrow> Int64 (ucast v)
      | AvUInt16 v \<Rightarrow> Int64 (ucast v)
      | AvUInt32 v \<Rightarrow> Int64 (ucast v)
      | AvUInt64 v \<Rightarrow> Int64 v
      | AvFloat64 v \<Rightarrow> Float64 v
      | AvBoolean v \<Rightarrow> Bool v
      | AvString v \<Rightarrow> Utf8 v
      | AvStringOwned v \<Rightarrow> Utf8 v
      | other \<Rightarrow> Utf8 (av_text P other))"

definition polars_reduce_expr :: "string \<Rightarrow> reduce_op \<Rightarrow> expr" where
  "polars_reduce_expr c op =
     (case op of
        Count \<Rightarrow> ELen
      | Sum \<Rightarrow> EAgg AgSum (ECol c)
      | Min \<Rightarrow> EAgg AgMin (ECol c)
      | Max \<Rightarrow> EAgg AgMax (ECol c)
      | Mean \<Rightarrow> EAgg AgMean (as_float c)
      | Variance k \<Rightarrow> EAgg (AgVar (ddof k)) (as_float c)
      | StdDev k \<Rightarrow> EAgg (AgStd (ddof k)) (as_float c)
      | SumSquares \<Rightarrow> sum_squares c
      | L2Norm \<Rightarrow> EFun FnSqrt (sum_squares c)
      | CountDistinctNonNull \<Rightarrow> EAgg AgNUnique (EFun FnDropNulls (ECol c))
      | Median \<Rightarrow> EAgg AgMedian (as_float c))"

definition REDUCE_SCALAR_COL :: string where
  "REDUCE_SCALAR_COL = ''__rust_dp_reduce_scalar''"

definition df_reduce :: "polars \<Rightarrow> engine \<Rightarrow> lazy_frame \<Rightarrow> string \<Rightarrow> reduce_op \<Rightarrow> value_t option result" where
  "df_reduce P E lf c op =
     rbind (map_polars ''failed to collect polars schema'' (le_schema E lf)) (\<lambda>df_schema.
       if map_of df_schema c = None then Ok None
       else
         rbind (map_polars ''failed to collect polars reduce''
                  (le_collect E (LSelect lf [EAlias (polars_reduce_expr c op) REDUCE_SCALAR_COL]))) (\<lambda>df.
           case column df REDUCE_SCALAR_COL of
             None \<Rightarrow> Err (SchemaMismatch (''missing reduce output column '' @ sq REDUCE_SCALAR_COL))
           | Some s \<Rightarrow> (case s_cells s of
               [] \<Rightarrow> Ok (Some Null)
             | av # _ \<Rightarrow> Ok (Some (anyvalue_to_value P av)))))"

definition df_sum :: "polars \<Rightarrow> engine \<Rightarrow> lazy_frame \<Rightarrow> string \<Rightarrow> value_t option result" where
  "df_sum P E lf c = df_reduce P E lf c Sum"

definition fwm_name :: "nat \<Rightarrow> string \<Rightarrow> string" where
  "fwm_name i sfx = ''__fwm_'' @ show_nat i @ sfx"

definition fwm_exprs :: "variance_kind \<Rightarrow> nat \<times> string \<Rightarrow> expr list" where
  "fwm_exprs k = (\<lambda>(i, c).
     [EAlias (EAgg AgMean (as_float c)) (fwm_name i ''_mean''), EAlias (EAgg (AgStd (ddof k)) (as_float c)) (fwm_name i ''_std'')])"

definition fwm_series :: "frame \<Rightarrow> string \<Rightarrow> series result" where
  "fwm_series df n = ok_or (SchemaMismatch (''missing '' @ n)) (column df n)"

definition fwm_cell :: "polars \<Rightarrow> string \<Rightarrow> series \<Rightarrow> value_t result" where
  "fwm_cell P what s =
     (case s_cells s of
        [] \<Rightarrow> Err (SchemaMismatch (''feature_wise '' @ what @ '' get: '' @ pe_text P (PeOther (SrcOther ''index out of bounds'' None))))
      | av # _ \<Rightarrow> Ok (anyvalue_to_value P av))"

definition fwm_out :: "polars \<Rightarrow> frame \<Rightarrow> nat \<times> string \<Rightarrow> (string \<times> feature_mean_std) result" where
  "fwm_out P df = (\<lambda>(i, c).
     rbind (fwm_series df (fwm_name i ''_mean'')) (\<lambda>mean_s.
     rbind (fwm_series df (fwm_name i ''_std'')) (\<lambda>std_s.
     rbind (fwm_cell P ''mean'' mean_s) (\<lambda>m.
     rmap (\<lambda>sd. (c, \<lparr>fm_mean = m, fm_std_dev = sd\<rparr>)) (fwm_cell P ''std'' std_s)))))"

definition df_feature_wise_mean_std ::
  "polars \<Rightarrow> engine \<Rightarrow> lazy_frame \<Rightarrow> string list \<Rightarrow> variance_kind \<Rightarrow> (string \<times> feature_mean_std) list result" where
  "df_feature_wise_mean_std P E lf columns std_kind =
     rbind (map_polars ''failed to collect polars schema'' (le_schema E lf)) (\<lambda>df_schema.
       case find (\<lambda>c. map_of df_schema c = None) columns of
         Some c \<Rightarrow> Err (SchemaMismatch (''feature_wise_mean_std: unknown column '' @ sq c))
       | None \<Rightarrow>
           rbind (map_polars ''failed to collect feature_wise_mean_std''
                    (le_collect E (LSelect lf (concat (map (fwm_exprs std_kind) (enumerate 0 columns)))))) (\<lambda>df.
             if f_height df = 0 then Ok (map (\<lambda>c. (c, \<lparr>fm_mean = Null, fm_std_dev = Null\<rparr>)) columns)
             else traverse (fwm_out P df) (enumerate 0 columns)))"

end
