(* ===== verification/Frames.thy ===== *)
theory Frames
  imports Plan
begin

text \<open>
  The frames of well-formed datasets, as the proofs about the lazy pipeline use them: the columns of
  \<open>frame_of\<close>, and plans that evaluate to the frame of a dataset.
\<close>

definition proper :: "data_set \<Rightarrow> bool" where
  "proper ds \<longleftrightarrow> wf_ds ds \<and> distinct (field_names (ds_schema ds)) \<and> sfields (ds_schema ds) \<noteq> []"

lemma properD:
  "proper ds \<Longrightarrow> wf_ds ds" "proper ds \<Longrightarrow> distinct (field_names (ds_schema ds))" "proper ds \<Longrightarrow> sfields (ds_schema ds) \<noteq> []"
  "proper ds \<Longrightarrow> r \<in> set (rows ds) \<Longrightarrow> length r = length (sfields (ds_schema ds))"
  by (auto simp: proper_def wf_row_length wf_ds_row)

lemma schema_new_sel [simp]: "sfields (schema_new fs) = fs"
  by (simp add: schema_new_def)

lemma mk_field_sel [simp]: "fname (mk_field n t) = n" "ftype (mk_field n t) = t"
  by (simp_all add: mk_field_def)

lemma frame_of_sel [simp]:
  "f_height (frame_of ds) = row_count ds"
  "f_columns (frame_of ds) = map (\<lambda>i. typed_series (rows ds) i (sfields (ds_schema ds) ! i)) [0..<length (sfields (ds_schema ds))]"
  by (simp_all add: frame_of_def Let_def)

lemma typed_series_sel [simp]:
  "s_name (typed_series rs i f) = fname f" "s_dtype (typed_series rs i f) = target_dtype (ftype f)"
  "s_cells (typed_series rs i f) = map (\<lambda>r. the (cell_to_any (ftype f) (get r i))) rs"
  by (simp_all add: typed_series_def)

lemma frame_eqI: "f_height f = f_height g \<Longrightarrow> f_columns f = f_columns g \<Longrightarrow> f = (g :: frame)"
  by (cases f; cases g) simp

lemma series_eqI: "s_name s = s_name t \<Longrightarrow> s_dtype s = s_dtype t \<Longrightarrow> s_cells s = s_cells t \<Longrightarrow> s = (t :: series)"
  by (cases s; cases t) simp

lemma column_frame_index:
  assumes "proper ds" "index_of (ds_schema ds) c = Some i"
  shows "column (frame_of ds) c = Some (typed_series (rows ds) i (sfields (ds_schema ds) ! i))"
  using column_frame_of [OF properD(2) [OF assms(1)], of i] assms(2) by (auto simp: index_of_Some_iff)

lemma column_frame_None_iff:
  assumes "proper ds"
  shows "column (frame_of ds) c \<noteq> None \<longleftrightarrow> c \<in> set (field_names (ds_schema ds))"
proof (cases "index_of (ds_schema ds) c")
  case None
  then have "c \<notin> set (field_names (ds_schema ds))" by (simp add: index_of_None_iff)
  moreover from this have "column (frame_of ds) c = None"
    by (auto simp: column_def find_None_iff field_names_def)
  ultimately show ?thesis by simp
next
  case (Some i)
  moreover from this have "c \<in> set (field_names (ds_schema ds))" by (metis index_of_None_iff option.distinct(1))
  ultimately show ?thesis using column_frame_index [OF assms Some] by simp
qed

lemma position_cong_nth:
  assumes "length xs = length ys" "\<And>i. i < length xs \<Longrightarrow> p (xs ! i) = q (ys ! i)"
  shows "position p xs = position q ys"
proof (cases "position q ys")
  case None
  then have "\<not> q (ys ! i)" if "i < length ys" for i using that by (simp add: position_None_iff)
  with assms have "position p xs = None" by (auto simp: position_None_iff in_set_conv_nth)
  with None show ?thesis by simp
next
  case (Some i)
  with assms have "position p xs = Some i" by (auto simp: position_Some_iff)
  with Some show ?thesis by simp
qed

lemma position_frame_of:
  "position (\<lambda>c. s_name c = n) (f_columns (frame_of ds)) = index_of (ds_schema ds) n"
  unfolding index_of_def by (rule position_cong_nth) simp_all

definition holds_frame :: "engine \<Rightarrow> lazy_frame \<Rightarrow> data_set \<Rightarrow> bool" where
  "holds_frame E lf ds \<longleftrightarrow> proper ds \<and> le_collect E lf = Inr (frame_of ds)"

lemma holds_frame_columns: "holds_frame E lf ds \<Longrightarrow> f_columns (frame_of ds) \<noteq> []"
  by (simp add: holds_frame_def proper_def)

lemma collect_holds:
  assumes "casts_to_self P" "holds_frame E lf ds"
  shows "collect_plan P E lf = Ok ds" "collect_with_schema P E lf (ds_schema ds) = Ok ds"
  using assms dataframe_to_dataset_typed [OF assms(1)] infer_schema_frame_of
  by (simp_all add: holds_frame_def proper_def collect_plan_def collect_with_schema_def)

lemma index_of_Some_mem: "index_of s c = Some i \<Longrightarrow> c \<in> set (field_names s)"
  by (metis index_of_None_iff option.distinct(1))

end
