(* ===== verification/Transform.thy ===== *)
theory Transform
  imports Frames Utf8_Steps
begin

text \<open>
  Transform specifications (\<open>src/transform.rs\<close>): a list of steps run on the lazy pipeline, and an
  output schema enforced at the end. A string step collects the plan, works on the dataset and
  starts a new plan.
\<close>

datatype transform_step =
    Select "string list"
  | DropCols "string list"
  | Rename "(string \<times> string) list"
  | Cast string data_type cast_mode
  | FillNull string value_t
  | WithLiteral string value_t
  | DeriveMulF64 string string f64
  | DeriveAddF64 string string f64
  | Utf8Truncate string nat
  | Utf8Sha256Hex string
  | Utf8RedactMiddle string nat nat string

record transform_spec =
  ts_output_schema :: schema
  ts_steps :: "transform_step list"

definition transform_spec_new :: "schema \<Rightarrow> transform_spec" where
  "transform_spec_new s = \<lparr>ts_output_schema = s, ts_steps = []\<rparr>"

definition with_step :: "transform_step \<Rightarrow> transform_spec \<Rightarrow> transform_spec" where
  "with_step st spec = spec\<lparr>ts_steps := ts_steps spec @ [st]\<rparr>"

text \<open>What the steps depend on: Polars, the overflow checks of the build, the digest.\<close>

record transform_env =
  te_polars :: polars
  te_engine :: engine
  te_checks :: bool
  te_sha256 :: "string \<Rightarrow> nat list"

definition apply_utf8_dataset_step :: "transform_env \<Rightarrow> (data_set \<Rightarrow> data_set result) \<Rightarrow> lazy_frame \<Rightarrow> lazy_frame result" where
  "apply_utf8_dataset_step T f lf =
     rbind (collect_plan (te_polars T) (te_engine T) lf) (\<lambda>ds.
     rbind (f ds) (from_dataset (te_polars T)))"

definition apply_step :: "transform_env \<Rightarrow> transform_step \<Rightarrow> lazy_frame \<Rightarrow> lazy_frame result" where
  "apply_step T st lf =
     (case st of
        Select columns \<Rightarrow> Ok (df_select lf columns)
      | DropCols columns \<Rightarrow> Ok (df_drop lf columns)
      | Rename pairs \<Rightarrow> Ok (df_rename lf pairs)
      | Cast c t mode \<Rightarrow> Ok (cast_with_mode lf c t mode)
      | FillNull c v \<Rightarrow> fill_null lf c v
      | WithLiteral name v \<Rightarrow> with_literal lf name v
      | DeriveMulF64 name src factor \<Rightarrow> Ok (with_mul_f64 lf name src factor)
      | DeriveAddF64 name src delta \<Rightarrow> Ok (with_add_f64 lf name src delta)
      | Utf8Truncate c max_chars \<Rightarrow> apply_utf8_dataset_step T (\<lambda>ds. utf8_truncate_dataset ds c max_chars) lf
      | Utf8Sha256Hex c \<Rightarrow> apply_utf8_dataset_step T (\<lambda>ds. utf8_sha256_dataset (te_sha256 T) ds c) lf
      | Utf8RedactMiddle c keep_left keep_right redaction \<Rightarrow>
          apply_utf8_dataset_step T (\<lambda>ds. utf8_redact_middle_dataset (te_checks T) ds c keep_left keep_right redaction) lf)"

fun apply_steps :: "transform_env \<Rightarrow> transform_step list \<Rightarrow> lazy_frame \<Rightarrow> lazy_frame result" where
  "apply_steps T [] lf = Ok lf"
| "apply_steps T (st # sts) lf = rbind (apply_step T st lf) (apply_steps T sts)"

definition transform_apply :: "transform_env \<Rightarrow> transform_spec \<Rightarrow> data_set \<Rightarrow> data_set result" where
  "transform_apply T spec input =
     rbind (from_dataset (te_polars T) input) (\<lambda>lf.
     rbind (apply_steps T (ts_steps spec) lf) (\<lambda>lf'.
     collect_with_schema (te_polars T) (te_engine T) lf' (ts_output_schema spec)))"

subsection \<open>Steps as operations on datasets\<close>

text \<open>
  The abstract specification: what a step means for the rows. Projection on a list of columns,
  renaming of the fields, and setting one column (in place, or as the last one) from the row.
\<close>

definition project :: "nat list \<Rightarrow> data_set \<Rightarrow> data_set" where
  "project idxs ds =
     data_set_new (schema_new (map (nth (sfields (ds_schema ds))) idxs)) (map (\<lambda>r. map (nth r) idxs) (rows ds))"

definition new_name :: "(string \<times> string) list \<Rightarrow> string \<Rightarrow> string" where
  "new_name pairs n = (case map_of pairs n of Some n' \<Rightarrow> n' | None \<Rightarrow> n)"

definition renamed :: "(string \<times> string) list \<Rightarrow> data_set \<Rightarrow> data_set" where
  "renamed pairs ds =
     data_set_new (schema_new (map (\<lambda>f. mk_field (new_name pairs (fname f)) (ftype f)) (sfields (ds_schema ds)))) (rows ds)"

definition set_at :: "nat option \<Rightarrow> 'a \<Rightarrow> 'a list \<Rightarrow> 'a list" where
  "set_at i x xs = (case i of Some j \<Rightarrow> xs[j := x] | None \<Rightarrow> xs @ [x])"

definition set_col :: "string \<Rightarrow> data_type \<Rightarrow> (row \<Rightarrow> value_t) \<Rightarrow> data_set \<Rightarrow> data_set" where
  "set_col n t g ds =
     (let i = index_of (ds_schema ds) n in
      data_set_new (schema_new (set_at i (mk_field n t) (sfields (ds_schema ds))))
        (map (\<lambda>r. set_at i (g r) r) (rows ds)))"

definition type_of :: "value_t \<Rightarrow> data_type" where
  "type_of v = (case v of Int64 _ \<Rightarrow> TInt64 | Float64 _ \<Rightarrow> TFloat64 | Bool _ \<Rightarrow> TBool | _ \<Rightarrow> TUtf8)"

text \<open>Arithmetic on a number, an integer being taken as a float first; casts that cannot fail.\<close>

definition map_float :: "(f64 \<Rightarrow> f64) \<Rightarrow> value_t \<Rightarrow> value_t" where
  "map_float g v = (case v of Float64 x \<Rightarrow> Float64 (g x) | Int64 i \<Rightarrow> Float64 (g (of_int64 (sint i))) | _ \<Rightarrow> v)"

definition cast_value :: "data_type \<Rightarrow> data_type \<Rightarrow> (value_t \<Rightarrow> value_t) option" where
  "cast_value t t' =
     (if t = t' then Some (\<lambda>v. v)
      else case (t, t') of
        (TInt64, TFloat64) \<Rightarrow> Some (\<lambda>v. case v of Int64 i \<Rightarrow> Float64 (of_int64 (sint i)) | _ \<Rightarrow> v)
      | (TInt64, TBool) \<Rightarrow> Some (\<lambda>v. case v of Int64 i \<Rightarrow> Bool (i \<noteq> 0) | _ \<Rightarrow> v)
      | (TInt64, TUtf8) \<Rightarrow> Some (\<lambda>v. case v of Int64 i \<Rightarrow> Utf8 (show_i64 i) | _ \<Rightarrow> v)
      | (TBool, TInt64) \<Rightarrow> Some (\<lambda>v. case v of Bool b \<Rightarrow> Int64 (if b then 1 else 0) | _ \<Rightarrow> v)
      | (TBool, TFloat64) \<Rightarrow> Some (\<lambda>v. case v of Bool b \<Rightarrow> Float64 (of_int64 (if b then 1 else 0)) | _ \<Rightarrow> v)
      | (TBool, TUtf8) \<Rightarrow> Some (\<lambda>v. case v of Bool b \<Rightarrow> Utf8 (show_bool b) | _ \<Rightarrow> v)
      | _ \<Rightarrow> None)"

definition text_op :: "transform_step \<Rightarrow> (string \<Rightarrow> nat list) \<Rightarrow> (string \<times> (string \<Rightarrow> string)) option" where
  "text_op st sha256 =
     (case st of
        Utf8Truncate c n \<Rightarrow> Some (c, truncate_text n)
      | Utf8Sha256Hex c \<Rightarrow> Some (c, \<lambda>t. hex_text (sha256 t))
      | Utf8RedactMiddle c l r red \<Rightarrow> if l + r < 2 ^ 64 then Some (c, redacted l r red) else None
      | _ \<Rightarrow> None)"

definition derive :: "string \<Rightarrow> string \<Rightarrow> (f64 \<Rightarrow> f64) \<Rightarrow> data_set \<Rightarrow> data_set option" where
  "derive name src g ds =
     Option.bind (index_of (ds_schema ds) src) (\<lambda>i.
       if ftype (sfields (ds_schema ds) ! i) \<in> {TFloat64, TInt64}
       then Some (set_col name TFloat64 (\<lambda>r. map_float g (r ! i)) ds) else None)"

text \<open>
  The meaning of a step on datasets where it has one. Left to the engine: a cast that may fail (from
  floats and texts to other types), arithmetic on other columns than numbers, and a fill or a
  literal that is null or of another type than the column it fills.
\<close>

definition step_spec :: "(string \<Rightarrow> nat list) \<Rightarrow> transform_step \<Rightarrow> data_set \<Rightarrow> data_set option" where
  "step_spec sha256 st ds =
     (let names = field_names (ds_schema ds); fs = sfields (ds_schema ds) in
      case st of
        Select columns \<Rightarrow>
          if columns \<noteq> [] \<and> distinct columns \<and> set columns \<subseteq> set names
          then Some (project (map (\<lambda>c. the (index_of (ds_schema ds) c)) columns) ds) else None
      | DropCols columns \<Rightarrow>
          if set columns \<subseteq> set names \<and> \<not> set names \<subseteq> set columns
          then Some (project (filter (\<lambda>i. fname (fs ! i) \<notin> set columns) [0..<length fs]) ds) else None
      | Rename pairs \<Rightarrow>
          if distinct (map fst pairs) \<and> set (map fst pairs) \<subseteq> set names \<and> distinct (map (new_name pairs) names)
          then Some (renamed pairs ds) else None
      | FillNull c v \<Rightarrow>
          Option.bind (index_of (ds_schema ds) c) (\<lambda>i.
            if v \<noteq> Null \<and> ftype (fs ! i) = type_of v
            then Some (set_col c (type_of v) (\<lambda>r. if r ! i = Null then v else r ! i) ds) else None)
      | WithLiteral name v \<Rightarrow> if v \<noteq> Null then Some (set_col name (type_of v) (\<lambda>_. v) ds) else None
      | DeriveMulF64 name src factor \<Rightarrow> derive name src (\<lambda>x. fmul x factor) ds
      | DeriveAddF64 name src delta \<Rightarrow> derive name src (\<lambda>x. fadd x delta) ds
      | Cast c t _ \<Rightarrow>
          Option.bind (index_of (ds_schema ds) c) (\<lambda>i.
            map_option (\<lambda>g. set_col c t (\<lambda>r. g (r ! i)) ds) (cast_value (ftype (fs ! i)) t))
      | _ \<Rightarrow> Option.bind (text_op st sha256) (\<lambda>(c, g).
          case text_step g ds c of Inr out \<Rightarrow> Some out | Inl _ \<Rightarrow> None))"

fun run_spec :: "(string \<Rightarrow> nat list) \<Rightarrow> transform_step list \<Rightarrow> data_set \<Rightarrow> data_set option" where
  "run_spec sha256 [] ds = Some ds"
| "run_spec sha256 (st # sts) ds = Option.bind (step_spec sha256 st ds) (run_spec sha256 sts)"

subsection \<open>What the engine promises\<close>

text \<open>
  The documented evaluation of the nodes a specification builds: selecting, dropping and renaming
  existing columns, and setting a column to a literal, to a column with its nulls filled, to a
  numeric column times or plus a float constant, or to the cast of a column, strict or not, where
  that cannot fail. A frame keeps at least one column throughout.
\<close>

definition lit_av :: "value_t \<Rightarrow> any_value" where
  "lit_av v = the (cell_to_any (type_of v) (Some v))"

definition map_float_av :: "(f64 \<Rightarrow> f64) \<Rightarrow> any_value \<Rightarrow> any_value" where
  "map_float_av g av = (case av of AvFloat64 x \<Rightarrow> AvFloat64 (g x) | AvInt64 i \<Rightarrow> AvFloat64 (g (of_int64 (sint i))) | _ \<Rightarrow> av)"

definition cast_av :: "polars_dtype \<Rightarrow> polars_dtype \<Rightarrow> (any_value \<Rightarrow> any_value) option" where
  "cast_av d d' =
     (if d = d' then Some (\<lambda>a. a)
      else if d = PInt64 \<and> d' = PFloat64 then Some (\<lambda>a. case a of AvInt64 i \<Rightarrow> AvFloat64 (of_int64 (sint i)) | _ \<Rightarrow> a)
      else if d = PInt64 \<and> d' = PBoolean then Some (\<lambda>a. case a of AvInt64 i \<Rightarrow> AvBoolean (i \<noteq> 0) | _ \<Rightarrow> a)
      else if d = PInt64 \<and> d' = PString then Some (\<lambda>a. case a of AvInt64 i \<Rightarrow> AvString (show_i64 i) | _ \<Rightarrow> a)
      else if d = PBoolean \<and> d' = PInt64 then Some (\<lambda>a. case a of AvBoolean b \<Rightarrow> AvInt64 (if b then 1 else 0) | _ \<Rightarrow> a)
      else if d = PBoolean \<and> d' = PFloat64 then Some (\<lambda>a. case a of AvBoolean b \<Rightarrow> AvFloat64 (of_int64 (if b then 1 else 0)) | _ \<Rightarrow> a)
      else if d = PBoolean \<and> d' = PString then Some (\<lambda>a. case a of AvBoolean b \<Rightarrow> AvString (show_bool b) | _ \<Rightarrow> a)
      else None)"

definition cast_target :: "fun_op \<Rightarrow> polars_dtype option" where
  "cast_target g = (case g of FnCast d \<Rightarrow> Some d | FnStrictCast d \<Rightarrow> Some d | _ \<Rightarrow> None)"

fun eval_column :: "frame \<Rightarrow> expr \<Rightarrow> (polars_dtype \<times> any_value list) option" where
  "eval_column f (ELit (LitValue v)) =
     (if v = Null then None else Some (target_dtype (type_of v), replicate (f_height f) (lit_av v)))"
| "eval_column f (EFillNull (ECol c) (ELit (LitValue v))) =
     Option.bind (column f c) (\<lambda>s.
       if v \<noteq> Null \<and> s_dtype s = target_dtype (type_of v)
       then Some (s_dtype s, map (\<lambda>a. if a = AvNull then lit_av v else a) (s_cells s)) else None)"
| "eval_column f (EBin op (ECol c) (ELit (LitValue (Float64 x)))) =
     Option.bind (column f c) (\<lambda>s.
       if s_dtype s \<notin> {PFloat64, PInt64} then None
       else (case op of
           OpMul \<Rightarrow> Some (PFloat64, map (map_float_av (\<lambda>y. fmul y x)) (s_cells s))
         | OpAdd \<Rightarrow> Some (PFloat64, map (map_float_av (\<lambda>y. fadd y x)) (s_cells s))
         | _ \<Rightarrow> None))"
| "eval_column f (EFun g (ECol c)) =
     Option.bind (column f c) (\<lambda>s. Option.bind (cast_target g) (\<lambda>d.
       map_option (\<lambda>h. (d, map h (s_cells s))) (cast_av (s_dtype s) d)))"
| "eval_column f _ = None"

definition set_series :: "series \<Rightarrow> frame \<Rightarrow> frame" where
  "set_series s f =
     \<lparr>f_height = f_height f, f_columns = set_at (position (\<lambda>c. s_name c = s_name s) (f_columns f)) s (f_columns f)\<rparr>"

definition evaluates_plans :: "engine \<Rightarrow> bool" where
  "evaluates_plans E \<longleftrightarrow>
     (\<forall>f. le_collect E (LFrame f) = Inr f) \<and>
     (\<forall>p f ns. le_collect E p = Inr f \<longrightarrow> ns \<noteq> [] \<longrightarrow> distinct ns \<longrightarrow> (\<forall>n\<in>set ns. column f n \<noteq> None) \<longrightarrow>
        le_collect E (LSelect p (map ECol ns)) = Inr \<lparr>f_height = f_height f, f_columns = map (\<lambda>n. the (column f n)) ns\<rparr>) \<and>
     (\<forall>p f ns. le_collect E p = Inr f \<longrightarrow> (\<forall>n\<in>set ns. column f n \<noteq> None) \<longrightarrow> (\<exists>s\<in>set (f_columns f). s_name s \<notin> set ns) \<longrightarrow>
        le_collect E (LDrop p ns True) = Inr \<lparr>f_height = f_height f, f_columns = filter (\<lambda>s. s_name s \<notin> set ns) (f_columns f)\<rparr>) \<and>
     (\<forall>p f pairs. le_collect E p = Inr f \<longrightarrow> distinct (map fst pairs) \<longrightarrow> (\<forall>n\<in>set (map fst pairs). column f n \<noteq> None) \<longrightarrow>
        distinct (map (\<lambda>s. new_name pairs (s_name s)) (f_columns f)) \<longrightarrow>
        le_collect E (LRename p (map fst pairs) (map snd pairs) True) =
          Inr \<lparr>f_height = f_height f, f_columns = map (\<lambda>s. s\<lparr>s_name := new_name pairs (s_name s)\<rparr>) (f_columns f)\<rparr>) \<and>
     (\<forall>p f e n t cells. le_collect E p = Inr f \<longrightarrow> f_columns f \<noteq> [] \<longrightarrow> eval_column f e = Some (t, cells) \<longrightarrow>
        le_collect E (LWithColumns p [EAlias e n]) = Inr (set_series \<lparr>s_name = n, s_dtype = t, s_cells = cells\<rparr> f))"

lemma evaluates_plansD:
  assumes "evaluates_plans E"
  shows "le_collect E (LFrame f) = Inr f"
    and "le_collect E p = Inr f \<Longrightarrow> ns \<noteq> [] \<Longrightarrow> distinct ns \<Longrightarrow> (\<And>n. n \<in> set ns \<Longrightarrow> column f n \<noteq> None) \<Longrightarrow>
      le_collect E (LSelect p (map ECol ns)) = Inr \<lparr>f_height = f_height f, f_columns = map (\<lambda>n. the (column f n)) ns\<rparr>"
    and "le_collect E p = Inr f \<Longrightarrow> (\<And>n. n \<in> set ns \<Longrightarrow> column f n \<noteq> None) \<Longrightarrow> \<exists>s\<in>set (f_columns f). s_name s \<notin> set ns \<Longrightarrow>
      le_collect E (LDrop p ns True) = Inr \<lparr>f_height = f_height f, f_columns = filter (\<lambda>s. s_name s \<notin> set ns) (f_columns f)\<rparr>"
    and "le_collect E p = Inr f \<Longrightarrow> distinct (map fst pairs) \<Longrightarrow> (\<And>n. n \<in> set (map fst pairs) \<Longrightarrow> column f n \<noteq> None) \<Longrightarrow>
      distinct (map (\<lambda>s. new_name pairs (s_name s)) (f_columns f)) \<Longrightarrow>
      le_collect E (LRename p (map fst pairs) (map snd pairs) True) =
        Inr \<lparr>f_height = f_height f, f_columns = map (\<lambda>s. s\<lparr>s_name := new_name pairs (s_name s)\<rparr>) (f_columns f)\<rparr>"
    and "le_collect E p = Inr f \<Longrightarrow> f_columns f \<noteq> [] \<Longrightarrow> eval_column f e = Some (t, cells) \<Longrightarrow>
      le_collect E (LWithColumns p [EAlias e n]) = Inr (set_series \<lparr>s_name = n, s_dtype = t, s_cells = cells\<rparr> f)"
  using assms unfolding evaluates_plans_def by simp_all

subsection \<open>The frames of the specified datasets\<close>

lemma frame_of_project:
  assumes "proper ds" "\<forall>i\<in>set idxs. i < length (sfields (ds_schema ds))"
  shows "frame_of (project idxs ds) = \<lparr>f_height = row_count ds, f_columns = map (nth (f_columns (frame_of ds))) idxs\<rparr>"
proof (rule frame_eqI)
  have "typed_series (map (\<lambda>r. map (nth r) idxs) (rows ds)) j f = typed_series (rows ds) (idxs ! j) f"
    if "j < length idxs" for j f
    using that assms(2) properD(4) [OF assms(1)] by (intro series_eqI) (auto simp: get_def)
  then show "f_columns (frame_of (project idxs ds)) = f_columns \<lparr>f_height = row_count ds, f_columns = map (nth (f_columns (frame_of ds))) idxs\<rparr>"
    using assms(2) by (intro nth_equalityI) (auto simp: project_def)
qed (simp add: project_def row_count_def)

lemma frame_of_renamed:
  "frame_of (renamed pairs ds) =
    \<lparr>f_height = row_count ds, f_columns = map (\<lambda>s. s\<lparr>s_name := new_name pairs (s_name s)\<rparr>) (f_columns (frame_of ds))\<rparr>"
  by (rule frame_eqI) (auto simp: renamed_def row_count_def intro!: nth_equalityI series_eqI)

lemma frame_of_set_col:
  assumes "proper ds"
  shows "frame_of (set_col n t g ds) =
    set_series \<lparr>s_name = n, s_dtype = target_dtype t, s_cells = map (\<lambda>r. the (cell_to_any t (Some (g r)))) (rows ds)\<rparr> (frame_of ds)"
proof (rule frame_eqI)
  let ?s = "\<lparr>s_name = n, s_dtype = target_dtype t, s_cells = map (\<lambda>r. the (cell_to_any t (Some (g r)))) (rows ds)\<rparr>"
  note len = properD(4) [OF assms]
  show "f_columns (frame_of (set_col n t g ds)) = f_columns (set_series ?s (frame_of ds))"
  proof (cases "index_of (ds_schema ds) n")
    case None
    have "typed_series (map (\<lambda>r. r @ [g r]) (rows ds)) j f = typed_series (rows ds) j f" if "j < length (sfields (ds_schema ds))" for j f
      using that len by (intro series_eqI) (auto simp: get_def nth_append)
    moreover have "typed_series (map (\<lambda>r. r @ [g r]) (rows ds)) (length (sfields (ds_schema ds))) (mk_field n t) = ?s"
      using len by (intro series_eqI) (auto simp: get_def nth_append)
    ultimately show ?thesis
      using None by (simp add: set_col_def set_at_def set_series_def position_frame_of del: frame_of_sel(2))
        (auto simp: nth_append intro!: nth_equalityI)
  next
    case (Some i)
    note i = index_of_bound [OF Some]
    have "typed_series (map (\<lambda>r. r[i := g r]) (rows ds)) j f = typed_series (rows ds) j f" if "j \<noteq> i" for j f
      using that by (intro series_eqI) (auto simp: get_def)
    moreover have "typed_series (map (\<lambda>r. r[i := g r]) (rows ds)) i (mk_field n t) = ?s"
      using len i by (intro series_eqI) (auto simp: get_def)
    ultimately show ?thesis
      using Some i by (simp add: set_col_def set_at_def set_series_def position_frame_of del: frame_of_sel(2))
        (auto simp: nth_list_update intro!: nth_equalityI)
  qed
qed (simp add: set_series_def set_col_def row_count_def Let_def)


subsection \<open>Steps keep datasets proper\<close>

lemma proper_project:
  assumes "proper ds" "\<forall>i\<in>set idxs. i < length (sfields (ds_schema ds))" "distinct idxs" "idxs \<noteq> []"
  shows "proper (project idxs ds)"
proof -
  let ?ns = "field_names (ds_schema ds)"
  have "inj_on (nth ?ns) (set idxs)"
    by (rule inj_on_nth [OF properD(2) [OF assms(1)]]) (use assms(2) in \<open>simp add: field_names_def\<close>)
  then have "distinct (map (nth ?ns) idxs)" using assms(3) by (simp add: distinct_map)
  moreover have "map (nth (field_names (ds_schema ds))) idxs = field_names (ds_schema (project idxs ds))"
    using assms(2) by (simp add: field_names_def project_def)
  moreover have "wf_row (schema_new (map (nth (sfields (ds_schema ds))) idxs)) (map (nth r) idxs)" if "r \<in> set (rows ds)" for r
    using wf_row_nth [OF wf_ds_row [OF properD(1) [OF assms(1)] that]] assms(2)
    by (simp add: wf_row_def list_all2_conv_all_nth)
  ultimately show ?thesis using assms(4) by (simp add: proper_def) (simp add: project_def)
qed

lemma proper_renamed:
  assumes "proper ds" "distinct (map (new_name pairs) (field_names (ds_schema ds)))"
  shows "proper (renamed pairs ds)"
  using assms by (auto simp: proper_def renamed_def field_names_def comp_def wf_row_def list_all2_conv_all_nth wf_ds_def list_all_iff)

lemma proper_set_col:
  assumes "proper ds" "\<And>r. r \<in> set (rows ds) \<Longrightarrow> has_type (g r) t"
  shows "proper (set_col n t g ds)"
proof (cases "index_of (ds_schema ds) n")
  case None
  then have "n \<notin> set (field_names (ds_schema ds))" by (simp add: index_of_None_iff)
  with assms None show ?thesis
    by (auto simp: proper_def set_col_def set_at_def field_names_def wf_ds_def list_all_iff wf_row_def list_all2_appendI)
next
  case (Some i)
  then have "field_names (schema_new ((sfields (ds_schema ds))[i := mk_field n t])) = field_names (ds_schema ds)"
    by (simp add: field_names_def map_update) (simp add: index_of_Some_iff list_update_same_conv)
  moreover have "wf_row (schema_new ((sfields (ds_schema ds))[i := mk_field n t])) (r[i := g r])" if r: "r \<in> set (rows ds)" for r
    using wf_ds_row [OF properD(1) [OF assms(1)] r] assms(2) [OF r]
    unfolding wf_row_def by (auto intro: list_all2_update_cong)
  ultimately show ?thesis
    using assms(1) Some by (auto simp: proper_def set_col_def set_at_def wf_ds_def list_all_iff)
qed

lemma proper_with_texts: "proper ds \<Longrightarrow> proper (with_texts g i ds)"
  by (simp add: proper_def wf_with_texts)

subsection \<open>Steps implement the specification\<close>

text \<open>The laws of the engine that the proofs below share.\<close>

definition transform_laws :: "transform_env \<Rightarrow> bool" where
  "transform_laws T \<longleftrightarrow> builds_frames (te_polars T) \<and> casts_to_self (te_polars T) \<and> evaluates_plans (te_engine T)"

lemma from_dataset_holds:
  assumes "builds_frames P" "evaluates_plans E" "proper ds"
  shows "from_dataset P ds = Ok (LFrame (frame_of ds)) \<and> holds_frame E (LFrame (frame_of ds)) ds"
  using assms dataset_to_dataframe_typed [of P ds] evaluates_plansD(1) [OF assms(2)]
  by (simp add: from_dataset_def holds_frame_def proper_def)

lemma with_column_holds:
  assumes "evaluates_plans E" "holds_frame E lf ds"
    and "eval_column (frame_of ds) e = Some (target_dtype t, map (\<lambda>r. the (cell_to_any t (Some (g r)))) (rows ds))"
    and "\<And>r. r \<in> set (rows ds) \<Longrightarrow> has_type (g r) t"
  shows "holds_frame E (LWithColumns lf [EAlias e n]) (set_col n t g ds)"
proof -
  have ds: "proper ds" "le_collect E lf = Inr (frame_of ds)" using assms(2) by (simp_all add: holds_frame_def)
  show ?thesis
    using evaluates_plansD(5) [OF assms(1) ds(2) holds_frame_columns [OF assms(2)] assms(3), of n]
      frame_of_set_col [OF ds(1), of n t] proper_set_col [OF ds(1) assms(4)]
    by (simp add: holds_frame_def)
qed

lemma select_holds:
  assumes "evaluates_plans E" "holds_frame E lf ds" "columns \<noteq> []" "distinct columns" "set columns \<subseteq> set (field_names (ds_schema ds))"
  shows "holds_frame E (df_select lf columns) (project (map (\<lambda>c. the (index_of (ds_schema ds) c)) columns) ds)"
proof -
  let ?i = "\<lambda>c. the (index_of (ds_schema ds) c)" and ?idxs = "map (\<lambda>c. the (index_of (ds_schema ds) c)) columns"
  have ds: "proper ds" "le_collect E lf = Inr (frame_of ds)" using assms(2) by (simp_all add: holds_frame_def)
  have idx: "index_of (ds_schema ds) c = Some (?i c)" if "c \<in> set columns" for c
    using assms(5) that index_of_None_iff [of "ds_schema ds" c] by auto
  have bound: "\<forall>i\<in>set ?idxs. i < length (sfields (ds_schema ds))" using idx by (auto dest: index_of_bound)
  have "inj_on ?i (set columns)"
    by (rule inj_onI) (metis idx index_of_Some_iff)
  then have "distinct ?idxs" using assms(4) by (simp add: distinct_map)
  then have "proper (project ?idxs ds)" using proper_project [OF ds(1) bound] assms(3) by simp
  moreover have "map (\<lambda>n. the (column (frame_of ds) n)) columns = map (nth (f_columns (frame_of ds))) ?idxs"
    using column_frame_index [OF ds(1) idx] index_of_bound [OF idx] by simp
  moreover have "column (frame_of ds) n \<noteq> None" if "n \<in> set columns" for n
    using column_frame_index [OF ds(1) idx [OF that]] by simp
  ultimately show ?thesis
    using evaluates_plansD(2) [OF assms(1) ds(2) assms(3,4)] frame_of_project [OF ds(1) bound]
    by (simp add: holds_frame_def df_select_def)
qed

lemma filter_map_upt:
  "filter q (map h [0..<n]) = map h (filter (\<lambda>i. q (h i)) [0..<n])"
  by (simp add: filter_map comp_def)

lemma drop_holds:
  assumes "evaluates_plans E" "holds_frame E lf ds"
    and "set columns \<subseteq> set (field_names (ds_schema ds))" "\<not> set (field_names (ds_schema ds)) \<subseteq> set columns"
  shows "holds_frame E (df_drop lf columns)
    (project (filter (\<lambda>i. fname (sfields (ds_schema ds) ! i) \<notin> set columns) [0..<length (sfields (ds_schema ds))]) ds)"
proof -
  let ?fs = "sfields (ds_schema ds)"
  let ?idxs = "filter (\<lambda>i. fname (?fs ! i) \<notin> set columns) [0..<length ?fs]"
  have ds: "proper ds" "le_collect E lf = Inr (frame_of ds)" using assms(2) by (simp_all add: holds_frame_def)
  obtain i where i: "i < length ?fs" "fname (?fs ! i) \<notin> set columns"
    using assms(4) unfolding field_names_def set_map by (auto simp: set_conv_nth subset_iff)
  have bound: "\<forall>i\<in>set ?idxs. i < length ?fs" by simp
  have nonempty: "?idxs \<noteq> []" using i by (auto simp: filter_empty_conv)
  have kept: "filter (\<lambda>s. s_name s \<notin> set columns) (f_columns (frame_of ds)) = map (nth (f_columns (frame_of ds))) ?idxs"
    by (simp add: filter_map comp_def)
  have "\<exists>s\<in>set (f_columns (frame_of ds)). s_name s \<notin> set columns" using i by auto
  moreover have "column (frame_of ds) n \<noteq> None" if "n \<in> set columns" for n
    using that assms(3) column_frame_None_iff [OF ds(1)] by blast
  ultimately show ?thesis
    using evaluates_plansD(3) [OF assms(1) ds(2), of columns] frame_of_project [OF ds(1) bound]
      proper_project [OF ds(1) bound _ nonempty] kept
    by (simp add: holds_frame_def df_drop_def)
qed

lemma rename_holds:
  assumes "evaluates_plans E" "holds_frame E lf ds" "distinct (map fst pairs)"
    and "set (map fst pairs) \<subseteq> set (field_names (ds_schema ds))" "distinct (map (new_name pairs) (field_names (ds_schema ds)))"
  shows "holds_frame E (df_rename lf pairs) (renamed pairs ds)"
proof -
  have ds: "proper ds" "le_collect E lf = Inr (frame_of ds)" using assms(2) by (simp_all add: holds_frame_def)
  have "map (\<lambda>s. new_name pairs (s_name s)) (f_columns (frame_of ds)) = map (new_name pairs) (field_names (ds_schema ds))"
    by (rule nth_equalityI) (simp_all add: field_names_def)
  then have "distinct (map (\<lambda>s. new_name pairs (s_name s)) (f_columns (frame_of ds)))" using assms(5) by metis
  moreover have "column (frame_of ds) n \<noteq> None" if "n \<in> set (map fst pairs)" for n
    using that assms(4) column_frame_None_iff [OF ds(1)] by blast
  ultimately show ?thesis
    using evaluates_plansD(4) [OF assms(1) ds(2) assms(3)] frame_of_renamed [of pairs ds] proper_renamed [OF ds(1) assms(5)]
    by (simp add: holds_frame_def df_rename_def del: frame_of_sel(2))
qed


lemma cell_to_any_null_iff: "has_type v t \<Longrightarrow> the (cell_to_any t (Some v)) = AvNull \<longleftrightarrow> v = Null"
  by (cases v; cases t) (simp_all add: cell_to_any_def)

lemma fill_null_holds:
  assumes "evaluates_plans E" "holds_frame E lf ds" "index_of (ds_schema ds) c = Some i"
    and "v \<noteq> Null" "ftype (sfields (ds_schema ds) ! i) = type_of v"
  shows "\<exists>lf'. fill_null lf c v = Ok lf' \<and>
    holds_frame E lf' (set_col c (type_of v) (\<lambda>r. if r ! i = Null then v else r ! i) ds)"
proof -
  let ?g = "\<lambda>r. if r ! i = Null then v else r ! i"
  have ds: "proper ds" using assms(2) by (simp add: holds_frame_def)
  have typed: "has_type (r ! i) (type_of v)" "get r i = Some (r ! i)" if "r \<in> set (rows ds)" for r
    using wf_row_nth [OF wf_ds_row [OF properD(1) [OF ds] that] index_of_bound [OF assms(3)]]
      wf_get [OF wf_ds_row [OF properD(1) [OF ds] that] index_of_bound [OF assms(3)]] assms(5) by simp_all
  have "has_type v (type_of v)" using assms(4) by (cases v) (simp_all add: type_of_def)
  then have "has_type (?g r) (type_of v)" if "r \<in> set (rows ds)" for r using typed [OF that] by simp
  moreover have "eval_column (frame_of ds) (EFillNull (ECol c) (lit_value v)) =
      Some (target_dtype (type_of v), map (\<lambda>r. the (cell_to_any (type_of v) (Some (?g r)))) (rows ds))"
    using column_frame_index [OF ds assms(3)] assms(4,5) typed
    by (auto simp: lit_av_def cell_to_any_null_iff)
  ultimately show ?thesis
    using with_column_holds [OF assms(1,2), of "EFillNull (ECol c) (lit_value v)" "type_of v" ?g c] assms(4)
    by (simp add: fill_null_def value_to_lit_expr_def)
qed

lemma with_literal_holds:
  assumes "evaluates_plans E" "holds_frame E lf ds" "v \<noteq> Null"
  shows "\<exists>lf'. with_literal lf n v = Ok lf' \<and> holds_frame E lf' (set_col n (type_of v) (\<lambda>_. v) ds)"
proof -
  have "has_type v (type_of v)" using assms(3) by (cases v) (simp_all add: type_of_def)
  moreover have "eval_column (frame_of ds) (lit_value v) =
      Some (target_dtype (type_of v), map (\<lambda>r. the (cell_to_any (type_of v) (Some v))) (rows ds))"
    using assms(3) by (simp add: lit_av_def row_count_def map_replicate_const)
  ultimately show ?thesis
    using with_column_holds [OF assms(1,2), of "lit_value v" "type_of v" "\<lambda>_. v" n] assms(3)
    by (simp add: with_literal_def value_to_lit_expr_def)
qed

lemma derive_holds:
  assumes "evaluates_plans E" "holds_frame E lf ds" "derive n src g ds = Some out"
    and "op = OpMul \<and> g = (\<lambda>y. fmul y x) \<or> op = OpAdd \<and> g = (\<lambda>y. fadd y x)"
  shows "holds_frame E (LWithColumns lf [EAlias (EBin op (ECol src) (lit_value (Float64 x))) n]) out"
proof -
  have ds: "proper ds" using assms(2) by (simp add: holds_frame_def)
  from assms(3) obtain i where i: "index_of (ds_schema ds) src = Some i" "ftype (sfields (ds_schema ds) ! i) \<in> {TFloat64, TInt64}"
      "out = set_col n TFloat64 (\<lambda>r. map_float g (r ! i)) ds"
    by (auto simp: derive_def bind_eq_Some_conv split: if_splits)
  let ?t = "ftype (sfields (ds_schema ds) ! i)"
  have typed: "has_type (r ! i) ?t" "get r i = Some (r ! i)" if "r \<in> set (rows ds)" for r
    using wf_row_nth [OF wf_ds_row [OF properD(1) [OF ds] that] index_of_bound [OF i(1)]]
      wf_get [OF wf_ds_row [OF properD(1) [OF ds] that] index_of_bound [OF i(1)]] i(2) by simp_all
  have cell: "map_float_av g (the (cell_to_any ?t (Some v))) = the (cell_to_any TFloat64 (Some (map_float g v))) \<and>
      has_type (map_float g v) TFloat64" if "has_type v ?t" for v
  proof -
    from i(2) consider "?t = TFloat64" | "?t = TInt64" by auto
    then show ?thesis
      using that by cases (cases v; simp add: cell_to_any_def map_float_av_def map_float_def)+
  qed
  have "eval_column (frame_of ds) (EBin op (ECol src) (lit_value (Float64 x))) =
      Some (target_dtype TFloat64, map (\<lambda>r. the (cell_to_any TFloat64 (Some (map_float g (r ! i))))) (rows ds))"
    using column_frame_index [OF ds i(1)] i(2) assms(4) typed cell by (auto simp: target_dtype_def)
  then show ?thesis
    using with_column_holds [OF assms(1,2), of _ TFloat64 "\<lambda>r. map_float g (r ! i)" n] typed cell i(3) by blast
qed

lemma cast_value_cell:
  assumes "cast_value t t' = Some g" "has_type v t"
  shows "the (cast_av (target_dtype t) (target_dtype t')) (the (cell_to_any t (Some v))) = the (cell_to_any t' (Some (g v))) \<and>
    has_type (g v) t' \<and> cast_av (target_dtype t) (target_dtype t') \<noteq> None"
  using assms
  by (cases t; cases t'; cases v) (auto simp: cast_value_def cast_av_def target_dtype_def cell_to_any_def)

lemma cast_holds:
  assumes "evaluates_plans E" "holds_frame E lf ds" "index_of (ds_schema ds) c = Some i"
    and "cast_value (ftype (sfields (ds_schema ds) ! i)) t = Some g"
  shows "holds_frame E (cast_with_mode lf c t mode) (set_col c t (\<lambda>r. g (r ! i)) ds)"
proof -
  have ds: "proper ds" using assms(2) by (simp add: holds_frame_def)
  let ?t = "ftype (sfields (ds_schema ds) ! i)" and ?h = "the (cast_av (target_dtype (ftype (sfields (ds_schema ds) ! i))) (target_dtype t))"
  let ?e = "case mode of Strict \<Rightarrow> EFun (FnStrictCast (target_dtype t)) (ECol c) | Lossy \<Rightarrow> EFun (FnCast (target_dtype t)) (ECol c)"
  have typed: "has_type (r ! i) ?t" "get r i = Some (r ! i)" if "r \<in> set (rows ds)" for r
    using wf_row_nth [OF wf_ds_row [OF properD(1) [OF ds] that] index_of_bound [OF assms(3)]]
      wf_get [OF wf_ds_row [OF properD(1) [OF ds] that] index_of_bound [OF assms(3)]] by simp_all
  note cell = cast_value_cell [OF assms(4)]
  have "cast_av (target_dtype ?t) (target_dtype t) = Some ?h" using cell [of Null] by (auto simp: option.expand)
  then have "eval_column (frame_of ds) ?e = Some (target_dtype t, map (\<lambda>r. the (cell_to_any t (Some (g (r ! i))))) (rows ds))"
    using column_frame_index [OF ds assms(3)] typed cell by (cases mode) (auto simp: cast_target_def)
  with with_column_holds [OF assms(1,2), of ?e t "\<lambda>r. g (r ! i)" c] typed cell show ?thesis
    unfolding cast_with_mode_def by blast
qed

lemma text_step_holds:
  assumes "transform_laws T" "holds_frame (te_engine T) lf ds" "text_step g ds c = Ok out"
    and "f ds = text_step g ds c"
  shows "\<exists>lf'. apply_utf8_dataset_step T f lf = Ok lf' \<and> holds_frame (te_engine T) lf' out"
proof -
  have laws: "builds_frames (te_polars T)" "casts_to_self (te_polars T)" "evaluates_plans (te_engine T)"
    using assms(1) by (simp_all add: transform_laws_def)
  have "proper out"
    using assms(2,3) proper_with_texts by (auto simp: holds_frame_def text_step_def split: option.splits if_splits)
  then show ?thesis
    using from_dataset_holds [OF laws(1,3), of out] collect_holds(1) [OF laws(2) assms(2)] assms(3,4)
    by (simp add: apply_utf8_dataset_step_def)
qed

lemma apply_step_implements:
  assumes "transform_laws T" "holds_frame (te_engine T) lf ds" "step_spec (te_sha256 T) st ds = Some out"
  shows "\<exists>lf'. apply_step T st lf = Ok lf' \<and> holds_frame (te_engine T) lf' out"
proof -
  have E: "evaluates_plans (te_engine T)" using assms(1) by (simp add: transform_laws_def)
  have wf: "wf_ds ds" using assms(2) by (simp add: holds_frame_def proper_def)
  note texts = update_column_text_step [OF wf]
  show ?thesis
  proof (cases st)
    case (Select columns)
    then show ?thesis using assms(3) select_holds [OF E assms(2)]
      by (auto simp: step_spec_def apply_step_def Let_def split: if_splits)
  next
    case (DropCols columns)
    then show ?thesis using assms(3) drop_holds [OF E assms(2)]
      by (auto simp: step_spec_def apply_step_def Let_def split: if_splits)
  next
    case (Rename pairs)
    then show ?thesis using assms(3) rename_holds [OF E assms(2)]
      by (auto simp: step_spec_def apply_step_def Let_def split: if_splits)
  next
    case (Cast c t mode)
    then show ?thesis using assms(3) cast_holds [OF E assms(2)]
      by (auto simp: step_spec_def apply_step_def Let_def bind_eq_Some_conv)
  next
    case (FillNull c v)
    then show ?thesis using assms(3) fill_null_holds [OF E assms(2)]
      by (auto simp: step_spec_def apply_step_def Let_def bind_eq_Some_conv split: if_splits)
  next
    case (WithLiteral name v)
    then show ?thesis using assms(3) with_literal_holds [OF E assms(2)]
      by (auto simp: step_spec_def apply_step_def Let_def split: if_splits)
  next
    case (DeriveMulF64 name src factor)
    then show ?thesis using assms(3) derive_holds [OF E assms(2)]
      by (simp add: step_spec_def apply_step_def with_mul_f64_def Let_def)
  next
    case (DeriveAddF64 name src delta)
    then show ?thesis using assms(3) derive_holds [OF E assms(2)]
      by (simp add: step_spec_def apply_step_def with_add_f64_def Let_def)
  next
    case (Utf8Truncate c n)
    then show ?thesis using assms(3) text_step_holds [OF assms(1,2)]
      by (auto simp: step_spec_def apply_step_def text_op_def utf8_truncate_dataset_def texts Let_def split: sum.splits)
  next
    case (Utf8Sha256Hex c)
    then show ?thesis using assms(3) text_step_holds [OF assms(1,2)]
      by (auto simp: step_spec_def apply_step_def text_op_def utf8_sha256_dataset_def texts Let_def split: sum.splits)
  next
    case (Utf8RedactMiddle c l r red)
    then show ?thesis using assms(3) text_step_holds [OF assms(1,2)]
      by (auto simp: step_spec_def apply_step_def text_op_def utf8_redact_middle_dataset_def texts redact_text_in_range
          Let_def split: sum.splits if_splits)
  qed
qed

lemma apply_steps_implement:
  assumes "transform_laws T" "holds_frame (te_engine T) lf ds" "run_spec (te_sha256 T) sts ds = Some out"
  shows "\<exists>lf'. apply_steps T sts lf = Ok lf' \<and> holds_frame (te_engine T) lf' out"
  using assms(2,3)
proof (induction sts arbitrary: lf ds)
  case (Cons st sts)
  then obtain mid where mid: "step_spec (te_sha256 T) st ds = Some mid" "run_spec (te_sha256 T) sts mid = Some out"
    by (auto simp: bind_eq_Some_conv)
  obtain lf' where "apply_step T st lf = Ok lf'" "holds_frame (te_engine T) lf' mid"
    using apply_step_implements [OF assms(1) Cons.prems(1) mid(1)] by blast
  then show ?case using Cons.IH [OF _ mid(2)] by simp
qed simp

lemma transform_implements:
  assumes "transform_laws T" "wf_ds input" "distinct (field_names (ds_schema input))" "sfields (ds_schema input) \<noteq> []"
    and "run_spec (te_sha256 T) sts input = Some out"
  shows "transform_apply T \<lparr>ts_output_schema = ds_schema out, ts_steps = sts\<rparr> input = Ok out"
proof -
  have laws: "builds_frames (te_polars T)" "casts_to_self (te_polars T)" "evaluates_plans (te_engine T)"
    using assms(1) by (simp_all add: transform_laws_def)
  have "proper input" using assms(2-4) by (simp add: proper_def)
  from from_dataset_holds [OF laws(1,3) this]
  have start: "from_dataset (te_polars T) input = Ok (LFrame (frame_of input))"
    "holds_frame (te_engine T) (LFrame (frame_of input)) input" by blast+
  obtain lf' where "apply_steps T sts (LFrame (frame_of input)) = Ok lf'" "holds_frame (te_engine T) lf' out"
    using apply_steps_implement [OF assms(1) start(2) assms(5)] by blast
  then show ?thesis using start(1) collect_holds(2) [OF laws(2)] by (simp add: transform_apply_def)
qed

subsection \<open>Properties\<close>

text \<open>Whatever Polars computes, a specification that succeeds yields its output schema with only typed
  cells.\<close>

theorem transform_typed:
  assumes "transform_apply T spec input = Ok out"
  shows "ds_schema out = ts_output_schema spec \<and> wf_ds out"
proof -
  obtain df where "dataframe_to_dataset (te_polars T) df (ts_output_schema spec) ''column'' 1 = Ok out"
    using assms by (auto simp: transform_apply_def collect_with_schema_def rbind_Inr_iff)
  from dataframe_to_dataset_wf [OF this] show ?thesis by simp
qed

text \<open>C18: A specification whose steps all have a row-wise meaning, and whose output schema is that of the
  dataset they describe, yields exactly that dataset from a well-formed one with distinct column
  names, the string steps in between included, over an engine that evaluates the built nodes as
  documented. A meaning is given to selecting, dropping and renaming existing columns, to casts that
  cannot fail (to the same type, from Int64 to the others, from Bool to the others), to fills and
  literals that are not null (a fill of the column's own type), to multiples and sums of numeric
  columns, and to the three string steps; casts from floats and texts to other types, fills that
  retype their column and conversions to another output schema are left to the engine.\<close>

theorem transform_refines:
  assumes "transform_laws T" "wf_ds input" "distinct (field_names (ds_schema input))" "sfields (ds_schema input) \<noteq> []"
    and "run_spec (te_sha256 T) sts input = Some out"
  shows "transform_apply T \<lparr>ts_output_schema = ds_schema out, ts_steps = sts\<rparr> input = Ok out"
  by (rule transform_implements [OF assms])


subsection \<open>Witnesses\<close>

text \<open>An engine that evaluates the nodes above and fails on everything else.\<close>

definition no_plan :: "polars_error + frame" where
  "no_plan = Inl (PeOther (SrcOther ''unsupported plan'' None))"

fun col_name :: "expr \<Rightarrow> string option" where
  "col_name (ECol c) = Some c"
| "col_name _ = None"

definition plain_select :: "frame \<Rightarrow> expr list \<Rightarrow> polars_error + frame" where
  "plain_select f es =
     (if list_all (\<lambda>e. col_name e \<noteq> None \<and> column f (the (col_name e)) \<noteq> None) es
      then Inr \<lparr>f_height = f_height f, f_columns = map (\<lambda>e. the (column f (the (col_name e)))) es\<rparr> else no_plan)"

definition plain_set :: "frame \<Rightarrow> expr list \<Rightarrow> polars_error + frame" where
  "plain_set f es =
     (case es of
        [EAlias e n] \<Rightarrow> (case eval_column f e of
            Some (t, cells) \<Rightarrow> Inr (set_series \<lparr>s_name = n, s_dtype = t, s_cells = cells\<rparr> f)
          | None \<Rightarrow> no_plan)
      | _ \<Rightarrow> no_plan)"

fun plain_collect :: "lazy_frame \<Rightarrow> polars_error + frame" where
  "plain_collect (LFrame f) = Inr f"
| "plain_collect (LSelect p es) = rbind (plain_collect p) (\<lambda>f. plain_select f es)"
| "plain_collect (LDrop p ns _) = rbind (plain_collect p) (\<lambda>f.
     Inr \<lparr>f_height = f_height f, f_columns = filter (\<lambda>s. s_name s \<notin> set ns) (f_columns f)\<rparr>)"
| "plain_collect (LRename p olds news _) = rbind (plain_collect p) (\<lambda>f.
     Inr \<lparr>f_height = f_height f, f_columns = map (\<lambda>s. s\<lparr>s_name := new_name (zip olds news) (s_name s)\<rparr>) (f_columns f)\<rparr>)"
| "plain_collect (LWithColumns p es) = rbind (plain_collect p) (\<lambda>f. plain_set f es)"
| "plain_collect _ = no_plan"

definition plain_engine :: engine where
  "plain_engine = \<lparr>le_collect = plain_collect, le_schema = (\<lambda>_. Inr [])\<rparr>"

definition plain_env :: transform_env where
  "plain_env = \<lparr>te_polars = plain_polars, te_engine = plain_engine, te_checks = True, te_sha256 = (\<lambda>_. [])\<rparr>"

lemma plain_env_laws: "transform_laws plain_env"
proof -
  have "evaluates_plans plain_engine"
    by (auto simp: evaluates_plans_def plain_engine_def plain_select_def plain_set_def list_all_iff zip_map_fst_snd comp_def)
  then show ?thesis
    by (simp add: transform_laws_def plain_env_def builds_frames_def casts_to_self_def plain_polars_def)
qed

definition people :: data_set where
  "people = data_set_new (schema_new [mk_field ''id'' TInt64, mk_field ''name'' TUtf8, mk_field ''score'' TFloat64])
     [[Int64 1, Utf8 ''Ada'', Float64 (of_int64 2)], [Int64 2, Null, Null]]"

definition people_steps :: "transform_step list" where
  "people_steps = [Select [''name'', ''score''], FillNull ''name'' (Utf8 ''none''), Utf8Truncate ''name'' 2,
     Rename [(''score'', ''points'')], WithLiteral ''src'' (Bool True), Cast ''src'' TInt64 Strict]"

definition people_out :: data_set where
  "people_out = data_set_new (schema_new [mk_field ''name'' TUtf8, mk_field ''points'' TFloat64, mk_field ''src'' TInt64])
     [[Utf8 ''Ad'', Float64 (of_int64 2), Int64 1], [Utf8 ''no'', Null, Int64 1]]"

lemma people_run: "run_spec (te_sha256 plain_env) people_steps people = Some people_out"
  by (simp add: people_steps_def people_def people_out_def step_spec_def field_names_def index_of_def project_def
      set_col_def set_at_def type_of_def cast_value_def text_op_def text_step_def with_texts_def truncate_text_def is_cont_def renamed_def
      new_name_def mk_field_def schema_new_def data_set_new_def)

lemma transform_refines_witness:
  "transform_apply plain_env \<lparr>ts_output_schema = ds_schema people_out, ts_steps = people_steps\<rparr> people = Ok people_out"
proof -
  have "wf_ds people" "distinct (field_names (ds_schema people))" "sfields (ds_schema people) \<noteq> []"
    by (simp_all add: people_def wf_row_def field_names_def)
  then show ?thesis using transform_refines [OF plain_env_laws _ _ _ people_run] by simp
qed

lemma transform_typed_witness:
  "\<exists>out. transform_apply plain_env (transform_spec_new (ds_schema two_rows)) two_rows = Ok out \<and> wf_ds out"
proof -
  have "transform_apply plain_env (transform_spec_new (ds_schema two_rows)) two_rows = Ok two_rows" by code_simp
  from transform_typed [OF this] this show ?thesis by blast
qed

end
