(* ===== verification/Plan_Reduce.thy ===== *)
theory Plan_Reduce
  imports Frames
begin

text \<open>
  Reductions through the lazy pipeline against the in-memory reductions. \<open>eval_scalar\<close> is the documented
  value of the aggregations \<open>df_reduce\<close> builds for counts, extrema, sums and distinct values; the
  floating-point statistics are left to the engine.
\<close>

definition series_ints :: "series \<Rightarrow> i64 list" where
  "series_ints s = List.map_filter (\<lambda>a. case a of AvInt64 v \<Rightarrow> Some v | _ \<Rightarrow> None) (s_cells s)"

definition extremum :: "(int set \<Rightarrow> int) \<Rightarrow> i64 list \<Rightarrow> any_value" where
  "extremum m vs = (if vs = [] then AvNull else AvInt64 (word_of_int (m (sint ` set vs))))"

definition eval_scalar :: "frame \<Rightarrow> expr \<Rightarrow> any_value option" where
  "eval_scalar f e =
     (case e of
        ELen \<Rightarrow> Some (AvUInt32 (word_of_nat (f_height f)))
      | EAgg op (ECol c) \<Rightarrow>
          Option.bind (column f c) (\<lambda>s.
            if s_dtype s \<noteq> PInt64 then None
            else if op = AgMin then Some (extremum Lattices_Big.Min (series_ints s))
            else if op = AgMax then Some (extremum Lattices_Big.Max (series_ints s))
            else if op = AgSum then Some (AvInt64 (sum_list (series_ints s)))
            else None)
      | EAgg op (EFun g (ECol c)) \<Rightarrow>
          Option.bind (column f c) (\<lambda>s.
            if op = AgNUnique \<and> g = FnDropNulls \<and> s_dtype s \<noteq> PFloat64
            then Some (AvUInt32 (word_of_nat (card (set (s_cells s) - {AvNull})))) else None)
      | _ \<Rightarrow> None)"

definition evaluates_scalars :: "engine \<Rightarrow> bool" where
  "evaluates_scalars E \<longleftrightarrow>
     (\<forall>p f. le_collect E p = Inr f \<longrightarrow>
        le_schema E p = Inr (map (\<lambda>s. (s_name s, s_dtype s)) (f_columns f)) \<and>
        (\<forall>e av n. f_columns f \<noteq> [] \<longrightarrow> eval_scalar f e = Some av \<longrightarrow>
           (\<exists>t. le_collect E (LSelect p [EAlias e n]) =
              Inr \<lparr>f_height = 1, f_columns = [\<lparr>s_name = n, s_dtype = t, s_cells = [av]\<rparr>]\<rparr>)))"

subsection \<open>A scalar selection\<close>

lemma df_reduce_missing:
  assumes "evaluates_scalars E" "holds_frame E lf ds" "index_of (ds_schema ds) c = None"
  shows "df_reduce P E lf c op = Ok None"
proof -
  have "c \<notin> set (field_names (ds_schema ds))" using assms(3) by (simp add: index_of_None_iff)
  then have "map_of (map (\<lambda>s. (s_name s, s_dtype s)) (f_columns (frame_of ds))) c = None"
    by (auto simp: map_of_eq_None_iff field_names_def)
  then show ?thesis
    using assms(1,2) by (simp add: df_reduce_def holds_frame_def evaluates_scalars_def)
qed

lemma df_reduce_scalar:
  assumes "evaluates_scalars E" "holds_frame E lf ds" "index_of (ds_schema ds) c = Some i"
    and "eval_scalar (frame_of ds) (polars_reduce_expr c op) = Some av"
  shows "df_reduce P E lf c op = Ok (Some (anyvalue_to_value P av))"
proof -
  have ds: "le_collect E lf = Inr (frame_of ds)" "f_columns (frame_of ds) \<noteq> []"
    using assms(2) holds_frame_columns [OF assms(2)] by (simp_all add: holds_frame_def)
  have "c \<in> fst ` set (map (\<lambda>s. (s_name s, s_dtype s)) (f_columns (frame_of ds)))"
    using assms(3) by (force simp: index_of_Some_iff)
  then have "map_of (map (\<lambda>s. (s_name s, s_dtype s)) (f_columns (frame_of ds))) c \<noteq> None"
    by (simp only: map_of_eq_None_iff) simp
  moreover obtain t where
    "le_collect E (LSelect lf [EAlias (polars_reduce_expr c op) REDUCE_SCALAR_COL]) =
      Inr \<lparr>f_height = 1, f_columns = [\<lparr>s_name = REDUCE_SCALAR_COL, s_dtype = t, s_cells = [av]\<rparr>]\<rparr>"
    using assms(1,4) ds unfolding evaluates_scalars_def by blast
  ultimately show ?thesis
    using assms(1) ds(1) by (auto simp: df_reduce_def evaluates_scalars_def column_def simp del: frame_of_sel)
qed

subsection \<open>Cells on both sides\<close>

lemma series_ints_typed:
  assumes "wf_ds ds" "i < length (sfields (ds_schema ds))" "ftype (sfields (ds_schema ds) ! i) = TInt64"
  shows "series_ints (typed_series (rows ds) i (sfields (ds_schema ds) ! i)) = int_cells i (rows ds)"
proof -
  have "(case the (cell_to_any TInt64 (get r i)) of AvInt64 v \<Rightarrow> Some v | _ \<Rightarrow> None) =
      (case get r i of Some (Int64 v) \<Rightarrow> Some v | _ \<Rightarrow> None)" if "r \<in> set (rows ds)" for r
  proof -
    have "has_type (r ! i) TInt64" "get r i = Some (r ! i)"
      using wf_row_nth [OF wf_ds_row [OF assms(1) that] assms(2)] wf_get [OF wf_ds_row [OF assms(1) that] assms(2)] assms(3)
      by simp_all
    then show ?thesis by (cases "r ! i") (simp_all add: cell_to_any_def)
  qed
  then show ?thesis
    by (auto simp: series_ints_def int_cells_def List.map_filter_def comp_def assms(3) filter_map cong: map_cong filter_cong)
qed

lemma distinct_cells_card:
  assumes "wf_ds ds" "i < length (sfields (ds_schema ds))"
  shows "card (set (s_cells (typed_series (rows ds) i (sfields (ds_schema ds) ! i))) - {AvNull}) =
    card {v. v \<noteq> Null \<and> has_type v (ftype (sfields (ds_schema ds) ! i)) \<and> (\<exists>r\<in>set (rows ds). get r i = Some v)}"
proof -
  let ?t = "ftype (sfields (ds_schema ds) ! i)" and ?h = "\<lambda>v. the (cell_to_any (ftype (sfields (ds_schema ds) ! i)) (Some v))"
  let ?S = "{v. v \<noteq> Null \<and> has_type v ?t \<and> (\<exists>r\<in>set (rows ds). get r i = Some v)}"
  have cell: "has_type (r ! i) ?t" "get r i = Some (r ! i)" if "r \<in> set (rows ds)" for r
    using wf_row_nth [OF wf_ds_row [OF assms(1) that] assms(2)] wf_get [OF wf_ds_row [OF assms(1) that] assms(2)] by simp_all
  have null: "?h v = AvNull \<longleftrightarrow> v = Null" if "has_type v ?t" for v
    using that by (cases v; cases ?t) (simp_all add: cell_to_any_def)
  have "set (s_cells (typed_series (rows ds) i (sfields (ds_schema ds) ! i))) - {AvNull} = ?h ` ?S"
  proof (intro equalityI subsetI)
    fix a assume "a \<in> set (s_cells (typed_series (rows ds) i (sfields (ds_schema ds) ! i))) - {AvNull}"
    then obtain r where r: "r \<in> set (rows ds)" "a = ?h (r ! i)" "a \<noteq> AvNull" by (auto simp: cell(2))
    then have "r ! i \<in> ?S" using cell [OF r(1)] null by auto
    with r(2) show "a \<in> ?h ` ?S" by blast
  next
    fix a assume "a \<in> ?h ` ?S"
    then show "a \<in> set (s_cells (typed_series (rows ds) i (sfields (ds_schema ds) ! i))) - {AvNull}"
      using null by (force simp: image_iff)
  qed
  moreover have "inj_on ?h ?S"
  proof (rule inj_onI)
    fix u v assume "u \<in> ?S" "v \<in> ?S" "?h u = ?h v"
    then show "u = v" by (cases u; cases v; cases ?t) (auto simp: cell_to_any_def)
  qed
  ultimately show ?thesis by (simp only: card_image)
qed

lemma extremum_min:
  assumes "m \<in> set vs" "\<forall>v\<in>set vs. sint m \<le> sint v"
  shows "extremum Lattices_Big.Min vs = AvInt64 m"
proof -
  have "Lattices_Big.Min (sint ` set vs) = sint m" using assms by (intro Min_eqI) auto
  then show ?thesis using assms(1) by (auto simp: extremum_def)
qed

lemma extremum_max:
  assumes "m \<in> set vs" "\<forall>v\<in>set vs. sint v \<le> sint m"
  shows "extremum Lattices_Big.Max vs = AvInt64 m"
proof -
  have "Lattices_Big.Max (sint ` set vs) = sint m" using assms by (intro Max_eqI) auto
  then show ?thesis using assms(1) by (auto simp: extremum_def)
qed

lemma u32_of_nat: "n < 2 ^ 32 \<Longrightarrow> (ucast (word_of_nat n :: 32 word) :: i64) = word_of_nat n"
  by (simp add: unsigned_of_nat take_bit_nat_eq_self flip: word_of_nat_eq_iff)

subsection \<open>Properties\<close>

lemma distinct_bound:
  assumes "wf_ds ds" "i < length (sfields (ds_schema ds))"
  shows "card {v. v \<noteq> Null \<and> has_type v (ftype (sfields (ds_schema ds) ! i)) \<and> (\<exists>r\<in>set (rows ds). get r i = Some v)} \<le> row_count ds"
proof -
  let ?cells = "s_cells (typed_series (rows ds) i (sfields (ds_schema ds) ! i))"
  have "card {v. v \<noteq> Null \<and> has_type v (ftype (sfields (ds_schema ds) ! i)) \<and> (\<exists>r\<in>set (rows ds). get r i = Some v)} = card (set ?cells - {AvNull})"
    using distinct_cells_card [OF assms(1,2)] by simp
  also have "\<dots> \<le> row_count ds"
    using card_length [of ?cells] card_Diff1_le [of "set ?cells" AvNull] by (simp add: row_count_def)
  finally show ?thesis .
qed

lemma extremum_runs:
  fixes v :: i64
  obtains lo hi where "run_acc (step_i64 False Min) (Some v) vs = Ok (Some lo)" "extremum Lattices_Big.Min (v # vs) = AvInt64 lo"
    "run_acc (step_i64 False Max) (Some v) vs = Ok (Some hi)" "extremum Lattices_Big.Max (v # vs) = AvInt64 hi"
  using run_min_i64 [of False v vs] run_max_i64 [of False v vs] extremum_min [of _ "v # vs"] extremum_max [of _ "v # vs"]
  by (metis list.simps(15))

text \<open>C19: The pipeline's row count of any column, its number of distinct values of a column that is not of
  floats, and its minimum, maximum and sum of an integer column are those of the in-memory
  reduction, and both return no value for a missing column; the one exception is the sum of a column
  without values, which is zero in the pipeline and null in memory. (In memory, a build without
  overflow checks; fewer than \<open>2 ^ 32\<close> rows. The floating-point reductions, means, variances, norms
  and the like, are not covered: the two paths may differ there.)\<close>

theorem reduce_parity:
  assumes "evaluates_scalars E" "holds_frame E lf ds" "op \<in> {Count, Min, Max, Sum, CountDistinctNonNull}"
    and "row_count ds < 2 ^ 32" "\<And>i. index_of (ds_schema ds) c = Some i \<Longrightarrow> ftype (sfields (ds_schema ds) ! i) = TInt64 \<or>
      op = Count \<or> op = CountDistinctNonNull \<and> ftype (sfields (ds_schema ds) ! i) \<noteq> TFloat64"
  shows "df_reduce P E lf c op =
    (case index_of (ds_schema ds) c of
       Some i \<Rightarrow> if op = Sum \<and> int_cells i (rows ds) = [] then Ok (Some (Int64 0)) else reduce False ds c op
     | None \<Rightarrow> Ok None)"
proof (cases "index_of (ds_schema ds) c")
  case None
  then show ?thesis using df_reduce_missing [OF assms(1,2)] by simp
next
  case (Some i)
  note b = index_of_bound [OF Some]
  let ?t = "ftype (sfields (ds_schema ds) ! i)"
  have ds: "proper ds" using assms(2) by (simp add: holds_frame_def)
  have wf: "wf_ds ds" by (rule properD(1) [OF ds])
  note col = column_frame_index [OF ds Some]
  let ?vs = "int_cells i (rows ds)"
  have ints: "series_ints (typed_series (rows ds) i (sfields (ds_schema ds) ! i)) = ?vs"
    if "?t = TInt64" by (rule series_ints_typed [OF wf b that])
  note scalar = df_reduce_scalar [OF assms(1,2) Some, of op _ P]
  note defs = eval_scalar_def polars_reduce_expr_def col target_dtype_def anyvalue_to_value_def
  consider "op = Count" | "op = Sum" "?t = TInt64" | "op = CountDistinctNonNull" "?t \<noteq> TFloat64"
    | "op \<in> {Min, Max}" "?t = TInt64" "?vs = []" | v vs where "op \<in> {Min, Max}" "?t = TInt64" "?vs = v # vs"
    using assms(3) assms(5) [OF Some] by (cases ?vs) auto
  then show ?thesis
  proof cases
    case 1
    then show ?thesis
      using scalar [of "AvUInt32 (word_of_nat (row_count ds))"] assms(4) Some u32_of_nat
      by (simp add: eval_scalar_def polars_reduce_expr_def anyvalue_to_value_def reduce_def Let_def)
  next
    case 2
    then show ?thesis
      using scalar [of "AvInt64 (sum_list ?vs)"] Some
      by (simp add: defs ints reduce_unfold loop_i64_cells run_sum_i64 or_null_def del: typed_series_sel(3))
  next
    case 3
    let ?n = "card {v. v \<noteq> Null \<and> has_type v ?t \<and> (\<exists>r\<in>set (rows ds). get r i = Some v)}"
    have "?n < 2 ^ 32" using distinct_bound [OF wf b] assms(4) by simp
    then show ?thesis
      using 3 scalar [of "AvUInt32 (word_of_nat ?n)"] Some distinct_cells_card [OF wf b] u32_of_nat
      by (cases ?t) (simp_all add: defs reduce_unfold reduce_count_distinct_non_null_def collect_set_card del: typed_series_sel(3))
  next
    case 4
    then show ?thesis
      using scalar [of AvNull] Some
      by (auto simp: defs ints extremum_def reduce_unfold loop_i64_cells or_null_def simp del: typed_series_sel(3))
  next
    case 5
    obtain lo hi where "run_acc (step_i64 False Min) (Some v) vs = Ok (Some lo)" "extremum Lattices_Big.Min ?vs = AvInt64 lo"
      "run_acc (step_i64 False Max) (Some v) vs = Ok (Some hi)" "extremum Lattices_Big.Max ?vs = AvInt64 hi"
      unfolding 5(3) by (rule extremum_runs)
    then show ?thesis
      using 5 scalar [of "AvInt64 lo"] scalar [of "AvInt64 hi"] Some
      by (auto simp: defs ints reduce_unfold loop_i64_cells or_null_def simp del: typed_series_sel(3))
  qed
qed

subsection \<open>Witnesses\<close>

text \<open>An engine that evaluates the scalar selections over a frame.\<close>

fun scalar_collect :: "lazy_frame \<Rightarrow> polars_error + frame" where
  "scalar_collect (LFrame f) = Inr f"
| "scalar_collect (LSelect p es) = rbind (scalar_collect p) (\<lambda>f.
     case es of
       [EAlias e n] \<Rightarrow> (case eval_scalar f e of
           Some av \<Rightarrow> Inr \<lparr>f_height = 1, f_columns = [\<lparr>s_name = n, s_dtype = PInt64, s_cells = [av]\<rparr>]\<rparr>
         | None \<Rightarrow> Inl (PeColumnNotFound n))
     | _ \<Rightarrow> Inl (PeColumnNotFound []))"
| "scalar_collect _ = Inl (PeColumnNotFound [])"

definition scalar_engine :: engine where
  "scalar_engine = \<lparr>le_collect = scalar_collect,
     le_schema = (\<lambda>p. rmap (\<lambda>f. map (\<lambda>s. (s_name s, s_dtype s)) (f_columns f)) (scalar_collect p))\<rparr>"

lemma reduce_parity_witness:
  "df_reduce plain_polars scalar_engine (LFrame (frame_of two_rows)) ''id'' Max = Ok (Some (Int64 7))"
proof -
  have "evaluates_scalars scalar_engine" by (simp add: evaluates_scalars_def scalar_engine_def)
  moreover have "holds_frame scalar_engine (LFrame (frame_of two_rows)) two_rows"
    by (simp add: holds_frame_def proper_def scalar_engine_def two_rows_def wf_row_def field_names_def)
  moreover have "index_of (ds_schema two_rows) ''id'' = Some 0" "ftype (sfields (ds_schema two_rows) ! 0) = TInt64"
    by code_simp+
  moreover have "row_count two_rows < 2 ^ 32" by (simp add: two_rows_def row_count_def)
  moreover have "reduce False two_rows ''id'' Max = Ok (Some (Int64 7))" by code_simp
  ultimately show ?thesis
    using reduce_parity [of scalar_engine "LFrame (frame_of two_rows)" two_rows Max "''id''" plain_polars] by simp
qed

end
