(* ===== verification/Validation.thy ===== *)
theory Validation
  imports Frames Json
begin

text \<open>
  Validation (\<open>src/validation/mod.rs\<close>): checks compiled to aggregations of failing rows, the report
  with its summary, and its rendering. \<open>show_f64\<close> prints a float, \<open>dbg_check\<close> and \<open>dbg_value\<close> are the
  derived debug printers.
\<close>

datatype severity = Info | Warn | Error

instantiation severity :: linorder
begin

fun severity_rank :: "severity \<Rightarrow> nat" where
  "severity_rank Info = 0" | "severity_rank Warn = 1" | "severity_rank Error = 2"

definition less_eq_severity :: "severity \<Rightarrow> severity \<Rightarrow> bool" where
  "a \<le> b \<longleftrightarrow> severity_rank a \<le> severity_rank b"

definition less_severity :: "severity \<Rightarrow> severity \<Rightarrow> bool" where
  "a < b \<longleftrightarrow> severity_rank a < severity_rank b"

instance
proof
  fix a b :: severity
  assume "a \<le> b" "b \<le> a"
  then show "a = b" by (cases a; cases b) (simp_all add: less_eq_severity_def)
qed (auto simp: less_eq_severity_def less_severity_def)

end

datatype check =
    NotNull string severity
  | RangeF64 string f64 f64 severity
  | RegexMatch string string severity bool
  | InSet string "value_t list" severity
  | Unique string severity
  | Utf8LenCharsBetween string "32 word" "32 word" severity

record validation_spec =
  vs_checks :: "check list"
  vs_max_examples :: nat

definition validation_spec_new :: "check list \<Rightarrow> validation_spec" where
  "validation_spec_new checks = \<lparr>vs_checks = checks, vs_max_examples = 5\<rparr>"

record validation_summary =
  sm_total_checks :: nat
  sm_failed_checks :: nat
  sm_max_severity :: "severity option"

record check_result =
  cr_check :: check
  cr_failed_count :: nat
  cr_examples :: "value_t list"
  cr_message :: string

record validation_report =
  vr_results :: "check_result list"
  vr_summary :: validation_summary

definition severity_of :: "check \<Rightarrow> severity" where
  "severity_of c =
     (case c of NotNull _ s \<Rightarrow> s | RangeF64 _ _ _ s \<Rightarrow> s | RegexMatch _ _ s _ \<Rightarrow> s | InSet _ _ s \<Rightarrow> s
      | Unique _ s \<Rightarrow> s | Utf8LenCharsBetween _ _ _ s \<Rightarrow> s)"

definition fail_count_col_name :: "nat \<Rightarrow> string" where
  "fail_count_col_name i = ''__fail_'' @ show_nat i"

definition default_message :: "(f64 \<Rightarrow> string) \<Rightarrow> check \<Rightarrow> nat \<Rightarrow> string" where
  "default_message show_f64 chk failed =
     (let has = (\<lambda>c. ''column '' @ sq c @ '' has '' @ show_nat failed) in
      case chk of
        NotNull c _ \<Rightarrow> has c @ '' null(s)''
      | RangeF64 c lo hi _ \<Rightarrow> has c @ '' value(s) outside ['' @ show_f64 lo @ '', '' @ show_f64 hi @ '']''
      | RegexMatch c pattern _ _ \<Rightarrow> has c @ '' value(s) not matching /'' @ pattern @ ''/''
      | InSet c _ _ \<Rightarrow> has c @ '' value(s) not in set''
      | Unique c _ \<Rightarrow> has c @ '' duplicate(s) among non-null values''
      | Utf8LenCharsBetween c lo hi _ \<Rightarrow> has c @ '' value(s) whose UTF-8 length is outside ['' @
          show_nat (unat lo) @ '', '' @ show_nat (unat hi) @ ''] Unicode scalars'')"

subsection \<open>Expressions\<close>

text \<open>The literal series of a set: the first value fixes the type, values of another type are left out.\<close>

definition values_to_series :: "value_t list \<Rightarrow> series" where
  "values_to_series vs =
     (let mk = (\<lambda>t cells. \<lparr>s_name = ''set'', s_dtype = t, s_cells = cells\<rparr>) in
      case vs of
        [] \<Rightarrow> mk PInt64 []
      | v # _ \<Rightarrow> (case v of
          Int64 _ \<Rightarrow> mk PInt64 (List.map_filter (\<lambda>x. case x of Int64 i \<Rightarrow> Some (AvInt64 i) | _ \<Rightarrow> None) vs)
        | Bool _ \<Rightarrow> mk PBoolean (List.map_filter (\<lambda>x. case x of Bool b \<Rightarrow> Some (AvBoolean b) | _ \<Rightarrow> None) vs)
        | Utf8 _ \<Rightarrow> mk PString (List.map_filter (\<lambda>x. case x of Utf8 s \<Rightarrow> Some (AvString s) | _ \<Rightarrow> None) vs)
        | _ \<Rightarrow> mk PString []))"

definition len_expr :: "string \<Rightarrow> expr" where
  "len_expr c = EFillNull (EFun FnLenChars (EFun (FnCast PString) (ECol c))) (ELit (LitU32 0))"

text \<open>The failing rows of a check as a boolean expression; \<open>Unique\<close> has none.\<close>

definition fail_predicate :: "check \<Rightarrow> (string \<times> expr) option" where
  "fail_predicate chk =
     (case chk of
        NotNull c _ \<Rightarrow> Some (c, EFun FnIsNull (ECol c))
      | RangeF64 c lo hi _ \<Rightarrow> Some (c, EBin OpOr (EBin OpLt (ECol c) (lit_value (Float64 lo))) (EBin OpGt (ECol c) (lit_value (Float64 hi))))
      | RegexMatch c pattern _ strict \<Rightarrow>
          Some (c, EFun FnNot (EFun (FnContains (LitValue (Utf8 pattern)) strict) (EFun (FnCast PString) (ECol c))))
      | InSet c vs _ \<Rightarrow> Some (c, EFun FnNot (EFun (FnIsIn (LitSeries (values_to_series vs)) False) (ECol c)))
      | Unique _ _ \<Rightarrow> None
      | Utf8LenCharsBetween c lo hi _ \<Rightarrow>
          Some (c, EBin OpOr (EBin OpLt (len_expr c) (ELit (LitU32 lo))) (EBin OpGt (len_expr c) (ELit (LitU32 hi)))))"

definition fail_count_expr :: "check \<Rightarrow> expr" where
  "fail_count_expr chk =
     (case chk of
        Unique c _ \<Rightarrow> EAlias (EBin OpSub (EAgg AgSum (EFun FnIsNotNull (ECol c))) (EAgg AgNUnique (EFun FnDropNulls (ECol c)))) ''__dup''
      | _ \<Rightarrow> EAgg AgSum (snd (the (fail_predicate chk))))"

definition index_error :: "'a \<Rightarrow> err_src" where
  "index_error _ = SrcOther ''index out of bounds'' None"

definition series_to_usize :: "polars \<Rightarrow> series \<Rightarrow> nat option result" where
  "series_to_usize P s =
     (case s_cells s of
        [] \<Rightarrow> Err (EngineErr ''failed to read validation value'' (index_error s))
      | av # _ \<Rightarrow> (case av of
          AvNull \<Rightarrow> Ok None
        | AvInt64 v \<Rightarrow> Ok (Some (nat (max (sint v) 0)))
        | AvUInt64 v \<Rightarrow> Ok (Some (unat v))
        | AvInt32 v \<Rightarrow> Ok (Some (nat (max (sint v) 0)))
        | AvUInt32 v \<Rightarrow> Ok (Some (unat v))
        | other \<Rightarrow> Err (SchemaMismatch (''expected integer-like validation value, got '' @ av_text P other))))"

definition example_of_any :: "polars \<Rightarrow> any_value \<Rightarrow> value_t" where
  "example_of_any P av =
     (case av of
        AvNull \<Rightarrow> Null
      | AvBoolean b \<Rightarrow> Bool b
      | AvInt64 i \<Rightarrow> Int64 i
      | AvFloat64 x \<Rightarrow> Float64 x
      | AvString s \<Rightarrow> Utf8 s
      | AvStringOwned s \<Rightarrow> Utf8 s
      | other \<Rightarrow> Utf8 (av_text P other))"

definition collect_examples :: "polars \<Rightarrow> engine \<Rightarrow> lazy_frame \<Rightarrow> check \<Rightarrow> nat \<Rightarrow> value_t list result" where
  "collect_examples P E lf chk max_examples =
     (case fail_predicate chk of
        None \<Rightarrow> Ok []
      | Some (c, pred) \<Rightarrow>
          rbind (map_polars ''failed to collect validation examples''
                   (le_collect E (LLimit (LSelect (LFilter lf pred) [ECol c]) (word_of_nat max_examples)))) (\<lambda>df.
          rmap (\<lambda>s. map (example_of_any P) (take max_examples (s_cells s)))
            (ok_or (polars_error_to_ingestion ''missing validation example column'' (PeColumnNotFound c)) (column df c))))"

subsection \<open>The report\<close>

type_synonym progress = "nat \<times> severity option \<times> check_result list"

definition check_outcome ::
  "polars \<Rightarrow> engine \<Rightarrow> (f64 \<Rightarrow> string) \<Rightarrow> lazy_frame \<Rightarrow> nat \<Rightarrow> check \<Rightarrow> nat \<Rightarrow> check_result" where
  "check_outcome P E show_f64 lf max_examples chk failed_count =
     \<lparr>cr_check = chk, cr_failed_count = failed_count,
      cr_examples = (if 0 < failed_count \<and> 0 < max_examples
        then (case collect_examples P E lf chk max_examples of Inr es \<Rightarrow> es | Inl _ \<Rightarrow> []) else []),
      cr_message = default_message show_f64 chk failed_count\<rparr>"

definition tally :: "check_result \<Rightarrow> progress \<Rightarrow> progress" where
  "tally r = (\<lambda>(failed_checks, max_sev, results).
     if 0 < cr_failed_count r
     then (let sev = severity_of (cr_check r) in
           (failed_checks + 1, Some (case max_sev of Some m \<Rightarrow> max m sev | None \<Rightarrow> sev), results @ [r]))
     else (failed_checks, max_sev, results @ [r]))"

definition check_step ::
  "polars \<Rightarrow> engine \<Rightarrow> (f64 \<Rightarrow> string) \<Rightarrow> lazy_frame \<Rightarrow> nat \<Rightarrow> frame \<Rightarrow> nat \<times> check \<Rightarrow> progress \<Rightarrow> progress result" where
  "check_step P E show_f64 lf max_examples agg = (\<lambda>(i, chk) st.
     rbind (ok_or (polars_error_to_ingestion ''validation missing agg column'' (PeColumnNotFound (fail_count_col_name i)))
              (column agg (fail_count_col_name i))) (\<lambda>s.
     rmap (\<lambda>count. tally (check_outcome P E show_f64 lf max_examples chk (case count of Some n \<Rightarrow> n | None \<Rightarrow> 0)) st)
       (series_to_usize P s)))"

fun check_loop ::
  "polars \<Rightarrow> engine \<Rightarrow> (f64 \<Rightarrow> string) \<Rightarrow> lazy_frame \<Rightarrow> nat \<Rightarrow> frame \<Rightarrow> (nat \<times> check) list \<Rightarrow> progress \<Rightarrow> progress result" where
  "check_loop P E show_f64 lf max_examples agg [] st = Ok st"
| "check_loop P E show_f64 lf max_examples agg (ic # ics) st =
     rbind (check_step P E show_f64 lf max_examples agg ic st) (check_loop P E show_f64 lf max_examples agg ics)"

definition count_plan :: "lazy_frame \<Rightarrow> check list \<Rightarrow> lazy_frame" where
  "count_plan lf checks =
     LSelect lf (map (\<lambda>(i, chk). EAlias (fail_count_expr chk) (fail_count_col_name i)) (enumerate 0 checks))"

definition validate_frame ::
  "polars \<Rightarrow> engine \<Rightarrow> (f64 \<Rightarrow> string) \<Rightarrow> lazy_frame \<Rightarrow> validation_spec \<Rightarrow> validation_report result" where
  "validate_frame P E show_f64 lf spec =
     (if vs_checks spec = []
      then Ok \<lparr>vr_results = [], vr_summary = \<lparr>sm_total_checks = 0, sm_failed_checks = 0, sm_max_severity = None\<rparr>\<rparr>
      else
        rbind (map_polars ''failed to compute validation counts'' (le_collect E (count_plan lf (vs_checks spec)))) (\<lambda>agg.
        rmap (\<lambda>(failed_checks, max_sev, results).
            \<lparr>vr_results = results, vr_summary = \<lparr>sm_total_checks = length (vs_checks spec),
              sm_failed_checks = failed_checks, sm_max_severity = max_sev\<rparr>\<rparr>)
          (check_loop P E show_f64 lf (vs_max_examples spec) agg (enumerate 0 (vs_checks spec)) (0, None, []))))"

definition validate_dataset ::
  "polars \<Rightarrow> engine \<Rightarrow> (f64 \<Rightarrow> string) \<Rightarrow> data_set \<Rightarrow> validation_spec \<Rightarrow> validation_report result" where
  "validate_dataset P E show_f64 ds spec =
     rbind (from_dataset P ds) (\<lambda>lf. validate_frame P E show_f64 lf spec)"

subsection \<open>Rendering\<close>

definition example_to_json :: "value_t \<Rightarrow> json" where
  "example_to_json v =
     (case v of Null \<Rightarrow> JNull | Int64 i \<Rightarrow> json_of_i64 i | Float64 x \<Rightarrow> json_of_f64 x | Bool b \<Rightarrow> JBool b | Utf8 s \<Rightarrow> JString s)"

definition severity_name :: "severity \<Rightarrow> string" where
  "severity_name s = (case s of Info \<Rightarrow> ''Info'' | Warn \<Rightarrow> ''Warn'' | Error \<Rightarrow> ''Error'')"

definition jnat :: "nat \<Rightarrow> json" where
  "jnat n = JNumber (JPosInt n)"

definition validation_report_json :: "(check \<Rightarrow> string) \<Rightarrow> validation_report \<Rightarrow> json" where
  "validation_report_json dbg_check rep =
     (let s = vr_summary rep in
      JObject [
        (''summary'', JObject [
          (''total_checks'', jnat (sm_total_checks s)),
          (''failed_checks'', jnat (sm_failed_checks s)),
          (''max_severity'', case sm_max_severity s of Some m \<Rightarrow> JString (severity_name m) | None \<Rightarrow> JNull)]),
        (''results'', JArray (map (\<lambda>r. JObject [
          (''check'', JString (dbg_check (cr_check r))),
          (''failed_count'', jnat (cr_failed_count r)),
          (''examples'', JArray (map example_to_json (cr_examples r))),
          (''message'', JString (cr_message r))]) (vr_results rep)))])"

text \<open>\<open>pretty\<close> is \<open>serde_json::to_string_pretty\<close>.\<close>

definition render_validation_report_json :: "(check \<Rightarrow> string) \<Rightarrow> (json \<Rightarrow> string + string) \<Rightarrow> validation_report \<Rightarrow> string result" where
  "render_validation_report_json dbg_check pretty rep =
     (case pretty (validation_report_json dbg_check rep) of
        Inl e \<Rightarrow> Err (SchemaMismatch (''failed to serialize validation report json: '' @ e))
      | Inr t \<Rightarrow> Ok t)"

definition newline :: string where
  "newline = [CHR 0x0A]"

definition result_markdown :: "(check \<Rightarrow> string) \<Rightarrow> (value_t \<Rightarrow> string) \<Rightarrow> check_result \<Rightarrow> string" where
  "result_markdown dbg_check dbg_value r =
     ''- **'' @ (if cr_failed_count r = 0 then ''PASS'' else ''FAIL'') @ ''**: `'' @ dbg_check (cr_check r) @ ''`'' @ newline @
     ''  - Failed: **'' @ show_nat (cr_failed_count r) @ ''**'' @ newline @
     ''  - Message: '' @ cr_message r @ newline @
     (if cr_examples r = [] then []
      else ''  - Examples:'' @ newline @ concat (map (\<lambda>ex. ''    - `'' @ dbg_value ex @ ''`'' @ newline) (cr_examples r)))"

definition render_validation_report_markdown :: "(check \<Rightarrow> string) \<Rightarrow> (value_t \<Rightarrow> string) \<Rightarrow> validation_report \<Rightarrow> string" where
  "render_validation_report_markdown dbg_check dbg_value rep =
     ''## Validation report'' @ newline @ newline @
     ''- Total checks: **'' @ show_nat (sm_total_checks (vr_summary rep)) @ ''**'' @ newline @
     ''- Failed checks: **'' @ show_nat (sm_failed_checks (vr_summary rep)) @ ''**'' @ newline @ newline @
     ''### Results'' @ newline @ newline @
     concat (map (result_markdown dbg_check dbg_value) (vr_results rep))"

subsection \<open>What the loop keeps\<close>

definition failing :: "check_result list \<Rightarrow> check_result list" where
  "failing rs = filter (\<lambda>r. 0 < cr_failed_count r) rs"

definition worst :: "check_result list \<Rightarrow> severity option" where
  "worst rs = (if failing rs = [] then None else Some (Lattices_Big.Max (set (map (severity_of \<circ> cr_check) (failing rs)))))"

definition summarised :: "progress \<Rightarrow> bool" where
  "summarised st = (case st of (n, m, rs) \<Rightarrow> n = length (failing rs) \<and> m = worst rs)"

definition fair_result :: "(f64 \<Rightarrow> string) \<Rightarrow> nat \<Rightarrow> check_result \<Rightarrow> bool" where
  "fair_result show_f64 max_examples r \<longleftrightarrow>
     length (cr_examples r) \<le> max_examples \<and> (cr_failed_count r = 0 \<longrightarrow> cr_examples r = []) \<and>
     cr_message r = default_message show_f64 (cr_check r) (cr_failed_count r)"

lemma failing_snoc [simp]: "failing (rs @ [r]) = failing rs @ (if 0 < cr_failed_count r then [r] else [])"
  by (simp add: failing_def)

lemma worst_snoc:
  "worst (rs @ [r]) =
     (if 0 < cr_failed_count r
      then Some (case worst rs of Some m \<Rightarrow> max m (severity_of (cr_check r)) | None \<Rightarrow> severity_of (cr_check r))
      else worst rs)"
  by (auto simp: worst_def Max_insert2 max.commute)

lemma collect_examples_length: "collect_examples P E p chk n = Ok es \<Longrightarrow> length es \<le> n"
  by (auto simp: collect_examples_def result_simps split: option.splits)

lemma check_step_keeps:
  assumes "check_step P E show_f64 p n agg (i, chk) st = Ok st'" "summarised st"
  shows "summarised st' \<and> (\<exists>r. snd (snd st') = snd (snd st) @ [r] \<and> cr_check r = chk \<and> fair_result show_f64 n r)"
proof -
  obtain k where st': "st' = tally (check_outcome P E show_f64 p n chk k) st"
    using assms(1) by (auto simp: check_step_def result_simps)
  have "fair_result show_f64 n (check_outcome P E show_f64 p n chk k)"
    by (auto simp: fair_result_def check_outcome_def dest: collect_examples_length split: sum.split)
  moreover have "summarised (tally r st)" "snd (snd (tally r st)) = snd (snd st) @ [r]" for r
    using assms(2) by (auto simp: tally_def summarised_def worst_snoc Let_def split: prod.splits)
  moreover have "cr_check (check_outcome P E show_f64 p n chk k) = chk" by (simp add: check_outcome_def)
  ultimately show ?thesis by (auto simp: st')
qed

lemma check_loop_keeps:
  assumes "check_loop P E show_f64 p n agg ics st = Ok st'" "summarised st"
  shows "summarised st' \<and> (\<exists>new. snd (snd st') = snd (snd st) @ new \<and> map cr_check new = map snd ics \<and>
    list_all (fair_result show_f64 n) new)"
  using assms
proof (induction ics arbitrary: st)
  case (Cons ic ics)
  obtain i chk where ic: "ic = (i, chk)" by (cases ic)
  obtain mid where mid: "check_step P E show_f64 p n agg (i, chk) st = Ok mid"
      "check_loop P E show_f64 p n agg ics mid = Ok st'"
    using Cons.prems(1) by (auto simp: ic rbind_Inr_iff)
  obtain r where r: "summarised mid" "snd (snd mid) = snd (snd st) @ [r]" "cr_check r = chk" "fair_result show_f64 n r"
    using check_step_keeps [OF mid(1) Cons.prems(2)] by blast
  from Cons.IH [OF mid(2) r(1)] obtain new where
    "summarised st'" "snd (snd st') = snd (snd mid) @ new" "map cr_check new = map snd ics" "list_all (fair_result show_f64 n) new"
    by blast
  with r show ?case by (intro conjI exI [of _ "r # new"]) (simp_all add: ic)
qed simp

subsection \<open>Counts of failing rows\<close>

text \<open>
  The documented values of the count expressions over a frame: three-valued predicates, an unknown
  one not counted. Comparisons are covered on float columns, in the engine's order of floats, where
  not-a-number equals itself and is above every number; lengths, patterns and sets on columns of
  their type. \<open>rx\<close> compiles a pattern, if it is valid, to the texts it matches; an invalid one is an
  error when it is strict and matches nothing known otherwise.
\<close>

type_synonym regex = "string \<Rightarrow> (string \<Rightarrow> bool) option"

definition total_less :: "f64 \<Rightarrow> f64 \<Rightarrow> bool" where
  "total_less x y \<longleftrightarrow> \<not> is_nan x \<and> (is_nan y \<or> flt x y)"

definition kleene_or :: "bool option \<Rightarrow> bool option \<Rightarrow> bool option" where
  "kleene_or a b =
     (if a = Some True \<or> b = Some True then Some True
      else if a = None \<or> b = None then None else Some False)"

definition float_cmp :: "(f64 \<Rightarrow> bool) \<Rightarrow> series \<Rightarrow> bool option list option" where
  "float_cmp q s =
     (if s_dtype s = PFloat64
      then Some (map (\<lambda>a. case a of AvFloat64 x \<Rightarrow> Some (q x) | _ \<Rightarrow> None) (s_cells s)) else None)"

definition length_cmp :: "(nat \<Rightarrow> bool) \<Rightarrow> series \<Rightarrow> bool option list option" where
  "length_cmp q s =
     (if s_dtype s = PString
      then Some (map (\<lambda>a. Some (q (case a of AvString t \<Rightarrow> length (chars t) | _ \<Rightarrow> 0))) (s_cells s)) else None)"

definition cmp_pred :: "bin_op \<Rightarrow> 'a \<Rightarrow> ('a \<Rightarrow> 'a \<Rightarrow> bool) \<Rightarrow> ('a \<Rightarrow> bool) option" where
  "cmp_pred op x rel = (case op of OpLt \<Rightarrow> Some (\<lambda>y. rel y x) | OpGt \<Rightarrow> Some (\<lambda>y. rel x y) | _ \<Rightarrow> None)"

definition eval_cmp :: "frame \<Rightarrow> bin_op \<Rightarrow> expr \<Rightarrow> lit \<Rightarrow> bool option list option" where
  "eval_cmp f op e l =
     (case l of
        LitValue (Float64 x) \<Rightarrow>
          (case e of
             ECol c \<Rightarrow> Option.bind (column f c) (\<lambda>s. Option.bind (cmp_pred op x total_less) (\<lambda>q. float_cmp q s))
           | _ \<Rightarrow> None)
      | LitU32 n \<Rightarrow> Option.bind (find (\<lambda>s. e = len_expr (s_name s)) (f_columns f)) (\<lambda>s.
          Option.bind (cmp_pred op (unat n) (<)) (\<lambda>q. length_cmp q s))
      | _ \<Rightarrow> None)"

definition eval_fun :: "frame \<Rightarrow> fun_op \<Rightarrow> string \<Rightarrow> bool option list option" where
  "eval_fun f g c =
     Option.bind (column f c) (\<lambda>s.
       case g of
         FnIsNull \<Rightarrow> Some (map (\<lambda>a. Some (a = AvNull)) (s_cells s))
       | FnIsNotNull \<Rightarrow> Some (map (\<lambda>a. Some (a \<noteq> AvNull)) (s_cells s))
       | FnIsIn (LitSeries vs) False \<Rightarrow>
           if s_dtype vs = s_dtype s
           then Some (map (\<lambda>a. if a = AvNull then None else Some (a \<in> set (s_cells vs))) (s_cells s)) else None
       | _ \<Rightarrow> None)"

definition eval_contains :: "regex \<Rightarrow> frame \<Rightarrow> fun_op \<Rightarrow> string \<Rightarrow> bool option list option" where
  "eval_contains rx f g c =
     Option.bind (column f c) (\<lambda>s.
       case g of
         FnContains (LitValue (Utf8 p)) strict \<Rightarrow>
           if s_dtype s \<noteq> PString \<or> strict \<and> rx p = None then None
           else Some (map (\<lambda>a. case a of AvString t \<Rightarrow> map_option (\<lambda>matches. matches t) (rx p) | _ \<Rightarrow> None) (s_cells s))
       | _ \<Rightarrow> None)"

definition eval_atom :: "regex \<Rightarrow> frame \<Rightarrow> expr \<Rightarrow> bool option list option" where
  "eval_atom rx f e =
     (case e of
        EFun g (ECol c) \<Rightarrow> eval_fun f g c
      | EFun g (EFun (FnCast PString) (ECol c)) \<Rightarrow> eval_contains rx f g c
      | EBin op e1 (ELit l) \<Rightarrow> eval_cmp f op e1 l
      | _ \<Rightarrow> None)"

definition eval_pred :: "regex \<Rightarrow> frame \<Rightarrow> expr \<Rightarrow> bool option list option" where
  "eval_pred rx f e =
     (case e of
        EFun FnNot e1 \<Rightarrow> map_option (map (map_option Not)) (eval_atom rx f e1)
      | EBin OpOr e1 e2 \<Rightarrow> Option.bind (eval_atom rx f e1) (\<lambda>bs. map_option (map2 kleene_or bs) (eval_atom rx f e2))
      | _ \<Rightarrow> eval_atom rx f e)"

definition trues :: "bool option list \<Rightarrow> nat" where
  "trues bs = length (filter (\<lambda>b. b = Some True) bs)"

definition eval_count :: "regex \<Rightarrow> frame \<Rightarrow> expr \<Rightarrow> nat option" where
  "eval_count rx f e =
     (case e of
        EAgg AgSum p \<Rightarrow> map_option trues (eval_pred rx f p)
      | EAlias (EBin OpSub (EAgg AgSum p) (EAgg AgNUnique (EFun FnDropNulls (ECol c)))) _ \<Rightarrow>
          Option.bind (eval_pred rx f p) (\<lambda>bs. map_option (\<lambda>s. trues bs - card (set (s_cells s) - {AvNull})) (column f c))
      | _ \<Rightarrow> None)"

text \<open>A selection of counts gives one row, one column per expression.\<close>

definition evaluates_counts :: "regex \<Rightarrow> engine \<Rightarrow> bool" where
  "evaluates_counts rx E \<longleftrightarrow>
     (\<forall>p f es ns counts. le_collect E p = Inr f \<longrightarrow> f_columns f \<noteq> [] \<longrightarrow> distinct ns \<longrightarrow> length ns = length es \<longrightarrow>
        map (eval_count rx f) es = map Some counts \<longrightarrow>
        le_collect E (LSelect p (map2 EAlias es ns)) =
          Inr \<lparr>f_height = 1, f_columns = map2 (\<lambda>n k. \<lparr>s_name = n, s_dtype = PUInt32, s_cells = [AvUInt32 (word_of_nat k)]\<rparr>) ns counts\<rparr>)"

text \<open>The same counts from the rows.\<close>

definition cell_fails :: "regex \<Rightarrow> check \<Rightarrow> value_t \<Rightarrow> bool" where
  "cell_fails rx chk v =
     (case chk of
        NotNull _ _ \<Rightarrow> v = Null
      | RangeF64 _ lo hi _ \<Rightarrow> (case v of Float64 x \<Rightarrow> total_less x lo \<or> total_less hi x | _ \<Rightarrow> False)
      | RegexMatch _ p _ _ \<Rightarrow> (case v of Utf8 t \<Rightarrow> (case rx p of Some matches \<Rightarrow> \<not> matches t | None \<Rightarrow> False) | _ \<Rightarrow> False)
      | InSet _ vs _ \<Rightarrow> v \<noteq> Null \<and> v \<notin> set vs
      | Utf8LenCharsBetween _ lo hi _ \<Rightarrow>
          (let n = (case v of Utf8 t \<Rightarrow> length (chars t) | _ \<Rightarrow> 0) in n < unat lo \<or> unat hi < n)
      | _ \<Rightarrow> False)"

definition check_column :: "check \<Rightarrow> string" where
  "check_column chk =
     (case chk of NotNull c _ \<Rightarrow> c | RangeF64 c _ _ _ \<Rightarrow> c | RegexMatch c _ _ _ \<Rightarrow> c | InSet c _ _ \<Rightarrow> c
      | Unique c _ \<Rightarrow> c | Utf8LenCharsBetween c _ _ _ \<Rightarrow> c)"

definition column_values :: "data_set \<Rightarrow> string \<Rightarrow> value_t list" where
  "column_values ds c = (case index_of (ds_schema ds) c of Some i \<Rightarrow> map (\<lambda>r. r ! i) (rows ds) | None \<Rightarrow> [])"

definition failing_rows :: "regex \<Rightarrow> data_set \<Rightarrow> check \<Rightarrow> nat" where
  "failing_rows rx ds chk =
     (let vs = column_values ds (check_column chk) in
      case chk of
        Unique _ _ \<Rightarrow> length (filter (\<lambda>v. v \<noteq> Null) vs) - card (set vs - {Null})
      | _ \<Rightarrow> length (filter (cell_fails rx chk) vs))"

text \<open>Checks on an existing column of a type they fit.\<close>

definition fits_column :: "regex \<Rightarrow> data_set \<Rightarrow> check \<Rightarrow> bool" where
  "fits_column rx ds chk \<longleftrightarrow> (\<exists>i. index_of (ds_schema ds) (check_column chk) = Some i \<and>
     (let t = ftype (sfields (ds_schema ds) ! i) in
      case chk of
        NotNull _ _ \<Rightarrow> True
      | RangeF64 _ _ _ _ \<Rightarrow> t = TFloat64
      | RegexMatch _ p _ strict \<Rightarrow> t = TUtf8 \<and> (strict \<longrightarrow> rx p \<noteq> None)
      | InSet _ vs _ \<Rightarrow> vs \<noteq> [] \<and> hd vs \<noteq> Null \<and> t \<noteq> TFloat64 \<and> has_type (hd vs) t
      | Unique _ _ \<Rightarrow> t \<noteq> TFloat64
      | Utf8LenCharsBetween _ _ _ _ \<Rightarrow> t = TUtf8))"

lemma trues_map: "trues (map f xs) = length (filter (\<lambda>x. f x = Some True) xs)"
  by (simp add: trues_def filter_map comp_def)

lemma card_image_diff_null:
  assumes "\<And>v. v \<in> S \<Longrightarrow> h v = AvNull \<longleftrightarrow> v = Null" "inj_on h S"
  shows "card (h ` S - {AvNull}) = card (S - {Null})"
proof -
  have "h ` S - {AvNull} = h ` (S - {Null})" using assms(1) by auto
  moreover have "inj_on h (S - {Null})" using assms(2) by (rule inj_on_subset) blast
  ultimately show ?thesis by (simp add: card_image)
qed

text \<open>The cells of a column and their values in the frame.\<close>

definition cell_av :: "data_type \<Rightarrow> value_t \<Rightarrow> any_value" where
  "cell_av t v = the (cell_to_any t (Some v))"

definition typed_column :: "data_set \<Rightarrow> string \<Rightarrow> data_type \<Rightarrow> bool" where
  "typed_column ds c t \<longleftrightarrow> proper ds \<and> (\<exists>i. index_of (ds_schema ds) c = Some i \<and> t = ftype (sfields (ds_schema ds) ! i))"

lemma typed_column_series:
  assumes "typed_column ds c t"
  shows "\<exists>s. column (frame_of ds) c = Some s \<and> s_name s = c \<and> s_dtype s = target_dtype t \<and>
    s_cells s = map (cell_av t) (column_values ds c)"
proof -
  obtain i where i: "proper ds" "index_of (ds_schema ds) c = Some i" "t = ftype (sfields (ds_schema ds) ! i)"
    using assms by (auto simp: typed_column_def)
  have "get r i = Some (r ! i)" if "r \<in> set (rows ds)" for r
    using wf_get [OF wf_ds_row [OF properD(1) [OF i(1)] that] index_of_bound [OF i(2)]] .
  then show ?thesis
    using column_frame_index [OF i(1,2)] i(2,3) by (auto simp: column_values_def cell_av_def dest: index_of_Some_iff [THEN iffD1])
qed

lemma typed_column_values:
  assumes "typed_column ds c t"
  shows "length (column_values ds c) = row_count ds" "v \<in> set (column_values ds c) \<Longrightarrow> has_type v t"
proof -
  obtain i where i: "proper ds" "index_of (ds_schema ds) c = Some i" "t = ftype (sfields (ds_schema ds) ! i)"
    using assms by (auto simp: typed_column_def)
  show "length (column_values ds c) = row_count ds" by (simp add: column_values_def i(2) row_count_def)
  show "has_type v t" if "v \<in> set (column_values ds c)"
    using that wf_row_nth [OF wf_ds_row [OF properD(1) [OF i(1)]] index_of_bound [OF i(2)]]
    by (auto simp: column_values_def i(2,3))
qed

lemma cell_av_null: "has_type v t \<Longrightarrow> cell_av t v = AvNull \<longleftrightarrow> v = Null"
  by (cases v; cases t) (simp_all add: cell_av_def cell_to_any_def)

lemma cell_av_inj: "inj_on (cell_av t) {v. has_type v t}"
proof (rule inj_onI)
  fix u v assume "u \<in> {v. has_type v t}" "v \<in> {v. has_type v t}" "cell_av t u = cell_av t v"
  then show "u = v" by (cases u; cases v; cases t) (simp_all add: cell_av_def cell_to_any_def)
qed

text \<open>The values of the expressions on such a column.\<close>

lemma eval_null_tests:
  assumes "typed_column ds c t"
  shows "eval_fun (frame_of ds) FnIsNull c = Some (map (\<lambda>v. Some (v = Null)) (column_values ds c))"
    and "eval_fun (frame_of ds) FnIsNotNull c = Some (map (\<lambda>v. Some (v \<noteq> Null)) (column_values ds c))"
  using typed_column_series [OF assms] typed_column_values(2) [OF assms]
  by (auto simp: eval_fun_def cell_av_null)

lemma eval_float_cmp:
  assumes "typed_column ds c TFloat64" "cmp_pred op b total_less = Some q"
  shows "eval_cmp (frame_of ds) op (ECol c) (LitValue (Float64 b)) =
    Some (map (\<lambda>v. case v of Float64 x \<Rightarrow> Some (q x) | _ \<Rightarrow> None) (column_values ds c))"
proof -
  have av: "cell_av TFloat64 v = (case v of Float64 x \<Rightarrow> AvFloat64 x | _ \<Rightarrow> AvNull)" if "v \<in> set (column_values ds c)" for v
    using typed_column_values(2) [OF assms(1) that] by (cases v) (simp_all add: cell_av_def cell_to_any_def)
  obtain s where s: "column (frame_of ds) c = Some s" "s_dtype s = PFloat64" "s_cells s = map (cell_av TFloat64) (column_values ds c)"
    using typed_column_series [OF assms(1)] by (auto simp: target_dtype_def)
  then show ?thesis
    using assms(2) s av by (auto simp: eval_cmp_def float_cmp_def split: value_t.splits)
qed

lemma eval_pattern:
  assumes "typed_column ds c TUtf8" "strict \<longrightarrow> rx p \<noteq> None"
  shows "eval_contains rx (frame_of ds) (FnContains (LitValue (Utf8 p)) strict) c =
    Some (map (\<lambda>v. case v of Utf8 t \<Rightarrow> map_option (\<lambda>matches. matches t) (rx p) | _ \<Rightarrow> None) (column_values ds c))"
proof -
  have av: "cell_av TUtf8 v = (case v of Utf8 x \<Rightarrow> AvString x | _ \<Rightarrow> AvNull)" if "v \<in> set (column_values ds c)" for v
    using typed_column_values(2) [OF assms(1) that] by (cases v) (simp_all add: cell_av_def cell_to_any_def)
  obtain s where "column (frame_of ds) c = Some s" "s_dtype s = PString" "s_cells s = map (cell_av TUtf8) (column_values ds c)"
    using typed_column_series [OF assms(1)] by (auto simp: target_dtype_def)
  with assms(2) av show ?thesis by (auto simp: eval_contains_def split: value_t.splits)
qed

lemma find_len_expr:
  assumes "typed_column ds c t" "column (frame_of ds) c = Some s"
  shows "find (\<lambda>s. len_expr c = len_expr (s_name s)) (f_columns (frame_of ds)) = Some s"
proof -
  have "(\<lambda>s. len_expr c = len_expr (s_name s)) = (\<lambda>s. s_name s = c)" by (auto simp: len_expr_def fun_eq_iff)
  from assms(2) [unfolded column_def, folded this] show ?thesis .
qed

lemma eval_length_cmp:
  assumes "typed_column ds c TUtf8" "cmp_pred op (unat b) (<) = Some q"
  shows "eval_cmp (frame_of ds) op (len_expr c) (LitU32 b) =
    Some (map (\<lambda>v. Some (q (case v of Utf8 t \<Rightarrow> length (chars t) | _ \<Rightarrow> 0))) (column_values ds c))"
proof -
  have av: "cell_av TUtf8 v = (case v of Utf8 x \<Rightarrow> AvString x | _ \<Rightarrow> AvNull)" if "v \<in> set (column_values ds c)" for v
    using typed_column_values(2) [OF assms(1) that] by (cases v) (simp_all add: cell_av_def cell_to_any_def)
  obtain s where s: "column (frame_of ds) c = Some s" "s_dtype s = PString" "s_cells s = map (cell_av TUtf8) (column_values ds c)"
    using typed_column_series [OF assms(1)] by (auto simp: target_dtype_def)
  then show ?thesis
    using assms(2) av find_len_expr [OF assms(1) s(1)] by (auto simp: eval_cmp_def length_cmp_def split: value_t.splits)
qed

lemma values_to_series_cells:
  assumes "vs \<noteq> []" "hd vs \<noteq> Null" "t \<noteq> TFloat64" "has_type (hd vs) t"
  shows "s_dtype (values_to_series vs) = target_dtype t \<and>
    s_cells (values_to_series vs) = map (cell_av t) (filter (\<lambda>v. v \<noteq> Null \<and> has_type v t) vs)"
proof -
  obtain w ws where vs: "vs = w # ws" using assms(1) by (cases vs) auto
  have ints: "List.map_filter (\<lambda>x. case x of Int64 i \<Rightarrow> Some (AvInt64 i) | _ \<Rightarrow> None) xs =
      map (cell_av TInt64) (filter (\<lambda>v. v \<noteq> Null \<and> has_type v TInt64) xs)"
    and bools: "List.map_filter (\<lambda>x. case x of Bool i \<Rightarrow> Some (AvBoolean i) | _ \<Rightarrow> None) xs =
      map (cell_av TBool) (filter (\<lambda>v. v \<noteq> Null \<and> has_type v TBool) xs)"
    and texts: "List.map_filter (\<lambda>x. case x of Utf8 i \<Rightarrow> Some (AvString i) | _ \<Rightarrow> None) xs =
      map (cell_av TUtf8) (filter (\<lambda>v. v \<noteq> Null \<and> has_type v TUtf8) xs)" for xs
    by (induction xs) (auto simp: map_filter_simps cell_av_def cell_to_any_def split: value_t.split)
  from assms(2-4) vs show ?thesis
    by (cases w) (auto simp: values_to_series_def Let_def ints bools texts target_dtype_def map_filter_simps cell_av_def cell_to_any_def)
qed

lemma values_to_series_mem:
  assumes "vs \<noteq> []" "hd vs \<noteq> Null" "t \<noteq> TFloat64" "has_type (hd vs) t" "has_type v t" "v \<noteq> Null"
  shows "cell_av t v \<in> set (s_cells (values_to_series vs)) \<longleftrightarrow> v \<in> set vs"
  using values_to_series_cells [OF assms(1-4)] assms(5,6) inj_onD [OF cell_av_inj, of t v]
  by (auto simp: image_iff)

text \<open>The count of a check is the number of its failing rows.\<close>

lemma eval_count_check:
  assumes "proper ds" "fits_column rx ds chk"
  shows "eval_count rx (frame_of ds) (fail_count_expr chk) = Some (failing_rows rx ds chk)"
proof -
  obtain i where i: "index_of (ds_schema ds) (check_column chk) = Some i" using assms(2) by (auto simp: fits_column_def)
  define t where "t = ftype (sfields (ds_schema ds) ! i)"
  have col: "typed_column ds (check_column chk) t" using assms(1) i by (auto simp: typed_column_def t_def)
  show ?thesis
  proof (cases chk)
    case (NotNull c s)
    then show ?thesis using eval_null_tests(1) [OF col]
      by (simp add: fail_count_expr_def fail_predicate_def eval_count_def eval_pred_def eval_atom_def failing_rows_def
          check_column_def trues_map cell_fails_def [abs_def])
  next
    case (RangeF64 c lo hi s)
    have col': "typed_column ds c TFloat64"
      using assms(2) col i by (auto simp: RangeF64 fits_column_def check_column_def t_def)
    have "trues (map2 kleene_or (map (\<lambda>v. case v of Float64 x \<Rightarrow> Some (total_less x lo) | _ \<Rightarrow> None) vs)
        (map (\<lambda>v. case v of Float64 x \<Rightarrow> Some (total_less hi x) | _ \<Rightarrow> None) vs)) =
      length (filter (cell_fails rx chk) vs)" for vs
      by (induction vs) (auto simp: trues_def kleene_or_def cell_fails_def RangeF64 split: value_t.splits)
    then show ?thesis
      using eval_float_cmp [OF col', of OpLt lo "\<lambda>y. total_less y lo"] eval_float_cmp [OF col', of OpGt hi "total_less hi"]
      by (simp add: RangeF64 fail_count_expr_def fail_predicate_def eval_count_def eval_pred_def eval_atom_def failing_rows_def
          check_column_def cmp_pred_def)
  next
    case (RegexMatch c p s strict)
    have col': "typed_column ds c TUtf8" "strict \<longrightarrow> rx p \<noteq> None"
      using assms(2) col i by (auto simp: RegexMatch fits_column_def check_column_def t_def)
    have "trues (map (map_option Not) (map (\<lambda>v. case v of Utf8 t \<Rightarrow> map_option (\<lambda>matches. matches t) (rx p) | _ \<Rightarrow> None) vs)) =
      length (filter (cell_fails rx chk) vs)" for vs
      by (induction vs) (auto simp: trues_def cell_fails_def RegexMatch split: value_t.splits option.splits)
    then show ?thesis using eval_pattern [OF col'(1), of strict rx p] col'(2)
      by (simp add: RegexMatch fail_count_expr_def fail_predicate_def eval_count_def eval_pred_def eval_atom_def failing_rows_def
          check_column_def)
  next
    case (InSet c vs s)
    have vs: "vs \<noteq> []" "hd vs \<noteq> Null" "t \<noteq> TFloat64" "has_type (hd vs) t" and col': "typed_column ds c t"
      using assms(2) col i by (simp_all add: InSet fits_column_def check_column_def t_def Let_def)
    obtain sr where sr: "column (frame_of ds) c = Some sr" "s_dtype sr = target_dtype t" "s_cells sr = map (cell_av t) (column_values ds c)"
      using typed_column_series [OF col'] by blast
    have "(if cell_av t v = AvNull then None else Some (cell_av t v \<in> set (s_cells (values_to_series vs)))) =
        (if v = Null then None else Some (v \<in> set vs))" if "v \<in> set (column_values ds c)" for v
      using typed_column_values(2) [OF col' that] cell_av_null values_to_series_mem [OF vs] by auto
    moreover have fails: "(\<lambda>v. v \<noteq> Null \<and> (v \<noteq> Null \<longrightarrow> v \<notin> set vs)) = cell_fails rx (InSet c vs s)"
      by (auto simp: cell_fails_def fun_eq_iff)
    ultimately have "eval_fun (frame_of ds) (FnIsIn (LitSeries (values_to_series vs)) False) c =
        Some (map (\<lambda>v. if v = Null then None else Some (v \<in> set vs)) (column_values ds c))"
      using sr values_to_series_cells [OF vs] by (simp add: eval_fun_def)
    then show ?thesis
      by (simp add: InSet fail_count_expr_def fail_predicate_def eval_count_def eval_pred_def eval_atom_def failing_rows_def
          check_column_def trues_map comp_def fails)
  next
    case (Unique c s)
    have col': "typed_column ds c t" using col by (simp add: Unique check_column_def)
    obtain sr where sr: "column (frame_of ds) c = Some sr" "s_cells sr = map (cell_av t) (column_values ds c)"
      using typed_column_series [OF col'] by blast
    have "card (set (s_cells sr) - {AvNull}) = card (set (column_values ds c) - {Null})"
      using card_image_diff_null [of "set (column_values ds c)" "cell_av t"] typed_column_values(2) [OF col']
        inj_on_subset [OF cell_av_inj, of "set (column_values ds c)" t] cell_av_null
      by (auto simp: sr(2))
    then show ?thesis using eval_null_tests(2) [OF col'] sr(1)
      by (simp add: Unique fail_count_expr_def eval_count_def eval_pred_def eval_atom_def failing_rows_def check_column_def
          trues_map Let_def)
  next
    case (Utf8LenCharsBetween c lo hi s)
    have col': "typed_column ds c TUtf8"
      using assms(2) col i by (auto simp: Utf8LenCharsBetween fits_column_def check_column_def t_def)
    have "trues (map2 kleene_or (map (\<lambda>v. Some ((case v of Utf8 t \<Rightarrow> length (chars t) | _ \<Rightarrow> 0) < unat lo)) vs)
        (map (\<lambda>v. Some (unat hi < (case v of Utf8 t \<Rightarrow> length (chars t) | _ \<Rightarrow> 0))) vs)) =
      length (filter (cell_fails rx chk) vs)" for vs
      by (induction vs) (auto simp: trues_def kleene_or_def cell_fails_def Utf8LenCharsBetween Let_def)
    then show ?thesis
      using eval_length_cmp [OF col', of OpLt lo "\<lambda>y. y < unat lo"] eval_length_cmp [OF col', of OpGt hi "\<lambda>y. unat hi < y"]
      by (simp add: Utf8LenCharsBetween fail_count_expr_def fail_predicate_def eval_count_def eval_pred_def eval_atom_def failing_rows_def
          check_column_def cmp_pred_def)
  qed
qed

lemma failing_rows_bound: "failing_rows rx ds chk \<le> row_count ds"
proof -
  have "length (filter q (column_values ds c)) \<le> row_count ds" for q c
    using length_filter_le [of q "column_values ds c"] by (auto simp: column_values_def row_count_def split: option.splits)
  then show ?thesis
    by (auto simp: failing_rows_def Let_def intro: le_trans [OF diff_le_self] split: check.split)
qed

lemma check_loop_counts:
  assumes "\<And>j. j < length chks \<Longrightarrow> \<exists>s. column agg (fail_count_col_name (i + j)) = Some s \<and>
      s_cells s = [AvUInt32 (word_of_nat (cnt (chks ! j)))] \<and> cnt (chks ! j) < 2 ^ 32"
  shows "\<exists>st'. check_loop P E show_f64 p n agg (enumerate i chks) st = Ok st' \<and>
    map cr_failed_count (snd (snd st')) = map cr_failed_count (snd (snd st)) @ map cnt chks"
  using assms
proof (induction chks arbitrary: i st)
  case (Cons chk chks)
  let ?r = "check_outcome P E show_f64 p n chk (cnt chk)"
  obtain s where "column agg (fail_count_col_name i) = Some s" "s_cells s = [AvUInt32 (word_of_nat (cnt chk))]" "cnt chk < 2 ^ 32"
    using Cons.prems [of 0] by auto
  then have step: "check_step P E show_f64 p n agg (i, chk) st = Ok (tally ?r st)"
    by (simp add: check_step_def series_to_usize_def unat_of_nat take_bit_nat_eq_self)
  have "\<exists>s. column agg (fail_count_col_name (Suc i + j)) = Some s \<and>
      s_cells s = [AvUInt32 (word_of_nat (cnt (chks ! j)))] \<and> cnt (chks ! j) < 2 ^ 32" if "j < length chks" for j
    using Cons.prems [of "Suc j"] that by simp
  from Cons.IH [OF this, of "tally ?r st"] obtain st' where
    "check_loop P E show_f64 p n agg (enumerate (Suc i) chks) (tally ?r st) = Ok st'"
    "map cr_failed_count (snd (snd st')) = map cr_failed_count (snd (snd (tally ?r st))) @ map cnt chks"
    by blast
  moreover have "snd (snd (tally ?r st)) = snd (snd st) @ [?r]" by (auto simp: tally_def Let_def split: prod.split)
  ultimately show ?case by (simp add: step check_outcome_def)
qed simp

lemma show_nat_read: "foldl (\<lambda>a c. 10 * a + digit_val c) 0 (show_nat n) = int n"
proof (induction n rule: show_nat.induct)
  case (1 n)
  show ?case
  proof (cases "n < 10")
    case True
    then show ?thesis by (subst show_nat.simps) (simp add: digit_val_digit)
  next
    case False
    with 1 have "foldl (\<lambda>a c. 10 * a + digit_val c) 0 (show_nat n) = 10 * int (n div 10) + int (n mod 10)"
      by (subst show_nat.simps) (simp add: digit_val_digit del: of_nat_mod)
    also have "\<dots> = int n" by (metis mult_div_mod_eq of_nat_add of_nat_mult of_nat_numeral)
    finally show ?thesis .
  qed
qed

lemma fail_count_col_name_inj: "fail_count_col_name i = fail_count_col_name j \<longleftrightarrow> i = j"
  unfolding fail_count_col_name_def same_append_eq by (metis of_nat_eq_iff show_nat_read)

subsection \<open>Properties\<close>

text \<open>A report lists every check in order with its message and at most the requested examples, none for
  a check that passes; its summary counts the checks with failures and names the highest of their
  severities.\<close>

theorem validation_report_summary:
  assumes "validate_frame P E show_f64 p spec = Ok rep"
  shows "map cr_check (vr_results rep) = vs_checks spec \<and>
    list_all (fair_result show_f64 (vs_max_examples spec)) (vr_results rep) \<and>
    vr_summary rep = \<lparr>sm_total_checks = length (vs_checks spec), sm_failed_checks = length (failing (vr_results rep)),
      sm_max_severity = worst (vr_results rep)\<rparr>"
proof (cases "vs_checks spec = []")
  case True
  with assms show ?thesis by (auto simp: validate_frame_def failing_def worst_def)
next
  case False
  with assms obtain agg n m rs where
    loop: "check_loop P E show_f64 p (vs_max_examples spec) agg (enumerate 0 (vs_checks spec)) (0, None, []) = Ok (n, m, rs)"
    and rep: "rep = \<lparr>vr_results = rs, vr_summary = \<lparr>sm_total_checks = length (vs_checks spec), sm_failed_checks = n, sm_max_severity = m\<rparr>\<rparr>"
    by (auto simp: validate_frame_def rbind_Inr_iff rmap_Inr_iff)
  have "summarised (0, None, [])" by (simp add: summarised_def failing_def worst_def)
  from check_loop_keeps [OF loop this] show ?thesis by (simp add: rep summarised_def)
qed


subsection \<open>Witnesses\<close>

text \<open>A matcher for patterns that start with a caret and hold no other operator.\<close>

definition caret_regex :: regex where
  "caret_regex p = (if starts_with ''^'' p then Some (starts_with (tl p)) else None)"

text \<open>An engine that evaluates selections of counts over a frame.\<close>

fun split_alias :: "expr \<Rightarrow> (string \<times> expr) option" where
  "split_alias (EAlias e n) = Some (n, e)"
| "split_alias _ = None"

fun counts_collect :: "lazy_frame \<Rightarrow> polars_error + frame" where
  "counts_collect (LFrame f) = Inr f"
| "counts_collect (LSelect p es) = rbind (counts_collect p) (\<lambda>f.
     Inr \<lparr>f_height = 1, f_columns = map (\<lambda>e. case split_alias e of
         Some (n, e') \<Rightarrow> \<lparr>s_name = n, s_dtype = PUInt32, s_cells = [AvUInt32 (word_of_nat (the (eval_count caret_regex f e')))]\<rparr>
       | None \<Rightarrow> \<lparr>s_name = [], s_dtype = PUInt32, s_cells = []\<rparr>) es\<rparr>)"
| "counts_collect _ = Inl (PeColumnNotFound [])"

definition counts_engine :: engine where
  "counts_engine = \<lparr>le_collect = counts_collect, le_schema = (\<lambda>_. Inr [])\<rparr>"

lemma counts_engine_laws: "evaluates_counts caret_regex counts_engine"
  unfolding evaluates_counts_def
proof (intro allI impI)
  fix p f and es :: "expr list" and ns :: "string list" and counts
  assume h: "le_collect counts_engine p = Inr f" "length ns = length es" "map (eval_count caret_regex f) es = map Some counts"
  have "map (\<lambda>e. case split_alias e of
         Some (n, e') \<Rightarrow> \<lparr>s_name = n, s_dtype = PUInt32, s_cells = [AvUInt32 (word_of_nat (the (eval_count caret_regex f e')))]\<rparr>
       | None \<Rightarrow> \<lparr>s_name = [], s_dtype = PUInt32, s_cells = []\<rparr>) (map2 EAlias es ns) =
     map2 (\<lambda>n k. \<lparr>s_name = n, s_dtype = PUInt32, s_cells = [AvUInt32 (word_of_nat k)]\<rparr>) ns counts"
    using h(2,3) by (induction es ns arbitrary: counts rule: list_induct2') auto
  with h(1) show "le_collect counts_engine (LSelect p (map2 EAlias es ns)) =
      Inr \<lparr>f_height = 1, f_columns = map2 (\<lambda>n k. \<lparr>s_name = n, s_dtype = PUInt32, s_cells = [AvUInt32 (word_of_nat k)]\<rparr>) ns counts\<rparr>"
    by (simp add: counts_engine_def)
qed

definition two_checks :: validation_spec where
  "two_checks = \<lparr>vs_checks = [NotNull ''id'' Warn, InSet ''ok'' [Bool True] Error], vs_max_examples = 0\<rparr>"

lemma two_rows_holds: "holds_frame counts_engine (LFrame (frame_of two_rows)) two_rows"
  by (simp add: holds_frame_def proper_def counts_engine_def two_rows_def wf_row_def field_names_def)


lemma validation_report_summary_witness:
  "\<exists>rep. validate_frame plain_polars counts_engine (\<lambda>_. []) (LFrame (frame_of two_rows)) \<lparr>vs_checks = [NotNull ''id'' Warn], vs_max_examples = 0\<rparr> = Ok rep \<and>
    sm_failed_checks (vr_summary rep) = length (failing (vr_results rep)) \<and> map cr_check (vr_results rep) = [NotNull ''id'' Warn]"
proof -
  let ?run = "validate_frame plain_polars counts_engine (\<lambda>_. []) (LFrame (frame_of two_rows)) \<lparr>vs_checks = [NotNull ''id'' Warn], vs_max_examples = 0\<rparr>"
  have "is_ok ?run" by code_simp
  then obtain rep where rep: "?run = Ok rep" by (auto simp: is_ok_iff)
  from validation_report_summary [OF rep] rep show ?thesis by simp
qed

end
