(* ===== verification/Effects.thy ===== *)
theory Effects
  imports Rust_Str
begin

text \<open>
  Fallible operations with an effect on a world of type \<open>'w\<close>: sequencing, the \<open>?\<close> operator, loops that
  stop at the first failure. Also the parts of a URL the program reads, as the \<open>url\<close> library
  yields them.
\<close>

type_synonym ('w, 'e, 'a) io = "'w \<Rightarrow> ('e, 'a) res \<times> 'w"

definition io_ok :: "'a \<Rightarrow> ('w, 'e, 'a) io" where
  "io_ok a = (\<lambda>w. (Ok a, w))"

definition io_of :: "('e, 'a) res \<Rightarrow> ('w, 'e, 'a) io" where
  "io_of r = (\<lambda>w. (r, w))"

abbreviation io_fail :: "'e \<Rightarrow> ('w, 'e, 'a) io" where
  "io_fail e \<equiv> io_of (Err e)"

definition io_bind :: "('w, 'e, 'a) io \<Rightarrow> ('a \<Rightarrow> ('w, 'e, 'b) io) \<Rightarrow> ('w, 'e, 'b) io" where
  "io_bind m f = (\<lambda>w. case m w of (Inl e, w') \<Rightarrow> (Inl e, w') | (Inr a, w') \<Rightarrow> f a w')"

fun map_fault :: "('e \<Rightarrow> 'f) \<Rightarrow> 'e fault \<Rightarrow> 'f fault" where
  "map_fault g (Failed e) = Failed (g e)"
| "map_fault g (Panic m) = Panic m"

definition map_err :: "('e \<Rightarrow> 'f) \<Rightarrow> ('e, 'a) res \<Rightarrow> ('f, 'a) res" where
  "map_err g r = (case r of Inl e \<Rightarrow> Inl (map_fault g e) | Inr a \<Rightarrow> Inr a)"

definition io_map_err :: "('e \<Rightarrow> 'f) \<Rightarrow> ('w, 'e, 'a) io \<Rightarrow> ('w, 'f, 'a) io" where
  "io_map_err g m = (\<lambda>w. case m w of (r, w') \<Rightarrow> (map_err g r, w'))"

text \<open>\<open>let _ = m\<close>: the outcome is ignored.\<close>

definition io_ignore :: "('w, 'f, 'a) io \<Rightarrow> ('w, 'e, unit) io" where
  "io_ignore m = (\<lambda>w. (Ok (), snd (m w)))"

definition io_when :: "bool \<Rightarrow> ('w, 'e, unit) io \<Rightarrow> ('w, 'e, unit) io" where
  "io_when b m = (if b then m else io_ok ())"

fun io_each :: "('a \<Rightarrow> ('w, 'e, unit) io) \<Rightarrow> 'a list \<Rightarrow> ('w, 'e, unit) io" where
  "io_each f [] = io_ok ()"
| "io_each f (x # xs) = io_bind (f x) (\<lambda>_. io_each f xs)"

fun io_traverse :: "('a \<Rightarrow> ('w, 'e, 'b) io) \<Rightarrow> 'a list \<Rightarrow> ('w, 'e, 'b list) io" where
  "io_traverse f [] = io_ok []"
| "io_traverse f (x # xs) = io_bind (f x) (\<lambda>y. io_bind (io_traverse f xs) (\<lambda>ys. io_ok (y # ys)))"

lemma map_err_simps [simp]:
  "map_err g (Err e) = Err (g e)" "map_err g (Panics m) = Panics m" "map_err g (Inr a) = Inr a"
  by (simp_all add: map_err_def)

lemma map_err_Inr_iff [result_simps]: "map_err g r = Inr a \<longleftrightarrow> r = Inr a"
  by (cases r) (simp_all add: map_err_def)

lemma io_ok_apply [simp]: "io_ok a w = (Ok a, w)"
  by (simp add: io_ok_def)

lemma io_of_apply [simp]: "io_of r w = (r, w)"
  by (simp add: io_of_def)

lemma io_bind_apply [simp]:
  "m w = (Inr a, w') \<Longrightarrow> io_bind m f w = f a w'"
  "m w = (Inl e, w') \<Longrightarrow> io_bind m f w = (Inl e, w')"
  by (simp_all add: io_bind_def)

lemma io_bind_ok [result_simps]:
  "io_bind m f w = (Inr b, w'') \<longleftrightarrow> (\<exists>a w'. m w = (Inr a, w') \<and> f a w' = (Inr b, w''))"
  by (auto simp: io_bind_def split: prod.splits sum.splits)

lemma io_bind_of_ok: "io_bind (io_of r) f w = (Inr b, w') \<longleftrightarrow> (\<exists>a. r = Inr a \<and> f a w = (Inr b, w'))"
  by (auto simp: io_bind_ok)

lemma io_bindE:
  assumes "io_bind m f w = (Inr b, w'')"
  obtains a w' where "m w = (Inr a, w')" "f a w' = (Inr b, w'')"
  using assms by (auto simp: io_bind_ok)

lemma io_bind_fails [result_simps]:
  "io_bind m f w = (Inl e, w'') \<longleftrightarrow> m w = (Inl e, w'') \<or> (\<exists>a w'. m w = (Inr a, w') \<and> f a w' = (Inl e, w''))"
  by (auto simp: io_bind_def split: prod.splits sum.splits)

lemma io_bind_of [simp]: "io_bind (io_of (Inr a)) f = f a" "io_bind (io_of (Inl e)) f = io_of (Inl e)" "io_bind (io_ok a) f = f a"
  by (simp_all add: io_bind_def fun_eq_iff io_of_def)

lemma io_bind_assoc: "io_bind (io_bind m f) g = io_bind m (\<lambda>x. io_bind (f x) g)"
  by (auto simp: io_bind_def fun_eq_iff split: prod.splits sum.splits)

lemma io_map_err_ok [result_simps]: "io_map_err g m w = (Inr a, w') \<longleftrightarrow> m w = (Inr a, w')"
  by (auto simp: io_map_err_def result_simps split: prod.splits)

lemma io_map_err_snd [simp]: "snd (io_map_err g m w) = snd (m w)"
  by (simp add: io_map_err_def split: prod.splits)

lemma io_each_success:
  assumes "io_each f xs w = (Inr (), w')" "x \<in> set xs"
  shows "\<exists>u u'. f x u = (Inr (), u')"
  using assms by (induction xs arbitrary: w) (auto simp: io_bind_ok)

lemma io_each_append: "io_each f (xs @ ys) = io_bind (io_each f xs) (\<lambda>_. io_each f ys)"
  by (induction xs) (simp_all add: io_bind_assoc)

lemma io_when_simps [simp]: "io_when True m = m" "io_when False m = io_ok ()"
  by (simp_all add: io_when_def)

text \<open>A relation between worlds that is a preorder and that every operation keeps is kept by a program.\<close>

locale io_step =
  fixes R :: "'w \<Rightarrow> 'w \<Rightarrow> bool"
  assumes refl: "R w w"
    and trans: "R u v \<Longrightarrow> R v w \<Longrightarrow> R u w"
begin

definition keeps :: "('w, 'e, 'a) io \<Rightarrow> bool" where
  "keeps m \<longleftrightarrow> (\<forall>w. R w (snd (m w)))"

lemma keepsI: "(\<And>w. R w (snd (m w))) \<Longrightarrow> keeps m"
  by (simp add: keeps_def)

lemma keepsD: "keeps m \<Longrightarrow> R w (snd (m w))"
  by (simp add: keeps_def)

lemma keeps_ok: "keeps (io_ok a)" and keeps_of: "keeps (io_of r)"
  by (simp_all add: keeps_def refl)

lemma keeps_bind:
  assumes "keeps m" "\<And>a. keeps (f a)"
  shows "keeps (io_bind m f)"
proof (rule keepsI)
  fix w
  show "R w (snd (io_bind m f w))"
    using keepsD [OF assms(1), of w] keepsD [OF assms(2)]
    by (cases "m w"; cases "fst (m w)") (auto intro: trans)
qed

lemma keeps_map_err: "keeps m \<Longrightarrow> keeps (io_map_err g m)"
  by (simp add: keeps_def)

lemma keeps_ignore: "keeps m \<Longrightarrow> keeps (io_ignore m)"
  by (simp add: keeps_def io_ignore_def)

lemma keeps_when: "keeps m \<Longrightarrow> keeps (io_when b m)"
  by (cases b) (simp_all add: keeps_ok)

lemma keeps_each: "(\<And>x. x \<in> set xs \<Longrightarrow> keeps (f x)) \<Longrightarrow> keeps (io_each f xs)"
  by (induction xs) (auto intro: keeps_ok keeps_bind)

lemma keeps_traverse: "(\<And>x. x \<in> set xs \<Longrightarrow> keeps (f x)) \<Longrightarrow> keeps (io_traverse f xs)"
  by (induction xs) (auto intro!: keeps_ok keeps_bind)

lemmas keeps_intros = keeps_ok keeps_of keeps_bind keeps_map_err keeps_ignore keeps_when keeps_each keeps_traverse

end

text \<open>Logs only grow.\<close>

interpretation log: io_step "prefix :: 'c list \<Rightarrow> 'c list \<Rightarrow> bool"
  by unfold_locales auto

subsection \<open>URLs\<close>

record url =
  u_scheme :: string
  u_host :: "string option"
  u_port :: "nat option"
  u_username :: string
  u_password :: "string option"
  u_path :: string
  u_query :: "(string \<times> string) list"

text \<open>Texts made from parts.\<close>

fun join_str :: "string \<Rightarrow> string list \<Rightarrow> string" where
  "join_str sep [] = []"
| "join_str sep [x] = x"
| "join_str sep (x # xs) = x @ sep @ join_str sep xs"

definition backtick :: "string \<Rightarrow> string" where
  "backtick s = ''`'' @ s @ ''`''"

end
