(* ===== verification/Options.thy ===== *)
theory Options
  imports Types Rust_Path
begin

text \<open>
  What an ingestion call is configured with: formats, sheet selection, severities, observers and
  the options record with its default and builder (\<open>src/ingestion/unified.rs\<close>,
  \<open>observability.rs\<close>, \<open>builder.rs\<close>). An observer is a record of callbacks over a world \<open>'w\<close>,
  the state outside the program that they change; for the two provided observers it is the lines
  on standard error and in log files. Paths are their UTF-8 text.
\<close>

subsection \<open>Formats\<close>

datatype ingestion_format = Csv | Json | Parquet | Excel | Xml

definition from_extension :: "string \<Rightarrow> ingestion_format option" where
  "from_extension ext =
     (let e = to_ascii_lowercase ext in
      if e = ''csv'' then Some Csv
      else if e = ''json'' \<or> e = ''ndjson'' then Some Json
      else if e = ''parquet'' \<or> e = ''pq'' then Some Parquet
      else if e \<in> set [''xlsx'', ''xls'', ''xlsm'', ''xlsb'', ''ods''] then Some Excel
      else if e = ''xml'' then Some Xml
      else None)"

datatype excel_sheet_selection = First | Sheet string | AllSheets | Sheets "string list"

subsection \<open>Severities\<close>

datatype ingestion_severity = Info | Warning | Error | Critical

fun severity_rank :: "ingestion_severity \<Rightarrow> nat" where
  "severity_rank Info = 0"
| "severity_rank Warning = 1"
| "severity_rank Error = 2"
| "severity_rank Critical = 3"

lemma severity_rank_inj: "severity_rank a = severity_rank b \<Longrightarrow> a = b"
  by (cases a; cases b) auto

instantiation ingestion_severity :: linorder
begin

definition less_eq_ingestion_severity :: "ingestion_severity \<Rightarrow> ingestion_severity \<Rightarrow> bool" where
  "a \<le> b \<longleftrightarrow> severity_rank a \<le> severity_rank b"

definition less_ingestion_severity :: "ingestion_severity \<Rightarrow> ingestion_severity \<Rightarrow> bool" where
  "a < b \<longleftrightarrow> severity_rank a < severity_rank b"

instance
  by standard (auto simp: less_eq_ingestion_severity_def less_ingestion_severity_def severity_rank_inj)

end

subsection \<open>Observers\<close>

record ingestion_context =
  ctx_path :: path
  ctx_format :: ingestion_format

record ingestion_stats =
  st_rows :: nat

record 'w observer =
  on_success :: "ingestion_context \<Rightarrow> ingestion_stats \<Rightarrow> 'w \<Rightarrow> 'w"
  on_failure :: "ingestion_context \<Rightarrow> ingestion_severity \<Rightarrow> ingestion_error \<Rightarrow> 'w \<Rightarrow> 'w"
  on_alert :: "ingestion_context \<Rightarrow> ingestion_severity \<Rightarrow> ingestion_error \<Rightarrow> 'w \<Rightarrow> 'w"

text \<open>
  The trait's provided methods: the first two do nothing and \<open>on_alert\<close> forwards to the
  implementor's \<open>on_failure\<close>. An implementor overrides what it names.
\<close>

definition provided_on_success :: "ingestion_context \<Rightarrow> ingestion_stats \<Rightarrow> 'w \<Rightarrow> 'w" where
  "provided_on_success _ _ w = w"

definition provided_on_failure ::
  "ingestion_context \<Rightarrow> ingestion_severity \<Rightarrow> ingestion_error \<Rightarrow> 'w \<Rightarrow> 'w" where
  "provided_on_failure _ _ _ w = w"

definition provided_on_alert ::
  "(ingestion_context \<Rightarrow> ingestion_severity \<Rightarrow> ingestion_error \<Rightarrow> 'w \<Rightarrow> 'w) \<Rightarrow>
   ingestion_context \<Rightarrow> ingestion_severity \<Rightarrow> ingestion_error \<Rightarrow> 'w \<Rightarrow> 'w" where
  "provided_on_alert failure ctx sev e w = failure ctx sev e w"

definition composite_observer :: "'w observer list \<Rightarrow> 'w observer" where
  "composite_observer obs = \<lparr>
     on_success = (\<lambda>ctx st. fold (\<lambda>ob. on_success ob ctx st) obs),
     on_failure = (\<lambda>ctx sev e. fold (\<lambda>ob. on_failure ob ctx sev e) obs),
     on_alert = (\<lambda>ctx sev e. fold (\<lambda>ob. on_alert ob ctx sev e) obs)\<rparr>"

fun show_format :: "ingestion_format \<Rightarrow> string" where
  "show_format Csv = ''Csv''"
| "show_format Json = ''Json''"
| "show_format Parquet = ''Parquet''"
| "show_format Excel = ''Excel''"
| "show_format Xml = ''Xml''"

fun show_severity :: "ingestion_severity \<Rightarrow> string" where
  "show_severity Info = ''Info''"
| "show_severity Warning = ''Warning''"
| "show_severity Error = ''Error''"
| "show_severity Critical = ''Critical''"

text \<open>Lines on standard error and in files; the clock is read once per logged line.\<close>

record log_world =
  lw_stderr :: "string list"
  lw_files :: "path \<Rightarrow> string list"
  lw_clock :: nat

definition stderr_line :: "string \<Rightarrow> log_world \<Rightarrow> log_world" where
  "stderr_line l w = w\<lparr>lw_stderr := lw_stderr w @ [l]\<rparr>"

text \<open>\<open>show_error\<close> is \<open>Display\<close> of an error: its text quotes messages of other libraries.\<close>

definition std_err_observer :: "(ingestion_error \<Rightarrow> string) \<Rightarrow> log_world observer" where
  "std_err_observer show_error = \<lparr>
     on_success = (\<lambda>ctx st. stderr_line (''[ingest][ok] format='' @ show_format (ctx_format ctx) @
       '' path='' @ ctx_path ctx @ '' rows='' @ show_nat (st_rows st))),
     on_failure = (\<lambda>ctx sev e. stderr_line (''[ingest]['' @ show_severity sev @ ''] format='' @
       show_format (ctx_format ctx) @ '' path='' @ ctx_path ctx @ '' err='' @ show_error e)),
     on_alert = (\<lambda>ctx sev e. stderr_line (''[ALERT][ingest]['' @ show_severity sev @ ''] format='' @
       show_format (ctx_format ctx) @ '' path='' @ ctx_path ctx @ '' err='' @ show_error e))\<rparr>"

text \<open>Best effort: nothing is written when the file cannot be opened.\<close>

definition append_line :: "(path \<Rightarrow> bool) \<Rightarrow> path \<Rightarrow> string \<Rightarrow> log_world \<Rightarrow> log_world" where
  "append_line can_open p l w =
     (if can_open p then w\<lparr>lw_files := (lw_files w)(p := lw_files w p @ [l])\<rparr> else w)"

definition file_observer ::
  "(path \<Rightarrow> bool) \<Rightarrow> (ingestion_error \<Rightarrow> string) \<Rightarrow> path \<Rightarrow> log_world observer" where
  "file_observer can_open show_error p = \<lparr>
     on_success = (\<lambda>ctx st w. append_line can_open p (show_nat (lw_clock w) @ '' ok format='' @
       show_format (ctx_format ctx) @ '' path='' @ ctx_path ctx @ '' rows='' @ show_nat (st_rows st)) w),
     on_failure = (\<lambda>ctx sev e w. append_line can_open p (show_nat (lw_clock w) @ '' fail severity='' @
       show_severity sev @ '' format='' @ show_format (ctx_format ctx) @ '' path='' @ ctx_path ctx @
       '' err='' @ show_error e) w),
     on_alert = (\<lambda>ctx sev e w. append_line can_open p (show_nat (lw_clock w) @ '' ALERT severity='' @
       show_severity sev @ '' format='' @ show_format (ctx_format ctx) @ '' path='' @ ctx_path ctx @
       '' err='' @ show_error e) w)\<rparr>"

subsection \<open>Options and their builder\<close>

record 'w ingestion_options =
  opt_format :: "ingestion_format option"
  opt_excel_sheet_selection :: excel_sheet_selection
  opt_observer :: "'w observer option"
  opt_alert_at_or_above :: ingestion_severity
  opt_watermark_column :: "string option"
  opt_watermark_exclusive_above :: "value_t option"
  opt_max_rows :: "nat option"

definition default_options :: "'w ingestion_options" where
  "default_options = \<lparr>opt_format = None, opt_excel_sheet_selection = First, opt_observer = None,
     opt_alert_at_or_above = Critical, opt_watermark_column = None,
     opt_watermark_exclusive_above = None, opt_max_rows = None\<rparr>"

datatype 'w builder = Builder (build: "'w ingestion_options")

definition builder_new :: "'w builder" where
  "builder_new = Builder default_options"

definition with_format :: "ingestion_format \<Rightarrow> 'w builder \<Rightarrow> 'w builder" where
  "with_format f b = Builder ((build b)\<lparr>opt_format := Some f\<rparr>)"

definition with_excel_sheet_selection :: "excel_sheet_selection \<Rightarrow> 'w builder \<Rightarrow> 'w builder" where
  "with_excel_sheet_selection sel b = Builder ((build b)\<lparr>opt_excel_sheet_selection := sel\<rparr>)"

definition with_observer :: "'w observer \<Rightarrow> 'w builder \<Rightarrow> 'w builder" where
  "with_observer obs b = Builder ((build b)\<lparr>opt_observer := Some obs\<rparr>)"

definition with_alert_at_or_above :: "ingestion_severity \<Rightarrow> 'w builder \<Rightarrow> 'w builder" where
  "with_alert_at_or_above sev b = Builder ((build b)\<lparr>opt_alert_at_or_above := sev\<rparr>)"

definition with_watermark_column :: "string \<Rightarrow> 'w builder \<Rightarrow> 'w builder" where
  "with_watermark_column c b = Builder ((build b)\<lparr>opt_watermark_column := Some c\<rparr>)"

definition with_watermark_exclusive_above :: "value_t \<Rightarrow> 'w builder \<Rightarrow> 'w builder" where
  "with_watermark_exclusive_above v b = Builder ((build b)\<lparr>opt_watermark_exclusive_above := Some v\<rparr>)"

lemma composite_observer_Cons:
  "on_success (composite_observer (o1 # os)) ctx st w =
     on_success (composite_observer os) ctx st (on_success o1 ctx st w)"
  "on_failure (composite_observer (o1 # os)) ctx sev e w =
     on_failure (composite_observer os) ctx sev e (on_failure o1 ctx sev e w)"
  "on_alert (composite_observer (o1 # os)) ctx sev e w =
     on_alert (composite_observer os) ctx sev e (on_alert o1 ctx sev e w)"
  by (simp_all add: composite_observer_def)

end
