(* ===== verification/Watermark.thy ===== *)
theory Watermark
  imports Options Multi
begin

text \<open>
  The high-water filter applied after ingestion (\<open>src/ingestion/watermark.rs\<close>): validation of
  the two options against the schema, the strict comparison of each cell with the floor, and the
  cursor for the next run, the maximum of the column. A row shorter than the schema makes
  \<open>row[idx]\<close> panic.
\<close>

subsection \<open>Operations\<close>

definition ensure_value_matches_type :: "value_t \<Rightarrow> data_type \<Rightarrow> string \<Rightarrow> unit result" where
  "ensure_value_matches_type v dt ctx =
     (let ok = (case dt of
          TInt64 \<Rightarrow> (case v of Int64 _ \<Rightarrow> True | _ \<Rightarrow> False)
        | TFloat64 \<Rightarrow> (case v of Float64 _ \<Rightarrow> True | _ \<Rightarrow> False)
        | TBool \<Rightarrow> (case v of Bool _ \<Rightarrow> True | _ \<Rightarrow> False)
        | TUtf8 \<Rightarrow> (case v of Utf8 _ \<Rightarrow> True | _ \<Rightarrow> False));
          shown = (case dt of TInt64 \<Rightarrow> ''Int64'' | TFloat64 \<Rightarrow> ''Float64'' | TBool \<Rightarrow> ''Bool'' | TUtf8 \<Rightarrow> ''Utf8'')
      in if ok then Ok ()
         else Err (SchemaMismatch (ctx @ '' does not match the watermark column type ('' @ shown @ '')'')))"

definition validate_watermark_config :: "schema \<Rightarrow> 'w ingestion_options \<Rightarrow> unit result" where
  "validate_watermark_config s opts =
     (case (opt_watermark_column opts, opt_watermark_exclusive_above opts) of
        (None, None) \<Rightarrow> Ok ()
      | (Some name, Some floor_val) \<Rightarrow>
          if floor_val = Null then Err (SchemaMismatch ''watermark_exclusive_above must not be Null'')
          else rbind (ok_or (SchemaMismatch (''watermark column '' @ sq name @ '' not found in schema''))
                        (index_of s name)) (\<lambda>idx.
               rbind (index (sfields s) idx) (\<lambda>f.
               ensure_value_matches_type floor_val (ftype f) ''watermark_exclusive_above''))
      | _ \<Rightarrow> Err (SchemaMismatch
          ''watermark_column and watermark_exclusive_above must both be set or both omitted''))"

definition expect_int64 :: "value_t \<Rightarrow> nat \<Rightarrow> string \<Rightarrow> i64 result" where
  "expect_int64 v row column = (case v of Int64 i \<Rightarrow> Ok i
     | _ \<Rightarrow> Err (ParseError row column (RawDebug v) ''expected int64 for watermark column''))"

definition expect_float64 :: "value_t \<Rightarrow> nat \<Rightarrow> string \<Rightarrow> f64 result" where
  "expect_float64 v row column = (case v of Float64 f \<Rightarrow> Ok f
     | _ \<Rightarrow> Err (ParseError row column (RawDebug v) ''expected float64 for watermark column''))"

definition expect_bool :: "value_t \<Rightarrow> nat \<Rightarrow> string \<Rightarrow> bool result" where
  "expect_bool v row column = (case v of Bool b \<Rightarrow> Ok b
     | _ \<Rightarrow> Err (ParseError row column (RawDebug v) ''expected bool for watermark column''))"

definition compare_cell_to_floor :: "value_t \<Rightarrow> value_t \<Rightarrow> data_type \<Rightarrow> nat \<Rightarrow> string \<Rightarrow> ordering result" where
  "compare_cell_to_floor cell flr dt row column =
     (case dt of
        TInt64 \<Rightarrow> rbind (expect_int64 cell row column) (\<lambda>a.
          case flr of Int64 b \<Rightarrow> Ok (i64_cmp a b)
          | _ \<Rightarrow> Err (SchemaMismatch ''watermark value type mismatch (expected int64)''))
      | TFloat64 \<Rightarrow> rbind (expect_float64 cell row column) (\<lambda>a.
          case flr of Float64 b \<Rightarrow> Ok (total_cmp a b)
          | _ \<Rightarrow> Err (SchemaMismatch ''watermark value type mismatch (expected float64)''))
      | TBool \<Rightarrow> rbind (expect_bool cell row column) (\<lambda>a.
          case flr of Bool b \<Rightarrow> Ok (cmp a b)
          | _ \<Rightarrow> Err (SchemaMismatch ''watermark value type mismatch (expected bool)''))
      | TUtf8 \<Rightarrow> (case cell of
          Utf8 a \<Rightarrow> (case flr of Utf8 b \<Rightarrow> Ok (cmp a b)
            | _ \<Rightarrow> Err (SchemaMismatch ''watermark value type mismatch (expected utf8)''))
        | _ \<Rightarrow> Err (ParseError row column (RawDebug cell) ''expected utf8 for watermark column'')))"

definition row_is_above_watermark :: "value_t \<Rightarrow> value_t \<Rightarrow> data_type \<Rightarrow> nat \<Rightarrow> string \<Rightarrow> bool result" where
  "row_is_above_watermark cell flr dt row column =
     (if cell = Null then Ok False
      else rmap (\<lambda>ord. ord = Greater) (compare_cell_to_floor cell flr dt row column))"

definition apply_watermark_filter :: "data_set \<Rightarrow> schema \<Rightarrow> string \<Rightarrow> value_t \<Rightarrow> data_set result" where
  "apply_watermark_filter ds s column flr =
     rbind (ok_or (SchemaMismatch (''watermark column '' @ sq column @ '' not found in schema''))
              (index_of s column)) (\<lambda>idx.
     rbind (index (sfields s) idx) (\<lambda>f.
     rmap (\<lambda>kept. data_set_new (ds_schema ds) (map snd kept))
       (filter_res (\<lambda>(row_i0, row).
            rbind (index row idx) (\<lambda>cell. row_is_above_watermark cell flr (ftype f) (row_i0 + 1) column))
          (enumerate 0 (rows ds)))))"

definition apply_watermark_after_ingest :: "data_set \<Rightarrow> schema \<Rightarrow> 'w ingestion_options \<Rightarrow> data_set result" where
  "apply_watermark_after_ingest ds s opts =
     (case (opt_watermark_column opts, opt_watermark_exclusive_above opts) of
        (None, None) \<Rightarrow> Ok ds
      | (Some col, Some flr) \<Rightarrow> apply_watermark_filter ds s col flr
      | _ \<Rightarrow> Err (SchemaMismatch ''invalid watermark options state''))"

definition max_of_typed :: "data_type \<Rightarrow> value_t \<Rightarrow> value_t \<Rightarrow> value_t" where
  "max_of_typed dt a b =
     (case dt of
        TInt64 \<Rightarrow> (case a of Int64 ai \<Rightarrow> (case b of Int64 bi \<Rightarrow> Int64 (i64_max_of ai bi) | _ \<Rightarrow> a) | _ \<Rightarrow> b)
      | TFloat64 \<Rightarrow> (case a of
          Float64 af \<Rightarrow> (case b of
            Float64 bf \<Rightarrow> if \<not> is_finite af then b else if \<not> is_finite bf then a
              else Float64 (if total_cmp af bf = Less then bf else af)
          | _ \<Rightarrow> a)
        | _ \<Rightarrow> b)
      | TBool \<Rightarrow> (case a of Bool ab \<Rightarrow> (case b of Bool bb \<Rightarrow> Bool (max ab bb) | _ \<Rightarrow> a) | _ \<Rightarrow> b)
      | TUtf8 \<Rightarrow> (case (a, b) of (Utf8 sa, Utf8 sb) \<Rightarrow> if sa < sb then b else a | _ \<Rightarrow> b))"

definition max_skip :: "data_type \<Rightarrow> value_t \<Rightarrow> bool" where
  "max_skip dt cell \<longleftrightarrow> cell = Null \<or>
     (dt = TFloat64 \<and> (case cell of Float64 f \<Rightarrow> \<not> is_finite f | _ \<Rightarrow> False))"

fun max_loop :: "data_type \<Rightarrow> nat \<Rightarrow> value_t option \<Rightarrow> row list \<Rightarrow> value_t option result" where
  "max_loop dt idx best [] = Ok best"
| "max_loop dt idx best (r # rs) =
     rbind (index r idx) (\<lambda>cell.
       if max_skip dt cell then max_loop dt idx best rs
       else max_loop dt idx
              (Some (case best of None \<Rightarrow> cell | Some cur \<Rightarrow> max_of_typed dt cur cell)) rs)"

definition max_value_in_column :: "data_set \<Rightarrow> schema \<Rightarrow> string \<Rightarrow> value_t option result" where
  "max_value_in_column ds s column =
     (case index_of s column of
        None \<Rightarrow> Ok None
      | Some idx \<Rightarrow> rbind (index (sfields s) idx) (\<lambda>f. max_loop (ftype f) idx None (rows ds)))"

subsection \<open>The comparison of a typed cell\<close>

lemma compare_cell_typed:
  "cell \<noteq> Null \<Longrightarrow> flr \<noteq> Null \<Longrightarrow> has_type cell t \<Longrightarrow> has_type flr t \<Longrightarrow>
   compare_cell_to_floor cell flr t row c = Ok (value_cmp cell flr)"
  by (cases cell; cases flr)
     (auto simp: compare_cell_to_floor_def expect_int64_def expect_float64_def expect_bool_def)

definition above :: "value_t \<Rightarrow> value_t \<Rightarrow> bool" where
  "above flr cell \<longleftrightarrow> cell \<noteq> Null \<and> value_cmp cell flr = Greater"

lemma row_is_above_typed:
  "flr \<noteq> Null \<Longrightarrow> has_type cell t \<Longrightarrow> has_type flr t \<Longrightarrow>
   row_is_above_watermark cell flr t row c = Ok (above flr cell)"
  by (auto simp: row_is_above_watermark_def above_def compare_cell_typed)

lemma filter_res_enumerate:
  "(\<And>i r. r \<in> set rs \<Longrightarrow> p (i, r) = Inr (q r)) \<Longrightarrow>
   rmap (map snd) (filter_res p (enumerate n rs)) = Inr (filter q rs)"
proof (induction rs arbitrary: n)
  case (Cons r rs)
  then have IH: "rmap (map snd) (filter_res p (enumerate (Suc n) rs)) = Inr (filter q rs)" by simp
  moreover have "p (n, r) = Inr (q r)" using Cons.prems by simp
  ultimately show ?case by (auto simp: result_simps)
qed simp

lemma wf_cell:
  "wf_ds ds \<Longrightarrow> index_of (ds_schema ds) c = Some idx \<Longrightarrow> r \<in> set (rows ds) \<Longrightarrow>
   idx < length r \<and> index r idx = Ok (r ! idx) \<and> has_type (r ! idx) (ftype (sfields (ds_schema ds) ! idx))"
  using wf_ds_row [of ds r] wf_row_length [of "ds_schema ds" r] wf_row_nth [of "ds_schema ds" r idx] index_of_bound
  by (auto simp: index_def)

lemma index_fields: "index_of s c = Some idx \<Longrightarrow> index (sfields s) idx = Ok (sfields s ! idx)"
  using index_of_bound [of s c idx] by (simp add: index_def)

lemma watermark_filter_typed:
  assumes "wf_ds ds" "index_of (ds_schema ds) c = Some idx"
    and "flr \<noteq> Null" "has_type flr (ftype (sfields (ds_schema ds) ! idx))"
  shows "apply_watermark_filter ds (ds_schema ds) c flr = Ok (filter_rows ds (\<lambda>r. above flr (r ! idx)))"
proof -
  let ?p = "\<lambda>(row_i0, row). rbind (index row idx) (\<lambda>cell.
      row_is_above_watermark cell flr (ftype (sfields (ds_schema ds) ! idx)) (row_i0 + 1) c)"
  have "rmap (map snd) (filter_res ?p (enumerate 0 (rows ds))) = Inr (filter (\<lambda>r. above flr (r ! idx)) (rows ds))"
    by (rule filter_res_enumerate) (use assms in \<open>simp add: row_is_above_typed wf_cell [OF assms(1,2)]\<close>)
  then show ?thesis
    using assms(2) by (auto simp: apply_watermark_filter_def index_fields filter_rows_def result_simps)
qed

lemma validate_Ok_iff:
  "validate_watermark_config s opts = Ok () \<longleftrightarrow>
     (opt_watermark_column opts = None \<and> opt_watermark_exclusive_above opts = None) \<or>
     (\<exists>c flr idx. opt_watermark_column opts = Some c \<and> opt_watermark_exclusive_above opts = Some flr \<and>
        flr \<noteq> Null \<and> index_of s c = Some idx \<and> has_type flr (ftype (sfields s ! idx)))"
proof -
  have "ensure_value_matches_type v t ctx = Ok () \<longleftrightarrow> v \<noteq> Null \<and> has_type v t" for v t ctx
    by (cases v; cases t) (simp_all add: ensure_value_matches_type_def)
  then show ?thesis
    by (auto simp: validate_watermark_config_def index_fields result_simps dest: index_of_bound split: option.splits if_splits)
qed

subsection \<open>The cursor\<close>

definition column_cells :: "nat \<Rightarrow> row list \<Rightarrow> value_t list" where
  "column_cells idx rs = map (\<lambda>r. r ! idx) rs"

lemma max_of_typed_cmp:
  "has_type a t \<Longrightarrow> has_type b t \<Longrightarrow> \<not> max_skip t a \<Longrightarrow> \<not> max_skip t b \<Longrightarrow>
   max_of_typed t a b = (if value_cmp a b = Less then b else a)"
  by (cases a; cases b)
     (auto simp: max_of_typed_def max_skip_def i64_max_of_def i64_cmp_def cmp_key_def cmp_simps cmp_def max_def
       sint_eq_iff split: if_splits)

lemma max_loop_best:
  assumes "\<forall>r\<in>set rs. idx < length r \<and> has_type (r ! idx) t"
    and "\<forall>b. best = Some b \<longrightarrow> has_type b t \<and> \<not> max_skip t b"
  shows "max_loop t idx best rs =
    Ok (best_from (\<lambda>x b. value_cmp x b = Greater) best (filter (\<lambda>v. \<not> max_skip t v) (column_cells idx rs)))"
  using assms
proof (induction rs arbitrary: best)
  case (Cons r rs)
  let ?c = "r ! idx"
  have idx: "index r idx = (Ok ?c :: value_t result)" using Cons.prems by (simp add: index_def)
  show ?case
  proof (cases "max_skip t ?c")
    case True
    with Cons idx show ?thesis by (simp add: column_cells_def)
  next
    case False
    let ?new = "case best of None \<Rightarrow> ?c | Some cur \<Rightarrow> max_of_typed t cur ?c"
    have new: "?new = (case best of None \<Rightarrow> ?c | Some cur \<Rightarrow> if value_cmp ?c cur = Greater then ?c else cur)"
      using Cons.prems False by (simp add: max_of_typed_cmp vals.greater_iff split: option.split)
    then have "has_type ?new t \<and> \<not> max_skip t ?new"
      using Cons.prems False by (simp split: option.splits)
    then have "max_loop t idx (Some ?new) rs = Ok (best_from (\<lambda>x b. value_cmp x b = Greater) (Some ?new)
        (filter (\<lambda>v. \<not> max_skip t v) (column_cells idx rs)))"
      using Cons.prems(1) by (intro Cons.IH) auto
    moreover have "max_loop t idx best (r # rs) = max_loop t idx (Some ?new) rs"
      using idx False by simp
    moreover have "best_from (\<lambda>x b. value_cmp x b = Greater) best (?c # vs) =
        best_from (\<lambda>x b. value_cmp x b = Greater) (Some ?new) vs" for vs
      unfolding new by (cases best) simp_all
    ultimately show ?thesis using False by (simp add: column_cells_def del: max_loop.simps best_from.simps)
  qed
qed (simp add: column_cells_def)

lemma max_value_typed:
  assumes "wf_ds ds" "index_of (ds_schema ds) c = Some idx"
  shows "max_value_in_column ds (ds_schema ds) c =
    Ok (best_from (\<lambda>x b. value_cmp x b = Greater) None
         (filter (\<lambda>v. \<not> max_skip (ftype (sfields (ds_schema ds) ! idx)) v) (column_cells idx (rows ds))))"
proof -
  have "\<forall>r\<in>set (rows ds). idx < length r \<and> has_type (r ! idx) (ftype (sfields (ds_schema ds) ! idx))"
    using wf_cell [OF assms] by blast
  then show ?thesis by (simp add: max_value_in_column_def assms(2) index_fields [OF assms(2)] max_loop_best)
qed

lemma best_from_max:
  assumes "best_from (\<lambda>x b. value_cmp x b = Greater) None vs = Some m"
  shows "m \<in> set vs \<and> (\<forall>v\<in>set vs. value_cmp v m \<noteq> Greater)"
proof (cases vs)
  case (Cons v ws)
  then have "best_from (\<lambda>x b. value_cmp x b = Greater) (Some v) ws = Some m" using assms by simp
  from vals.best_from_upper [OF this] best_from_mem [OF this] Cons show ?thesis by auto
qed (use assms in simp)

subsection \<open>Properties\<close>

text \<open>C12: On a well-formed dataset and with options that pass validation, the watermark step never
  fails: it returns the rows whose watermark cell is not null and strictly above the floor, in
  their order, and everything when no watermark is set.\<close>

theorem watermark_after_validation:
  assumes "wf_ds ds" and "validate_watermark_config (ds_schema ds) opts = Ok ()"
  shows "apply_watermark_after_ingest ds (ds_schema ds) opts =
    Ok (case (opt_watermark_column opts, opt_watermark_exclusive_above opts) of
          (Some c, Some flr) \<Rightarrow>
            filter_rows ds (\<lambda>r. above flr (r ! the (index_of (ds_schema ds) c)))
        | _ \<Rightarrow> ds)"
  using assms(2) watermark_filter_typed [OF assms(1)]
  by (auto simp: validate_Ok_iff apply_watermark_after_ingest_def)

text \<open>The cursor covers the run: after a run that kept the rows above the floor, the maximum of
  the kept column is none exactly when it has no finite value, and a next run with that maximum as
  floor keeps no row of the same data other than those with a non-finite float.\<close>

theorem watermark_cursor:
  assumes wf: "wf_ds ds" and idx: "index_of (ds_schema ds) c = Some idx"
    and flr: "flr \<noteq> Null" "has_type flr (ftype (sfields (ds_schema ds) ! idx))"
    and kept: "apply_watermark_filter ds (ds_schema ds) c flr = Ok out"
  shows "case max_value_in_column out (ds_schema ds) c of
      Inl _ \<Rightarrow> False
    | Inr None \<Rightarrow> \<forall>r\<in>set (rows out). max_skip (ftype (sfields (ds_schema ds) ! idx)) (r ! idx)
    | Inr (Some m) \<Rightarrow> above flr m \<and>
        (\<exists>again. apply_watermark_filter ds (ds_schema ds) c m = Ok again \<and>
          (\<forall>r\<in>set (rows again). max_skip (ftype (sfields (ds_schema ds) ! idx)) (r ! idx)))"
proof -
  let ?t = "ftype (sfields (ds_schema ds) ! idx)"
  have out: "out = filter_rows ds (\<lambda>r. above flr (r ! idx))"
    using watermark_filter_typed [OF wf idx flr] kept by simp
  let ?vs = "filter (\<lambda>v. \<not> max_skip ?t v) (column_cells idx (rows out))"
  have max: "max_value_in_column out (ds_schema ds) c = Ok (best_from (\<lambda>x b. value_cmp x b = Greater) None ?vs)"
    using max_value_typed [OF filter_rows_wf [OF wf], of _ c idx] idx out by simp
  show ?thesis
  proof (cases "best_from (\<lambda>x b. value_cmp x b = Greater) None ?vs")
    case None
    then show ?thesis by (auto simp: max best_from_None_iff filter_empty_conv column_cells_def)
  next
    case (Some m)
    from best_from_max [OF Some] obtain r where r: "r \<in> set (rows ds)" "above flr (r ! idx)" "m = r ! idx"
      and up: "\<forall>v\<in>set ?vs. value_cmp v m \<noteq> Greater"
      by (auto simp: out column_cells_def)
    then have m: "m \<noteq> Null" "has_type m ?t" using wf_cell [OF wf idx r(1)] by (auto simp: above_def)
    have "max_skip ?t (q ! idx)" if q: "q \<in> set (rows ds)" and gt: "above m (q ! idx)" for q
    proof (rule ccontr)
      assume keep: "\<not> max_skip ?t (q ! idx)"
      have "value_cmp (q ! idx) m = Greater" "value_cmp m flr = Greater" using gt r by (simp_all add: above_def)
      then have "above flr (q ! idx)" using gt vals.greater_trans [of "q ! idx" m flr] by (simp add: above_def)
      with q keep have "q ! idx \<in> set ?vs" by (auto simp: out column_cells_def)
      with up gt show False by (auto simp: above_def)
    qed
    moreover have "apply_watermark_filter ds (ds_schema ds) c m = Ok (filter_rows ds (\<lambda>r. above m (r ! idx)))"
      by (rule watermark_filter_typed [OF wf idx m])
    ultimately show ?thesis using Some r m by (simp add: max)
  qed
qed

subsection \<open>Witnesses\<close>

definition sample_options :: "unit ingestion_options" where
  "sample_options = build (with_watermark_exclusive_above (Int64 1) (with_watermark_column ''id'' builder_new))"

lemma sample_wf: "wf_ds sample_ds"
  by code_simp

lemma watermark_after_validation_witness:
  "apply_watermark_after_ingest sample_ds (ds_schema sample_ds) sample_options =
     Ok (filter_rows sample_ds (\<lambda>r. above (Int64 1) (r ! 0)))"
proof -
  have "opt_watermark_column sample_options = Some ''id''"
    and "opt_watermark_exclusive_above sample_options = Some (Int64 1)"
    by (simp_all add: sample_options_def with_watermark_exclusive_above_def with_watermark_column_def
        builder_new_def default_options_def)
  moreover have "validate_watermark_config (ds_schema sample_ds) sample_options = Ok ()"
    unfolding validate_Ok_iff using calculation by (simp add: sample_cells)
  ultimately show ?thesis
    using watermark_after_validation [OF sample_wf, of sample_options] by (simp add: sample_cells)
qed

lemma watermark_cursor_witness:
  "case max_value_in_column (filter_rows sample_ds (\<lambda>r. above (Int64 1) (r ! 0))) (ds_schema sample_ds) ''id'' of
     Inr (Some m) \<Rightarrow> above (Int64 1) m | Inr None \<Rightarrow> \<forall>r\<in>set (rows (filter_rows sample_ds (\<lambda>r. above (Int64 1) (r ! 0)))). r ! 0 = Null
   | Inl _ \<Rightarrow> False"
proof -
  have "apply_watermark_filter sample_ds (ds_schema sample_ds) ''id'' (Int64 1) =
      Ok (filter_rows sample_ds (\<lambda>r. above (Int64 1) (r ! 0)))"
    by (rule watermark_filter_typed [OF sample_wf]) (simp_all add: sample_cells)
  from watermark_cursor [OF sample_wf _ _ _ this] show ?thesis
    by (fastforce simp: sample_cells max_skip_def split: sum.splits option.splits)
qed

end
