(* ===== verification/Workbook.thy ===== *)
theory Workbook
  imports Text_Formats
begin

text \<open>
  Excel ingestion and schema inference (\<open>src/ingestion/excel.rs\<close>). A sheet is the list of its rows
  of cells; a workbook yields its sheet names and, for a name, a cells or an error. A date cell
  holds its displayed text, an error cell its \<open>Debug\<close> text; \<open>display\<close> is the cell library's
  \<open>to_string\<close>, \<open>show_f64\<close> that of a float, \<open>dbg\<close> prints the header list.
\<close>

subsection \<open>Cells\<close>

datatype cell =
    CInt i64 | CFloat f64 | CString string | CBool bool
  | CDateTime string | CDateTimeIso string | CDurationIso string | CError string | CEmpty

type_synonym sheet_range = "cell list list"

record workbook =
  wb_sheet_names :: "string list"
  wb_range :: "string \<Rightarrow> string + sheet_range"

definition fract_zero :: "f64 \<Rightarrow> bool" where
  "fract_zero f = feq (ffract f) (fzero False)"

definition cell_to_header_string :: "(f64 \<Rightarrow> string) \<Rightarrow> cell \<Rightarrow> string" where
  "cell_to_header_string show_f64 c =
     (case c of
        CString s \<Rightarrow> s
      | CInt i \<Rightarrow> show_i64 i
      | CFloat f \<Rightarrow> if fract_zero f then show_i64 (to_i64 f) else show_f64 f
      | CBool b \<Rightarrow> show_bool b
      | CDateTime t \<Rightarrow> t
      | CDateTimeIso s \<Rightarrow> s
      | CDurationIso s \<Rightarrow> s
      | CError e \<Rightarrow> e
      | CEmpty \<Rightarrow> [])"

definition cell_to_string :: "(cell \<Rightarrow> string) \<Rightarrow> cell \<Rightarrow> string" where
  "cell_to_string display c = (case c of CString s \<Rightarrow> s | _ \<Rightarrow> display c)"

definition parse_bool_str :: "string \<Rightarrow> string + bool" where
  "parse_bool_str s =
     (let l = to_ascii_lowercase (trim s) in
      if l \<in> set [''true'', ''t'', ''1'', ''yes'', ''y''] then Inr True
      else if l \<in> set [''false'', ''f'', ''0'', ''no'', ''n''] then Inr False
      else Inl ''expected bool (true/false/1/0/yes/no)'')"

definition parse_bool_cell :: "(cell \<Rightarrow> string) \<Rightarrow> nat \<Rightarrow> string \<Rightarrow> cell \<Rightarrow> bool result" where
  "parse_bool_cell display row column c =
     (case c of
        CBool b \<Rightarrow> Ok b
      | CInt i \<Rightarrow> Ok (i \<noteq> 0)
      | CFloat f \<Rightarrow> Ok (\<not> feq f (fzero False))
      | CString s \<Rightarrow> (case parse_bool_str s of
          Inr b \<Rightarrow> Ok b | Inl m \<Rightarrow> Err (ParseError row column (RawText s) m))
      | _ \<Rightarrow> Err (ParseError row column (RawText (display c)) ''expected bool''))"

definition parse_i64_cell :: "(cell \<Rightarrow> string) \<Rightarrow> nat \<Rightarrow> string \<Rightarrow> cell \<Rightarrow> i64 result" where
  "parse_i64_cell display row column c =
     (case c of
        CInt i \<Rightarrow> Ok i
      | CFloat f \<Rightarrow> if fract_zero f then Ok (to_i64 f)
          else Err (ParseError row column (RawText (display c)) ''expected integer (got non-integer float)'')
      | CString s \<Rightarrow> (case parse_i64 (trim s) of
          Inr i \<Rightarrow> Ok i | Inl e \<Rightarrow> Err (ParseError row column (RawText s) (int_err_text e)))
      | _ \<Rightarrow> Err (ParseError row column (RawText (display c)) ''expected integer''))"

definition parse_f64_cell :: "(cell \<Rightarrow> string) \<Rightarrow> nat \<Rightarrow> string \<Rightarrow> cell \<Rightarrow> f64 result" where
  "parse_f64_cell display row column c =
     (case c of
        CFloat f \<Rightarrow> Ok f
      | CInt i \<Rightarrow> Ok (of_i64 i)
      | CString s \<Rightarrow> (case parse_f64 (trim s) of
          Inr f \<Rightarrow> Ok f | Inl e \<Rightarrow> Err (ParseError row column (RawText s) (float_err_text e)))
      | _ \<Rightarrow> Err (ParseError row column (RawText (display c)) ''expected number''))"

definition convert_cell :: "(cell \<Rightarrow> string) \<Rightarrow> nat \<Rightarrow> string \<Rightarrow> data_type \<Rightarrow> cell \<Rightarrow> value_t result" where
  "convert_cell display row column dt c =
     (if c = CEmpty then Ok Null
      else case dt of
        TUtf8 \<Rightarrow> Ok (Utf8 (cell_to_string display c))
      | TBool \<Rightarrow> rmap Bool (parse_bool_cell display row column c)
      | TInt64 \<Rightarrow> rmap Int64 (parse_i64_cell display row column c)
      | TFloat64 \<Rightarrow> rmap Float64 (parse_f64_cell display row column c))"

subsection \<open>Headers\<close>

text \<open>The first row with a non-empty cell.\<close>

definition first_non_empty :: "sheet_range \<Rightarrow> nat option" where
  "first_non_empty cells = position (\<lambda>r. list_ex (\<lambda>c. c \<noteq> CEmpty) r) cells"

definition no_header :: ingestion_error where
  "no_header = SchemaMismatch ''sheet has no non-empty rows (no header row found)''"

definition find_header_row :: "(f64 \<Rightarrow> string) \<Rightarrow> sheet_range \<Rightarrow> (nat \<times> string list) result" where
  "find_header_row show_f64 cells =
     (case first_non_empty cells of
        Some idx0 \<Rightarrow> Ok (idx0, map (cell_to_header_string show_f64) (cells ! idx0))
      | None \<Rightarrow> Err no_header)"

definition header_position :: "(string list \<Rightarrow> string) \<Rightarrow> string list \<Rightarrow> field \<Rightarrow> nat result" where
  "header_position dbg header_cells f =
     ok_or (SchemaMismatch (''missing required column '' @ sq (fname f) @ ''. headers='' @ dbg header_cells))
       (position (\<lambda>h. trim h = fname f) header_cells)"

definition build_header_projection ::
  "(string list \<Rightarrow> string) \<Rightarrow> (f64 \<Rightarrow> string) \<Rightarrow> sheet_range \<Rightarrow> schema \<Rightarrow> (nat \<times> nat list \<times> string list) result" where
  "build_header_projection dbg show_f64 cells s =
     (case first_non_empty cells of
        None \<Rightarrow> Err no_header
      | Some header_row_idx \<Rightarrow>
          (let header_cells = map (cell_to_header_string show_f64) (cells ! header_row_idx) in
           rmap (\<lambda>col_idxs. (header_row_idx, col_idxs, header_cells))
             (traverse (header_position dbg header_cells) (sfields s))))"

definition wrap_schema_err_with_sheet :: "string \<Rightarrow> 'a result \<Rightarrow> 'a result" where
  "wrap_schema_err_with_sheet sheet r =
     (case r of
        Inl (Failed (SchemaMismatch m)) \<Rightarrow> Err (SchemaMismatch (''sheet '' @ sq sheet @ '': '' @ m))
      | other \<Rightarrow> other)"

subsection \<open>Ingestion\<close>

definition sheet_row ::
  "(cell \<Rightarrow> string) \<Rightarrow> string \<Rightarrow> schema \<Rightarrow> nat list \<Rightarrow> nat \<times> cell list \<Rightarrow> row result" where
  "sheet_row display sheet s col_idxs = (\<lambda>(idx0, r).
     traverse (\<lambda>(f, col_idx).
         convert_cell display (idx0 + 1) (sheet @ '':'' @ fname f) (ftype f)
           (case get r col_idx of Some c \<Rightarrow> c | None \<Rightarrow> CEmpty))
       (zip (sfields s) col_idxs))"

definition ingest_sheet_range ::
  "(string list \<Rightarrow> string) \<Rightarrow> (f64 \<Rightarrow> string) \<Rightarrow> (cell \<Rightarrow> string) \<Rightarrow> string \<Rightarrow> sheet_range \<Rightarrow> schema \<Rightarrow> row list result" where
  "ingest_sheet_range dbg show_f64 display sheet cells s =
     rbind (wrap_schema_err_with_sheet sheet (build_header_projection dbg show_f64 cells s))
       (\<lambda>(header_row_idx, col_idxs, header_cells).
         traverse (sheet_row display sheet s col_idxs)
           (filter (\<lambda>(idx0, _). header_row_idx < idx0) (enumerate 0 cells)))"

definition selected_sheets :: "workbook \<Rightarrow> string list option \<Rightarrow> string list result" where
  "selected_sheets wb sheet_names =
     (let sheets = (case sheet_names of Some names \<Rightarrow> names | None \<Rightarrow> wb_sheet_names wb) in
      if sheets = [] then Err (SchemaMismatch ''workbook has no sheets'') else Ok sheets)"

definition excel_try :: "string + 'a \<Rightarrow> 'a result" where
  "excel_try r = (case r of Inl e \<Rightarrow> Err (ExcelErr e) | Inr x \<Rightarrow> Ok x)"

definition ingest_excel_workbook_from_path ::
  "(string list \<Rightarrow> string) \<Rightarrow> (f64 \<Rightarrow> string) \<Rightarrow> (cell \<Rightarrow> string) \<Rightarrow> string + workbook \<Rightarrow> string list option \<Rightarrow>
   schema \<Rightarrow> data_set result" where
  "ingest_excel_workbook_from_path dbg show_f64 display file sheet_names s =
     rbind (excel_try file) (\<lambda>wb.
     rbind (selected_sheets wb sheet_names) (\<lambda>sheets.
     rmap (\<lambda>rss. data_set_new s (concat rss))
       (traverse (\<lambda>sheet. rbind (excel_try (wb_range wb sheet)) (\<lambda>cells.
           ingest_sheet_range dbg show_f64 display sheet cells s)) sheets)))"

definition ingest_excel_from_path ::
  "(string list \<Rightarrow> string) \<Rightarrow> (f64 \<Rightarrow> string) \<Rightarrow> (cell \<Rightarrow> string) \<Rightarrow> string + workbook \<Rightarrow> string option \<Rightarrow>
   schema \<Rightarrow> data_set result" where
  "ingest_excel_from_path dbg show_f64 display file sheet_name s =
     ingest_excel_workbook_from_path dbg show_f64 display file (map_option (\<lambda>n. [n]) sheet_name) s"

subsection \<open>Schema inference\<close>

datatype infer_state = IUnknown | IBool | IInt | IFloat | IUtf8

definition infer_next :: "cell \<Rightarrow> infer_state" where
  "infer_next c =
     (case c of
        CBool _ \<Rightarrow> IBool
      | CInt _ \<Rightarrow> IInt
      | CFloat f \<Rightarrow> if fract_zero f then IInt else IFloat
      | _ \<Rightarrow> IUtf8)"

fun infer_merge :: "infer_state \<Rightarrow> infer_state \<Rightarrow> infer_state" where
  "infer_merge IUnknown x = x"
| "infer_merge IUtf8 _ = IUtf8"
| "infer_merge _ IUtf8 = IUtf8"
| "infer_merge IBool IBool = IBool"
| "infer_merge IInt IInt = IInt"
| "infer_merge IFloat IFloat = IFloat"
| "infer_merge IInt IFloat = IFloat"
| "infer_merge IFloat IInt = IFloat"
| "infer_merge _ _ = IUtf8"

definition infer_observe :: "cell \<Rightarrow> infer_state \<Rightarrow> infer_state" where
  "infer_observe c st = (if c = CEmpty then st else infer_merge st (infer_next c))"

fun finish_type :: "infer_state \<Rightarrow> data_type" where
  "finish_type IBool = TBool"
| "finish_type IInt = TInt64"
| "finish_type IFloat = TFloat64"
| "finish_type IUtf8 = TUtf8"
| "finish_type IUnknown = TUtf8"

text \<open>One row updates the states of its columns; cells beyond the header are ignored.\<close>

fun observe_cells :: "cell list \<Rightarrow> infer_state list \<Rightarrow> infer_state list" where
  "observe_cells (c # cs) (st # sts) = infer_observe c st # observe_cells cs sts"
| "observe_cells _ sts = sts"

definition infer_schema_from_sheet_range :: "(f64 \<Rightarrow> string) \<Rightarrow> string \<Rightarrow> sheet_range \<Rightarrow> schema result" where
  "infer_schema_from_sheet_range show_f64 sheet cells =
     rbind (find_header_row show_f64 cells) (\<lambda>(header_row_idx, header_cells).
       (let states = fold (\<lambda>(idx0, r). observe_cells r)
              (filter (\<lambda>(idx0, _). header_row_idx < idx0) (enumerate 0 cells))
              (replicate (length header_cells) IUnknown);
            fs = map (\<lambda>(n, st). mk_field (trim n) (finish_type st))
              (filter (\<lambda>(n, _). trim n \<noteq> []) (zip header_cells states))
        in if fs = [] then Err (SchemaMismatch (''sheet '' @ sq sheet @ '': no header columns found''))
           else Ok (schema_new fs)))"

definition infer_excel_schema_workbook_from_path ::
  "(f64 \<Rightarrow> string) \<Rightarrow> string + workbook \<Rightarrow> string list option \<Rightarrow> schema result" where
  "infer_excel_schema_workbook_from_path show_f64 file sheet_names =
     rbind (excel_try file) (\<lambda>wb.
     rbind (selected_sheets wb sheet_names) (\<lambda>sheets.
     rbind (excel_try (wb_range wb (hd sheets))) (\<lambda>cells.
     wrap_schema_err_with_sheet (hd sheets) (infer_schema_from_sheet_range show_f64 (hd sheets) cells))))"

definition infer_excel_schema_from_path :: "(f64 \<Rightarrow> string) \<Rightarrow> string + workbook \<Rightarrow> string option \<Rightarrow> schema result" where
  "infer_excel_schema_from_path show_f64 file sheet_name =
     infer_excel_schema_workbook_from_path show_f64 file (map_option (\<lambda>n. [n]) sheet_name)"

subsection \<open>What inference has seen, ingestion converts\<close>

text \<open>The cells a state of the inference covers.\<close>

fun covers :: "infer_state \<Rightarrow> cell \<Rightarrow> bool" where
  "covers _ CEmpty \<longleftrightarrow> True"
| "covers IUtf8 _ \<longleftrightarrow> True"
| "covers IBool c \<longleftrightarrow> (\<exists>b. c = CBool b)"
| "covers IInt c \<longleftrightarrow> (\<exists>i. c = CInt i) \<or> (\<exists>f. c = CFloat f \<and> fract_zero f)"
| "covers IFloat c \<longleftrightarrow> (\<exists>i. c = CInt i) \<or> (\<exists>f. c = CFloat f)"
| "covers IUnknown _ \<longleftrightarrow> False"

lemma covers_Empty [simp]: "covers st CEmpty"
  by (cases st) simp_all

lemma covers_merge: "covers st c \<Longrightarrow> covers (infer_merge st x) c"
  by (cases c; cases st; cases x) auto

lemma covers_merge_next: "covers (infer_merge st (infer_next c)) c"
  by (cases c; cases st) (auto simp: infer_next_def)

lemma covers_observe: "covers st c \<Longrightarrow> covers (infer_observe d st) c" "covers (infer_observe c st) c"
  by (auto simp: infer_observe_def covers_merge covers_merge_next)

lemma length_observe_cells [simp]: "length (observe_cells cs sts) = length sts"
  by (induction cs sts rule: observe_cells.induct) auto

lemma observe_cells_nth:
  "k < length sts \<Longrightarrow> observe_cells cs sts ! k = (case get cs k of Some c \<Rightarrow> infer_observe c (sts ! k) | None \<Rightarrow> sts ! k)"
proof (induction cs sts arbitrary: k rule: observe_cells.induct)
  case (1 c cs st sts)
  then show ?case by (cases k) (auto split: option.split)
qed (auto split: option.split)

lemma fold_observe_length [simp]: "length (fold (\<lambda>(i, r). observe_cells r) irs sts) = length sts"
  by (induction irs arbitrary: sts) auto

lemma fold_observe_keeps: "k < length sts \<Longrightarrow> covers (sts ! k) c \<Longrightarrow> covers (fold (\<lambda>(i, r). observe_cells r) irs sts ! k) c"
proof (induction irs arbitrary: sts)
  case (Cons ir irs)
  obtain i r where "ir = (i, r)" by (cases ir)
  moreover have "covers (observe_cells r sts ! k) c"
    using Cons.prems by (simp add: observe_cells_nth covers_observe split: option.split)
  ultimately show ?case using Cons by simp
qed simp

lemma fold_observe_covers:
  "k < length sts \<Longrightarrow> (i, r) \<in> set irs \<Longrightarrow> get r k = Some c \<Longrightarrow> covers (fold (\<lambda>(i, r). observe_cells r) irs sts ! k) c"
proof (induction irs arbitrary: sts)
  case (Cons ir irs)
  show ?case
  proof (cases "ir = (i, r)")
    case True
    have "covers (observe_cells r sts ! k) c"
      using Cons.prems by (simp add: observe_cells_nth covers_observe)
    then show ?thesis using Cons.prems True by (simp add: fold_observe_keeps)
  next
    case False
    then show ?thesis using Cons by (cases ir) auto
  qed
qed simp

lemma convert_covered: "covers st c \<Longrightarrow> is_ok (convert_cell display row column (finish_type st) c)"
  by (cases st; cases c) (auto simp: convert_cell_def parse_bool_cell_def parse_i64_cell_def parse_f64_cell_def)

lemma convert_cell_type: "convert_cell display row column t c = Ok v \<Longrightarrow> has_type v t"
  by (auto simp: convert_cell_def result_simps split: if_splits data_type.splits)

lemma inferred_field:
  assumes "infer_schema_from_sheet_range show_f64 sheet cells = Ok s" "find_header_row show_f64 cells = Ok (h, headers)"
    and "f \<in> set (sfields s)"
  shows "\<exists>k<length headers. \<exists>st. fname f = trim (headers ! k) \<and> trim (headers ! k) \<noteq> [] \<and> ftype f = finish_type st \<and>
    (\<forall>i r c. (i, r) \<in> set (enumerate 0 cells) \<longrightarrow> h < i \<longrightarrow> get r k = Some c \<longrightarrow> covers st c)"
proof -
  let ?irs = "filter (\<lambda>(idx0, _). h < idx0) (enumerate 0 cells)"
  let ?sts = "fold (\<lambda>(idx0, r). observe_cells r) ?irs (replicate (length headers) IUnknown)"
  from assms obtain nm st where z: "(nm, st) \<in> set (zip headers ?sts)" "trim nm \<noteq> []"
    "fname f = trim nm" "ftype f = finish_type st"
    by (auto simp: infer_schema_from_sheet_range_def Let_def mk_field_def schema_new_def split: if_splits)
  then obtain k where k: "k < length headers" "nm = headers ! k" "st = ?sts ! k"
    by (auto simp: set_zip)
  have "covers st c" if "(i, r) \<in> set (enumerate 0 cells)" "h < i" "get r k = Some c" for i r c
    unfolding k(3) using that k(1) by (auto intro!: fold_observe_covers [where i = i and r = r])
  with z k(1,2) show ?thesis by blast
qed

lemma distinct_filter_nth:
  "distinct (filter p xs) \<Longrightarrow> i < length xs \<Longrightarrow> j < length xs \<Longrightarrow> p (xs ! i) \<Longrightarrow> xs ! i = xs ! j \<Longrightarrow> i = j"
proof (induction xs arbitrary: i j)
  case (Cons x xs)
  then show ?case by (cases i; cases j) (auto simp: split: if_splits)
qed simp

text \<open>Distinct headers, blanks apart.\<close>

definition headers_distinct :: "(f64 \<Rightarrow> string) \<Rightarrow> sheet_range \<Rightarrow> bool" where
  "headers_distinct show_f64 cells =
     (case find_header_row show_f64 cells of
        Inl _ \<Rightarrow> True
      | Inr (_, headers) \<Rightarrow> distinct (filter (\<lambda>n. n \<noteq> []) (map trim headers)))"

lemma sheet_row_wf:
  assumes "length ks = length (sfields s)" "sheet_row display sheet s ks (i, cs) = Ok r"
  shows "wf_row s r"
  using assms by (auto simp: sheet_row_def wf_row_def traverse_Inr_iff list_all2_conv_all_nth dest: convert_cell_type)

lemma ingest_sheet_range_wf:
  assumes "ingest_sheet_range dbg show_f64 display sheet cells s = Ok rs" "r \<in> set rs"
  shows "wf_row s r"
proof -
  from assms(1) obtain h ks hs where "wrap_schema_err_with_sheet sheet (build_header_projection dbg show_f64 cells s) = Ok (h, ks, hs)"
    and rs: "traverse (sheet_row display sheet s ks) (filter (\<lambda>(idx0, _). h < idx0) (enumerate 0 cells)) = Ok rs"
    by (auto simp: ingest_sheet_range_def result_simps)
  then have "\<exists>hs. traverse (header_position dbg hs) (sfields s) = Ok ks"
    by (auto simp: wrap_schema_err_with_sheet_def build_header_projection_def Let_def result_simps
        split: sum.splits fault.splits ingestion_error.splits option.splits)
  then have len: "length ks = length (sfields s)" by (auto dest: traverse_length)
  from traverse_set [OF rs assms(2)] obtain i cs where "sheet_row display sheet s ks (i, cs) = Ok r" by auto
  with len show ?thesis by (rule sheet_row_wf)
qed

lemma ingest_excel_workbook_wf:
  assumes "ingest_excel_workbook_from_path dbg show_f64 display file names s = Ok ds"
  shows "ds_schema ds = s \<and> wf_ds ds"
proof -
  from assms obtain wb :: workbook and sheets rss where rss: "ds = data_set_new s (concat rss)"
    "traverse (\<lambda>sheet. rbind (excel_try (wb_range wb sheet)) (\<lambda>cells.
       ingest_sheet_range dbg show_f64 display sheet cells s)) sheets = Ok rss"
    unfolding ingest_excel_workbook_from_path_def rbind_Inr_iff rmap_Inr_iff by blast
  have "wf_row s r" if "rs \<in> set rss" "r \<in> set rs" for rs r
    using traverse_set [OF rss(2) that(1)] that(2) ingest_sheet_range_wf by (fastforce simp: result_simps)
  then show ?thesis by (auto simp: rss(1))
qed

lemma length_filter_enumerate: "length (filter (\<lambda>(i, _). h < i) (enumerate 0 xs)) = length xs - Suc h"
proof -
  have "filter (\<lambda>(i, _). h < i) (enumerate n xs) = drop (Suc h - n) (enumerate n xs)" for n
  proof (induction xs arbitrary: n)
    case (Cons x xs)
    then show ?case by (cases "h < n") (auto simp: Suc_diff_le)
  qed simp
  from this [of 0] show ?thesis by simp
qed

lemma ingest_inferred_sheet:
  assumes inf: "infer_schema_from_sheet_range show_f64 sheet cells = Ok s" and d: "headers_distinct show_f64 cells"
  shows "\<exists>rs. ingest_sheet_range dbg show_f64 display sheet cells s = Ok rs \<and> list_all (wf_row s) rs \<and>
    (case first_non_empty cells of Some h \<Rightarrow> length rs = length cells - Suc h | None \<Rightarrow> False)"
proof -
  obtain h headers where h: "find_header_row show_f64 cells = Ok (h, headers)"
    using inf by (auto simp: infer_schema_from_sheet_range_def result_simps)
  then have fne: "first_non_empty cells = Some h" "map (cell_to_header_string show_f64) (cells ! h) = headers"
    by (auto simp: find_header_row_def split: option.splits)
  have pos: "\<exists>k st. header_position dbg headers f = Ok k \<and> ftype f = finish_type st \<and>
    (\<forall>i r c. (i, r) \<in> set (enumerate 0 cells) \<longrightarrow> h < i \<longrightarrow> get r k = Some c \<longrightarrow> covers st c)"
    if "f \<in> set (sfields s)" for f
  proof -
    from inferred_field [OF inf h that] obtain k st where k: "k < length headers" "fname f = trim (headers ! k)"
      "trim (headers ! k) \<noteq> []" "ftype f = finish_type st"
      "\<forall>i r c. (i, r) \<in> set (enumerate 0 cells) \<longrightarrow> h < i \<longrightarrow> get r k = Some c \<longrightarrow> covers st c" by blast
    have "\<not> trim (headers ! j) = fname f" if "j < k" for j
    proof
      assume "trim (headers ! j) = fname f"
      with d h k that have "k = j"
        by (intro distinct_filter_nth [where p = "\<lambda>n. n \<noteq> []" and xs = "map trim headers"])
           (simp_all add: headers_distinct_def)
      with that show False by simp
    qed
    with k(1,2) have "position (\<lambda>h. trim h = fname f) headers = Some k" by (simp add: position_Some_iff)
    then show ?thesis using k(4,5) by (auto simp: header_position_def)
  qed
  have "is_ok (traverse (header_position dbg headers) (sfields s))"
    unfolding traverse_is_ok using pos by (fastforce simp: is_ok_iff)
  then obtain ks where ks: "traverse (header_position dbg headers) (sfields s) = Ok ks"
    by (auto simp: is_ok_iff)
  have ok: "is_ok (sheet_row display sheet s ks (i, r))" if "(i, r) \<in> set (enumerate 0 cells)" "h < i" for i r
    unfolding sheet_row_def prod.case traverse_is_ok
  proof safe
    fix f k assume "(f, k) \<in> set (zip (sfields s) ks)"
    then obtain j where "j < length (sfields s)" "f = sfields s ! j" "k = ks ! j"
      by (auto simp: set_zip traverse_length [OF ks])
    then have f: "f \<in> set (sfields s)" "header_position dbg headers f = Ok k"
      using traverse_nth [OF ks] by auto
    from pos [OF f(1)] f(2) that obtain st where "ftype f = finish_type st"
      "\<forall>c. get r k = Some c \<longrightarrow> covers st c" by auto
    then show "is_ok (convert_cell display (i + 1) (sheet @ '':'' @ fname f) (ftype f)
        (case get r k of Some c \<Rightarrow> c | None \<Rightarrow> CEmpty))"
      by (simp add: convert_covered split: option.split)
  qed
  have "is_ok (traverse (sheet_row display sheet s ks) (filter (\<lambda>(idx0, _). h < idx0) (enumerate 0 cells)))"
    using ok by (auto simp: traverse_is_ok)
  then obtain rs where rs: "traverse (sheet_row display sheet s ks) (filter (\<lambda>(idx0, _). h < idx0) (enumerate 0 cells)) = Ok rs"
    by (auto simp: is_ok_iff)
  have "wf_row s r" if "r \<in> set rs" for r
  proof -
    from traverse_set [OF rs that] obtain i cs where "sheet_row display sheet s ks (i, cs) = Ok r" by auto
    then show ?thesis by (rule sheet_row_wf [OF traverse_length [OF ks]])
  qed
  moreover have "length rs = length cells - Suc h"
    using traverse_length [OF rs] by (simp add: length_filter_enumerate)
  ultimately show ?thesis
    using fne ks rs by (simp add: ingest_sheet_range_def build_header_projection_def wrap_schema_err_with_sheet_def list_all_iff)
qed

subsection \<open>Properties\<close>

text \<open>C17: A sheet whose headers are distinct is always ingested under the schema inferred from it:
  every cell converts to the inferred type, and there is one well-typed row per row below the header.\<close>

theorem excel_infer_then_ingest:
  assumes "infer_excel_schema_from_path show_f64 (Inr wb) (Some sheet) = Ok s"
    and "wb_range wb sheet = Inr cells" "headers_distinct show_f64 cells"
  shows "\<exists>ds. ingest_excel_from_path dbg show_f64 display (Inr wb) (Some sheet) s = Ok ds \<and> ds_schema ds = s \<and>
    wf_ds ds \<and> (case first_non_empty cells of Some h \<Rightarrow> length (rows ds) = length cells - Suc h | None \<Rightarrow> False)"
proof -
  have "wrap_schema_err_with_sheet sheet (infer_schema_from_sheet_range show_f64 sheet cells) = Ok s"
    using assms(1,2) by (simp add: infer_excel_schema_from_path_def infer_excel_schema_workbook_from_path_def
        excel_try_def selected_sheets_def)
  then have "infer_schema_from_sheet_range show_f64 sheet cells = Ok s"
    by (auto simp: wrap_schema_err_with_sheet_def split: sum.splits fault.splits ingestion_error.splits)
  from ingest_inferred_sheet [OF this assms(3), of dbg display] assms(2) show ?thesis
    by (auto simp: ingest_excel_from_path_def ingest_excel_workbook_from_path_def excel_try_def selected_sheets_def
        list_all_iff split: option.splits)
qed

text \<open>The number 2 to the 63 in an Excel column, one more than the greatest 64-bit integer, makes the
  column an integer column and is stored, without an error, as that greatest integer.\<close>

theorem excel_saturates:
  "infer_schema_from_sheet_range show_f64 sheet [[CString ''n''], [CFloat (F64 0x43E0000000000000)]] =
     Ok (schema_new [mk_field ''n'' TInt64]) \<and>
   ingest_sheet_range dbg show_f64 display sheet [[CString ''n''], [CFloat (F64 0x43E0000000000000)]]
     (schema_new [mk_field ''n'' TInt64]) = Ok [[Int64 0x7FFFFFFFFFFFFFFF]]"
proof -
  have "fract_zero (F64 0x43E0000000000000)" "to_i64 (F64 0x43E0000000000000) = 0x7FFFFFFFFFFFFFFF" "trim ''n'' = ''n''"
    by code_simp+
  then show ?thesis
    by (simp add: infer_schema_from_sheet_range_def find_header_row_def first_non_empty_def cell_to_header_string_def
        infer_observe_def infer_next_def ingest_sheet_range_def build_header_projection_def header_position_def
        wrap_schema_err_with_sheet_def sheet_row_def convert_cell_def parse_i64_cell_def schema_new_def mk_field_def)
qed

subsection \<open>Witnesses\<close>

lemma excel_infer_then_ingest_witness:
  "\<exists>ds. ingest_excel_from_path (\<lambda>_. []) (\<lambda>_. []) (\<lambda>_. []) (Inr \<lparr>wb_sheet_names = [''s''],
        wb_range = \<lambda>n. if n = ''s'' then Inr [[CEmpty], [CString ''b'', CString ''a''], [CBool True, CInt 7], [CEmpty]] else Inl ''no sheet''\<rparr>)
      (Some ''s'') (schema_new [mk_field ''b'' TBool, mk_field ''a'' TInt64]) = Ok ds \<and> wf_ds ds \<and> length (rows ds) = 2"
proof -
  let ?cells = "[[CEmpty], [CString ''b'', CString ''a''], [CBool True, CInt 7], [CEmpty]]"
  let ?wb = "\<lparr>wb_sheet_names = [''s''], wb_range = \<lambda>n. if n = ''s'' then Inr ?cells else Inl ''no sheet''\<rparr>"
  have 1: "infer_excel_schema_from_path (\<lambda>_. []) (Inr ?wb) (Some ''s'') = Ok (schema_new [mk_field ''b'' TBool, mk_field ''a'' TInt64])"
    by code_simp
  have 2: "wb_range ?wb ''s'' = Inr ?cells" by simp
  have 3: "headers_distinct (\<lambda>_. []) ?cells" "first_non_empty ?cells = Some 1" by code_simp+
  from excel_infer_then_ingest [OF 1 2 3(1), of "\<lambda>_. []" "\<lambda>_. []"] 3(2) show ?thesis by fastforce
qed

end
