(* ===== verification/Unified.thy ===== *)
theory Unified
  imports Watermark Json Workbook
begin

text \<open>
  The ingestion entry points (\<open>src/ingestion/unified.rs\<close>): one file, an ordered batch of files,
  schema inference, severities of errors and the events an observer sees. What the files hold is
  an environment: for each path, what the readers of the other libraries yield. Observers change a
  world of type \<open>'w\<close>; a panic passes them by.
\<close>

record env =
  e_polars :: polars
  e_csv :: "path \<Rightarrow> scan"
  e_parquet :: "path \<Rightarrow> scan"
  e_json :: "path \<Rightarrow> json_format \<Rightarrow> string + (polars_error + frame)"
  e_project :: "frame \<Rightarrow> pexpr list \<Rightarrow> string list \<Rightarrow> polars_error + frame"
  e_xml :: "path \<Rightarrow> string + (string + xml_event) list"
  e_excel :: "path \<Rightarrow> string + workbook"
  e_dbg_text :: "string \<Rightarrow> string"
  e_dbg_list :: "string list \<Rightarrow> string"
  e_show_f64 :: "f64 \<Rightarrow> string"
  e_display :: "cell \<Rightarrow> string"

subsection \<open>Row limits\<close>

definition truncate_dataset_rows :: "data_set \<Rightarrow> nat \<Rightarrow> data_set" where
  "truncate_dataset_rows ds n =
     (if n = 0 then ds
      else if n < row_count ds then data_set_new (ds_schema ds) (take n (rows ds))
      else ds)"

definition apply_max_rows :: "data_set \<Rightarrow> nat option \<Rightarrow> data_set" where
  "apply_max_rows ds max_rows =
     (case max_rows of
        Some n \<Rightarrow> if 0 < n then truncate_dataset_rows ds n else ds
      | None \<Rightarrow> ds)"

subsection \<open>Severity of an error\<close>

fun error_chain_contains_io :: "err_src \<Rightarrow> bool" where
  "error_chain_contains_io (SrcIo _) = True"
| "error_chain_contains_io (SrcOther _ None) = False"
| "error_chain_contains_io (SrcOther _ (Some e)) = error_chain_contains_io e"

definition severity_for_error :: "ingestion_error \<Rightarrow> ingestion_severity" where
  "severity_for_error e =
     (case e of
        IoErr _ \<Rightarrow> Critical
      | ParquetErr src \<Rightarrow> if error_chain_contains_io src then Critical else Error
      | CsvErr k _ \<Rightarrow> (case k of CsvIo \<Rightarrow> Critical | CsvOther \<Rightarrow> Error)
      | ExcelErr _ \<Rightarrow> Error
      | EngineErr _ src \<Rightarrow> if error_chain_contains_io src then Critical else Error
      | SchemaMismatch _ \<Rightarrow> Error
      | ParseError _ _ _ _ \<Rightarrow> Error)"

subsection \<open>One file\<close>

definition infer_format_from_path :: "path \<Rightarrow> ingestion_format result" where
  "infer_format_from_path p =
     (case extension p of
        None \<Rightarrow> Err (SchemaMismatch (''cannot infer format: path has no extension ('' @ p @ '')''))
      | Some ext \<Rightarrow> ok_or (SchemaMismatch
          (''cannot infer format from extension '' @ sq ext @ '' for path ('' @ p @ '')'')) (from_extension ext))"

definition ingest_excel_dispatch :: "env \<Rightarrow> path \<Rightarrow> schema \<Rightarrow> excel_sheet_selection \<Rightarrow> data_set result" where
  "ingest_excel_dispatch E p s sel =
     (case sel of
        First \<Rightarrow> ingest_excel_from_path (e_dbg_list E) (e_show_f64 E) (e_display E) (e_excel E p) None s
      | Sheet n \<Rightarrow> ingest_excel_from_path (e_dbg_list E) (e_show_f64 E) (e_display E) (e_excel E p) (Some n) s
      | AllSheets \<Rightarrow> ingest_excel_workbook_from_path (e_dbg_list E) (e_show_f64 E) (e_display E) (e_excel E p) None s
      | Sheets ns \<Rightarrow> ingest_excel_workbook_from_path (e_dbg_list E) (e_show_f64 E) (e_display E) (e_excel E p) (Some ns) s)"

definition infer_excel_schema_dispatch :: "env \<Rightarrow> path \<Rightarrow> excel_sheet_selection \<Rightarrow> schema result" where
  "infer_excel_schema_dispatch E p sel =
     (case sel of
        First \<Rightarrow> infer_excel_schema_from_path (e_show_f64 E) (e_excel E p) None
      | Sheet n \<Rightarrow> infer_excel_schema_from_path (e_show_f64 E) (e_excel E p) (Some n)
      | AllSheets \<Rightarrow> infer_excel_schema_workbook_from_path (e_show_f64 E) (e_excel E p) None
      | Sheets ns \<Rightarrow> infer_excel_schema_workbook_from_path (e_show_f64 E) (e_excel E p) (Some ns))"

definition extension_or_empty :: "path \<Rightarrow> string" where
  "extension_or_empty p = (case extension p of Some ext \<Rightarrow> ext | None \<Rightarrow> [])"

definition read_format :: "env \<Rightarrow> ingestion_format \<Rightarrow> path \<Rightarrow> schema \<Rightarrow> 'w ingestion_options \<Rightarrow> data_set result" where
  "read_format E fmt p s opts =
     (case fmt of
        Csv \<Rightarrow> ingest_csv_from_path (e_polars E) (e_csv E p) s
      | Json \<Rightarrow> ingest_json_from_path (e_polars E) (e_project E) (extension_or_empty p) (e_json E p) s
      | Parquet \<Rightarrow> ingest_parquet_from_path (e_polars E) (e_parquet E p) s
      | Excel \<Rightarrow> ingest_excel_dispatch E p s (opt_excel_sheet_selection opts)
      | Xml \<Rightarrow> ingest_xml_from_path (e_dbg_text E) (e_xml E p) s)"

text \<open>What the observer, when there is one, is told about the result.\<close>

definition notify :: "'w ingestion_options \<Rightarrow> ingestion_context \<Rightarrow> data_set result \<Rightarrow> 'w \<Rightarrow> 'w" where
  "notify opts ctx res w =
     (case opt_observer opts of
        None \<Rightarrow> w
      | Some obs \<Rightarrow>
          (case res of
             Inr ds \<Rightarrow> on_success obs ctx \<lparr>st_rows = row_count ds\<rparr> w
           | Inl (Failed e) \<Rightarrow>
               (let sev = severity_for_error e; w' = on_failure obs ctx sev e w in
                if opt_alert_at_or_above opts \<le> sev then on_alert obs ctx sev e w' else w')
           | Inl (Panic _) \<Rightarrow> w))"

definition chosen_format :: "path \<Rightarrow> 'w ingestion_options \<Rightarrow> ingestion_format result" where
  "chosen_format p opts =
     (case opt_format opts of Some f \<Rightarrow> Ok f | None \<Rightarrow> infer_format_from_path p)"

definition ingest_from_path ::
  "env \<Rightarrow> path \<Rightarrow> schema \<Rightarrow> 'w ingestion_options \<Rightarrow> 'w \<Rightarrow> data_set result \<times> 'w" where
  "ingest_from_path E p s opts w =
     (case rbind (validate_watermark_config s opts) (\<lambda>_. chosen_format p opts) of
        Inl e \<Rightarrow> (Inl e, w)
      | Inr fmt \<Rightarrow>
          (let res = rmap (\<lambda>ds. apply_max_rows ds (opt_max_rows opts))
                 (rbind (read_format E fmt p s opts) (\<lambda>ds. apply_watermark_after_ingest ds s opts))
           in (res, notify opts \<lparr>ctx_path = p, ctx_format = fmt\<rparr> res w)))"

subsection \<open>An ordered batch\<close>

definition options_without_watermark :: "'w ingestion_options \<Rightarrow> 'w ingestion_options" where
  "options_without_watermark opts =
     opts\<lparr>opt_watermark_column := None, opt_watermark_exclusive_above := None\<rparr>"

record ordered_batch_metadata =
  bm_paths :: "path list"
  bm_last_path :: "path option"
  bm_max_watermark_value :: "value_t option"

text \<open>The loop over the files; the first failure ends it.\<close>

fun ingest_each ::
  "env \<Rightarrow> schema \<Rightarrow> 'w ingestion_options \<Rightarrow> path list \<Rightarrow> 'w \<Rightarrow> row list result \<times> 'w" where
  "ingest_each E s opts [] w = (Ok [], w)"
| "ingest_each E s opts (p # ps) w =
     (case ingest_from_path E p s opts w of
        (Inl e, w') \<Rightarrow> (Inl e, w')
      | (Inr ds, w') \<Rightarrow>
          (case ingest_each E s opts ps w' of (r, w'') \<Rightarrow> (rmap (\<lambda>rs. rows ds @ rs) r, w'')))"

definition finish_batch ::
  "schema \<Rightarrow> 'w ingestion_options \<Rightarrow> path list \<Rightarrow> row list \<Rightarrow> (data_set \<times> ordered_batch_metadata) result" where
  "finish_batch s opts paths all_rows =
     rbind (apply_watermark_after_ingest (data_set_new s all_rows) s opts) (\<lambda>ds0.
     let ds = apply_max_rows ds0 (opt_max_rows opts) in
     rmap (\<lambda>m. (ds, \<lparr>bm_paths = paths, bm_last_path = (if paths = [] then None else Some (last paths)),
                     bm_max_watermark_value = m\<rparr>))
       (case opt_watermark_column opts of
          Some c \<Rightarrow> max_value_in_column ds s c
        | None \<Rightarrow> Ok None))"

definition ingest_from_ordered_paths ::
  "env \<Rightarrow> path list \<Rightarrow> schema \<Rightarrow> 'w ingestion_options \<Rightarrow> 'w \<Rightarrow>
   (data_set \<times> ordered_batch_metadata) result \<times> 'w" where
  "ingest_from_ordered_paths E paths s opts w =
     (case validate_watermark_config s opts of
        Inl e \<Rightarrow> (Inl e, w)
      | Inr _ \<Rightarrow>
          if paths = [] then (Err (SchemaMismatch ''ingest_from_ordered_paths: empty path list''), w)
          else
            (case ingest_each E s (options_without_watermark opts) paths w of
               (r, w') \<Rightarrow> (rbind r (finish_batch s opts paths), w')))"

subsection \<open>Schema inference\<close>

definition infer_schema_from_path :: "env \<Rightarrow> path \<Rightarrow> 'w ingestion_options \<Rightarrow> schema result" where
  "infer_schema_from_path E p opts =
     rbind (chosen_format p opts) (\<lambda>fmt.
       case fmt of
         Csv \<Rightarrow> rmap infer_schema_from_dataframe_lossy (open_frame ''csv'' (e_csv E p))
       | Json \<Rightarrow>
           (let jf = (if eq_ignore_ascii_case (extension_or_empty p) ''ndjson'' then JsonLines else JsonDoc) in
            case e_json E p jf of
              Inl e \<Rightarrow> Err (IoErr e)
            | Inr r \<Rightarrow> rmap infer_schema_from_dataframe_lossy (map_polars ''failed to read json with polars'' r))
       | Parquet \<Rightarrow> rmap infer_schema_from_dataframe_lossy (open_frame ''parquet'' (e_parquet E p))
       | Excel \<Rightarrow> infer_excel_schema_dispatch E p (opt_excel_sheet_selection opts)
       | Xml \<Rightarrow> Err (SchemaMismatch
           ''infer_schema_from_path is not supported for XML; provide an explicit Schema''))"

definition ingest_from_path_infer :: "env \<Rightarrow> path \<Rightarrow> 'w ingestion_options \<Rightarrow> 'w \<Rightarrow> data_set result \<times> 'w" where
  "ingest_from_path_infer E p opts w =
     (case infer_schema_from_path E p opts of
        Inl e \<Rightarrow> (Inl e, w)
      | Inr s \<Rightarrow> ingest_from_path E p s opts w)"

subsection \<open>Requests, the builder's calls, frame exports\<close>

record 'w ingestion_request =
  rq_path :: path
  rq_schema :: schema
  rq_options :: "'w ingestion_options"

definition run_request :: "env \<Rightarrow> 'w ingestion_request \<Rightarrow> 'w \<Rightarrow> data_set result \<times> 'w" where
  "run_request E rq w = ingest_from_path E (rq_path rq) (rq_schema rq) (rq_options rq) w"

definition builder_ingest_from_path ::
  "env \<Rightarrow> 'w builder \<Rightarrow> path \<Rightarrow> schema \<Rightarrow> 'w \<Rightarrow> data_set result \<times> 'w" where
  "builder_ingest_from_path E b p s w = ingest_from_path E p s (build b) w"

definition builder_ingest_from_ordered_paths ::
  "env \<Rightarrow> 'w builder \<Rightarrow> path list \<Rightarrow> schema \<Rightarrow> 'w \<Rightarrow> (data_set \<times> ordered_batch_metadata) result \<times> 'w" where
  "builder_ingest_from_ordered_paths E b paths s w = ingest_from_ordered_paths E paths s (build b) w"

text \<open>
  \<open>create\<close> opens the output file and \<open>write\<close> encodes a frame into it; the file is created after
  the frame has been built. The result is the bytes written.
\<close>

definition export_dataset_to_parquet ::
  "polars \<Rightarrow> (path \<Rightarrow> string option) \<Rightarrow> (frame \<Rightarrow> polars_error + 'b) \<Rightarrow> path \<Rightarrow> data_set \<Rightarrow> 'b result" where
  "export_dataset_to_parquet P create write p ds =
     rbind (dataset_to_dataframe P ds) (\<lambda>df.
       case create p of
         Some e \<Rightarrow> Err (IoErr e)
       | None \<Rightarrow> map_polars ''write parquet from DataSet'' (write df))"

definition export_dataset_to_arrow_ipc ::
  "polars \<Rightarrow> (path \<Rightarrow> string option) \<Rightarrow> (frame \<Rightarrow> polars_error + 'b) \<Rightarrow> path \<Rightarrow> data_set \<Rightarrow> 'b result" where
  "export_dataset_to_arrow_ipc P create write p ds =
     rbind (dataset_to_dataframe P ds) (\<lambda>df.
       case create p of
         Some e \<Rightarrow> Err (IoErr e)
       | None \<Rightarrow> map_polars ''write arrow ipc from DataSet'' (write df))"

subsection \<open>What one call does\<close>

lemma apply_max_rows_sel [simp]:
  "ds_schema (apply_max_rows ds m) = ds_schema ds"
  "rows (apply_max_rows ds m) = (case m of Some n \<Rightarrow> if 0 < n then take n (rows ds) else rows ds | None \<Rightarrow> rows ds)"
  by (auto simp: apply_max_rows_def truncate_dataset_rows_def row_count_def split: option.split)

lemma apply_max_rows_None [simp]: "apply_max_rows ds None = ds"
  by (simp add: apply_max_rows_def)

lemma apply_max_rows_wf: "wf_ds ds \<Longrightarrow> wf_ds (apply_max_rows ds m)"
  by (auto simp: wf_ds_def list_all_iff dest: in_set_takeD split: option.split)

lemma read_format_wf: "read_format E fmt p s opts = Ok ds \<Longrightarrow> ds_schema ds = s \<and> wf_ds ds"
  by (auto simp: read_format_def ingest_csv_from_path_def ingest_parquet_from_path_def ingest_json_from_path_def
      ingest_excel_dispatch_def ingest_excel_from_path_def Let_def result_simps
      split: ingestion_format.splits excel_sheet_selection.splits sum.splits option.splits
      dest: dataframe_to_dataset_wf ingest_excel_workbook_wf ingest_xml_wf)

text \<open>The rows the watermark options keep.\<close>

definition kept :: "schema \<Rightarrow> 'w ingestion_options \<Rightarrow> row \<Rightarrow> bool" where
  "kept s opts r =
     (case (opt_watermark_column opts, opt_watermark_exclusive_above opts) of
        (Some c, Some flr) \<Rightarrow> above flr (r ! the (index_of s c))
      | _ \<Rightarrow> True)"

lemma filter_rows_True [simp]: "filter_rows ds (\<lambda>r. True) = ds"
  by (rule data_set_eqI) simp_all

lemma watermark_step:
  assumes "wf_ds ds" "ds_schema ds = s" "validate_watermark_config s opts = Ok ()"
  shows "apply_watermark_after_ingest ds s opts = Ok (filter_rows ds (kept s opts))"
  using assms(3) watermark_filter_typed [OF assms(1)] assms(2) [symmetric]
  by (auto simp: validate_Ok_iff apply_watermark_after_ingest_def kept_def [abs_def])

lemma ingest_result:
  assumes "validate_watermark_config s opts = Ok ()" "chosen_format p opts = Ok fmt"
  shows "fst (ingest_from_path E p s opts w) =
    rmap (\<lambda>ds. apply_max_rows (filter_rows ds (kept s opts)) (opt_max_rows opts)) (read_format E fmt p s opts)"
proof (cases "read_format E fmt p s opts")
  case (Inr ds)
  with assms watermark_step [of ds s opts] read_format_wf [OF Inr] show ?thesis
    by (simp add: ingest_from_path_def Let_def)
qed (simp add: assms ingest_from_path_def Let_def)

lemma ingest_ok_iff:
  "fst (ingest_from_path E p s opts w) = Ok ds \<longleftrightarrow>
    validate_watermark_config s opts = Ok () \<and>
    (\<exists>fmt raw. chosen_format p opts = Ok fmt \<and> read_format E fmt p s opts = Ok raw \<and>
       ds = apply_max_rows (filter_rows raw (kept s opts)) (opt_max_rows opts))"
proof (cases "validate_watermark_config s opts")
  case (Inl e)
  then show ?thesis by (simp add: ingest_from_path_def)
next
  case (Inr u)
  then have v: "validate_watermark_config s opts = Ok ()" by simp
  show ?thesis
  proof (cases "chosen_format p opts")
    case (Inl e)
    then show ?thesis by (simp add: ingest_from_path_def v)
  next
    case (Inr fmt)
    then show ?thesis using ingest_result [OF v Inr, of E w] by (auto simp: v result_simps)
  qed
qed

lemma ingest_ok_wf: "fst (ingest_from_path E p s opts w) = Ok ds \<Longrightarrow> wf_ds ds \<and> ds_schema ds = s"
  using read_format_wf by (fastforce simp: ingest_ok_iff apply_max_rows_wf filter_rows_wf)

subsection \<open>What a batch does\<close>

lemma without_watermark_sel [simp]:
  "opt_format (options_without_watermark opts) = opt_format opts"
  "opt_max_rows (options_without_watermark opts) = opt_max_rows opts"
  "opt_excel_sheet_selection (options_without_watermark opts) = opt_excel_sheet_selection opts"
  "opt_observer (options_without_watermark opts) = opt_observer opts"
  "opt_watermark_column (options_without_watermark opts) = None"
  "opt_watermark_exclusive_above (options_without_watermark opts) = None"
  by (simp_all add: options_without_watermark_def)

lemma without_watermark_simps [simp]:
  "chosen_format p (options_without_watermark opts) = chosen_format p opts"
  "read_format E fmt p s (options_without_watermark opts) = read_format E fmt p s opts"
  "kept s (options_without_watermark opts) = (\<lambda>r. True)"
  "validate_watermark_config s (options_without_watermark opts) = Ok ()"
  by (auto simp: chosen_format_def read_format_def kept_def validate_watermark_config_def cong: ingestion_format.case_cong)

lemma ingest_each_Ok_iff:
  "fst (ingest_each E s opts ps w) = Ok rs \<longleftrightarrow>
    (\<exists>dss. list_all2 (\<lambda>p ds. fst (ingest_from_path E p s opts w) = Ok ds) ps dss \<and> rs = concat (map rows dss))"
proof (induction ps arbitrary: w rs)
  case (Cons p ps)
  have indep: "fst (ingest_from_path E q s opts v) = Ok d \<longleftrightarrow> fst (ingest_from_path E q s opts w) = Ok d" for q v d
    by (simp add: ingest_ok_iff)
  obtain r w' where one: "ingest_from_path E p s opts w = (r, w')" by force
  show ?case
  proof (cases r)
    case (Inl e)
    then show ?thesis by (simp add: one list_all2_Cons1)
  next
    case (Inr d)
    obtain q w'' where rest: "ingest_each E s opts ps w' = (q, w'')" by force
    have "q = Ok rs' \<longleftrightarrow> (\<exists>dss. list_all2 (\<lambda>p ds. fst (ingest_from_path E p s opts w) = Ok ds) ps dss \<and> rs' = concat (map rows dss))" for rs'
      using Cons.IH [of w' rs'] by (simp add: rest indep [of _ w'])
    then show ?thesis by (auto simp: one Inr rest result_simps list_all2_Cons1)
  qed
qed auto

lemma finish_batch_unlimited:
  assumes "opt_max_rows opts = None" "validate_watermark_config s opts = Ok ()" "\<forall>r\<in>set rs. wf_row s r"
  shows "\<exists>m. finish_batch s opts paths rs = Ok (data_set_new s (filter (kept s opts) rs),
      \<lparr>bm_paths = paths, bm_last_path = (if paths = [] then None else Some (last paths)), bm_max_watermark_value = m\<rparr>)"
proof -
  let ?ds = "data_set_new s (filter (kept s opts) rs)"
  have "apply_watermark_after_ingest (data_set_new s rs) s opts = Ok ?ds"
    using watermark_step [of "data_set_new s rs" s opts] assms by (simp add: filter_rows_def)
  moreover have "\<exists>m. (case opt_watermark_column opts of Some c \<Rightarrow> max_value_in_column ?ds s c | None \<Rightarrow> Ok None) = Ok m"
    using assms(2,3) max_value_typed [of ?ds] by (auto simp: validate_Ok_iff split: option.split)
  ultimately show ?thesis using assms(1) by (auto simp: finish_batch_def Let_def)
qed

lemma list_all2_factor:
  assumes "list_all2 P xs ys" "\<And>x y. P x y \<Longrightarrow> \<exists>z. Q x z \<and> y = f z"
  obtains zs where "list_all2 Q xs zs" "ys = map f zs"
proof -
  from assms(1) have "\<exists>zs. list_all2 Q xs zs \<and> ys = map f zs"
  proof (induction rule: list_all2_induct)
    case (Cons x xs y ys)
    from assms(2) [OF Cons.hyps(1)] obtain z where "Q x z" "y = f z" by blast
    moreover from Cons.IH obtain zs where "list_all2 Q xs zs" "ys = map f zs" by blast
    ultimately show ?case by (intro exI [of _ "z # zs"]) simp
  qed simp
  with that show thesis by blast
qed

lemma raws_wf:
  assumes "list_all2 (\<lambda>p raw. \<exists>fmt. chosen_format p opts = Ok fmt \<and> read_format E fmt p s opts = Ok raw) paths raws"
  shows "\<forall>r\<in>set (concat (map rows raws)). wf_row s r"
proof -
  have "wf_ds raw \<and> ds_schema raw = s" if "raw \<in> set raws" for raw
  proof -
    from that obtain i where "i < length raws" "raw = raws ! i" by (auto simp: in_set_conv_nth)
    with assms have "\<exists>p fmt. read_format E fmt p s opts = Ok raw"
      by (auto simp: list_all2_conv_all_nth) blast
    then show ?thesis using read_format_wf by blast
  qed
  then show ?thesis by (auto dest: wf_ds_row)
qed

lemma batch_cursor:
  assumes "opt_max_rows opts = None" "opt_watermark_column opts = Some c"
    and "fst (ingest_from_ordered_paths E paths s opts w) = Ok (ds, meta)"
  shows "max_value_in_column ds s c = Ok (bm_max_watermark_value meta)"
  using assms by (auto simp: ingest_from_ordered_paths_def finish_batch_def Let_def result_simps
      split: sum.splits if_splits prod.splits)

lemma ordered_batch_rows:
  assumes "opt_max_rows opts = None"
  shows "(\<exists>meta. fst (ingest_from_ordered_paths E paths s opts w) = Ok (ds, meta)) \<longleftrightarrow>
    paths \<noteq> [] \<and> validate_watermark_config s opts = Ok () \<and>
    (\<exists>raws. list_all2 (\<lambda>p raw. \<exists>fmt. chosen_format p opts = Ok fmt \<and> read_format E fmt p s opts = Ok raw) paths raws \<and>
       ds = data_set_new s (filter (kept s opts) (concat (map rows raws))))"
    (is "?lhs \<longleftrightarrow> ?rhs")
proof -
  let ?opts = "options_without_watermark opts"
  let ?raws = "\<lambda>raws. list_all2 (\<lambda>p raw. \<exists>fmt. chosen_format p opts = Ok fmt \<and> read_format E fmt p s opts = Ok raw) paths raws"
  have each: "fst (ingest_each E s ?opts paths w) = Ok rs \<longleftrightarrow> (\<exists>raws. ?raws raws \<and> rs = concat (map rows raws))" for rs
    by (simp add: ingest_each_Ok_iff ingest_ok_iff assms)
  note wf = raws_wf [of opts E s paths]
  have red: "fst (ingest_from_ordered_paths E paths s opts w) = rbind (fst (ingest_each E s ?opts paths w)) (finish_batch s opts paths)"
    if "paths \<noteq> []" "validate_watermark_config s opts = Ok ()"
    using that by (simp add: ingest_from_ordered_paths_def split: prod.split)
  show ?thesis
  proof (cases "paths \<noteq> [] \<and> validate_watermark_config s opts = Ok ()")
    case True
    have "?lhs \<longleftrightarrow> (\<exists>raws meta. ?raws raws \<and> finish_batch s opts paths (concat (map rows raws)) = Ok (ds, meta))"
      using True unfolding red [OF conjunct1 [OF True] conjunct2 [OF True]] rbind_Inr_iff each by blast
    also have "\<dots> \<longleftrightarrow> (\<exists>raws. ?raws raws \<and> ds = data_set_new s (filter (kept s opts) (concat (map rows raws))))"
    proof -
      have "(\<exists>meta. finish_batch s opts paths (concat (map rows raws)) = Ok (ds, meta)) \<longleftrightarrow>
          ds = data_set_new s (filter (kept s opts) (concat (map rows raws)))" if "?raws raws" for raws
        using finish_batch_unlimited [OF assms conjunct2 [OF True] wf [OF that], of paths] by auto
      then show ?thesis by blast
    qed
    finally show ?thesis using True by simp
  next
    case False
    then show ?thesis
      by (auto simp: ingest_from_ordered_paths_def split: sum.splits)
  qed
qed

text \<open>What an observer that keeps a list is told.\<close>

datatype event = Succeeded path nat | FailedWith path ingestion_severity | Alerted path ingestion_severity

definition recorder :: "event list observer" where
  "recorder = \<lparr>on_success = (\<lambda>ctx st evs. evs @ [Succeeded (ctx_path ctx) (st_rows st)]),
     on_failure = (\<lambda>ctx sev e evs. evs @ [FailedWith (ctx_path ctx) sev]),
     on_alert = (\<lambda>ctx sev e evs. evs @ [Alerted (ctx_path ctx) sev])\<rparr>"

text \<open>A file with the identifiers 1, 2, 3, of which those above 1 are wanted, one at most.\<close>

definition ids_frame :: frame where
  "ids_frame = \<lparr>f_height = 3, f_columns = [\<lparr>s_name = ''id'', s_dtype = PInt64, s_cells = [AvInt64 1, AvInt64 2, AvInt64 3]\<rparr>]\<rparr>"

definition ids_env :: env where
  "ids_env = \<lparr>e_polars = plain_polars, e_csv = (\<lambda>_. Inr (Inr ids_frame)), e_parquet = (\<lambda>_. Inr (Inr ids_frame)),
     e_json = (\<lambda>_ _. Inl ''none''), e_project = (\<lambda>df _ _. Inr df), e_xml = (\<lambda>_. Inl ''none''),
     e_excel = (\<lambda>_. Inl ''none''), e_dbg_text = (\<lambda>t. t), e_dbg_list = concat, e_show_f64 = (\<lambda>_. []), e_display = (\<lambda>_. [])\<rparr>"

definition ids_schema :: schema where
  "ids_schema = schema_new [mk_field ''id'' TInt64]"

definition ids_options :: "'w ingestion_options" where
  "ids_options = default_options\<lparr>opt_watermark_column := Some ''id'', opt_watermark_exclusive_above := Some (Int64 1),
     opt_max_rows := Some 1\<rparr>"

text \<open>Every file of a batch that succeeds is reported once, with its rows before the filter.\<close>

lemma ingest_each_events:
  assumes "opt_observer opts = Some recorder" "opt_watermark_column opts = None" "opt_watermark_exclusive_above opts = None"
  shows "ingest_each E s opts ps w = (Ok rs, w') \<Longrightarrow>
    \<exists>dss. length dss = length ps \<and> rs = concat (map rows dss) \<and> w' = w @ map (\<lambda>(p, d). Succeeded p (row_count d)) (zip ps dss)"
proof (induction ps arbitrary: w rs)
  case (Cons p ps)
  obtain r w1 where one: "ingest_from_path E p s opts w = (r, w1)" by force
  with Cons.prems obtain d where d: "r = Ok d" by (cases r) auto
  obtain q w2 where rest: "ingest_each E s opts ps w1 = (q, w2)" by force
  with Cons.prems one d obtain rs' where q: "q = Ok rs'" "rs = rows d @ rs'" "w' = w2" by (cases q) auto
  have "w1 = w @ [Succeeded p (row_count d)]"
    using one d assms(1) by (auto simp: ingest_from_path_def Let_def notify_def recorder_def split: sum.splits)
  moreover obtain dss where "length dss = length ps" "rs' = concat (map rows dss)"
    "w' = w1 @ map (\<lambda>(p, d). Succeeded p (row_count d)) (zip ps dss)"
    using Cons.IH [of w1 rs'] rest q by auto
  ultimately show ?case using q by (intro exI [of _ "d # dss"]) simp
qed simp

subsection \<open>Properties\<close>

text \<open>C9: One file: after the options have been validated and the format chosen, only reading can
  fail; the result has the requested schema and typed rows, namely the rows read whose watermark
  cell is above the floor, in order, cut to the row limit when there is a positive one.\<close>

theorem ingest_from_path_spec:
  "case fst (ingest_from_path E p s opts w) of
     Inl e \<Rightarrow> validate_watermark_config s opts = Inl e \<or> chosen_format p opts = Inl e \<or>
       (\<exists>fmt. chosen_format p opts = Ok fmt \<and> read_format E fmt p s opts = Inl e)
   | Inr ds \<Rightarrow> ds_schema ds = s \<and> wf_ds ds \<and>
       (\<exists>fmt raw. chosen_format p opts = Ok fmt \<and> read_format E fmt p s opts = Ok raw \<and>
          rows ds = (let rs = filter (kept s opts) (rows raw) in
            case opt_max_rows opts of Some n \<Rightarrow> if n = 0 then rs else take n rs | None \<Rightarrow> rs))"
proof (cases "fst (ingest_from_path E p s opts w)")
  case (Inl e)
  show ?thesis
  proof (cases "rbind (validate_watermark_config s opts) (\<lambda>_. chosen_format p opts)")
    case (Inr fmt)
    then have "validate_watermark_config s opts = Ok ()" "chosen_format p opts = Ok fmt" by (auto simp: result_simps)
    from ingest_result [OF this, of E w] this Inl show ?thesis by (cases "read_format E fmt p s opts") auto
  qed (use Inl in \<open>auto simp: ingest_from_path_def result_simps\<close>)
next
  case (Inr ds)
  then have "\<exists>fmt raw. chosen_format p opts = Ok fmt \<and> read_format E fmt p s opts = Ok raw \<and>
      ds = apply_max_rows (filter_rows raw (kept s opts)) (opt_max_rows opts)"
    by (simp add: ingest_ok_iff)
  then obtain fmt raw where r: "chosen_format p opts = Ok fmt" "read_format E fmt p s opts = Ok raw"
    "ds = apply_max_rows (filter_rows raw (kept s opts)) (opt_max_rows opts)" by blast
  with read_format_wf [OF r(2)] have "ds_schema ds = s \<and> wf_ds ds" by (simp add: apply_max_rows_wf filter_rows_wf)
  moreover have "rows ds = (let rs = filter (kept s opts) (rows raw) in
      case opt_max_rows opts of Some n \<Rightarrow> if n = 0 then rs else take n rs | None \<Rightarrow> rs)"
    by (simp add: r(3) Let_def split: option.split)
  ultimately show ?thesis using Inr r(1,2) by auto
qed

text \<open>C10: Without a row limit an ordered batch is the concatenation of its files: it succeeds exactly
  when there is a file and every file can be ingested alone with the same options, and its rows
  are theirs in order, so that filtering once is filtering each file.\<close>

theorem ordered_batch_is_concat:
  assumes "opt_max_rows opts = None"
  shows "(\<exists>meta. fst (ingest_from_ordered_paths E paths s opts w) = Ok (ds, meta)) \<longleftrightarrow>
    paths \<noteq> [] \<and> ds_schema ds = s \<and>
    (\<exists>dss. list_all2 (\<lambda>p d. fst (ingest_from_path E p s opts w) = Ok d) paths dss \<and> rows ds = concat (map rows dss))"
    (is "?lhs \<longleftrightarrow> ?rhs")
proof
  assume ?lhs
  then obtain raws where r: "paths \<noteq> []" "validate_watermark_config s opts = Ok ()"
    "list_all2 (\<lambda>p raw. \<exists>fmt. chosen_format p opts = Ok fmt \<and> read_format E fmt p s opts = Ok raw) paths raws"
    "ds = data_set_new s (filter (kept s opts) (concat (map rows raws)))"
    unfolding ordered_batch_rows [OF assms] by blast
  have "list_all2 (\<lambda>p d. fst (ingest_from_path E p s opts w) = Ok d) paths (map (\<lambda>raw. filter_rows raw (kept s opts)) raws)"
    unfolding list_all2_map2 by (rule list_all2_mono [OF r(3)]) (auto simp: ingest_ok_iff r(2) assms)
  with r show ?rhs
    by (auto simp: filter_concat comp_def intro!: exI [of _ "map (\<lambda>raw. filter_rows raw (kept s opts)) raws"])
next
  assume ?rhs
  then obtain dss where d: "paths \<noteq> []" "ds_schema ds = s"
    "list_all2 (\<lambda>p d. fst (ingest_from_path E p s opts w) = Ok d) paths dss" "rows ds = concat (map rows dss)" by blast
  then have v: "validate_watermark_config s opts = Ok ()" by (cases paths) (auto simp: list_all2_Cons1 ingest_ok_iff)
  obtain raws where raws: "list_all2 (\<lambda>p raw. \<exists>fmt. chosen_format p opts = Ok fmt \<and> read_format E fmt p s opts = Ok raw) paths raws"
    "dss = map (\<lambda>raw. filter_rows raw (kept s opts)) raws"
  proof (rule list_all2_factor [OF d(3), where f = "\<lambda>raw. filter_rows raw (kept s opts)"])
    fix p d assume "fst (ingest_from_path E p s opts w) = Ok d"
    then show "\<exists>raw. (\<exists>fmt. chosen_format p opts = Ok fmt \<and> read_format E fmt p s opts = Ok raw) \<and> d = filter_rows raw (kept s opts)"
      unfolding ingest_ok_iff assms apply_max_rows_None by blast
  qed blast
  have "ds = data_set_new s (filter (kept s opts) (concat (map rows raws)))"
    by (rule data_set_eqI) (simp_all add: d raws filter_concat comp_def)
  with raws(1) d(1) v show ?lhs unfolding ordered_batch_rows [OF assms] by blast
qed

text \<open>C11: A batch that is run again with the cursor it returned as its floor yields no row, when the
  column is not a float column and no row limit is set.\<close>

theorem incremental_rerun:
  assumes "opt_max_rows opts = None" "opt_watermark_column opts = Some c" "index_of s c = Some idx"
    and "ftype (sfields s ! idx) \<noteq> TFloat64"
    and "fst (ingest_from_ordered_paths E paths s opts w) = Ok (ds, meta)" "bm_max_watermark_value meta = Some m"
  shows "\<exists>meta'. fst (ingest_from_ordered_paths E paths s (opts\<lparr>opt_watermark_exclusive_above := Some m\<rparr>) w') =
    Ok (data_set_new s [], meta')"
proof -
  let ?next = "opts\<lparr>opt_watermark_exclusive_above := Some m\<rparr>"
  from assms(5) have "\<exists>meta. fst (ingest_from_ordered_paths E paths s opts w) = Ok (ds, meta)" by blast
  then obtain raws where r: "paths \<noteq> []" "validate_watermark_config s opts = Ok ()"
    "list_all2 (\<lambda>p raw. \<exists>fmt. chosen_format p opts = Ok fmt \<and> read_format E fmt p s opts = Ok raw) paths raws"
    "ds = data_set_new s (filter (kept s opts) (concat (map rows raws)))"
    unfolding ordered_batch_rows [OF assms(1)] by blast
  obtain flr where flr: "opt_watermark_exclusive_above opts = Some flr" "flr \<noteq> Null"
    "has_type flr (ftype (sfields s ! idx))" using r(2) assms(2,3) by (auto simp: validate_Ok_iff)
  have wf: "wf_ds (data_set_new s (concat (map rows raws)))" by (simp add: raws_wf [OF r(3)])
  then have wf': "wf_ds ds" by (auto simp: r(4) wf_ds_def list_all_iff)
  have "max_value_in_column ds s c = Ok (Some m)"
    using batch_cursor [OF assms(1) _ assms(5)] assms(2,6) r by simp
  then have best: "best_from (\<lambda>x b. value_cmp x b = Greater) None
      (filter (\<lambda>v. \<not> max_skip (ftype (sfields s ! idx)) v) (column_cells idx (rows ds))) = Some m"
    using max_value_typed [OF wf', of c idx] assms(3) by (simp add: r(4))
  note max = best_from_max [OF best]
  have mt: "m \<noteq> Null \<and> has_type m (ftype (sfields s ! idx))" and above_m: "above flr m"
    using max wf_cell [OF wf, of c idx] assms(2,3) flr(1)
    by (auto simp: r(4) column_cells_def kept_def max_skip_def)
  have "\<not> kept s ?next row" if "row \<in> set (concat (map rows raws))" for row
  proof
    assume "kept s ?next row"
    then have a: "above m (row ! idx)" using assms(2,3) by (simp add: kept_def)
    then have "above flr (row ! idx)"
      using above_m vals.greater_trans [of "row ! idx" m flr] by (simp add: above_def)
    then have "row \<in> set (rows ds)" using that assms(2,3) flr(1) by (simp add: r(4) kept_def)
    then have "row ! idx \<in> set (column_cells idx (rows ds))" by (auto simp: column_cells_def)
    moreover have "\<not> max_skip (ftype (sfields s ! idx)) (row ! idx)" using a assms(4) by (auto simp: max_skip_def above_def)
    ultimately show False using max a by (auto simp: above_def)
  qed
  then have none: "filter (kept s ?next) (concat (map rows raws)) = []" by (simp add: filter_empty_conv)
  have "validate_watermark_config s ?next = Ok ()" using mt assms(2,3) by (auto simp: validate_Ok_iff)
  moreover have "list_all2 (\<lambda>p raw. \<exists>fmt. chosen_format p ?next = Ok fmt \<and> read_format E fmt p s ?next = Ok raw) paths raws"
    using r(3) by (simp add: chosen_format_def read_format_def cong: ingestion_format.case_cong)
  ultimately show ?thesis
    using ordered_batch_rows [of ?next E paths s w' "data_set_new s []"] assms(1) r(1) none by fastforce
qed

text \<open>A batch drops rows above the floor that single-file ingestion of the same file returns: the row
  limit cuts each file before the batch filter has run.\<close>

theorem batch_limit_before_filter:
  "fst (ingest_from_path ids_env ''ids.csv'' ids_schema ids_options ()) = Ok (data_set_new ids_schema [[Int64 2]]) \<and>
   fst (ingest_from_ordered_paths ids_env [''ids.csv''] ids_schema ids_options ()) =
     Ok (data_set_new ids_schema [], \<lparr>bm_paths = [''ids.csv''], bm_last_path = Some ''ids.csv'', bm_max_watermark_value = None\<rparr>)"
  by code_simp

text \<open>An observer of a batch that succeeds is told of each file once, in order, with the number of
  rows the file gave before the filter of the batch, and of nothing else.\<close>

theorem batch_events:
  assumes "opt_observer opts = Some recorder" "ingest_from_ordered_paths E paths s opts [] = (Ok (ds, meta), evs)"
  shows "\<exists>dss. length dss = length paths \<and> evs = map (\<lambda>(p, d). Succeeded p (row_count d)) (zip paths dss) \<and>
    rows ds = (let rs = filter (kept s opts) (concat (map rows dss)) in
      case opt_max_rows opts of Some n \<Rightarrow> if n = 0 then rs else take n rs | None \<Rightarrow> rs)"
proof -
  let ?opts = "options_without_watermark opts"
  obtain r evs' where each: "ingest_each E s ?opts paths [] = (r, evs')" by force
  have v: "validate_watermark_config s opts = Ok ()" and ne: "paths \<noteq> []"
    using assms(2) by (auto simp: ingest_from_ordered_paths_def split: sum.splits if_splits)
  with assms(2) each have "rbind r (finish_batch s opts paths) = Ok (ds, meta)" "evs' = evs"
    by (auto simp: ingest_from_ordered_paths_def)
  then obtain rs where rs: "r = Ok rs" "finish_batch s opts paths rs = Ok (ds, meta)" by (auto simp: result_simps)
  with each have e: "ingest_each E s ?opts paths [] = (Ok rs, evs)" using \<open>evs' = evs\<close> by simp
  have "list_all (wf_row s) rs"
  proof -
    have "fst (ingest_each E s ?opts paths []) = Ok rs" by (simp add: e)
    then obtain dss where dss: "list_all2 (\<lambda>p d. fst (ingest_from_path E p s ?opts []) = Ok d) paths dss" "rs = concat (map rows dss)"
      unfolding ingest_each_Ok_iff by blast
    have "wf_ds d \<and> ds_schema d = s" if "d \<in> set dss" for d
    proof -
      from that obtain i where "i < length dss" "d = dss ! i" by (auto simp: in_set_conv_nth)
      with dss(1) have "fst (ingest_from_path E (paths ! i) s ?opts []) = Ok d" by (simp add: list_all2_conv_all_nth)
      then show ?thesis by (rule ingest_ok_wf)
    qed
    then show ?thesis by (auto simp: dss(2) list_all_iff dest: wf_ds_row)
  qed
  then have "apply_watermark_after_ingest (data_set_new s rs) s opts = Ok (filter_rows (data_set_new s rs) (kept s opts))"
    by (intro watermark_step) (simp_all add: v list_all_iff)
  with rs(2) have "ds = apply_max_rows (filter_rows (data_set_new s rs) (kept s opts)) (opt_max_rows opts)"
    by (auto simp: finish_batch_def Let_def result_simps)
  moreover obtain dss where "length dss = length paths" "rs = concat (map rows dss)"
    "evs = [] @ map (\<lambda>(p, d). Succeeded p (row_count d)) (zip paths dss)"
    using ingest_each_events [OF _ _ _ e] assms(1) by auto
  ultimately show ?thesis by (intro exI [of _ dss]) (simp add: Let_def split: option.split)
qed

text \<open>The first-sheet selection, the default, reads every sheet of a workbook.\<close>

theorem first_sheet_reads_all:
  assumes "e_excel E p = Inr wb" "wb_sheet_names wb = [a, b]"
    and "ingest_excel_dispatch E p s (Sheet a) = Ok da" "ingest_excel_dispatch E p s (Sheet b) = Ok db"
  shows "ingest_excel_dispatch E p s First = Ok (data_set_new s (rows da @ rows db))"
  using assms by (auto simp: ingest_excel_dispatch_def ingest_excel_from_path_def ingest_excel_workbook_from_path_def
      excel_try_def selected_sheets_def result_simps)

text \<open>Options that fail validation and paths without a known format end the call with an error of
  which the observer is not told.\<close>

theorem early_errors_unobserved:
  assumes "rbind (validate_watermark_config s opts) (\<lambda>_. chosen_format p opts) = Inl e"
  shows "ingest_from_path E p s opts w = (Inl e, w)"
  by (simp add: ingest_from_path_def assms)

subsection \<open>Witnesses\<close>

definition unlimited :: "'w ingestion_options" where
  "unlimited = ids_options\<lparr>opt_max_rows := None\<rparr>"

lemma unlimited_batch:
  "fst (ingest_from_ordered_paths ids_env [''a.csv'', ''b.csv''] ids_schema unlimited ()) =
     Ok (data_set_new ids_schema [[Int64 2], [Int64 3], [Int64 2], [Int64 3]],
       \<lparr>bm_paths = [''a.csv'', ''b.csv''], bm_last_path = Some ''b.csv'', bm_max_watermark_value = Some (Int64 3)\<rparr>)"
  by code_simp

lemma ordered_batch_is_concat_witness:
  "\<exists>dss. list_all2 (\<lambda>p d. fst (ingest_from_path ids_env p ids_schema unlimited ()) = Ok d) [''a.csv'', ''b.csv''] dss \<and>
     concat (map rows dss) = [[Int64 2], [Int64 3], [Int64 2], [Int64 3]]"
proof -
  have "opt_max_rows (unlimited :: unit ingestion_options) = None" by (simp add: unlimited_def)
  from ordered_batch_is_concat [OF this, of ids_env "[''a.csv'', ''b.csv'']" ids_schema "()"
      "data_set_new ids_schema [[Int64 2], [Int64 3], [Int64 2], [Int64 3]]"]
  show ?thesis using unlimited_batch by fastforce
qed

lemma incremental_rerun_witness:
  "\<exists>meta. fst (ingest_from_ordered_paths ids_env [''a.csv'', ''b.csv''] ids_schema
      (unlimited\<lparr>opt_watermark_exclusive_above := Some (Int64 3)\<rparr>) ()) = Ok (data_set_new ids_schema [], meta)"
proof -
  have 1: "opt_max_rows (unlimited :: unit ingestion_options) = None"
    "opt_watermark_column (unlimited :: unit ingestion_options) = Some ''id''"
    by (simp_all add: unlimited_def ids_options_def)
  have 2: "index_of ids_schema ''id'' = Some 0" "ftype (sfields ids_schema ! 0) \<noteq> TFloat64" by code_simp+
  show ?thesis by (rule incremental_rerun [OF 1 2 unlimited_batch]) simp
qed

lemma batch_events_witness:
  "\<exists>dss. length dss = length [''a.csv'', ''b.csv''] \<and> map (\<lambda>(p, d). Succeeded p (row_count d)) (zip [''a.csv'', ''b.csv''] dss) = [Succeeded ''a.csv'' 3, Succeeded ''b.csv'' 3]"
proof -
  have "ingest_from_ordered_paths ids_env [''a.csv'', ''b.csv''] ids_schema (unlimited\<lparr>opt_observer := Some recorder\<rparr>) [] =
     (Ok (data_set_new ids_schema [[Int64 2], [Int64 3], [Int64 2], [Int64 3]],
       \<lparr>bm_paths = [''a.csv'', ''b.csv''], bm_last_path = Some ''b.csv'', bm_max_watermark_value = Some (Int64 3)\<rparr>),
      [Succeeded ''a.csv'' 3, Succeeded ''b.csv'' 3])" by code_simp
  from batch_events [OF _ this]
  have "\<exists>dss. length dss = length [''a.csv'', ''b.csv''] \<and>
      [Succeeded ''a.csv'' 3, Succeeded ''b.csv'' 3] = map (\<lambda>(p, d). Succeeded p (row_count d)) (zip [''a.csv'', ''b.csv''] dss)"
    by fastforce
  then show ?thesis by (elim exE conjE) (rule exI, rule conjI, assumption, rule sym)
qed

definition two_sheets :: workbook where
  "two_sheets = \<lparr>wb_sheet_names = [''x'', ''y''],
     wb_range = (\<lambda>n. if n = ''x'' then Inr [[CString ''id''], [CInt 1]] else Inr [[CString ''id''], [CInt 2]])\<rparr>"

lemma first_sheet_reads_all_witness:
  "ingest_excel_dispatch (ids_env\<lparr>e_excel := \<lambda>_. Inr two_sheets\<rparr>) ''w.xlsx'' ids_schema First =
     Ok (data_set_new ids_schema [[Int64 1], [Int64 2]])"
proof -
  let ?E = "ids_env\<lparr>e_excel := \<lambda>_. Inr two_sheets\<rparr>"
  have 1: "e_excel ?E ''w.xlsx'' = Inr two_sheets" "wb_sheet_names two_sheets = [''x'', ''y'']"
    by (simp_all add: two_sheets_def)
  have 2: "ingest_excel_dispatch ?E ''w.xlsx'' ids_schema (Sheet ''x'') = Ok (data_set_new ids_schema [[Int64 1]])"
    "ingest_excel_dispatch ?E ''w.xlsx'' ids_schema (Sheet ''y'') = Ok (data_set_new ids_schema [[Int64 2]])"
    by code_simp+
  from first_sheet_reads_all [OF 1 2] show ?thesis by simp
qed

lemma early_errors_unobserved_witness:
  "ingest_from_path ids_env ''data.dat'' ids_schema (default_options\<lparr>opt_observer := Some recorder\<rparr>) [] =
     (Err (SchemaMismatch (''cannot infer format from extension '' @ sq ''dat'' @ '' for path (data.dat)'')), [])"
  by (rule early_errors_unobserved) code_simp

end
