(* ===== verification/Remote.thy ===== *)
theory Remote
  imports Effects Unified
begin

text \<open>
  Files from elsewhere: SFTP and FTP (\<open>src/ingestion/file_transfer.rs\<close>), object stores
  (\<open>src/ingestion/object_store.rs\<close>), Delta tables and Snowflake stages (\<open>delta_lake.rs\<close>,
  \<open>snowflake.rs\<close>). A file is downloaded to a temporary path and ingested from there. The world is the
  log of the calls to the network and the file system, and the world of the observers; a record of
  functions of the log answers the calls. \<open>local_files\<close> is what the local files hold after the calls of a
  log; \<open>rm_files\<close> is the environment in which ingestion reads them, so that a download and the
  ingestion of the downloaded file meet in the bytes alone. \<open>parse_url\<close>, \<open>parse_store\<close> and \<open>url_encode\<close> belong to the
  \<open>url\<close> and \<open>object_store\<close> libraries.
\<close>

datatype net_call =
    TcpConnect string
  | SshInit
  | SshHandshake
  | SshPubkey string path "string option"
  | SshPassword string string
  | SftpInit
  | SftpOpen string
  | CopyRemote path
  | FtpConnect string
  | FtpTls string
  | FtpLogin string string
  | FtpCwd string
  | FtpBinary
  | FtpRetr string
  | FtpQuit
  | CreateFile path
  | WriteFile path string
  | ReadFile path
  | RemoveFile path
  | Ingest path
  | HttpGet string
  | HttpBody
  | HttpPost string string
  | StoreGet string
  | StoreBytes
  | StorePut string string

record remote =
  rm_error :: "net_call list \<Rightarrow> net_call \<Rightarrow> err_src option"
  rm_io_error :: "net_call list \<Rightarrow> net_call \<Rightarrow> string option"
  rm_bytes :: "net_call list \<Rightarrow> string"
  rm_status :: "net_call list \<Rightarrow> nat"
  rm_authenticated :: "net_call list \<Rightarrow> bool"
  rm_stamp :: "net_call list \<Rightarrow> nat"
  rm_temp_dir :: path
  rm_vars :: "(string \<times> string) list"
  rm_parse_url :: "string \<Rightarrow> (string, url) res"
  rm_parse_store :: "url \<Rightarrow> (string \<times> string) list \<Rightarrow> (string, string) res"
  rm_url_encode :: "string \<Rightarrow> string"
  rm_files :: "(path \<Rightarrow> string option) \<Rightarrow> env"
  rm_encode :: "frame \<Rightarrow> polars_error + string"

type_synonym ('w, 'a) net = "(net_call list \<times> 'w, ingestion_error, 'a) io"

definition net_call :: "remote \<Rightarrow> net_call \<Rightarrow> string \<Rightarrow> ('w, unit) net" where
  "net_call R c message = (\<lambda>(calls, w).
     ((case rm_error R calls c of None \<Rightarrow> Ok () | Some src \<Rightarrow> Err (EngineErr message src)), (calls @ [c], w)))"

definition io_call :: "remote \<Rightarrow> net_call \<Rightarrow> ('w, unit) net" where
  "io_call R c = (\<lambda>(calls, w).
     ((case rm_io_error R calls c of None \<Rightarrow> Ok () | Some e \<Rightarrow> Err (IoErr e)), (calls @ [c], w)))"

definition ask_log :: "(net_call list \<Rightarrow> 'a) \<Rightarrow> ('w, 'a) net" where
  "ask_log f = (\<lambda>(calls, w). (Ok (f calls), (calls, w)))"

text \<open>
  The local files that the calls of a log, the latest first, have left: a created file is empty, a
  written one holds the bytes, a copied one the bytes the copy has read.
\<close>

fun files_after :: "remote \<Rightarrow> net_call list \<Rightarrow> path \<Rightarrow> string option" where
  "files_after R [] = Map.empty"
| "files_after R (c # cs) =
     (case c of
        CreateFile p \<Rightarrow> (files_after R cs)(p \<mapsto> [])
      | WriteFile p bytes \<Rightarrow> (files_after R cs)(p \<mapsto> bytes)
      | CopyRemote p \<Rightarrow> (files_after R cs)(p \<mapsto> rm_bytes R (rev (c # cs)))
      | RemoveFile p \<Rightarrow> (files_after R cs)(p := None)
      | _ \<Rightarrow> files_after R cs)"

definition local_files :: "remote \<Rightarrow> net_call list \<Rightarrow> path \<Rightarrow> string option" where
  "local_files R calls = files_after R (rev calls)"

definition env_var :: "remote \<Rightarrow> string \<Rightarrow> string option" where
  "env_var R k = map_of (rm_vars R) k"

definition non_empty :: "string option \<Rightarrow> string option" where
  "non_empty v = (case v of Some s \<Rightarrow> if s = [] then None else Some s | None \<Rightarrow> None)"

definition path_join :: "path \<Rightarrow> string \<Rightarrow> path" where
  "path_join dir name = (if dir \<noteq> [] \<and> last dir \<noteq> CHR ''/'' then dir @ ''/'' @ name else dir @ name)"

subsection \<open>File transfer\<close>

definition file_transfer_scheme :: "string \<Rightarrow> string option" where
  "file_transfer_scheme uri =
     (let lower = to_ascii_lowercase uri in
      if starts_with ''sftp://'' lower then Some ''sftp''
      else if starts_with ''ftps://'' lower then Some ''ftps''
      else if starts_with ''ftp://'' lower then Some ''ftp''
      else None)"

definition is_file_transfer_uri :: "string \<Rightarrow> bool" where
  "is_file_transfer_uri uri \<longleftrightarrow> file_transfer_scheme uri \<noteq> None"

definition temp_download_path :: "remote \<Rightarrow> string \<Rightarrow> string \<Rightarrow> ('w, path) net" where
  "temp_download_path R stem sfx = ask_log (\<lambda>calls. path_join (rm_temp_dir R) (stem @ show_nat (rm_stamp R calls) @ sfx))"

definition format_of_extension :: "string \<Rightarrow> ingestion_format option" where
  "format_of_extension ext =
     (let e = to_ascii_lowercase ext in
      if e = ''csv'' then Some Csv
      else if e = ''json'' \<or> e = ''ndjson'' then Some Json
      else if e = ''parquet'' then Some Parquet
      else if e = ''xml'' then Some Xml
      else None)"

definition infer_format_from_remote_path :: "string \<Rightarrow> 'w ingestion_options \<Rightarrow> ingestion_format result" where
  "infer_format_from_remote_path remote_path opts =
     (case opt_format opts of
        Some f \<Rightarrow> Ok f
      | None \<Rightarrow> ok_or (SchemaMismatch (''cannot infer ingest format from remote path '' @ backtick remote_path @ ''; set sources.options.format''))
          (format_of_extension (extension_or_empty remote_path)))"

record transfer_auth =
  ta_username :: string
  ta_password :: "string option"
  ta_private_key_path :: "path option"

definition env_password :: "remote \<Rightarrow> string \<Rightarrow> string option" where
  "env_password R scheme =
     (if scheme = ''sftp'' then non_empty (env_var R ''SFTP_PASSWORD'')
      else if scheme = ''ftp'' \<or> scheme = ''ftps'' then non_empty (env_var R ''FTP_PASSWORD'')
      else None)"

definition env_username :: "remote \<Rightarrow> string \<Rightarrow> string option" where
  "env_username R scheme =
     (if scheme = ''sftp'' then non_empty (env_var R ''SFTP_USER'')
      else if scheme = ''ftp'' \<or> scheme = ''ftps'' then non_empty (env_var R ''FTP_USER'')
      else None)"

definition resolve_auth :: "remote \<Rightarrow> string \<Rightarrow> url \<Rightarrow> transfer_auth result" where
  "resolve_auth R scheme u =
     rmap (\<lambda>username.
         \<lparr>ta_username = username,
          ta_password = (case env_password R scheme of Some p \<Rightarrow> Some p | None \<Rightarrow> u_password u),
          ta_private_key_path = (if scheme = ''sftp'' then non_empty (env_var R ''SFTP_PRIVATE_KEY_PATH'') else None)\<rparr>)
       (if u_username u = []
        then ok_or (SchemaMismatch (scheme @ '' URI must include a username or set '' @
               (if scheme = ''sftp'' then ''SFTP_USER'' else ''FTP_USER'') @ '' env var'')) (env_username R scheme)
        else Ok (u_username u))"

definition parse_file_transfer_url :: "remote \<Rightarrow> string \<Rightarrow> (string \<times> nat \<times> string \<times> transfer_auth) result" where
  "parse_file_transfer_url R uri =
     rbind (map_err (\<lambda>e. SchemaMismatch (''invalid file-transfer URI '' @ backtick uri @ '': '' @ e)) (rm_parse_url R uri)) (\<lambda>u.
     let scheme = u_scheme u in
     if scheme \<notin> {''sftp'', ''ftp'', ''ftps''}
     then Err (SchemaMismatch (''unsupported file-transfer scheme '' @ backtick scheme @ '' in '' @ backtick uri))
     else
       rbind (ok_or (SchemaMismatch (''file-transfer URI missing host: '' @ backtick uri)) (u_host u)) (\<lambda>host.
       let port = (case u_port u of Some p \<Rightarrow> p
             | None \<Rightarrow> if scheme = ''sftp'' then 22 else if scheme = ''ftp'' then 21 else if scheme = ''ftps'' then 990 else 0) in
       if u_path u = [] \<or> u_path u = ''/''
       then Err (SchemaMismatch (''file-transfer URI must include a remote file path: '' @ backtick uri))
       else rmap (\<lambda>auth. (host, port, u_path u, auth)) (resolve_auth R scheme u)))"

definition addr_of :: "string \<Rightarrow> nat \<Rightarrow> string" where
  "addr_of host port = host @ '':'' @ show_nat port"

definition password_or_empty :: "transfer_auth \<Rightarrow> string" where
  "password_or_empty auth = (case ta_password auth of Some p \<Rightarrow> p | None \<Rightarrow> [])"

definition download_sftp :: "remote \<Rightarrow> string \<Rightarrow> nat \<Rightarrow> string \<Rightarrow> transfer_auth \<Rightarrow> path \<Rightarrow> ('w, unit) net" where
  "download_sftp R host port remote_path auth local_path =
     (let addr = addr_of host port; user = ta_username auth in
      io_bind (net_call R (TcpConnect addr) (''sftp connect '' @ backtick addr)) (\<lambda>_.
      io_bind (net_call R SshInit ''sftp session init'') (\<lambda>_.
      io_bind (net_call R SshHandshake (''sftp handshake '' @ backtick addr)) (\<lambda>_.
      io_bind (case ta_private_key_path auth of
          Some key_path \<Rightarrow> net_call R (SshPubkey user key_path (ta_password auth)) (''sftp pubkey auth user '' @ backtick user)
        | None \<Rightarrow> net_call R (SshPassword user (password_or_empty auth)) (''sftp password auth user '' @ backtick user)) (\<lambda>_.
      io_bind (ask_log (rm_authenticated R)) (\<lambda>authenticated.
      if \<not> authenticated
      then io_fail (SchemaMismatch (''sftp authentication failed for user '' @ backtick user @ '' (set SFTP_PASSWORD or SFTP_PRIVATE_KEY_PATH)''))
      else
        io_bind (net_call R SftpInit ''sftp subsystem'') (\<lambda>_.
        io_bind (net_call R (SftpOpen remote_path) (''sftp open '' @ backtick remote_path)) (\<lambda>_.
        io_bind (io_call R (CreateFile local_path)) (\<lambda>_.
        net_call R (CopyRemote local_path) (''sftp read '' @ backtick remote_path))))))))))"

definition split_remote_dir_file :: "string \<Rightarrow> string \<times> string" where
  "split_remote_dir_file remote_path =
     (let p = trim_start_matches (CHR ''/'') remote_path in
      case rsplit_once (CHR ''/'') p of
        Some (dir, file) \<Rightarrow> (dir, file)
      | None \<Rightarrow> ([], p))"

definition reject_ftp_control_crlf :: "string \<Rightarrow> string \<Rightarrow> string \<Rightarrow> string \<Rightarrow> unit result" where
  "reject_ftp_control_crlf user password dir file =
     (case find (\<lambda>(_, v). contains_char (CHR 0x0D) v \<or> contains_char (CHR 0x0A) v)
             [(''user'', user), (''password'', password), (''path'', dir), (''file name'', file)] of
        Some (label, _) \<Rightarrow> Err (SchemaMismatch (''ftp '' @ label @ '' must not contain CR or LF''))
      | None \<Rightarrow> Ok ())"

text \<open>Login, change of directory, binary mode, retrieval; the reply to \<open>QUIT\<close> is ignored.\<close>

definition ftp_fetch :: "remote \<Rightarrow> string \<Rightarrow> string \<Rightarrow> string \<Rightarrow> string \<Rightarrow> string \<Rightarrow> ('w, string) net" where
  "ftp_fetch R what user password dir file =
     io_bind (net_call R (FtpLogin user password) (''ftp login user '' @ backtick user)) (\<lambda>_.
     io_bind (io_when (dir \<noteq> []) (net_call R (FtpCwd dir) (''ftp cwd '' @ backtick dir))) (\<lambda>_.
     io_bind (net_call R FtpBinary (what @ '' binary mode'')) (\<lambda>_.
     io_bind (net_call R (FtpRetr file) (what @ '' retr '' @ backtick file)) (\<lambda>_.
     io_bind (ask_log (rm_bytes R)) (\<lambda>bytes.
     io_bind (io_ignore (net_call R FtpQuit [])) (\<lambda>_. io_ok bytes))))))"

definition download_ftp_plain :: "remote \<Rightarrow> string \<Rightarrow> string \<Rightarrow> string \<Rightarrow> string \<Rightarrow> string \<Rightarrow> ('w, string) net" where
  "download_ftp_plain R addr user password dir file =
     io_bind (io_of (reject_ftp_control_crlf user password dir file)) (\<lambda>_.
     io_bind (net_call R (FtpConnect addr) (''ftp connect '' @ backtick addr)) (\<lambda>_.
     ftp_fetch R ''ftp'' user password dir file))"

definition download_ftp_tls :: "remote \<Rightarrow> string \<Rightarrow> string \<Rightarrow> string \<Rightarrow> string \<Rightarrow> string \<Rightarrow> string \<Rightarrow> ('w, string) net" where
  "download_ftp_tls R addr host user password dir file =
     io_bind (io_of (reject_ftp_control_crlf user password dir file)) (\<lambda>_.
     io_bind (net_call R (FtpConnect addr) (''ftps connect '' @ backtick addr)) (\<lambda>_.
     io_bind (net_call R (FtpTls host) (''ftps tls handshake '' @ backtick host)) (\<lambda>_.
     ftp_fetch R ''ftps'' user password dir file)))"

definition download_ftp :: "remote \<Rightarrow> string \<Rightarrow> nat \<Rightarrow> string \<Rightarrow> transfer_auth \<Rightarrow> path \<Rightarrow> bool \<Rightarrow> ('w, unit) net" where
  "download_ftp R host port remote_path auth local_path use_tls =
     (let addr = addr_of host port; password = password_or_empty auth; (dir, file) = split_remote_dir_file remote_path in
      if file = [] then io_fail (SchemaMismatch (''ftp remote path must name a file: '' @ backtick remote_path))
      else
        io_bind (if use_tls then download_ftp_tls R addr host (ta_username auth) password dir file
                 else download_ftp_plain R addr (ta_username auth) password dir file) (\<lambda>bytes.
        io_bind (io_call R (CreateFile local_path)) (\<lambda>_.
        io_call R (WriteFile local_path bytes))))"

text \<open>Suffix of the temporary file.\<close>

definition suffix_of :: "string \<Rightarrow> ingestion_format \<Rightarrow> string result" where
  "suffix_of what fmt =
     (case fmt of Csv \<Rightarrow> Ok ''.csv'' | Json \<Rightarrow> Ok ''.json'' | Parquet \<Rightarrow> Ok ''.parquet'' | Xml \<Rightarrow> Ok ''.xml''
      | Excel \<Rightarrow> Err (SchemaMismatch (''excel ingest from '' @ what @ '' not supported'')))"

text \<open>Ingestion of the downloaded file, as the file system holds it by then, and its removal.\<close>

definition ingest_local :: "remote \<Rightarrow> path \<Rightarrow> schema \<Rightarrow> 'w ingestion_options \<Rightarrow> ('w, data_set) net" where
  "ingest_local R local_path s opts = (\<lambda>(calls, w).
     (case ingest_from_path (rm_files R (local_files R calls)) local_path s opts w of (res, w') \<Rightarrow> (res, (calls @ [Ingest local_path], w'))))"

definition ingest_downloaded :: "remote \<Rightarrow> path \<Rightarrow> ingestion_format \<Rightarrow> schema \<Rightarrow> 'w ingestion_options \<Rightarrow> ('w, data_set) net" where
  "ingest_downloaded R local_path fmt s opts =
     io_bind (ingest_local R local_path s (opts\<lparr>opt_format := Some fmt\<rparr>)) (\<lambda>ds.
     io_bind (io_ignore (io_call R (RemoveFile local_path))) (\<lambda>_. io_ok ds))"

definition download :: "remote \<Rightarrow> string \<Rightarrow> string \<Rightarrow> nat \<Rightarrow> string \<Rightarrow> transfer_auth \<Rightarrow> path \<Rightarrow> ('w, unit) net" where
  "download R scheme host port remote_path auth local_path =
     (if scheme = ''sftp'' then download_sftp R host port remote_path auth local_path
      else if scheme = ''ftp'' then download_ftp R host port remote_path auth local_path False
      else if scheme = ''ftps'' then download_ftp R host port remote_path auth local_path True
      else io_of (Panics ''internal error: entered unreachable code''))"

definition ingest_from_file_transfer_uri :: "remote \<Rightarrow> string \<Rightarrow> schema \<Rightarrow> 'w ingestion_options \<Rightarrow> ('w, data_set) net" where
  "ingest_from_file_transfer_uri R uri s opts =
     io_bind (io_of (ok_or (SchemaMismatch (''not a file-transfer URI (expected sftp://, ftp://, or ftps://): '' @ backtick uri))
                (file_transfer_scheme uri))) (\<lambda>scheme.
     io_bind (io_of (parse_file_transfer_url R uri)) (\<lambda>(host, port, remote_path, auth).
     io_bind (io_of (infer_format_from_remote_path remote_path opts)) (\<lambda>fmt.
     io_bind (io_of (suffix_of ''file-transfer URIs is'' fmt)) (\<lambda>sfx.
     io_bind (temp_download_path R ''rdp_ft_dl_'' sfx) (\<lambda>local_path.
     io_bind (download R scheme host port remote_path auth local_path) (\<lambda>_.
     ingest_downloaded R local_path fmt s opts))))))"

subsection \<open>Object stores\<close>

definition azure_emulator :: "remote \<Rightarrow> bool" where
  "azure_emulator R =
     (case env_var R ''AZURE_ENDPOINT'' of
        Some e \<Rightarrow> sublist ''127.0.0.1'' e \<or> sublist ''localhost'' e
      | None \<Rightarrow> False)"

definition gcs_emulator_base_url :: "remote \<Rightarrow> string option" where
  "gcs_emulator_base_url R =
     (case env_var R ''gcs_base_url'' of Some u \<Rightarrow> Some u | None \<Rightarrow> env_var R ''STORAGE_EMULATOR_HOST'')"

definition passed_on :: "remote \<Rightarrow> string \<Rightarrow> bool" where
  "passed_on R k \<longleftrightarrow>
     (if starts_with ''AWS_'' k then True
      else if starts_with ''AZURE_'' k
      then \<not> (azure_emulator R \<and> (k = ''AZURE_STORAGE_CONNECTION_STRING'' \<or> k = ''AZURE_STORAGE_ACCOUNT_KEY''))
      else k = ''google_base_url'')"

definition object_store_url_options :: "remote \<Rightarrow> (string \<times> string) list" where
  "object_store_url_options R =
     filter (\<lambda>(k, _). passed_on R k) (rm_vars R) @
     (case gcs_emulator_base_url R of
        Some u \<Rightarrow> [(''google_base_url'', u), (''google_skip_signature'', ''true'')] | None \<Rightarrow> []) @
     (if azure_emulator R
      then [(''azure_storage_use_emulator'', ''true''), (''azure_storage_account_name'', ''devstoreaccount1'')] else [])"

definition parse_gs_uri :: "remote \<Rightarrow> string \<Rightarrow> (string \<times> string) option" where
  "parse_gs_uri R uri =
     (case rm_parse_url R uri of
        Inl _ \<Rightarrow> None
      | Inr u \<Rightarrow>
          if u_scheme u \<noteq> ''gs'' \<and> u_scheme u \<noteq> ''gcs'' then None
          else (case u_host u of
            None \<Rightarrow> None
          | Some bucket \<Rightarrow>
              (let object = trim_start_matches (CHR ''/'') (u_path u) in
               if bucket = [] \<or> object = [] then None else Some (bucket, object))))"

definition gs_name :: "string \<Rightarrow> string \<Rightarrow> string" where
  "gs_name bucket object = ''gs://'' @ bucket @ ''/'' @ object"

definition http_status :: "nat \<Rightarrow> string" where
  "http_status n = ''HTTP '' @ show_nat n"

definition gcs_emulator_get_bytes :: "remote \<Rightarrow> string \<Rightarrow> string \<Rightarrow> string \<Rightarrow> ('w, string) net" where
  "gcs_emulator_get_bytes R base bucket object =
     (let url = trim_end_matches (CHR ''/'') base @ ''/storage/v1/b/'' @ rm_url_encode R bucket @ ''/o/'' @
            rm_url_encode R object @ ''?alt=media'';
          name = gs_name bucket object in
      io_bind (net_call R (HttpGet url) (''gcs emulator get '' @ name)) (\<lambda>_.
      io_bind (ask_log (rm_status R)) (\<lambda>status.
      if status \<noteq> 200
      then io_fail (EngineErr (''gcs emulator get '' @ name @ '': '' @ http_status status) (SrcIo (http_status status)))
      else
        io_bind (net_call R HttpBody (''gcs emulator read body '' @ name)) (\<lambda>_. ask_log (rm_bytes R)))))"

definition gcs_emulator_put_bytes :: "remote \<Rightarrow> string \<Rightarrow> string \<Rightarrow> string \<Rightarrow> string \<Rightarrow> ('w, unit) net" where
  "gcs_emulator_put_bytes R base bucket object body =
     (let url = trim_end_matches (CHR ''/'') base @ ''/upload/storage/v1/b/'' @ rm_url_encode R bucket @
            ''/o?uploadType=media&name='' @ rm_url_encode R object;
          name = gs_name bucket object in
      io_bind (net_call R (HttpPost url body) (''gcs emulator put '' @ name)) (\<lambda>_.
      io_bind (ask_log (rm_status R)) (\<lambda>status.
      if \<not> (200 \<le> status \<and> status < 300)
      then io_fail (EngineErr (''gcs emulator put '' @ name @ '': '' @ http_status status) (SrcIo (http_status status)))
      else io_ok ())))"

definition resolve_object_store_uri :: "remote \<Rightarrow> string \<Rightarrow> string result" where
  "resolve_object_store_uri R uri =
     (let invalid = (\<lambda>e. SchemaMismatch (''invalid object-store URI '' @ backtick uri @ '': '' @ e)) in
      rbind (map_err invalid (rm_parse_url R uri)) (\<lambda>u.
      map_err invalid (rm_parse_store R u (object_store_url_options R))))"

definition infer_format_from_object_path :: "string \<Rightarrow> 'w ingestion_options \<Rightarrow> ingestion_format result" where
  "infer_format_from_object_path object_path opts =
     (case opt_format opts of
        Some f \<Rightarrow> Ok f
      | None \<Rightarrow> ok_or (SchemaMismatch (''cannot infer ingest format from object path '' @ backtick object_path @ ''; set sources.options.format''))
          (format_of_extension (extension_or_empty object_path)))"

definition fetch_object :: "remote \<Rightarrow> string \<Rightarrow> string \<Rightarrow> ('w, string) net" where
  "fetch_object R uri object_path =
     (case (gcs_emulator_base_url R, parse_gs_uri R uri) of
        (Some base, Some (bucket, object)) \<Rightarrow> gcs_emulator_get_bytes R base bucket object
      | _ \<Rightarrow>
          io_bind (net_call R (StoreGet object_path) (''object store get '' @ backtick uri)) (\<lambda>_.
          io_bind (net_call R StoreBytes (''object store read bytes '' @ backtick uri)) (\<lambda>_. ask_log (rm_bytes R))))"

definition ingest_from_object_store_uri :: "remote \<Rightarrow> string \<Rightarrow> schema \<Rightarrow> 'w ingestion_options \<Rightarrow> ('w, data_set) net" where
  "ingest_from_object_store_uri R uri s opts =
     io_bind (io_of (resolve_object_store_uri R uri)) (\<lambda>object_path.
     io_bind (io_of (infer_format_from_object_path object_path opts)) (\<lambda>fmt.
     io_bind (io_of (suffix_of ''object store is'' fmt)) (\<lambda>sfx.
     io_bind (temp_download_path R ''rdp_os_dl_'' sfx) (\<lambda>local_path.
     io_bind (fetch_object R uri object_path) (\<lambda>bytes.
     io_bind (io_call R (WriteFile local_path bytes)) (\<lambda>_.
     ingest_downloaded R local_path fmt s opts))))))"

text \<open>The export writes a Parquet file, reads it back, removes it and stores its bytes.\<close>

definition export_local :: "remote \<Rightarrow> path \<Rightarrow> data_set \<Rightarrow> ('w, unit) net" where
  "export_local R local_path ds = (\<lambda>(calls, w).
     (let P = e_polars (rm_files R (local_files R calls)) in
      case export_dataset_to_parquet P (\<lambda>p. rm_io_error R calls (CreateFile p)) (rm_encode R) local_path ds of
        Inl e \<Rightarrow> (Inl e, (calls @ (if is_ok (dataset_to_dataframe P ds) then [CreateFile local_path] else []), w))
      | Inr bytes \<Rightarrow> (Ok (), (calls @ [CreateFile local_path, WriteFile local_path bytes], w))))"

definition export_dataset_to_object_store_uri :: "remote \<Rightarrow> string \<Rightarrow> data_set \<Rightarrow> ('w, unit) net" where
  "export_dataset_to_object_store_uri R uri ds =
     io_bind (io_of (resolve_object_store_uri R uri)) (\<lambda>object_path.
     io_bind (temp_download_path R ''rdp_os_dl_'' ''.parquet'') (\<lambda>local_path.
     io_bind (export_local R local_path ds) (\<lambda>_.
     io_bind (io_call R (ReadFile local_path)) (\<lambda>_.
     io_bind (ask_log (rm_bytes R)) (\<lambda>bytes.
     io_bind (io_ignore (io_call R (RemoveFile local_path))) (\<lambda>_.
     case (gcs_emulator_base_url R, parse_gs_uri R uri) of
       (Some base, Some (bucket, object)) \<Rightarrow> gcs_emulator_put_bytes R base bucket object bytes
     | _ \<Rightarrow> net_call R (StorePut object_path bytes) (''object store put '' @ backtick uri)))))))"

subsection \<open>Delta tables and Snowflake stages\<close>

definition replace_char :: "char \<Rightarrow> char \<Rightarrow> string \<Rightarrow> string" where
  "replace_char a b s = map (\<lambda>c. if c = a then b else c) s"

definition delta_table_uri :: "string \<Rightarrow> string option \<Rightarrow> string \<Rightarrow> string" where
  "delta_table_uri warehouse namespace table =
     (let base = trim_end_matches (CHR ''/'') warehouse; table_path = trim_start_matches (CHR ''/'') table in
      case non_empty namespace of
        Some ns \<Rightarrow> base @ ''/'' @ replace_char (CHR ''.'') (CHR ''/'') ns @ ''/'' @ table_path @ ''/''
      | None \<Rightarrow> base @ ''/'' @ table_path @ ''/'')"

definition parquet_part_uri :: "string \<Rightarrow> string" where
  "parquet_part_uri table_uri =
     (if table_uri \<noteq> [] \<and> last table_uri = CHR ''/'' then table_uri @ ''part-rdp-000.parquet'' else table_uri @ ''/part-rdp-000.parquet'')"

definition write_dataset_to_delta_table :: "remote \<Rightarrow> string \<Rightarrow> data_set \<Rightarrow> ('w, nat) net" where
  "write_dataset_to_delta_table R table_uri ds =
     io_bind (export_dataset_to_object_store_uri R (parquet_part_uri table_uri) ds) (\<lambda>_. io_ok (row_count ds))"

definition write_dataset_to_snowflake_stage :: "remote \<Rightarrow> string \<Rightarrow> data_set \<Rightarrow> ('w, nat) net" where
  "write_dataset_to_snowflake_stage R stage_uri ds =
     io_bind (export_dataset_to_object_store_uri R stage_uri ds) (\<lambda>_. io_ok (row_count ds))"

definition copy_into_table_from_stage :: "remote \<Rightarrow> unit result" where
  "copy_into_table_from_stage R =
     (if env_var R ''SNOWFLAKE_USER'' \<noteq> None \<and> env_var R ''SNOWFLAKE_PASSWORD'' \<noteq> None
      then Err (SchemaMismatch ''SNOWFLAKE_USER/PASSWORD are set but in-tree COPY INTO is not linked yet; run COPY FROM the staged Parquet in Snowflake SQL or add snowflake driver in a future release'')
      else Err (SchemaMismatch ''COPY INTO skipped: set SNOWFLAKE_USER and SNOWFLAKE_PASSWORD to enable (driver not linked in this build)''))"

subsection \<open>What the calls keep\<close>

text \<open>Downloads and uploads only add calls and leave the observers' world alone.\<close>

definition only_calls :: "net_call list \<times> 'w \<Rightarrow> net_call list \<times> 'w \<Rightarrow> bool" where
  "only_calls u v \<longleftrightarrow> prefix (fst u) (fst v) \<and> snd u = snd v"

interpretation quiet: io_step only_calls
  by unfold_locales (auto simp: only_calls_def)

definition clean :: "string \<Rightarrow> bool" where
  "clean s \<longleftrightarrow> CHR 0x0D \<notin> set s \<and> CHR 0x0A \<notin> set s"

text \<open>No argument of a command on the FTP control channel breaks a line.\<close>

definition safe_call :: "net_call \<Rightarrow> bool" where
  "safe_call c = (case c of FtpLogin u p \<Rightarrow> clean u \<and> clean p | FtpCwd d \<Rightarrow> clean d | FtpRetr f \<Rightarrow> clean f | _ \<Rightarrow> True)"

definition stays_safe :: "net_call list \<times> 'w \<Rightarrow> net_call list \<times> 'w \<Rightarrow> bool" where
  "stays_safe u v \<longleftrightarrow> (list_all safe_call (fst u) \<longrightarrow> list_all safe_call (fst v))"

interpretation control: io_step stays_safe
  by unfold_locales (auto simp: stays_safe_def)

lemma quiet_call: "quiet.keeps (net_call R c m)" "quiet.keeps (io_call R c)" "quiet.keeps (ask_log f)"
  by (auto simp: quiet.keeps_def net_call_def io_call_def ask_log_def only_calls_def)

lemma control_call: "safe_call c \<Longrightarrow> control.keeps (net_call R c m)" "safe_call c \<Longrightarrow> control.keeps (io_call R c)" "control.keeps (ask_log f)"
  by (auto simp: control.keeps_def net_call_def io_call_def ask_log_def stays_safe_def)

lemmas quiet_intros = quiet_call quiet.keeps_intros

lemma quiet_ftp_fetch: "quiet.keeps (ftp_fetch R what user password dir file)"
  unfolding ftp_fetch_def by (intro quiet_intros)

lemma quiet_download_ftp: "quiet.keeps (download_ftp R host port remote_path auth local_path use_tls)"
  by (auto simp: download_ftp_def download_ftp_tls_def download_ftp_plain_def Let_def split: prod.split
      intro!: quiet_intros quiet_ftp_fetch)

lemma quiet_download_sftp: "quiet.keeps (download_sftp R host port remote_path auth local_path)"
  by (auto simp: download_sftp_def Let_def split: option.split intro!: quiet_intros)

lemma quiet_download: "quiet.keeps (download R scheme host port remote_path auth local_path)"
  by (simp add: download_def quiet_download_sftp quiet_download_ftp quiet.keeps_of)

lemma reject_ok: "reject_ftp_control_crlf user password dir file = Ok () \<longleftrightarrow> clean user \<and> clean password \<and> clean dir \<and> clean file"
  by (auto simp: reject_ftp_control_crlf_def contains_char_def clean_def)

lemma control_ftp_fetch:
  assumes "reject_ftp_control_crlf user password dir file = Ok ()"
  shows "control.keeps (ftp_fetch R what user password dir file)"
  unfolding ftp_fetch_def using assms
  by (intro control.keeps_intros control_call) (auto simp: reject_ok safe_call_def)

lemma control_checked:
  assumes "\<And>u. reject_ftp_control_crlf user password dir file = Ok () \<Longrightarrow> control.keeps (n u)"
  shows "control.keeps (io_bind (io_of (reject_ftp_control_crlf user password dir file)) n)"
  using assms by (cases "reject_ftp_control_crlf user password dir file") (auto intro: control.keeps_of)

lemma control_download_ftp: "control.keeps (download_ftp R host port remote_path auth local_path use_tls)"
proof -
  have "control.keeps (download_ftp_plain R addr user password dir f)" for addr user password dir f
    unfolding download_ftp_plain_def
    by (intro control_checked control.keeps_intros control_call control_ftp_fetch) (auto simp: safe_call_def)
  moreover have "control.keeps (download_ftp_tls R addr host user password dir f)" for addr user password dir f
    unfolding download_ftp_tls_def
    by (intro control_checked control.keeps_intros control_call control_ftp_fetch) (auto simp: safe_call_def)
  ultimately show ?thesis
    by (auto simp: download_ftp_def Let_def safe_call_def split: prod.split intro!: control.keeps_intros control_call)
qed

lemma control_download_sftp: "control.keeps (download_sftp R host port remote_path auth local_path)"
  by (auto simp: download_sftp_def Let_def safe_call_def split: option.split intro!: control.keeps_intros control_call)

lemma control_download: "control.keeps (download R scheme host port remote_path auth local_path)"
  by (simp add: download_def control_download_sftp control_download_ftp control.keeps_of)

lemma control_ingest: "control.keeps (ingest_downloaded R local_path fmt s opts)"
proof -
  have "control.keeps (ingest_local R local_path s opts')" for opts' :: "'w ingestion_options"
    by (auto simp: control.keeps_def ingest_local_def stays_safe_def safe_call_def split: prod.split)
  then show ?thesis unfolding ingest_downloaded_def
    by (intro control.keeps_intros control_call) (simp_all add: safe_call_def)
qed

text \<open>An ingestion sends nothing away, and the local files it touches lie in the temporary directory.\<close>

definition in_temp :: "path \<Rightarrow> net_call \<Rightarrow> bool" where
  "in_temp dir c =
     (case c of
        CreateFile p \<Rightarrow> prefix (path_join dir []) p
      | WriteFile p _ \<Rightarrow> prefix (path_join dir []) p
      | CopyRemote p \<Rightarrow> prefix (path_join dir []) p
      | RemoveFile p \<Rightarrow> prefix (path_join dir []) p
      | HttpPost _ _ \<Rightarrow> False
      | StorePut _ _ \<Rightarrow> False
      | _ \<Rightarrow> True)"

definition only_downloads :: "path \<Rightarrow> net_call list \<times> 'w \<Rightarrow> net_call list \<times> 'w \<Rightarrow> bool" where
  "only_downloads dir u v \<longleftrightarrow> (\<exists>cs. fst v = fst u @ cs \<and> list_all (in_temp dir) cs)"

interpretation downloads: io_step "only_downloads dir" for dir
proof
  show "only_downloads dir u w" if "only_downloads dir u v" "only_downloads dir v w" for u v w
    using that by (auto simp: only_downloads_def)
qed (simp add: only_downloads_def)

lemma downloads_call:
  "in_temp dir c \<Longrightarrow> downloads.keeps dir (net_call R c m)" "in_temp dir c \<Longrightarrow> downloads.keeps dir (io_call R c)"
  "downloads.keeps dir (ask_log f)"
  by (auto simp: downloads.keeps_def net_call_def io_call_def ask_log_def only_downloads_def)

lemmas downloads_intros = downloads.keeps_intros downloads_call

lemma downloads_ftp:
  assumes "prefix (path_join dir []) local_path"
  shows "downloads.keeps dir (download_ftp R host port remote_path auth local_path use_tls)"
  using assms
  by (auto simp: download_ftp_def download_ftp_tls_def download_ftp_plain_def ftp_fetch_def in_temp_def Let_def split: prod.split
      intro!: downloads_intros)

lemma downloads_sftp:
  assumes "prefix (path_join dir []) local_path"
  shows "downloads.keeps dir (download_sftp R host port remote_path auth local_path)"
  using assms by (auto simp: download_sftp_def in_temp_def Let_def split: option.split intro!: downloads_intros)

lemma downloads_ingest:
  assumes "prefix (path_join dir []) local_path"
  shows "downloads.keeps dir (ingest_downloaded R local_path fmt s opts)"
proof -
  have "downloads.keeps dir (ingest_local R local_path s opts')" for opts' :: "'w ingestion_options"
    by (auto simp: downloads.keeps_def ingest_local_def only_downloads_def in_temp_def split: prod.split)
  then show ?thesis using assms unfolding ingest_downloaded_def
    by (intro downloads_intros) (simp_all add: in_temp_def)
qed

lemma temp_path_bind:
  assumes "\<And>local_path. prefix (path_join (rm_temp_dir R) []) local_path \<Longrightarrow> downloads.keeps dir (f local_path)"
  shows "downloads.keeps dir (io_bind (temp_download_path R stem sfx) f)"
proof (rule downloads.keepsI)
  fix u :: "net_call list \<times> 'a"
  let ?p = "path_join (rm_temp_dir R) (stem @ show_nat (rm_stamp R (fst u)) @ sfx)"
  have "prefix (path_join (rm_temp_dir R) []) ?p" by (simp add: path_join_def)
  from downloads.keepsD [OF assms [OF this]]
  show "only_downloads dir u (snd (io_bind (temp_download_path R stem sfx) f u))"
    by (cases u) (simp add: temp_download_path_def ask_log_def io_bind_def)
qed

lemma downloads_file_transfer: "downloads.keeps (rm_temp_dir R) (ingest_from_file_transfer_uri R uri s opts)"
  unfolding ingest_from_file_transfer_uri_def download_def
  by (auto split: prod.split intro!: downloads_intros temp_path_bind downloads_ftp downloads_sftp downloads_ingest)

lemma downloads_object_store: "downloads.keeps (rm_temp_dir R) (ingest_from_object_store_uri R uri s opts)"
  unfolding ingest_from_object_store_uri_def
  by (auto simp: fetch_object_def gcs_emulator_get_bytes_def in_temp_def Let_def split: prod.split option.split
      intro!: downloads_intros temp_path_bind downloads_ingest)

subsection \<open>Properties\<close>

text \<open>C25: Whatever the URI, the credentials and the environment hold, no command an ingestion sends on an FTP
  control channel contains a carriage return or line feed, so no further command can be smuggled in.\<close>

theorem ftp_control_safe:
  "list_all safe_call (fst (snd (ingest_from_file_transfer_uri R uri s opts ([], w))))"
proof -
  have "control.keeps (ingest_from_file_transfer_uri R uri s opts)"
    unfolding ingest_from_file_transfer_uri_def
    by (auto simp: temp_download_path_def split: prod.split
        intro!: control.keeps_intros control_call control_download control_ingest)
  then have "stays_safe ([], w) (snd (ingest_from_file_transfer_uri R uri s opts ([], w)))"
    by (rule control.keepsD)
  then show ?thesis by (simp add: stays_safe_def)
qed

lemma ask_log_Inr: "ask_log f u = (Inr x, v) \<longleftrightarrow> x = f (fst u) \<and> v = u"
  by (auto simp: ask_log_def split: prod.splits)

lemma ingest_downloaded_ok:
  assumes "ingest_downloaded R local_path fmt s opts (calls, w) = (Inr ds, (calls', w'))"
  shows "ingest_from_path (rm_files R (local_files R calls)) local_path s (opts\<lparr>opt_format := Some fmt\<rparr>) w = (Ok ds, w') \<and>
    calls' = calls @ [Ingest local_path, RemoveFile local_path]"
  using assms
  by (auto simp: ingest_downloaded_def io_bind_ok ingest_local_def io_ignore_def io_call_def split: prod.splits)

text \<open>When the downloaded file cannot be ingested it stays in the temporary directory.\<close>

lemma temp_file_left:
  assumes "ingest_downloaded R local_path fmt s opts (calls, w) = (Inl e, (calls', w'))"
  shows "calls' = calls @ [Ingest local_path]"
  using assms
  by (auto simp: ingest_downloaded_def io_bind_fails ingest_local_def io_ignore_def split: prod.splits)

lemma io_bind_temp: "io_bind (temp_download_path R stem sfx) f u = f (path_join (rm_temp_dir R) (stem @ show_nat (rm_stamp R (fst u)) @ sfx)) u"
  by (cases u) (simp add: temp_download_path_def ask_log_def io_bind_def)

text \<open>
  Where the bytes of a downloaded file come from: \<open>calls\<close> have been made before, \<open>until\<close> are the calls up
  to and including the one that fetches, \<open>got\<close> those up to the ingestion. An SFTP copy of the file opened under the path of the
  URI; an FTP retrieval from the directory of that path in binary mode; the body of a successful
  request to the emulator; the object at the path of the URI.
\<close>

definition remote_path_of :: "remote \<Rightarrow> string \<Rightarrow> string option" where
  "remote_path_of R uri = (case parse_file_transfer_url R uri of Inr (host, port, remote_path, auth) \<Rightarrow> Some remote_path | _ \<Rightarrow> None)"

definition fetched :: "remote \<Rightarrow> string \<Rightarrow> path \<Rightarrow> net_call list \<Rightarrow> net_call list \<Rightarrow> net_call list \<Rightarrow> bool" where
  "fetched R uri local_path calls until got \<longleftrightarrow>
     (\<exists>remote_path before. remote_path_of R uri = Some remote_path \<and>
        (until = calls @ before @ [SftpOpen remote_path, CreateFile local_path, CopyRemote local_path] \<and> got = until \<or>
         (case split_remote_dir_file remote_path of (dir, file) \<Rightarrow>
            until = calls @ before @ (if dir = [] then [] else [FtpCwd dir]) @ [FtpBinary, FtpRetr file] \<and>
            got = until @ [FtpQuit, CreateFile local_path, WriteFile local_path (rm_bytes R until)]))) \<or>
     (\<exists>bucket object url before. parse_gs_uri R uri = Some (bucket, object) \<and>
        url = trim_end_matches (CHR ''/'') (the (gcs_emulator_base_url R)) @ ''/storage/v1/b/'' @ rm_url_encode R bucket @ ''/o/'' @
          rm_url_encode R object @ ''?alt=media'' \<and>
        until = calls @ before @ [HttpGet url, HttpBody] \<and> rm_status R (calls @ before @ [HttpGet url]) = 200 \<and>
        got = until @ [WriteFile local_path (rm_bytes R until)]) \<or>
     (\<exists>object_path before. resolve_object_store_uri R uri = Ok object_path \<and>
        until = calls @ before @ [StoreGet object_path, StoreBytes] \<and> got = until @ [WriteFile local_path (rm_bytes R until)])"

lemma fetched_content: "fetched R uri local_path calls until got \<Longrightarrow> local_files R got local_path = Some (rm_bytes R until)"
  by (auto simp: fetched_def local_files_def)

lemma net_call_Inr: "net_call R c m (calls, w) = (Inr u, v) \<longleftrightarrow> rm_error R calls c = None \<and> v = (calls @ [c], w)"
  by (auto simp: net_call_def split: option.split)

lemma io_call_Inr: "io_call R c (calls, w) = (Inr u, v) \<longleftrightarrow> rm_io_error R calls c = None \<and> v = (calls @ [c], w)"
  by (auto simp: io_call_def split: option.split)

lemmas call_Inr = net_call_Inr io_call_Inr

lemma ftp_fetch_log:
  assumes "ftp_fetch R what user password dir file (calls, w) = (Inr bytes, v)"
    and "until = calls @ [FtpLogin user password] @ (if dir = [] then [] else [FtpCwd dir]) @ [FtpBinary, FtpRetr file]"
  shows "v = (until @ [FtpQuit], w) \<and> bytes = rm_bytes R until"
  using assms
  by (cases "dir = []")
     (auto simp: ftp_fetch_def io_bind_ok call_Inr ask_log_Inr io_ignore_def net_call_def [of R FtpQuit] split: prod.splits)

lemma download_ftp_log:
  assumes "download_ftp R host port remote_path auth local_path use_tls (calls, w) = (Inr u, v)"
  shows "\<exists>until before. (case split_remote_dir_file remote_path of (dir, name) \<Rightarrow>
      until = calls @ before @ (if dir = [] then [] else [FtpCwd dir]) @ [FtpBinary, FtpRetr name]) \<and>
    v = (until @ [FtpQuit, CreateFile local_path, WriteFile local_path (rm_bytes R until)], w)"
proof -
  obtain dir name where path: "split_remote_dir_file remote_path = (dir, name)" by fastforce
  obtain bytes before what user password x where
    "ftp_fetch R what user password dir name (calls @ before, w) = (Inr bytes, x)"
    and rest: "io_bind (io_call R (CreateFile local_path)) (\<lambda>_. io_call R (WriteFile local_path bytes)) x = (Inr u, v)"
    using assms
    by (auto simp: download_ftp_def download_ftp_tls_def download_ftp_plain_def path io_bind_ok call_Inr Let_def split: if_splits)
  define until where "until = (calls @ before) @ [FtpLogin user password] @ (if dir = [] then [] else [FtpCwd dir]) @ [FtpBinary, FtpRetr name]"
  have x: "x = (until @ [FtpQuit], w)" "bytes = rm_bytes R until"
    using ftp_fetch_log [OF \<open>ftp_fetch R what user password dir name (calls @ before, w) = (Inr bytes, x)\<close> until_def] by simp_all
  from rest have "v = (until @ [FtpQuit, CreateFile local_path, WriteFile local_path (rm_bytes R until)], w)"
    by (auto simp: x io_bind_ok call_Inr)
  with path show ?thesis by (intro exI [of _ until] exI [of _ "before @ [FtpLogin user password]"]) (simp add: until_def)
qed

lemma download_sftp_log:
  assumes "download_sftp R host port remote_path auth local_path (calls, w) = (Inr u, v)"
  shows "\<exists>before. v = (calls @ before @ [SftpOpen remote_path, CreateFile local_path, CopyRemote local_path], w)"
  using assms
  by (auto simp: download_sftp_def Let_def io_bind_ok call_Inr ask_log_Inr split: option.splits if_splits)

lemma file_transfer_steps:
  assumes "ingest_from_file_transfer_uri R uri s opts (calls, w) = (Inr ds, v)"
  shows "\<exists>until got local_path fmt. fetched R uri local_path calls until got \<and> fmt \<noteq> Excel \<and>
    (opt_format opts = None \<or> opt_format opts = Some fmt) \<and> ingest_downloaded R local_path fmt s opts (got, w) = (Inr ds, v)"
proof -
  obtain scheme host port remote_path auth fmt sfx local_path where
    url: "parse_file_transfer_url R uri = Ok (host, port, remote_path, auth)"
    and fmt: "infer_format_from_remote_path remote_path opts = Ok fmt" "suffix_of ''file-transfer URIs is'' fmt = Ok sfx"
    and all: "io_bind (download R scheme host port remote_path auth local_path) (\<lambda>_. ingest_downloaded R local_path fmt s opts) (calls, w) = (Inr ds, v)"
    using assms unfolding ingest_from_file_transfer_uri_def
    by (simp only: io_bind_of_ok io_bind_temp split_paired_Ex prod.case) blast
  from all obtain u x where "download R scheme host port remote_path auth local_path (calls, w) = (Inr u, x)"
    "ingest_downloaded R local_path fmt s opts x = (Inr ds, v)"
    by (rule io_bindE)
  then obtain got w' where get: "download R scheme host port remote_path auth local_path (calls, w) = (Inr u, (got, w'))"
    and run: "ingest_downloaded R local_path fmt s opts (got, w') = (Inr ds, v)"
    by (cases x) simp
  have path: "remote_path_of R uri = Some remote_path" by (simp add: remote_path_of_def url)
  have "w' = w \<and> (\<exists>until. fetched R uri local_path calls until got)"
  proof (cases "scheme = ''sftp''")
    case True
    with get have "download_sftp R host port remote_path auth local_path (calls, w) = (Inr u, (got, w'))" by (simp add: download_def)
    from download_sftp_log [OF this] obtain before where
      "got = calls @ before @ [SftpOpen remote_path, CreateFile local_path, CopyRemote local_path]" "w' = w" by blast
    with path show ?thesis unfolding fetched_def by blast
  next
    case False
    with get have "download_ftp R host port remote_path auth local_path (scheme = ''ftps'') (calls, w) = (Inr u, (got, w'))"
      by (simp add: download_def split: if_splits)
    from download_ftp_log [OF this] obtain until before where
      until: "case split_remote_dir_file remote_path of (dir, file) \<Rightarrow>
        until = calls @ before @ (if dir = [] then [] else [FtpCwd dir]) @ [FtpBinary, FtpRetr file]"
      "got = until @ [FtpQuit, CreateFile local_path, WriteFile local_path (rm_bytes R until)]" "w' = w"
      by (elim exE conjE Pair_inject) (rule that)
    have "fetched R uri local_path calls until got" unfolding fetched_def
      by (rule disjI1, rule exI [of _ remote_path], rule exI [of _ before], rule conjI [OF path], rule disjI2)
        (use until(1,2) in \<open>simp split: prod.splits\<close>)
    then show ?thesis using until(3) by blast
  qed
  moreover have "fmt \<noteq> Excel" "opt_format opts = None \<or> opt_format opts = Some fmt"
    using fmt by (auto simp: suffix_of_def infer_format_from_remote_path_def split: option.splits)
  ultimately show ?thesis using run by blast
qed

lemma fetch_object_log:
  assumes "fetch_object R uri object_path (calls, w) = (Inr bytes, v)" "resolve_object_store_uri R uri = Ok object_path"
  shows "\<exists>until. fetched R uri local_path calls until (until @ [WriteFile local_path (rm_bytes R until)]) \<and>
    v = (until, w) \<and> bytes = rm_bytes R until"
proof (cases "gcs_emulator_base_url R = None \<or> parse_gs_uri R uri = None")
  case True
  then have "io_bind (net_call R (StoreGet object_path) (''object store get '' @ backtick uri)) (\<lambda>_.
      io_bind (net_call R StoreBytes (''object store read bytes '' @ backtick uri)) (\<lambda>_. ask_log (rm_bytes R))) (calls, w) = (Inr bytes, v)"
    using assms(1) by (auto simp: fetch_object_def split: option.splits)
  then have "v = (calls @ [StoreGet object_path, StoreBytes], w)" "bytes = rm_bytes R (calls @ [StoreGet object_path, StoreBytes])"
    by (auto simp: io_bind_ok call_Inr ask_log_Inr)
  then show ?thesis using assms(2)
    by (intro exI [of _ "calls @ [StoreGet object_path, StoreBytes]"]) (auto simp: fetched_def)
next
  case False
  then obtain base bucket object where g: "gcs_emulator_base_url R = Some base" "parse_gs_uri R uri = Some (bucket, object)" by auto
  let ?url = "trim_end_matches (CHR ''/'') base @ ''/storage/v1/b/'' @ rm_url_encode R bucket @ ''/o/'' @ rm_url_encode R object @ ''?alt=media''"
  have "gcs_emulator_get_bytes R base bucket object (calls, w) = (Inr bytes, v)" using assms(1) by (simp add: fetch_object_def g)
  then have "v = (calls @ [HttpGet ?url, HttpBody], w)" "bytes = rm_bytes R (calls @ [HttpGet ?url, HttpBody])"
    "rm_status R (calls @ [HttpGet ?url]) = 200"
    by (auto simp: gcs_emulator_get_bytes_def Let_def io_bind_ok call_Inr ask_log_Inr split: if_splits)
  then show ?thesis using g
    by (intro exI [of _ "calls @ [HttpGet ?url, HttpBody]"]) (auto simp: fetched_def)
qed

lemma object_store_steps:
  assumes "ingest_from_object_store_uri R uri s opts (calls, w) = (Inr ds, v)"
  shows "\<exists>until got local_path fmt. fetched R uri local_path calls until got \<and> fmt \<noteq> Excel \<and>
    (opt_format opts = None \<or> opt_format opts = Some fmt) \<and> ingest_downloaded R local_path fmt s opts (got, w) = (Inr ds, v)"
proof -
  obtain object_path fmt sfx local_path where
    path: "resolve_object_store_uri R uri = Ok object_path"
    and fmt: "infer_format_from_object_path object_path opts = Ok fmt" "suffix_of ''object store is'' fmt = Ok sfx"
    and all: "io_bind (fetch_object R uri object_path) (\<lambda>bytes. io_bind (io_call R (WriteFile local_path bytes)) (\<lambda>_.
      ingest_downloaded R local_path fmt s opts)) (calls, w) = (Inr ds, v)"
    using assms unfolding ingest_from_object_store_uri_def
    by (simp only: io_bind_of_ok io_bind_temp) blast
  from all obtain bytes x where get: "fetch_object R uri object_path (calls, w) = (Inr bytes, x)"
    and run: "io_bind (io_call R (WriteFile local_path bytes)) (\<lambda>_. ingest_downloaded R local_path fmt s opts) x = (Inr ds, v)"
    by (rule io_bindE)
  from fetch_object_log [OF get path, of local_path] obtain until where
    until: "fetched R uri local_path calls until (until @ [WriteFile local_path (rm_bytes R until)])"
    and x: "x = (until, w)" "bytes = rm_bytes R until" by blast
  have "ingest_downloaded R local_path fmt s opts (until @ [WriteFile local_path (rm_bytes R until)], w) = (Inr ds, v)"
    using run by (auto simp: x io_bind_ok call_Inr)
  moreover have "fmt \<noteq> Excel" "opt_format opts = None \<or> opt_format opts = Some fmt"
    using fmt by (auto simp: suffix_of_def infer_format_from_object_path_def split: option.splits)
  ultimately show ?thesis using until by blast
qed

lemma remote_run:
  assumes "prog = ingest_from_file_transfer_uri R uri s opts \<or> prog = ingest_from_object_store_uri R uri s opts"
    and "prog (calls, w) = (Inr ds, (calls', w'))"
  shows "\<exists>until got local_path fmt. fetched R uri local_path calls until got \<and> local_files R got local_path = Some (rm_bytes R until) \<and>
    fmt \<noteq> Excel \<and> (opt_format opts = None \<or> opt_format opts = Some fmt) \<and>
    ingest_from_path (rm_files R (local_files R got)) local_path s (opts\<lparr>opt_format := Some fmt\<rparr>) w = (Ok ds, w') \<and>
    calls' = got @ [Ingest local_path, RemoveFile local_path] \<and> wf_ds ds \<and> ds_schema ds = s"
proof -
  obtain until got local_path fmt where f: "fetched R uri local_path calls until got" "fmt \<noteq> Excel"
    "opt_format opts = None \<or> opt_format opts = Some fmt" and d: "ingest_downloaded R local_path fmt s opts (got, w) = (Inr ds, (calls', w'))"
    using assms file_transfer_steps [of R uri s opts calls w ds] object_store_steps [of R uri s opts calls w ds] by blast
  note ok = ingest_downloaded_ok [OF d]
  have "wf_ds ds" "ds_schema ds = s"
    using ingest_ok_wf [of "rm_files R (local_files R got)" local_path s "opts\<lparr>opt_format := Some fmt\<rparr>" w ds] ok by simp_all
  with f fetched_content [OF f(1)] ok show ?thesis by blast
qed


text \<open>An export that succeeds has written the dataset as Parquet to a temporary file, read it back, removed
  it, and sent exactly these bytes: to the emulator when one is set and the URI names a bucket and
  an object, to the store otherwise.\<close>

theorem export_sends_file:
  assumes "export_dataset_to_object_store_uri R uri ds (calls, w) = (Inr (), (calls', w'))"
  shows "\<exists>object_path local_path written sent. resolve_object_store_uri R uri = Ok object_path \<and>
    sent = rm_bytes R (calls @ [CreateFile local_path, WriteFile local_path written, ReadFile local_path]) \<and>
    (let before = calls @ [CreateFile local_path, WriteFile local_path written, ReadFile local_path, RemoveFile local_path] in
      if gcs_emulator_base_url R \<noteq> None \<and> parse_gs_uri R uri \<noteq> None
      then (\<exists>url. calls' = before @ [HttpPost url sent] \<and> 200 \<le> rm_status R calls' \<and> rm_status R calls' < 300)
      else calls' = before @ [StorePut object_path sent]) \<and> w' = w"
proof -
  define put where "put object_path bytes = (case (gcs_emulator_base_url R, parse_gs_uri R uri) of
       (Some base, Some (bucket, object)) \<Rightarrow> gcs_emulator_put_bytes R base bucket object bytes
     | _ \<Rightarrow> (net_call R (StorePut object_path bytes) (''object store put '' @ backtick uri) :: ('a, unit) net))" for object_path bytes
  have run: "export_dataset_to_object_store_uri R uri ds =
     io_bind (io_of (resolve_object_store_uri R uri)) (\<lambda>object_path.
     io_bind (temp_download_path R ''rdp_os_dl_'' ''.parquet'') (\<lambda>local_path.
     io_bind (export_local R local_path ds) (\<lambda>_.
     io_bind (io_call R (ReadFile local_path)) (\<lambda>_.
     io_bind (ask_log (rm_bytes R)) (\<lambda>bytes.
     io_bind (io_ignore (io_call R (RemoveFile local_path))) (\<lambda>_. put object_path bytes))))))"
    by (simp add: export_dataset_to_object_store_uri_def put_def)
  have put_ok: "if gcs_emulator_base_url R \<noteq> None \<and> parse_gs_uri R uri \<noteq> None
      then (\<exists>url. v = (c @ [HttpPost url bytes], w) \<and> 200 \<le> rm_status R (fst v) \<and> rm_status R (fst v) < 300)
      else v = (c @ [StorePut object_path bytes], w)"
    if "put object_path bytes (c, w) = (Inr (), v)" for object_path bytes c v
    using that by (auto simp: put_def gcs_emulator_put_bytes_def Let_def io_bind_ok net_call_def ask_log_Inr
        split: option.splits prod.splits if_splits)
  obtain object_path local_path mid where
    "resolve_object_store_uri R uri = Ok object_path" and ex: "export_local R local_path ds (calls, w) = (Inr (), mid)"
    and rest: "io_bind (io_call R (ReadFile local_path)) (\<lambda>_. io_bind (ask_log (rm_bytes R)) (\<lambda>bytes.
       io_bind (io_ignore (io_call R (RemoveFile local_path))) (\<lambda>_. put object_path bytes))) mid = (Inr (), (calls', w'))"
    using assms unfolding run by (simp only: io_bind_of_ok io_bind_temp) (auto elim!: io_bindE [of "export_local R _ ds"])
  obtain written where mid: "mid = (calls @ [CreateFile local_path, WriteFile local_path written], w)"
    using ex by (auto simp: export_local_def Let_def split: sum.splits)
  have "put object_path (rm_bytes R (calls @ [CreateFile local_path, WriteFile local_path written, ReadFile local_path]))
      (calls @ [CreateFile local_path, WriteFile local_path written, ReadFile local_path, RemoveFile local_path], w) = (Inr (), (calls', w'))"
    using rest by (auto simp: mid io_bind_ok io_call_def io_ignore_def ask_log_Inr)
  from put_ok [OF this] have "if gcs_emulator_base_url R \<noteq> None \<and> parse_gs_uri R uri \<noteq> None
      then (\<exists>url. calls' = (calls @ [CreateFile local_path, WriteFile local_path written, ReadFile local_path, RemoveFile local_path]) @
        [HttpPost url (rm_bytes R (calls @ [CreateFile local_path, WriteFile local_path written, ReadFile local_path]))]
        \<and> 200 \<le> rm_status R calls' \<and> rm_status R calls' < 300)
      else calls' = (calls @ [CreateFile local_path, WriteFile local_path written, ReadFile local_path, RemoveFile local_path]) @
        [StorePut object_path (rm_bytes R (calls @ [CreateFile local_path, WriteFile local_path written, ReadFile local_path]))]" "w' = w"
    by (simp_all only: fst_conv prod.inject split: if_splits) blast+
  then show ?thesis using \<open>resolve_object_store_uri R uri = Ok object_path\<close> unfolding Let_def
    by - (rule exI [of _ object_path], rule exI [of _ local_path], rule exI [of _ written], rule exI, intro conjI, assumption, rule refl, assumption+)
qed

text \<open>Slashes at the end of the warehouse and at the start of the table make no difference to the table URI.\<close>

lemma delta_uri_normal:
  "delta_table_uri (warehouse @ ''/'') ns table = delta_table_uri warehouse ns table"
  "delta_table_uri warehouse ns (''/'' @ table) = delta_table_uri warehouse ns table"
  "parquet_part_uri (delta_table_uri warehouse ns table) = delta_table_uri warehouse ns table @ ''part-rdp-000.parquet''"
  by (simp_all add: delta_table_uri_def trim_end_matches_def trim_start_matches_def parquet_part_uri_def Let_def split: option.split)

text \<open>A password in the environment wins over the one in the URI; keys are for SFTP only.\<close>

lemma resolve_auth_precedence:
  assumes "resolve_auth R scheme u = Ok auth"
  shows "ta_password auth = (if env_password R scheme \<noteq> None then env_password R scheme else u_password u)"
    "scheme \<noteq> ''sftp'' \<Longrightarrow> ta_private_key_path auth = None"
    "u_username u \<noteq> [] \<Longrightarrow> ta_username auth = u_username u"
  using assms by (auto simp: resolve_auth_def rmap_Inr_iff split: option.splits if_splits)

subsection \<open>Witnesses\<close>

definition quiet_remote :: remote where
  "quiet_remote = \<lparr>rm_error = (\<lambda>_ _. None), rm_io_error = (\<lambda>_ _. None), rm_bytes = (\<lambda>_. ''id''), rm_status = (\<lambda>_. 200),
     rm_authenticated = (\<lambda>_. True), rm_stamp = (\<lambda>calls. length calls), rm_temp_dir = ''/tmp'', rm_vars = [(''FTP_USER'', ''etl'')],
     rm_parse_url = (\<lambda>_. Ok \<lparr>u_scheme = ''ftp'', u_host = Some ''h'', u_port = None, u_username = [], u_password = None, u_path = ''/in/a.csv'', u_query = []\<rparr>),
     rm_parse_store = (\<lambda>_ _. Ok ''in/a.csv''), rm_url_encode = (\<lambda>s. s), rm_files = (\<lambda>_. ids_env), rm_encode = (\<lambda>_. Inr ''PAR1'')\<rparr>"


lemma export_sends_file_witness:
  "\<exists>calls' local_path written. export_dataset_to_object_store_uri quiet_remote ''s3://b/in/a.csv'' (data_set_new ids_schema [[Int64 1]]) ([], ()) = (Inr (), (calls', ())) \<and>
    calls' = [CreateFile local_path, WriteFile local_path written, ReadFile local_path, RemoveFile local_path, StorePut ''in/a.csv'' ''id'']"
proof -
  let ?prog = "export_dataset_to_object_store_uri quiet_remote ''s3://b/in/a.csv'' (data_set_new ids_schema [[Int64 1]])"
  have "is_ok (fst (?prog ([], ())))" by code_simp
  then obtain calls' where run: "?prog ([], ()) = (Inr (), (calls', ()))"
    by (cases "?prog ([], ())") (auto simp: is_ok_iff)
  have facts: "gcs_emulator_base_url quiet_remote = None" "resolve_object_store_uri quiet_remote ''s3://b/in/a.csv'' = Ok ''in/a.csv''" by code_simp+
  have "rm_bytes quiet_remote c = ''id''" for c by (simp add: quiet_remote_def)
  with export_sends_file [OF run] facts run show ?thesis by (auto simp: Let_def)
qed

end
