(* ===== verification/Jvm_Ingest.thy ===== *)
theory Jvm_Ingest
  imports Remote
begin

text \<open>
  Ingestion over the C interface of the JVM binding (\<open>bindings/jvm-sys/src/ingest_path.rs\<close>,
  \<open>parity_support.rs\<close>): options and schemas as JSON, single paths and ordered batches, and the
  envelope of the answer. A C string is its bytes, or nothing for a null pointer; an answer is the
  document whose text the buffer holds. Datasets, schemas and values are serialised as the derived
  implementations of \<open>src/types.rs\<close> do, with objects in the order of their fields.
\<close>

subsection \<open>Serialised data\<close>

definition json_of_type :: "data_type \<Rightarrow> json" where
  "json_of_type t = JString (case t of TInt64 \<Rightarrow> ''Int64'' | TFloat64 \<Rightarrow> ''Float64'' | TBool \<Rightarrow> ''Bool'' | TUtf8 \<Rightarrow> ''Utf8'')"

definition json_of_field :: "field \<Rightarrow> json" where
  "json_of_field f = JObject [(''name'', JString (fname f)), (''data_type'', json_of_type (ftype f))]"

definition json_of_schema :: "schema \<Rightarrow> json" where
  "json_of_schema s = JObject [(''fields'', JArray (map json_of_field (sfields s)))]"

definition json_of_value :: "value_t \<Rightarrow> json" where
  "json_of_value v =
     (case v of
        Null \<Rightarrow> JString ''Null''
      | Int64 i \<Rightarrow> JObject [(''Int64'', json_of_i64 i)]
      | Float64 x \<Rightarrow> JObject [(''Float64'', json_of_f64 x)]
      | Bool b \<Rightarrow> JObject [(''Bool'', JBool b)]
      | Utf8 s \<Rightarrow> JObject [(''Utf8'', JString s)])"

definition json_of_data_set :: "data_set \<Rightarrow> json" where
  "json_of_data_set ds =
     JObject [(''schema'', json_of_schema (ds_schema ds)), (''rows'', JArray (map (\<lambda>r. JArray (map json_of_value r)) (rows ds)))]"

text \<open>Reading back; a struct may also be given as the list of its fields.\<close>

fun all_some :: "'a option list \<Rightarrow> 'a list option" where
  "all_some [] = Some []"
| "all_some (x # xs) = Option.bind x (\<lambda>y. map_option ((#) y) (all_some xs))"

definition type_of_json :: "json \<Rightarrow> data_type option" where
  "type_of_json j =
     (case (case j of JObject [(k, JNull)] \<Rightarrow> JString k | _ \<Rightarrow> j) of
        JString t \<Rightarrow> map_of [(''Int64'', TInt64), (''Float64'', TFloat64), (''Bool'', TBool), (''Utf8'', TUtf8)] t
      | _ \<Rightarrow> None)"

definition as_str :: "json \<Rightarrow> string option" where
  "as_str j = (case j of JString s \<Rightarrow> Some s | _ \<Rightarrow> None)"

definition as_array :: "json \<Rightarrow> json list option" where
  "as_array j = (case j of JArray xs \<Rightarrow> Some xs | _ \<Rightarrow> None)"

text \<open>The fields of a struct, in the order of their declaration.\<close>

definition struct_fields :: "string list \<Rightarrow> json \<Rightarrow> json list option" where
  "struct_fields names j =
     (case j of
        JObject m \<Rightarrow> all_some (map (map_of m) names)
      | JArray xs \<Rightarrow> if length xs = length names then Some xs else None
      | _ \<Rightarrow> None)"

definition field_of_json :: "json \<Rightarrow> field option" where
  "field_of_json j =
     Option.bind (struct_fields [''name'', ''data_type''] j) (\<lambda>fs.
     Option.bind (as_str (fs ! 0)) (\<lambda>n. map_option (mk_field n) (type_of_json (fs ! 1))))"

definition schema_of_json :: "json \<Rightarrow> schema option" where
  "schema_of_json j =
     Option.bind (struct_fields [''fields''] j) (\<lambda>fs.
     Option.bind (as_array (fs ! 0)) (\<lambda>xs. map_option schema_new (all_some (map field_of_json xs))))"

definition value_of_json :: "json \<Rightarrow> value_t option" where
  "value_of_json j =
     (case j of
        JString k \<Rightarrow> if k = ''Null'' then Some Null else None
      | JObject [(k, x)] \<Rightarrow>
          (if k = ''Null'' then (if x = JNull then Some Null else None)
           else if k = ''Int64'' then map_option Int64 (as_i64 x)
           else if k = ''Float64'' then map_option Float64 (as_f64 x)
           else if k = ''Bool'' then (case x of JBool b \<Rightarrow> Some (Bool b) | _ \<Rightarrow> None)
           else if k = ''Utf8'' then map_option Utf8 (as_str x)
           else None)
      | _ \<Rightarrow> None)"

definition data_set_of_json :: "json \<Rightarrow> data_set option" where
  "data_set_of_json j =
     Option.bind (struct_fields [''schema'', ''rows''] j) (\<lambda>fs.
     Option.bind (schema_of_json (fs ! 0)) (\<lambda>s.
     Option.bind (as_array (fs ! 1)) (\<lambda>rs.
     map_option (data_set_new s)
       (all_some (map (\<lambda>r. Option.bind (as_array r) (\<lambda>vs. all_some (map value_of_json vs))) rs)))))"

subsection \<open>Answers\<close>

definition json_ok :: "json \<Rightarrow> json" where
  "json_ok interchange = JObject
     [(''ok'', JBool True),
      (''interchange'', interchange),
      (''notes'', JObject
        [(''tabular_json'', JString (''Rust DataSet serde '' @ [CHR 0xE2, CHR 0x86, CHR 0x94] @ '' JVM JSONObject / List<Map<String,Object>>'')),
         (''polars_engine'', JString ''Plans execute in Rust; JVM receives JSON snapshots only today.''),
         (''arrow_ipc'', JString ''rdp_export_arrow_ipc_temp writes a temp .arrow IPC file; Spark via rust-data-processing-jvm-spark reads it with Apache Arrow Java then createDataFrame.''),
         (''pytest_mirror'', JString ''Built to mirror python-wrapper/tests/*.py scenarios where feasible.'')])]"

definition json_err :: "string \<Rightarrow> json" where
  "json_err msg = JObject [(''ok'', JBool False), (''error'', JString msg)]"

definition json_str_opt :: "string option \<Rightarrow> json" where
  "json_str_opt x = (case x of Some s \<Rightarrow> JString s | None \<Rightarrow> JNull)"

definition json_err_structured :: "string \<Rightarrow> string \<Rightarrow> string option \<Rightarrow> json" where
  "json_err_structured code message stage = JObject
     [(''ok'', JBool False),
      (''error'', JObject [(''code'', JString code), (''message'', JString message), (''stage'', json_str_opt stage)])]"

definition json_nat :: "nat \<Rightarrow> json" where
  "json_nat n = JNumber (JPosInt n)"

subsection \<open>Options\<close>

text \<open>What the parser of JSON texts yields, the text of a document, and the error texts.\<close>

record json_lib =
  jl_parse :: "string \<Rightarrow> string + json"
  jl_text :: "json \<Rightarrow> string"
  jl_serde_error :: "json \<Rightarrow> string"
  jl_utf8_error :: "string \<Rightarrow> string option"
  jl_show_error :: "ingestion_error \<Rightarrow> string"

definition cstr_to_str :: "json_lib \<Rightarrow> string option \<Rightarrow> string \<Rightarrow> (string, string) res" where
  "cstr_to_str L ptr label =
     (case ptr of
        None \<Rightarrow> Err (label @ '': null pointer'')
      | Some s \<Rightarrow> (case jl_utf8_error L s of Some e \<Rightarrow> Err (label @ '': invalid UTF-8: '' @ e) | None \<Rightarrow> Ok s))"

definition json_scalar_to_value :: "json_lib \<Rightarrow> json \<Rightarrow> (string, value_t) res" where
  "json_scalar_to_value L v =
     (case v of
        JNull \<Rightarrow> Ok Null
      | JBool b \<Rightarrow> Ok (Bool b)
      | JNumber n \<Rightarrow>
          (case as_i64 v of
             Some i \<Rightarrow> Ok (Int64 i)
           | None \<Rightarrow> (case as_f64 v of
               Some f \<Rightarrow> Ok (Float64 f)
             | None \<Rightarrow> Err (''unsupported JSON number for watermark value: '' @ jl_text L v)))
      | JString s \<Rightarrow> Ok (Utf8 s)
      | JObject m \<Rightarrow> ok_or (''watermark_exclusive_above object: '' @ jl_serde_error L v) (value_of_json v)
      | JArray _ \<Rightarrow> Err ''watermark_exclusive_above must be a scalar or serde Value object'')"

definition format_name :: "string \<Rightarrow> ingestion_format option" where
  "format_name fmt =
     (if fmt = ''csv'' then Some Csv
      else if fmt = ''json'' then Some Json
      else if fmt \<in> {''parquet'', ''pq''} then Some Parquet
      else if fmt \<in> {''excel'', ''xlsx'', ''xls'', ''xlsm'', ''xlsb'', ''ods''} then Some Excel
      else if fmt = ''xml'' then Some Xml
      else None)"

definition get_str :: "(string \<times> json) list \<Rightarrow> string \<Rightarrow> string option" where
  "get_str m k = Option.bind (map_of m k) as_str"

definition options_of_object :: "json_lib \<Rightarrow> (string \<times> json) list \<Rightarrow> ingestion_format option \<Rightarrow> (string, 'w ingestion_options) res" where
  "options_of_object L m format_override =
     rbind (case get_str m ''format'' of
         None \<Rightarrow> Ok None
       | Some fmt \<Rightarrow> rmap Some (ok_or (''unknown format: '' @ fmt) (format_name fmt))) (\<lambda>fmt.
     let sheet = (case get_str m ''sheet_name'' of Some s \<Rightarrow> Some s | None \<Rightarrow> get_str m ''excel_sheet'') in
     rmap (\<lambda>w. default_options\<lparr>
           opt_format := (case format_override of Some f \<Rightarrow> Some f | None \<Rightarrow> fmt),
           opt_excel_sheet_selection := (case sheet of Some s \<Rightarrow> Sheet s | None \<Rightarrow> opt_excel_sheet_selection (default_options :: 'w ingestion_options)),
           opt_watermark_column := get_str m ''watermark_column'',
           opt_watermark_exclusive_above := w,
           opt_max_rows := Option.bind (map_of m ''max_rows'') as_u64\<rparr>)
       (case map_of m ''watermark_exclusive_above'' of
          None \<Rightarrow> Ok None
        | Some w \<Rightarrow> rmap Some (json_scalar_to_value L w)))"

definition parse_ingestion_options :: "json_lib \<Rightarrow> string \<Rightarrow> ingestion_format option \<Rightarrow> (string, 'w ingestion_options) res" where
  "parse_ingestion_options L json format_override =
     (if trim json = [] then Err ''options JSON is empty''
      else case jl_parse L json of
        Inl e \<Rightarrow> Err (''options JSON parse: '' @ e)
      | Inr v \<Rightarrow> (case v of
          JObject m \<Rightarrow> options_of_object L m format_override
        | _ \<Rightarrow> Err ''options JSON must be an object''))"

definition parse_schema_json :: "json_lib \<Rightarrow> string \<Rightarrow> (string, schema) res" where
  "parse_schema_json L json =
     (case jl_parse L json of
        Inl e \<Rightarrow> Err (''schema JSON: '' @ e)
      | Inr j \<Rightarrow> ok_or (''schema JSON: '' @ jl_serde_error L j) (schema_of_json j))"

subsection \<open>Single paths\<close>

definition dataset_envelope :: "string \<Rightarrow> data_set \<Rightarrow> json" where
  "dataset_envelope kind ds = json_ok (JObject
     [(''kind'', JString kind), (''engine'', JString ''ingest_from_path''), (''dataset'', json_of_data_set ds)])"

definition ingest_one_path :: "json_lib \<Rightarrow> env \<Rightarrow> path \<Rightarrow> schema \<Rightarrow> 'w ingestion_options \<Rightarrow> string \<Rightarrow> 'w \<Rightarrow> (string, json) res \<times> 'w" where
  "ingest_one_path L E p s opts kind w =
     (case ingest_from_path E p s opts w of
        (Inr ds, w') \<Rightarrow> (Ok (dataset_envelope kind ds), w')
      | (Inl (Failed e), w') \<Rightarrow> (Ok (json_err (jl_show_error L e)), w')
      | (Inl (Panic m), w') \<Rightarrow> (Panics m, w'))"

definition ingest_path_impl ::
  "json_lib \<Rightarrow> env \<Rightarrow> string option \<Rightarrow> string option \<Rightarrow> string option \<Rightarrow> ingestion_format option \<Rightarrow> string \<Rightarrow> 'w \<Rightarrow> (string, json) res \<times> 'w" where
  "ingest_path_impl L E path_ptr schema_json_ptr options_json_ptr format_override kind w =
     (case rbind (cstr_to_str L path_ptr ''path'') (\<lambda>p.
           rbind (cstr_to_str L schema_json_ptr ''schema_json'') (\<lambda>schema_json.
           rbind (cstr_to_str L options_json_ptr ''options_json'') (\<lambda>options_json.
           rbind (parse_schema_json L schema_json) (\<lambda>s.
           rmap (\<lambda>opts. (p, s, opts)) (parse_ingestion_options L options_json format_override))))) of
        Inr (p, s, opts) \<Rightarrow> ingest_one_path L E p s opts kind w
      | Inl (Failed e) \<Rightarrow> (Ok (json_err e), w)
      | Inl (Panic m) \<Rightarrow> (Panics m, w))"

text \<open>The exported functions fix the format.\<close>

definition rdp_ingest_csv_path ::
  "json_lib \<Rightarrow> env \<Rightarrow> string option \<Rightarrow> string option \<Rightarrow> string option \<Rightarrow> 'w \<Rightarrow> (string, json) res \<times> 'w" where
  "rdp_ingest_csv_path L E path_ptr schema_json_ptr options_json_ptr =
     ingest_path_impl L E path_ptr schema_json_ptr options_json_ptr (Some Csv) ''ingest_path_csv''"

definition rdp_ingest_json_path ::
  "json_lib \<Rightarrow> env \<Rightarrow> string option \<Rightarrow> string option \<Rightarrow> string option \<Rightarrow> 'w \<Rightarrow> (string, json) res \<times> 'w" where
  "rdp_ingest_json_path L E path_ptr schema_json_ptr options_json_ptr =
     ingest_path_impl L E path_ptr schema_json_ptr options_json_ptr (Some Json) ''ingest_path_json''"

definition rdp_ingest_parquet_path ::
  "json_lib \<Rightarrow> env \<Rightarrow> string option \<Rightarrow> string option \<Rightarrow> string option \<Rightarrow> 'w \<Rightarrow> (string, json) res \<times> 'w" where
  "rdp_ingest_parquet_path L E path_ptr schema_json_ptr options_json_ptr =
     ingest_path_impl L E path_ptr schema_json_ptr options_json_ptr (Some Parquet) ''ingest_path_parquet''"

definition rdp_ingest_xml_path ::
  "json_lib \<Rightarrow> env \<Rightarrow> string option \<Rightarrow> string option \<Rightarrow> string option \<Rightarrow> 'w \<Rightarrow> (string, json) res \<times> 'w" where
  "rdp_ingest_xml_path L E path_ptr schema_json_ptr options_json_ptr =
     ingest_path_impl L E path_ptr schema_json_ptr options_json_ptr (Some Xml) ''ingest_path_xml''"

subsection \<open>Ordered batches\<close>

record response_spec =
  rs_mode :: string
  rs_max_rows :: "nat option"

record ordered_paths_request =
  or_paths :: "path list"
  or_schema :: schema
  or_options :: json
  or_response :: response_spec

definition DEFAULT_MAX_DATASET_ROWS :: nat where
  "DEFAULT_MAX_DATASET_ROWS = 50000"

text \<open>The answer of mode \<open>dataset\<close>: at most the wanted number of rows, at least one.\<close>

definition row_cap :: "nat option \<Rightarrow> nat" where
  "row_cap wanted = max (case wanted of Some n \<Rightarrow> n | None \<Rightarrow> DEFAULT_MAX_DATASET_ROWS) 1"

definition capped :: "nat \<Rightarrow> data_set \<Rightarrow> data_set" where
  "capped cap ds = (if cap < row_count ds then data_set_new (ds_schema ds) (take cap (rows ds)) else ds)"

definition ordered_batch_json :: "ordered_batch_metadata \<Rightarrow> json" where
  "ordered_batch_json meta = JObject (
     [(''paths'', JArray (map JString (bm_paths meta))), (''last_path'', json_str_opt (bm_last_path meta))] @
     (case bm_max_watermark_value meta of Some v \<Rightarrow> [(''max_watermark_value'', json_of_value v)] | None \<Rightarrow> []))"

definition dataset_answer :: "path list \<Rightarrow> nat option \<Rightarrow> data_set \<Rightarrow> ordered_batch_metadata \<Rightarrow> json" where
  "dataset_answer paths wanted ds meta = JObject
     [(''kind'', JString ''ingest_ordered_paths_dataset''),
      (''engine'', JString ''ingest_from_ordered_paths''),
      (''dataset'', json_of_data_set (capped (row_cap wanted) ds)),
      (''paths'', JArray (map JString paths)),
      (''total_row_count'', json_nat (row_count ds)),
      (''returned_row_count'', json_nat (row_count (capped (row_cap wanted) ds))),
      (''truncated'', JBool (row_cap wanted < row_count ds)),
      (''ordered_batch'', ordered_batch_json meta)]"

text \<open>
  Temporary exports: the directory may be refused, the name carries a time stamp, the file is
  written by the Parquet or the Arrow IPC export. \<open>temp_dir\<close>, \<open>stamp\<close> and the errors come from outside.
\<close>

record temp_files =
  tf_dir :: path
  tf_create_dir :: "path \<Rightarrow> string option"
  tf_stamp :: "string + nat"
  tf_create :: "path \<Rightarrow> string option"
  tf_parquet :: "frame \<Rightarrow> polars_error + string"
  tf_ipc :: "frame \<Rightarrow> polars_error + string"

definition temp_export ::
  "json_lib \<Rightarrow> temp_files \<Rightarrow> string \<Rightarrow> string \<Rightarrow> (path \<Rightarrow> data_set \<Rightarrow> string result) \<Rightarrow> string \<Rightarrow> path list \<Rightarrow> data_set \<Rightarrow> (string, json) res" where
  "temp_export L T dir_name ext export kind paths ds =
     (let base = path_join (tf_dir T) dir_name in
      case tf_create_dir T base of
        Some e \<Rightarrow> Err e
      | None \<Rightarrow> (case tf_stamp T of
          Inl e \<Rightarrow> Err e
        | Inr stamp \<Rightarrow>
            (let p = path_join base (''rdp_ordered_'' @ show_nat stamp @ ext) in
             rbind (case export p ds of
                 Inr bytes \<Rightarrow> Ok bytes | Inl (Failed e) \<Rightarrow> Err (jl_show_error L e) | Inl (Panic m) \<Rightarrow> Panics m) (\<lambda>_.
             Ok (JObject
               [(''kind'', JString kind), (''path'', JString p), (''row_count'', json_nat (row_count ds)),
                (''schema'', json_of_schema (ds_schema ds)), (''paths'', JArray (map JString paths))])))))"

definition ordered_paths_impl ::
  "json_lib \<Rightarrow> temp_files \<Rightarrow> env \<Rightarrow> (string \<Rightarrow> string + ordered_paths_request) \<Rightarrow> string \<Rightarrow> 'w \<Rightarrow> (string, json) res \<times> 'w" where
  "ordered_paths_impl L T E decode payload_json w =
     (case decode payload_json of
        Inl e \<Rightarrow> (Err (''payload JSON: '' @ e), w)
      | Inr req \<Rightarrow>
          if or_paths req = [] then (Err ''paths must be non-empty'', w)
          else
            (let opts_json = (if or_options req = JNull then ''{}'' else jl_text L (or_options req)) in
             case parse_ingestion_options L opts_json None of
               Inl e \<Rightarrow> (Inl e, w)
             | Inr opts \<Rightarrow>
                 (case ingest_from_ordered_paths E (or_paths req) (or_schema req) opts w of
                    (Inl (Failed e), w') \<Rightarrow> (Err (''ingest_from_ordered_paths: '' @ jl_show_error L e), w')
                  | (Inl (Panic m), w') \<Rightarrow> (Panics m, w')
                  | (Inr (ds, meta), w') \<Rightarrow>
                      (let mode = rs_mode (or_response req) in
                       (if mode = ''dataset'' then Ok (dataset_answer (or_paths req) (rs_max_rows (or_response req)) ds meta)
                        else if mode = ''parquet_temp''
                        then temp_export L T ''rdp_jvm_ordered_parquet'' ''.parquet''
                          (export_dataset_to_parquet (e_polars E) (tf_create T) (tf_parquet T)) ''ingest_ordered_paths_parquet_temp'' (or_paths req) ds
                        else if mode = ''arrow_ipc_temp''
                        then temp_export L T ''rdp_jvm_ordered_arrow_ipc'' ''.arrow''
                          (export_dataset_to_arrow_ipc (e_polars E) (tf_create T) (tf_ipc T)) ''ingest_ordered_paths_arrow_ipc_temp'' (or_paths req) ds
                        else Err (''unknown response.mode: '' @ mode), w')))))"

text \<open>The exported function: the answer always is a document, unless the code panics.\<close>

definition rdp_ingest_ordered_paths_json ::
  "json_lib \<Rightarrow> temp_files \<Rightarrow> env \<Rightarrow> (string \<Rightarrow> string + ordered_paths_request) \<Rightarrow> string option \<Rightarrow> 'w \<Rightarrow> (string, json) res \<times> 'w" where
  "rdp_ingest_ordered_paths_json L T E decode payload_json_ptr w =
     (case cstr_to_str L payload_json_ptr ''payload_json'' of
        Inl (Failed e) \<Rightarrow> (Ok (json_err e), w)
      | Inl (Panic m) \<Rightarrow> (Panics m, w)
      | Inr payload \<Rightarrow>
          (case ordered_paths_impl L T E decode payload w of
             (Inr v, w') \<Rightarrow> (Ok (json_ok v), w')
           | (Inl (Failed e), w') \<Rightarrow> (Ok (json_err e), w')
           | (Inl (Panic m), w') \<Rightarrow> (Panics m, w')))"

subsection \<open>Properties\<close>

lemma all_some_map: "(\<And>x. x \<in> set xs \<Longrightarrow> f (g x) = Some x) \<Longrightarrow> all_some (map (\<lambda>x. f (g x)) xs) = Some xs"
  by (induction xs) auto

lemma type_roundtrip [simp]: "type_of_json (json_of_type t) = Some t"
  by (cases t) (simp_all add: type_of_json_def json_of_type_def)

lemma field_roundtrip [simp]: "field_of_json (json_of_field f) = Some f"
  by (cases f) (simp add: field_of_json_def json_of_field_def struct_fields_def as_str_def mk_field_def)

lemma schema_roundtrip [simp]: "schema_of_json (json_of_schema s) = Some s"
  using all_some_map [of "sfields s" field_of_json json_of_field]
  by (cases s) (simp add: schema_of_json_def json_of_schema_def struct_fields_def as_array_def schema_new_def comp_def)

definition finite_value :: "value_t \<Rightarrow> bool" where
  "finite_value v = (case v of Float64 x \<Rightarrow> is_finite x | _ \<Rightarrow> True)"

lemma value_roundtrip: "finite_value v \<Longrightarrow> value_of_json (json_of_value v) = Some v"
  by (cases v) (simp_all add: value_of_json_def json_of_value_def finite_value_def json_of_f64_def as_f64_def as_str_def)

text \<open>A float that is not finite is written as null and refused when read.\<close>

lemma non_finite_refused: "\<not> is_finite x \<Longrightarrow> value_of_json (json_of_value (Float64 x)) = None"
  by (simp add: value_of_json_def json_of_value_def json_of_f64_def as_f64_def)

text \<open>C30: A dataset whose floats are finite survives the crossing to the JVM and back: the document of an
  answer reads back as the same dataset, schema included.\<close>

theorem data_set_json_roundtrip:
  assumes "\<forall>r\<in>set (rows ds). \<forall>v\<in>set r. finite_value v"
  shows "data_set_of_json (json_of_data_set ds) = Some ds"
proof -
  have "all_some (map (\<lambda>v. value_of_json (json_of_value v)) r) = Some r" if "r \<in> set (rows ds)" for r
    using assms that by (intro all_some_map) (simp add: value_roundtrip)
  then have "all_some (map (\<lambda>r. (\<lambda>j. Option.bind (as_array j) (\<lambda>vs. all_some (map value_of_json vs))) (JArray (map json_of_value r))) (rows ds)) = Some (rows ds)"
    by (intro all_some_map) (simp add: as_array_def comp_def)
  then show ?thesis
    by (cases ds) (simp add: data_set_of_json_def json_of_data_set_def struct_fields_def as_array_def data_set_new_def comp_def)
qed

lemma row_cap_eq: "row_cap wanted = max (case wanted of Some n \<Rightarrow> n | None \<Rightarrow> 50000) 1"
  by (cases wanted) (simp_all add: row_cap_def DEFAULT_MAX_DATASET_ROWS_def)

lemma capped_sel [simp]: "ds_schema (capped n ds) = ds_schema ds" "rows (capped n ds) = take n (rows ds)"
  by (simp_all add: capped_def row_count_def)

text \<open>Unless something panics, the exported batch function answers with a document; one that reports
  success in mode \<open>dataset\<close> has ingested the batch under the parsed options and carries its first rows,
  as many as asked for but at least one, together with the total, and says whether rows are left out.\<close>

theorem dataset_mode_answer:
  assumes "decode payload = Inr req" "or_paths req \<noteq> []" "rs_mode (or_response req) = ''dataset''"
    and "jl_utf8_error L payload = None" "jl_parse L (jl_text L (or_options req)) = Inr (or_options req)"
    and "or_options req = JObject m" "trim (jl_text L (or_options req)) \<noteq> []" "options_of_object L m None = Ok opts"
    and "ingest_from_ordered_paths E (or_paths req) (or_schema req) opts w = (Ok (ds, meta), w')"
  shows "\<exists>shown rest. rdp_ingest_ordered_paths_json L T E decode (Some payload) w =
      (Ok (json_ok (JObject ([(''kind'', JString ''ingest_ordered_paths_dataset''), (''engine'', JString ''ingest_from_ordered_paths''),
         (''dataset'', json_of_data_set shown), (''paths'', JArray (map JString (or_paths req))), (''total_row_count'', json_nat (row_count ds)),
         (''returned_row_count'', json_nat (row_count shown)), (''truncated'', JBool (row_count shown < row_count ds))] @ rest))), w') \<and>
    ds_schema shown = ds_schema ds \<and>
    rows shown = take (max (case rs_max_rows (or_response req) of Some n \<Rightarrow> n | None \<Rightarrow> 50000) 1) (rows ds)"
proof -
  let ?cap = "row_cap (rs_max_rows (or_response req))"
  have opts: "parse_ingestion_options L (jl_text L (or_options req)) None = Ok opts"
    using assms(5-8) by (simp add: parse_ingestion_options_def)
  have cut: "?cap < row_count ds \<longleftrightarrow> row_count (capped ?cap ds) < row_count ds"
    by (simp add: row_count_def) linarith
  have "ordered_paths_impl L T E decode payload w = (Ok (dataset_answer (or_paths req) (rs_max_rows (or_response req)) ds meta), w')"
    using assms(1-3,6,9) opts by (simp add: ordered_paths_impl_def)
  then have run: "rdp_ingest_ordered_paths_json L T E decode (Some payload) w =
      (Ok (json_ok (dataset_answer (or_paths req) (rs_max_rows (or_response req)) ds meta)), w')"
    using assms(4) by (simp add: rdp_ingest_ordered_paths_json_def cstr_to_str_def)
  show ?thesis unfolding run dataset_answer_def cut
    by (rule exI [of _ "capped ?cap ds"], rule exI [of _ "[(''ordered_batch'', ordered_batch_json meta)]"])
      (simp add: row_cap_eq)
qed

text \<open>A watermark beyond the 64-bit range is taken as a float, so it does not fit an integer column.\<close>

lemma large_watermark:
  "2 ^ 63 \<le> n \<Longrightarrow> json_scalar_to_value L (JNumber (JPosInt n)) = Ok (Float64 (of_int64 (int n)))"
proof -
  assume "2 ^ 63 \<le> n"
  then have "(2 :: int) ^ 63 \<le> int n" by (metis of_nat_le_iff of_nat_numeral of_nat_power)
  then show ?thesis by (simp add: json_scalar_to_value_def as_i64_def as_f64_def i64_max_def)
qed

subsection \<open>Witnesses\<close>

lemma data_set_json_roundtrip_witness:
  "data_set_of_json (json_of_data_set (data_set_new ids_schema [[Int64 (- 3)], [Null]])) = Some (data_set_new ids_schema [[Int64 (- 3)], [Null]])"
  by (rule data_set_json_roundtrip) (simp add: finite_value_def)

definition no_options :: json_lib where
  "no_options = \<lparr>jl_parse = (\<lambda>_. Inr (JObject [])), jl_text = (\<lambda>_. ''{}''), jl_serde_error = (\<lambda>_. []), jl_utf8_error = (\<lambda>_. None), jl_show_error = (\<lambda>_. [])\<rparr>"

definition two_files :: ordered_paths_request where
  "two_files = \<lparr>or_paths = [''a.csv'', ''b.csv''], or_schema = ids_schema, or_options = JObject [], or_response = \<lparr>rs_mode = ''dataset'', rs_max_rows = Some 4\<rparr>\<rparr>"

lemma dataset_mode_answer_witness:
  "\<exists>T shown fields. rdp_ingest_ordered_paths_json no_options T ids_env (\<lambda>_. Inr two_files) (Some ''p'') () = (Ok (json_ok (JObject fields)), ()) \<and>
    (''dataset'', json_of_data_set shown) \<in> set fields \<and> rows shown = [[Int64 1], [Int64 2], [Int64 3], [Int64 1]]"
proof -
  have opts: "options_of_object no_options [] None = Ok (default_options :: unit ingestion_options)"
    by (simp add: options_of_object_def get_str_def default_options_def)
  have run: "\<exists>meta. ingest_from_ordered_paths ids_env (or_paths two_files) (or_schema two_files) default_options () =
      (Ok (data_set_new ids_schema [[Int64 1], [Int64 2], [Int64 3], [Int64 1], [Int64 2], [Int64 3]], meta), ())"
    by (rule exI [of _ "\<lparr>bm_paths = [''a.csv'', ''b.csv''], bm_last_path = Some ''b.csv'', bm_max_watermark_value = None\<rparr>"]) code_simp
  have simps: "or_paths two_files \<noteq> []" "rs_mode (or_response two_files) = ''dataset''" "rs_max_rows (or_response two_files) = Some 4"
    "jl_utf8_error no_options ''p'' = None" "jl_parse no_options (jl_text no_options (or_options two_files)) = Inr (or_options two_files)"
    "or_options two_files = JObject []" by (simp_all add: two_files_def no_options_def)
  have "trim (jl_text no_options (or_options two_files)) \<noteq> []" by code_simp
  with run dataset_mode_answer [of "\<lambda>_. Inr two_files" "''p''" two_files no_options "[]" "default_options :: unit ingestion_options" ids_env "()"] simps opts
  show ?thesis by fastforce
qed

end
