(* ===== verification/Pipeline_Request.thy ===== *)
theory Pipeline_Request
  imports Jvm_Ingest
begin

text \<open>
  The request of the JVM pipeline runner (\<open>bindings/jvm-sys/src/pipeline_run.rs\<close>): sources, transform,
  sinks and orchestration, the translation of the legacy document, and the checks made before
  anything is read. Deserialising a document into these types is the work of \<open>serde\<close>.
\<close>

subsection \<open>Requests\<close>

record db_read_spec =
  dr_url :: string
  dr_query :: string

record sources_spec =
  so_paths :: "path list"
  so_schema :: schema
  so_options :: json
  so_object_store_uris :: "string list"
  so_file_transfer_uris :: "string list"
  so_db_reads :: "db_read_spec list"

record sql_transform =
  tr_sql :: "string option"

text \<open>Sinks; the last argument is the optional SQL of the sink. Flags: create if missing, truncate.\<close>

datatype sink_spec =
    ParquetFile path "string option"
  | XmlFile path "string option"
  | Postgresql string string bool bool "string option"
  | Oracle string string bool bool "string option"
  | Mssql string string bool bool "string option"
  | DeltaLake "string option" "string option" "string option" string "string option"
  | Iceberg string "string option" "string option" string "string option"
  | Snowflake string "string option" "string option" "string option" string "string option" "string option" "string option"
  | Databricks string "string option" "string option" "string option" string "string option"
  | Spark "string option" "string option" string "string option"
  | ObjectStore string "string option" "string option"

record orchestration_spec =
  oc_timeout_ms :: "nat option"
  oc_max_ingested_rows :: "nat option"
  oc_idempotency_key :: "string option"

record run_pipeline_request =
  rq_version :: nat
  rq_orchestration :: "orchestration_spec option"
  rq_sources :: sources_spec
  rq_transform :: "sql_transform option"
  rq_sinks :: "sink_spec list"

record legacy_spec =
  lg_engine :: "string option"
  lg_json_source_paths :: "path list"
  lg_schema_student_json :: schema
  lg_schema_lake :: "json option"
  lg_schema_postgres :: "json option"
  lg_lake_sink :: json
  lg_relational_sink :: json
  lg_notes :: "string option"

record legacy_lake_sink =
  ll_format :: "string option"
  ll_catalog_uri :: string
  ll_warehouse :: "string option"
  ll_namespace :: "string option"
  ll_table_student_grades :: string

record legacy_relational_sink =
  lr_postgresql_url :: string
  lr_courses_teachers_table :: string

datatype envelope = V1 run_pipeline_request | Legacy legacy_spec

record decoders =
  dc_envelope :: "string \<Rightarrow> string + envelope"
  dc_lake :: "json \<Rightarrow> string + legacy_lake_sink"
  dc_relational :: "json \<Rightarrow> string + legacy_relational_sink"

definition json_opt :: "json option \<Rightarrow> json" where
  "json_opt x = (case x of Some j \<Rightarrow> j | None \<Rightarrow> JNull)"

definition legacy_student_etl_to_v1 :: "decoders \<Rightarrow> legacy_spec \<Rightarrow> (string, run_pipeline_request \<times> json) res" where
  "legacy_student_etl_to_v1 D spec =
     (case dc_lake D (lg_lake_sink spec) of
        Inl e \<Rightarrow> Err (''lake_sink: '' @ e)
      | Inr lake \<Rightarrow> (case dc_relational D (lg_relational_sink spec) of
          Inl e \<Rightarrow> Err (''relational_sink: '' @ e)
        | Inr rel \<Rightarrow> Ok
          (\<lparr>rq_version = 1, rq_orchestration = None,
            rq_sources = \<lparr>so_paths = lg_json_source_paths spec, so_schema = lg_schema_student_json spec,
              so_options = JObject [(''format'', JString ''json'')], so_object_store_uris = [], so_file_transfer_uris = [], so_db_reads = []\<rparr>,
            rq_transform = None,
            rq_sinks =
              [DeltaLake (ll_warehouse lake) (Some (ll_catalog_uri lake)) (ll_namespace lake) (ll_table_student_grades lake) None,
               Iceberg (ll_catalog_uri lake) (ll_warehouse lake) (ll_namespace lake) (ll_table_student_grades lake) None,
               Postgresql (lr_postgresql_url rel) (lr_courses_teachers_table rel) True False None]\<rparr>,
           JObject
             [(''engine'', json_str_opt (lg_engine spec)), (''notes'', json_str_opt (lg_notes spec)),
              (''schema_lake_grade_stats'', json_opt (lg_schema_lake spec)),
              (''schema_postgres_courses_teachers'', json_opt (lg_schema_postgres spec)),
              (''lake_sink_format'', json_str_opt (ll_format lake))])))"

subsection \<open>URIs\<close>

definition delta_lake_warehouse_supports_local_staging :: "string option \<Rightarrow> bool" where
  "delta_lake_warehouse_supports_local_staging warehouse =
     (case warehouse of Some w \<Rightarrow> starts_with ''file://'' (to_ascii_lowercase (trim w)) | None \<Rightarrow> False)"

definition object_store_prefixes :: "string list" where
  "object_store_prefixes = [''s3://'', ''gs://'', ''gcs://'', ''abfs://'', ''abfss://'', ''azure://'', ''az://'', ''file://'', ''https://'', ''http://'']"

definition is_object_store_uri :: "string \<Rightarrow> bool" where
  "is_object_store_uri p = list_ex (\<lambda>s. starts_with s (to_ascii_lowercase p)) object_store_prefixes"

definition object_store_scheme :: "string \<Rightarrow> string" where
  "object_store_scheme p =
     (let lower = to_ascii_lowercase p in
      if starts_with ''s3://'' lower then ''s3''
      else if starts_with ''gs://'' lower \<or> starts_with ''gcs://'' lower then ''gcs''
      else if starts_with ''abfss://'' lower \<or> starts_with ''abfs://'' lower then ''abfs''
      else if starts_with ''azure://'' lower \<or> starts_with ''az://'' lower then ''azure''
      else if starts_with ''file://'' lower then ''file''
      else ''http'')"

definition transfer_scheme :: "string \<Rightarrow> string" where
  "transfer_scheme p = (case file_transfer_scheme p of Some s \<Rightarrow> s | None \<Rightarrow> ''file_transfer'')"

definition object_store_path_error :: "string \<Rightarrow> string option" where
  "object_store_path_error p =
     (if is_object_store_uri p
      then Some (''sources.paths entry '' @ backtick p @ '' uses an object-store or HTTP URI; use local filesystem paths for ingest and declare cloud URIs in sources.object_store_uris'')
      else None)"

definition db_read_url_error :: "string \<Rightarrow> string option" where
  "db_read_url_error url =
     (let lower = to_ascii_lowercase url in
      if starts_with ''jdbc:'' lower
      then Some (''sources.db_reads.url must use ConnectorX form (oracle://, mssql://, postgresql://, mysql://), not '' @ backtick url)
      else if list_ex (\<lambda>s. starts_with s lower) [''postgresql://'', ''oracle://'', ''mssql://'', ''mysql://'']
      then None
      else Some (''sources.db_reads.url '' @ backtick url @ '' has unsupported scheme; expected postgresql://, oracle://, mssql://, or mysql://''))"

subsection \<open>Errors and checks\<close>

record pipeline_err =
  pl_code :: string
  pl_message :: string
  pl_stage :: string

type_synonym 'a pres = "(pipeline_err, 'a) res"

definition structured :: "string \<Rightarrow> string \<Rightarrow> string \<Rightarrow> pipeline_err" where
  "structured code message stage = \<lparr>pl_code = code, pl_message = message, pl_stage = stage\<rparr>"

definition into_slice :: "pipeline_err \<Rightarrow> json" where
  "into_slice e = json_err_structured (pl_code e) (pl_message e) (Some (pl_stage e))"

text \<open>The first element with an error decides.\<close>

fun first_error :: "('a \<Rightarrow> 'e option) \<Rightarrow> 'a list \<Rightarrow> ('e, unit) res" where
  "first_error f [] = Ok ()"
| "first_error f (x # xs) = (case f x of Some e \<Rightarrow> Err e | None \<Rightarrow> first_error f xs)"

definition decode_request :: "decoders \<Rightarrow> string \<Rightarrow> (run_pipeline_request \<times> json option) pres" where
  "decode_request D payload =
     (case dc_envelope D payload of
        Inl e \<Rightarrow> Err (structured ''ORCHESTRATION_JSON_INVALID'' e ''parse'')
      | Inr (V1 r) \<Rightarrow> Ok (r, None)
      | Inr (Legacy l) \<Rightarrow>
          map_err (\<lambda>e. structured ''ORCHESTRATION_VALIDATION'' e ''parse'')
            (rmap (\<lambda>(r, d). (r, Some d)) (legacy_student_etl_to_v1 D l)))"

definition check_version :: "nat \<Rightarrow> unit pres" where
  "check_version v =
     (if v = 0 then Err (structured ''ORCHESTRATION_VALIDATION'' ''pipeline_spec_version must be >= 1'' ''parse'')
      else if 2 < v
      then Err (structured ''ORCHESTRATION_VERSION_UNSUPPORTED'' (''pipeline_spec_version '' @ show_nat v @ '' is not supported (max 2)'') ''parse'')
      else Ok ())"

definition db_read_error :: "db_read_spec \<Rightarrow> pipeline_err option" where
  "db_read_error db =
     (case db_read_url_error (dr_url db) of
        Some e \<Rightarrow> Some (structured ''DB_SOURCE_URL_INVALID'' e ''parse'')
      | None \<Rightarrow>
          if trim (dr_query db) = []
          then Some (structured ''ORCHESTRATION_VALIDATION'' ''sources.db_reads.query must be non-empty'' ''parse'')
          else None)"

definition check_sources :: "sources_spec \<Rightarrow> sink_spec list \<Rightarrow> unit pres" where
  "check_sources s sinks =
     rbind (first_error (\<lambda>u. if is_object_store_uri u then None
         else Some (structured ''ORCHESTRATION_VALIDATION''
           (''sources.object_store_uris entry '' @ backtick u @ '' must be an object-store URI (s3://, gs://, gcs://, abfs://, abfss://, azure://, or https://)'') ''parse''))
       (so_object_store_uris s)) (\<lambda>_.
     rbind (first_error (\<lambda>u. if is_file_transfer_uri u then None
         else Some (structured ''ORCHESTRATION_VALIDATION''
           (''sources.file_transfer_uris entry '' @ backtick u @ '' must be sftp://, ftp://, or ftps://'') ''parse''))
       (so_file_transfer_uris s)) (\<lambda>_.
     rbind (first_error (\<lambda>p. map_option (\<lambda>e. structured ''OBJECT_STORE_SOURCE_NOT_SUPPORTED'' e ''ingest'') (object_store_path_error p))
       (so_paths s)) (\<lambda>_.
     rbind (first_error db_read_error (so_db_reads s)) (\<lambda>_.
     if so_paths s = [] \<and> so_object_store_uris s = [] \<and> so_file_transfer_uris s = [] \<and> so_db_reads s = []
     then Err (structured ''ORCHESTRATION_VALIDATION''
       ''sources must declare at least one of paths, object_store_uris, file_transfer_uris, or db_reads'' ''parse'')
     else if sinks = [] then Err (structured ''ORCHESTRATION_VALIDATION'' ''sinks must be non-empty'' ''parse'')
     else Ok ()))))"

subsection \<open>What the checks admit\<close>

lemma first_error_ok: "first_error f xs = Ok () \<longleftrightarrow> (\<forall>x\<in>set xs. f x = None)"
  by (induction xs) (auto split: option.splits)

lemma first_error_not_panic: "first_error f xs \<noteq> Panics m"
  by (induction xs) (auto split: option.splits)

text \<open>A request passes exactly when every source is of its kind, some source and some sink is declared.\<close>

lemma check_sources_ok:
  "check_sources s sinks = Ok () \<longleftrightarrow>
     list_all is_object_store_uri (so_object_store_uris s) \<and> list_all is_file_transfer_uri (so_file_transfer_uris s) \<and>
     list_all (\<lambda>p. \<not> is_object_store_uri p) (so_paths s) \<and> list_all (\<lambda>db. db_read_error db = None) (so_db_reads s) \<and>
     (so_paths s \<noteq> [] \<or> so_object_store_uris s \<noteq> [] \<or> so_file_transfer_uris s \<noteq> [] \<or> so_db_reads s \<noteq> []) \<and> sinks \<noteq> []"
  by (auto simp: check_sources_def rbind_Inr_iff first_error_ok list_all_iff object_store_path_error_def split: if_splits)

text \<open>The URI kinds exclude one another.\<close>

lemma transfer_not_store: "is_file_transfer_uri u \<Longrightarrow> \<not> is_object_store_uri u"
  by (auto simp: is_file_transfer_uri_def file_transfer_scheme_def is_object_store_uri_def object_store_prefixes_def starts_with_def Let_def
      split: if_splits elim!: prefixE)

end
