(* ===== verification/Sql_Sinks.thy ===== *)
theory Sql_Sinks
  imports Effects Types
begin

text \<open>
  The relational sinks of the JVM pipeline runner (\<open>bindings/jvm-sys/src/pipeline_run.rs\<close>): the
  statements they send to PostgreSQL, Oracle and SQL Server, and how rows are encoded. The world is
  the log of the calls made to the driver; the driver answers each call, given the earlier ones,
  with an error text or success. Formatting a number into the COPY stream counts as one write.
\<close>

datatype bind = BindNone | BindText string | BindI64 i64 | BindF64 f64 | BindBool bool

record ms_config =
  mc_host :: string
  mc_port :: nat
  mc_user :: string
  mc_password :: string
  mc_database :: "string option"
  mc_trust_cert :: bool

datatype db_call =
    PgConnect string
  | PgBatch string
  | PgExecute string
  | PgCopyIn string
  | PgWrite string
  | PgFinish
  | OraConnect string string string
  | OraExecute string "string option list"
  | OraCommit
  | MsRuntime
  | MsTcp string nat
  | MsConnect ms_config
  | MsQuery string
  | MsResults
  | MsExecute string "bind list"

type_synonym driver = "db_call list \<Rightarrow> db_call \<Rightarrow> string option"

type_synonym 'a db = "(db_call list, string, 'a) io"

definition call :: "driver \<Rightarrow> db_call \<Rightarrow> unit db" where
  "call D c = (\<lambda>calls. (case D calls c of None \<Rightarrow> Ok () | Some e \<Rightarrow> Err e, calls @ [c]))"

definition ask :: "driver \<Rightarrow> db_call \<Rightarrow> string \<Rightarrow> unit db" where
  "ask D c what = io_map_err ((@) what) (call D c)"

subsection \<open>PostgreSQL\<close>

definition dquote :: char where "dquote = CHR 0x22"
definition backslash :: char where "backslash = CHR 0x5C"

fun double_char :: "char \<Rightarrow> string \<Rightarrow> string" where
  "double_char q [] = []"
| "double_char q (c # cs) = (if c = q then [q, q] else [c]) @ double_char q cs"

definition quote_pg_ident :: "string \<Rightarrow> string" where
  "quote_pg_ident i = dquote # double_char dquote i @ [dquote]"

definition is_ident_char :: "char \<Rightarrow> bool" where
  "is_ident_char c =
     (let n = of_char c :: nat in 48 \<le> n \<and> n \<le> 57 \<or> 65 \<le> n \<and> n \<le> 90 \<or> 97 \<le> n \<and> n \<le> 122 \<or> c = CHR ''_'' \<or> c = CHR ''.'')"

definition split_table_ident :: "string \<Rightarrow> (string, string \<times> string) res" where
  "split_table_ident table =
     (let t = trim table in
      if t = [] then Err ''postgresql table is empty''
      else if \<not> list_all is_ident_char t
      then Err (''postgresql table '' @ backtick t @ '' must be ascii alnum/underscore/dot only (schema.table)'')
      else case split_once (CHR ''.'') t of
        Some (s, rest) \<Rightarrow>
          if s = [] \<or> rest = [] \<or> contains_char (CHR ''.'') rest then Err (''invalid postgresql table '' @ backtick t)
          else Ok (s, rest)
      | None \<Rightarrow> Ok (''public'', t))"

definition pg_type_sql :: "data_type \<Rightarrow> (string, string) res" where
  "pg_type_sql t = Ok (case t of TInt64 \<Rightarrow> ''BIGINT'' | TFloat64 \<Rightarrow> ''DOUBLE PRECISION'' | TBool \<Rightarrow> ''BOOLEAN'' | TUtf8 \<Rightarrow> ''TEXT'')"

definition pg_create_table_ddl :: "string \<Rightarrow> schema \<Rightarrow> (string, string) res" where
  "pg_create_table_ddl fq s =
     rmap (\<lambda>cols. ''CREATE TABLE IF NOT EXISTS '' @ fq @ '' ('' @ join_str '', '' cols @ '')'')
       (traverse (\<lambda>f. rmap (\<lambda>ty. quote_pg_ident (fname f) @ '' '' @ ty) (pg_type_sql (ftype f))) (sfields s))"

text \<open>One character of a text cell, as its UTF-8 bytes.\<close>

definition hex_upper :: "nat \<Rightarrow> char" where
  "hex_upper n = char_of (if n < 10 then 48 + n else 55 + n)"

definition is_control :: "nat \<Rightarrow> bool" where
  "is_control n \<longleftrightarrow> 1 \<le> n \<and> n \<le> 8 \<or> n = 11 \<or> n = 12 \<or> 14 \<le> n \<and> n \<le> 31"

definition copy_char :: "string \<Rightarrow> (string, string) res" where
  "copy_char g =
     (case g of
        [c] \<Rightarrow>
          (let n = of_char c :: nat in
           if c = backslash then Ok [backslash, backslash]
           else if n = 10 then Ok [backslash, CHR ''n'']
           else if n = 13 then Ok [backslash, CHR ''r'']
           else if n = 9 then Ok [backslash, CHR ''t'']
           else if is_control n
           then Err (''unsupported control character in Utf8 cell (U+00'' @ [hex_upper (n div 16), hex_upper (n mod 16)] @ '')'')
           else Ok [c])
      | _ \<Rightarrow> Ok g)"

definition write_all :: "driver \<Rightarrow> string \<Rightarrow> unit db" where
  "write_all D s = call D (PgWrite s)"

definition append_copy_text_field :: "driver \<Rightarrow> (f64 \<Rightarrow> string) \<Rightarrow> value_t \<Rightarrow> unit db" where
  "append_copy_text_field D show_f64 v =
     (case v of
        Null \<Rightarrow> write_all D [backslash, CHR ''N'']
      | Int64 i \<Rightarrow> write_all D (show_i64 i)
      | Float64 x \<Rightarrow> write_all D (show_f64 x)
      | Bool b \<Rightarrow> write_all D (if b then ''t'' else ''f'')
      | Utf8 s \<Rightarrow> io_each (\<lambda>c. io_bind (io_of (copy_char c)) (write_all D)) (chars s))"

definition copy_row :: "driver \<Rightarrow> (f64 \<Rightarrow> string) \<Rightarrow> row \<Rightarrow> unit db" where
  "copy_row D show_f64 r =
     io_bind (io_each (\<lambda>(i, v). io_bind (io_when (0 < i) (write_all D [CHR 0x09]))
                                  (\<lambda>_. append_copy_text_field D show_f64 v)) (enumerate 0 r))
       (\<lambda>_. write_all D [CHR 0x0A])"

definition copy_sql_of :: "string \<Rightarrow> schema \<Rightarrow> string" where
  "copy_sql_of fq s =
     ''COPY '' @ fq @ '' ('' @ join_str '', '' (map quote_pg_ident (field_names s)) @
     '') FROM STDIN WITH (FORMAT text, NULL '' @ sq [backslash, CHR ''N''] @ '', ENCODING '' @ sq ''UTF8'' @ '')''"

definition fq_name :: "string \<times> string \<Rightarrow> string" where
  "fq_name = (\<lambda>(schema_part, table_part). quote_pg_ident schema_part @ ''.'' @ quote_pg_ident table_part)"

definition postgres_copy_sink ::
  "driver \<Rightarrow> (f64 \<Rightarrow> string) \<Rightarrow> string \<Rightarrow> string \<Rightarrow> data_set \<Rightarrow> bool \<Rightarrow> bool \<Rightarrow> nat db" where
  "postgres_copy_sink D show_f64 url table ds create_table_if_missing truncate_before_load =
     io_bind (ask D (PgConnect url) ''postgres connect: '') (\<lambda>_.
     io_bind (io_of (rmap fq_name (split_table_ident table))) (\<lambda>fq.
     io_bind (io_when create_table_if_missing
        (io_bind (io_of (pg_create_table_ddl fq (ds_schema ds)))
                 (\<lambda>ddl. ask D (PgBatch ddl) ''postgres create table: ''))) (\<lambda>_.
     io_bind (io_when truncate_before_load
        (ask D (PgExecute (''TRUNCATE TABLE '' @ fq)) ''postgres truncate: '')) (\<lambda>_.
     if row_count ds = 0 then io_ok 0
     else
       io_bind (ask D (PgCopyIn (copy_sql_of fq (ds_schema ds))) ''postgres copy_in: '') (\<lambda>_.
       io_bind (io_each (copy_row D show_f64) (rows ds)) (\<lambda>_.
       io_bind (ask D PgFinish ''postgres copy finish: '') (\<lambda>_.
       io_ok (row_count ds))))))))"

subsection \<open>Oracle\<close>

definition oracle_connect_parts :: "string \<Rightarrow> (string, string \<times> string \<times> string) res" where
  "oracle_connect_parts url =
     (if \<not> starts_with ''oracle://'' url then Err (''expected oracle:// URL, got '' @ url)
      else case split_once (CHR ''@'') (drop 9 url) of
        None \<Rightarrow> Err (''invalid oracle URL (missing @): '' @ url)
      | Some (auth, hostpart) \<Rightarrow>
          (case split_once (CHR '':'') auth of
             None \<Rightarrow> Err (''invalid oracle URL (missing password): '' @ url)
           | Some (user, pass) \<Rightarrow> Ok (user, pass, hostpart)))"

definition oracle_type_sql :: "data_type \<Rightarrow> (string, string) res" where
  "oracle_type_sql t = Ok (case t of TInt64 \<Rightarrow> ''NUMBER(19)'' | TFloat64 \<Rightarrow> ''NUMBER'' | TBool \<Rightarrow> ''NUMBER(1)'' | TUtf8 \<Rightarrow> ''VARCHAR2(4000)'')"

definition oracle_create_table_ddl :: "string \<Rightarrow> schema \<Rightarrow> (string, string) res" where
  "oracle_create_table_ddl table s =
     (let nl = CHR 0x0A # ''    '' in
      rmap (\<lambda>cols. ''CREATE TABLE '' @ table @ '' ('' @ nl @ join_str ('','' @ nl) cols @ CHR 0x0A # '')'')
        (traverse (\<lambda>f. rmap (\<lambda>ty. fname f @ '' '' @ ty) (oracle_type_sql (ftype f))) (sfields s)))"

definition oracle_value_string :: "(f64 \<Rightarrow> string) \<Rightarrow> (value_t \<times> data_type \<Rightarrow> string) \<Rightarrow> value_t \<Rightarrow> data_type \<Rightarrow> (string, string) res" where
  "oracle_value_string show_f64 dbg v t =
     (case (v, t) of
        (Null, _) \<Rightarrow> Ok []
      | (Utf8 s, _) \<Rightarrow> Ok s
      | (Int64 i, TInt64) \<Rightarrow> Ok (show_i64 i)
      | (Float64 x, TFloat64) \<Rightarrow> Ok (show_f64 x)
      | (Bool b, TBool) \<Rightarrow> Ok (if b then ''1'' else ''0'')
      | other \<Rightarrow> Err (''unsupported value for oracle sink: '' @ dbg other))"

definition oracle_execute_insert :: "driver \<Rightarrow> string \<Rightarrow> string option list \<Rightarrow> unit db" where
  "oracle_execute_insert D sql vals =
     (if 1 \<le> length vals \<and> length vals \<le> 8 then call D (OraExecute sql vals)
      else io_fail (''unsupported oracle INSERT bind count '' @ show_nat (length vals) @ '' (extend oracle_execute_insert)''))"

text \<open>The bind values of a row: a repeated column name keeps writing to its first position.\<close>

fun oracle_binds ::
  "(f64 \<Rightarrow> string) \<Rightarrow> (value_t \<times> data_type \<Rightarrow> string) \<Rightarrow> string list \<Rightarrow> (field \<times> value_t) list \<Rightarrow> string option list
    \<Rightarrow> (string, string option list) res" where
  "oracle_binds show_f64 dbg names [] vals = Ok vals"
| "oracle_binds show_f64 dbg names ((f, v) # fvs) vals =
     (case position (\<lambda>n. n = fname f) names of
        Some idx \<Rightarrow> rbind (oracle_value_string show_f64 dbg v (ftype f))
                      (\<lambda>s. oracle_binds show_f64 dbg names fvs (vals[idx := Some s]))
      | None \<Rightarrow> oracle_binds show_f64 dbg names fvs vals)"

definition oracle_insert_sql :: "string \<Rightarrow> string list \<Rightarrow> string" where
  "oracle_insert_sql table names =
     ''INSERT INTO '' @ table @ '' ('' @ join_str '', '' names @ '') VALUES ('' @
     join_str '', '' (map (\<lambda>i. '':'' @ show_nat i) [1..<length names + 1]) @ '')''"

definition oracle_insert_row ::
  "driver \<Rightarrow> (f64 \<Rightarrow> string) \<Rightarrow> (value_t \<times> data_type \<Rightarrow> string) \<Rightarrow> string \<Rightarrow> schema \<Rightarrow> nat \<times> row \<Rightarrow> unit db" where
  "oracle_insert_row D show_f64 dbg sql s = (\<lambda>(inserted, r).
     io_bind (io_of (oracle_binds show_f64 dbg (field_names s) (zip (sfields s) r) (replicate (length (sfields s)) None)))
       (\<lambda>vals. io_map_err (\<lambda>e. ''oracle insert row '' @ show_nat inserted @ '': '' @ e) (oracle_execute_insert D sql vals)))"

definition oracle_row_sink ::
  "driver \<Rightarrow> (f64 \<Rightarrow> string) \<Rightarrow> (value_t \<times> data_type \<Rightarrow> string) \<Rightarrow> string \<Rightarrow> string \<Rightarrow> data_set \<Rightarrow> bool \<Rightarrow> bool \<Rightarrow> nat db" where
  "oracle_row_sink D show_f64 dbg url table ds create_table_if_missing truncate_before_load =
     io_bind (io_of (oracle_connect_parts url)) (\<lambda>(user, pass, hostpart).
     io_bind (call D (OraConnect user pass hostpart)) (\<lambda>_.
     io_bind (io_when truncate_before_load (io_ignore (call D (OraExecute (''DROP TABLE '' @ table @ '' PURGE'') [])))) (\<lambda>_.
     io_bind (io_when create_table_if_missing
        (io_bind (io_of (oracle_create_table_ddl table (ds_schema ds)))
                 (\<lambda>ddl. ask D (OraExecute ddl []) ''oracle create table: ''))) (\<lambda>_.
     io_bind (io_each (oracle_insert_row D show_f64 dbg (oracle_insert_sql table (field_names (ds_schema ds))) (ds_schema ds))
                (enumerate 0 (rows ds))) (\<lambda>_.
     io_bind (call D OraCommit) (\<lambda>_.
     io_ok (row_count ds)))))))"

subsection \<open>SQL Server\<close>

definition query_get :: "(string \<Rightarrow> string \<Rightarrow> bool) \<Rightarrow> (string \<times> string) list \<Rightarrow> bool" where
  "query_get p kvs = list_ex (\<lambda>(k, v). p k v) kvs"

definition mssql_connect_config :: "(string \<Rightarrow> (string, url) res) \<Rightarrow> string \<Rightarrow> (string, ms_config) res" where
  "mssql_connect_config parse_url url =
     rbind (map_err (\<lambda>e. ''invalid mssql URL: '' @ e) (parse_url url)) (\<lambda>parsed.
     if u_scheme parsed \<noteq> ''mssql'' then Err (''expected mssql:// URL, got '' @ url)
     else rbind (ok_or (''mssql URL missing host: '' @ url) (u_host parsed)) (\<lambda>host.
     if u_username parsed = [] then Err (''mssql URL missing user: '' @ url)
     else
       (let db = trim_start_matches (CHR ''/'') (u_path parsed);
            encrypt = (case find (\<lambda>(k, _). eq_ignore_ascii_case k ''encrypt'') (u_query parsed) of
                         Some (_, v) \<Rightarrow> v \<noteq> ''false'' \<and> v \<noteq> ''0'' | None \<Rightarrow> True);
            trust = query_get (\<lambda>k v. eq_ignore_ascii_case k ''trustservercertificate'' \<and> (v = ''true'' \<or> v = ''1'')) (u_query parsed)
        in Ok \<lparr>mc_host = host, mc_port = (case u_port parsed of Some p \<Rightarrow> p | None \<Rightarrow> 1433),
              mc_user = u_username parsed, mc_password = (case u_password parsed of Some p \<Rightarrow> p | None \<Rightarrow> []),
              mc_database = (if db = [] then None else Some db),
              mc_trust_cert = (\<not> encrypt \<or> trust)\<rparr>)))"

definition mssql_type_sql :: "data_type \<Rightarrow> (string, string) res" where
  "mssql_type_sql t = Ok (case t of TInt64 \<Rightarrow> ''BIGINT'' | TFloat64 \<Rightarrow> ''FLOAT'' | TBool \<Rightarrow> ''BIT'' | TUtf8 \<Rightarrow> ''NVARCHAR(4000)'')"

definition bracket :: "string \<Rightarrow> string" where
  "bracket n = ''['' @ n @ '']''"

definition object_id :: "string \<Rightarrow> string" where
  "object_id table = ''IF OBJECT_ID(N'' @ sq table @ '', N'' @ sq ''U'' @ '') IS ''"

definition mssql_create_table_ddl :: "string \<Rightarrow> schema \<Rightarrow> (string, string) res" where
  "mssql_create_table_ddl table s =
     rmap (\<lambda>cols. object_id table @ ''NULL CREATE TABLE '' @ table @ '' ('' @ join_str '', '' cols @ '')'')
       (traverse (\<lambda>f. rmap (\<lambda>ty. bracket (fname f) @ '' '' @ ty) (mssql_type_sql (ftype f))) (sfields s))"

definition mssql_bind :: "(value_t \<times> data_type \<Rightarrow> string) \<Rightarrow> field \<times> value_t \<Rightarrow> (string, bind) res" where
  "mssql_bind dbg = (\<lambda>(f, v).
     (case (v, ftype f) of
        (Null, _) \<Rightarrow> Ok BindNone
      | (Utf8 s, _) \<Rightarrow> Ok (BindText s)
      | (Int64 i, TInt64) \<Rightarrow> Ok (BindI64 i)
      | (Float64 x, TFloat64) \<Rightarrow> Ok (BindF64 x)
      | (Bool b, TBool) \<Rightarrow> Ok (BindBool b)
      | other \<Rightarrow> Err (''unsupported value for mssql sink: '' @ dbg other)))"

definition mssql_insert_sql :: "string \<Rightarrow> string list \<Rightarrow> string" where
  "mssql_insert_sql table names =
     ''INSERT INTO '' @ table @ '' ('' @ join_str '', '' (map bracket names) @ '') VALUES ('' @
     join_str '', '' (map (\<lambda>i. ''@P'' @ show_nat i) [1..<length names + 1]) @ '')''"

definition mssql_insert_row :: "driver \<Rightarrow> (value_t \<times> data_type \<Rightarrow> string) \<Rightarrow> string \<Rightarrow> schema \<Rightarrow> nat \<times> row \<Rightarrow> unit db" where
  "mssql_insert_row D dbg sql s = (\<lambda>(inserted, r).
     io_bind (io_of (traverse (mssql_bind dbg) (zip (sfields s) r)))
       (\<lambda>binds. ask D (MsExecute sql binds) (''mssql insert row '' @ show_nat inserted @ '': '')))"

definition mssql_statement :: "driver \<Rightarrow> string \<Rightarrow> string \<Rightarrow> unit db" where
  "mssql_statement D sql what =
     io_bind (ask D (MsQuery sql) (''mssql '' @ what @ '': '')) (\<lambda>_.
     ask D MsResults (''mssql '' @ what @ '' results: ''))"

definition mssql_row_sink ::
  "driver \<Rightarrow> (string \<Rightarrow> (string, url) res) \<Rightarrow> (value_t \<times> data_type \<Rightarrow> string) \<Rightarrow> string \<Rightarrow> string \<Rightarrow> data_set \<Rightarrow> bool \<Rightarrow> bool \<Rightarrow> nat db" where
  "mssql_row_sink D parse_url dbg url table ds create_table_if_missing truncate_before_load =
     io_bind (io_of (mssql_connect_config parse_url url)) (\<lambda>config.
     io_bind (call D MsRuntime) (\<lambda>_.
     io_bind (ask D (MsTcp (mc_host config) (mc_port config)) ''mssql tcp connect: '') (\<lambda>_.
     io_bind (ask D (MsConnect config) ''mssql connect: '') (\<lambda>_.
     io_bind (io_when create_table_if_missing
        (io_bind (io_of (mssql_create_table_ddl table (ds_schema ds))) (\<lambda>ddl. mssql_statement D ddl ''create table''))) (\<lambda>_.
     io_bind (io_when truncate_before_load
        (mssql_statement D (object_id table @ ''NOT NULL TRUNCATE TABLE '' @ table) ''truncate'')) (\<lambda>_.
     io_bind (io_each (mssql_insert_row D dbg (mssql_insert_sql table (field_names (ds_schema ds))) (ds_schema ds))
                (enumerate 0 (rows ds))) (\<lambda>_.
     io_ok (row_count ds))))))))"

subsection \<open>Quoted identifiers\<close>

text \<open>PostgreSQL's lexer: a quoted identifier ends at the first quote that is not doubled.\<close>

fun lex_body :: "string \<Rightarrow> (string \<times> string) option" where
  "lex_body [] = None"
| "lex_body [c] = (if c = dquote then Some ([], []) else None)"
| "lex_body (c # d # cs) =
     (if c = dquote then (if d = dquote then map_option (\<lambda>(i, r). (dquote # i, r)) (lex_body cs) else Some ([], d # cs))
      else map_option (\<lambda>(i, r). (c # i, r)) (lex_body (d # cs)))"

definition lex_ident :: "string \<Rightarrow> (string \<times> string) option" where
  "lex_ident s = (case s of [] \<Rightarrow> None | c # cs \<Rightarrow> if c = dquote then lex_body cs else None)"

lemma lex_body_shorter: "lex_body s = Some (i, r) \<Longrightarrow> length r < length s"
proof (induction s arbitrary: i r rule: lex_body.induct)
  case (3 c d cs)
  show ?case
  proof (cases "c = dquote")
    case True
    then show ?thesis using "3.IH"(1) "3.prems" by (cases "d = dquote") (auto intro: less_trans)
  next
    case False
    then show ?thesis using "3.IH"(2) "3.prems" by fastforce
  qed
qed (auto split: if_splits)

lemma lex_body_double:
  "r = [] \<or> hd r \<noteq> dquote \<Longrightarrow> lex_body (double_char dquote i @ dquote # r) = Some (i, r)"
proof (induction i)
  case Nil
  then show ?case by (cases r) auto
next
  case (Cons c i)
  then show ?case by (cases "double_char dquote i @ dquote # r") auto
qed

lemma lex_quoted: "r = [] \<or> hd r \<noteq> dquote \<Longrightarrow> lex_ident (quote_pg_ident i @ r) = Some (i, r)"
  by (simp add: lex_ident_def quote_pg_ident_def lex_body_double)

text \<open>The column definitions of a statement: identifier, type up to a comma or the closing parenthesis.\<close>

definition in_type :: "char \<Rightarrow> bool" where
  "in_type c \<longleftrightarrow> c \<noteq> CHR '','' \<and> c \<noteq> CHR '')''"

function parse_columns :: "string \<Rightarrow> (string \<times> string) list option" where
  "parse_columns s =
     (case lex_ident s of
        None \<Rightarrow> None
      | Some (n, r) \<Rightarrow>
          (case dropWhile in_type r of
             [] \<Rightarrow> None
           | c # cs \<Rightarrow>
               if c = CHR '')'' then Some [(n, takeWhile in_type r)]
               else map_option ((#) (n, takeWhile in_type r)) (parse_columns (drop 1 cs))))"
  by pat_completeness auto
termination
proof (relation "measure length", simp)
  fix s x y and n r :: string and c cs
  assume "lex_ident s = Some x" "(n, r) = x" "dropWhile in_type r = c # cs"
  moreover from this have "length r < length s"
    by (cases s) (auto simp: lex_ident_def split: if_splits dest: lex_body_shorter)
  moreover have "length (c # cs) \<le> length r" using \<open>dropWhile in_type r = c # cs\<close> length_dropWhile_le [of in_type r] by simp
  ultimately show "(drop 1 cs, s) \<in> measure length" by simp
qed

declare parse_columns.simps [simp del]

lemma parse_columns_list:
  assumes "cols \<noteq> []" "\<forall>(n, ty)\<in>set cols. \<forall>c\<in>set ty. in_type c"
  shows "parse_columns (join_str '', '' (map (\<lambda>(n, ty). quote_pg_ident n @ '' '' @ ty) cols) @ '')'') =
    Some (map (\<lambda>(n, ty). (n, '' '' @ ty)) cols)"
  using assms
proof (induction cols rule: list_nonempty_induct)
  case (single x)
  obtain n ty where x: "x = (n, ty)" by (cases x)
  have "dropWhile in_type (CHR '' '' # ty @ '')'') = '')''" "takeWhile in_type (CHR '' '' # ty @ '')'') = CHR '' '' # ty"
    using single by (auto simp: x in_type_def dropWhile_append2 takeWhile_append2)
  then show ?case by (simp add: x parse_columns.simps [of "quote_pg_ident n @ _"] lex_quoted [of "CHR '' '' # _"] dquote_def)
next
  case (cons x xs)
  obtain n ty where x: "x = (n, ty)" by (cases x)
  obtain y ys where xs: "xs = y # ys" using cons.hyps by (cases xs) auto
  let ?rest = "join_str '', '' (map (\<lambda>(n, ty). quote_pg_ident n @ '' '' @ ty) xs) @ '')''"
  have "dropWhile in_type (CHR '' '' # ty @ '', '' @ ?rest) = '', '' @ ?rest" "takeWhile in_type (CHR '' '' # ty @ '', '' @ ?rest) = CHR '' '' # ty"
    using cons.prems by (auto simp: x in_type_def dropWhile_append2 takeWhile_append2)
  then have "parse_columns (quote_pg_ident n @ CHR '' '' # ty @ '', '' @ ?rest) =
      map_option ((#) (n, CHR '' '' # ty)) (parse_columns ?rest)"
    by (subst parse_columns.simps) (simp add: lex_quoted dquote_def)
  moreover have "parse_columns ?rest = Some (map (\<lambda>(n, ty). (n, '' '' @ ty)) xs)" using cons by simp
  ultimately show ?case by (simp add: x xs)
qed

definition pg_type :: "data_type \<Rightarrow> string" where
  "pg_type t = projr (pg_type_sql t)"

lemma pg_create_table_ddl_eq:
  "pg_create_table_ddl fq s = Ok (''CREATE TABLE IF NOT EXISTS '' @ fq @ '' ('' @
     join_str '', '' (map (\<lambda>f. quote_pg_ident (fname f) @ '' '' @ pg_type (ftype f)) (sfields s)) @ '')'')"
proof -
  have "traverse (\<lambda>f. rmap (\<lambda>ty. quote_pg_ident (fname f) @ '' '' @ ty) (pg_type_sql (ftype f))) (sfields s) =
      Ok (map (\<lambda>f. quote_pg_ident (fname f) @ '' '' @ pg_type (ftype f)) (sfields s))"
    by (rule traverse_ok) (simp add: pg_type_def pg_type_sql_def)
  then show ?thesis by (simp add: pg_create_table_ddl_def)
qed

lemma pg_type_plain: "c \<in> set (pg_type t) \<Longrightarrow> in_type c"
  by (cases t) (auto simp: pg_type_def pg_type_sql_def in_type_def)

subsection \<open>The COPY stream\<close>

text \<open>Text format as PostgreSQL reads it: lines of fields between tabs, a null marker, escapes.\<close>

fun unescape :: "string \<Rightarrow> string" where
  "unescape [] = []"
| "unescape [c] = [c]"
| "unescape (c # d # cs) =
     (if c = backslash
      then (if d = CHR ''n'' then CHR 0x0A else if d = CHR ''r'' then CHR 0x0D else if d = CHR ''t'' then CHR 0x09 else d) # unescape cs
      else c # unescape (d # cs))"

definition copy_cell :: "string \<Rightarrow> string option" where
  "copy_cell f = (if f = [backslash, CHR ''N''] then None else Some (unescape f))"

definition copy_parse :: "string \<Rightarrow> string option list list" where
  "copy_parse t = map (\<lambda>l. map copy_cell (split_on (CHR 0x09) l)) (butlast (split_on (CHR 0x0A) t))"

text \<open>The text a cell stands for, and the text written for it.\<close>

definition pg_text :: "(f64 \<Rightarrow> string) \<Rightarrow> value_t \<Rightarrow> string option" where
  "pg_text show_f64 v =
     (case v of Null \<Rightarrow> None | Int64 i \<Rightarrow> Some (show_i64 i) | Float64 x \<Rightarrow> Some (show_f64 x)
      | Bool b \<Rightarrow> Some (if b then ''t'' else ''f'') | Utf8 s \<Rightarrow> Some s)"

definition escaped :: "string \<Rightarrow> string" where
  "escaped s = concat (map (\<lambda>g. projr (copy_char g)) (chars s))"

definition field_text :: "(f64 \<Rightarrow> string) \<Rightarrow> value_t \<Rightarrow> string" where
  "field_text show_f64 v =
     (case v of Null \<Rightarrow> [backslash, CHR ''N''] | Utf8 s \<Rightarrow> escaped s | _ \<Rightarrow> the (pg_text show_f64 v))"

definition row_text :: "(f64 \<Rightarrow> string) \<Rightarrow> row \<Rightarrow> string" where
  "row_text show_f64 r = join_with (CHR 0x09) (map (field_text show_f64) r) @ [CHR 0x0A]"

text \<open>A program that, when it succeeds, has only written, and this text.\<close>

definition only_writes :: "unit db \<Rightarrow> string \<Rightarrow> bool" where
  "only_writes m t \<longleftrightarrow> (\<forall>calls calls'. m calls = (Inr (), calls') \<longrightarrow> (\<exists>ws. calls' = calls @ map PgWrite ws \<and> concat ws = t))"

lemma only_writesD:
  assumes "only_writes m t" "m calls = (Inr (), calls')"
  obtains ws where "calls' = calls @ map PgWrite ws" "concat ws = t"
  using assms by (auto simp: only_writes_def)

lemma call_Inr: "call D c calls = (Inr u, calls') \<longleftrightarrow> D calls c = None \<and> calls' = calls @ [c]"
  by (auto simp: call_def split: option.splits)

lemma only_writes_write: "only_writes (write_all D s) s"
  by (auto simp: only_writes_def write_all_def call_Inr intro!: exI [of _ "[s]"])

lemma only_writes_none: "only_writes (io_ok ()) []"
  by (simp add: only_writes_def)

lemma only_writes_bind:
  assumes "only_writes m t" "only_writes n u"
  shows "only_writes (io_bind m (\<lambda>_. n)) (t @ u)"
  unfolding only_writes_def
proof (intro allI impI)
  fix calls calls'
  assume "io_bind m (\<lambda>_. n) calls = (Inr (), calls')"
  then obtain mid where "m calls = (Inr (), mid)" "n mid = (Inr (), calls')" by (auto simp: io_bind_ok)
  with assms obtain ws us where "mid = calls @ map PgWrite ws" "concat ws = t" "calls' = mid @ map PgWrite us" "concat us = u"
    by (elim only_writesD)
  then show "\<exists>vs. calls' = calls @ map PgWrite vs \<and> concat vs = t @ u" by (intro exI [of _ "ws @ us"]) auto
qed

lemma only_writes_each:
  "(\<And>x. x \<in> set xs \<Longrightarrow> only_writes (f x) (g x)) \<Longrightarrow> only_writes (io_each f xs) (concat (map g xs))"
  by (induction xs) (auto intro: only_writes_none only_writes_bind)

lemma only_writes_char: "only_writes (io_bind (io_of (copy_char g)) (write_all D)) (projr (copy_char g))"
  by (cases "copy_char g") (auto simp: only_writes_write, auto simp: only_writes_def)

lemma only_writes_field: "only_writes (append_copy_text_field D show_f64 v) (field_text show_f64 v)"
  by (cases v)
    (auto simp: append_copy_text_field_def field_text_def pg_text_def escaped_def
      intro!: only_writes_write only_writes_each only_writes_char)

lemma only_writes_cell:
  "only_writes (io_bind (io_when (0 < i) (write_all D [CHR 0x09])) (\<lambda>_. append_copy_text_field D show_f64 v))
     ((if 0 < i then [CHR 0x09] else []) @ field_text show_f64 v)"
  by (intro only_writes_bind only_writes_field) (auto simp: only_writes_write only_writes_none)

lemma cells_text:
  "concat (map (\<lambda>(i, v). (if 0 < i then [c] else []) @ f v) (enumerate n vs)) =
     (if vs = [] then [] else (if 0 < n then [c] else []) @ join_with c (map f vs))"
proof (induction vs arbitrary: n)
  case (Cons v vs)
  then show ?case by (cases vs) auto
qed simp

lemma only_writes_row: "only_writes (copy_row D show_f64 r) (row_text show_f64 r)"
proof -
  let ?f = "\<lambda>(i, v). io_bind (io_when (0 < i) (write_all D [CHR 0x09])) (\<lambda>_. append_copy_text_field D show_f64 v)"
  let ?g = "\<lambda>(i, v). (if 0 < i then [CHR 0x09] else []) @ field_text show_f64 v"
  have "only_writes (io_each ?f (enumerate 0 r)) (concat (map ?g (enumerate 0 r)))"
    by (rule only_writes_each) (auto simp: only_writes_cell)
  then have "only_writes (io_each ?f (enumerate 0 r)) (join_with (CHR 0x09) (map (field_text show_f64) r))"
    by (simp add: cells_text split: if_splits)
  then show ?thesis unfolding copy_row_def row_text_def by (intro only_writes_bind only_writes_write)
qed

lemma only_writes_rows: "only_writes (io_each (copy_row D show_f64) rs) (concat (map (row_text show_f64) rs))"
  by (rule only_writes_each) (rule only_writes_row)

text \<open>Reading back. A Rust string has continuation bytes only after a byte above ASCII.\<close>

definition valid_text :: "string \<Rightarrow> bool" where
  "valid_text s \<longleftrightarrow> (\<forall>g\<in>set (chars s). 1 < length g \<longrightarrow> 128 \<le> (of_char (hd g) :: nat))"

definition plain_text :: "string \<Rightarrow> bool" where
  "plain_text s \<longleftrightarrow> backslash \<notin> set s \<and> CHR 0x09 \<notin> set s \<and> CHR 0x0A \<notin> set s"

definition copyable :: "value_t \<Rightarrow> bool" where
  "copyable v = (case v of Utf8 s \<Rightarrow> list_all (\<lambda>g. is_ok (copy_char g)) (chars s) | _ \<Rightarrow> True)"

lemma chars_tail_cont: "g \<in> set (chars s) \<Longrightarrow> c \<in> set (tl g) \<Longrightarrow> is_cont c"
  by (induction s rule: chars.induct) (auto dest: set_takeWhileD)

lemma char_bounds:
  assumes "g \<in> set (chars s)" "valid_text s" "length g \<noteq> 1" "c \<in> set g"
  shows "128 \<le> (of_char c :: nat)"
proof -
  obtain d ds where g: "g = d # ds" using chars_nonempty [OF assms(1)] by (cases g) auto
  with assms(3) have "1 < length g" by (cases ds) auto
  with assms(1,2) g have "128 \<le> (of_char d :: nat)" by (auto simp: valid_text_def)
  with assms(1,4) g chars_tail_cont [OF assms(1), of c] show ?thesis by (auto simp: is_cont_def)
qed

lemma of_char_escapes:
  "(of_char backslash :: nat) = 92" "(of_char (CHR 0x09) :: nat) = 9" "(of_char (CHR 0x0A) :: nat) = 10" "(of_char (CHR 0x0D) :: nat) = 13"
  by (simp_all add: backslash_def)

lemma char_of_code: "(of_char c :: nat) = of_char d \<Longrightarrow> c = d"
  by simp

lemma unescape_cons: "c \<noteq> backslash \<Longrightarrow> unescape (c # r) = c # unescape r"
  by (cases r) auto

lemma unescape_plain: "backslash \<notin> set g \<Longrightarrow> unescape (g @ r) = g @ unescape r"
  by (induction g) (auto simp: unescape_cons)

lemma copy_char_special:
  "copy_char [backslash] = Ok [backslash, backslash]" "copy_char [CHR 0x0A] = Ok [backslash, CHR ''n'']"
  "copy_char [CHR 0x0D] = Ok [backslash, CHR ''r'']" "copy_char [CHR 0x09] = Ok [backslash, CHR ''t'']"
  by (simp_all add: copy_char_def backslash_def)

lemma copy_char_other:
  assumes "copy_char g = Inr t" "g \<notin> {[backslash], [CHR 0x0A], [CHR 0x0D], [CHR 0x09]}"
  shows "t = g"
proof (cases "\<exists>c. g = [c]")
  case True
  then obtain c where g: "g = [c]" by blast
  have "(of_char c :: nat) \<noteq> 10" "(of_char c :: nat) \<noteq> 13" "(of_char c :: nat) \<noteq> 9"
    using assms(2) of_char_escapes(2-4) of_char_eq_iff [where 'a = nat] by (metis g insertCI)+
  with assms show ?thesis by (auto simp: g copy_char_def Let_def split: if_splits)
next
  case False
  then show ?thesis using assms(1) by (auto simp: copy_char_def split: list.splits)
qed

lemma unescape_pairs:
  "unescape (backslash # backslash # r) = backslash # unescape r" "unescape (backslash # CHR ''n'' # r) = CHR 0x0A # unescape r"
  "unescape (backslash # CHR ''r'' # r) = CHR 0x0D # unescape r" "unescape (backslash # CHR ''t'' # r) = CHR 0x09 # unescape r"
  by (simp_all add: backslash_def)

lemma copy_char_cases:
  assumes "copy_char g = Inr t"
  shows "t = g \<and> g \<notin> {[backslash], [CHR 0x0A], [CHR 0x0D], [CHR 0x09]}
    \<or> (\<exists>c d. g = [c] \<and> t = [backslash, d] \<and> d \<in> {backslash, CHR ''n'', CHR ''r'', CHR ''t''} \<and> (\<forall>r. unescape (t @ r) = c # unescape r))"
proof (cases "g \<in> {[backslash], [CHR 0x0A], [CHR 0x0D], [CHR 0x09]}")
  case True
  then obtain c d where "g = [c]" "copy_char [c] = Ok [backslash, d]" "d \<in> {backslash, CHR ''n'', CHR ''r'', CHR ''t''}"
    "\<forall>r. unescape ([backslash, d] @ r) = c # unescape r"
    using copy_char_special unescape_pairs by (elim insertE) simp_all
  with assms have "t = [backslash, d]" by simp
  with \<open>g = [c]\<close> \<open>d \<in> _\<close> \<open>\<forall>r. _\<close> show ?thesis by blast
next
  case False
  with assms copy_char_other [OF assms] show ?thesis by blast
qed

lemma escaped_char:
  assumes "copy_char g = Inr t" "g \<in> set (chars s)" "valid_text s"
  shows "unescape (t @ r) = g @ unescape r \<and> CHR 0x09 \<notin> set t \<and> CHR 0x0A \<notin> set t \<and> t \<noteq> [] \<and>
    (hd t = backslash \<longrightarrow> tl t \<noteq> [] \<and> hd (tl t) \<noteq> CHR ''N'')"
proof (cases "\<exists>c. g = [c]")
  case True
  then show ?thesis using copy_char_cases [OF assms(1)]
    by (elim disjE exE conjE) (auto simp: unescape_cons backslash_def)
next
  case False
  then have "length g \<noteq> 1" by (auto simp: length_Suc_conv)
  then have "128 \<le> (of_char c :: nat)" if "c \<in> set g" for c using char_bounds assms(2,3) that by blast
  then have "backslash \<notin> set g" "CHR 0x09 \<notin> set g" "CHR 0x0A \<notin> set g" using of_char_escapes by fastforce+
  moreover have "t = g" using copy_char_cases [OF assms(1)] False by blast
  moreover have "g \<noteq> []" using chars_nonempty assms(2) by blast
  ultimately show ?thesis by (auto simp: unescape_plain dest: hd_in_set)
qed

lemma escaped_text:
  assumes "valid_text s" "list_all (\<lambda>g. is_ok (copy_char g)) (chars s)"
  shows "unescape (escaped s) = s" "CHR 0x09 \<notin> set (escaped s)" "CHR 0x0A \<notin> set (escaped s)" "escaped s \<noteq> [backslash, CHR ''N'']"
proof -
  have char: "unescape (projr (copy_char g) @ r) = g @ unescape r \<and> CHR 0x09 \<notin> set (projr (copy_char g)) \<and> CHR 0x0A \<notin> set (projr (copy_char g)) \<and>
      projr (copy_char g) \<noteq> [] \<and> (hd (projr (copy_char g)) = backslash \<longrightarrow> tl (projr (copy_char g)) \<noteq> [] \<and> hd (tl (projr (copy_char g))) \<noteq> CHR ''N'')"
    if g: "g \<in> set (chars s)" for g r
  proof -
    from assms(2) g obtain t where "copy_char g = Inr t" by (auto simp: list_all_iff is_ok_iff)
    with escaped_char [OF this g assms(1)] show ?thesis by simp
  qed
  have "unescape (concat (map (\<lambda>g. projr (copy_char g)) gs)) = concat gs" if "set gs \<subseteq> set (chars s)" for gs
    using that by (induction gs) (auto simp: char)
  from this [of "chars s"] show "unescape (escaped s) = s" by (simp add: escaped_def)
  show "CHR 0x09 \<notin> set (escaped s)" "CHR 0x0A \<notin> set (escaped s)" using char by (auto simp: escaped_def)
  show "escaped s \<noteq> [backslash, CHR ''N'']"
  proof (cases "chars s")
    case (Cons g gs)
    with char [of g] show ?thesis
      by (cases "projr (copy_char g)"; cases "tl (projr (copy_char g))") (auto simp: escaped_def)
  qed (simp add: escaped_def)
qed

lemma field_text_reads:
  assumes "copyable v" "\<forall>x. plain_text (show_f64 x)" "case v of Utf8 s \<Rightarrow> valid_text s | _ \<Rightarrow> True"
  shows "copy_cell (field_text show_f64 v) = pg_text show_f64 v \<and> CHR 0x09 \<notin> set (field_text show_f64 v) \<and> CHR 0x0A \<notin> set (field_text show_f64 v)"
proof -
  have plain: "copy_cell t = Some t \<and> CHR 0x09 \<notin> set t \<and> CHR 0x0A \<notin> set t" if "plain_text t" for t
    using that unescape_plain [of t "[]"] by (auto simp: copy_cell_def plain_text_def)
  show ?thesis
  proof (cases v)
    case (Int64 i)
    have "plain_text (show_i64 i)"
      using show_nat_digits by (fastforce simp: plain_text_def show_i64_def show_int_def backslash_def is_digit_def)
    with plain show ?thesis by (simp add: Int64 field_text_def pg_text_def)
  next
    case (Utf8 s)
    with assms have "valid_text s" "list_all (\<lambda>g. is_ok (copy_char g)) (chars s)" by (simp_all add: copyable_def)
    from escaped_text [OF this] show ?thesis by (simp add: Utf8 field_text_def pg_text_def copy_cell_def)
  next
    case (Float64 x)
    with plain [of "show_f64 x"] assms(2) show ?thesis by (simp add: field_text_def pg_text_def)
  next
    case (Bool b)
    with plain [of "if b then ''t'' else ''f''"] show ?thesis
      by (simp add: field_text_def pg_text_def plain_text_def backslash_def split: if_splits)
  qed (simp add: field_text_def pg_text_def copy_cell_def backslash_def)
qed

lemma split_on_absent: "c \<notin> set s \<Longrightarrow> split_on c s = [s]"
  by (induction s) auto

lemma split_on_append: "c \<notin> set s \<Longrightarrow> split_on c (s @ c # t) = s # split_on c t"
  by (induction s) auto

lemma split_on_join: "gs \<noteq> [] \<Longrightarrow> \<forall>g\<in>set gs. c \<notin> set g \<Longrightarrow> split_on c (join_with c gs) = gs"
  by (induction gs rule: join_with.induct) (auto simp: split_on_absent split_on_append)

lemma split_on_lines: "\<forall>l\<in>set ls. c \<notin> set l \<Longrightarrow> split_on c (concat (map (\<lambda>l. l @ [c]) ls)) = ls @ [[]]"
  by (induction ls) (auto simp: split_on_append)

lemma set_join_with: "x \<in> set (join_with c gs) \<Longrightarrow> x = c \<or> (\<exists>g\<in>set gs. x \<in> set g)"
  by (induction gs rule: join_with.induct) auto

lemma copy_parse_rows:
  assumes "\<forall>r\<in>set rs. r \<noteq> [] \<and> (\<forall>v\<in>set r. copyable v \<and> (case v of Utf8 s \<Rightarrow> valid_text s | _ \<Rightarrow> True))" "\<forall>x. plain_text (show_f64 x)"
  shows "copy_parse (concat (map (row_text show_f64) rs)) = map (map (pg_text show_f64)) rs"
proof -
  let ?line = "\<lambda>r. join_with (CHR 0x09) (map (field_text show_f64) r)"
  have field: "copy_cell (field_text show_f64 v) = pg_text show_f64 v" "CHR 0x09 \<notin> set (field_text show_f64 v)" "CHR 0x0A \<notin> set (field_text show_f64 v)"
    if "r \<in> set rs" "v \<in> set r" for r v
    using field_text_reads [of v show_f64] assms that by blast+
  have "\<forall>l\<in>set (map ?line rs). CHR 0x0A \<notin> set l" using field by (auto dest!: set_join_with)
  from split_on_lines [OF this] have "split_on (CHR 0x0A) (concat (map (row_text show_f64) rs)) = map ?line rs @ [[]]"
    by (simp add: row_text_def [abs_def] comp_def)
  moreover have "map copy_cell (split_on (CHR 0x09) (?line r)) = map (pg_text show_f64) r" if "r \<in> set rs" for r
  proof -
    have "split_on (CHR 0x09) (?line r) = map (field_text show_f64) r"
      using assms(1) that field by (intro split_on_join) auto
    then show ?thesis using that field by simp
  qed
  ultimately show ?thesis by (simp add: copy_parse_def)
qed

lemma copy_rows_copyable:
  assumes "io_each (copy_row D show_f64) rs calls = (Inr (), calls')" "r \<in> set rs" "v \<in> set r"
  shows "copyable v"
proof (cases v)
  case (Utf8 s)
  obtain u u' where "copy_row D show_f64 r u = (Inr (), u')" using io_each_success [OF assms(1,2)] by blast
  then obtain u'' where e: "io_each (\<lambda>(i, v). io_bind (io_when (0 < i) (write_all D [CHR 0x09]))
      (\<lambda>_. append_copy_text_field D show_f64 v)) (enumerate 0 r) u = (Inr (), u'')" by (auto simp: copy_row_def io_bind_ok)
  obtain i where "(i, v) \<in> set (enumerate 0 r)" using assms(3) by (metis in_set_conv_nth nth_enumerate_eq length_enumerate add_0)
  from io_each_success [OF e this] obtain x y where "append_copy_text_field D show_f64 v x = (Inr (), y)" by (auto simp: io_bind_ok)
  then have e: "io_each (\<lambda>g. io_bind (io_of (copy_char g)) (write_all D)) (chars s) x = (Inr (), y)"
    by (simp add: Utf8 append_copy_text_field_def)
  have "is_ok (copy_char g)" if "g \<in> set (chars s)" for g
    using io_each_success [OF e that] by (auto simp: io_bind_ok is_ok_iff)
  then show ?thesis by (simp add: Utf8 copyable_def list_all_iff)
qed (simp_all add: copyable_def)

subsection \<open>What the sinks send\<close>

lemma ask_Inr: "ask D c what calls = (Inr u, calls') \<longleftrightarrow> D calls c = None \<and> calls' = calls @ [c]"
  by (simp add: ask_def io_map_err_ok call_Inr)

lemma ask_Inl: "ask D c what calls = (Inl e, calls') \<longleftrightarrow> (\<exists>m. D calls c = Some m \<and> e = Failed (what @ m) \<and> calls' = calls @ [c])"
  by (auto simp: ask_def io_map_err_def call_def split: option.splits)

lemma ask_snd [simp]: "snd (ask D c what calls) = calls @ [c]" and call_snd [simp]: "snd (call D c calls) = calls @ [c]"
  by (simp_all add: ask_def call_def)

lemma call_result: "call D c calls = (case D calls c of None \<Rightarrow> (Ok (), calls @ [c]) | Some e \<Rightarrow> (Err e, calls @ [c]))"
  by (simp add: call_def split: option.split)

lemma io_when_Inr: "io_when b m w = (Inr (), w') \<longleftrightarrow> (if b then m w = (Inr (), w') else w' = w)"
  by (auto simp: io_when_def)

text \<open>A loop whose body logs one call per element.\<close>

lemma io_each_calls:
  assumes "io_each f xs calls = (Inr (), calls')"
    and "\<And>x u u'. x \<in> set xs \<Longrightarrow> f x u = (Inr (), u') \<Longrightarrow> u' = u @ [c x]"
  shows "calls' = calls @ map c xs"
  using assms by (induction xs arbitrary: calls) (auto simp: io_bind_ok, fastforce)

text \<open>Where a loop stops when it fails: the elements before have been done.\<close>

lemma io_each_fails_at:
  assumes "io_each f xs calls = (Inl e, calls')"
  shows "\<exists>ys x zs mid. xs = ys @ x # zs \<and> io_each f ys calls = (Inr (), mid) \<and> f x mid = (Inl e, calls')"
  using assms
proof (induction xs arbitrary: calls)
  case (Cons x xs)
  show ?case
  proof (cases "fst (f x calls)")
    case (Inl e')
    with Cons.prems have "f x calls = (Inl e, calls')" by (cases "f x calls") auto
    then show ?thesis by (intro exI [of _ "[]"]) auto
  next
    case (Inr u)
    then obtain mid where mid: "f x calls = (Inr u, mid)" by (cases "f x calls") auto
    with Cons.prems have "io_each f xs mid = (Inl e, calls')" by simp
    from Cons.IH [OF this] obtain ys x' zs m where "xs = ys @ x' # zs" "io_each f ys mid = (Inr (), m)" "f x' m = (Inl e, calls')"
      by blast
    with mid show ?thesis by (intro exI [of _ "x # ys"]) auto
  qed
qed simp

lemma postgres_setup:
  assumes "postgres_copy_sink D show_f64 url table ds create trunc calls = (Inr n, calls')"
  obtains fq ddl mid where
    "rmap fq_name (split_table_ident table) = Ok fq" "pg_create_table_ddl fq (ds_schema ds) = Ok ddl"
    "mid = calls @ PgConnect url # (if create then [PgBatch ddl] else []) @ (if trunc then [PgExecute (''TRUNCATE TABLE '' @ fq)] else [])"
    "if row_count ds = 0 then n = 0 \<and> calls' = mid
     else n = row_count ds \<and> (\<exists>finish. io_each (copy_row D show_f64) (rows ds) (mid @ [PgCopyIn (copy_sql_of fq (ds_schema ds))]) = (Inr (), finish)
       \<and> calls' = finish @ [PgFinish])"
proof -
  define stream where "stream fq = (if row_count ds = 0 then io_ok 0
     else io_bind (ask D (PgCopyIn (copy_sql_of fq (ds_schema ds))) ''postgres copy_in: '') (\<lambda>_.
       io_bind (io_each (copy_row D show_f64) (rows ds)) (\<lambda>_.
       io_bind (ask D PgFinish ''postgres copy finish: '') (\<lambda>_. io_ok (row_count ds)))))" for fq
  have run: "postgres_copy_sink D show_f64 url table ds create trunc = io_bind (ask D (PgConnect url) ''postgres connect: '') (\<lambda>_.
     io_bind (io_of (rmap fq_name (split_table_ident table))) (\<lambda>fq.
     io_bind (io_when create
        (io_bind (io_of (pg_create_table_ddl fq (ds_schema ds))) (\<lambda>ddl. ask D (PgBatch ddl) ''postgres create table: ''))) (\<lambda>_.
     io_bind (io_when trunc (ask D (PgExecute (''TRUNCATE TABLE '' @ fq)) ''postgres truncate: '')) (\<lambda>_. stream fq))))"
    by (simp add: postgres_copy_sink_def stream_def)
  obtain fq mid where fq: "rmap fq_name (split_table_ident table) = Ok fq"
    and mid: "mid = calls @ PgConnect url # (if create then [PgBatch (projr (pg_create_table_ddl fq (ds_schema ds)))] else [])
      @ (if trunc then [PgExecute (''TRUNCATE TABLE '' @ fq)] else [])"
    and rest: "stream fq mid = (Inr n, calls')"
    using assms unfolding run
    by (elim io_bindE) (auto simp: ask_Inr io_when_Inr io_bind_ok pg_create_table_ddl_eq split: if_splits)
  have "if row_count ds = 0 then n = 0 \<and> calls' = mid
     else n = row_count ds \<and> (\<exists>finish. io_each (copy_row D show_f64) (rows ds) (mid @ [PgCopyIn (copy_sql_of fq (ds_schema ds))]) = (Inr (), finish)
       \<and> calls' = finish @ [PgFinish])"
    using rest by (auto simp: stream_def io_bind_ok ask_Inr)
  moreover have "pg_create_table_ddl fq (ds_schema ds) = Ok (projr (pg_create_table_ddl fq (ds_schema ds)))"
    by (simp add: pg_create_table_ddl_eq)
  ultimately show thesis using that fq mid by blast
qed

text \<open>C26: A successful PostgreSQL load connects, creates and truncates the table as asked, and then sends one
  COPY stream which PostgreSQL reads as exactly the rows of the dataset, nulls and special
  characters included.\<close>

theorem postgres_copy_exact:
  assumes "postgres_copy_sink D show_f64 url table ds create trunc calls = (Inr n, calls')" "rows ds \<noteq> []"
    and "\<forall>r\<in>set (rows ds). r \<noteq> [] \<and> (\<forall>v\<in>set r. case v of Utf8 s \<Rightarrow> valid_text s | _ \<Rightarrow> True)"
    and "\<forall>x. plain_text (show_f64 x)"
  shows "n = row_count ds \<and> (\<exists>fq ddl ws. rmap fq_name (split_table_ident table) = Ok fq \<and> pg_create_table_ddl fq (ds_schema ds) = Ok ddl \<and>
    calls' = calls @ PgConnect url # (if create then [PgBatch ddl] else []) @ (if trunc then [PgExecute (''TRUNCATE TABLE '' @ fq)] else [])
      @ PgCopyIn (copy_sql_of fq (ds_schema ds)) # map PgWrite ws @ [PgFinish] \<and>
    copy_parse (concat ws) = map (map (pg_text show_f64)) (rows ds))"
proof -
  obtain fq ddl mid finish where r:
    "rmap fq_name (split_table_ident table) = Ok fq" "pg_create_table_ddl fq (ds_schema ds) = Ok ddl"
    "mid = calls @ PgConnect url # (if create then [PgBatch ddl] else []) @ (if trunc then [PgExecute (''TRUNCATE TABLE '' @ fq)] else [])"
    "n = row_count ds" "io_each (copy_row D show_f64) (rows ds) (mid @ [PgCopyIn (copy_sql_of fq (ds_schema ds))]) = (Inr (), finish)"
    "calls' = finish @ [PgFinish]"
    using assms(2) by (rule_tac postgres_setup [OF assms(1)]) (auto simp: row_count_def)
  obtain ws where ws: "finish = mid @ PgCopyIn (copy_sql_of fq (ds_schema ds)) # map PgWrite ws" "concat ws = concat (map (row_text show_f64) (rows ds))"
    using only_writesD [OF only_writes_rows r(5)] by auto
  have "copy_parse (concat ws) = map (map (pg_text show_f64)) (rows ds)"
    unfolding ws(2) using copy_rows_copyable [OF r(5)] assms(3,4) by (intro copy_parse_rows) auto
  with r ws(1) show ?thesis by auto
qed

text \<open>C27: Whatever the column names are, the statement that creates a PostgreSQL table declares exactly the
  fields of the schema: read as PostgreSQL reads quoted identifiers, its column list is the list of
  field names with their types.\<close>

theorem create_table_columns:
  "sfields s \<noteq> [] \<longrightarrow> (\<exists>body. pg_create_table_ddl fq s = Ok (''CREATE TABLE IF NOT EXISTS '' @ fq @ '' ('' @ body) \<and>
     parse_columns body = Some (map (\<lambda>f. (fname f, '' '' @ pg_type (ftype f))) (sfields s)))"
proof
  assume "sfields s \<noteq> []"
  then have "parse_columns (join_str '', '' (map (\<lambda>(n, ty). quote_pg_ident n @ '' '' @ ty) (map (\<lambda>f. (fname f, pg_type (ftype f))) (sfields s))) @ '')'') =
      Some (map (\<lambda>(n, ty). (n, '' '' @ ty)) (map (\<lambda>f. (fname f, pg_type (ftype f))) (sfields s)))"
    by (intro parse_columns_list) (auto dest: pg_type_plain)
  then show "\<exists>body. pg_create_table_ddl fq s = Ok (''CREATE TABLE IF NOT EXISTS '' @ fq @ '' ('' @ body) \<and>
     parse_columns body = Some (map (\<lambda>f. (fname f, '' '' @ pg_type (ftype f))) (sfields s))"
    by (simp add: pg_create_table_ddl_eq comp_def)
qed

subsection \<open>Oracle and SQL Server loads\<close>

definition oracle_text :: "(f64 \<Rightarrow> string) \<Rightarrow> value_t \<Rightarrow> string" where
  "oracle_text show_f64 v =
     (case v of Null \<Rightarrow> [] | Utf8 s \<Rightarrow> s | Int64 i \<Rightarrow> show_i64 i | Float64 x \<Rightarrow> show_f64 x | Bool b \<Rightarrow> if b then ''1'' else ''0'')"

definition ms_bind :: "value_t \<Rightarrow> bind" where
  "ms_bind v =
     (case v of Null \<Rightarrow> BindNone | Utf8 s \<Rightarrow> BindText s | Int64 i \<Rightarrow> BindI64 i | Float64 x \<Rightarrow> BindF64 x | Bool b \<Rightarrow> BindBool b)"

lemma oracle_value_typed: "has_type v t \<Longrightarrow> oracle_value_string show_f64 dbg v t = Ok (oracle_text show_f64 v)"
  by (cases v; cases t) (simp_all add: oracle_value_string_def oracle_text_def)

lemma mssql_bind_typed: "has_type v (ftype f) \<Longrightarrow> mssql_bind dbg (f, v) = Ok (ms_bind v)"
  by (cases v; cases "ftype f") (simp_all add: mssql_bind_def ms_bind_def)

lemma oracle_binds_from:
  assumes "distinct (map fname (pre @ fs))" "list_all2 (\<lambda>v f. has_type v (ftype f)) vs fs" "length us = length pre"
  shows "oracle_binds show_f64 dbg (map fname (pre @ fs)) (zip fs vs) (us @ replicate (length fs) None) =
    Ok (us @ map (\<lambda>v. Some (oracle_text show_f64 v)) vs)"
  using assms(2) assms(1,3)
proof (induction arbitrary: pre us rule: list_all2_induct)
  case (Cons v vs f fs)
  have pos: "position (\<lambda>n. n = fname f) (map fname (pre @ f # fs)) = Some (length us)"
    using Cons.prems by (auto simp: position_Some_iff nth_append) (metis imageI nth_mem)
  have "oracle_binds show_f64 dbg (map fname ((pre @ [f]) @ fs)) (zip fs vs) ((us @ [Some (oracle_text show_f64 v)]) @ replicate (length fs) None) =
      Ok ((us @ [Some (oracle_text show_f64 v)]) @ map (\<lambda>v. Some (oracle_text show_f64 v)) vs)"
    using Cons.prems by (intro Cons.IH) simp_all
  then show ?case using pos Cons.hyps(1) by (simp add: oracle_value_typed)
qed simp

lemma oracle_binds_row:
  assumes "distinct (field_names s)" "wf_row s r"
  shows "oracle_binds show_f64 dbg (field_names s) (zip (sfields s) r) (replicate (length (sfields s)) None) =
    Ok (map (\<lambda>v. Some (oracle_text show_f64 v)) r)"
  using oracle_binds_from [of "[]" "sfields s" r "[]" show_f64 dbg] assms by (simp add: field_names_def wf_row_def)

lemma traverse_mssql: "wf_row s r \<Longrightarrow> traverse (mssql_bind dbg) (zip (sfields s) r) = Ok (map ms_bind r)"
proof -
  assume "wf_row s r"
  then have wf: "list_all2 (\<lambda>v f. has_type v (ftype f)) r (sfields s)" by (simp add: wf_row_def)
  have "traverse (mssql_bind dbg) (zip fs r) = Ok (map ms_bind r)" if "list_all2 (\<lambda>v f. has_type v (ftype f)) r fs" for fs
    using that by (induction rule: list_all2_induct) (simp_all add: mssql_bind_typed)
  with wf show ?thesis by blast
qed

text \<open>C28: Oracle rows become visible together: if a load of a well-formed dataset gets as far as the commit,
  the statements before it are the connection, the drop and create as asked and one insert per row
  with the texts of its cells, in order; a load that fails before has committed nothing.\<close>

theorem oracle_commit_last:
  assumes "oracle_row_sink D show_f64 dbg url table ds create trunc [] = (r, calls')" "OraCommit \<in> set calls'"
    and "wf_ds ds" "distinct (field_names (ds_schema ds))"
  shows "\<exists>before. calls' = before @ map (\<lambda>row. OraExecute (oracle_insert_sql table (field_names (ds_schema ds))) (map (\<lambda>v. Some (oracle_text show_f64 v)) row)) (rows ds) @ [OraCommit]
    \<and> length before = 1 + of_bool trunc + of_bool create"
proof -
  let ?sql = "oracle_insert_sql table (field_names (ds_schema ds))"
  let ?ins = "oracle_insert_row D show_f64 dbg ?sql (ds_schema ds)"
  let ?exec = "\<lambda>row. OraExecute ?sql (map (\<lambda>v. Some (oracle_text show_f64 v)) row)"
  define load where "load = io_bind (io_each ?ins (enumerate 0 (rows ds))) (\<lambda>_. io_bind (call D OraCommit) (\<lambda>_. io_ok (row_count ds)))"
  have ins: "?ins (i, row) u = (w, u') \<Longrightarrow> OraCommit \<notin> set u \<Longrightarrow> OraCommit \<notin> set u'" for i row u w u'
    by (auto simp: oracle_insert_row_def oracle_execute_insert_def io_bind_def io_map_err_def call_result
        split: sum.splits if_splits option.splits)
  have each: "io_each ?ins xs u = (w, u') \<Longrightarrow> OraCommit \<notin> set u \<Longrightarrow> OraCommit \<notin> set u'" for xs u w u'
  proof (induction xs arbitrary: u)
    case (Cons x xs)
    obtain w1 u1 where x: "?ins x u = (w1, u1)" by fastforce
    moreover obtain i row where "x = (i, row)" by (cases x)
    ultimately have "OraCommit \<notin> set u1" using ins Cons.prems(2) by blast
    with Cons x show ?case by (cases w1) auto
  qed simp
  have exec: "u' = u @ [?exec row]" if "?ins (i, row) u = (Inr (), u')" "wf_row (ds_schema ds) row" for i row u u'
    using that oracle_binds_row [OF assms(4) that(2)]
    by (auto simp: oracle_insert_row_def oracle_execute_insert_def io_bind_ok io_map_err_ok call_Inr split: if_splits)
  have run: "oracle_row_sink D show_f64 dbg url table ds create trunc = io_bind (io_of (oracle_connect_parts url)) (\<lambda>(user, pass, hostpart).
     io_bind (call D (OraConnect user pass hostpart)) (\<lambda>_.
     io_bind (io_when trunc (io_ignore (call D (OraExecute (''DROP TABLE '' @ table @ '' PURGE'') [])))) (\<lambda>_.
     io_bind (io_when create (io_bind (io_of (oracle_create_table_ddl table (ds_schema ds)))
                 (\<lambda>ddl. ask D (OraExecute ddl []) ''oracle create table: ''))) (\<lambda>_. load))))"
    by (simp add: oracle_row_sink_def load_def)
  obtain before where before: "load before = (r, calls')" "OraCommit \<notin> set before" "length before = 1 + of_bool trunc + of_bool create"
    using assms(1,2) unfolding run
    by (auto simp: io_bind_def io_when_def io_ignore_def ask_def io_map_err_def call_result split: sum.splits option.splits prod.splits if_splits)
  obtain w u where u: "io_each ?ins (enumerate 0 (rows ds)) before = (w, u)" by fastforce
  have no: "OraCommit \<notin> set u" using each [OF u before(2)] .
  then obtain x where w: "w = Inr x" using before(1) u assms(2) by (cases w) (auto simp: load_def)
  have calls': "calls' = u @ [OraCommit]" using before(1) u w
    by (auto simp: load_def io_bind_def call_result split: option.splits)
  have "u = before @ map (\<lambda>(i, row). ?exec row) (enumerate 0 (rows ds))"
    using u w assms(3)
    by (intro io_each_calls [of ?ins "enumerate 0 (rows ds)"]) (auto simp: wf_ds_row dest!: exec set_zip_rightD simp: enumerate_eq_zip)
  moreover have "map (\<lambda>(i, row). ?exec row) (enumerate 0 (rows ds)) = map ?exec (rows ds)"
    by (rule nth_equalityI) (simp_all add: nth_enumerate_eq)
  ultimately show ?thesis using calls' before(3) by (intro exI [of _ before]) simp
qed

text \<open>A loop of single statements: they are sent in order up to the first one refused.\<close>

lemma io_each_asks:
  assumes "\<And>x u. x \<in> set xs \<Longrightarrow> f x u = ask D (c x) (m x) u" "io_each f xs before = (w, u)"
  shows "\<exists>k\<le>length xs. u = before @ map c (take k xs) \<and>
    (w = Inr () \<and> k = length xs \<or>
     \<not> is_ok w \<and> 0 < k \<and> D (before @ map c (take (k - 1) xs)) (last (before @ map c (take k xs))) \<noteq> None)"
  using assms
proof (induction xs arbitrary: before)
  case (Cons x xs)
  show ?case
  proof (cases "D before (c x)")
    case None
    then have "ask D (c x) (m x) before = (Inr (), before @ [c x])" by (simp add: ask_Inr)
    then have "io_each f xs (before @ [c x]) = (w, u)" using Cons.prems by simp
    with Cons.IH [of "before @ [c x]"] Cons.prems(1) obtain k where "k \<le> length xs" "u = (before @ [c x]) @ map c (take k xs)"
      "w = Inr () \<and> k = length xs \<or> \<not> is_ok w \<and> 0 < k \<and>
        D ((before @ [c x]) @ map c (take (k - 1) xs)) (last ((before @ [c x]) @ map c (take k xs))) \<noteq> None" by auto
    then show ?thesis by (intro exI [of _ "Suc k"]) (auto simp: take_Cons')
  next
    case (Some t)
    then obtain e where "ask D (c x) (m x) before = (Inl e, before @ [c x])" "u = before @ [c x]" "w = Inl e"
      using Cons.prems by (cases "ask D (c x) (m x) before"; cases "fst (ask D (c x) (m x) before)") (auto simp: ask_Inr ask_Inl)
    with Some show ?thesis by (intro exI [of _ 1]) auto
  qed
qed simp

text \<open>What a SQL Server load sends before its inserts.\<close>

lemma mssql_before_inserts:
  assumes "mssql_connect_config parse_url url = Ok config"
    and "\<And>calls c. \<nexists>sql binds. c = MsExecute sql binds \<Longrightarrow> D calls c = None"
  obtains before where "length before = 3 + 2 * of_bool create + 2 * of_bool trunc"
    "mssql_row_sink D parse_url dbg url table ds create trunc [] =
       io_bind (io_each (mssql_insert_row D dbg (mssql_insert_sql table (field_names (ds_schema ds))) (ds_schema ds)) (enumerate 0 (rows ds)))
         (\<lambda>_. io_ok (row_count ds)) before"
proof -
  have accept: "ask D c what calls = (Inr (), calls @ [c])" "call D c calls = (Inr (), calls @ [c])" if "\<nexists>sql binds. c = MsExecute sql binds" for c what calls
    using assms(2) [OF that] by (simp_all add: ask_Inr call_Inr)
  have stmt: "mssql_statement D sql what calls = (Inr (), calls @ [MsQuery sql, MsResults])" for sql what calls
    by (simp add: mssql_statement_def io_bind_def accept)
  have "is_ok (traverse (\<lambda>f. rmap (\<lambda>ty. bracket (fname f) @ '' '' @ ty) (mssql_type_sql (ftype f))) (sfields (ds_schema ds)))"
    by (rule traverse_total) (simp add: mssql_type_sql_def)
  then obtain sql where sql: "mssql_create_table_ddl table (ds_schema ds) = Inr sql" by (auto simp: mssql_create_table_ddl_def is_ok_iff)
  show thesis
    by (rule that [of "[MsRuntime, MsTcp (mc_host config) (mc_port config), MsConnect config] @
        (if create then [MsQuery sql, MsResults] else []) @
        (if trunc then [MsQuery (object_id table @ ''NOT NULL TRUNCATE TABLE '' @ table), MsResults] else [])"])
      (simp_all add: mssql_row_sink_def assms(1) io_bind_def accept stmt sql io_when_def)
qed

text \<open>SQL Server rows are inserted one by one without a transaction: when the server accepts the
  statements before them, a load sends the rows in order up to the first one refused, and the rows
  before it stay inserted although the load reports an error.\<close>

theorem mssql_keeps_rows_before_failure:
  assumes "mssql_connect_config parse_url url = Ok config" "wf_ds ds"
    and "\<And>calls c. \<nexists>sql binds. c = MsExecute sql binds \<Longrightarrow> D calls c = None"
  shows "\<exists>k before r. let sent = \<lambda>n. before @ map (\<lambda>row. MsExecute (mssql_insert_sql table (field_names (ds_schema ds))) (map ms_bind row)) (take n (rows ds)) in
    mssql_row_sink D parse_url dbg url table ds create trunc [] = (r, sent k) \<and> length before = 3 + 2 * of_bool create + 2 * of_bool trunc \<and>
    (r = Ok (row_count ds) \<and> k = row_count ds \<or>
     \<not> is_ok r \<and> 0 < k \<and> k \<le> row_count ds \<and> D (sent (k - 1)) (last (sent k)) \<noteq> None)"
proof -
  let ?ins = "mssql_insert_row D dbg (mssql_insert_sql table (field_names (ds_schema ds))) (ds_schema ds)"
  let ?exec = "\<lambda>row. MsExecute (mssql_insert_sql table (field_names (ds_schema ds))) (map ms_bind row)"
  have ins: "?ins x u = ask D (?exec (snd x)) (''mssql insert row '' @ show_nat (fst x) @ '': '') u" if "x \<in> set (enumerate 0 (rows ds))" for x u
  proof -
    have "snd x \<in> set (rows ds)" using that by (metis enumerate_eq_zip prod.collapse set_zip_rightD)
    then show ?thesis
      using traverse_mssql [OF wf_ds_row [OF assms(2)], of "snd x" dbg] by (simp add: mssql_insert_row_def split_beta)
  qed
  have rows_eq: "map (\<lambda>x. ?exec (snd x)) (take k (enumerate 0 (rows ds))) = map ?exec (take k (rows ds))" for k
    by (rule nth_equalityI) (simp_all add: nth_enumerate_eq)
  obtain before where before: "length before = 3 + 2 * of_bool create + 2 * of_bool trunc"
    "mssql_row_sink D parse_url dbg url table ds create trunc [] =
       io_bind (io_each ?ins (enumerate 0 (rows ds))) (\<lambda>_. io_ok (row_count ds)) before"
    by (rule mssql_before_inserts [OF assms(1,3)])
  obtain w u where w: "io_each ?ins (enumerate 0 (rows ds)) before = (w, u)" by fastforce
  from io_each_asks [of "enumerate 0 (rows ds)" ?ins, OF ins w] obtain k where k: "k \<le> row_count ds" "u = before @ map ?exec (take k (rows ds))"
    "w = Inr () \<and> k = row_count ds \<or> \<not> is_ok w \<and> 0 < k \<and>
      D (before @ map ?exec (take (k - 1) (rows ds))) (last (before @ map ?exec (take k (rows ds)))) \<noteq> None"
    unfolding rows_eq by (auto simp: row_count_def)
  show ?thesis
    by (rule exI [of _ k], rule exI [of _ before], rule exI [of _ "fst (io_bind (io_each ?ins (enumerate 0 (rows ds))) (\<lambda>_. io_ok (row_count ds)) before)"])
      (use before k w in \<open>cases w; auto simp: io_bind_def is_ok_iff\<close>)
qed

subsection \<open>Deviations\<close>

definition accept_all :: driver where
  "accept_all = (\<lambda>_ _. None)"

text \<open>
  Names go between brackets unescaped for SQL Server: a schema of one column and a schema of two
  columns get the same statement. The table name is not checked either, for Oracle and SQL Server.
\<close>

lemma mssql_ddl_ambiguous:
  "mssql_create_table_ddl ''t'' \<lparr>sfields = [mk_field ''a] BIGINT, [b'' TInt64]\<rparr> =
   mssql_create_table_ddl ''t'' \<lparr>sfields = [mk_field ''a'' TInt64, mk_field ''b'' TInt64]\<rparr>"
  by (simp add: mssql_create_table_ddl_def mssql_type_sql_def mk_field_def bracket_def)

text \<open>A PostgreSQL load that fails on a cell has already truncated the table, outside any transaction.\<close>

lemma truncate_before_failed_copy:
  "case postgres_copy_sink accept_all (\<lambda>_. []) ''u'' ''t'' \<lparr>ds_schema = \<lparr>sfields = [mk_field ''a'' TUtf8]\<rparr>, rows = [[Utf8 [CHR 0x01]]]\<rparr> False True [] of
     (r, calls) \<Rightarrow> \<not> is_ok r \<and> PgFinish \<notin> set calls \<and> take 2 calls = [PgConnect ''u'', PgExecute (''TRUNCATE TABLE '' @ fq_name (''public'', ''t''))]"
  by code_simp

text \<open>
  Oracle: a table that exists makes the load fail although it is to be created only if missing; and
  with nine columns the table is dropped and created before the row is refused.
\<close>

definition table_exists :: driver where
  "table_exists = (\<lambda>_ c. case c of OraExecute sql _ \<Rightarrow> if starts_with ''CREATE TABLE'' sql then Some ''ORA-00955'' else None | _ \<Rightarrow> None)"

lemma oracle_reload_fails:
  "case oracle_row_sink table_exists (\<lambda>_. []) (\<lambda>_. []) ''oracle://u:p@h'' ''t'' \<lparr>ds_schema = \<lparr>sfields = [mk_field ''a'' TInt64]\<rparr>, rows = [[Int64 1]]\<rparr> True False [] of
     (r, calls) \<Rightarrow> r = Err ''oracle create table: ORA-00955'' \<and> length calls = 2"
  by code_simp

lemma oracle_wide_drops:
  "case oracle_row_sink accept_all (\<lambda>_. []) (\<lambda>_. []) ''oracle://u:p@h'' ''t''
       \<lparr>ds_schema = \<lparr>sfields = map (\<lambda>c. mk_field [c] TInt64) ''abcdefghi''\<rparr>, rows = [replicate 9 (Int64 1)]\<rparr> True True [] of
     (r, calls) \<Rightarrow> \<not> is_ok r \<and> calls ! 1 = OraExecute ''DROP TABLE t PURGE'' [] \<and> OraCommit \<notin> set calls"
  by code_simp

subsection \<open>Witnesses\<close>

definition two_cells :: data_set where
  "two_cells = \<lparr>ds_schema = \<lparr>sfields = [mk_field ''a'' TUtf8, mk_field ''b'' TInt64]\<rparr>, rows = [[Utf8 [CHR 0x09, CHR ''x''], Int64 7], [Null, Int64 8]]\<rparr>"

lemma postgres_copy_exact_witness:
  "\<exists>calls' ws. postgres_copy_sink accept_all (\<lambda>_. []) ''u'' ''t'' two_cells True False [] = (Inr 2, calls') \<and>
    set (map PgWrite ws) \<subseteq> set calls' \<and> copy_parse (concat ws) = [[Some [CHR 0x09, CHR ''x''], Some ''7''], [None, Some ''8'']]"
proof -
  let ?run = "postgres_copy_sink accept_all (\<lambda>_. []) ''u'' ''t'' two_cells True False []"
  have "fst ?run = Inr 2" by code_simp
  then obtain calls' where run: "?run = (Inr 2, calls')" by (cases ?run) auto
  have "rows two_cells \<noteq> []" by (simp add: two_cells_def)
  moreover have "\<forall>r\<in>set (rows two_cells). r \<noteq> [] \<and> (\<forall>v\<in>set r. case v of Utf8 s \<Rightarrow> valid_text s | _ \<Rightarrow> True)"
    by (simp add: two_cells_def valid_text_def is_cont_def)
  moreover have "\<forall>x. plain_text ((\<lambda>_ :: f64. []) x)" by (simp add: plain_text_def)
  moreover have "map (map (pg_text (\<lambda>_. []))) (rows two_cells) = [[Some [CHR 0x09, CHR ''x''], Some ''7''], [None, Some ''8'']]"
    by code_simp
  ultimately show ?thesis using postgres_copy_exact [OF run] run by fastforce
qed

lemma create_table_columns_witness:
  "\<exists>body. pg_create_table_ddl ''t'' (ds_schema two_cells) = Ok (''CREATE TABLE IF NOT EXISTS t ('' @ body) \<and>
     parse_columns body = Some [(''a'', '' TEXT''), (''b'', '' BIGINT'')]"
  using create_table_columns [of "ds_schema two_cells" "''t''"]
  by (auto simp: two_cells_def mk_field_def pg_type_def pg_type_sql_def)

lemma oracle_commit_last_witness:
  "\<exists>before calls'. snd (oracle_row_sink accept_all (\<lambda>_. []) (\<lambda>_. []) ''oracle://u:p@h'' ''t'' two_cells True False []) = calls' \<and>
    calls' = before @ [OraExecute ''INSERT INTO t (a, b) VALUES (:1, :2)'' [Some [CHR 0x09, CHR ''x''], Some ''7''],
      OraExecute ''INSERT INTO t (a, b) VALUES (:1, :2)'' [Some [], Some ''8''], OraCommit]"
proof -
  let ?run = "oracle_row_sink accept_all (\<lambda>_. []) (\<lambda>_. []) ''oracle://u:p@h'' ''t'' two_cells True False []"
  obtain r calls' where run: "?run = (r, calls')" by fastforce
  have "OraCommit \<in> set (snd ?run)" by code_simp
  with run have commit: "OraCommit \<in> set calls'" by simp
  have wf: "wf_ds two_cells" "distinct (field_names (ds_schema two_cells))"
    by (simp_all add: two_cells_def wf_ds_def wf_row_def mk_field_def field_names_def)
  have "map (\<lambda>row. OraExecute (oracle_insert_sql ''t'' (field_names (ds_schema two_cells))) (map (\<lambda>v. Some (oracle_text (\<lambda>_. []) v)) row)) (rows two_cells) =
     [OraExecute ''INSERT INTO t (a, b) VALUES (:1, :2)'' [Some [CHR 0x09, CHR ''x''], Some ''7''],
      OraExecute ''INSERT INTO t (a, b) VALUES (:1, :2)'' [Some [], Some ''8'']]" by code_simp
  with oracle_commit_last [OF run commit wf] run show ?thesis by auto
qed

definition ms_url :: "string \<Rightarrow> (string, url) res" where
  "ms_url _ = Ok \<lparr>u_scheme = ''mssql'', u_host = Some ''h'', u_port = None, u_username = ''u'', u_password = None, u_path = ''/d'', u_query = []\<rparr>"

text \<open>A server that refuses the second insert.\<close>

definition refuses_second :: driver where
  "refuses_second = (\<lambda>calls c. case c of MsExecute _ _ \<Rightarrow> if list_ex (\<lambda>d. case d of MsExecute _ _ \<Rightarrow> True | _ \<Rightarrow> False) calls then Some ''full'' else None | _ \<Rightarrow> None)"

lemma mssql_keeps_rows_before_failure_witness:
  "\<exists>before k r. mssql_row_sink refuses_second ms_url (\<lambda>_. []) ''m'' ''t'' two_cells False False [] =
     (r, before @ map (\<lambda>row. MsExecute (mssql_insert_sql ''t'' [''a'', ''b'']) (map ms_bind row)) (take k (rows two_cells))) \<and> length before = 3 \<and> 0 < k"
proof -
  have config: "mssql_connect_config ms_url ''m'' = Ok \<lparr>mc_host = ''h'', mc_port = 1433, mc_user = ''u'', mc_password = [], mc_database = Some ''d'', mc_trust_cert = False\<rparr>"
    by code_simp
  have "wf_ds two_cells" by (simp add: two_cells_def wf_ds_def wf_row_def mk_field_def)
  moreover have "refuses_second calls c = None" if "\<nexists>sql binds. c = MsExecute sql binds" for calls c
    using that by (cases c) (auto simp: refuses_second_def)
  moreover have "field_names (ds_schema two_cells) = [''a'', ''b'']" "row_count two_cells = 2"
    by (simp_all add: two_cells_def field_names_def mk_field_def row_count_def)
  ultimately obtain k before r where
    "mssql_row_sink refuses_second ms_url (\<lambda>_. []) ''m'' ''t'' two_cells False False [] =
      (r, before @ map (\<lambda>row. MsExecute (mssql_insert_sql ''t'' [''a'', ''b'']) (map ms_bind row)) (take k (rows two_cells)))"
    "length before = 3" "0 < k"
    using mssql_keeps_rows_before_failure [OF config, of two_cells refuses_second "''t''" "\<lambda>_. []" False False]
    by (auto simp: Let_def)
  then show ?thesis by blast
qed

end
