(* ===== verification/Database.thy ===== *)
theory Database
  imports Unified
begin

text \<open>
  Database ingestion (\<open>src/ingestion/db.rs\<close>): the record batches a query yields through ConnectorX,
  converted cell by cell into the declared or the inferred schema, then filtered by the watermark.
  An array is the list of its cells, null or not; single-precision cells by their widening. The
  library's answers are the fields of \<open>connectorx\<close>; \<open>dbg\<close> is the debug text of a whole array.
\<close>

subsection \<open>Batches\<close>

datatype db_dtype =
    DtBoolean | DtFloat16 | DtFloat32 | DtFloat64
  | DtInt8 | DtInt16 | DtInt32 | DtInt64 | DtUInt8 | DtUInt16 | DtUInt32 | DtUInt64
  | DtUtf8 | DtLargeUtf8 | DtOther string

datatype db_array =
    DbBoolean "bool option list"
  | DbInt8 "8 word option list" | DbInt16 "16 word option list" | DbInt32 "32 word option list" | DbInt64 "64 word option list"
  | DbUInt8 "8 word option list" | DbUInt16 "16 word option list" | DbUInt32 "32 word option list" | DbUInt64 "64 word option list"
  | DbFloat32 "f64 option list" | DbFloat64 "f64 option list"
  | DbString "string option list"
  | DbOther string "bool list"

record db_batch =
  db_fields :: "(string \<times> db_dtype) list"
  db_columns :: "db_array list"
  db_rows :: nat

record connectorx =
  cx_source :: "string \<Rightarrow> string option"
  cx_get_arrow :: "string \<Rightarrow> string list \<Rightarrow> err_src option"
  cx_arrow :: "string \<Rightarrow> string list \<Rightarrow> err_src + db_batch list"
  cx_dbg :: "db_array \<Rightarrow> string"
  cx_show_f64 :: "f64 \<Rightarrow> string"

definition run_connectorx :: "connectorx \<Rightarrow> string \<Rightarrow> string list \<Rightarrow> db_batch list result" where
  "run_connectorx C conn queries =
     (case cx_source C conn of
        Some e \<Rightarrow> Err (SchemaMismatch (''invalid db connection string: '' @ e))
      | None \<Rightarrow>
          (case cx_get_arrow C conn queries of
             Some e \<Rightarrow> Err (EngineErr ''failed to ingest from db via connectorx'' e)
           | None \<Rightarrow>
               (case cx_arrow C conn queries of
                  Inl e \<Rightarrow> Err (EngineErr ''failed to extract Arrow record batches from connectorx destination'' e)
                | Inr batches \<Rightarrow> Ok batches)))"

definition infer_schema_from_record_batches_lossy :: "db_batch list \<Rightarrow> schema result" where
  "infer_schema_from_record_batches_lossy batches =
     (case batches of
        [] \<Rightarrow> Err (SchemaMismatch ''db query returned zero record batches'')
      | b # _ \<Rightarrow> Ok (schema_new (map (\<lambda>(n, t). mk_field n
          (if t = DtBoolean then TBool
           else if t \<in> {DtFloat16, DtFloat32, DtFloat64} then TFloat64
           else if t \<in> {DtInt8, DtInt16, DtInt32, DtInt64, DtUInt8, DtUInt16, DtUInt32, DtUInt64} then TInt64
           else TUtf8)) (db_fields b))))"

subsection \<open>Cells\<close>

text \<open>\<open>is_null\<close>, which panics past the end.\<close>

definition db_is_null :: "db_array \<Rightarrow> nat \<Rightarrow> bool result" where
  "db_is_null arr row_i =
     (case arr of
        DbBoolean a \<Rightarrow> rmap (\<lambda>c. c = None) (index a row_i)
      | DbInt8 a \<Rightarrow> rmap (\<lambda>c. c = None) (index a row_i) | DbInt16 a \<Rightarrow> rmap (\<lambda>c. c = None) (index a row_i)
      | DbInt32 a \<Rightarrow> rmap (\<lambda>c. c = None) (index a row_i) | DbInt64 a \<Rightarrow> rmap (\<lambda>c. c = None) (index a row_i)
      | DbUInt8 a \<Rightarrow> rmap (\<lambda>c. c = None) (index a row_i) | DbUInt16 a \<Rightarrow> rmap (\<lambda>c. c = None) (index a row_i)
      | DbUInt32 a \<Rightarrow> rmap (\<lambda>c. c = None) (index a row_i) | DbUInt64 a \<Rightarrow> rmap (\<lambda>c. c = None) (index a row_i)
      | DbFloat32 a \<Rightarrow> rmap (\<lambda>c. c = None) (index a row_i) | DbFloat64 a \<Rightarrow> rmap (\<lambda>c. c = None) (index a row_i)
      | DbString a \<Rightarrow> rmap (\<lambda>c. c = None) (index a row_i)
      | DbOther _ a \<Rightarrow> index a row_i)"

definition db_value :: "'a option list \<Rightarrow> nat \<Rightarrow> 'a" where
  "db_value a row_i = the (a ! row_i)"

definition db_integer :: "connectorx \<Rightarrow> nat \<Rightarrow> string \<Rightarrow> f64 \<Rightarrow> value_t result" where
  "db_integer C row_i name v =
     (if feq (ffract v) (fzero False) then Ok (Int64 (to_i64 v))
      else Err (ParseError (row_i + 1) name (RawText (cx_show_f64 C v)) ''expected integer (got non-integer float)''))"

definition arrow_value_to_value :: "connectorx \<Rightarrow> db_array \<Rightarrow> nat \<Rightarrow> data_type \<Rightarrow> string \<Rightarrow> value_t result" where
  "arrow_value_to_value C arr row_i t name =
     rbind (db_is_null arr row_i) (\<lambda>null.
     if null then Ok Null
     else case t of
       TBool \<Rightarrow> (case arr of
           DbBoolean a \<Rightarrow> Ok (Bool (db_value a row_i))
         | _ \<Rightarrow> Err (SchemaMismatch (''column '' @ sq name @ '' is not boolean'')))
     | TInt64 \<Rightarrow> (case arr of
           DbInt64 a \<Rightarrow> Ok (Int64 (db_value a row_i))
         | DbInt32 a \<Rightarrow> Ok (Int64 (scast (db_value a row_i)))
         | DbInt16 a \<Rightarrow> Ok (Int64 (scast (db_value a row_i)))
         | DbInt8 a \<Rightarrow> Ok (Int64 (scast (db_value a row_i)))
         | DbUInt64 a \<Rightarrow> Ok (Int64 (db_value a row_i))
         | DbUInt32 a \<Rightarrow> Ok (Int64 (ucast (db_value a row_i)))
         | DbUInt16 a \<Rightarrow> Ok (Int64 (ucast (db_value a row_i)))
         | DbUInt8 a \<Rightarrow> Ok (Int64 (ucast (db_value a row_i)))
         | DbFloat64 a \<Rightarrow> db_integer C row_i name (db_value a row_i)
         | DbFloat32 a \<Rightarrow> db_integer C row_i name (db_value a row_i)
         | _ \<Rightarrow> Err (SchemaMismatch (''column '' @ sq name @ '' is not an integer-compatible Arrow array'')))
     | TFloat64 \<Rightarrow> (case arr of
           DbFloat64 a \<Rightarrow> Ok (Float64 (db_value a row_i))
         | DbFloat32 a \<Rightarrow> Ok (Float64 (db_value a row_i))
         | DbInt64 a \<Rightarrow> Ok (Float64 (of_int64 (sint (db_value a row_i))))
         | DbInt32 a \<Rightarrow> Ok (Float64 (of_int64 (sint (db_value a row_i))))
         | DbInt16 a \<Rightarrow> Ok (Float64 (of_int64 (sint (db_value a row_i))))
         | DbInt8 a \<Rightarrow> Ok (Float64 (of_int64 (sint (db_value a row_i))))
         | DbUInt64 a \<Rightarrow> Ok (Float64 (of_int64 (uint (db_value a row_i))))
         | DbUInt32 a \<Rightarrow> Ok (Float64 (of_int64 (uint (db_value a row_i))))
         | DbUInt16 a \<Rightarrow> Ok (Float64 (of_int64 (uint (db_value a row_i))))
         | DbUInt8 a \<Rightarrow> Ok (Float64 (of_int64 (uint (db_value a row_i))))
         | _ \<Rightarrow> Err (SchemaMismatch (''column '' @ sq name @ '' is not a float-compatible Arrow array'')))
     | TUtf8 \<Rightarrow> (case arr of
           DbString a \<Rightarrow> Ok (Utf8 (db_value a row_i))
         | _ \<Rightarrow> Ok (Utf8 (cx_dbg C arr))))"

definition db_row :: "connectorx \<Rightarrow> db_batch \<Rightarrow> schema \<Rightarrow> nat list \<Rightarrow> nat \<Rightarrow> row result" where
  "db_row C b s col_idx row_i =
     traverse (\<lambda>(f, idx). rbind (index (db_columns b) idx) (\<lambda>arr. arrow_value_to_value C arr row_i (ftype f) (fname f)))
       (zip (sfields s) col_idx)"

definition db_batch_to_dataset :: "connectorx \<Rightarrow> schema \<Rightarrow> db_batch \<Rightarrow> data_set result" where
  "db_batch_to_dataset C s b =
     rbind (traverse (\<lambda>f. ok_or (SchemaMismatch (''missing required column '' @ sq (fname f)))
         (position (\<lambda>(n, _). n = fname f) (db_fields b))) (sfields s)) (\<lambda>col_idx.
     rmap (data_set_new s) (traverse (db_row C b s col_idx) [0..<db_rows b]))"

definition db_batches_to_dataset :: "connectorx \<Rightarrow> db_batch list \<Rightarrow> schema \<Rightarrow> data_set result" where
  "db_batches_to_dataset C batches s =
     rmap (\<lambda>dss. data_set_new s (concat (map rows dss))) (traverse (db_batch_to_dataset C s) batches)"

subsection \<open>Ingestion\<close>

definition ingest_from_db :: "connectorx \<Rightarrow> string \<Rightarrow> string \<Rightarrow> schema \<Rightarrow> 'w ingestion_options \<Rightarrow> data_set result" where
  "ingest_from_db C conn query s opts =
     rbind (validate_watermark_config s opts) (\<lambda>_.
     rbind (run_connectorx C conn [query]) (\<lambda>batches.
     rbind (db_batches_to_dataset C batches s) (\<lambda>ds.
     apply_watermark_after_ingest ds s opts)))"

definition ingest_from_db_infer :: "connectorx \<Rightarrow> string \<Rightarrow> string \<Rightarrow> 'w ingestion_options \<Rightarrow> data_set result" where
  "ingest_from_db_infer C conn query opts =
     rbind (run_connectorx C conn [query]) (\<lambda>batches.
     rbind (infer_schema_from_record_batches_lossy batches) (\<lambda>s.
     rbind (validate_watermark_config s opts) (\<lambda>_.
     rbind (db_batches_to_dataset C batches s) (\<lambda>ds.
     apply_watermark_after_ingest ds s opts))))"

subsection \<open>Properties\<close>

lemma arrow_value_typed: "arrow_value_to_value C arr row_i t name = Ok v \<Longrightarrow> has_type v t"
  by (auto simp: arrow_value_to_value_def db_integer_def rbind_Inr_iff split: if_splits data_type.splits db_array.splits)

lemma db_batch_wf:
  assumes "db_batch_to_dataset C s b = Ok d"
  shows "ds_schema d = s \<and> wf_ds d"
proof -
  obtain col_idx rs where len: "length col_idx = length (sfields s)" and rs: "traverse (db_row C b s col_idx) [0..<db_rows b] = Ok rs"
    and d: "d = data_set_new s rs"
    using assms by (auto simp: db_batch_to_dataset_def rbind_Inr_iff rmap_Inr_iff dest: traverse_length)
  have "wf_row s r" if "r \<in> set rs" for r
  proof -
    obtain i where "db_row C b s col_idx i = Ok r" using traverse_set [OF rs \<open>r \<in> set rs\<close>] by blast
    then have "list_all2 (\<lambda>(f, idx) v. has_type v (ftype f)) (zip (sfields s) col_idx) r"
      by (auto simp: db_row_def traverse_Inr_iff rbind_Inr_iff dest: arrow_value_typed elim!: list_all2_mono)
    then show ?thesis using len by (auto simp: wf_row_def list_all2_conv_all_nth)
  qed
  then show ?thesis by (simp add: d)
qed

text \<open>The number an integer cell holds.\<close>

definition db_number :: "db_array \<Rightarrow> nat \<Rightarrow> int option" where
  "db_number arr i =
     (case arr of
        DbInt8 a \<Rightarrow> Option.bind (get a i) (map_option sint) | DbInt16 a \<Rightarrow> Option.bind (get a i) (map_option sint)
      | DbInt32 a \<Rightarrow> Option.bind (get a i) (map_option sint) | DbInt64 a \<Rightarrow> Option.bind (get a i) (map_option sint)
      | DbUInt8 a \<Rightarrow> Option.bind (get a i) (map_option uint) | DbUInt16 a \<Rightarrow> Option.bind (get a i) (map_option uint)
      | DbUInt32 a \<Rightarrow> Option.bind (get a i) (map_option uint) | DbUInt64 a \<Rightarrow> Option.bind (get a i) (map_option uint)
      | _ \<Rightarrow> None)"

lemma sint_scast_up:
  "sint (scast (v :: 8 word) :: i64) = sint v" "sint (scast (v' :: 16 word) :: i64) = sint v'" "sint (scast (v'' :: 32 word) :: i64) = sint v''"
  by (simp_all add: sint_up_scast is_up)

lemma sint_of_uint: "sint (v :: i64) = (if uint v < 2 ^ 63 then uint v else uint v - 2 ^ 64)"
proof -
  have s: "sint v = signed_take_bit 63 (uint v)" by (simp add: sint_uint)
  show ?thesis
  proof (cases "uint v < 2 ^ 63")
    case True
    have "signed_take_bit 63 (uint v) = uint v"
      by (rule signed_take_bit_int_eq_self) (use True uint_ge_0 [of v] in linarith)+
    with True s show ?thesis by simp
  next
    case False
    have "signed_take_bit 63 (uint v) = signed_take_bit 63 (uint v - 2 ^ 64)"
      by (rule signed_take_bit_eq_iff_take_bit_eq [THEN iffD2]) (simp add: take_bit_eq_mod)
    moreover have "signed_take_bit 63 (uint v - 2 ^ 64) = uint v - 2 ^ 64"
      by (rule signed_take_bit_int_eq_self) (use False uint_lt2p [of v] in simp_all)
    ultimately show ?thesis using False s by simp
  qed
qed

lemma sint_ucast_up:
  "sint (ucast (v :: 8 word) :: i64) = uint v" "sint (ucast (v' :: 16 word) :: i64) = uint v'" "sint (ucast (v'' :: 32 word) :: i64) = uint v''"
  using uint_lt2p [of v] uint_lt2p [of v'] uint_lt2p [of v''] by (simp_all add: sint_of_uint uint_up_ucast is_up)

lemma db_cell_Some: "Option.bind (get a i) (map_option f) = Some n \<longleftrightarrow> (\<exists>v. i < length a \<and> a ! i = Some v \<and> n = f v)"
  by (auto simp: bind_eq_Some_conv get_Some_iff)

lemma list_all2_db_wf:
  assumes "list_all2 (\<lambda>b d. db_batch_to_dataset C s b = Ok d) batches dss"
  shows "\<forall>d\<in>set dss. ds_schema d = s \<and> wf_ds d"
  using assms by (induction rule: list_all2_induct) (simp_all add: db_batch_wf)

text \<open>An integer cell of any width is read exactly into a 64-bit column, except that an unsigned number of
  \<open>2 ^ 63\<close> or more wraps to a negative one without an error.\<close>

theorem db_integer_cells:
  assumes "db_number arr i = Some n"
  shows "\<exists>w. arrow_value_to_value C arr i TInt64 name = Ok (Int64 w) \<and> sint w = (if n < 2 ^ 63 then n else n - 2 ^ 64)"
proof -
  show ?thesis
  proof (cases arr)
    case (DbInt8 a)
    with assms obtain v where "i < length a" "a ! i = Some v" "n = sint v" by (auto simp: db_number_def db_cell_Some)
    with DbInt8 sint_lt [of v] show ?thesis
      by (simp add: arrow_value_to_value_def db_is_null_def db_value_def sint_scast_up)
  next
    case (DbInt16 a)
    with assms obtain v where "i < length a" "a ! i = Some v" "n = sint v" by (auto simp: db_number_def db_cell_Some)
    with DbInt16 sint_lt [of v] show ?thesis
      by (simp add: arrow_value_to_value_def db_is_null_def db_value_def sint_scast_up)
  next
    case (DbInt32 a)
    with assms obtain v where "i < length a" "a ! i = Some v" "n = sint v" by (auto simp: db_number_def db_cell_Some)
    with DbInt32 sint_lt [of v] show ?thesis
      by (simp add: arrow_value_to_value_def db_is_null_def db_value_def sint_scast_up)
  next
    case (DbInt64 a)
    with assms obtain v where "i < length a" "a ! i = Some v" "n = sint v" by (auto simp: db_number_def db_cell_Some)
    with DbInt64 sint_lt [of v] show ?thesis
      by (simp add: arrow_value_to_value_def db_is_null_def db_value_def)
  next
    case (DbUInt8 a)
    with assms obtain v where "i < length a" "a ! i = Some v" "n = uint v" by (auto simp: db_number_def db_cell_Some)
    with DbUInt8 uint_lt2p [of v] show ?thesis
      by (simp add: arrow_value_to_value_def db_is_null_def db_value_def sint_ucast_up)
  next
    case (DbUInt16 a)
    with assms obtain v where "i < length a" "a ! i = Some v" "n = uint v" by (auto simp: db_number_def db_cell_Some)
    with DbUInt16 uint_lt2p [of v] show ?thesis
      by (simp add: arrow_value_to_value_def db_is_null_def db_value_def sint_ucast_up)
  next
    case (DbUInt32 a)
    with assms obtain v where "i < length a" "a ! i = Some v" "n = uint v" by (auto simp: db_number_def db_cell_Some)
    with DbUInt32 uint_lt2p [of v] show ?thesis
      by (simp add: arrow_value_to_value_def db_is_null_def db_value_def sint_ucast_up)
  next
    case (DbUInt64 a)
    with assms obtain v where "i < length a" "a ! i = Some v" "n = uint v" by (auto simp: db_number_def db_cell_Some)
    with DbUInt64 show ?thesis
      by (simp add: arrow_value_to_value_def db_is_null_def db_value_def sint_of_uint)
  qed (use assms in \<open>simp_all add: db_number_def\<close>)
qed

text \<open>
  What a batch holds at a position, whatever the width of the array; \<open>DbOpaque\<close> is a value of an array
  the program has no case for.
\<close>

datatype db_held = DbNull | DbBit bool | DbNum int | DbReal f64 | DbText string | DbOpaque

definition db_content :: "db_array \<Rightarrow> nat \<Rightarrow> db_held option" where
  "db_content arr i =
     (case arr of
        DbBoolean a \<Rightarrow> map_option (case_option DbNull DbBit) (get a i)
      | DbFloat32 a \<Rightarrow> map_option (case_option DbNull DbReal) (get a i)
      | DbFloat64 a \<Rightarrow> map_option (case_option DbNull DbReal) (get a i)
      | DbString a \<Rightarrow> map_option (case_option DbNull DbText) (get a i)
      | DbOther _ a \<Rightarrow> map_option (\<lambda>null. if null then DbNull else DbOpaque) (get a i)
      | DbInt8 a \<Rightarrow> map_option (case_option DbNull (\<lambda>v. DbNum (sint v))) (get a i)
      | DbInt16 a \<Rightarrow> map_option (case_option DbNull (\<lambda>v. DbNum (sint v))) (get a i)
      | DbInt32 a \<Rightarrow> map_option (case_option DbNull (\<lambda>v. DbNum (sint v))) (get a i)
      | DbInt64 a \<Rightarrow> map_option (case_option DbNull (\<lambda>v. DbNum (sint v))) (get a i)
      | DbUInt8 a \<Rightarrow> map_option (case_option DbNull (\<lambda>v. DbNum (uint v))) (get a i)
      | DbUInt16 a \<Rightarrow> map_option (case_option DbNull (\<lambda>v. DbNum (uint v))) (get a i)
      | DbUInt32 a \<Rightarrow> map_option (case_option DbNull (\<lambda>v. DbNum (uint v))) (get a i)
      | DbUInt64 a \<Rightarrow> map_option (case_option DbNull (\<lambda>v. DbNum (uint v))) (get a i))"

text \<open>
  The cell a content becomes in a column of a type: a null stays null, a flag, a text and a float stay
  as they are, a number becomes the same 64-bit integer (or, from \<open>2 ^ 63\<close> on, wraps) or the nearest
  float, a float without fraction its integer. In a text column every value of another array becomes
  the text of the whole array. Nothing else is a cell.
\<close>

definition db_read_as :: "string \<Rightarrow> db_held \<Rightarrow> data_type \<Rightarrow> value_t \<Rightarrow> bool" where
  "db_read_as array_text c t v \<longleftrightarrow>
     (case (c, t) of
        (DbNull, _) \<Rightarrow> v = Null
      | (DbBit b, TBool) \<Rightarrow> v = Bool b
      | (DbNum n, TInt64) \<Rightarrow> (\<exists>w. v = Int64 w \<and> sint w = (if n < 2 ^ 63 then n else n - 2 ^ 64))
      | (DbReal x, TInt64) \<Rightarrow> feq (ffract x) (fzero False) \<and> v = Int64 (to_i64 x)
      | (DbNum n, TFloat64) \<Rightarrow> v = Float64 (of_int64 n)
      | (DbReal x, TFloat64) \<Rightarrow> v = Float64 x
      | (DbText s, TUtf8) \<Rightarrow> v = Utf8 s
      | (_, TUtf8) \<Rightarrow> v = Utf8 array_text
      | _ \<Rightarrow> False)"

definition batch_rows :: "connectorx \<Rightarrow> schema \<Rightarrow> db_batch \<Rightarrow> row list \<Rightarrow> bool" where
  "batch_rows C s b rs \<longleftrightarrow> length rs = db_rows b \<and>
     (\<forall>i<db_rows b. length (rs ! i) = length (sfields s) \<and>
       (\<forall>j<length (sfields s). \<exists>k c. position (\<lambda>(n, _). n = fname (sfields s ! j)) (db_fields b) = Some k \<and> k < length (db_columns b) \<and>
          db_content (db_columns b ! k) i = Some c \<and>
          db_read_as (cx_dbg C (db_columns b ! k)) c (ftype (sfields s ! j)) (rs ! i ! j)))"

lemma db_number_content: "db_number arr i = Some n \<Longrightarrow> db_content arr i = Some (DbNum n)"
  by (cases arr) (auto simp: db_number_def db_content_def bind_eq_Some_conv)

lemma db_content_null: "db_is_null arr i = Ok True \<Longrightarrow> db_content arr i = Some DbNull"
  by (cases arr) (auto simp: db_is_null_def db_content_def get_def rmap_Inr_iff index_Inr_iff)

lemma db_content_cell:
  assumes "db_is_null arr i = Ok False"
  shows "db_content arr i = Some (case arr of
      DbBoolean a \<Rightarrow> DbBit (db_value a i) | DbString a \<Rightarrow> DbText (db_value a i) | DbOther _ _ \<Rightarrow> DbOpaque
    | DbFloat32 a \<Rightarrow> DbReal (db_value a i) | DbFloat64 a \<Rightarrow> DbReal (db_value a i)
    | DbInt8 a \<Rightarrow> DbNum (sint (db_value a i)) | DbInt16 a \<Rightarrow> DbNum (sint (db_value a i))
    | DbInt32 a \<Rightarrow> DbNum (sint (db_value a i)) | DbInt64 a \<Rightarrow> DbNum (sint (db_value a i))
    | DbUInt8 a \<Rightarrow> DbNum (uint (db_value a i)) | DbUInt16 a \<Rightarrow> DbNum (uint (db_value a i))
    | DbUInt32 a \<Rightarrow> DbNum (uint (db_value a i)) | DbUInt64 a \<Rightarrow> DbNum (uint (db_value a i)))"
  using assms by (cases arr) (auto simp: db_is_null_def db_content_def db_value_def get_def rmap_Inr_iff index_Inr_iff)

lemma db_content_number: "db_content arr i = Some (DbNum n) \<Longrightarrow> db_number arr i = Some n"
  by (cases arr) (auto simp: db_number_def db_content_def get_def split: option.splits if_splits)

lemma arrow_value_reads:
  assumes "arrow_value_to_value C arr i t name = Ok v"
  shows "\<exists>c. db_content arr i = Some c \<and> db_read_as (cx_dbg C arr) c t v"
proof -
  obtain null where null: "db_is_null arr i = Ok null" using assms by (auto simp: arrow_value_to_value_def rbind_Inr_iff)
  show ?thesis
  proof (cases null)
    case True
    with null assms db_content_null [of arr i] show ?thesis by (simp add: arrow_value_to_value_def db_read_as_def)
  next
    case False
    with null have cell: "db_is_null arr i = Ok False" by simp
    note c = db_content_cell [OF cell]
    show ?thesis
    proof (cases "t = TInt64 \<and> db_number arr i \<noteq> None")
      case True
      then obtain n where n: "db_number arr i = Some n" by blast
      from db_integer_cells [OF n, of C name] assms True have "\<exists>w. v = Int64 w \<and> sint w = (if n < 2 ^ 63 then n else n - 2 ^ 64)" by auto
      with db_number_content [OF n] True show ?thesis by (simp add: db_read_as_def)
    next
      case False
      then have "t = TInt64 \<Longrightarrow> \<forall>n. db_content arr i \<noteq> Some (DbNum n)" using db_content_number by fastforce
      with c assms cell show ?thesis
        by (cases t; cases arr) (simp_all add: arrow_value_to_value_def db_read_as_def db_integer_def split: if_splits)
    qed
  qed
qed

lemma batch_reads:
  assumes "db_batch_to_dataset C s b = Ok d"
  shows "batch_rows C s b (rows d)"
proof -
  obtain col_idx rs where idx: "list_all2 (\<lambda>f k. position (\<lambda>(n, _). n = fname f) (db_fields b) = Some k) (sfields s) col_idx"
    and rs: "list_all2 (\<lambda>i r. db_row C b s col_idx i = Ok r) [0..<db_rows b] rs" and d: "d = data_set_new s rs"
    using assms by (auto simp: db_batch_to_dataset_def rbind_Inr_iff rmap_Inr_iff traverse_Inr_iff ok_or_Inr_iff)
  have row: "list_all2 (\<lambda>(f, k) v. k < length (db_columns b) \<and> arrow_value_to_value C (db_columns b ! k) i (ftype f) (fname f) = Ok v)
      (zip (sfields s) col_idx) (rs ! i)" if "i < db_rows b" for i
  proof -
    have "db_row C b s col_idx i = Ok (rs ! i)" using list_all2_nthD [OF rs, of i] that by simp
    then have "list_all2 (\<lambda>x y. (\<lambda>(f, idx). rbind (index (db_columns b) idx) (\<lambda>arr. arrow_value_to_value C arr i (ftype f) (fname f))) x = Ok y)
        (zip (sfields s) col_idx) (rs ! i)" unfolding db_row_def by (simp add: traverse_Inr_iff)
    then show ?thesis by (rule list_all2_mono) (auto simp: rbind_Inr_iff index_Inr_iff)
  qed
  have len: "length col_idx = length (sfields s)" using idx by (simp add: list_all2_lengthD)
  show ?thesis unfolding batch_rows_def d
  proof (intro conjI allI impI)
    show "length (rows (data_set_new s rs)) = db_rows b" using rs by (simp add: list_all2_lengthD [symmetric])
    fix i assume i: "i < db_rows b"
    then show "length (rows (data_set_new s rs) ! i) = length (sfields s)" using list_all2_lengthD [OF row] len by fastforce
    fix j assume j: "j < length (sfields s)"
    then have "col_idx ! j < length (db_columns b)"
      "arrow_value_to_value C (db_columns b ! (col_idx ! j)) i (ftype (sfields s ! j)) (fname (sfields s ! j)) = Ok (rs ! i ! j)"
      using list_all2_nthD [OF row [OF i], of j] len by simp_all
    with arrow_value_reads [OF this(2)] list_all2_nthD [OF idx j] show
      "\<exists>k c. position (\<lambda>(n, _). n = fname (sfields s ! j)) (db_fields b) = Some k \<and> k < length (db_columns b) \<and>
         db_content (db_columns b ! k) i = Some c \<and>
         db_read_as (cx_dbg C (db_columns b ! k)) c (ftype (sfields s ! j)) (rows (data_set_new s rs) ! i ! j)"
      by auto
  qed
qed

text \<open>C29: A database ingestion that succeeds yields, under the declared schema and well typed, the rows of the
  batches of the query in order, restricted to those the watermark keeps: each batch gives one row
  per row of it, whose cells are what the batch holds there in the column of the field's name, read
  as the field's type. The row limit of the options plays no role.\<close>

theorem db_ingest_exact:
  assumes "ingest_from_db C conn query s opts = Ok ds"
  shows "(\<exists>batches rss. run_connectorx C conn [query] = Ok batches \<and> list_all2 (batch_rows C s) batches rss \<and>
      rows ds = filter (kept s opts) (concat rss)) \<and>
    ds_schema ds = s \<and> wf_ds ds \<and> ingest_from_db C conn query s (opts\<lparr>opt_max_rows := m\<rparr>) = Ok ds"
proof -
  obtain batches all where v: "validate_watermark_config s opts = Ok ()" and b: "run_connectorx C conn [query] = Ok batches"
    and all: "db_batches_to_dataset C batches s = Ok all" and ds: "apply_watermark_after_ingest all s opts = Ok ds"
    using assms by (auto simp: ingest_from_db_def rbind_Inr_iff)
  obtain dss where dss: "list_all2 (\<lambda>b d. db_batch_to_dataset C s b = Ok d) batches dss" and all': "all = data_set_new s (concat (map rows dss))"
    using all by (auto simp: db_batches_to_dataset_def rmap_Inr_iff traverse_Inr_iff)
  have "\<forall>d\<in>set dss. ds_schema d = s \<and> wf_ds d"
    using list_all2_db_wf [OF dss] .
  then have "wf_ds all" by (auto simp: all' dest: wf_ds_row)
  with watermark_step [of all s opts] v ds have "ds = filter_rows all (kept s opts)" by (simp add: all')
  moreover have "list_all2 (batch_rows C s) batches (map rows dss)"
    using dss by (auto simp: list_all2_map2 elim!: list_all2_mono intro: batch_reads)
  moreover have "apply_watermark_after_ingest all s (opts\<lparr>opt_max_rows := m\<rparr>) = apply_watermark_after_ingest all s opts"
    "validate_watermark_config s (opts\<lparr>opt_max_rows := m\<rparr>) = validate_watermark_config s opts"
    by (simp_all add: apply_watermark_after_ingest_def validate_watermark_config_def)
  ultimately show ?thesis using b \<open>wf_ds all\<close> v all ds by (auto simp: all' filter_rows_wf ingest_from_db_def)
qed

text \<open>Every cell of a column that is no string array, large strings included, gets the text of the whole array.\<close>

lemma db_text_is_whole_array:
  "arrow_value_to_value C (DbInt64 [Some 1, Some 2]) 0 TUtf8 name = Ok (Utf8 (cx_dbg C (DbInt64 [Some 1, Some 2])))"
  "arrow_value_to_value C (DbInt64 [Some 1, Some 2]) 1 TUtf8 name = Ok (Utf8 (cx_dbg C (DbInt64 [Some 1, Some 2])))"
  by (simp_all add: arrow_value_to_value_def db_is_null_def index_def)

subsection \<open>Witnesses\<close>

definition id_query :: connectorx where
  "id_query = \<lparr>cx_source = (\<lambda>_. None), cx_get_arrow = (\<lambda>_ _. None),
     cx_arrow = (\<lambda>_ _. Inr [\<lparr>db_fields = [(''id'', DtInt32)], db_columns = [DbInt32 [Some 1, Some 2]], db_rows = 2\<rparr>,
       \<lparr>db_fields = [(''id'', DtInt64)], db_columns = [DbInt64 [Some 3]], db_rows = 1\<rparr>]),
     cx_dbg = (\<lambda>_. []), cx_show_f64 = (\<lambda>_. [])\<rparr>"

lemma db_ingest_exact_witness:
  "wf_ds (data_set_new ids_schema [[Int64 2], [Int64 3]]) \<and>
   ingest_from_db id_query ''c'' ''q'' ids_schema (ids_options\<lparr>opt_max_rows := Some 1\<rparr> :: unit ingestion_options) = Ok (data_set_new ids_schema [[Int64 2], [Int64 3]])"
proof -
  have "ingest_from_db id_query ''c'' ''q'' ids_schema (ids_options :: unit ingestion_options) = Ok (data_set_new ids_schema [[Int64 2], [Int64 3]])"
    by code_simp
  from db_ingest_exact [OF this, of "Some 1"] show ?thesis by blast
qed

lemma db_integer_cells_witness:
  "\<exists>w. arrow_value_to_value id_query (DbUInt64 [Some (2 ^ 63)]) 0 TInt64 ''id'' = Ok (Int64 w) \<and> sint w = - (2 ^ 63)"
proof -
  have "db_number (DbUInt64 [Some (2 ^ 63)]) 0 = Some (2 ^ 63)" by code_simp
  from db_integer_cells [OF this, of id_query "''id''"] show ?thesis by simp
qed

end
