(* ===== verification/Sql_Query.thy ===== *)
theory Sql_Query
  imports Plan "HOL-Library.AList"
begin

text \<open>
  SQL over lazy frames (\<open>src/sql/mod.rs\<close>): a context of named tables, and the query over one frame.
  Polars SQL is a parameter: for the tables and the text of a statement it fails, or yields the
  tables it leaves; the plan it builds is the node \<open>LQuery\<close>.
\<close>

type_synonym sql_tables = "(string \<times> lazy_frame) list"

type_synonym sql_engine = "sql_tables \<Rightarrow> string \<Rightarrow> err_src + sql_tables"

definition DEFAULT_TABLE :: string where
  "DEFAULT_TABLE = ''df''"

definition context_new :: sql_tables where
  "context_new = []"

definition context_register :: "sql_tables \<Rightarrow> string \<Rightarrow> lazy_frame \<Rightarrow> sql_tables result" where
  "context_register tables name df =
     (if trim name = [] then Err (SchemaMismatch ''sql table name must be non-empty'')
      else Ok (AList.update name df tables))"

definition context_execute :: "sql_engine \<Rightarrow> sql_tables \<Rightarrow> string \<Rightarrow> (lazy_frame \<times> sql_tables) result" where
  "context_execute X tables sql =
     (case X tables sql of
        Inl e \<Rightarrow> Err (EngineErr ''failed to execute sql query'' e)
      | Inr tables' \<Rightarrow> Ok (LQuery tables sql, tables'))"

definition sql_query :: "sql_engine \<Rightarrow> lazy_frame \<Rightarrow> string \<Rightarrow> lazy_frame result" where
  "sql_query X df sql =
     rbind (context_register context_new DEFAULT_TABLE df) (\<lambda>tables. rmap fst (context_execute X tables sql))"

text \<open>A later registration under the same name replaces the table; other tables stay.\<close>

lemma context_register_lookup:
  assumes "context_register tables name df = Ok tables'"
  shows "map_of tables' = (map_of tables)(name \<mapsto> df)"
  using assms by (auto simp: context_register_def update_conv' split: if_splits)

lemma sql_query_eq:
  "sql_query X df sql =
     (case X [(DEFAULT_TABLE, df)] sql of
        Inl e \<Rightarrow> Err (EngineErr ''failed to execute sql query'' e)
      | Inr _ \<Rightarrow> Ok (LQuery [(DEFAULT_TABLE, df)] sql))"
proof -
  have "context_register context_new DEFAULT_TABLE df = Ok [(DEFAULT_TABLE, df)]"
    by (simp add: context_register_def context_new_def DEFAULT_TABLE_def) code_simp
  then show ?thesis by (simp add: sql_query_def context_execute_def split: sum.splits)
qed

end
