(* ===== verification/Pipeline_Run.thy ===== *)
theory Pipeline_Run
  imports Pipeline_Request Sql_Sinks Database Sql_Query
begin

text \<open>
  A run of the JVM pipeline (\<open>bindings/jvm-sys/src/pipeline_run.rs\<close>): the checks, the ingestion of all
  sources, the row budget, the transform, the sinks one by one, the answer. The world of a run holds
  the readings of the clock, the calls of the network and database clients, the operations on
  local files, and the observers' world; what the environment answers are the fields of \<open>services\<close>.
\<close>

subsection \<open>The world of a run\<close>

datatype fs_op = DirMade path | FileMade path | ParquetWritten path string | XmlWritten path "xml_event list"

record 'w world =
  wd_ticks :: nat
  wd_net :: "net_call list"
  wd_db :: "db_call list"
  wd_fs :: "fs_op list"
  wd_obs :: 'w

record services =
  sv_json :: json_lib
  sv_decode :: decoders
  sv_now :: "nat \<Rightarrow> nat"
  sv_env :: env
  sv_remote :: remote
  sv_connectorx :: "connectorx option"
  sv_driver :: driver
  sv_parse_url :: "string \<Rightarrow> (string, url) res"
  sv_postgres :: bool
  sv_oracle :: bool
  sv_mssql :: bool
  sv_engine :: engine
  sv_sql :: sql_engine
  sv_create_dir :: "fs_op list \<Rightarrow> path \<Rightarrow> string option"
  sv_create :: "fs_op list \<Rightarrow> path \<Rightarrow> string option"
  sv_encode :: "frame \<Rightarrow> polars_error + string"
  sv_xml_refuses :: "xml_event list \<Rightarrow> xml_event \<Rightarrow> string option"
  sv_show_f64 :: "f64 \<Rightarrow> string"
  sv_dbg_cell :: "value_t \<times> data_type \<Rightarrow> string"
  sv_dbg_error :: "ingestion_error \<Rightarrow> string"
  sv_dbg_pipeline :: "pipeline_err \<Rightarrow> string"

type_synonym ('w, 'a) run = "('w world, pipeline_err, 'a) io"

abbreviation show_error :: "services \<Rightarrow> ingestion_error \<Rightarrow> string" where
  "show_error S \<equiv> jl_show_error (sv_json S)"

abbreviation sv_polars :: "services \<Rightarrow> polars" where
  "sv_polars S \<equiv> e_polars (sv_env S)"

text \<open>\<open>Instant::now\<close>, in nanoseconds; the parts of the world as the clients see them.\<close>

definition now :: "services \<Rightarrow> ('w world, 'e, nat) io" where
  "now S = (\<lambda>w. (Ok (sv_now S (wd_ticks w)), w\<lparr>wd_ticks := Suc (wd_ticks w)\<rparr>))"

definition on_net :: "(net_call list \<times> 'w, 'e, 'a) io \<Rightarrow> ('w world, 'e, 'a) io" where
  "on_net m = (\<lambda>w. case m (wd_net w, wd_obs w) of (r, (calls, obs)) \<Rightarrow> (r, w\<lparr>wd_net := calls, wd_obs := obs\<rparr>))"

definition on_db :: "(db_call list, 'e, 'a) io \<Rightarrow> ('w world, 'e, 'a) io" where
  "on_db m = (\<lambda>w. case m (wd_db w) of (r, calls) \<Rightarrow> (r, w\<lparr>wd_db := calls\<rparr>))"

definition on_obs :: "('w, 'e, 'a) io \<Rightarrow> ('w world, 'e, 'a) io" where
  "on_obs m = (\<lambda>w. case m (wd_obs w) of (r, obs) \<Rightarrow> (r, w\<lparr>wd_obs := obs\<rparr>))"

text \<open>\<open>match m { Ok(x) => f(x), Err(e) => g(e) }\<close>: an error is part of the answer.\<close>

definition io_match :: "('w, 'e, 'a) io \<Rightarrow> ('a \<Rightarrow> 'b) \<Rightarrow> ('e \<Rightarrow> 'b) \<Rightarrow> ('w, 'f, 'b) io" where
  "io_match m f g = (\<lambda>w. case m w of
     (Inr x, w') \<Rightarrow> (Ok (f x), w') | (Inl (Failed e), w') \<Rightarrow> (Ok (g e), w') | (Inl (Panic p), w') \<Rightarrow> (Panics p, w'))"

text \<open>\<open>Path::parent\<close>: the path without its last component; trailing separators and \<open>.\<close> do not count.\<close>

fun trim_tail :: "string \<Rightarrow> string" where
  "trim_tail [] = []"
| "trim_tail (c # r) =
     (if r \<noteq> [] \<and> (c = CHR ''/'' \<or> c = CHR ''.'' \<and> hd r = CHR ''/'') then trim_tail r else c # r)"

definition path_parent :: "path \<Rightarrow> path option" where
  "path_parent p =
     (let r = trim_tail (rev p) in
      if r = [] \<or> r = ''/'' then None else Some (rev (trim_tail (dropWhile (\<lambda>c. c \<noteq> CHR ''/'') r))))"

lemma path_parent_examples:
  "path_parent ''out/a.parquet'' = Some ''out''" "path_parent ''a.parquet'' = Some []" "path_parent ''/a'' = Some ''/''"
  "path_parent ''/'' = None" "path_parent ''a/b//./'' = Some ''a''" "path_parent [] = None" "path_parent ''./a'' = Some ''.''"
  by code_simp+

subsection \<open>Deadline and budget\<close>

definition pipeline_deadline :: "services \<Rightarrow> orchestration_spec option \<Rightarrow> ('w, nat option) run" where
  "pipeline_deadline S orch =
     (case Option.bind orch oc_timeout_ms of
        None \<Rightarrow> io_ok None
      | Some ms \<Rightarrow> if ms = 0 then io_ok None else io_bind (now S) (\<lambda>t. io_ok (Some (t + ms * 1000000))))"

definition check_deadline :: "services \<Rightarrow> nat option \<Rightarrow> string \<Rightarrow> ('w, unit) run" where
  "check_deadline S deadline stage =
     (case deadline of
        None \<Rightarrow> io_ok ()
      | Some t \<Rightarrow> io_bind (now S) (\<lambda>n.
          if t \<le> n then io_fail (structured ''ORCHESTRATION_TIMEOUT'' (''wall-clock deadline exceeded (stage='' @ stage @ '')'') stage)
          else io_ok ()))"

definition check_row_budget :: "orchestration_spec option \<Rightarrow> nat \<Rightarrow> unit pres" where
  "check_row_budget orch n =
     (case Option.bind orch oc_max_ingested_rows of
        None \<Rightarrow> Ok ()
      | Some limit \<Rightarrow>
          if 0 < limit \<and> limit < n
          then Err (structured ''ORCHESTRATION_ROW_BUDGET''
            (''ingested '' @ show_nat n @ '' rows exceed max_ingested_rows '' @ show_nat limit) ''ingest'')
          else Ok ())"

subsection \<open>Sources\<close>

definition ingest_db_reads ::
  "services \<Rightarrow> db_read_spec list \<Rightarrow> schema \<Rightarrow> 'w ingestion_options \<Rightarrow> (json list \<times> row list) pres" where
  "ingest_db_reads S db_reads s opts =
     (if db_reads = [] then Ok ([], [])
      else case sv_connectorx S of
        None \<Rightarrow> Err (structured ''DB_CONNECTORX_NOT_BUILT''
          ''sources.db_reads requires rdp_jvm_sys built with --features db_connectorx (or full)'' ''ingest'')
      | Some C \<Rightarrow>
          rmap (\<lambda>dss. (map (\<lambda>(db, ds). JObject [(''url'', JString (dr_url db)), (''status'', JString ''ok''), (''row_count'', json_nat (row_count ds))])
                        (zip db_reads dss), concat (map rows dss)))
            (traverse (\<lambda>db. map_err (\<lambda>e. structured ''DB_SOURCE_FAILED''
                (''ingest db '' @ backtick (dr_url db) @ '': '' @ show_error S e) ''ingest'')
              (ingest_from_db C (dr_url db) (dr_query db) s opts)) db_reads))"

definition source_json :: "(string \<Rightarrow> string) \<Rightarrow> string \<times> data_set \<Rightarrow> json" where
  "source_json scheme = (\<lambda>(uri, ds). JObject
     [(''uri'', JString uri), (''scheme'', JString (scheme uri)), (''status'', JString ''ok''), (''row_count'', json_nat (row_count ds))])"

text \<open>One URI after the other; the first failure ends the run.\<close>

definition ingest_uris ::
  "services \<Rightarrow> (string \<Rightarrow> ('w, data_set) net) \<Rightarrow> string \<Rightarrow> string list \<Rightarrow> ('w, data_set list) run" where
  "ingest_uris S ingest code uris =
     io_traverse (\<lambda>uri. io_map_err (\<lambda>e. structured code (''ingest '' @ backtick uri @ '': '' @ show_error S e) ''ingest'')
       (on_net (ingest uri))) uris"

record ingested =
  in_ds :: data_set
  in_meta :: ordered_batch_metadata
  in_stores :: "json list"
  in_transfers :: "json list"
  in_dbs :: "json list"

definition no_batch :: ordered_batch_metadata where
  "no_batch = \<lparr>bm_paths = [], bm_last_path = None, bm_max_watermark_value = None\<rparr>"

definition ingest_local_paths ::
  "services \<Rightarrow> path list \<Rightarrow> schema \<Rightarrow> 'w ingestion_options \<Rightarrow> ('w, row list \<times> ordered_batch_metadata) run" where
  "ingest_local_paths S local_paths s opts =
     (if local_paths = [] then io_ok ([], no_batch)
      else io_bind (io_map_err (\<lambda>e. structured ''INGEST_FAILED'' (''ingest_from_ordered_paths: '' @ show_error S e) ''ingest'')
             (on_obs (ingest_from_ordered_paths (sv_env S) local_paths s opts))) (\<lambda>(ds, meta). io_ok (rows ds, meta)))"

text \<open>All rows under the schema, filtered; the cursor of the batch becomes that of all sources. The
  maximum of a column can only panic, so its error case is void.\<close>

definition join_sources ::
  "services \<Rightarrow> schema \<Rightarrow> 'w ingestion_options \<Rightarrow> ordered_batch_metadata \<Rightarrow> row list \<Rightarrow> (data_set \<times> ordered_batch_metadata) pres" where
  "join_sources S s opts meta all_rows =
     (if all_rows = []
      then Err (structured ''ORCHESTRATION_VALIDATION''
        ''no rows ingested: provide sources.paths, sources.object_store_uris, sources.file_transfer_uris, and/or sources.db_reads'' ''ingest'')
      else
        rbind (map_err (\<lambda>e. structured ''INGEST_FAILED'' (''watermark: '' @ show_error S e) ''ingest'')
          (apply_watermark_after_ingest (data_set_new s all_rows) s opts)) (\<lambda>ds.
        case opt_watermark_column opts of
          None \<Rightarrow> Ok (ds, meta)
        | Some col \<Rightarrow> rmap (\<lambda>m. (ds, meta\<lparr>bm_max_watermark_value := m\<rparr>))
            (map_err (\<lambda>e. structured ''INGEST_FAILED'' (show_error S e) ''ingest'') (max_value_in_column ds s col))))"

definition ingest_pipeline_sources :: "services \<Rightarrow> sources_spec \<Rightarrow> 'w ingestion_options \<Rightarrow> ('w, ingested) run" where
  "ingest_pipeline_sources S src opts =
     (let s = so_schema src; R = sv_remote S; stores = so_object_store_uris src; transfers = so_file_transfer_uris src in
      io_bind (ingest_local_paths S (so_paths src) s opts) (\<lambda>(local_rows, meta).
      io_bind (ingest_uris S (\<lambda>uri. ingest_from_object_store_uri R uri s opts) ''OBJECT_STORE_SOURCE_FAILED'' stores) (\<lambda>store_dss.
      io_bind (ingest_uris S (\<lambda>uri. ingest_from_file_transfer_uri R uri s opts) ''FILE_TRANSFER_SOURCE_FAILED'' transfers) (\<lambda>transfer_dss.
      io_bind (io_of (ingest_db_reads S (so_db_reads src) s opts)) (\<lambda>(db_results, db_rows).
      io_bind (io_of (join_sources S s opts meta
         (local_rows @ concat (map rows store_dss) @ concat (map rows transfer_dss) @ db_rows))) (\<lambda>(ds, meta').
      io_ok \<lparr>in_ds = ds, in_meta = meta',
             in_stores = map (source_json object_store_scheme) (zip stores store_dss),
             in_transfers = map (source_json transfer_scheme) (zip transfers transfer_dss),
             in_dbs = db_results\<rparr>))))))"

subsection \<open>Transform\<close>

definition run_sql :: "services \<Rightarrow> string \<Rightarrow> lazy_frame \<Rightarrow> string option \<Rightarrow> lazy_frame pres" where
  "run_sql S stage base sql =
     (case sql of
        None \<Rightarrow> Ok base
      | Some q \<Rightarrow>
          if trim q = [] then Ok base
          else map_err (\<lambda>e. structured ''TRANSFORM_SQL_FAILED'' (show_error S e) stage) (sql_query (sv_sql S) base (trim q)))"

definition materialize_base :: "services \<Rightarrow> data_set \<Rightarrow> lazy_frame pres" where
  "materialize_base S ds =
     map_err (\<lambda>e. structured ''DATAFRAME_MATERIALIZATION_FAILED'' (show_error S e) ''transform'') (from_dataset (sv_polars S) ds)"

subsection \<open>Local files\<close>

text \<open>\<open>create_dir_all\<close> of the parent, which does nothing for the empty path.\<close>

definition create_parent :: "services \<Rightarrow> string \<Rightarrow> path \<Rightarrow> ('w, unit) run" where
  "create_parent S code p =
     (case path_parent p of
        None \<Rightarrow> io_ok ()
      | Some parent \<Rightarrow>
          if parent = [] then io_ok ()
          else (\<lambda>w. case sv_create_dir S (wd_fs w) parent of
            Some e \<Rightarrow> (Err (structured code e ''sink''), w)
          | None \<Rightarrow> (Ok (), w\<lparr>wd_fs := wd_fs w @ [DirMade parent]\<rparr>)))"

text \<open>An export that fails after the file was created leaves it.\<close>

definition write_parquet :: "services \<Rightarrow> path \<Rightarrow> data_set \<Rightarrow> ('w world, ingestion_error, unit) io" where
  "write_parquet S p ds = (\<lambda>w.
     (let fs = wd_fs w in
      case export_dataset_to_parquet (sv_polars S) (sv_create S fs) (sv_encode S) p ds of
        Inr bytes \<Rightarrow> (Ok (), w\<lparr>wd_fs := fs @ [ParquetWritten p bytes]\<rparr>)
      | Inl e \<Rightarrow> (Inl e, if is_ok (dataset_to_dataframe (sv_polars S) ds) \<and> sv_create S fs p = None
                         then w\<lparr>wd_fs := fs @ [FileMade p]\<rparr> else w)))"

definition write_xml :: "services \<Rightarrow> path \<Rightarrow> data_set \<Rightarrow> ('w world, ingestion_error, unit) io" where
  "write_xml S p ds = (\<lambda>w.
     (let fs = wd_fs w in
      case export_dataset_to_xml (sv_show_f64 S) (sv_xml_refuses S) (sv_create S fs p) ds of
        Inr evs \<Rightarrow> (Ok (), w\<lparr>wd_fs := fs @ [XmlWritten p evs]\<rparr>)
      | Inl e \<Rightarrow> (Inl e, if sv_create S fs p = None then w\<lparr>wd_fs := fs @ [FileMade p]\<rparr> else w)))"

definition write_parquet_sink :: "services \<Rightarrow> path \<Rightarrow> data_set \<Rightarrow> ('w, unit) run" where
  "write_parquet_sink S p ds =
     io_bind (create_parent S ''PARQUET_SINK_IO_FAILED'' p) (\<lambda>_.
     io_map_err (\<lambda>e. structured ''PARQUET_SINK_WRITE_FAILED'' (show_error S e) ''sink'') (write_parquet S p ds))"

definition export_dataset_to_handoff_uri :: "services \<Rightarrow> string \<Rightarrow> data_set \<Rightarrow> ('w, nat) run" where
  "export_dataset_to_handoff_uri S uri ds =
     io_bind
       (if is_object_store_uri uri
        then io_map_err (\<lambda>e. structured ''OBJECT_STORE_SINK_FAILED'' (show_error S e) ''sink'')
               (on_net (export_dataset_to_object_store_uri (sv_remote S) uri ds))
        else write_parquet_sink S (if starts_with ''file://'' uri then drop 7 uri else uri) ds)
       (\<lambda>_. io_ok (row_count ds))"

subsection \<open>Sinks\<close>

fun sink_sql :: "sink_spec \<Rightarrow> string option" where
  "sink_sql (ParquetFile _ sql) = sql"
| "sink_sql (XmlFile _ sql) = sql"
| "sink_sql (Postgresql _ _ _ _ sql) = sql"
| "sink_sql (Oracle _ _ _ _ sql) = sql"
| "sink_sql (Mssql _ _ _ _ sql) = sql"
| "sink_sql (DeltaLake _ _ _ _ sql) = sql"
| "sink_sql (Iceberg _ _ _ _ sql) = sql"
| "sink_sql (Snowflake _ _ _ _ _ _ _ sql) = sql"
| "sink_sql (Databricks _ _ _ _ _ sql) = sql"
| "sink_sql (Spark _ _ _ sql) = sql"
| "sink_sql (ObjectStore _ _ sql) = sql"

definition sink_answer :: "string \<Rightarrow> string \<Rightarrow> (string \<times> json) list \<Rightarrow> json" where
  "sink_answer kind status rest = JObject ((''kind'', JString kind) # (''status'', JString status) # rest)"

definition collect_branch :: "services \<Rightarrow> lazy_frame \<Rightarrow> ('w, data_set) run" where
  "collect_branch S branch =
     io_of (map_err (\<lambda>e. structured ''SINK_MATERIALIZATION_FAILED'' (show_error S e) ''sink'') (collect_plan (sv_polars S) (sv_engine S) branch))"

text \<open>A database sink answers with its rows, its error, or that it was not built.\<close>

definition db_sink :: "bool \<Rightarrow> string \<Rightarrow> string \<Rightarrow> string \<Rightarrow> string \<Rightarrow> nat db \<Rightarrow> ('w, json) run" where
  "db_sink built kind code_prefix reason table m =
     (if built
      then io_match (on_db m)
        (\<lambda>n. sink_answer kind ''ok'' [(''table'', JString table), (''row_count'', json_nat n)])
        (\<lambda>e. sink_answer kind ''error'' [(''error_code'', JString (code_prefix @ ''_SINK_FAILED'')), (''table'', JString table), (''error'', JString e)])
      else io_ok (sink_answer kind ''skipped''
        [(''error_code'', JString (code_prefix @ ''_SINK_NOT_BUILT'')), (''reason'', JString reason)]))"

definition delta_sink :: "services \<Rightarrow> string option \<Rightarrow> string option \<Rightarrow> string option \<Rightarrow> string \<Rightarrow> data_set \<Rightarrow> ('w, json) run" where
  "delta_sink S warehouse catalog_uri namespace table ds =
     (case warehouse of
        None \<Rightarrow> io_fail (structured ''ORCHESTRATION_VALIDATION'' ''delta_lake sink requires warehouse (s3://, abfss://, or file://)'' ''sink'')
      | Some wh \<Rightarrow>
          (let table_uri = delta_table_uri wh namespace table in
           io_match (on_net (write_dataset_to_delta_table (sv_remote S) table_uri ds))
             (\<lambda>n. sink_answer ''delta_lake'' ''ok''
                [(''table'', JString table), (''table_uri'', JString table_uri), (''warehouse'', json_str_opt warehouse),
                 (''catalog_uri'', json_str_opt catalog_uri), (''namespace'', json_str_opt namespace), (''row_count'', json_nat n)])
             (\<lambda>e. sink_answer ''delta_lake'' ''error''
                [(''error_code'', JString ''DELTA_LAKE_SINK_FAILED''), (''table_uri'', JString table_uri), (''error'', JString (sv_dbg_error S e))])))"

definition pending_answer :: "string \<Rightarrow> string \<Rightarrow> string \<Rightarrow> json \<Rightarrow> string option \<Rightarrow> string option \<Rightarrow> string \<Rightarrow> json" where
  "pending_answer kind code table catalog_uri warehouse namespace detail =
     sink_answer kind ''connector_pending''
       [(''error_code'', JString code), (''table'', JString table), (''catalog_uri'', catalog_uri),
        (''warehouse'', json_str_opt warehouse), (''namespace'', json_str_opt namespace), (''detail'', JString detail)]"

definition iceberg_answer :: "string \<Rightarrow> string option \<Rightarrow> string option \<Rightarrow> string \<Rightarrow> json" where
  "iceberg_answer catalog_uri warehouse namespace table =
     pending_answer ''iceberg'' ''ICEBERG_CONNECTOR_PENDING'' table (JString catalog_uri) warehouse namespace
       ''Apache Iceberg REST/thrift catalog client is not linked in this rdp_jvm_sys build; use kind parquet_file for on-disk staging from Rust until the Iceberg connector is enabled.''"

definition snowflake_sink :: "services \<Rightarrow> string \<Rightarrow> string \<Rightarrow> string option \<Rightarrow> data_set \<Rightarrow> ('w, json) run" where
  "snowflake_sink S account_url table stage_uri ds =
     (case stage_uri of
        None \<Rightarrow> io_fail (structured ''ORCHESTRATION_VALIDATION'' ''snowflake sink requires stage_uri (s3://, gs://, abfss://, or file://)'' ''sink'')
      | Some stage \<Rightarrow>
          (let stage_parquet = (if stage \<noteq> [] \<and> last stage = CHR ''/'' then stage @ ''load.parquet'' else stage @ ''.parquet'');
               (copy_status, copy_detail) = (case copy_into_table_from_stage (sv_remote S) of
                   Inl (Failed e) \<Rightarrow> (''skipped'', Some (''stage write ok; COPY INTO skipped ('' @ show_error S e @
                     ''). Set SNOWFLAKE_USER/PASSWORD and feature snowflake for automatic COPY.''))
                 | _ \<Rightarrow> (''ok'', None)) in
           io_match (on_net (write_dataset_to_snowflake_stage (sv_remote S) stage_parquet ds))
             (\<lambda>n. sink_answer ''snowflake'' ''ok''
                [(''account_url'', JString account_url), (''table'', JString table), (''stage_uri'', JString stage_parquet),
                 (''row_count'', json_nat n), (''copy_status'', JString copy_status), (''copy_detail'', json_str_opt copy_detail)])
             (\<lambda>e. sink_answer ''snowflake'' ''error''
                [(''error_code'', JString ''SNOWFLAKE_SINK_FAILED''), (''error'', JString (sv_dbg_error S e))])))"

definition databricks_sink :: "services \<Rightarrow> string \<Rightarrow> string option \<Rightarrow> string option \<Rightarrow> string option \<Rightarrow> string \<Rightarrow> data_set \<Rightarrow> ('w, json) run" where
  "databricks_sink S workspace_url catalog_uri warehouse namespace table ds =
     (case warehouse of
        None \<Rightarrow> io_fail (structured ''ORCHESTRATION_VALIDATION'' ''databricks sink requires warehouse (abfss:// or s3://)'' ''sink'')
      | Some wh \<Rightarrow>
          (let table_uri = delta_table_uri wh namespace table in
           io_match (on_net (write_dataset_to_delta_table (sv_remote S) table_uri ds))
             (\<lambda>n. sink_answer ''databricks'' ''ok''
                [(''workspace_url'', JString workspace_url), (''catalog_uri'', json_str_opt catalog_uri),
                 (''table_uri'', JString table_uri), (''row_count'', json_nat n)])
             (\<lambda>e. sink_answer ''databricks'' ''error''
                [(''error_code'', JString ''DATABRICKS_SINK_FAILED''), (''table_uri'', JString table_uri), (''error'', JString (sv_dbg_error S e))])))"

definition spark_sink :: "services \<Rightarrow> string option \<Rightarrow> string option \<Rightarrow> string \<Rightarrow> data_set \<Rightarrow> ('w, json) run" where
  "spark_sink S master app_name handoff_uri ds =
     io_match (export_dataset_to_handoff_uri S handoff_uri ds)
       (\<lambda>n. sink_answer ''spark'' ''ok''
          [(''master'', json_str_opt master), (''app_name'', json_str_opt app_name), (''handoff_uri'', JString handoff_uri),
           (''row_count'', json_nat n),
           (''detail'', JString ''Parquet written by Rust at handoff_uri; Spark driver reads with spark.read.parquet (no JVM connector in rdp_jvm_sys).'')])
       (\<lambda>e. sink_answer ''spark'' ''error''
          [(''error_code'', JString ''SPARK_HANDOFF_FAILED''), (''handoff_uri'', JString handoff_uri), (''error'', JString (sv_dbg_pipeline S e))])"

definition object_store_sink :: "services \<Rightarrow> string \<Rightarrow> string option \<Rightarrow> data_set \<Rightarrow> ('w, json) run" where
  "object_store_sink S uri format ds =
     (let target = (if uri \<noteq> [] \<and> last uri = CHR ''/'' then uri @ ''data.parquet'' else uri) in
      io_match (on_net (export_dataset_to_object_store_uri (sv_remote S) target ds))
        (\<lambda>_. sink_answer ''object_store'' ''ok''
           [(''uri'', JString target), (''scheme'', JString (object_store_scheme target)), (''format'', json_str_opt format),
            (''row_count'', json_nat (row_count ds))])
        (\<lambda>e. sink_answer ''object_store'' ''error''
           [(''error_code'', JString ''OBJECT_STORE_SINK_FAILED''), (''uri'', JString target), (''error'', JString (show_error S e))]))"

definition file_sink :: "string \<Rightarrow> path \<Rightarrow> data_set \<Rightarrow> ('w, unit) run \<Rightarrow> ('w, json) run" where
  "file_sink kind p ds write =
     io_bind write (\<lambda>_. io_ok (sink_answer kind ''ok'' [(''path'', JString p), (''row_count'', json_nat (row_count ds))]))"


text \<open>The SQL of a sink, then its action. A delta sink without a local warehouse and an Iceberg sink only
  report; every other kind first evaluates its branch.\<close>

definition sink_action :: "services \<Rightarrow> sink_spec \<Rightarrow> data_set \<Rightarrow> ('w, json) run" where
  "sink_action S sink ds =
     (case sink of
        ParquetFile p _ \<Rightarrow> file_sink ''parquet_file'' p ds (write_parquet_sink S p ds)
      | XmlFile p _ \<Rightarrow> file_sink ''xml_file'' p ds
          (io_bind (create_parent S ''XML_SINK_IO_FAILED'' p) (\<lambda>_.
           io_map_err (\<lambda>e. structured ''XML_SINK_WRITE_FAILED'' (show_error S e) ''sink'') (write_xml S p ds)))
      | Postgresql url table create_table empty_first _ \<Rightarrow>
          db_sink (sv_postgres S) ''postgresql'' ''POSTGRES''
            ''rebuild rdp_jvm_sys with --features sink_postgres for libpq COPY from Polars-collected rows'' table
            (postgres_copy_sink (sv_driver S) (sv_show_f64 S) url table ds create_table empty_first)
      | Oracle url table create_table empty_first _ \<Rightarrow>
          db_sink (sv_oracle S) ''oracle'' ''ORACLE'' ''rebuild rdp_jvm_sys with --features sink_oracle for OCI row load'' table
            (oracle_row_sink (sv_driver S) (sv_show_f64 S) (sv_dbg_cell S) url table ds create_table empty_first)
      | Mssql url table create_table empty_first _ \<Rightarrow>
          db_sink (sv_mssql S) ''mssql'' ''MSSQL'' ''rebuild rdp_jvm_sys with --features sink_mssql for TDS row load'' table
            (mssql_row_sink (sv_driver S) (sv_parse_url S) (sv_dbg_cell S) url table ds create_table empty_first)
      | DeltaLake warehouse catalog_uri namespace table _ \<Rightarrow> delta_sink S warehouse catalog_uri namespace table ds
      | Iceberg catalog_uri warehouse namespace table _ \<Rightarrow>
          io_ok (iceberg_answer catalog_uri warehouse namespace table)
      | Snowflake account_url _ _ _ table stage_uri _ _ \<Rightarrow> snowflake_sink S account_url table stage_uri ds
      | Databricks workspace_url catalog_uri warehouse namespace table _ \<Rightarrow>
          databricks_sink S workspace_url catalog_uri warehouse namespace table ds
      | Spark master app_name handoff_uri _ \<Rightarrow> spark_sink S master app_name handoff_uri ds
      | ObjectStore uri format _ \<Rightarrow> object_store_sink S uri format ds)"

text \<open>The sinks that do not evaluate their branch.\<close>

definition pending_sink :: "sink_spec \<Rightarrow> json option" where
  "pending_sink sink =
     (case sink of
        DeltaLake warehouse catalog_uri namespace table _ \<Rightarrow>
          if delta_lake_warehouse_supports_local_staging warehouse then None
          else Some (pending_answer ''delta_lake'' ''DELTA_LAKE_CONNECTOR_PENDING'' table (json_str_opt catalog_uri) warehouse namespace
            ''Delta Lake catalog commit (ACID log, REST/thrift catalog) is not linked for cloud warehouses in this rdp_jvm_sys build; use warehouse file:// for local Parquet staging from Rust or kind parquet_file for on-disk demos.'')
      | Iceberg catalog_uri warehouse namespace table _ \<Rightarrow>
          Some (iceberg_answer catalog_uri warehouse namespace table)
      | _ \<Rightarrow> None)"

definition run_sink :: "services \<Rightarrow> nat option \<Rightarrow> lazy_frame \<Rightarrow> sink_spec \<Rightarrow> ('w, json) run" where
  "run_sink S deadline base sink =
     io_bind (check_deadline S deadline ''sink'') (\<lambda>_.
     io_bind (io_of (run_sql S ''sink_sql'' base (sink_sql sink))) (\<lambda>branch.
     case pending_sink sink of
       Some answer \<Rightarrow> io_ok answer
     | None \<Rightarrow> io_bind (collect_branch S branch) (sink_action S sink)))"

subsection \<open>The run\<close>

definition json_nat_opt :: "nat option \<Rightarrow> json" where
  "json_nat_opt x = (case x of Some n \<Rightarrow> json_nat n | None \<Rightarrow> JNull)"

definition listed :: "string \<Rightarrow> json list \<Rightarrow> (string \<times> json) list" where
  "listed k xs = (if xs = [] then [] else [(k, JArray xs)])"

definition run_answer :: "run_pipeline_request \<Rightarrow> json option \<Rightarrow> ingested \<Rightarrow> nat \<Rightarrow> json list \<Rightarrow> json" where
  "run_answer rq declared i elapsed_ms sink_results =
     (let orch = rq_orchestration rq in JObject (
       [(''kind'', JString ''run_pipeline_json''),
        (''engine'', JString ''ingest_ordered_paths_then_polars_sql_then_sinks''),
        (''paths'', JArray (map JString (so_paths (rq_sources rq)))),
        (''ingested_row_count'', json_nat (row_count (in_ds i))),
        (''ordered_batch'', JObject
          [(''paths'', JArray (map JString (bm_paths (in_meta i)))), (''last_path'', json_str_opt (bm_last_path (in_meta i)))]),
        (''orchestration'', JObject
          [(''pipeline_spec_version'', json_nat (rq_version rq)),
           (''idempotency_key'', json_str_opt (Option.bind orch oc_idempotency_key)),
           (''elapsed_ms'', json_nat elapsed_ms),
           (''timeout_ms'', json_nat_opt (Option.bind orch oc_timeout_ms)),
           (''max_ingested_rows'', json_nat_opt (Option.bind orch oc_max_ingested_rows))]),
        (''sink_results'', JArray sink_results)] @
       listed ''object_store_source_results'' (in_stores i) @
       listed ''file_transfer_source_results'' (in_transfers i) @
       listed ''db_source_results'' (in_dbs i) @
       (case declared of Some d \<Rightarrow> [(''declared_staging_schemas'', d)] | None \<Rightarrow> [])))"

definition source_options :: "services \<Rightarrow> sources_spec \<Rightarrow> 'w ingestion_options pres" where
  "source_options S src =
     map_err (\<lambda>e. structured ''ORCHESTRATION_VALIDATION'' e ''parse'')
       (parse_ingestion_options (sv_json S) (if so_options src = JNull then ''{}'' else jl_text (sv_json S) (so_options src)) None)"

text \<open>The stages after the checks.\<close>

definition run_stages :: "services \<Rightarrow> nat option \<Rightarrow> run_pipeline_request \<Rightarrow> 'w ingestion_options \<Rightarrow> ('w, ingested \<times> json list) run" where
  "run_stages S deadline rq opts =
     io_bind (ingest_pipeline_sources S (rq_sources rq) opts) (\<lambda>i.
     io_bind (check_deadline S deadline ''ingest'') (\<lambda>_.
     io_bind (io_of (check_row_budget (rq_orchestration rq) (row_count (in_ds i)))) (\<lambda>_.
     io_bind (io_of (materialize_base S (in_ds i))) (\<lambda>base0.
     io_bind (check_deadline S deadline ''transform'') (\<lambda>_.
     io_bind (io_of (run_sql S ''transform'' base0 (Option.bind (rq_transform rq) tr_sql))) (\<lambda>base.
     io_bind (io_traverse (run_sink S deadline base) (rq_sinks rq)) (\<lambda>sink_results.
     io_ok (i, sink_results))))))))"

text \<open>The checks before anything is read.\<close>

definition run_checks ::
  "services \<Rightarrow> string \<Rightarrow> ('w, nat \<times> run_pipeline_request \<times> json option \<times> nat option \<times> 'w ingestion_options) run" where
  "run_checks S payload_json =
     io_bind (now S) (\<lambda>t_start.
     io_bind (io_of (decode_request (sv_decode S) payload_json)) (\<lambda>(rq, declared).
     io_bind (io_of (check_version (rq_version rq))) (\<lambda>_.
     io_bind (pipeline_deadline S (rq_orchestration rq)) (\<lambda>deadline.
     io_bind (io_of (check_sources (rq_sources rq) (rq_sinks rq))) (\<lambda>_.
     io_bind (check_deadline S deadline ''parse'') (\<lambda>_.
     io_bind (io_of (source_options S (rq_sources rq))) (\<lambda>opts.
     io_ok (t_start, rq, declared, deadline, opts))))))))"

definition run_pipeline_impl :: "services \<Rightarrow> string \<Rightarrow> ('w, json) run" where
  "run_pipeline_impl S payload_json =
     io_bind (run_checks S payload_json) (\<lambda>(t_start, rq, declared, deadline, opts).
     io_bind (run_stages S deadline rq opts) (\<lambda>(i, sink_results).
     io_bind (now S) (\<lambda>t_end.
     io_ok (run_answer rq declared i ((t_end - t_start) div 1000000) sink_results))))"

text \<open>The exported function: a document in every case, unless the code panics.\<close>

definition rdp_run_pipeline_json :: "services \<Rightarrow> string option \<Rightarrow> ('w world, 'e, json) io" where
  "rdp_run_pipeline_json S payload_json_ptr =
     (case cstr_to_str (sv_json S) payload_json_ptr ''payload_json'' of
        Inl (Failed e) \<Rightarrow> io_ok (json_err_structured ''ORCHESTRATION_VALIDATION'' e (Some ''parse''))
      | Inl (Panic p) \<Rightarrow> io_of (Panics p)
      | Inr payload \<Rightarrow> io_match (run_pipeline_impl S payload) json_ok into_slice)"

end
