(* ===== verification/Pipeline_Safety.thy ===== *)
theory Pipeline_Safety
  imports Pipeline_Run
begin

text \<open>
  What a run of the JVM pipeline guarantees: the effects a failing stage may have had, one answer per
  sink, the rows the sources contribute.
\<close>

subsection \<open>Which stages touch what\<close>

text \<open>
  Checks only read the clock. Everything before the sinks leaves the databases and the outputs alone,
  sends nothing over the network, and downloads to the temporary directory only.
\<close>

definition only_ticks :: "'w world \<Rightarrow> 'w world \<Rightarrow> bool" where
  "only_ticks u v \<longleftrightarrow> wd_net v = wd_net u \<and> wd_db v = wd_db u \<and> wd_fs v = wd_fs u \<and> wd_obs v = wd_obs u"

definition no_sink_effect :: "path \<Rightarrow> 'w world \<Rightarrow> 'w world \<Rightarrow> bool" where
  "no_sink_effect dir u v \<longleftrightarrow> wd_db v = wd_db u \<and> wd_fs v = wd_fs u \<and>
     (\<exists>calls. wd_net v = wd_net u @ calls \<and> list_all (in_temp dir) calls)"

interpretation checks: io_step only_ticks
  by unfold_locales (auto simp: only_ticks_def)

interpretation reads: io_step "no_sink_effect dir" for dir
proof
  show "no_sink_effect dir u w" if "no_sink_effect dir u v" "no_sink_effect dir v w" for u v w
    using that by (auto simp: no_sink_effect_def)
qed (simp add: no_sink_effect_def)

lemma ticks_no_sink_effect: "only_ticks u v \<Longrightarrow> no_sink_effect dir u v"
  by (simp add: only_ticks_def no_sink_effect_def)

lemma checks_reads: "checks.keeps m \<Longrightarrow> reads.keeps dir m"
  by (simp add: checks.keeps_def reads.keeps_def ticks_no_sink_effect)

lemma checks_now: "checks.keeps (now S)"
  by (rule checks.keepsI) (simp add: now_def only_ticks_def)

lemma checks_deadline: "checks.keeps (check_deadline S deadline stage)" "checks.keeps (pipeline_deadline S orch)"
  by (auto simp: check_deadline_def pipeline_deadline_def split: option.split intro!: checks.keeps_intros checks_now)

lemma reads_net:
  fixes m :: "('b, 'a) net"
  assumes "downloads.keeps dir m"
  shows "reads.keeps dir (on_net m)"
proof (rule reads.keepsI)
  fix w :: "'b world"
  have "only_downloads dir (wd_net w, wd_obs w) (snd (m (wd_net w, wd_obs w)))" by (rule downloads.keepsD [OF assms])
  then show "no_sink_effect dir w (snd (on_net m w))"
    by (cases "m (wd_net w, wd_obs w)") (auto simp: on_net_def no_sink_effect_def only_downloads_def)
qed

lemma reads_obs: "reads.keeps dir (on_obs m)"
  by (rule reads.keepsI) (simp add: on_obs_def no_sink_effect_def split: prod.split)

lemma reads_sources: "reads.keeps (rm_temp_dir (sv_remote S)) (ingest_pipeline_sources S src opts)"
  by (auto simp: ingest_pipeline_sources_def ingest_local_paths_def ingest_uris_def Let_def split: prod.split
      intro!: reads.keeps_intros reads_net reads_obs downloads_file_transfer downloads_object_store)

text \<open>A predicate on the world before, the error and the world after, for every way to fail.\<close>

definition errs :: "('w world \<Rightarrow> pipeline_err \<Rightarrow> 'w world \<Rightarrow> bool) \<Rightarrow> ('w, 'a) run \<Rightarrow> bool" where
  "errs Q m \<longleftrightarrow> (\<forall>w e w'. m w = (Err e, w') \<longrightarrow> Q w e w')"

lemma errsD: "errs Q m \<Longrightarrow> m w = (Err e, w') \<Longrightarrow> Q w e w'"
  by (simp add: errs_def)

lemma errs_mono: "errs P m \<Longrightarrow> (\<And>w e w'. P w e w' \<Longrightarrow> Q w e w') \<Longrightarrow> errs Q m"
  by (auto simp: errs_def)

lemma errs_ok: "errs Q (io_ok a)"
  by (simp add: errs_def)

lemma io_bind_Err:
  "io_bind m f w = (Err e, w') \<longleftrightarrow> m w = (Err e, w') \<or> (\<exists>a v. m w = (Inr a, v) \<and> f a v = (Err e, w'))"
  by (auto simp: io_bind_def split: prod.splits sum.splits)

lemma errs_bind:
  assumes "errs Q m" "\<And>u a v e w. m u = (Inr a, v) \<Longrightarrow> Q v e w \<Longrightarrow> Q u e w" "\<And>a. errs Q (f a)"
  shows "errs Q (io_bind m f)"
  using assms unfolding errs_def io_bind_Err by blast

abbreviation fails_in :: "string set \<Rightarrow> ('w, 'a) run \<Rightarrow> bool" where
  "fails_in stages \<equiv> errs (\<lambda>_ e _. pl_stage e \<in> stages)"

lemma fails_in_bind: "fails_in A m \<Longrightarrow> (\<And>a. fails_in A (f a)) \<Longrightarrow> fails_in A (io_bind m f)"
  by (rule errs_bind) auto

lemma fails_in_map_err: "(\<And>e. pl_stage (g e) \<in> A) \<Longrightarrow> fails_in A (io_map_err g m)"
  by (auto simp: errs_def io_map_err_def map_err_def split: prod.splits sum.splits elim!: map_fault.elims)

lemma fails_in_of_map_err: "(\<And>e. pl_stage (g e) \<in> A) \<Longrightarrow> fails_in A (io_of (map_err g r))"
  by (auto simp: errs_def map_err_def split: sum.splits elim!: map_fault.elims)

lemma fails_in_of: "(\<And>e. r = Err e \<Longrightarrow> pl_stage e \<in> A) \<Longrightarrow> fails_in A (io_of r)"
  by (simp add: errs_def)

lemma fails_in_traverse: "(\<And>x. x \<in> set xs \<Longrightarrow> fails_in A (f x)) \<Longrightarrow> fails_in A (io_traverse f xs)"
  by (induction xs) (auto intro!: errs_ok fails_in_bind)

lemma fails_in_match: "fails_in A (io_match m f g)"
  by (auto simp: errs_def io_match_def split: prod.splits sum.splits fault.splits)

lemma structured_stage [simp]: "pl_stage (structured code message stage) = stage" "pl_code (structured code message stage) = code"
  by (simp_all add: structured_def)

lemma fails_in_deadline: "stage \<in> A \<Longrightarrow> fails_in A (check_deadline S deadline stage)"
  by (auto simp: check_deadline_def errs_def now_def io_bind_Err split: option.splits if_splits)

lemmas fails_in_intros = errs_ok fails_in_bind fails_in_map_err fails_in_of_map_err fails_in_traverse fails_in_match fails_in_deadline


lemma fails_in_of_ok: "errs Q (io_of (Inr a))"
  by (simp add: errs_def)

lemma fails_in_fail: "pl_stage e \<in> A \<Longrightarrow> fails_in A (io_fail e)"
  by (simp add: errs_def)

lemma fails_in_create_parent: "''sink'' \<in> A \<Longrightarrow> fails_in A (create_parent S code p)"
  by (auto simp: errs_def create_parent_def split: option.splits if_splits)

lemma fails_in_sink_action: "''sink'' \<in> A \<Longrightarrow> fails_in A (sink_action S sink ds)"
  by (cases sink)
     (auto simp: sink_action_def file_sink_def write_parquet_sink_def db_sink_def delta_sink_def snowflake_sink_def databricks_sink_def
        spark_sink_def object_store_sink_def Let_def split: option.split prod.split
        intro!: fails_in_intros fails_in_create_parent fails_in_fail)

lemma fails_in_run_sql: "stage \<in> A \<Longrightarrow> fails_in A (io_of (run_sql S stage base sql))"
  by (auto simp: run_sql_def split: option.split intro!: fails_in_of_map_err fails_in_of_ok)

lemma fails_in_run_sink: "''sink'' \<in> A \<Longrightarrow> ''sink_sql'' \<in> A \<Longrightarrow> fails_in A (run_sink S deadline base sink)"
  unfolding run_sink_def collect_branch_def
  by (auto split: option.split intro!: fails_in_intros fails_in_run_sql fails_in_sink_action)

lemma traverse_map_err_stage:
  assumes "\<And>x e. pl_stage (g x e) \<in> A"
  shows "traverse (\<lambda>x. map_err (g x) (f x)) xs = Err e \<Longrightarrow> pl_stage e \<in> A"
proof (induction xs)
  case (Cons x xs)
  then show ?case using assms
    by (cases "f x") (auto simp: result_simps map_err_def elim!: map_fault.elims split: sum.splits)
qed simp

lemma fails_in_sources:
  assumes "''ingest'' \<in> A"
  shows "fails_in A (ingest_pipeline_sources S src opts)"
proof -
  have "fails_in A (io_of (ingest_db_reads S dbs s opts))" for dbs s
    using assms
    by (auto simp: ingest_db_reads_def rmap_Inl_iff split: option.split
        intro!: fails_in_of elim!: traverse_map_err_stage [rotated])
  moreover have "fails_in A (io_of (join_sources S s opts meta rs))" for s meta rs
    using assms
    by (auto simp: join_sources_def rbind_Inl_iff rmap_Inl_iff map_err_def split: option.splits sum.splits if_splits
        intro!: fails_in_of elim!: map_fault.elims)
  ultimately show ?thesis using assms
    by (auto simp: ingest_pipeline_sources_def ingest_local_paths_def ingest_uris_def Let_def split: prod.split intro!: fails_in_intros)
qed


lemma errs_bind_total: "errs Q m \<Longrightarrow> (\<And>a. errs (\<lambda>_ _ _. False) (f a)) \<Longrightarrow> errs Q (io_bind m f)"
  unfolding errs_def io_bind_Err by blast

lemma checks_after: "checks.keeps m \<Longrightarrow> m w = (r, w') \<Longrightarrow> only_ticks w w'"
  using checks.keepsD [of m w] by simp

lemma reads_after: "reads.keeps dir m \<Longrightarrow> m w = (r, w') \<Longrightarrow> no_sink_effect dir w w'"
  using reads.keepsD [of dir m w] by simp

text \<open>How a run may fail once its checks have passed.\<close>

definition late :: "path \<Rightarrow> 'w world \<Rightarrow> pipeline_err \<Rightarrow> 'w world \<Rightarrow> bool" where
  "late dir u e v \<longleftrightarrow> pl_stage e \<noteq> ''parse'' \<and> (pl_stage e \<in> {''ingest'', ''transform''} \<longrightarrow> no_sink_effect dir u v)"

lemma late_bind:
  assumes "reads.keeps dir m" "fails_in {''ingest'', ''transform''} m" "\<And>a. errs (late dir) (f a)"
  shows "errs (late dir) (io_bind m f)"
proof (rule errs_bind)
  show "errs (late dir) m"
    by (auto simp: errs_def late_def dest: errsD [OF assms(2)] reads_after [OF assms(1)])
next
  fix u a v e w assume "m u = (Inr a, v)" "late dir v e w"
  moreover from this have "no_sink_effect dir u v" using reads.keepsD [OF assms(1), of u] by simp
  ultimately show "late dir u e w" by (auto simp: late_def intro: reads.trans)
qed (rule assms(3))

lemma fails_in_budget: "''ingest'' \<in> A \<Longrightarrow> fails_in A (io_of (check_row_budget orch n))"
  by (auto simp: check_row_budget_def errs_def split: option.splits if_splits)

lemma late_stages: "errs (late (rm_temp_dir (sv_remote S))) (run_stages S deadline rq opts)"
proof -
  have sinks: "errs (late dir) (io_bind (io_traverse (run_sink S deadline base) sinks) (\<lambda>rs. io_ok (i, rs)))"
    for dir base and sinks :: "sink_spec list" and i :: ingested
    by (rule errs_mono [where P = "\<lambda>_ e _. pl_stage e \<in> {''sink'', ''sink_sql''}"])
      (auto simp: late_def simp del: insert_iff intro!: fails_in_intros fails_in_run_sink)
  show ?thesis unfolding run_stages_def materialize_base_def
    by (intro late_bind sinks fails_in_budget reads.keeps_of reads_sources checks_reads [OF checks_deadline(1)]
        fails_in_sources fails_in_deadline fails_in_of_map_err fails_in_run_sql) simp_all
qed

definition staged :: "path \<Rightarrow> 'w world \<Rightarrow> pipeline_err \<Rightarrow> 'w world \<Rightarrow> bool" where
  "staged dir u e v \<longleftrightarrow> (pl_stage e = ''parse'' \<longrightarrow> only_ticks u v) \<and> (pl_stage e \<in> {''ingest'', ''transform''} \<longrightarrow> no_sink_effect dir u v)"

lemma staged_bind:
  assumes m: "checks.keeps m" and f: "\<And>a. errs (staged dir) (f a)"
  shows "errs (staged dir) (io_bind m f)"
proof (rule errs_bind)
  show "errs (staged dir) m" by (auto simp: errs_def staged_def dest: checks_after [OF m] ticks_no_sink_effect)
  show "staged dir u e v'" if "m u = (Inr a, v)" "staged dir v e v'" for u a v e v'
    using that checks_after [OF m that(1)] by (auto simp: staged_def intro: checks.trans reads.trans ticks_no_sink_effect)
qed (rule f)

lemma staged_stages: "errs (staged (rm_temp_dir (sv_remote S))) (io_bind (run_stages S deadline rq opts) (\<lambda>(i, rs). io_bind (now S) (\<lambda>t. io_ok (answer i rs t))))"
proof (rule errs_bind_total)
  show "errs (staged (rm_temp_dir (sv_remote S))) (run_stages S deadline rq opts)" by (rule errs_mono [OF late_stages]) (auto simp: late_def staged_def)
qed (auto simp: errs_def io_bind_Err now_def)

lemma checks_run: "checks.keeps (run_checks S payload)"
  unfolding run_checks_def
  by (intro checks.keeps_intros checks_now checks_deadline | clarsimp simp only: split: prod.split)+

lemma staged_run: "errs (staged (rm_temp_dir (sv_remote S))) (run_pipeline_impl S payload)"
  unfolding run_pipeline_impl_def
  by (intro staged_bind checks_run staged_stages | clarsimp simp only: split: prod.split)+

subsection \<open>Properties\<close>

text \<open>C32: A run that fails in a stage has done nothing that belongs to a later one. Failing in the parse
  stage it has touched nothing but the clock. Failing in the ingest or transform stage it has not
  executed a statement of a database sink, created no directory and no file of a sink, and uploaded
  nothing; the downloads of remote sources create, write and remove files in the temporary directory
  only (where a failing ingestion leaves its file behind).\<close>

theorem failed_stage_bounds_effects:
  assumes "run_pipeline_impl S payload w = (Err e, w')"
  shows "(pl_stage e = ''parse'' \<longrightarrow> only_ticks w w') \<and>
    (pl_stage e \<in> {''ingest'', ''transform''} \<longrightarrow> wd_db w' = wd_db w \<and> wd_fs w' = wd_fs w \<and>
      (\<exists>calls. wd_net w' = wd_net w @ calls \<and> list_all (in_temp (rm_temp_dir (sv_remote S))) calls))"
  using errsD [OF staged_run assms] by (auto simp: staged_def no_sink_effect_def)


lemma io_match_Inr:
  "io_match m f g w = (Inr b, w') \<longleftrightarrow> (\<exists>x. m w = (Inr x, w') \<and> b = f x) \<or> (\<exists>e. m w = (Err e, w') \<and> b = g e)"
  by (auto simp: io_match_def split: prod.splits sum.splits fault.splits)

lemma io_traverse_Inr:
  "io_traverse f xs w = (Inr ys, w') \<Longrightarrow> list_all2 (\<lambda>x y. \<exists>u v. f x u = (Inr y, v)) xs ys"
proof (induction xs arbitrary: ys w)
  case (Cons x xs)
  from Cons.prems obtain y v zs where "f x w = (Inr y, v)" "io_traverse f xs v = (Inr zs, w')" "ys = y # zs"
    by (auto simp: io_bind_ok)
  with Cons.IH show ?case by auto
qed simp

lemma io_traverse_Err:
  "io_traverse f xs w = (Err e, w') \<Longrightarrow>
    \<exists>us x vs ys v. xs = us @ x # vs \<and> io_traverse f us w = (Inr ys, v) \<and> f x v = (Err e, w')"
proof (induction xs arbitrary: w)
  case (Cons x xs)
  show ?case
  proof (cases "f x w")
    case (Pair r v)
    show ?thesis
    proof (cases r)
      case (Inl a)
      with Pair Cons.prems have "f x w = (Err e, w')" by simp
      then show ?thesis by (intro exI [of _ "[]"]) auto
    next
      case (Inr y)
      with Pair Cons.prems have "io_traverse f xs v = (Err e, w')" by (auto simp: io_bind_Err)
      with Cons.IH obtain us z vs ys v' where "xs = us @ z # vs" "io_traverse f us v = (Inr ys, v')" "f z v' = (Err e, w')" by blast
      with Pair Inr show ?thesis
        by (intro exI [of _ "x # us"] exI [of _ z] exI [of _ vs] exI [of _ "y # ys"] exI [of _ v']) simp
    qed
  qed
qed simp

text \<open>The kind a sink answers with, and the states it may report.\<close>

fun sink_kind :: "sink_spec \<Rightarrow> string" where
  "sink_kind (ParquetFile _ _) = ''parquet_file''"
| "sink_kind (XmlFile _ _) = ''xml_file''"
| "sink_kind (Postgresql _ _ _ _ _) = ''postgresql''"
| "sink_kind (Oracle _ _ _ _ _) = ''oracle''"
| "sink_kind (Mssql _ _ _ _ _) = ''mssql''"
| "sink_kind (DeltaLake _ _ _ _ _) = ''delta_lake''"
| "sink_kind (Iceberg _ _ _ _ _) = ''iceberg''"
| "sink_kind (Snowflake _ _ _ _ _ _ _ _) = ''snowflake''"
| "sink_kind (Databricks _ _ _ _ _ _) = ''databricks''"
| "sink_kind (Spark _ _ _ _) = ''spark''"
| "sink_kind (ObjectStore _ _ _) = ''object_store''"

definition answers :: "sink_spec \<Rightarrow> json \<Rightarrow> bool" where
  "answers sink r \<longleftrightarrow> (\<exists>status rest. r = sink_answer (sink_kind sink) status rest \<and>
     status \<in> {''ok'', ''error'', ''skipped'', ''connector_pending''})"

lemma sink_action_answers: "sink_action S sink ds w = (Inr r, w') \<Longrightarrow> answers sink r"
  by (cases sink)
     (auto simp: sink_action_def file_sink_def db_sink_def delta_sink_def snowflake_sink_def databricks_sink_def spark_sink_def
        object_store_sink_def iceberg_answer_def pending_answer_def answers_def io_match_Inr io_bind_ok Let_def
        split: option.splits if_splits prod.splits)

lemma pending_sink_answers: "pending_sink sink = Some r \<Longrightarrow> answers sink r"
  by (cases sink) (auto simp: pending_sink_def iceberg_answer_def pending_answer_def answers_def split: if_splits)

lemma run_sink_answers: "run_sink S deadline base sink w = (Inr r, w') \<Longrightarrow> answers sink r"
  by (auto simp: run_sink_def io_bind_ok collect_branch_def split: option.splits dest: sink_action_answers pending_sink_answers)

lemma run_checks_ok:
  assumes "run_checks S payload w = (Inr (t_start, rq, declared, deadline, opts), v)"
  shows "decode_request (sv_decode S) payload = Ok (rq, declared) \<and> check_version (rq_version rq) = Ok () \<and>
    check_sources (rq_sources rq) (rq_sinks rq) = Ok () \<and> source_options S (rq_sources rq) = Ok opts \<and> only_ticks w v"
  using assms checks_after [OF checks_run assms] by (auto simp: run_checks_def io_bind_ok io_bind_of_ok split: prod.splits)

lemma errs_case_prod: "(\<And>a b. errs Q (f a b)) \<Longrightarrow> errs Q (case p of (a, b) \<Rightarrow> f a b)"
  by (cases p) simp

lemma first_error_stage: "(\<And>x e. f x = Some e \<Longrightarrow> pl_stage e \<in> A) \<Longrightarrow> first_error f xs = Err e \<Longrightarrow> pl_stage e \<in> A"
  by (induction xs) (auto split: option.splits)

lemma fails_in_check_sources:
  assumes A: "''parse'' \<in> A" "''ingest'' \<in> A"
  shows "fails_in A (io_of (check_sources s sinks))"
proof (rule fails_in_of)
  fix e assume "check_sources s sinks = Err e"
  then show "pl_stage e \<in> A"
    unfolding check_sources_def rbind_Inl_iff
    by (elim disjE exE conjE first_error_stage [rotated])
      (auto simp: A db_read_error_def split: if_splits option.splits)
qed

lemma fails_in_checks:
  assumes A: "''parse'' \<in> A" "''ingest'' \<in> A"
  shows "fails_in A (run_checks S payload)"
proof -
  have decode: "fails_in A (io_of (decode_request D payload))" for D
    using A by (auto simp: decode_request_def map_err_def errs_def split: sum.splits envelope.splits elim!: map_fault.elims)
  have version: "fails_in A (io_of (check_version n))" for n
    using A by (auto simp: check_version_def errs_def split: if_splits)
  have deadline: "fails_in A (pipeline_deadline S orch)" for orch :: "orchestration_spec option"
    by (auto simp: pipeline_deadline_def errs_def io_bind_Err now_def split: option.splits if_splits)
  have clock: "fails_in A (now S)" by (simp add: errs_def now_def)
  show ?thesis
    unfolding run_checks_def source_options_def
    by (intro fails_in_intros errs_case_prod fails_in_check_sources decode version deadline clock A) (simp_all add: A)
qed


definition member :: "string \<Rightarrow> json \<Rightarrow> json option" where
  "member k j = (case j of JObject m \<Rightarrow> map_of m k | _ \<Rightarrow> None)"

lemma run_stages_ok:
  assumes "run_stages S deadline rq opts u = (Inr (i, results), v)"
  shows "\<exists>base x. io_traverse (run_sink S deadline base) (rq_sinks rq) x = (Inr results, v) \<and>
    (\<exists>y. ingest_pipeline_sources S (rq_sources rq) opts u = (Inr i, y)) \<and>
    check_row_budget (rq_orchestration rq) (row_count (in_ds i)) = Ok ()"
  using assms unfolding run_stages_def
  by (auto elim!: io_bindE simp: io_ok_def io_of_def)

text \<open>A failing sink ends the loop over the sinks, which starts from a world the stages before only read.\<close>

definition sink_loop_fails ::
  "services \<Rightarrow> nat option \<Rightarrow> sink_spec list \<Rightarrow> 'w world \<Rightarrow> pipeline_err \<Rightarrow> 'w world \<Rightarrow> bool" where
  "sink_loop_fails S deadline sinks x e v \<longleftrightarrow> (pl_stage e \<in> {''sink'', ''sink_sql''} \<longrightarrow>
     (\<exists>base u. no_sink_effect (rm_temp_dir (sv_remote S)) x u \<and> io_traverse (run_sink S deadline base) sinks u = (Err e, v)))"

lemma sink_loop_bind:
  assumes "reads.keeps (rm_temp_dir (sv_remote S)) m" "fails_in {''ingest'', ''transform''} m" "\<And>a. errs (sink_loop_fails S deadline sinks) (f a)"
  shows "errs (sink_loop_fails S deadline sinks) (io_bind m f)"
proof (rule errs_bind)
  show "errs (sink_loop_fails S deadline sinks) m"
    by (rule errs_mono [OF assms(2)]) (auto simp: sink_loop_fails_def)
  show "sink_loop_fails S deadline sinks u e w" if "m u = (Inr a, v)" "sink_loop_fails S deadline sinks v e w" for u a v e w
    using that reads_after [OF assms(1) that(1)] by (auto simp: sink_loop_fails_def intro: reads.trans)
qed (rule assms(3))

lemma sink_loop_stages: "errs (sink_loop_fails S deadline (rq_sinks rq)) (run_stages S deadline rq opts)"
proof -
  have loop: "errs (sink_loop_fails S deadline sinks) (io_bind (io_traverse (run_sink S deadline base) sinks) (\<lambda>rs. io_ok (i, rs)))"
    for base sinks and i :: ingested
    by (rule errs_bind_total) (auto simp: errs_def sink_loop_fails_def intro: reads.refl)
  show ?thesis unfolding run_stages_def materialize_base_def
    by (intro sink_loop_bind loop reads.keeps_of reads_sources checks_reads [OF checks_deadline(1)]
        fails_in_sources fails_in_deadline fails_in_of_map_err fails_in_run_sql fails_in_budget) simp_all
qed

text \<open>C31: A run that fails at a sink stops there: the sinks before it have been carried out and have
  answered, none of the sinks after it is tried, and the error alone is returned, so what the sinks
  before it wrote stays although their answers are lost.\<close>

theorem failing_sink_stops_run:
  assumes "run_pipeline_impl S payload w = (Err e, w')" "pl_stage e \<in> {''sink'', ''sink_sql''}"
  shows "\<exists>rq declared finished failing rest deadline base u v results.
    decode_request (sv_decode S) payload = Ok (rq, declared) \<and> rq_sinks rq = finished @ failing # rest \<and>
    wd_db u = wd_db w \<and> wd_fs u = wd_fs w \<and>
    io_traverse (run_sink S deadline base) finished u = (Ok results, v) \<and> list_all2 answers finished results \<and>
    run_sink S deadline base failing v = (Err e, w')"
proof -
  have "run_checks S payload w \<noteq> (Err e, w')"
    using errsD [OF fails_in_checks [of "{''parse'', ''ingest''}" S payload], of w e w'] assms(2) by auto
  then obtain t_start rq declared deadline opts x where
    checks: "run_checks S payload w = (Inr (t_start, rq, declared, deadline, opts), x)"
    and stages: "run_stages S deadline rq opts x = (Err e, w')"
    using assms(1) unfolding run_pipeline_impl_def by (fastforce simp: io_bind_Err now_def)
  obtain base u where "no_sink_effect (rm_temp_dir (sv_remote S)) x u" and sinks: "io_traverse (run_sink S deadline base) (rq_sinks rq) u = (Err e, w')"
    using errsD [OF sink_loop_stages stages] assms(2) by (auto simp: sink_loop_fails_def)
  from io_traverse_Err [OF sinks] obtain finished failing rest results v where
    "rq_sinks rq = finished @ failing # rest" and fin: "io_traverse (run_sink S deadline base) finished u = (Inr results, v)"
    "run_sink S deadline base failing v = (Err e, w')" by blast
  moreover have "list_all2 answers finished results"
    by (rule list_all2_mono [OF io_traverse_Inr [OF fin(1)]]) (auto dest: run_sink_answers)
  moreover have "wd_db u = wd_db w \<and> wd_fs u = wd_fs w"
    using \<open>no_sink_effect (rm_temp_dir (sv_remote S)) x u\<close> run_checks_ok [OF checks] by (simp add: no_sink_effect_def only_ticks_def)
  ultimately show ?thesis using run_checks_ok [OF checks] by blast
qed


text \<open>What every kind of source yields: typed rows of the schema that the watermark keeps.\<close>

definition sound_source :: "schema \<Rightarrow> 'w ingestion_options \<Rightarrow> data_set \<Rightarrow> bool" where
  "sound_source s opts ds \<longleftrightarrow> validate_watermark_config s opts = Ok () \<and> ds_schema ds = s \<and> wf_ds ds \<and> (\<forall>r\<in>set (rows ds). kept s opts r)"

lemma sound_filtered:
  assumes "validate_watermark_config s opts = Ok ()" "wf_ds ds" "ds_schema ds = s" "apply_watermark_after_ingest ds s opts = Ok out"
  shows "sound_source s opts (apply_max_rows out m)"
proof -
  have out: "out = filter_rows ds (kept s opts)" using assms(4) watermark_step [OF assms(2,3,1)] by simp
  have "set (rows (apply_max_rows out m)) \<subseteq> set (rows out)"
    by (auto simp: apply_max_rows_def truncate_dataset_rows_def dest: in_set_takeD split: option.splits)
  then show ?thesis using assms(1-3) by (auto simp: sound_source_def out apply_max_rows_wf filter_rows_wf)
qed

lemma sound_ordered_paths:
  assumes "ingest_from_ordered_paths E paths s opts w = (Ok (ds, meta), w')"
  shows "sound_source s opts ds"
proof -
  have v: "validate_watermark_config s opts = Ok ()"
    using assms by (auto simp: ingest_from_ordered_paths_def split: sum.splits)
  obtain rs w1 where each: "ingest_each E s (options_without_watermark opts) paths w = (Inr rs, w1)"
    and fin: "finish_batch s opts paths rs = Ok (ds, meta)"
    using assms by (auto simp: ingest_from_ordered_paths_def rbind_Inr_iff split: sum.splits if_splits prod.splits)
  have "fst (ingest_each E s (options_without_watermark opts) paths w) = Ok rs" using each by simp
  then have "\<forall>r\<in>set rs. wf_row s r"
    unfolding ingest_each_Ok_iff by (fastforce dest: ingest_ok_wf wf_ds_row simp: list_all2_conv_all_nth in_set_conv_nth)
  then show ?thesis
    using fin sound_filtered [OF v, of "data_set_new s rs"] by (auto simp: finish_batch_def Let_def result_simps)
qed

lemma sound_local:
  assumes "ingest_from_path E p s opts w = (Ok ds, w')"
  shows "sound_source s opts ds"
proof -
  have "fst (ingest_from_path E p s opts w) = Ok ds" using assms by simp
  then obtain fmt raw where "validate_watermark_config s opts = Ok ()" "read_format E fmt p s opts = Ok raw"
    "ds = apply_max_rows (filter_rows raw (kept s opts)) (opt_max_rows opts)" by (auto simp: ingest_ok_iff)
  moreover from this have "ds_schema raw = s \<and> wf_ds raw" by (simp add: read_format_wf)
  ultimately show ?thesis
    using sound_filtered [of s opts raw "filter_rows raw (kept s opts)" "opt_max_rows opts"] watermark_step [of raw s opts] by simp
qed

lemma sound_format: "sound_source s (opts\<lparr>opt_format := f\<rparr>) ds \<longleftrightarrow> sound_source s opts ds"
proof -
  have "validate_watermark_config s (opts\<lparr>opt_format := f\<rparr>) = validate_watermark_config s opts"
    "kept s (opts\<lparr>opt_format := f\<rparr>) = kept s opts"
    by (simp_all add: kept_def [abs_def] validate_watermark_config_def cong: option.case_cong)
  then show ?thesis by (simp add: sound_source_def)
qed

lemma sound_remote:
  assumes "prog = ingest_from_file_transfer_uri R uri s opts \<or> prog = ingest_from_object_store_uri R uri s opts"
    and "prog u = (Ok ds, v)"
  shows "sound_source s opts ds"
proof -
  obtain calls w calls' w' where uv: "u = (calls, w)" "v = (calls', w')" by (metis surj_pair)
  from remote_run [OF assms(1) assms(2) [unfolded uv]] show ?thesis
    by (auto simp: sound_format dest: sound_local)
qed

lemma sound_db:
  assumes "ingest_from_db C conn query s opts = Ok ds"
  shows "sound_source s opts ds"
proof -
  obtain batches all where v: "validate_watermark_config s opts = Ok ()" and all: "db_batches_to_dataset C batches s = Ok all"
    and ds: "apply_watermark_after_ingest all s opts = Ok ds"
    using assms by (auto simp: ingest_from_db_def rbind_Inr_iff)
  obtain dss where "list_all2 (\<lambda>b d. db_batch_to_dataset C s b = Ok d) batches dss" "all = data_set_new s (concat (map rows dss))"
    using all by (auto simp: db_batches_to_dataset_def rmap_Inr_iff traverse_Inr_iff)
  with list_all2_db_wf have "wf_ds all \<and> ds_schema all = s" by (fastforce dest: wf_ds_row)
  with sound_filtered [OF v _ _ ds, where m = None] show ?thesis by simp
qed


lemma on_net_Inr: "on_net m w = (Inr x, w') \<Longrightarrow> m (wd_net w, wd_obs w) = (Inr x, (wd_net w', wd_obs w'))"
  by (auto simp: on_net_def split: prod.splits)

lemma ingest_uris_ok:
  fixes ingest :: "string \<Rightarrow> ('w, data_set) net"
  assumes "ingest_uris S ingest code uris w = (Inr dss, w')"
  shows "list_all2 (\<lambda>uri ds. \<exists>u v. ingest uri u = (Ok ds, v)) uris dss"
  using io_traverse_Inr [OF assms [unfolded ingest_uris_def]]
  by (rule list_all2_mono) (auto simp: io_map_err_ok dest!: on_net_Inr)

lemma ingest_db_reads_ok:
  assumes "ingest_db_reads S db_reads s opts = Ok (results, rs)"
  shows "\<exists>dss. list_all2 (\<lambda>db ds. \<exists>C. sv_connectorx S = Some C \<and> ingest_from_db C (dr_url db) (dr_query db) s opts = Ok ds) db_reads dss \<and>
    rs = concat (map rows dss)"
  using assms
  by (auto simp: ingest_db_reads_def rmap_Inr_iff traverse_Inr_iff map_err_Inr_iff split: if_splits option.splits)

lemma sound_rows:
  assumes "list_all2 P xs dss" "\<And>x ds. P x ds \<Longrightarrow> sound_source s opts ds"
  shows "\<forall>r\<in>set (concat (map rows dss)). wf_row s r \<and> kept s opts r \<and> validate_watermark_config s opts = Ok ()"
  using assms(1) by (induction rule: list_all2_induct) (auto dest!: assms(2) simp: sound_source_def dest: wf_ds_row)

lemma join_sources_ok:
  assumes "join_sources S s opts meta rs = Ok (ds, meta')"
    and "\<forall>r\<in>set rs. wf_row s r \<and> kept s opts r \<and> validate_watermark_config s opts = Ok ()"
  shows "rs \<noteq> [] \<and> ds = data_set_new s rs"
proof -
  have rs: "rs \<noteq> []" using assms(1) by (auto simp: join_sources_def)
  with assms(2) have v: "validate_watermark_config s opts = Ok ()" by (cases rs) auto
  have "wf_ds (data_set_new s rs)" using assms(2) by simp
  from watermark_step [OF this _ v] have "apply_watermark_after_ingest (data_set_new s rs) s opts = Ok (filter_rows (data_set_new s rs) (kept s opts))"
    by simp
  moreover have "filter_rows (data_set_new s rs) (kept s opts) = data_set_new s rs"
    using assms(2) by (auto simp: filter_rows_def filter_id_conv)
  ultimately show ?thesis using assms(1) rs
    by (auto simp: join_sources_def rbind_Inr_iff rmap_Inr_iff split: option.splits)
qed

lemma join_of_sources:
  fixes w :: "'w world"
  assumes "ingest_pipeline_sources S src opts w = (Ok i, w')" "s = so_schema src"
  shows "\<exists>local_rows stores transfers dbs.
    in_ds i = data_set_new s (local_rows @ concat (map rows stores) @ concat (map rows transfers) @ concat (map rows dbs)) \<and>
    (if so_paths src = [] then local_rows = []
     else \<exists>ds meta u v. ingest_from_ordered_paths (sv_env S) (so_paths src) s opts u = (Ok (ds, meta), v) \<and> local_rows = rows ds) \<and>
    list_all2 (\<lambda>uri ds. \<exists>u v. ingest_from_object_store_uri (sv_remote S) uri s opts u = (Ok ds, v)) (so_object_store_uris src) stores \<and>
    list_all2 (\<lambda>uri ds. \<exists>u v. ingest_from_file_transfer_uri (sv_remote S) uri s opts u = (Ok ds, v)) (so_file_transfer_uris src) transfers \<and>
    list_all2 (\<lambda>db ds. \<exists>C. sv_connectorx S = Some C \<and> ingest_from_db C (dr_url db) (dr_query db) s opts = Ok ds) (so_db_reads src) dbs \<and>
    rows (in_ds i) \<noteq> [] \<and> wf_ds (in_ds i) \<and> (\<forall>r\<in>set (rows (in_ds i)). kept s opts r)"
proof -
  obtain local_rows meta w1 stores w2 transfers w3 results db_rows ds meta' where
    l: "ingest_local_paths S (so_paths src) s opts w = (Inr (local_rows, meta), w1)"
    and st: "ingest_uris S (\<lambda>uri. ingest_from_object_store_uri (sv_remote S) uri s opts) ''OBJECT_STORE_SOURCE_FAILED''
        (so_object_store_uris src) w1 = (Inr stores, w2)"
    and tr: "ingest_uris S (\<lambda>uri. ingest_from_file_transfer_uri (sv_remote S) uri s opts) ''FILE_TRANSFER_SOURCE_FAILED''
        (so_file_transfer_uris src) w2 = (Inr transfers, w3)"
    and db: "ingest_db_reads S (so_db_reads src) s opts = Ok (results, db_rows)"
    and join: "join_sources S s opts meta (local_rows @ concat (map rows stores) @ concat (map rows transfers) @ db_rows) = Ok (ds, meta')"
    and i: "in_ds i = ds"
    using assms(1) unfolding ingest_pipeline_sources_def Let_def assms(2) [symmetric]
    by (auto simp: io_bind_ok io_bind_of_ok split: prod.splits)
  have l': "if so_paths src = [] then local_rows = []
     else \<exists>ds meta u v. ingest_from_ordered_paths (sv_env S) (so_paths src) s opts u = (Ok (ds, meta), v) \<and> local_rows = rows ds"
    using l by (auto simp: ingest_local_paths_def io_bind_ok io_map_err_ok on_obs_def split: if_splits prod.splits)
  note st' = ingest_uris_ok [OF st] and tr' = ingest_uris_ok [OF tr]
  obtain dbs where db': "list_all2 (\<lambda>db ds. \<exists>C. sv_connectorx S = Some C \<and> ingest_from_db C (dr_url db) (dr_query db) s opts = Ok ds) (so_db_reads src) dbs"
    "db_rows = concat (map rows dbs)" using ingest_db_reads_ok [OF db] by blast
  let ?good = "\<lambda>r. wf_row s r \<and> kept s opts r \<and> validate_watermark_config s opts = Ok ()"
  have "\<forall>r\<in>set local_rows. ?good r"
    using l' by (auto split: if_splits dest!: sound_ordered_paths simp: sound_source_def dest: wf_ds_row)
  moreover have "\<forall>r\<in>set (concat (map rows stores)). ?good r" by (rule sound_rows [OF st']) (auto intro: sound_remote)
  moreover have "\<forall>r\<in>set (concat (map rows transfers)). ?good r" by (rule sound_rows [OF tr']) (auto intro: sound_remote)
  moreover have "\<forall>r\<in>set db_rows. ?good r" unfolding db'(2) by (rule sound_rows [OF db'(1)]) (auto intro: sound_db)
  ultimately have all: "\<forall>r\<in>set (local_rows @ concat (map rows stores) @ concat (map rows transfers) @ db_rows). ?good r" by auto
  from join_sources_ok [OF join all] have "in_ds i = data_set_new s (local_rows @ concat (map rows stores) @ concat (map rows transfers) @ db_rows)"
    "local_rows @ concat (map rows stores) @ concat (map rows transfers) @ db_rows \<noteq> []" by (simp_all add: i)
  with all l' st' tr' db' show ?thesis
    by (intro exI [of _ local_rows] exI [of _ stores] exI [of _ transfers] exI [of _ dbs]) (simp; blast)
qed

text \<open>C33: A run that answers reports one result for each sink of the request, in the order of the request,
  each with the kind of its sink; the number of ingested rows it reports is that of the dataset the
  sources yield, which has a row, and is no larger than a positive budget of the request.\<close>

theorem one_answer_per_sink:
  fixes w :: "'w world"
  assumes "run_pipeline_impl S payload w = (Ok answer, w')"
  shows "\<exists>rq declared i results. decode_request (sv_decode S) payload = Ok (rq, declared) \<and>
    member ''sink_results'' answer = Some (JArray results) \<and> list_all2 answers (rq_sinks rq) results \<and> results \<noteq> [] \<and>
    member ''ingested_row_count'' answer = Some (json_nat (row_count (in_ds i))) \<and>
    (\<exists>opts (u :: 'w world) v. source_options S (rq_sources rq) = Ok opts \<and> ingest_pipeline_sources S (rq_sources rq) opts u = (Ok i, v)) \<and>
    rows (in_ds i) \<noteq> [] \<and>
    (\<forall>limit. Option.bind (rq_orchestration rq) oc_max_ingested_rows = Some limit \<and> 0 < limit \<longrightarrow> row_count (in_ds i) \<le> limit)"
proof -
  obtain t_start rq declared deadline opts u i results v t_end where
    checks: "run_checks S payload w = (Inr (t_start, rq, declared, deadline, opts), u)"
    and stages: "run_stages S deadline rq opts u = (Inr (i, results), v)"
    and answer: "answer = run_answer rq declared i ((t_end - t_start) div 1000000) results"
    using assms unfolding run_pipeline_impl_def by (auto simp: io_bind_ok)
  note ok = run_checks_ok [OF checks]
  from run_stages_ok [OF stages] obtain base x y where
    sinks: "io_traverse (run_sink S deadline base) (rq_sinks rq) x = (Inr results, v)"
    and src: "ingest_pipeline_sources S (rq_sources rq) opts u = (Inr i, y)"
    and budget: "check_row_budget (rq_orchestration rq) (row_count (in_ds i)) = Ok ()" by blast
  have all: "list_all2 answers (rq_sinks rq) results"
    by (rule list_all2_mono [OF io_traverse_Inr [OF sinks]]) (auto dest: run_sink_answers)
  moreover have "rq_sinks rq \<noteq> []" using ok by (simp add: check_sources_ok)
  ultimately have "results \<noteq> []" by auto
  moreover from join_of_sources [OF src refl] have "rows (in_ds i) \<noteq> []" by blast
  moreover have "row_count (in_ds i) \<le> limit"
    if "Option.bind (rq_orchestration rq) oc_max_ingested_rows = Some limit" "0 < limit" for limit
    using budget that by (simp add: check_row_budget_def split: if_splits)
  ultimately show ?thesis using ok src all
    by (auto simp: answer run_answer_def member_def Let_def intro!: exI [of _ i])
qed

text \<open>C34: The rows a run ingests are those of its sources one after the other, local files, objects,
  transfers and database reads, each ingested alone with the options of the request: joining them
  and filtering once more loses none. They are typed by the schema, above the floor of the
  watermark, and not empty.\<close>

theorem sources_are_joined:
  fixes w :: "'w world"
  assumes "ingest_pipeline_sources S src opts w = (Ok i, w')" "s = so_schema src"
  shows "\<exists>local_rows stores transfers dbs.
    in_ds i = data_set_new s (local_rows @ concat (map rows stores) @ concat (map rows transfers) @ concat (map rows dbs)) \<and>
    (if so_paths src = [] then local_rows = []
     else \<exists>ds meta u v. ingest_from_ordered_paths (sv_env S) (so_paths src) s opts u = (Ok (ds, meta), v) \<and> local_rows = rows ds) \<and>
    list_all2 (\<lambda>uri ds. \<exists>u v. ingest_from_object_store_uri (sv_remote S) uri s opts u = (Ok ds, v)) (so_object_store_uris src) stores \<and>
    list_all2 (\<lambda>uri ds. \<exists>u v. ingest_from_file_transfer_uri (sv_remote S) uri s opts u = (Ok ds, v)) (so_file_transfer_uris src) transfers \<and>
    list_all2 (\<lambda>db ds. \<exists>C. sv_connectorx S = Some C \<and> ingest_from_db C (dr_url db) (dr_query db) s opts = Ok ds) (so_db_reads src) dbs \<and>
    rows (in_ds i) \<noteq> [] \<and> wf_ds (in_ds i) \<and> (\<forall>r\<in>set (rows (in_ds i)). kept s opts r)"
  using join_of_sources [OF assms] .

text \<open>An increment without new rows is an error of the request, not an empty run.\<close>

lemma no_new_rows_fail:
  assumes "so_paths src \<noteq> []" "so_object_store_uris src = []" "so_file_transfer_uris src = []" "so_db_reads src = []"
    and "fst (ingest_from_ordered_paths (sv_env S) (so_paths src) (so_schema src) opts (wd_obs w)) = Ok (data_set_new (so_schema src) [], meta)"
  shows "\<exists>message. fst (ingest_pipeline_sources S src opts w) = Err (structured ''ORCHESTRATION_VALIDATION'' message ''ingest'')"
proof -
  obtain obs where "ingest_from_ordered_paths (sv_env S) (so_paths src) (so_schema src) opts (wd_obs w) = (Ok (data_set_new (so_schema src) [], meta), obs)"
    using assms(5) by (metis prod.collapse)
  then have "ingest_local_paths S (so_paths src) (so_schema src) opts w = (Inr ([], meta), w\<lparr>wd_obs := obs\<rparr>)"
    using assms(1) by (simp add: ingest_local_paths_def io_bind_def io_map_err_def on_obs_def)
  then show ?thesis using assms(2-4)
    by (auto simp: ingest_pipeline_sources_def Let_def io_bind_def ingest_uris_def ingest_db_reads_def join_sources_def io_of_def)
qed

text \<open>A Spark handoff to a \<open>file://\<close> URI goes to the object store, never to the branch for local files.\<close>

lemma file_uri_is_object_store:
  assumes "starts_with ''file://'' uri"
  shows "is_object_store_uri uri"
proof -
  from assms obtain rest where "uri = ''file://'' @ rest" by (auto simp: starts_with_def elim: prefixE)
  moreover have "to_ascii_lowercase ''file://'' = ''file://''" by code_simp
  ultimately have "starts_with ''file://'' (to_ascii_lowercase uri)" by (simp add: to_ascii_lowercase_def starts_with_def)
  then show ?thesis by (simp add: is_object_store_uri_def object_store_prefixes_def)
qed


subsection \<open>Witnesses\<close>

definition toy_request :: "sink_spec list \<Rightarrow> run_pipeline_request" where
  "toy_request sinks = \<lparr>rq_version = 1, rq_orchestration = None,
     rq_sources = \<lparr>so_paths = [''ids.csv''], so_schema = ids_schema, so_options = JObject [], so_object_store_uris = [],
       so_file_transfer_uris = [], so_db_reads = [\<lparr>dr_url = ''mysql://h/db'', dr_query = ''q''\<rparr>]\<rparr>,
     rq_transform = None, rq_sinks = sinks\<rparr>"

text \<open>A local file and a database read; the disk refuses one file.\<close>

definition toy_services :: "connectorx option \<Rightarrow> sink_spec list \<Rightarrow> services" where
  "toy_services cx sinks = \<lparr>sv_json = no_options,
     sv_decode = \<lparr>dc_envelope = (\<lambda>_. Inr (V1 (toy_request sinks))), dc_lake = (\<lambda>_. Inl []), dc_relational = (\<lambda>_. Inl [])\<rparr>,
     sv_now = (\<lambda>n. n), sv_env = ids_env, sv_remote = quiet_remote, sv_connectorx = cx, sv_driver = accept_all,
     sv_parse_url = ms_url, sv_postgres = True, sv_oracle = False, sv_mssql = False,
     sv_engine = \<lparr>le_collect = (\<lambda>lf. case lf of LFrame df \<Rightarrow> Inr df | _ \<Rightarrow> Inl (PeIo [])), le_schema = (\<lambda>_. Inl (PeIo []))\<rparr>,
     sv_sql = (\<lambda>tables _. Inr tables), sv_create_dir = (\<lambda>_ _. None),
     sv_create = (\<lambda>_ p. if p = ''full.parquet'' then Some ''no space'' else None), sv_encode = (\<lambda>_. Inr ''PAR1''),
     sv_xml_refuses = (\<lambda>_ _. None), sv_show_f64 = (\<lambda>_. []), sv_dbg_cell = (\<lambda>_. []), sv_dbg_error = (\<lambda>_. []), sv_dbg_pipeline = (\<lambda>_. [])\<rparr>"

definition idle_world :: "unit world" where
  "idle_world = \<lparr>wd_ticks = 0, wd_net = [], wd_db = [], wd_fs = [], wd_obs = ()\<rparr>"

abbreviation good_sinks :: "sink_spec list" where
  "good_sinks \<equiv> [ParquetFile ''out/a.parquet'' None, Postgresql ''u'' ''t'' True False None, Iceberg ''c'' None None ''t'' None]"

abbreviation bad_sinks :: "sink_spec list" where
  "bad_sinks \<equiv> [ParquetFile ''a.parquet'' None, ParquetFile ''full.parquet'' None, Iceberg ''c'' None None ''t'' None]"

text \<open>The checks pass with the default options; the run is then that of its stages.\<close>

lemma toy_checks:
  assumes "check_sources (rq_sources (toy_request sinks)) sinks = Ok ()"
  shows "run_checks (toy_services cx sinks) ''p'' idle_world =
    (Ok (0, toy_request sinks, None, None, default_options), idle_world\<lparr>wd_ticks := 1\<rparr>)"
proof -
  have "source_options (toy_services cx sinks) (rq_sources (toy_request sinks)) = Ok (default_options :: unit ingestion_options)"
  proof -
    have "trim ''{}'' \<noteq> []" by code_simp
    then show ?thesis
      by (simp add: source_options_def toy_services_def toy_request_def no_options_def parse_ingestion_options_def options_of_object_def
          get_str_def default_options_def)
  qed
  with assms show ?thesis
    by (simp add: run_checks_def now_def toy_services_def toy_request_def decode_request_def check_version_def pipeline_deadline_def
        check_deadline_def idle_world_def)
qed

lemma toy_run:
  assumes "check_sources (rq_sources (toy_request sinks)) sinks = Ok ()"
  shows "run_pipeline_impl (toy_services cx sinks) ''p'' idle_world =
    io_bind (run_stages (toy_services cx sinks) None (toy_request sinks) default_options) (\<lambda>(i, results). io_bind (now (toy_services cx sinks)) (\<lambda>t.
      io_ok (run_answer (toy_request sinks) None i ((t - 0) div 1000000) results))) (idle_world\<lparr>wd_ticks := 1\<rparr>)"
  by (simp add: run_pipeline_impl_def toy_checks [OF assms])

abbreviation toy_stages :: "connectorx option \<Rightarrow> sink_spec list \<Rightarrow> (pipeline_err, ingested \<times> json list) res \<times> unit world" where
  "toy_stages cx sinks \<equiv> run_stages (toy_services cx sinks) None (toy_request sinks) default_options (idle_world\<lparr>wd_ticks := 1\<rparr>)"

lemma toy_error:
  assumes "check_sources (rq_sources (toy_request sinks)) sinks = Ok ()"
    and "(case fst (toy_stages cx sinks) of Inl (Failed e) \<Rightarrow> Some (pl_code e, pl_stage e) | _ \<Rightarrow> None) = Some (code, stage)"
  shows "\<exists>e w'. run_pipeline_impl (toy_services cx sinks) ''p'' idle_world = (Err e, w') \<and> pl_code e = code \<and> pl_stage e = stage \<and>
    w' = snd (toy_stages cx sinks)"
  using assms(2) by (cases "toy_stages cx sinks") (auto simp: toy_run [OF assms(1)] split: sum.splits fault.splits)

lemma failed_stage_bounds_effects_witness:
  "\<exists>e w'. run_pipeline_impl (toy_services None good_sinks) ''p'' idle_world = (Err e, w') \<and> pl_code e = ''DB_CONNECTORX_NOT_BUILT'' \<and> wd_fs w' = []"
proof -
  have "check_sources (rq_sources (toy_request good_sinks)) good_sinks = Ok ()" by code_simp
  moreover have "(case fst (toy_stages None good_sinks) of Inl (Failed e) \<Rightarrow> Some (pl_code e, pl_stage e) | _ \<Rightarrow> None) =
    Some (''DB_CONNECTORX_NOT_BUILT'', ''ingest'')" by code_simp
  ultimately obtain e w' where run: "run_pipeline_impl (toy_services None good_sinks) ''p'' idle_world = (Err e, w')"
    and e: "pl_code e = ''DB_CONNECTORX_NOT_BUILT''" "pl_stage e = ''ingest''"
    using toy_error [of good_sinks None] by blast
  from failed_stage_bounds_effects [OF run] e have "wd_fs w' = wd_fs idle_world" by simp
  with run e show ?thesis by (auto simp: idle_world_def)
qed

lemma one_answer_per_sink_witness:
  "\<exists>answer w' results. run_pipeline_impl (toy_services (Some id_query) good_sinks) ''p'' idle_world = (Ok answer, w') \<and>
    member ''sink_results'' answer = Some (JArray results) \<and> list_all2 answers good_sinks results"
proof -
  have "check_sources (rq_sources (toy_request good_sinks)) good_sinks = Ok ()" by code_simp
  moreover have "is_ok (fst (toy_stages (Some id_query) good_sinks))" by code_simp
  ultimately obtain answer w' where run: "run_pipeline_impl (toy_services (Some id_query) good_sinks) ''p'' idle_world = (Ok answer, w')"
    by (cases "toy_stages (Some id_query) good_sinks") (auto simp: is_ok_iff toy_run now_def)
  have "decode_request (sv_decode (toy_services (Some id_query) good_sinks)) ''p'' = Ok (toy_request good_sinks, None)"
    by (simp add: decode_request_def toy_services_def)
  with one_answer_per_sink [OF run] run show ?thesis by (fastforce simp: toy_request_def)
qed

lemma failing_sink_stops_run_witness:
  "\<exists>e w' finished rest. run_pipeline_impl (toy_services (Some id_query) bad_sinks) ''p'' idle_world = (Err e, w') \<and>
    pl_code e = ''PARQUET_SINK_WRITE_FAILED'' \<and> wd_fs w' = [ParquetWritten ''a.parquet'' ''PAR1''] \<and>
    bad_sinks = finished @ rest \<and> rest \<noteq> []"
proof -
  have "check_sources (rq_sources (toy_request bad_sinks)) bad_sinks = Ok ()" by code_simp
  moreover have "(case fst (toy_stages (Some id_query) bad_sinks) of Inl (Failed e) \<Rightarrow> Some (pl_code e, pl_stage e) | _ \<Rightarrow> None) =
    Some (''PARQUET_SINK_WRITE_FAILED'', ''sink'')" by code_simp
  moreover have "wd_fs (snd (toy_stages (Some id_query) bad_sinks)) = [ParquetWritten ''a.parquet'' ''PAR1'']" by code_simp
  ultimately obtain e w' where run: "run_pipeline_impl (toy_services (Some id_query) bad_sinks) ''p'' idle_world = (Err e, w')"
    and e: "pl_code e = ''PARQUET_SINK_WRITE_FAILED''" "pl_stage e \<in> {''sink'', ''sink_sql''}"
    and fs: "wd_fs w' = [ParquetWritten ''a.parquet'' ''PAR1'']"
    using toy_error [of bad_sinks "Some id_query"] by fastforce
  have "decode_request (sv_decode (toy_services (Some id_query) bad_sinks)) ''p'' = Ok (toy_request bad_sinks, None)"
    by (simp add: decode_request_def toy_services_def)
  with failing_sink_stops_run [OF run e(2)] obtain finished failing rest where "bad_sinks = finished @ failing # rest"
    by (fastforce simp: toy_request_def)
  with run e fs show ?thesis by blast
qed

lemma sources_are_joined_witness:
  "\<exists>i w'. ingest_pipeline_sources (toy_services (Some id_query) []) (rq_sources (toy_request [])) (unlimited :: unit ingestion_options) idle_world = (Ok i, w') \<and>
    wf_ds (in_ds i) \<and> length (rows (in_ds i)) = 4"
proof -
  let ?run = "ingest_pipeline_sources (toy_services (Some id_query) []) (rq_sources (toy_request [])) (unlimited :: unit ingestion_options) idle_world"
  have "is_ok (fst ?run) \<and> length (rows (in_ds (projr (fst ?run)))) = 4" by code_simp
  then obtain i w' where run: "?run = (Ok i, w')" and "length (rows (in_ds i)) = 4" by (cases ?run) (auto simp: is_ok_iff)
  with sources_are_joined [OF run refl] show ?thesis by blast
qed

end
