(* ===== verification/Bundle.thy ===== *)
theory Bundle
  imports Jvm_Ingest "HOL-Library.Sublist"
begin

text \<open>
  Fixture bundles (\<open>src/pipeline_spec.rs\<close>): templates of pipelines and payloads read under a root,
  the keys ending in \<open>_ref\<close> replaced by the schemas they name, the placeholders in their texts
  replaced by the bindings. The files, the decoding and the printing of JSON are parameters; the
  bindings are listed in the order in which the hash map yields them. An object of a document is
  the list of its members in the order of the map (the crate's build preserves insertion order,
  where a removal moves the last member into the gap).
\<close>

subsection \<open>Files of a bundle\<close>

record bundle_io =
  bd_read :: "path \<Rightarrow> string + string"
  bd_parse :: "string \<Rightarrow> string + json"
  bd_schema :: "string \<Rightarrow> string + schema"
  bd_text :: "json \<Rightarrow> string + string"

record pipeline_bundle =
  pb_root :: path

text \<open>\<open>Path::join\<close>: an absolute path replaces the root.\<close>

definition join_path :: "path \<Rightarrow> string \<Rightarrow> path" where
  "join_path dir rel = (if starts_with ''/'' rel then rel else path_join dir rel)"

definition from_repo_fixture :: "path \<Rightarrow> string \<Rightarrow> pipeline_bundle" where
  "from_repo_fixture manifest_dir name =
     \<lparr>pb_root = join_path (join_path (join_path manifest_dir ''tests'') ''fixtures'') name\<rparr>"

definition from_root :: "path \<Rightarrow> pipeline_bundle" where
  "from_root dir = \<lparr>pb_root = dir\<rparr>"

definition io_text :: "bundle_io \<Rightarrow> path \<Rightarrow> string result" where
  "io_text B p = (case bd_read B p of Inl e \<Rightarrow> Err (IoErr e) | Inr t \<Rightarrow> Ok t)"

definition or_mismatch :: "string \<Rightarrow> string + 'a \<Rightarrow> 'a result" where
  "or_mismatch what r = (case r of Inl e \<Rightarrow> Err (SchemaMismatch (what @ '': '' @ e)) | Inr a \<Rightarrow> Ok a)"

definition load_schema :: "bundle_io \<Rightarrow> pipeline_bundle \<Rightarrow> string \<Rightarrow> schema result" where
  "load_schema B b rel =
     (let p = join_path (pb_root b) rel in
      rbind (io_text B p) (\<lambda>t. or_mismatch (''schema JSON '' @ p) (bd_schema B t)))"

definition expect_schema :: "bundle_io \<Rightarrow> (ingestion_error \<Rightarrow> string) \<Rightarrow> pipeline_bundle \<Rightarrow> string \<Rightarrow> schema result" where
  "expect_schema B show_error b rel =
     (case load_schema B b rel of
        Inl (Failed e) \<Rightarrow> Panics (''fixture schema '' @ join_path (pb_root b) rel @ '': '' @ show_error e)
      | r \<Rightarrow> r)"

definition load_json_value :: "bundle_io \<Rightarrow> pipeline_bundle \<Rightarrow> string \<Rightarrow> json result" where
  "load_json_value B b rel =
     (let p = join_path (pb_root b) rel in
      rbind (io_text B p) (\<lambda>t. or_mismatch (''JSON '' @ p) (bd_parse B t)))"

definition schema_json :: "bundle_io \<Rightarrow> pipeline_bundle \<Rightarrow> string \<Rightarrow> string result" where
  "schema_json B b schema_rel =
     rbind (load_schema B b schema_rel) (\<lambda>s. or_mismatch ''serialize schema'' (bd_text B (json_of_schema s)))"

definition get_member :: "json \<Rightarrow> string \<Rightarrow> json option" where
  "get_member j k = (case j of JObject m \<Rightarrow> map_of m k | _ \<Rightarrow> None)"

definition pipeline_transform_sql :: "bundle_io \<Rightarrow> pipeline_bundle \<Rightarrow> string \<Rightarrow> string result" where
  "pipeline_transform_sql B b pipeline_rel =
     rbind (load_json_value B b pipeline_rel) (\<lambda>doc.
     ok_or (SchemaMismatch (''pipeline '' @ join_path (pb_root b) pipeline_rel @ '' missing transform.sql string''))
       (Option.bind (Option.bind (get_member doc ''transform'') (\<lambda>t. get_member t ''sql'')) as_str))"

definition load_query_sql :: "bundle_io \<Rightarrow> pipeline_bundle \<Rightarrow> string \<Rightarrow> string result" where
  "load_query_sql B b query_rel =
     rbind (load_json_value B b query_rel) (\<lambda>doc.
     ok_or (SchemaMismatch (''query '' @ join_path (pb_root b) query_rel @ '' missing sql string''))
       (Option.bind (get_member doc ''sql'') as_str))"

subsection \<open>Schema references\<close>

definition is_ref :: "string \<Rightarrow> bool" where
  "is_ref k \<longleftrightarrow> suffix ''_ref'' k"

definition strip_ref :: "string \<Rightarrow> string" where
  "strip_ref k = take (length k - 4) k"

definition swap_remove :: "string \<Rightarrow> (string \<times> json) list \<Rightarrow> (string \<times> json) list" where
  "swap_remove k m =
     (case position (\<lambda>e. fst e = k) m of
        None \<Rightarrow> m
      | Some i \<Rightarrow> if i + 1 = length m then butlast m else (butlast m)[i := last m])"

fun expand_refs :: "(string \<Rightarrow> schema result) \<Rightarrow> string list \<Rightarrow> (string \<times> json) list \<Rightarrow> (string \<times> json) list result" where
  "expand_refs load [] m = Ok m"
| "expand_refs load (old_key # ks) m =
     rbind (ok_or (SchemaMismatch (''missing key '' @ old_key @ '' while expanding schema refs'')) (map_of m old_key)) (\<lambda>rel.
     rbind (ok_or (SchemaMismatch (old_key @ '' must be a string path relative to the bundle root'')) (as_str rel)) (\<lambda>rel_str.
     rbind (load rel_str) (\<lambda>s.
     expand_refs load ks (AList.update (strip_ref old_key) (json_of_schema s) (swap_remove old_key m)))))"

definition ref_keys :: "(string \<times> json) list \<Rightarrow> string list" where
  "ref_keys m = filter is_ref (map fst m)"

text \<open>
  The references of a document, those of its parts included. An embedded schema has none, so the
  descent into the expanded object ends.
\<close>

primrec ref_count :: "json \<Rightarrow> nat" where
  "ref_count JNull = 0"
| "ref_count (JBool b) = 0"
| "ref_count (JNumber n) = 0"
| "ref_count (JString s) = 0"
| "ref_count (JArray xs) = sum_list (map ref_count xs)"
| "ref_count (JObject m) = sum_list (map (\<lambda>(k, n). (if is_ref k then 1 else 0) + n) (map (map_prod id ref_count) m))"

definition inner_refs :: "(string \<times> json) list \<Rightarrow> nat" where
  "inner_refs m = sum_list (map (\<lambda>e. ref_count (snd e)) m)"

lemma ref_count_object: "ref_count (JObject m) = inner_refs m + length (ref_keys m)"
  by (induction m) (auto simp: inner_refs_def ref_keys_def)

lemma ref_count_schema [simp]: "ref_count (json_of_schema s) = 0"
  by (simp add: json_of_schema_def json_of_field_def json_of_type_def comp_def is_ref_def suffix_to_prefix sum_list_eq_0_iff split_beta)

lemma swap_remove_perm:
  assumes "position (\<lambda>e. fst e = k) m = Some i"
  shows "mset (swap_remove k m) = mset m - {#m ! i#}"
proof -
  have i: "i < length m" using assms by (simp add: position_Some_iff)
  obtain ys y where m: "m = ys @ [y]" using i by (cases m rule: rev_cases) auto
  show ?thesis
  proof (cases "i + 1 = length m")
    case True
    then show ?thesis using assms by (simp add: swap_remove_def m)
  next
    case False
    then have "i < length ys" using i by (simp add: m)
    then show ?thesis using assms
      by (simp add: swap_remove_def m mset_update nth_append diff_add_mset_swap)
  qed
qed

lemma swap_remove_whole:
  assumes "k \<in> set (map fst m)"
  obtains v where "mset m = add_mset (k, v) (mset (swap_remove k m))"
proof -
  obtain i where i: "position (\<lambda>e. fst e = k) m = Some i"
    using assms by (cases "position (\<lambda>e. fst e = k) m") (auto simp: position_None_iff)
  then have "i < length m" "fst (m ! i) = k" by (simp_all add: position_Some_iff)
  then have "mset m = add_mset (k, snd (m ! i)) (mset (swap_remove k m))"
    by (metis insert_DiffM nth_mem_mset prod.collapse swap_remove_perm [OF i])
  then show thesis ..
qed

lemma swap_remove_distinct:
  assumes "distinct (map fst m)" "k \<in> set (map fst m)"
  shows "distinct (map fst (swap_remove k m))" "set (swap_remove k m) = {e \<in> set m. fst e \<noteq> k}"
proof -
  obtain v where whole: "mset m = add_mset (k, v) (mset (swap_remove k m))"
    using swap_remove_whole [OF assms(2)] .
  have "mset (map fst m) = mset (k # map fst (swap_remove k m))"
    using arg_cong [OF whole, of "image_mset fst"] by simp
  then have d: "distinct (k # map fst (swap_remove k m))"
    using assms(1) by (metis mset_eq_imp_distinct_iff)
  then show "distinct (map fst (swap_remove k m))" by simp
  have "set m = insert (k, v) (set (swap_remove k m))"
    using arg_cong [OF whole, of set_mset] by simp
  with d show "set (swap_remove k m) = {e \<in> set m. fst e \<noteq> k}" by force
qed

lemma inner_refs_mset: "inner_refs m = sum_mset (image_mset (\<lambda>e. ref_count (snd e)) (mset m))"
  by (simp add: inner_refs_def sum_mset_sum_list [symmetric])

lemma swap_remove_refs: "k \<in> set (map fst m) \<Longrightarrow> inner_refs (swap_remove k m) \<le> inner_refs m"
  by (erule swap_remove_whole) (simp add: inner_refs_mset)

lemma update_refs: "ref_count v = 0 \<Longrightarrow> inner_refs (AList.update k v m) \<le> inner_refs m"
  by (induction m) (auto simp: inner_refs_def)

lemma expand_refs_inner: "expand_refs load ks m = Ok m' \<Longrightarrow> inner_refs m' \<le> inner_refs m"
proof (induction ks arbitrary: m)
  case (Cons k ks)
  then obtain rel s where "map_of m k = Some rel"
    and rest: "expand_refs load ks (AList.update (strip_ref k) (json_of_schema s) (swap_remove k m)) = Ok m'"
    by (auto simp: result_simps)
  then have "k \<in> set (map fst m)" by (metis map_of_eq_None_iff option.distinct(1) set_map)
  with Cons.IH [OF rest] show ?case
    by (meson le_trans ref_count_schema swap_remove_refs update_refs)
qed simp

lemma child_refs: "e \<in> set m \<Longrightarrow> ref_count (snd e) \<le> inner_refs m"
  by (simp add: inner_refs_def member_le_sum_list)

lemma element_refs: "x \<in> set xs \<Longrightarrow> ref_count x \<le> ref_count (JArray xs)"
  by (simp add: member_le_sum_list)

lemma child_size [termination_simp]: "e \<in> set m \<Longrightarrow> size (snd e) < size (JObject m)"
  by (induction m) (auto simp: less_Suc_eq_le split: prod.splits)

function resolve_schema_refs :: "(string \<Rightarrow> schema result) \<Rightarrow> json \<Rightarrow> json result" where
  "resolve_schema_refs load (JObject m) =
     rbind (expand_refs load (ref_keys m) m) (\<lambda>m'.
     rmap JObject (traverse (\<lambda>e. rmap (Pair (fst e)) (resolve_schema_refs load (snd e))) m'))"
| "resolve_schema_refs load (JArray xs) = rmap JArray (traverse (resolve_schema_refs load) xs)"
| "resolve_schema_refs load JNull = Ok JNull"
| "resolve_schema_refs load (JBool b) = Ok (JBool b)"
| "resolve_schema_refs load (JNumber n) = Ok (JNumber n)"
| "resolve_schema_refs load (JString s) = Ok (JString s)"
  by pat_completeness auto

termination
proof (relation "inv_image (less_than <*lex*> less_than) (\<lambda>(load, v). (ref_count v, size v))", goal_cases)
  case (2 load m m' e)
  show ?case
  proof (cases "ref_keys m = []")
    case True
    with 2 have "e \<in> set m" by simp
    moreover from this have "ref_count (snd e) \<le> ref_count (JObject m)"
      by (simp only: ref_count_object child_refs trans_le_add1)
    ultimately show ?thesis using child_size [of e m] by (simp add: le_less del: ref_count.simps)
  next
    case False
    then have "0 < length (ref_keys m)" by simp
    then have "ref_count (snd e) < ref_count (JObject m)"
      using child_refs [OF 2(2)] expand_refs_inner [OF 2(1)] unfolding ref_count_object by linarith
    then show ?thesis by (simp del: ref_count.simps)
  qed
next
  case (3 load xs x)
  then have "size x < size (JArray xs)" by (induction xs) auto
  with 3 element_refs [of x xs] show ?case by (auto simp: le_less simp del: ref_count.simps)
qed (intro wf_inv_image wf_lex_prod wf_less_than)

subsection \<open>Placeholders\<close>

text \<open>\<open>str::replace\<close> and \<open>str::contains\<close> for a pattern that is not empty.\<close>

function replace_all :: "string \<Rightarrow> string \<Rightarrow> string \<Rightarrow> string" where
  "replace_all needle repl [] = []"
| "replace_all needle repl (c # cs) =
     (if starts_with needle (c # cs) then repl @ replace_all needle repl (drop (length needle - 1) cs)
      else c # replace_all needle repl cs)"
  by pat_completeness auto

termination by (relation "measure (\<lambda>(needle, repl, s). length s)") auto

definition contains_str :: "string \<Rightarrow> string \<Rightarrow> bool" where
  "contains_str needle s \<longleftrightarrow> (\<exists>t\<in>set (suffixes s). starts_with needle t)"

definition placeholder :: "string \<Rightarrow> string" where
  "placeholder k = ''{{'' @ k @ ''}}''"

definition bind_text :: "(string \<times> string) list \<Rightarrow> string \<Rightarrow> string" where
  "bind_text bindings s =
     fold (\<lambda>(k, replacement) s. let needle = placeholder k in
       if contains_str needle s then replace_all needle replacement s else s) bindings s"

primrec bind_placeholders :: "(string \<times> string) list \<Rightarrow> json \<Rightarrow> json" where
  "bind_placeholders bindings JNull = JNull"
| "bind_placeholders bindings (JBool b) = JBool b"
| "bind_placeholders bindings (JNumber n) = JNumber n"
| "bind_placeholders bindings (JString s) = JString (bind_text bindings s)"
| "bind_placeholders bindings (JArray xs) = JArray (map (bind_placeholders bindings) xs)"
| "bind_placeholders bindings (JObject m) = JObject (map (map_prod id (bind_placeholders bindings)) m)"

definition resolved_document :: "bundle_io \<Rightarrow> pipeline_bundle \<Rightarrow> string \<Rightarrow> (string \<times> string) list \<Rightarrow> json result" where
  "resolved_document B b rel bindings =
     rbind (load_json_value B b rel) (\<lambda>doc.
     rmap (bind_placeholders bindings) (resolve_schema_refs (load_schema B b) doc))"

definition resolve_pipeline_json :: "bundle_io \<Rightarrow> pipeline_bundle \<Rightarrow> string \<Rightarrow> (string \<times> string) list \<Rightarrow> string result" where
  "resolve_pipeline_json B b pipeline_rel bindings =
     rbind (resolved_document B b pipeline_rel bindings) (\<lambda>doc. or_mismatch ''serialize resolved pipeline'' (bd_text B doc))"

definition resolve_payload_json :: "bundle_io \<Rightarrow> pipeline_bundle \<Rightarrow> string \<Rightarrow> (string \<times> string) list \<Rightarrow> string result" where
  "resolve_payload_json B b payload_rel bindings =
     rbind (resolved_document B b payload_rel bindings) (\<lambda>doc. or_mismatch ''serialize resolved payload'' (bd_text B doc))"

subsection \<open>Resolved documents\<close>

text \<open>Documents whose objects have distinct names, none of which is a reference twice over.\<close>

primrec well_keyed :: "json \<Rightarrow> bool" where
  "well_keyed JNull = True"
| "well_keyed (JBool b) = True"
| "well_keyed (JNumber n) = True"
| "well_keyed (JString s) = True"
| "well_keyed (JArray xs) = list_all id (map well_keyed xs)"
| "well_keyed (JObject m) = (distinct (map fst m) \<and> list_all (\<lambda>k. \<not> suffix ''_ref_ref'' k) (map fst m) \<and>
     list_all snd (map (map_prod id well_keyed) m))"

lemma as_str_Some_iff [simp]: "as_str j = Some s \<longleftrightarrow> j = JString s"
  by (simp add: as_str_def split: json.split)

lemma traverse_same: "(\<And>x. x \<in> set xs \<Longrightarrow> f x = Inr x) \<Longrightarrow> traverse f xs = Inr xs"
  by (induction xs) auto

lemma strip_ref_append: "is_ref k \<Longrightarrow> strip_ref k @ ''_ref'' = k"
  by (auto simp: is_ref_def strip_ref_def suffix_def)

lemma strip_ref_iff: "is_ref k \<Longrightarrow> strip_ref k = j \<longleftrightarrow> k = j @ ''_ref''"
  by (auto simp: is_ref_def strip_ref_def suffix_def)

lemma strip_ref_plain: "is_ref k \<Longrightarrow> \<not> suffix ''_ref_ref'' k \<Longrightarrow> \<not> is_ref (strip_ref k)"
  using strip_ref_append [of k] by (auto simp: is_ref_def suffix_def)

lemma map_of_swap_remove:
  assumes "distinct (map fst m)" "k \<in> set (map fst m)"
  shows "map_of (swap_remove k m) j = (if j = k then None else map_of m j)"
proof (cases "j = k")
  case True
  with swap_remove_distinct [OF assms] show ?thesis by (auto simp: map_of_eq_None_iff)
next
  case False
  have "map_of (swap_remove k m) j = Some v \<longleftrightarrow> map_of m j = Some v" for v
    using swap_remove_distinct [OF assms] assms(1) False by (simp add: map_of_eq_Some_iff)
  with False show ?thesis by (metis option.exhaust)
qed

lemma expand_refs_lookup:
  assumes "expand_refs load ks m = Ok m'" "distinct (map fst m)" "distinct ks"
    "\<And>k. k \<in> set ks \<Longrightarrow> is_ref k \<and> \<not> suffix ''_ref_ref'' k"
  shows "distinct (map fst m') \<and> (\<exists>f.
    (\<forall>k\<in>set ks. \<exists>p. map_of m k = Some (JString p) \<and> load p = Ok (f k)) \<and>
    (\<forall>j. map_of m' j = (if j @ ''_ref'' \<in> set ks then Some (json_of_schema (f (j @ ''_ref'')))
       else if j \<in> set ks then None else map_of m j)))"
  using assms
proof (induction ks arbitrary: m)
  case (Cons k ks)
  obtain p s where k: "map_of m k = Some (JString p)" "load p = Ok s"
    and rest: "expand_refs load ks (AList.update (strip_ref k) (json_of_schema s) (swap_remove k m)) = Ok m'"
    using Cons.prems(1) by (auto simp: result_simps)
  let ?m = "AList.update (strip_ref k) (json_of_schema s) (swap_remove k m)"
  have mem: "k \<in> set (map fst m)" using k(1) by (metis map_of_eq_None_iff option.distinct(1) set_map)
  have ref: "is_ref k" "\<not> is_ref (strip_ref k)" using Cons.prems(4) [of k] strip_ref_plain by auto
  have look: "map_of ?m j = (if j @ ''_ref'' = k then Some (json_of_schema s) else if j = k then None else map_of m j)" for j
    using strip_ref_iff [OF ref(1), of j] map_of_swap_remove [OF Cons.prems(2) mem]
    by (auto simp: update_conv')
  have "distinct (map fst ?m)"
    using swap_remove_distinct(1) [OF Cons.prems(2) mem] by (rule distinct_update)
  from Cons.IH [OF rest this] Cons.prems(3,4) obtain f where
    d: "distinct (map fst m')" and f: "\<forall>k\<in>set ks. \<exists>p. map_of ?m k = Some (JString p) \<and> load p = Ok (f k)"
      "\<forall>j. map_of m' j = (if j @ ''_ref'' \<in> set ks then Some (json_of_schema (f (j @ ''_ref''))) else if j \<in> set ks then None else map_of ?m j)"
    by auto
  have same: "map_of ?m k' = map_of m k'" if "k' \<in> set ks" for k'
    using that Cons.prems(3,4) ref strip_ref_append [OF ref(1)] by (auto simp: look)
  show ?case
  proof (intro conjI d exI [of _ "f(k := s)"] ballI allI)
    fix k' assume "k' \<in> set (k # ks)"
    then show "\<exists>p. map_of m k' = Some (JString p) \<and> load p = Ok ((f(k := s)) k')"
      using k f(1) same Cons.prems(3) by auto
  next
    fix j show "map_of m' j = (if j @ ''_ref'' \<in> set (k # ks) then Some (json_of_schema ((f(k := s)) (j @ ''_ref'')))
       else if j \<in> set (k # ks) then None else map_of m j)"
      using f(2) look Cons.prems(3,4) ref strip_ref_iff [OF ref(1), of j] by auto
  qed
qed auto

lemma traverse_members:
  assumes "traverse (\<lambda>e. rmap (Pair (fst e)) (g (snd e))) m = Inr m'"
  shows "map fst m' = map fst m" "map_of m' k = Some v' \<Longrightarrow> \<exists>v. map_of m k = Some v \<and> g v = Inr v'"
    "map_of m k = Some v \<Longrightarrow> \<exists>v'. map_of m' k = Some v' \<and> g v = Inr v'"
  using assms by (induction m arbitrary: m') (auto simp: result_simps split: if_splits)

lemma no_refs_unchanged: "ref_count v = 0 \<Longrightarrow> resolve_schema_refs load v = Ok v"
proof (induction load v rule: resolve_schema_refs.induct)
  case (1 load m)
  have none: "ref_keys m = []" "inner_refs m = 0" using 1(2) unfolding ref_count_object by auto
  then have "rmap (Pair (fst e)) (resolve_schema_refs load (snd e)) = Inr e" if "e \<in> set m" for e
    using 1(1) [of m e] that child_refs [OF that] by simp
  then show ?case by (simp add: none traverse_same)
next
  case (2 load xs)
  then have "resolve_schema_refs load x = Inr x" if "x \<in> set xs" for x using that element_refs [OF that] by simp
  then show ?case by (simp add: traverse_same)
qed simp_all

lemma well_keyed_child: "well_keyed (JObject m) \<Longrightarrow> map_of m k = Some v \<Longrightarrow> well_keyed v"
  by (auto simp: list_all_iff dest!: map_of_SomeD)

lemma well_keyed_schema [simp]: "well_keyed (json_of_schema s)"
  by (simp add: json_of_schema_def json_of_field_def json_of_type_def list_all_iff suffix_to_prefix)

lemma expanded_lookup:
  assumes "well_keyed (JObject m)" "expand_refs load (ref_keys m) m = Ok m'"
  shows "distinct (map fst m')" "\<exists>f. (\<forall>k\<in>set (ref_keys m). \<exists>p. map_of m k = Some (JString p) \<and> load p = Ok (f k)) \<and>
    (\<forall>j. map_of m' j = (if j @ ''_ref'' \<in> set (ref_keys m) then Some (json_of_schema (f (j @ ''_ref'')))
       else if is_ref j then None else map_of m j))"
proof -
  have "distinct (ref_keys m)" "\<And>k. k \<in> set (ref_keys m) \<Longrightarrow> is_ref k \<and> \<not> suffix ''_ref_ref'' k"
    using assms(1) by (auto simp: ref_keys_def list_all_iff)
  from expand_refs_lookup [OF assms(2) _ this] assms(1) obtain f where
    d: "distinct (map fst m')" and f: "\<forall>k\<in>set (ref_keys m). \<exists>p. map_of m k = Some (JString p) \<and> load p = Ok (f k)"
      "\<forall>j. map_of m' j = (if j @ ''_ref'' \<in> set (ref_keys m) then Some (json_of_schema (f (j @ ''_ref'')))
         else if j \<in> set (ref_keys m) then None else map_of m j)"
    by auto
  show "distinct (map fst m')" by (rule d)
  have "j \<in> set (ref_keys m) \<longleftrightarrow> is_ref j" if "map_of m j \<noteq> None" for j
    using that by (auto simp: ref_keys_def map_of_eq_None_iff)
  with f(2) have "map_of m' j = (if j @ ''_ref'' \<in> set (ref_keys m) then Some (json_of_schema (f (j @ ''_ref'')))
       else if is_ref j then None else map_of m j)" for j
    by (cases "map_of m j = None") auto
  with f(1) show "\<exists>f. (\<forall>k\<in>set (ref_keys m). \<exists>p. map_of m k = Some (JString p) \<and> load p = Ok (f k)) \<and>
    (\<forall>j. map_of m' j = (if j @ ''_ref'' \<in> set (ref_keys m) then Some (json_of_schema (f (j @ ''_ref'')))
       else if is_ref j then None else map_of m j))"
    by blast
qed

lemma expanded_values:
  assumes "well_keyed (JObject m)" "expand_refs load (ref_keys m) m = Ok m'" "e \<in> set m'"
  shows "\<not> is_ref (fst e)" "well_keyed (snd e)"
proof -
  obtain f where f: "map_of m' j = (if j @ ''_ref'' \<in> set (ref_keys m) then Some (json_of_schema (f (j @ ''_ref'')))
       else if is_ref j then None else map_of m j)" for j
    using expanded_lookup(2) [OF assms(1,2)] by blast
  have "map_of m' (fst e) = Some (snd e)" using expanded_lookup(1) [OF assms(1,2)] assms(3) by simp
  moreover have "\<not> is_ref j" if "j @ ''_ref'' \<in> set (ref_keys m)" for j
  proof
    assume "is_ref j"
    then have "suffix ''_ref_ref'' (j @ ''_ref'')" by (auto simp: is_ref_def suffix_def)
    with that assms(1) show False by (auto simp: ref_keys_def list_all_iff)
  qed
  ultimately show "\<not> is_ref (fst e)" "well_keyed (snd e)"
    using f [of "fst e"] well_keyed_child [OF assms(1)] by (auto split: if_splits) (metis well_keyed_schema)
qed

lemma refs_resolved: "resolve_schema_refs load d = Ok d' \<Longrightarrow> well_keyed d \<Longrightarrow> ref_count d' = 0"
proof (induction load d arbitrary: d' rule: resolve_schema_refs.induct)
  case (1 load m)
  obtain m' m'' where m': "expand_refs load (ref_keys m) m = Ok m'"
    and m'': "traverse (\<lambda>e. rmap (Pair (fst e)) (resolve_schema_refs load (snd e))) m' = Inr m''" "d' = JObject m''"
    using 1(2) by (auto simp: result_simps)
  note vals = expanded_values [OF 1(3) m']
  have "ref_keys m'' = []" using traverse_members(1) [OF m''(1)] vals(1) by (auto simp: ref_keys_def filter_empty_conv)
  moreover have "ref_count (snd e) = 0" if e: "e \<in> set m''" for e
    using traverse_set [OF m''(1) e] 1(1) [OF m'] vals(2) by (auto simp: result_simps)
  ultimately show ?case unfolding m''(2) ref_count_object by (simp add: inner_refs_def sum_list_eq_0_iff)
next
  case (2 load xs)
  then show ?case by (fastforce simp: result_simps sum_list_eq_0_iff list_all_iff dest: traverse_set)
qed auto

lemma ref_count_bound [simp]: "ref_count (bind_placeholders b d) = ref_count d"
  by (induction d) (auto simp: comp_def split_beta intro!: arg_cong [where f = sum_list])

lemma resolved_object:
  assumes "resolve_schema_refs load (JObject m) = Ok d'" "well_keyed (JObject m)"
  shows "map_of m (k @ ''_ref'') = Some rel \<Longrightarrow> \<exists>p s. rel = JString p \<and> load p = Ok s \<and> get_member d' k = Some (json_of_schema s)"
    "map_of m (k @ ''_ref'') = None \<Longrightarrow> \<not> is_ref k \<Longrightarrow> map_of m k = Some v \<Longrightarrow> \<exists>v'. resolve_schema_refs load v = Ok v' \<and> get_member d' k = Some v'"
proof -
  obtain m' m'' where m': "expand_refs load (ref_keys m) m = Ok m'"
    and m'': "traverse (\<lambda>e. rmap (Pair (fst e)) (resolve_schema_refs load (snd e))) m' = Inr m''" "d' = JObject m''"
    using assms(1) by (auto simp: result_simps)
  obtain f where f: "\<forall>k\<in>set (ref_keys m). \<exists>p. map_of m k = Some (JString p) \<and> load p = Ok (f k)"
      "\<And>j. map_of m' j = (if j @ ''_ref'' \<in> set (ref_keys m) then Some (json_of_schema (f (j @ ''_ref'')))
         else if is_ref j then None else map_of m j)"
    using expanded_lookup(2) [OF assms(2) m'] by blast
  have "k @ ''_ref'' \<in> set (ref_keys m) \<longleftrightarrow> map_of m (k @ ''_ref'') \<noteq> None"
    by (auto simp: ref_keys_def is_ref_def map_of_eq_None_iff suffix_def)
  with f show "map_of m (k @ ''_ref'') = Some rel \<Longrightarrow> \<exists>p s. rel = JString p \<and> load p = Ok s \<and> get_member d' k = Some (json_of_schema s)"
    using traverse_members(3) [OF m''(1), of k] by (fastforce simp: m''(2) get_member_def no_refs_unchanged)
  show "\<exists>v'. resolve_schema_refs load v = Ok v' \<and> get_member d' k = Some v'"
    if "map_of m (k @ ''_ref'') = None" "\<not> is_ref k" "map_of m k = Some v"
    using that \<open>_ \<longleftrightarrow> _\<close> f(2) [of k] traverse_members(3) [OF m''(1), of k] by (auto simp: m''(2) get_member_def)
qed

subsection \<open>Templates\<close>

text \<open>A template is a text with holes.\<close>

datatype part = Lit string | Hole string

fun render_part :: "part \<Rightarrow> string" where
  "render_part (Lit s) = s"
| "render_part (Hole k) = placeholder k"

definition render :: "part list \<Rightarrow> string" where
  "render ps = concat (map render_part ps)"

fun fill_part :: "(string \<times> string) list \<Rightarrow> part \<Rightarrow> string" where
  "fill_part b (Lit s) = s"
| "fill_part b (Hole k) = (case map_of b k of Some r \<Rightarrow> r | None \<Rightarrow> placeholder k)"

definition braceless :: "string \<Rightarrow> bool" where
  "braceless s \<longleftrightarrow> CHR ''{'' \<notin> set s \<and> CHR ''}'' \<notin> set s"

fun plain_part :: "part \<Rightarrow> bool" where
  "plain_part (Lit s) \<longleftrightarrow> CHR ''{'' \<notin> set s"
| "plain_part (Hole k) \<longleftrightarrow> braceless k"

lemma replace_absent: "\<not> contains_str needle s \<Longrightarrow> replace_all needle r s = s"
  by (induction needle r s rule: replace_all.induct) (auto simp: contains_str_def)

lemma bind_text_fold: "bind_text b s = fold (\<lambda>(k, r). replace_all (placeholder k) r) b s"
  unfolding bind_text_def by (rule fold_cong) (auto simp: Let_def replace_absent)

lemma replace_literal: "CHR ''{'' \<notin> set s \<Longrightarrow> replace_all (placeholder k) r (s @ t) = s @ replace_all (placeholder k) r t"
  by (induction s) (auto simp: placeholder_def starts_with_def)

lemma replace_hole: "replace_all (placeholder k) r (placeholder k @ t) = r @ replace_all (placeholder k) r t"
  by (simp add: placeholder_def starts_with_def)

lemma other_hole:
  assumes "braceless k" "braceless j" "k \<noteq> j"
  shows "replace_all (placeholder k) r (placeholder j @ t) = placeholder j @ replace_all (placeholder k) r t"
proof -
  have "takeWhile (\<lambda>c. c \<noteq> CHR ''}'') (x @ ''}}'' @ y) = x" if "braceless x" for x y
    using that by (subst takeWhile_append2) (auto simp: braceless_def)
  then have "\<not> prefix (k @ ''}}'') (j @ ''}}'' @ t)"
    using assms by (auto simp: prefix_def) metis
  moreover have "\<not> prefix (placeholder k) (CHR ''{'' # j @ ''}}'' @ t)"
    using assms(2) by (cases j) (auto simp: placeholder_def braceless_def)
  moreover have "CHR ''{'' \<notin> set (j @ ''}}'')" using assms(2) by (simp add: braceless_def)
  note replace_literal [OF this, of k r t]
  ultimately show ?thesis by (simp add: starts_with_def placeholder_def)
qed

fun subst_part :: "string \<Rightarrow> string \<Rightarrow> part \<Rightarrow> part" where
  "subst_part k r (Lit s) = Lit s"
| "subst_part k r (Hole j) = (if j = k then Lit r else Hole j)"

lemma render_simps [simp]: "render [] = []" "render (p # ps) = render_part p @ render ps"
  by (simp_all add: render_def)

lemma replace_template:
  "list_all plain_part ps \<Longrightarrow> braceless k \<Longrightarrow> replace_all (placeholder k) r (render ps) = render (map (subst_part k r) ps)"
proof (induction ps)
  case (Cons p ps)
  then show ?case by (cases p) (simp_all add: replace_literal replace_hole other_hole)
qed simp

lemma bind_template_fill:
  assumes "list_all plain_part ps" "list_all (\<lambda>(k, r). braceless k \<and> CHR ''{'' \<notin> set r) b"
  shows "bind_text b (render ps) = concat (map (fill_part b) ps)"
  using assms
proof (induction b arbitrary: ps)
  case Nil
  have "fill_part [] p = render_part p" for p by (cases p) auto
  then show ?case by (simp add: bind_text_fold render_def)
next
  case (Cons kr b)
  obtain k r where kr: "kr = (k, r)" by (cases kr)
  have "plain_part (subst_part k r p)" if "plain_part p" for p using that Cons.prems(2) by (cases p) (auto simp: kr)
  then have "list_all plain_part (map (subst_part k r) ps)" using Cons.prems(1) by (auto simp: list_all_iff)
  moreover have "fill_part b (subst_part k r p) = fill_part ((k, r) # b) p" for p by (cases p) auto
  ultimately show ?case using Cons by (simp add: kr bind_text_fold replace_template comp_def)
qed

lemma or_mismatch_Inr_iff [result_simps]: "or_mismatch what r = Inr a \<longleftrightarrow> r = Inr a"
  by (simp add: or_mismatch_def split: sum.split)

subsection \<open>Properties\<close>

text \<open>C35: A resolved pipeline has no reference left: when the template's objects have distinct names, none
  ending in \<open>_ref_ref\<close>, the text returned is the printing of a document without a key ending in
  \<open>_ref\<close>, which is the template with its placeholders bound after every reference \<open>k_ref\<close> of its
  outermost object gave way to the member \<open>k\<close> holding the schema of that file.\<close>

theorem resolved_pipeline_has_no_refs:
  assumes "load_json_value B b rel = Ok (JObject m)" "well_keyed (JObject m)" "resolve_pipeline_json B b rel bindings = Ok t"
  shows "\<exists>doc. bd_text B (bind_placeholders bindings doc) = Inr t \<and> ref_count (bind_placeholders bindings doc) = 0 \<and>
    (\<forall>k. map_of m (k @ ''_ref'') \<noteq> None \<longrightarrow>
      (\<exists>p s. map_of m (k @ ''_ref'') = Some (JString p) \<and> load_schema B b p = Ok s \<and> get_member doc k = Some (json_of_schema s)))"
proof -
  obtain doc where doc: "resolve_schema_refs (load_schema B b) (JObject m) = Ok doc"
    and t: "bd_text B (bind_placeholders bindings doc) = Inr t"
    using assms(1,3) by (auto simp: resolve_pipeline_json_def resolved_document_def result_simps simp del: resolve_schema_refs.simps)
  have "ref_count doc = 0" using refs_resolved [OF doc assms(2)] .
  moreover have "\<exists>p s. map_of m (k @ ''_ref'') = Some (JString p) \<and> load_schema B b p = Ok s \<and> get_member doc k = Some (json_of_schema s)"
    if "map_of m (k @ ''_ref'') \<noteq> None" for k
    using that resolved_object(1) [OF doc assms(2), of k] by auto
  ultimately show ?thesis using t by (intro exI [of _ doc]) simp
qed

text \<open>C36: Binding fills the holes of a template with the bindings, whatever order the hash map yields them
  in, when neither the literal parts nor the bound texts contain an opening brace; a hole without a
  binding stays.\<close>

theorem binding_fills_template:
  assumes "list_all plain_part ps" "list_all (\<lambda>(k, r). braceless k \<and> CHR ''{'' \<notin> set r) bindings" "distinct (map fst bindings)"
    "mset order = mset bindings"
  shows "bind_text order (render ps) = concat (map (fill_part bindings) ps)"
proof -
  have "set order = set bindings" using assms(4) by (rule mset_eq_setD)
  then have "list_all (\<lambda>(k, r). braceless k \<and> CHR ''{'' \<notin> set r) order" using assms(2) by (simp add: list_all_iff)
  note bind_template_fill [OF assms(1) this]
  moreover have "mset (map fst order) = mset (map fst bindings)" using assms(4) by simp
  then have "distinct (map fst order)" using assms(3) by (metis mset_eq_imp_distinct_iff)
  then have "map_of order = map_of bindings"
    using assms(3) \<open>set order = set bindings\<close> by (rule map_of_inject_set [THEN iffD2])
  then have "fill_part order = fill_part bindings" by (intro ext) (metis fill_part.simps plain_part.cases)
  ultimately show ?thesis by simp
qed

text \<open>A bound text that holds a placeholder makes the outcome depend on that order.\<close>

lemma binding_order_matters:
  "bind_text [(''A'', ''{{B}}''), (''B'', ''x'')] ''{{A}}'' = ''x''"
  "bind_text [(''B'', ''x''), (''A'', ''{{B}}'')] ''{{A}}'' = ''{{B}}''"
  by code_simp+

text \<open>A doubled suffix leaves a reference behind.\<close>

lemma doubled_suffix_left:
  "resolve_schema_refs (\<lambda>_. Ok (schema_new [])) (JObject [(''a_ref_ref'', JString ''s'')]) =
     Ok (JObject [(''a_ref'', json_of_schema (schema_new []))])"
  by code_simp

subsection \<open>Witnesses\<close>

definition small_bundle :: bundle_io where
  "small_bundle = \<lparr>bd_read = Inr, bd_parse = (\<lambda>_. Inr (JObject [(''schema_ref'', JString ''s''), (''path'', JString ''{{P}}'')])),
     bd_schema = (\<lambda>_. Inr (schema_new [mk_field ''id'' TInt64])), bd_text = (\<lambda>d. Inr (show_nat (ref_count d)))\<rparr>"

lemma resolved_pipeline_has_no_refs_witness:
  "\<exists>doc. bd_text small_bundle (bind_placeholders [(''P'', ''/in'')] doc) = Inr ''0'' \<and> ref_count (bind_placeholders [(''P'', ''/in'')] doc) = 0 \<and>
    get_member doc ''schema'' = Some (json_of_schema (schema_new [mk_field ''id'' TInt64]))"
proof -
  let ?m = "[(''schema_ref'', JString ''s''), (''path'', JString ''{{P}}'')]" and ?b = "from_root ''/b''"
  have "load_json_value small_bundle ?b ''p'' = Ok (JObject ?m)" "well_keyed (JObject ?m)"
    "resolve_pipeline_json small_bundle ?b ''p'' [(''P'', ''/in'')] = Ok ''0''"
    by code_simp+
  from resolved_pipeline_has_no_refs [OF this] obtain doc where
    "bd_text small_bundle (bind_placeholders [(''P'', ''/in'')] doc) = Inr ''0''" "ref_count (bind_placeholders [(''P'', ''/in'')] doc) = 0"
    and k: "map_of ?m (k @ ''_ref'') \<noteq> None \<Longrightarrow> \<exists>p s. map_of ?m (k @ ''_ref'') = Some (JString p) \<and>
      load_schema small_bundle ?b p = Ok s \<and> get_member doc k = Some (json_of_schema s)" for k
    by blast
  moreover have "load_schema small_bundle ?b ''s'' = Ok (schema_new [mk_field ''id'' TInt64])" by code_simp
  then have "get_member doc ''schema'' = Some (json_of_schema (schema_new [mk_field ''id'' TInt64]))"
    using k [of "''schema''"] by simp
  ultimately show ?thesis by blast
qed

lemma binding_fills_template_witness:
  "bind_text [(''B'', ''2''), (''A'', ''1'')] (render [Lit ''x/'', Hole ''A'', Hole ''B'', Hole ''C'']) = ''x/12{{C}}''"
proof -
  have "list_all plain_part [Lit ''x/'', Hole ''A'', Hole ''B'', Hole ''C'']"
    "list_all (\<lambda>(k, r). braceless k \<and> CHR ''{'' \<notin> set r) [(''A'', ''1''), (''B'', ''2'')]" "distinct (map fst [(''A'', ''1''), (''B'', ''2'')])"
    by (simp_all add: braceless_def)
  from binding_fills_template [OF this, of "[(''B'', ''2''), (''A'', ''1'')]"] show ?thesis by (simp add: placeholder_def)
qed

end
