(* ===== verification/Profiling.thy ===== *)
theory Profiling
  imports Validation Plan_Reduce
begin

text \<open>
  Profiles of a frame (\<open>src/profiling/mod.rs\<close>): one selection of aggregations over the sampled plan,
  its cells read into a report, and the report's renderings. \<open>fixed d x\<close> prints a float with \<open>d\<close>
  decimals and \<open>pretty\<close> prints a JSON document; both belong to the library.
\<close>

subsection \<open>Options and reports\<close>

datatype sampling_mode = FullSample | HeadSample nat

record profile_options =
  po_sampling :: sampling_mode
  po_quantiles :: "f64 list"

definition default_profile_options :: profile_options where
  "default_profile_options = \<lparr>po_sampling = FullSample,
     po_quantiles = [fdiv (of_int64 1) (of_int64 2), fdiv (of_int64 95) (of_int64 100)]\<rparr>"

record numeric_profile =
  np_min :: "f64 option"
  np_max :: "f64 option"
  np_mean :: "f64 option"
  np_quantiles :: "(f64 \<times> f64 option) list"

record column_profile =
  cp_name :: string
  cp_type :: data_type
  cp_nulls :: nat
  cp_distinct :: nat
  cp_numeric :: "numeric_profile option"

record profile_report =
  pr_sampling :: sampling_mode
  pr_rows :: nat
  pr_columns :: "column_profile list"

subsection \<open>Reading the aggregates\<close>

definition polars_dtype_to_profile_dtype :: "polars_dtype \<Rightarrow> data_type \<times> bool" where
  "polars_dtype_to_profile_dtype t =
     (case t of
        PBoolean \<Rightarrow> (TBool, False)
      | PString \<Rightarrow> (TUtf8, False)
      | PInt8 \<Rightarrow> (TInt64, True) | PInt16 \<Rightarrow> (TInt64, True) | PInt32 \<Rightarrow> (TInt64, True) | PInt64 \<Rightarrow> (TInt64, True)
      | PUInt8 \<Rightarrow> (TInt64, True) | PUInt16 \<Rightarrow> (TInt64, True) | PUInt32 \<Rightarrow> (TInt64, True) | PUInt64 \<Rightarrow> (TInt64, True)
      | PFloat32 \<Rightarrow> (TFloat64, True) | PFloat64 \<Rightarrow> (TFloat64, True)
      | POther _ \<Rightarrow> (TUtf8, False))"

definition first_cell :: "string \<Rightarrow> series \<Rightarrow> any_value result" where
  "first_cell message s = (case s_cells s of [] \<Rightarrow> Err (EngineErr message (index_error s)) | av # _ \<Rightarrow> Ok av)"

definition any_to_usize :: "polars \<Rightarrow> series \<Rightarrow> nat option result" where
  "any_to_usize P s =
     rbind (first_cell ''failed to read profile value'' s) (\<lambda>av.
       case av of
         AvNull \<Rightarrow> Ok None
       | AvInt64 v \<Rightarrow> Ok (Some (nat (max (sint v) 0)))
       | AvUInt64 v \<Rightarrow> Ok (Some (unat v))
       | AvInt32 v \<Rightarrow> Ok (Some (nat (max (sint v) 0)))
       | AvUInt32 v \<Rightarrow> Ok (Some (unat v))
       | AvInt16 v \<Rightarrow> Ok (Some (nat (max (sint v) 0)))
       | AvUInt16 v \<Rightarrow> Ok (Some (unat v))
       | AvInt8 v \<Rightarrow> Ok (Some (nat (max (sint v) 0)))
       | AvUInt8 v \<Rightarrow> Ok (Some (unat v))
       | other \<Rightarrow> Err (SchemaMismatch (''expected integer-like profile value, got '' @ av_text P other)))"

text \<open>The numbers the readers accept; the smaller integers are not among them.\<close>

definition float_of_any :: "any_value \<Rightarrow> f64 option option" where
  "float_of_any av =
     (case av of
        AvNull \<Rightarrow> Some None
      | AvFloat64 v \<Rightarrow> Some (Some v)
      | AvFloat32 v \<Rightarrow> Some (Some v)
      | AvInt64 v \<Rightarrow> Some (Some (of_i64 v))
      | AvUInt64 v \<Rightarrow> Some (Some (of_int64 (uint v)))
      | AvInt32 v \<Rightarrow> Some (Some (of_int64 (sint v)))
      | AvUInt32 v \<Rightarrow> Some (Some (of_int64 (uint v)))
      | _ \<Rightarrow> None)"

definition any_to_f64 :: "polars \<Rightarrow> series \<Rightarrow> f64 option result" where
  "any_to_f64 P s =
     rbind (first_cell ''failed to read profile value'' s) (\<lambda>av.
       ok_or (SchemaMismatch (''expected numeric profile value, got '' @ av_text P av)) (float_of_any av))"

subsection \<open>The selection\<close>

definition sampled :: "lazy_frame \<Rightarrow> sampling_mode \<Rightarrow> lazy_frame" where
  "sampled lf mode = (case mode of FullSample \<Rightarrow> lf | HeadSample n \<Rightarrow> LLimit lf (word_of_nat n))"

definition fle :: "f64 \<Rightarrow> f64 \<Rightarrow> bool" where
  "fle x y \<longleftrightarrow> flt x y \<or> feq x y"

definition valid_quantile :: "f64 \<Rightarrow> bool" where
  "valid_quantile q \<longleftrightarrow> fle (fzero False) q \<and> fle q (of_int64 1)"

definition percent :: "f64 \<Rightarrow> string" where
  "percent q = show_i64 (to_i64 (fround (fmul q (of_int64 100))))"

definition quantile_expr :: "(f64 \<Rightarrow> string) \<Rightarrow> string \<Rightarrow> f64 \<Rightarrow> (expr \<times> string) result" where
  "quantile_expr show_f64 name q =
     (if \<not> valid_quantile q
      then Err (SchemaMismatch (''invalid quantile '' @ show_f64 q @ ''; expected value in [0.0, 1.0]''))
      else Ok (EAgg (AgQuantile (LitValue (Float64 q))) (ECol name), name @ ''__p'' @ percent q))"

definition column_exprs :: "(f64 \<Rightarrow> string) \<Rightarrow> f64 list \<Rightarrow> string \<times> data_type \<times> bool \<Rightarrow> (expr \<times> string) list result" where
  "column_exprs show_f64 quantiles = (\<lambda>(name, dt, is_numeric).
     let base = [(EAgg AgNullCount (ECol name), name @ ''__nulls''), (EAgg AgNUnique (EFun FnDropNulls (ECol name)), name @ ''__distinct'')] in
     if is_numeric
     then rmap (\<lambda>qs. base @ [(EAgg AgMin (ECol name), name @ ''__min''), (EAgg AgMax (ECol name), name @ ''__max''),
         (EAgg AgMean (ECol name), name @ ''__mean'')] @ qs)
       (traverse (quantile_expr show_f64 name) quantiles)
     else Ok base)"

definition profile_exprs :: "(f64 \<Rightarrow> string) \<Rightarrow> f64 list \<Rightarrow> (string \<times> data_type \<times> bool) list \<Rightarrow> (expr \<times> string) list result" where
  "profile_exprs show_f64 quantiles cols =
     rmap (\<lambda>ess. (ELen, ''__rows'') # concat ess) (traverse (column_exprs show_f64 quantiles) cols)"

definition named :: "expr \<times> string \<Rightarrow> expr" where
  "named = (\<lambda>(e, n). EAlias e n)"

subsection \<open>The report\<close>

definition agg_column :: "frame \<Rightarrow> string \<Rightarrow> string \<Rightarrow> series result" where
  "agg_column agg message n = ok_or (polars_error_to_ingestion message (PeColumnNotFound n)) (column agg n)"

definition count_of :: "polars \<Rightarrow> frame \<Rightarrow> string \<Rightarrow> string \<Rightarrow> nat result" where
  "count_of P agg message n =
     rbind (agg_column agg message n) (\<lambda>s. rmap (\<lambda>k. case k of Some k \<Rightarrow> k | None \<Rightarrow> 0) (any_to_usize P s))"

definition float_of :: "polars \<Rightarrow> frame \<Rightarrow> string \<Rightarrow> string \<Rightarrow> f64 option result" where
  "float_of P agg message n = rbind (agg_column agg message n) (any_to_f64 P)"

definition numeric_of :: "polars \<Rightarrow> frame \<Rightarrow> f64 list \<Rightarrow> string \<Rightarrow> numeric_profile result" where
  "numeric_of P agg quantiles name =
     rbind (float_of P agg ''profiling missing min'' (name @ ''__min'')) (\<lambda>lo.
     rbind (float_of P agg ''profiling missing max'' (name @ ''__max'')) (\<lambda>hi.
     rbind (float_of P agg ''profiling missing mean'' (name @ ''__mean'')) (\<lambda>mean.
     rmap (\<lambda>qs. \<lparr>np_min = lo, np_max = hi, np_mean = mean, np_quantiles = qs\<rparr>)
       (traverse (\<lambda>q. rmap (Pair q) (float_of P agg ''profiling missing quantile'' (name @ ''__p'' @ percent q))) quantiles))))"

definition profile_column :: "polars \<Rightarrow> frame \<Rightarrow> f64 list \<Rightarrow> string \<times> data_type \<times> bool \<Rightarrow> column_profile result" where
  "profile_column P agg quantiles = (\<lambda>(name, dt, is_numeric).
     rbind (count_of P agg (''profiling missing null_count for '' @ sq name) (name @ ''__nulls'')) (\<lambda>nulls.
     rbind (count_of P agg (''profiling missing distinct_count for '' @ sq name) (name @ ''__distinct'')) (\<lambda>distinct_count.
     rmap (\<lambda>numeric. \<lparr>cp_name = name, cp_type = dt, cp_nulls = nulls, cp_distinct = distinct_count, cp_numeric = numeric\<rparr>)
       (if is_numeric then rmap Some (numeric_of P agg quantiles name) else Ok None))))"

definition profile_frame :: "polars \<Rightarrow> engine \<Rightarrow> (f64 \<Rightarrow> string) \<Rightarrow> lazy_frame \<Rightarrow> profile_options \<Rightarrow> profile_report result" where
  "profile_frame P E show_f64 df options =
     (let lf = sampled df (po_sampling options) in
      rbind (map_polars ''failed to collect schema'' (le_schema E lf)) (\<lambda>s.
      let cols = map (\<lambda>(n, t). (n, polars_dtype_to_profile_dtype t)) s in
      if cols = [] then Ok \<lparr>pr_sampling = po_sampling options, pr_rows = 0, pr_columns = []\<rparr>
      else
        rbind (profile_exprs show_f64 (po_quantiles options) cols) (\<lambda>exprs.
        rbind (map_polars ''failed to compute profile'' (le_collect E (LSelect lf (map named exprs)))) (\<lambda>agg.
        rbind (count_of P agg ''profiling missing __rows column'' ''__rows'') (\<lambda>n.
        rmap (\<lambda>out. \<lparr>pr_sampling = po_sampling options, pr_rows = n, pr_columns = out\<rparr>)
          (traverse (profile_column P agg (po_quantiles options)) cols))))))"

definition profile_dataset :: "polars \<Rightarrow> engine \<Rightarrow> (f64 \<Rightarrow> string) \<Rightarrow> data_set \<Rightarrow> profile_options \<Rightarrow> profile_report result" where
  "profile_dataset P E show_f64 ds options = rbind (from_dataset P ds) (\<lambda>df. profile_frame P E show_f64 df options)"

subsection \<open>Rendering\<close>

definition json_of_float_opt :: "f64 option \<Rightarrow> json" where
  "json_of_float_opt x = (case x of Some v \<Rightarrow> json_of_f64 v | None \<Rightarrow> JNull)"

definition numeric_json :: "numeric_profile \<Rightarrow> json" where
  "numeric_json n = JObject
     [(''min'', json_of_float_opt (np_min n)), (''max'', json_of_float_opt (np_max n)), (''mean'', json_of_float_opt (np_mean n)),
      (''quantiles'', JArray (map (\<lambda>(q, v). JObject [(''q'', json_of_f64 q), (''value'', json_of_float_opt v)]) (np_quantiles n)))]"

definition column_json :: "column_profile \<Rightarrow> json" where
  "column_json c = JObject
     [(''name'', JString (cp_name c)),
      (''data_type'', JString (case cp_type c of TInt64 \<Rightarrow> ''int64'' | TFloat64 \<Rightarrow> ''float64'' | TBool \<Rightarrow> ''bool'' | TUtf8 \<Rightarrow> ''utf8'')),
      (''null_count'', jnat (cp_nulls c)), (''distinct_count'', jnat (cp_distinct c)),
      (''numeric'', case cp_numeric c of Some n \<Rightarrow> numeric_json n | None \<Rightarrow> JNull)]"

definition profile_report_json :: "profile_report \<Rightarrow> json" where
  "profile_report_json r = JObject
     [(''sampling'', JString (case pr_sampling r of FullSample \<Rightarrow> ''full'' | HeadSample _ \<Rightarrow> ''head'')),
      (''row_count'', jnat (pr_rows r)), (''columns'', JArray (map column_json (pr_columns r)))]"

definition render_profile_report_json :: "(json \<Rightarrow> string + string) \<Rightarrow> profile_report \<Rightarrow> string result" where
  "render_profile_report_json pretty r =
     (case pretty (profile_report_json r) of
        Inl e \<Rightarrow> Err (SchemaMismatch (''failed to serialize profile report json: '' @ e))
      | Inr t \<Rightarrow> Ok t)"

definition em_dash :: string where
  "em_dash = [CHR 0xE2, CHR 0x80, CHR 0x94]"

definition column_markdown :: "(nat \<Rightarrow> f64 \<Rightarrow> string) \<Rightarrow> column_profile \<Rightarrow> string" where
  "column_markdown fixed c =
     (let num = (\<lambda>sel. case Option.bind (cp_numeric c) sel of Some v \<Rightarrow> fixed 4 v | None \<Rightarrow> em_dash) in
      ''| `'' @ cp_name c @ ''` | '' @
      (case cp_type c of TInt64 \<Rightarrow> ''Int64'' | TFloat64 \<Rightarrow> ''Float64'' | TBool \<Rightarrow> ''Bool'' | TUtf8 \<Rightarrow> ''Utf8'') @ '' | '' @
      show_nat (cp_nulls c) @ '' | '' @ show_nat (cp_distinct c) @ '' | '' @
      num np_min @ '' | '' @ num np_max @ '' | '' @ num np_mean @ '' |'' @ newline)"

definition render_columns_markdown :: "(nat \<Rightarrow> f64 \<Rightarrow> string) \<Rightarrow> column_profile list \<Rightarrow> string" where
  "render_columns_markdown fixed cols =
     ''### Columns'' @ newline @ newline @
     ''| column | type | nulls | distinct (non-null) | min | max | mean |'' @ newline @
     ''|---|---:|---:|---:|---:|---:|---:|'' @ newline @ concat (map (column_markdown fixed) cols)"

definition render_profile_report_markdown :: "(nat \<Rightarrow> f64 \<Rightarrow> string) \<Rightarrow> profile_report \<Rightarrow> string" where
  "render_profile_report_markdown fixed r =
     ''## Profile report'' @ newline @ newline @ ''- Sampling: **'' @
     (case pr_sampling r of FullSample \<Rightarrow> ''Full'' | HeadSample n \<Rightarrow> ''Head('' @ show_nat n @ '')'') @ ''**'' @ newline @
     ''- Rows profiled: **'' @ show_nat (pr_rows r) @ ''**'' @ newline @ newline @ render_columns_markdown fixed (pr_columns r)"

subsection \<open>Documented aggregates\<close>

text \<open>
  What a selection of aggregations yields: one row, each cell the value \<open>ev\<close> of its expression. Counts
  and the extrema of integers are fixed; a distinct count takes all not-a-numbers for one value and
  both zeros for one. Means, quantiles and the extrema of floats are numbers or null.
\<close>

fun canonical :: "any_value \<Rightarrow> any_value" where
  "canonical (AvFloat64 x) = AvFloat64 (if is_nan x then nan else if is_zero x then fzero False else x)"
| "canonical a = a"

fun canonical_value :: "value_t \<Rightarrow> value_t" where
  "canonical_value (Float64 x) = Float64 (if is_nan x then nan else if is_zero x then fzero False else x)"
| "canonical_value v = v"

definition frame_head :: "nat \<Rightarrow> frame \<Rightarrow> frame" where
  "frame_head k f = \<lparr>f_height = min k (f_height f), f_columns = map (\<lambda>s. s\<lparr>s_cells := take k (s_cells s)\<rparr>) (f_columns f)\<rparr>"

definition limits_rows :: "engine \<Rightarrow> bool" where
  "limits_rows E \<longleftrightarrow> (\<forall>p f n. le_collect E p = Inr f \<longrightarrow> le_collect E (LLimit p n) = Inr (frame_head (unat n) f))"

fun known_aggregate :: "frame \<Rightarrow> expr \<Rightarrow> bool" where
  "known_aggregate f ELen = True"
| "known_aggregate f (EAgg op (ECol c)) =
     (case column f c of
        None \<Rightarrow> False
      | Some s \<Rightarrow> op = AgNullCount \<or> s_dtype s \<in> {PInt64, PFloat64} \<and> (op \<in> {AgMin, AgMax, AgMean} \<or> (\<exists>q. op = AgQuantile (LitValue (Float64 q)))))"
| "known_aggregate f (EAgg op (EFun g (ECol c))) = (op = AgNUnique \<and> g = FnDropNulls \<and> column f c \<noteq> None)"
| "known_aggregate f _ = False"

definition documented :: "(frame \<Rightarrow> expr \<Rightarrow> any_value) \<Rightarrow> bool" where
  "documented ev \<longleftrightarrow> (\<forall>f c s. ev f ELen = AvUInt32 (word_of_nat (f_height f)) \<and> (column f c = Some s \<longrightarrow>
     ev f (EAgg AgNullCount (ECol c)) = AvUInt32 (word_of_nat (length (filter (\<lambda>a. a = AvNull) (s_cells s)))) \<and>
     ev f (EAgg AgNUnique (EFun FnDropNulls (ECol c))) = AvUInt32 (word_of_nat (card (canonical ` (set (s_cells s) - {AvNull})))) \<and>
     (s_dtype s = PInt64 \<longrightarrow> ev f (EAgg AgMin (ECol c)) = extremum Lattices_Big.Min (series_ints s) \<and>
        ev f (EAgg AgMax (ECol c)) = extremum Lattices_Big.Max (series_ints s)) \<and>
     (\<forall>op. known_aggregate f (EAgg op (ECol c)) \<longrightarrow> float_of_any (ev f (EAgg op (ECol c))) \<noteq> None)))"

definition selects_values :: "engine \<Rightarrow> (frame \<Rightarrow> expr \<Rightarrow> any_value) \<Rightarrow> (frame \<Rightarrow> expr \<Rightarrow> bool) \<Rightarrow> bool" where
  "selects_values E ev known \<longleftrightarrow>
     (\<forall>p f es. le_collect E p = Inr f \<longrightarrow> f_columns f \<noteq> [] \<longrightarrow> distinct (map snd es) \<longrightarrow> list_all (known f \<circ> fst) es \<longrightarrow>
        (\<exists>ts. length ts = length es \<and> le_collect E (LSelect p (map named es)) =
           Inr \<lparr>f_height = 1, f_columns = map2 (\<lambda>(e, n) t. \<lparr>s_name = n, s_dtype = t, s_cells = [ev f e]\<rparr>) es ts\<rparr>))"

definition evaluates_aggregates :: "engine \<Rightarrow> (frame \<Rightarrow> expr \<Rightarrow> any_value) \<Rightarrow> bool" where
  "evaluates_aggregates E ev \<longleftrightarrow> documented ev \<and> limits_rows E \<and> selects_values E ev known_aggregate \<and>
     (\<forall>p f. le_collect E p = Inr f \<longrightarrow> le_schema E p = Inr (map (\<lambda>s. (s_name s, s_dtype s)) (f_columns f)))"

subsection \<open>The same profile from the rows\<close>

definition sample_rows :: "sampling_mode \<Rightarrow> data_set \<Rightarrow> data_set" where
  "sample_rows mode ds = (case mode of FullSample \<Rightarrow> ds | HeadSample n \<Rightarrow> ds\<lparr>rows := take (unat (word_of_nat n :: 32 word)) (rows ds)\<rparr>)"

definition aggregate :: "(frame \<Rightarrow> expr \<Rightarrow> any_value) \<Rightarrow> data_set \<Rightarrow> agg_op \<Rightarrow> string \<Rightarrow> f64 option" where
  "aggregate ev ds op c = the (float_of_any (ev (frame_of ds) (EAgg op (ECol c))))"

definition is_numeric :: "data_type \<Rightarrow> bool" where
  "is_numeric t \<longleftrightarrow> t = TInt64 \<or> t = TFloat64"

definition column_of_rows :: "(frame \<Rightarrow> expr \<Rightarrow> any_value) \<Rightarrow> f64 list \<Rightarrow> data_set \<Rightarrow> field \<Rightarrow> column_profile" where
  "column_of_rows ev qs ds f =
     (let c = fname f; vs = column_values ds c in
      \<lparr>cp_name = c, cp_type = ftype f, cp_nulls = length (filter (\<lambda>v. v = Null) vs),
       cp_distinct = card (canonical_value ` (set vs - {Null})),
       cp_numeric = (if is_numeric (ftype f)
         then Some \<lparr>np_min = aggregate ev ds AgMin c, np_max = aggregate ev ds AgMax c, np_mean = aggregate ev ds AgMean c,
           np_quantiles = map (\<lambda>q. (q, aggregate ev ds (AgQuantile (LitValue (Float64 q))) c)) qs\<rparr>
         else None)\<rparr>)"

definition profile_of_rows :: "(frame \<Rightarrow> expr \<Rightarrow> any_value) \<Rightarrow> profile_options \<Rightarrow> data_set \<Rightarrow> profile_report" where
  "profile_of_rows ev opts ds =
     (let s = sample_rows (po_sampling opts) ds in
      \<lparr>pr_sampling = po_sampling opts, pr_rows = row_count s, pr_columns = map (column_of_rows ev (po_quantiles opts) s) (sfields (ds_schema ds))\<rparr>)"

lemma sample_rows_sel [simp]:
  "ds_schema (sample_rows mode ds) = ds_schema ds" "row_count (sample_rows mode ds) \<le> row_count ds"
  by (simp_all add: sample_rows_def row_count_def split: sampling_mode.split)

lemma sample_rows_proper: "proper ds \<Longrightarrow> proper (sample_rows mode ds)"
  by (auto simp: proper_def sample_rows_def wf_ds_def list_all_iff split: sampling_mode.split dest: in_set_takeD)

lemma frame_head_of: "frame_head k (frame_of ds) = frame_of (ds\<lparr>rows := take k (rows ds)\<rparr>)"
  by (rule frame_eqI) (auto simp: frame_head_def row_count_def typed_series_def take_map)

lemma sampled_holds: "limits_rows E \<Longrightarrow> holds_frame E lf ds \<Longrightarrow> holds_frame E (sampled lf mode) (sample_rows mode ds)"
  using sample_rows_proper [of ds mode]
  by (auto simp: holds_frame_def limits_rows_def sampled_def sample_rows_def frame_head_of split: sampling_mode.splits)

subsection \<open>Names of the aggregates\<close>

definition quantile_entry :: "string \<Rightarrow> f64 \<Rightarrow> expr \<times> string" where
  "quantile_entry name q = (EAgg (AgQuantile (LitValue (Float64 q))) (ECol name), name @ ''__p'' @ percent q)"

definition column_entries :: "f64 list \<Rightarrow> string \<times> data_type \<times> bool \<Rightarrow> (expr \<times> string) list" where
  "column_entries qs = (\<lambda>(name, dt, num).
     [(EAgg AgNullCount (ECol name), name @ ''__nulls''), (EAgg AgNUnique (EFun FnDropNulls (ECol name)), name @ ''__distinct'')] @
     (if num then [(EAgg AgMin (ECol name), name @ ''__min''), (EAgg AgMax (ECol name), name @ ''__max''),
         (EAgg AgMean (ECol name), name @ ''__mean'')] @ map (quantile_entry name) qs
      else []))"

definition profile_entries :: "f64 list \<Rightarrow> (string \<times> data_type \<times> bool) list \<Rightarrow> (expr \<times> string) list" where
  "profile_entries qs cols = (ELen, ''__rows'') # concat (map (column_entries qs) cols)"

lemma profile_exprs_entries:
  assumes "list_all valid_quantile qs"
  shows "profile_exprs show_f64 qs cols = Ok (profile_entries qs cols)"
proof -
  have "traverse (quantile_expr show_f64 name) qs = Inr (map (quantile_entry name) qs)" for name
    using assms by (intro traverse_ok) (auto simp: quantile_expr_def quantile_entry_def list_all_iff)
  then have "column_exprs show_f64 qs c = Inr (column_entries qs c)" for c
    by (simp add: column_exprs_def column_entries_def Let_def split_beta)
  then have "traverse (column_exprs show_f64 qs) cols = Inr (map (column_entries qs) cols)" by (intro traverse_ok)
  then show ?thesis by (simp add: profile_exprs_def profile_entries_def)
qed

lemma alias_inj:
  assumes "n @ ''__'' @ a = m @ ''__'' @ b" "CHR ''_'' \<notin> set a" "CHR ''_'' \<notin> set b"
  shows "n = m \<and> a = b"
proof -
  let ?p = "\<lambda>c. c \<noteq> CHR ''_''"
  have "takeWhile ?p (rev x @ ''__'' @ y) = rev x" if "CHR ''_'' \<notin> set x" for x y :: string
    using that by (subst takeWhile_append2) auto
  from this [OF assms(2), of "rev n"] this [OF assms(3), of "rev m"] have "rev a = rev b"
    using arg_cong [OF assms(1), of rev] by simp
  with assms(1) show ?thesis by simp
qed

lemma percent_plain: "CHR ''_'' \<notin> set (percent q)"
proof -
  have "CHR ''_'' \<notin> set (show_nat n)" for n using show_nat_digits [of "CHR ''_''" n] by (auto simp: is_digit_def)
  then show ?thesis by (auto simp: percent_def show_i64_def show_int_def)
qed

definition tags :: "f64 list \<Rightarrow> bool \<Rightarrow> string list" where
  "tags qs num = [''nulls'', ''distinct''] @ (if num then [''min'', ''max'', ''mean''] @ map (\<lambda>q. ''p'' @ percent q) qs else [])"

lemma column_entries_names: "map snd (column_entries qs (name, dt, num)) = map (\<lambda>t. name @ ''__'' @ t) (tags qs num)"
  by (simp add: column_entries_def tags_def quantile_entry_def)

lemma tags_plain: "t \<in> set (tags qs num) \<Longrightarrow> CHR ''_'' \<notin> set t \<and> t \<noteq> ''rows''"
  using percent_plain by (auto simp: tags_def split: if_splits)

lemma tags_distinct: "distinct (map percent qs) \<Longrightarrow> distinct (tags qs num)"
  by (auto simp: tags_def distinct_map inj_on_def)

lemma distinct_concat_map:
  assumes "distinct xs" "\<And>x. distinct (f x)" "\<And>x y z. x \<in> set xs \<Longrightarrow> y \<in> set xs \<Longrightarrow> z \<in> set (f x) \<Longrightarrow> z \<in> set (f y) \<Longrightarrow> x = y"
  shows "distinct (concat (map f xs))"
  using assms(1,3)
proof (induction xs)
  case (Cons x xs)
  have "set (f x) \<inter> set (f y) = {}" if "y \<in> set xs" for y
    using Cons.prems(2) [of x y] that Cons.prems(1) by auto
  moreover have "distinct (concat (map f xs))" using Cons by (meson distinct.simps(2) list.set_intros(2))
  ultimately show ?case using assms(2) by auto
qed simp

lemma profile_entries_distinct:
  assumes "distinct (map fst cols)" "distinct (map percent qs)"
  shows "distinct (map snd (profile_entries qs cols))"
proof -
  have names: "set (map snd (column_entries qs c)) = {fst c @ ''__'' @ t | t. t \<in> set (tags qs (snd (snd c)))}" for c
    using column_entries_names [of qs "fst c" "fst (snd c)" "snd (snd c)"] by auto
  have "distinct (map snd (column_entries qs c))" for c
    using column_entries_names [of qs "fst c" "fst (snd c)" "snd (snd c)"] tags_distinct [OF assms(2)] by (simp add: distinct_map inj_on_def)
  moreover have "c = d" if "c \<in> set cols" "d \<in> set cols" "x \<in> set (map snd (column_entries qs c))" "x \<in> set (map snd (column_entries qs d))" for c d x
  proof -
    from that(3,4) obtain s t where "fst c @ ''__'' @ s = fst d @ ''__'' @ t" "s \<in> set (tags qs (snd (snd c)))" "t \<in> set (tags qs (snd (snd d)))"
      unfolding names by blast
    then have "fst c = fst d" using alias_inj tags_plain by blast
    with that(1,2) assms(1) show ?thesis by (auto simp: distinct_map inj_on_def)
  qed
  moreover have "distinct cols" using assms(1) by (simp add: distinct_map)
  ultimately have "distinct (concat (map (\<lambda>c. map snd (column_entries qs c)) cols))"
    by (intro distinct_concat_map)
  moreover have "''__rows'' \<notin> set (map snd (column_entries qs c))" for c
  proof
    assume "''__rows'' \<in> set (map snd (column_entries qs c))"
    then obtain t where "[] @ ''__'' @ ''rows'' = fst c @ ''__'' @ t" "t \<in> set (tags qs (snd (snd c)))" unfolding names by auto
    then show False using alias_inj [of "[]" "''rows''" "fst c" t] tags_plain [of t] by auto
  qed
  ultimately show ?thesis by (auto simp: profile_entries_def map_concat comp_def)
qed

subsection \<open>Reading the row\<close>

lemma entry_column:
  assumes "distinct (map snd es)" "length ts = length es" "(e, n) \<in> set es"
  shows "\<exists>s. column \<lparr>f_height = 1, f_columns = map2 (\<lambda>(e, n) t. \<lparr>s_name = n, s_dtype = t, s_cells = [ev e]\<rparr>) es ts\<rparr> n = Some s \<and>
    s_cells s = [ev e]"
  using assms(2,1,3)
proof (induction ts es rule: list_induct2)
  case (Cons t ts d ds)
  obtain e' n' where d: "d = (e', n')" by (cases d)
  show ?case
  proof (cases "n' = n")
    case True
    with Cons.prems have "e = e'" by (force simp: d)
    with True show ?thesis by (simp add: column_def d)
  next
    case False
    with Cons.prems have "distinct (map snd ds)" "(e, n) \<in> set ds" by (auto simp: d)
    from Cons.IH [OF this] False show ?thesis by (simp add: column_def d)
  qed
qed simp

lemma typed_field:
  assumes "proper ds" "f \<in> set (sfields (ds_schema ds))"
  shows "typed_column ds (fname f) (ftype f)"
proof -
  obtain i where i: "i < length (sfields (ds_schema ds))" "f = sfields (ds_schema ds) ! i"
    using assms(2) by (auto simp: in_set_conv_nth)
  have "index_of (ds_schema ds) (fname f) = Some i"
    using properD(2) [OF assms(1)] i by (auto simp: index_of_Some_iff field_names_def distinct_conv_nth)
  with i assms(1) show ?thesis by (auto simp: typed_column_def)
qed

lemma null_cells:
  assumes "typed_column ds c t"
  shows "length (filter (\<lambda>a. a = AvNull) (map (cell_av t) (column_values ds c))) = length (filter (\<lambda>v. v = Null) (column_values ds c))"
  using typed_column_values(2) [OF assms] cell_av_null by (auto simp: filter_map comp_def cong: filter_cong)

lemma canonical_cell: "has_type v t \<Longrightarrow> v \<noteq> Null \<Longrightarrow> canonical (cell_av t v) = cell_av t (canonical_value v)"
  by (cases v; cases t) (simp_all add: cell_av_def cell_to_any_def)

lemma canonical_type: "has_type v t \<Longrightarrow> has_type (canonical_value v) t"
  by (cases v; cases t) simp_all

lemma distinct_cells:
  assumes "typed_column ds c t"
  shows "card (canonical ` (set (map (cell_av t) (column_values ds c)) - {AvNull})) = card (canonical_value ` (set (column_values ds c) - {Null}))"
proof -
  let ?S = "set (column_values ds c) - {Null}"
  have typed: "has_type v t" if "v \<in> ?S" for v using that typed_column_values(2) [OF assms] by simp
  have "set (map (cell_av t) (column_values ds c)) - {AvNull} = cell_av t ` ?S"
    using typed_column_values(2) [OF assms] cell_av_null by auto
  then have "canonical ` (set (map (cell_av t) (column_values ds c)) - {AvNull}) = cell_av t ` canonical_value ` ?S"
    using canonical_cell [OF typed] by (auto simp: image_image intro!: image_cong)
  moreover have "inj_on (cell_av t) (canonical_value ` ?S)"
    using canonical_type [OF typed] by (auto intro: inj_on_subset [OF cell_av_inj [of t]])
  ultimately show ?thesis by (simp add: card_image)
qed

lemma profile_dtype_of [simp]: "polars_dtype_to_profile_dtype (target_dtype t) = (t, is_numeric t)"
  by (cases t) (simp_all add: target_dtype_def polars_dtype_to_profile_dtype_def is_numeric_def)

lemma profile_cols:
  "map (\<lambda>(n, t). (n, polars_dtype_to_profile_dtype t)) (map (\<lambda>s. (s_name s, s_dtype s)) (f_columns (frame_of ds))) =
    map (\<lambda>f. (fname f, ftype f, is_numeric (ftype f))) (sfields (ds_schema ds))"
  by (rule nth_equalityI) simp_all

lemma count_of_entry:
  assumes "column agg n = Some s" "s_cells s = [AvUInt32 (word_of_nat k)]" "k < 2 ^ 32"
  shows "count_of P agg message n = Ok k"
  using assms by (simp add: count_of_def agg_column_def any_to_usize_def first_cell_def unat_of_nat take_bit_nat_eq_self)

lemma float_of_entry:
  assumes "column agg n = Some s" "s_cells s = [a]" "float_of_any a \<noteq> None"
  shows "float_of P agg message n = Ok (the (float_of_any a))"
  using assms by (auto simp: float_of_def agg_column_def any_to_f64_def first_cell_def)

lemma profile_column_rows:
  assumes ev: "documented ev" and f: "typed_column ds (fname f) (ftype f)" and n: "row_count ds < 2 ^ 32"
    and agg: "\<And>e n. (e, n) \<in> set (column_entries qs (fname f, ftype f, is_numeric (ftype f))) \<Longrightarrow>
      \<exists>s. column agg n = Some s \<and> s_cells s = [ev (frame_of ds) e]"
  shows "profile_column P agg qs (fname f, ftype f, is_numeric (ftype f)) = Ok (column_of_rows ev qs ds f)"
proof -
  let ?c = "fname f" and ?F = "frame_of ds" and ?vs = "column_values ds (fname f)"
  obtain s where s: "column ?F ?c = Some s" "s_dtype s = target_dtype (ftype f)" "s_cells s = map (cell_av (ftype f)) ?vs"
    using typed_column_series [OF f] by blast
  have len: "length ?vs < 2 ^ 32" using typed_column_values(1) [OF f] n by simp
  have "length (filter (\<lambda>v. v = Null) ?vs) < 2 ^ 32" using len by (rule le_less_trans [OF length_filter_le])
  then have nulls: "count_of P agg m (?c @ ''__nulls'') = Ok (length (filter (\<lambda>v. v = Null) ?vs))" for m
    using agg [of "EAgg AgNullCount (ECol ?c)" "?c @ ''__nulls''"] ev s(1) null_cells [OF f]
    by (auto simp: column_entries_def documented_def s(3) intro!: count_of_entry)
  have "card (canonical_value ` (set ?vs - {Null})) \<le> length ?vs"
    by (meson card_image_le card_length card_mono diff_le_mono finite_Diff finite_set Diff_subset le_trans)
  then have dist: "count_of P agg m (?c @ ''__distinct'') = Ok (card (canonical_value ` (set ?vs - {Null})))" for m
    using agg [of "EAgg AgNUnique (EFun FnDropNulls (ECol ?c))" "?c @ ''__distinct''"] ev s(1) distinct_cells [OF f] len
    by (auto simp: column_entries_def documented_def s(3) intro!: count_of_entry)
  have num: "float_of P agg m n = Ok (aggregate ev ds op ?c)"
    if "is_numeric (ftype f)" "(EAgg op (ECol ?c), n) \<in> set (column_entries qs (?c, ftype f, is_numeric (ftype f)))"
      "op \<in> {AgMin, AgMax, AgMean} \<or> (\<exists>q. op = AgQuantile (LitValue (Float64 q)))" for op n m
  proof -
    have "known_aggregate ?F (EAgg op (ECol ?c))"
      using that(1,3) s(1,2) by (auto simp: is_numeric_def target_dtype_def)
    then have "float_of_any (ev ?F (EAgg op (ECol ?c))) \<noteq> None" using ev s(1) unfolding documented_def by blast
    with agg [OF that(2)] show ?thesis unfolding aggregate_def by (auto intro: float_of_entry)
  qed
  have "numeric_of P agg qs ?c = Ok \<lparr>np_min = aggregate ev ds AgMin ?c, np_max = aggregate ev ds AgMax ?c, np_mean = aggregate ev ds AgMean ?c,
      np_quantiles = map (\<lambda>q. (q, aggregate ev ds (AgQuantile (LitValue (Float64 q))) ?c)) qs\<rparr>" if "is_numeric (ftype f)"
  proof -
    have "float_of P agg m (?c @ ''__p'' @ percent q) = Ok (aggregate ev ds (AgQuantile (LitValue (Float64 q))) ?c)" if "q \<in> set qs" for q m
      using that \<open>is_numeric (ftype f)\<close> by (intro num) (auto simp: column_entries_def quantile_entry_def)
    then have "traverse (\<lambda>q. rmap (Pair q) (float_of P agg m (?c @ ''__p'' @ percent q))) qs =
        Inr (map (\<lambda>q. (q, aggregate ev ds (AgQuantile (LitValue (Float64 q))) ?c)) qs)" for m
      by (intro traverse_ok) simp
    moreover have "float_of P agg m (?c @ ''__min'') = Ok (aggregate ev ds AgMin ?c)"
      "float_of P agg m (?c @ ''__max'') = Ok (aggregate ev ds AgMax ?c)"
      "float_of P agg m (?c @ ''__mean'') = Ok (aggregate ev ds AgMean ?c)" for m
      using that by (auto intro!: num simp: column_entries_def)
    ultimately show ?thesis by (simp add: numeric_of_def)
  qed
  then show ?thesis
    by (simp add: profile_column_def column_of_rows_def Let_def nulls dist)
qed

lemma profile_frame_rows:
  assumes "evaluates_aggregates E ev" "holds_frame E lf ds" "row_count ds < 2 ^ 32"
    and "list_all valid_quantile (po_quantiles opts)" "distinct (map percent (po_quantiles opts))"
  shows "profile_frame P E show_f64 lf opts = Ok (profile_of_rows ev opts ds)"
proof -
  let ?s = "sample_rows (po_sampling opts) ds" and ?lf = "sampled lf (po_sampling opts)" and ?qs = "po_quantiles opts"
  let ?cols = "map (\<lambda>f. (fname f, ftype f, is_numeric (ftype f))) (sfields (ds_schema ds))"
  let ?F = "frame_of ?s" and ?es = "profile_entries (po_quantiles opts) (map (\<lambda>f. (fname f, ftype f, is_numeric (ftype f))) (sfields (ds_schema ds)))"
  have E: "documented ev" "limits_rows E" using assms(1) by (simp_all add: evaluates_aggregates_def)
  have holds: "holds_frame E ?lf ?s" by (rule sampled_holds [OF E(2) assms(2)])
  then have pr: "proper ?s" "le_collect E ?lf = Inr ?F" by (simp_all add: holds_frame_def)
  have n: "row_count ?s < 2 ^ 32" using assms(3) sample_rows_sel(2) by (rule le_less_trans [rotated])
  have typed: "typed_column ?s (fname f) (ftype f)" if "f \<in> set (sfields (ds_schema ds))" for f
    using typed_field [OF pr(1)] that by simp
  have "distinct (map fst ?cols)" using properD(2) [OF pr(1)] by (simp add: field_names_def comp_def)
  note names = profile_entries_distinct [OF this assms(5)]
  have "known_aggregate ?F e" if "(e, m) \<in> set ?es" for e m
    using that typed typed_column_series
    by (fastforce simp: profile_entries_def column_entries_def quantile_entry_def is_numeric_def target_dtype_def split: if_splits)
  then have "list_all (known_aggregate ?F \<circ> fst) ?es" by (force simp: list_all_iff)
  then obtain ts where ts: "length ts = length ?es" "le_collect E (LSelect ?lf (map named ?es)) =
      Inr \<lparr>f_height = 1, f_columns = map2 (\<lambda>(e, n) t. \<lparr>s_name = n, s_dtype = t, s_cells = [ev ?F e]\<rparr>) ?es ts\<rparr>"
    using assms(1) pr(2) holds_frame_columns [OF holds] names unfolding evaluates_aggregates_def selects_values_def by blast
  let ?agg = "\<lparr>f_height = 1, f_columns = map2 (\<lambda>(e, n) t. \<lparr>s_name = n, s_dtype = t, s_cells = [ev ?F e]\<rparr>) ?es ts\<rparr>"
  note entry = entry_column [OF names ts(1), of _ _ "ev ?F"]
  have "count_of P ?agg m ''__rows'' = Ok (row_count ?s)" for m
    using entry [of ELen "''__rows''"] E(1) n by (auto simp: profile_entries_def documented_def intro!: count_of_entry)
  moreover have "traverse (profile_column P ?agg ?qs) ?cols = Inr (map (column_of_rows ev ?qs ?s) (sfields (ds_schema ds)))"
  proof -
    have "profile_column P ?agg ?qs (fname f, ftype f, is_numeric (ftype f)) = Inr (column_of_rows ev ?qs ?s f)"
      if "f \<in> set (sfields (ds_schema ds))" for f
      using that by (intro profile_column_rows [OF E(1) typed [OF that] n] entry) (auto simp: profile_entries_def)
    then show ?thesis by (intro traverse_nthI) simp_all
  qed
  moreover have "le_schema E ?lf = Inr (map (\<lambda>s. (s_name s, s_dtype s)) (f_columns ?F))"
    using assms(1) pr(2) by (simp add: evaluates_aggregates_def)
  moreover have "?cols \<noteq> []" using properD(3) [OF pr(1)] by simp
  moreover note holds_frame_columns [OF holds]
  ultimately show ?thesis
    by (simp add: profile_frame_def Let_def profile_cols profile_exprs_entries [OF assms(4)] ts(2) profile_of_rows_def
        del: frame_of_sel map_map)
qed

subsection \<open>Properties\<close>

definition int_values :: "value_t list \<Rightarrow> i64 list" where
  "int_values vs = List.map_filter (\<lambda>v. case v of Int64 i \<Rightarrow> Some i | _ \<Rightarrow> None) vs"

lemma int_values_series:
  assumes "typed_column ds c TInt64" "column (frame_of ds) c = Some s"
  shows "series_ints s = int_values (column_values ds c)"
proof -
  have "(case cell_av TInt64 v of AvInt64 i \<Rightarrow> Some i | _ \<Rightarrow> None) = (case v of Int64 i \<Rightarrow> Some i | _ \<Rightarrow> None)"
    if "v \<in> set (column_values ds c)" for v
    using typed_column_values(2) [OF assms(1) that] by (cases v) (simp_all add: cell_av_def cell_to_any_def)
  moreover have "s_cells s = map (cell_av TInt64) (column_values ds c)" using typed_column_series [OF assms(1)] assms(2) by auto
  ultimately show ?thesis
    by (simp add: series_ints_def int_values_def List.map_filter_def filter_map comp_def cong: map_cong filter_cong)
qed

lemma int_extremum:
  assumes "m (sint ` set vs) \<in> sint ` set vs \<or> vs = []"
  shows "the (float_of_any (extremum m vs)) = (if vs = [] then None else Some (of_int64 (m (sint ` set vs))))"
proof (cases "vs = []")
  case False
  with assms obtain v :: i64 where "m (sint ` set vs) = sint v" by auto
  with False show ?thesis by (simp add: extremum_def float_of_any_def of_i64_def)
qed (simp add: extremum_def float_of_any_def)

lemma aggregate_extrema:
  assumes "documented ev" "typed_column ds c TInt64"
  defines "vs \<equiv> int_values (column_values ds c)"
  shows "aggregate ev ds AgMin c = (if vs = [] then None else Some (of_int64 (Lattices_Big.Min (sint ` set vs))))"
    "aggregate ev ds AgMax c = (if vs = [] then None else Some (of_int64 (Lattices_Big.Max (sint ` set vs))))"
proof -
  obtain s where s: "column (frame_of ds) c = Some s" "s_dtype s = PInt64"
    using typed_column_series [OF assms(2)] by (auto simp: target_dtype_def)
  then have "ev (frame_of ds) (EAgg AgMin (ECol c)) = extremum Lattices_Big.Min vs" "ev (frame_of ds) (EAgg AgMax (ECol c)) = extremum Lattices_Big.Max vs"
    using assms(1) int_values_series [OF assms(2) s(1)] by (simp_all add: documented_def vs_def)
  moreover have "vs \<noteq> [] \<Longrightarrow> Lattices_Big.Min (sint ` set vs) \<in> sint ` set vs" "vs \<noteq> [] \<Longrightarrow> Lattices_Big.Max (sint ` set vs) \<in> sint ` set vs"
    by (rule Min_in Max_in; simp)+
  ultimately show "aggregate ev ds AgMin c = (if vs = [] then None else Some (of_int64 (Lattices_Big.Min (sint ` set vs))))"
    "aggregate ev ds AgMax c = (if vs = [] then None else Some (of_int64 (Lattices_Big.Max (sint ` set vs))))"
    using int_extremum by (simp_all add: aggregate_def)
qed

text \<open>C37: On a dataset of fewer than \<open>2 ^ 32\<close> rows a profile with valid quantiles of distinct percentages
  succeeds: it counts the sampled rows and, for every column in order, the nulls and the distinct
  values among the others; exactly the numeric columns carry a numeric profile, which pairs each
  aggregate and quantile with that column; integer columns get their least and greatest values.\<close>

theorem profile_exact:
  assumes "evaluates_aggregates E ev" "holds_frame E lf ds" "row_count ds < 2 ^ 32"
    and "list_all valid_quantile (po_quantiles opts)" "distinct (map percent (po_quantiles opts))"
  defines "s \<equiv> sample_rows (po_sampling opts) ds"
  shows "profile_frame P E show_f64 lf opts = Ok \<lparr>pr_sampling = po_sampling opts, pr_rows = row_count s,
      pr_columns = map (column_of_rows ev (po_quantiles opts) s) (sfields (ds_schema ds))\<rparr> \<and>
    (\<forall>f\<in>set (sfields (ds_schema ds)). ftype f = TInt64 \<longrightarrow>
      (let vs = int_values (column_values s (fname f)) in
       aggregate ev s AgMin (fname f) = (if vs = [] then None else Some (of_int64 (Lattices_Big.Min (sint ` set vs)))) \<and>
       aggregate ev s AgMax (fname f) = (if vs = [] then None else Some (of_int64 (Lattices_Big.Max (sint ` set vs))))))"
proof -
  have "proper s" using assms(2) sample_rows_proper by (auto simp: s_def holds_frame_def)
  then have "typed_column s (fname f) TInt64" if "f \<in> set (sfields (ds_schema ds))" "ftype f = TInt64" for f
    using typed_field [of s f] that by (simp add: s_def)
  moreover have "documented ev" using assms(1) by (simp add: evaluates_aggregates_def)
  ultimately show ?thesis
    using profile_frame_rows [OF assms(1-5), of P show_f64] aggregate_extrema
    by (simp add: profile_of_rows_def s_def Let_def)
qed

text \<open>Two quantiles that round to one percentage ask for two columns of one name; the readers refuse the
  small integers that the profile takes for numeric; a sample of \<open>2 ^ 32\<close> rows is empty.\<close>

lemma percentages_clash:
  "\<not> distinct (map snd (profile_entries [fdiv (of_int64 1) (of_int64 2), fdiv (of_int64 501) (of_int64 1000)] [(''x'', TFloat64, True)]))"
  by code_simp

lemma small_integers_refused:
  "polars_dtype_to_profile_dtype PInt8 = (TInt64, True)" "float_of_any (AvInt8 v) = None" "float_of_any (AvUInt16 w) = None"
  by (simp_all add: polars_dtype_to_profile_dtype_def float_of_any_def)

lemma large_sample_empty: "sampled lf (HeadSample (2 ^ 32)) = LLimit lf 0"
  by (simp add: sampled_def)

subsection \<open>Witnesses\<close>

definition toy_value :: "frame \<Rightarrow> expr \<Rightarrow> any_value" where
  "toy_value f e =
     (case e of
        ELen \<Rightarrow> AvUInt32 (word_of_nat (f_height f))
      | EAgg op (ECol c) \<Rightarrow> (case column f c of
          None \<Rightarrow> AvNull
        | Some s \<Rightarrow>
            if op = AgNullCount then AvUInt32 (word_of_nat (length (filter (\<lambda>a. a = AvNull) (s_cells s))))
            else if s_dtype s = PInt64 \<and> op = AgMin then extremum Lattices_Big.Min (series_ints s)
            else if s_dtype s = PInt64 \<and> op = AgMax then extremum Lattices_Big.Max (series_ints s)
            else AvNull)
      | EAgg op (EFun g (ECol c)) \<Rightarrow> (case column f c of
          None \<Rightarrow> AvNull
        | Some s \<Rightarrow> AvUInt32 (word_of_nat (card (canonical ` (set (s_cells s) - {AvNull})))))
      | _ \<Rightarrow> AvNull)"

fun aggregate_collect :: "lazy_frame \<Rightarrow> polars_error + frame" where
  "aggregate_collect (LFrame f) = Inr f"
| "aggregate_collect (LLimit p n) = rmap (frame_head (unat n)) (aggregate_collect p)"
| "aggregate_collect (LSelect p es) = rmap (\<lambda>f.
     \<lparr>f_height = 1, f_columns = map (\<lambda>e. case split_alias e of
         Some (n, e') \<Rightarrow> \<lparr>s_name = n, s_dtype = PInt64, s_cells = [toy_value f e']\<rparr>
       | None \<Rightarrow> \<lparr>s_name = [], s_dtype = PInt64, s_cells = []\<rparr>) es\<rparr>) (aggregate_collect p)"
| "aggregate_collect _ = Inl (PeColumnNotFound [])"

definition aggregate_engine :: engine where
  "aggregate_engine = \<lparr>le_collect = aggregate_collect,
     le_schema = (\<lambda>p. rmap (\<lambda>f. map (\<lambda>s. (s_name s, s_dtype s)) (f_columns f)) (aggregate_collect p))\<rparr>"

lemma aggregate_engine_selects: "selects_values aggregate_engine toy_value known"
  unfolding selects_values_def
proof (intro allI impI exI conjI)
  fix p f and es :: "(expr \<times> string) list"
  assume "le_collect aggregate_engine p = Inr f"
  show "length (replicate (length es) PInt64) = length es" by simp
  have "map (\<lambda>e. case split_alias e of
       Some (n, e') \<Rightarrow> \<lparr>s_name = n, s_dtype = PInt64, s_cells = [toy_value f e']\<rparr>
     | None \<Rightarrow> \<lparr>s_name = [], s_dtype = PInt64, s_cells = []\<rparr>) (map named es) =
    map2 (\<lambda>(e, n) t. \<lparr>s_name = n, s_dtype = t, s_cells = [toy_value f e]\<rparr>) es (replicate (length es) PInt64)"
    by (induction es) (auto simp: named_def)
  with \<open>le_collect aggregate_engine p = Inr f\<close> show "le_collect aggregate_engine (LSelect p (map named es)) =
    Inr \<lparr>f_height = 1, f_columns = map2 (\<lambda>(e, n) t. \<lparr>s_name = n, s_dtype = t, s_cells = [toy_value f e]\<rparr>) es (replicate (length es) PInt64)\<rparr>"
    by (simp add: aggregate_engine_def)
qed

lemma aggregate_engine_laws: "evaluates_aggregates aggregate_engine toy_value"
proof -
  have "documented toy_value"
    by (auto simp: documented_def toy_value_def float_of_any_def extremum_def)
  moreover have "limits_rows aggregate_engine" by (simp add: limits_rows_def aggregate_engine_def)
  moreover note aggregate_engine_selects
  ultimately show ?thesis by (simp add: evaluates_aggregates_def) (simp add: aggregate_engine_def)
qed

lemma profile_exact_witness:
  "\<exists>rep. profile_frame plain_polars aggregate_engine (\<lambda>_. []) (LFrame (frame_of two_rows)) \<lparr>po_sampling = HeadSample 1, po_quantiles = [fzero False]\<rparr> = Ok rep \<and>
    pr_rows rep = 1"
proof -
  let ?o = "\<lparr>po_sampling = HeadSample 1, po_quantiles = [fzero False]\<rparr>"
  have "holds_frame aggregate_engine (LFrame (frame_of two_rows)) two_rows"
    by (simp add: holds_frame_def proper_def aggregate_engine_def two_rows_def wf_row_def field_names_def)
  moreover have "row_count two_rows < 2 ^ 32" by (simp add: two_rows_def row_count_def)
  moreover have "list_all valid_quantile (po_quantiles ?o)" "distinct (map percent (po_quantiles ?o))" by code_simp+
  ultimately have "profile_frame plain_polars aggregate_engine (\<lambda>_. []) (LFrame (frame_of two_rows)) ?o =
      Ok \<lparr>pr_sampling = po_sampling ?o, pr_rows = row_count (sample_rows (po_sampling ?o) two_rows),
        pr_columns = map (column_of_rows toy_value (po_quantiles ?o) (sample_rows (po_sampling ?o) two_rows)) (sfields (ds_schema two_rows))\<rparr>"
    using profile_exact [OF aggregate_engine_laws, of "LFrame (frame_of two_rows)" two_rows ?o plain_polars "\<lambda>_. []"] by blast
  then show ?thesis by (simp add: sample_rows_def two_rows_def row_count_def)
qed

end
