(* ===== verification/Outliers.thy ===== *)
theory Outliers
  imports Profiling
begin

text \<open>
  Outlier detection (\<open>src/outliers/mod.rs\<close>): the statistics of a column in one selection (two for the
  median absolute deviation), a predicate built from them, the count of the rows it keeps and the
  first of their values. \<open>fixed d x\<close> prints a float with \<open>d\<close> decimals, \<open>show_f64\<close> and \<open>dbg_f64\<close> are the
  display and debug printers of floats, \<open>pretty\<close> prints a document.
\<close>

subsection \<open>Methods and reports\<close>

datatype outlier_method = ZScore f64 | Iqr f64 | Mad f64

record outlier_options =
  oo_sampling :: sampling_mode
  oo_max_examples :: nat

definition default_outlier_options :: outlier_options where
  "default_outlier_options = \<lparr>oo_sampling = FullSample, oo_max_examples = 5\<rparr>"

record outlier_stats =
  os_method :: outlier_method
  os_mean :: "f64 option"
  os_std :: "f64 option"
  os_median :: "f64 option"
  os_mad :: "f64 option"
  os_q1 :: "f64 option"
  os_q3 :: "f64 option"
  os_lower :: "f64 option"
  os_upper :: "f64 option"

record outlier_report =
  or_column :: string
  or_sampling :: sampling_mode
  or_rows :: nat
  or_count :: nat
  or_stats :: outlier_stats
  or_examples :: "f64 list"

definition no_stats :: "outlier_method \<Rightarrow> outlier_stats" where
  "no_stats m = \<lparr>os_method = m, os_mean = None, os_std = None, os_median = None, os_mad = None, os_q1 = None, os_q3 = None,
     os_lower = None, os_upper = None\<rparr>"

subsection \<open>Detection\<close>

definition read_f64 :: "polars \<Rightarrow> frame \<Rightarrow> string \<Rightarrow> f64 option result" where
  "read_f64 P df name =
     rbind (agg_column df ''missing stats column'' name) (\<lambda>s.
     rbind (first_cell ''failed to read outlier stat'' s) (\<lambda>av.
     ok_or (SchemaMismatch (''expected numeric stat value, got '' @ av_text P av)) (float_of_any av)))"

text \<open>The examples accept fewer types than the statistics: no unsigned integers.\<close>

definition example_float :: "any_value \<Rightarrow> f64 option option" where
  "example_float av =
     (case av of
        AvNull \<Rightarrow> Some None
      | AvFloat64 v \<Rightarrow> Some (Some v)
      | AvFloat32 v \<Rightarrow> Some (Some v)
      | AvInt64 v \<Rightarrow> Some (Some (of_i64 v))
      | AvInt32 v \<Rightarrow> Some (Some (of_int64 (sint v)))
      | _ \<Rightarrow> None)"

definition series_to_f64_vec :: "polars \<Rightarrow> series \<Rightarrow> nat \<Rightarrow> f64 list result" where
  "series_to_f64_vec P s max_values =
     rmap (List.map_filter id)
       (traverse (\<lambda>av. ok_or (SchemaMismatch (''expected numeric outlier example, got '' @ av_text P av)) (example_float av))
         (take max_values (s_cells s)))"

definition stats_exprs :: "outlier_method \<Rightarrow> string \<Rightarrow> (expr \<times> string) list" where
  "stats_exprs m c = (ELen, ''__rows'') #
     (case m of
        ZScore _ \<Rightarrow> [(EAgg AgMean (ECol c), ''__mean''), (EAgg (AgStd 1) (ECol c), ''__std'')]
      | Iqr _ \<Rightarrow>
          [(EAgg (AgQuantile (LitValue (Float64 (fdiv (of_int64 1) (of_int64 4))))) (ECol c), ''__q1''),
           (EAgg (AgQuantile (LitValue (Float64 (fdiv (of_int64 3) (of_int64 4))))) (ECol c), ''__q3'')]
      | Mad _ \<Rightarrow> [(EAgg AgMedian (ECol c), ''__median'')])"

definition never :: expr where
  "never = lit_value (Bool False)"

definition centred :: "string \<Rightarrow> f64 \<Rightarrow> expr" where
  "centred c m = EBin OpSub (ECol c) (lit_value (Float64 m))"

definition z_predicate :: "string \<Rightarrow> f64 \<Rightarrow> f64 option \<Rightarrow> f64 option \<Rightarrow> expr" where
  "z_predicate c threshold mean std =
     (case (mean, std) of
        (Some m, Some s) \<Rightarrow>
          if flt (fzero False) s
          then EBin OpGt (EFun FnAbs (EBin OpDiv (centred c m) (lit_value (Float64 s)))) (lit_value (Float64 threshold))
          else never
      | _ \<Rightarrow> never)"

definition fences :: "f64 \<Rightarrow> f64 option \<Rightarrow> f64 option \<Rightarrow> (f64 \<times> f64) option" where
  "fences k q1 q3 =
     (case (q1, q3) of
        (Some a, Some b) \<Rightarrow> (let iqr = fsub b a in Some (fsub a (fmul k iqr), fadd b (fmul k iqr)))
      | _ \<Rightarrow> None)"

definition iqr_predicate :: "string \<Rightarrow> (f64 \<times> f64) option \<Rightarrow> expr" where
  "iqr_predicate c lohi =
     (case lohi of
        Some (lo, hi) \<Rightarrow> EBin OpOr (EBin OpLt (ECol c) (lit_value (Float64 lo))) (EBin OpGt (ECol c) (lit_value (Float64 hi)))
      | None \<Rightarrow> never)"

text \<open>The constant \<open>0.6745\<close>.\<close>

definition mad_scale :: f64 where
  "mad_scale = fdiv (of_int64 6745) (of_int64 10000)"

definition deviation :: "string \<Rightarrow> f64 \<Rightarrow> expr" where
  "deviation c m = EFun FnAbs (centred c m)"

definition mad_predicate :: "string \<Rightarrow> f64 \<Rightarrow> f64 option \<Rightarrow> f64 option \<Rightarrow> expr" where
  "mad_predicate c threshold median mad =
     (case (median, mad) of
        (Some m, Some d) \<Rightarrow>
          if flt (fzero False) d
          then EBin OpGt (EBin OpDiv (EBin OpMul (lit_value (Float64 mad_scale)) (deviation c m)) (lit_value (Float64 d)))
            (lit_value (Float64 threshold))
          else never
      | _ \<Rightarrow> never)"

definition median_deviation :: "polars \<Rightarrow> engine \<Rightarrow> lazy_frame \<Rightarrow> string \<Rightarrow> f64 option \<Rightarrow> f64 option result" where
  "median_deviation P E lf c median =
     (case median of
        None \<Rightarrow> Ok None
      | Some m \<Rightarrow>
          rbind (map_polars ''failed to compute MAD''
                   (le_collect E (LSelect lf (map named [(EAgg AgMedian (deviation c m), ''__mad'')])))) (\<lambda>mad_df.
          read_f64 P mad_df ''__mad''))"

definition stats_and_predicate :: "polars \<Rightarrow> engine \<Rightarrow> lazy_frame \<Rightarrow> frame \<Rightarrow> string \<Rightarrow> outlier_method \<Rightarrow> (outlier_stats \<times> expr) result" where
  "stats_and_predicate P E lf stats_df c method =
     (case method of
        ZScore threshold \<Rightarrow>
          rbind (read_f64 P stats_df ''__mean'') (\<lambda>mean.
          rmap (\<lambda>std. ((no_stats method)\<lparr>os_mean := mean, os_std := std\<rparr>, z_predicate c threshold mean std))
            (read_f64 P stats_df ''__std''))
      | Iqr k \<Rightarrow>
          rbind (read_f64 P stats_df ''__q1'') (\<lambda>q1.
          rmap (\<lambda>q3. ((no_stats method)\<lparr>os_q1 := q1, os_q3 := q3, os_lower := map_option fst (fences k q1 q3),
              os_upper := map_option snd (fences k q1 q3)\<rparr>, iqr_predicate c (fences k q1 q3)))
            (read_f64 P stats_df ''__q3''))
      | Mad threshold \<Rightarrow>
          rbind (read_f64 P stats_df ''__median'') (\<lambda>median.
          rmap (\<lambda>mad. ((no_stats method)\<lparr>os_median := median, os_mad := mad\<rparr>, mad_predicate c threshold median mad))
            (median_deviation P E lf c median)))"

definition count_read :: "f64 option \<Rightarrow> nat" where
  "count_read x = to_usize (case x of Some v \<Rightarrow> v | None \<Rightarrow> fzero False)"

definition outlier_examples :: "polars \<Rightarrow> engine \<Rightarrow> lazy_frame \<Rightarrow> expr \<Rightarrow> string \<Rightarrow> nat \<Rightarrow> nat \<Rightarrow> f64 list result" where
  "outlier_examples P E lf pred c outlier_count max_examples =
     (if 0 < outlier_count \<and> 0 < max_examples
      then
        rbind (map_polars ''failed to collect outlier examples''
                 (le_collect E (LLimit (LSelect (LFilter lf pred) [ECol c]) (word_of_nat max_examples)))) (\<lambda>ex_df.
        rbind (agg_column ex_df ''missing outlier column'' c) (\<lambda>s. series_to_f64_vec P s max_examples))
      else Ok [])"

definition detect_outliers_frame :: "polars \<Rightarrow> engine \<Rightarrow> lazy_frame \<Rightarrow> string \<Rightarrow> outlier_method \<Rightarrow> outlier_options \<Rightarrow> outlier_report result" where
  "detect_outliers_frame P E df c method options =
     (let lf = sampled df (oo_sampling options) in
      rbind (map_polars ''failed to compute outlier stats'' (le_collect E (LSelect lf (map named (stats_exprs method c))))) (\<lambda>stats_df.
      rbind (read_f64 P stats_df ''__rows'') (\<lambda>n.
      rbind (stats_and_predicate P E lf stats_df c method) (\<lambda>(stats, pred).
      rbind (map_polars ''failed to count outliers'' (le_collect E (LSelect (LFilter lf pred) (map named [(ELen, ''__outliers'')])))) (\<lambda>count_df.
      rbind (read_f64 P count_df ''__outliers'') (\<lambda>k.
      rmap (\<lambda>examples. \<lparr>or_column = c, or_sampling = oo_sampling options, or_rows = count_read n, or_count = count_read k,
          or_stats = stats, or_examples = examples\<rparr>)
        (outlier_examples P E lf pred c (count_read k) (oo_max_examples options))))))))"

definition detect_outliers_dataset :: "polars \<Rightarrow> engine \<Rightarrow> data_set \<Rightarrow> string \<Rightarrow> outlier_method \<Rightarrow> outlier_options \<Rightarrow> outlier_report result" where
  "detect_outliers_dataset P E ds c method options = rbind (from_dataset P ds) (\<lambda>df. detect_outliers_frame P E df c method options)"

subsection \<open>Rendering\<close>

definition method_debug :: "(f64 \<Rightarrow> string) \<Rightarrow> outlier_method \<Rightarrow> string" where
  "method_debug dbg_f64 m =
     (case m of
        ZScore t \<Rightarrow> ''ZScore { threshold: '' @ dbg_f64 t @ '' }''
      | Iqr k \<Rightarrow> ''Iqr { k: '' @ dbg_f64 k @ '' }''
      | Mad t \<Rightarrow> ''Mad { threshold: '' @ dbg_f64 t @ '' }'')"

definition sampling_debug :: "sampling_mode \<Rightarrow> string" where
  "sampling_debug m = (case m of FullSample \<Rightarrow> ''Full'' | HeadSample n \<Rightarrow> ''Head('' @ show_nat n @ '')'')"

definition outlier_report_json :: "(f64 \<Rightarrow> string) \<Rightarrow> outlier_report \<Rightarrow> json" where
  "outlier_report_json dbg_f64 rep =
     (let s = or_stats rep in
      JObject
        [(''column'', JString (or_column rep)), (''sampling'', JString (sampling_debug (or_sampling rep))),
         (''row_count'', jnat (or_rows rep)), (''outlier_count'', jnat (or_count rep)),
         (''stats'', JObject
           [(''method'', JString (method_debug dbg_f64 (os_method s))), (''mean'', json_of_float_opt (os_mean s)),
            (''std'', json_of_float_opt (os_std s)), (''median'', json_of_float_opt (os_median s)), (''mad'', json_of_float_opt (os_mad s)),
            (''q1'', json_of_float_opt (os_q1 s)), (''q3'', json_of_float_opt (os_q3 s)),
            (''lower_fence'', json_of_float_opt (os_lower s)), (''upper_fence'', json_of_float_opt (os_upper s))]),
         (''examples'', JArray (map json_of_f64 (or_examples rep)))])"

definition render_outlier_report_json :: "(f64 \<Rightarrow> string) \<Rightarrow> (json \<Rightarrow> string + string) \<Rightarrow> outlier_report \<Rightarrow> string result" where
  "render_outlier_report_json dbg_f64 pretty rep =
     (case pretty (outlier_report_json dbg_f64 rep) of
        Inl e \<Rightarrow> Err (SchemaMismatch (''failed to serialize outlier report json: '' @ e))
      | Inr t \<Rightarrow> Ok t)"

definition stat_line :: "(nat \<Rightarrow> f64 \<Rightarrow> string) \<Rightarrow> string \<Rightarrow> f64 option \<Rightarrow> string" where
  "stat_line fixed name v = (case v of Some x \<Rightarrow> ''- '' @ name @ '': `'' @ fixed 6 x @ ''`'' @ newline | None \<Rightarrow> [])"

definition render_outlier_report_markdown :: "(nat \<Rightarrow> f64 \<Rightarrow> string) \<Rightarrow> (f64 \<Rightarrow> string) \<Rightarrow> (f64 \<Rightarrow> string) \<Rightarrow> outlier_report \<Rightarrow> string" where
  "render_outlier_report_markdown fixed show_f64 dbg_f64 rep =
     (let s = or_stats rep in
      ''## Outlier report'' @ newline @ newline @ ''- Column: `'' @ or_column rep @ ''`'' @ newline @
      ''- Rows profiled: **'' @ show_nat (or_rows rep) @ ''**'' @ newline @
      ''- Outliers: **'' @ show_nat (or_count rep) @ ''**'' @ newline @ newline @ ''### Stats'' @ newline @ newline @
      ''- Method: `'' @ method_debug dbg_f64 (os_method s) @ ''`'' @ newline @
      stat_line fixed ''mean'' (os_mean s) @ stat_line fixed ''std'' (os_std s) @ stat_line fixed ''median'' (os_median s) @
      stat_line fixed ''mad'' (os_mad s) @
      (case (os_lower s, os_upper s) of
         (Some a, Some b) \<Rightarrow> ''- fences: `['' @ fixed 6 a @ '', '' @ fixed 6 b @ '']`'' @ newline | _ \<Rightarrow> []) @
      (if or_examples rep = [] then []
       else newline @ ''### Examples'' @ newline @ newline @ concat (map (\<lambda>v. ''- `'' @ show_f64 v @ ''`'' @ newline) (or_examples rep))))"

subsection \<open>Documented plans over a float column\<close>

text \<open>
  Comparisons of floats in Polars are total, with not-a-number above every number. A filter keeps the
  rows whose predicate is true; a null cell makes it null.
\<close>

definition tot_gt :: "f64 \<Rightarrow> f64 \<Rightarrow> bool" where
  "tot_gt a b \<longleftrightarrow> (if is_nan a then \<not> is_nan b else \<not> is_nan b \<and> flt b a)"

fun row_number :: "string \<Rightarrow> f64 \<Rightarrow> expr \<Rightarrow> f64 option" where
  "row_number c x (ECol d) = (if d = c then Some x else None)"
| "row_number c x (ELit (LitValue (Float64 y))) = Some y"
| "row_number c x (EFun g e) = (if g = FnAbs then map_option fabs (row_number c x e) else None)"
| "row_number c x (EBin op a b) =
     Option.bind (row_number c x a) (\<lambda>u. Option.bind (row_number c x b) (\<lambda>v.
       if op = OpSub then Some (fsub u v) else if op = OpMul then Some (fmul u v) else if op = OpDiv then Some (fdiv u v) else None))"
| "row_number c x _ = None"

definition row_compare :: "string \<Rightarrow> f64 \<Rightarrow> expr \<Rightarrow> bool option" where
  "row_compare c x e =
     (case e of
        EBin op a b \<Rightarrow> Option.bind (row_number c x a) (\<lambda>u. Option.bind (row_number c x b) (\<lambda>v.
          if op = OpLt then Some (tot_gt v u) else if op = OpGt then Some (tot_gt u v) else None))
      | _ \<Rightarrow> None)"

definition row_true :: "string \<Rightarrow> f64 \<Rightarrow> expr \<Rightarrow> bool option" where
  "row_true c x e =
     (if e = never then Some False
      else case e of
        EBin OpOr a b \<Rightarrow> Option.bind (row_compare c x a) (\<lambda>u. map_option ((\<or>) u) (row_compare c x b))
      | _ \<Rightarrow> row_compare c x e)"

definition frame_filter :: "bool list \<Rightarrow> frame \<Rightarrow> frame" where
  "frame_filter bs f = \<lparr>f_height = length (filter id bs),
     f_columns = map (\<lambda>s. s\<lparr>s_cells := map snd (filter fst (zip bs (s_cells s)))\<rparr>) (f_columns f)\<rparr>"

definition cell_kept :: "string \<Rightarrow> expr \<Rightarrow> any_value \<Rightarrow> bool" where
  "cell_kept c e a = (case a of AvFloat64 x \<Rightarrow> row_true c x e = Some True | _ \<Rightarrow> False)"

definition predicate_of :: "string \<Rightarrow> outlier_stats \<Rightarrow> expr" where
  "predicate_of c st =
     (case os_method st of
        ZScore t \<Rightarrow> z_predicate c t (os_mean st) (os_std st)
      | Iqr k \<Rightarrow> iqr_predicate c (fences k (os_q1 st) (os_q3 st))
      | Mad t \<Rightarrow> mad_predicate c t (os_median st) (os_mad st))"

definition filters_floats :: "engine \<Rightarrow> bool" where
  "filters_floats E \<longleftrightarrow>
     (\<forall>p f c s st. le_collect E p = Inr f \<longrightarrow> column f c = Some s \<longrightarrow> s_dtype s = PFloat64 \<longrightarrow>
        le_collect E (LFilter p (predicate_of c st)) = Inr (frame_filter (map (cell_kept c (predicate_of c st)) (s_cells s)) f))"

definition selects_column :: "engine \<Rightarrow> bool" where
  "selects_column E \<longleftrightarrow>
     (\<forall>p f c s. le_collect E p = Inr f \<longrightarrow> column f c = Some s \<longrightarrow>
        le_collect E (LSelect p [ECol c]) = Inr \<lparr>f_height = f_height f, f_columns = [s]\<rparr>)"

definition known_stat :: "frame \<Rightarrow> expr \<Rightarrow> bool" where
  "known_stat f e \<longleftrightarrow> e = ELen \<or> (\<exists>c s. column f c = Some s \<and> s_dtype s = PFloat64 \<and>
     ((\<exists>op. e = EAgg op (ECol c) \<and> (op \<in> {AgMean, AgStd 1, AgMedian} \<or> (\<exists>q. op = AgQuantile (LitValue (Float64 q))))) \<or>
      (\<exists>m. e = EAgg AgMedian (deviation c m))))"

definition evaluates_outliers :: "engine \<Rightarrow> (frame \<Rightarrow> expr \<Rightarrow> any_value) \<Rightarrow> bool" where
  "evaluates_outliers E ev \<longleftrightarrow> limits_rows E \<and> filters_floats E \<and> selects_column E \<and> selects_values E ev known_stat \<and>
     (\<forall>f. ev f ELen = AvUInt32 (word_of_nat (f_height f))) \<and> (\<forall>f e. known_stat f e \<longrightarrow> float_of_any (ev f e) \<noteq> None)"

subsection \<open>Outliers of the rows\<close>

definition stat_of :: "(frame \<Rightarrow> expr \<Rightarrow> any_value) \<Rightarrow> data_set \<Rightarrow> expr \<Rightarrow> f64 option" where
  "stat_of ev ds e = the (float_of_any (ev (frame_of ds) e))"

definition column_stats :: "(frame \<Rightarrow> expr \<Rightarrow> any_value) \<Rightarrow> data_set \<Rightarrow> string \<Rightarrow> outlier_method \<Rightarrow> outlier_stats" where
  "column_stats ev ds c m =
     (case m of
        ZScore _ \<Rightarrow> (no_stats m)\<lparr>os_mean := stat_of ev ds (EAgg AgMean (ECol c)), os_std := stat_of ev ds (EAgg (AgStd 1) (ECol c))\<rparr>
      | Iqr k \<Rightarrow>
          (let q = (\<lambda>n. stat_of ev ds (EAgg (AgQuantile (LitValue (Float64 (fdiv (of_int64 n) (of_int64 4))))) (ECol c))); f = fences k (q 1) (q 3) in
           (no_stats m)\<lparr>os_q1 := q 1, os_q3 := q 3, os_lower := map_option fst f, os_upper := map_option snd f\<rparr>)
      | Mad _ \<Rightarrow>
          (let med = stat_of ev ds (EAgg AgMedian (ECol c)) in
           (no_stats m)\<lparr>os_median := med, os_mad := Option.bind med (\<lambda>x. stat_of ev ds (EAgg AgMedian (deviation c x)))\<rparr>))"

text \<open>Whether a value lies outside, from the statistics of the report; never when the spread is not positive.\<close>

definition is_outlier :: "outlier_stats \<Rightarrow> f64 \<Rightarrow> bool" where
  "is_outlier st x =
     (case os_method st of
        ZScore t \<Rightarrow> (case (os_mean st, os_std st) of
          (Some m, Some s) \<Rightarrow> flt (fzero False) s \<and> tot_gt (fabs (fdiv (fsub x m) s)) t | _ \<Rightarrow> False)
      | Iqr _ \<Rightarrow> (case (os_lower st, os_upper st) of (Some lo, Some hi) \<Rightarrow> tot_gt lo x \<or> tot_gt x hi | _ \<Rightarrow> False)
      | Mad t \<Rightarrow> (case (os_median st, os_mad st) of
          (Some m, Some d) \<Rightarrow> flt (fzero False) d \<and> tot_gt (fdiv (fmul mad_scale (fabs (fsub x m))) d) t | _ \<Rightarrow> False))"

definition float_values :: "value_t list \<Rightarrow> f64 list" where
  "float_values vs = List.map_filter (\<lambda>v. case v of Float64 x \<Rightarrow> Some x | _ \<Rightarrow> None) vs"

lemma predicate_outlier: "row_true c x (predicate_of c (column_stats ev ds c m)) = Some (is_outlier (column_stats ev ds c m) x)"
  by (auto simp: predicate_of_def column_stats_def is_outlier_def no_stats_def row_true_def row_compare_def never_def z_predicate_def
      iqr_predicate_def mad_predicate_def centred_def deviation_def fences_def Let_def split: outlier_method.split option.split)

subsection \<open>Counts read as floats\<close>

lemma count_exact:
  assumes "n < 2 ^ 32"
  shows "to_usize (of_int64 (int n)) = n"
proof (cases "n = 0")
  case True
  then show ?thesis by (simp add: of_int64_def round_ne_def to_usize_def is_infinite_def inf_mag_def trunc_int_def trunc_abs_def fexp_def sig_def expo_def mant_def)
next
  case False
  define m where "m = int n"
  have m: "0 < m" "m < 2 ^ 53" using assms False by (simp_all add: m_def)
  define k where "k = nat (53 - bitlen m)"
  have bl: "1 \<le> bitlen m" "bitlen m \<le> 53" "2 ^ nat (bitlen m - 1) \<le> m" using bitlen_bounds [OF m(1)] bitlen_le [OF m] by auto
  then have k: "nat (min (53 - bitlen m) (0 + 1074)) = k" "int k = 53 - bitlen m" by (simp_all add: k_def)
  note r = round_ne_exact [OF m, where e = 0, unfolded k(1)]
  have "2 ^ nat (bitlen m - 1) * 2 ^ k \<le> m * 2 ^ k" using bl(3) by simp
  moreover have "nat (bitlen m - 1) + k = 52" using k(2) bl by simp
  ultimately have lo: "2 ^ 52 \<le> m * 2 ^ k" by (simp add: power_add [symmetric])
  have hi: "m * 2 ^ k < 2 ^ 53" using r(2) by simp
  let ?x = "of_int64 m" and ?b = "(1074 - int k) * 2 ^ 52 + m * 2 ^ k"
  have x: "?x = mk False ?b" using r(1) m by (simp add: of_int64_def)
  have b: "0 \<le> ?b" "?b < inf_mag" using r(3) k(2) bl lo by simp_all
  then have mag: "mag ?x = ?b" "\<not> is_neg ?x" unfolding x using mk_fields [of ?b False] by (simp_all add: inf_mag_def)
  define a where "a = m * 2 ^ k - 2 ^ 52"
  have a: "0 \<le> a" "a < 2 ^ 52" using lo hi by (simp_all add: a_def)
  have "?b = a + (1075 - int k) * 2 ^ 52" by (simp add: a_def algebra_simps)
  then have "mag ?x = a + (1075 - int k) * 2 ^ 52" using mag(1) by simp
  then have "expo ?x = 1075 - int k" "mant ?x = m * 2 ^ k - 2 ^ 52"
    using a by (simp_all only: expo_def mant_def div_mult_self1 mod_mult_self1 div_pos_pos_trivial mod_pos_pos_trivial a_def)
  then have "sig ?x = m * 2 ^ k" "fexp ?x = - int k" using k(2) bl by (simp_all add: sig_def fexp_def)
  then have "trunc_int ?x = m" using mag(2) by (auto simp: trunc_int_def trunc_abs_def)
  moreover have "\<not> is_nan ?x" "\<not> is_infinite ?x" using b(2) by (simp_all add: is_nan_def is_infinite_def mag(1))
  ultimately show ?thesis using assms by (simp add: to_usize_def m_def)
qed

subsection \<open>The plans of a report\<close>

lemma one_row_entries:
  assumes "selects_values E ev known" "le_collect E p = Inr f" "f_columns f \<noteq> []" "distinct (map snd es)" "list_all (known f \<circ> fst) es"
  obtains df where "le_collect E (LSelect p (map named es)) = Inr df"
    "\<And>e n. (e, n) \<in> set es \<Longrightarrow> \<exists>s. column df n = Some s \<and> s_cells s = [ev f e]"
proof -
  obtain ts where ts: "length ts = length es" "le_collect E (LSelect p (map named es)) =
      Inr \<lparr>f_height = 1, f_columns = map2 (\<lambda>(e, n) t. \<lparr>s_name = n, s_dtype = t, s_cells = [ev f e]\<rparr>) es ts\<rparr>"
    using assms unfolding selects_values_def by blast
  show thesis by (rule that [OF ts(2)]) (rule entry_column [OF assms(4) ts(1), of _ _ "ev f"])
qed

lemma read_entry:
  assumes "\<exists>s. column df n = Some s \<and> s_cells s = [a]" "float_of_any a \<noteq> None"
  shows "read_f64 P df n = Ok (the (float_of_any a))"
  using assms by (auto simp: read_f64_def agg_column_def first_cell_def)

lemma frame_filter_of:
  assumes "length bs = row_count ds"
  shows "frame_filter bs (frame_of ds) = frame_of (ds\<lparr>rows := map snd (filter fst (zip bs (rows ds)))\<rparr>)"
proof -
  have "length (filter id bs) = length (filter fst (zip bs rs))" if "length bs = length rs" for rs :: "row list"
    using that by (induction bs rs rule: list_induct2) auto
  then show ?thesis using assms
    by (intro frame_eqI) (auto simp: frame_filter_def row_count_def typed_series_def zip_map2 filter_map comp_def split_beta)
qed

lemma kept_rows:
  assumes "index_of (ds_schema ds) c = Some i"
  shows "map snd (filter fst (zip (map q (column_values ds c)) (rows ds))) = filter (\<lambda>r. q (r ! i)) (rows ds)"
proof -
  have "map snd (filter fst (zip (map q (map (\<lambda>r. r ! i) rs)) rs)) = filter (\<lambda>r. q (r ! i)) rs" for rs :: "row list"
    by (induction rs) auto
  then show ?thesis by (simp add: column_values_def assms del: map_map)
qed

definition keep_outside :: "(f64 \<Rightarrow> bool) \<Rightarrow> value_t \<Rightarrow> bool" where
  "keep_outside q v = (case v of Float64 x \<Rightarrow> q x | _ \<Rightarrow> False)"

lemma filtered_holds:
  assumes E: "filters_floats E" "holds_frame E p ds" and c: "typed_column ds c TFloat64" "index_of (ds_schema ds) c = Some i"
    and q: "\<And>x. row_true c x (predicate_of c st) = Some (q x)"
  defines "out \<equiv> ds\<lparr>rows := filter (\<lambda>r. keep_outside q (r ! i)) (rows ds)\<rparr>"
  shows "holds_frame E (LFilter p (predicate_of c st)) out" "typed_column out c TFloat64" "column_values out c = filter (keep_outside q) (column_values ds c)"
proof -
  let ?e = "predicate_of c st"
  obtain s where s: "column (frame_of ds) c = Some s" "s_dtype s = PFloat64" "s_cells s = map (cell_av TFloat64) (column_values ds c)"
    using typed_column_series [OF c(1)] by (auto simp: target_dtype_def)
  have ds: "proper ds" "le_collect E p = Inr (frame_of ds)" using E(2) by (simp_all add: holds_frame_def)
  have "cell_kept c ?e (cell_av TFloat64 v) = keep_outside q v" if "v \<in> set (column_values ds c)" for v
    using typed_column_values(2) [OF c(1) that] q by (cases v) (simp_all add: cell_kept_def cell_av_def cell_to_any_def keep_outside_def)
  then have bs: "map (cell_kept c ?e) (s_cells s) = map (keep_outside q) (column_values ds c)" by (simp add: s(3))
  have "le_collect E (LFilter p ?e) = Inr (frame_filter (map (keep_outside q) (column_values ds c)) (frame_of ds))"
    using E(1) ds(2) s(1,2) q unfolding filters_floats_def bs [symmetric] by simp
  also have "\<dots> = Inr (frame_of out)"
    using typed_column_values(1) [OF c(1)] kept_rows [OF c(2)] by (simp add: frame_filter_of out_def)
  finally show "holds_frame E (LFilter p ?e) out"
    using ds(1) by (auto simp: holds_frame_def proper_def wf_ds_def list_all_iff out_def)
  then show "typed_column out c TFloat64" using c by (auto simp: typed_column_def holds_frame_def out_def)
  show "column_values out c = filter (keep_outside q) (column_values ds c)"
    by (simp add: column_values_def c(2) out_def filter_map comp_def)
qed

lemma examples_read:
  assumes "s_cells s = map (cell_av TFloat64) vs" "list_all (keep_outside q) vs"
  shows "series_to_f64_vec P s n = Ok (take n (float_values vs))"
proof -
  have "traverse (\<lambda>av. ok_or (e av) (example_float av)) (map (cell_av TFloat64) ws) =
      Inr (map (\<lambda>v. case v of Float64 x \<Rightarrow> Some x | _ \<Rightarrow> None) ws)" if "list_all (keep_outside q) ws" for ws and e :: "any_value \<Rightarrow> ingestion_error"
    using that by (induction ws) (auto simp: example_float_def cell_av_def cell_to_any_def keep_outside_def split: value_t.splits)
  moreover have "list_all (keep_outside q) (take n vs)" using assms(2) by (auto simp: list_all_iff dest: in_set_takeD)
  moreover have "List.map_filter id (map (\<lambda>v. case v of Float64 x \<Rightarrow> Some x | _ \<Rightarrow> None) (take n vs)) = take n (float_values vs)"
    using assms(2)
    by (induction vs arbitrary: n) (auto simp: float_values_def map_filter_simps keep_outside_def take_Cons split: value_t.splits nat.split)
  ultimately show ?thesis using assms(1) unfolding series_to_f64_vec_def by (simp only: take_map rmap_simps)
qed

lemma stats_read:
  assumes E: "selects_values E ev known_stat" "\<And>f e. known_stat f e \<Longrightarrow> float_of_any (ev f e) \<noteq> None"
    and holds: "holds_frame E lf ds" and c: "typed_column ds c TFloat64"
    and df: "\<And>e n. (e, n) \<in> set (stats_exprs m c) \<Longrightarrow> \<exists>s. column df n = Some s \<and> s_cells s = [ev (frame_of ds) e]"
  shows "stats_and_predicate P E lf df c m = Ok (column_stats ev ds c m, predicate_of c (column_stats ev ds c m))"
proof -
  obtain s where s: "column (frame_of ds) c = Some s" "s_dtype s = PFloat64"
    using typed_column_series [OF c] by (auto simp: target_dtype_def)
  have read: "read_f64 P df n = Ok (stat_of ev ds e)" if "(e, n) \<in> set (stats_exprs m c)" "known_stat (frame_of ds) e" for e n
    unfolding stat_of_def by (rule read_entry [OF df [OF that(1)] E(2) [OF that(2)]])
  have known: "known_stat (frame_of ds) (EAgg op (ECol c))" if "op \<in> {AgMean, AgStd 1, AgMedian} \<or> (\<exists>q. op = AgQuantile (LitValue (Float64 q)))" for op
    using that s unfolding known_stat_def by blast
  have mad: "median_deviation P E lf c med = Ok (Option.bind med (\<lambda>x. stat_of ev ds (EAgg AgMedian (deviation c x))))" for med
  proof (cases med)
    case (Some x)
    let ?e = "EAgg AgMedian (deviation c x)"
    have "known_stat (frame_of ds) ?e" using s unfolding known_stat_def by blast
    moreover obtain df' where "le_collect E (LSelect lf (map named [(?e, ''__mad'')])) = Inr df'"
      "\<And>e n. (e, n) \<in> set [(?e, ''__mad'')] \<Longrightarrow> \<exists>s. column df' n = Some s \<and> s_cells s = [ev (frame_of ds) e]"
      using one_row_entries [OF E(1), of lf "frame_of ds" "[(?e, ''__mad'')]"] holds holds_frame_columns [OF holds] \<open>known_stat _ _\<close>
      by (auto simp: holds_frame_def)
    ultimately show ?thesis using E(2) by (auto simp: median_deviation_def Some stat_of_def intro!: read_entry)
  qed (simp add: median_deviation_def)
  show ?thesis
    using read known mad
    by (cases m) (simp_all add: stats_and_predicate_def stats_exprs_def column_stats_def predicate_of_def no_stats_def Let_def)
qed

lemma kept_floats:
  "float_values (filter (keep_outside q) vs) = filter q (float_values vs)"
  "length (filter (keep_outside q) vs) = length (filter q (float_values vs))"
  by (induction vs) (auto simp: keep_outside_def float_values_def map_filter_simps split: value_t.split)

text \<open>The length of a frame of fewer than \<open>2 ^ 32\<close> rows is read exactly.\<close>

lemma length_read:
  assumes "\<exists>t. column g m = Some t \<and> s_cells t = [ev f ELen]" "f_height f < 2 ^ 32"
    and "\<And>f. ev f ELen = AvUInt32 (word_of_nat (f_height f))"
  shows "read_f64 P g m = Ok (Some (of_int64 (int (f_height f))))"
  using assms(1,2) read_entry [of g m "ev f ELen" P]
  by (auto simp: assms(3) float_of_any_def uint_word_of_int unat_of_nat take_bit_nat_eq_self uint_nat)

text \<open>The examples of a filtered frame: the first of the values kept.\<close>

lemma examples_of_kept:
  assumes E: "limits_rows E" "selects_column E" and flt: "holds_frame E (LFilter lf pred) out" "typed_column out c TFloat64"
    and kept: "column_values out c = filter (keep_outside q) vs" and lim: "k < 2 ^ 32"
  shows "outlier_examples P E lf pred c (row_count out) k = Ok (take k (filter q (float_values vs)))"
proof (cases "0 < row_count out \<and> 0 < k")
  case True
  obtain t where t: "column (frame_of out) c = Some t" "s_name t = c" "s_cells t = map (cell_av TFloat64) (column_values out c)"
    using typed_column_series [OF flt(2)] by blast
  have sel: "le_collect E (LSelect (LFilter lf pred) [ECol c]) = Inr \<lparr>f_height = row_count out, f_columns = [t]\<rparr>"
    using E(2) flt(1) t(1) by (auto simp: selects_column_def holds_frame_def)
  have "float_values (column_values out c) = filter q (float_values vs)" by (simp add: kept kept_floats)
  moreover have "list_all (keep_outside q) (column_values out c)" by (simp add: kept list_all_iff)
  then have "series_to_f64_vec P (t\<lparr>s_cells := take m (s_cells t)\<rparr>) m = Ok (take m (float_values (column_values out c)))" for m
    using examples_read [of "t\<lparr>s_cells := take m (s_cells t)\<rparr>" "take m (column_values out c)" q P m] examples_read [OF t(3), of q P m]
    by (simp add: series_to_f64_vec_def)
  ultimately show ?thesis
    using True sel E(1) lim t(2)
    by (simp add: outlier_examples_def limits_rows_def frame_head_def agg_column_def column_def unat_of_nat take_bit_nat_eq_self)
next
  case False
  have "row_count out = length (filter q (float_values vs))"
    using typed_column_values(1) [OF flt(2)] by (simp add: kept kept_floats)
  with False show ?thesis by (auto simp: outlier_examples_def)
qed

subsection \<open>Properties\<close>

text \<open>C38: For a float column of fewer than \<open>2 ^ 32\<close> rows detection succeeds: it reports the number of sampled
  rows, the number of the column's values that lie outside by the statistics it reports, and the
  first of these values in row order, up to the limit.\<close>

theorem outliers_exact:
  fixes how :: outlier_method
  assumes "evaluates_outliers E ev" "holds_frame E df ds" "typed_column ds c TFloat64" "row_count ds < 2 ^ 32" "oo_max_examples opts < 2 ^ 32"
  defines "s \<equiv> sample_rows (oo_sampling opts) ds"
  defines "xs \<equiv> filter (is_outlier (column_stats ev s c how)) (float_values (column_values s c))"
  shows "detect_outliers_frame P E df c how opts = Ok \<lparr>or_column = c, or_sampling = oo_sampling opts, or_rows = row_count s,
    or_count = length xs, or_stats = column_stats ev s c how, or_examples = take (oo_max_examples opts) xs\<rparr>"
proof -
  let ?lf = "sampled df (oo_sampling opts)" and ?st = "column_stats ev s c how" and ?pred = "predicate_of c (column_stats ev s c how)"
  have E: "limits_rows E" "filters_floats E" "selects_column E" "selects_values E ev known_stat"
    "\<And>f. ev f ELen = AvUInt32 (word_of_nat (f_height f))" "\<And>f e. known_stat f e \<Longrightarrow> float_of_any (ev f e) \<noteq> None"
    using assms(1) by (auto simp: evaluates_outliers_def)
  have holds: "holds_frame E ?lf s" unfolding s_def by (rule sampled_holds [OF E(1) assms(2)])
  then have pr: "proper s" "le_collect E ?lf = Inr (frame_of s)" by (simp_all add: holds_frame_def)
  obtain i where i: "index_of (ds_schema s) c = Some i" and col: "typed_column s c TFloat64"
    using assms(3) pr(1) by (auto simp: typed_column_def s_def)
  obtain sr where sr: "column (frame_of s) c = Some sr" "s_dtype sr = PFloat64"
    using typed_column_series [OF col] by (auto simp: target_dtype_def)
  have n: "row_count s < 2 ^ 32" unfolding s_def using sample_rows_sel(2) assms(4) by (rule le_less_trans)
  define q where "q = is_outlier ?st"
  have q: "row_true c x ?pred = Some (q x)" for x by (simp add: predicate_outlier q_def)
  define out where "out = s\<lparr>rows := filter (\<lambda>r. keep_outside q (r ! i)) (rows s)\<rparr>"
  note flt = filtered_holds [OF E(2) holds col i q, folded out_def]
  have count: "row_count out = length xs" using typed_column_values(1) [OF flt(2)] by (simp add: flt(3) kept_floats xs_def q_def)
  moreover have "row_count out < 2 ^ 32" using n by (auto simp: out_def row_count_def intro: le_less_trans [OF length_filter_le])
  ultimately have rows_out: "row_count out = length xs" "row_count out < 2 ^ 32" by simp_all
  have known: "list_all (known_stat (frame_of s) \<circ> fst) (stats_exprs how c)"
    using sr by (auto simp: stats_exprs_def known_stat_def split: outlier_method.split)
  have "distinct (map snd (stats_exprs how c))" by (simp add: stats_exprs_def split: outlier_method.split)
  from one_row_entries [OF E(4) pr(2) holds_frame_columns [OF holds] this known] obtain stats_df where
    stats_df: "le_collect E (LSelect ?lf (map named (stats_exprs how c))) = Inr stats_df"
      "\<And>e n. (e, n) \<in> set (stats_exprs how c) \<Longrightarrow> \<exists>t. column stats_df n = Some t \<and> s_cells t = [ev (frame_of s) e]"
    by blast
  have "list_all (known_stat (frame_of out) \<circ> fst) [(ELen, ''__outliers'')]" by (simp add: known_stat_def)
  then obtain count_df where count_df: "le_collect E (LSelect (LFilter ?lf ?pred) (map named [(ELen, ''__outliers'')])) = Inr count_df"
      "\<And>e n. (e, n) \<in> set [(ELen, ''__outliers'')] \<Longrightarrow> \<exists>t. column count_df n = Some t \<and> s_cells t = [ev (frame_of out) e]"
    using one_row_entries [OF E(4), of "LFilter ?lf ?pred" "frame_of out" "[(ELen, ''__outliers'')]"] flt(1) holds_frame_columns [OF flt(1)]
    by (auto simp: holds_frame_def)
  note ex = examples_of_kept [OF E(1,3) flt assms(5), of P, unfolded count, unfolded q_def, folded xs_def]
  note len = length_read [where ev = ev, OF _ _ E(5)]
  have "read_f64 P stats_df ''__rows'' = Ok (Some (of_int64 (int (row_count s))))"
    using len [OF stats_df(2) [of ELen "''__rows''"]] n by (simp add: stats_exprs_def)
  moreover have "read_f64 P count_df ''__outliers'' = Ok (Some (of_int64 (int (length xs))))"
    using len [OF count_df(2) [of ELen "''__outliers''"]] rows_out by simp
  moreover have "count_read (Some (of_int64 (int (row_count s)))) = row_count s" "count_read (Some (of_int64 (int (length xs)))) = length xs"
    using count_exact n rows_out by (simp_all add: count_read_def)
  ultimately show ?thesis
    using stats_df(1) count_df(1) ex stats_read [OF E(4,6) holds col stats_df(2), where P = P]
    by (simp add: detect_outliers_frame_def Let_def)
qed

text \<open>The statistics read unsigned integers, the examples refuse them.\<close>

lemma unsigned_examples_refused: "float_of_any (AvUInt64 v) \<noteq> None" "example_float (AvUInt64 v) = None" "example_float (AvUInt32 w) = None"
  by (simp_all add: float_of_any_def example_float_def)

subsection \<open>Witnesses\<close>

definition unit_value :: "frame \<Rightarrow> expr \<Rightarrow> any_value" where
  "unit_value f e = (if e = ELen then AvUInt32 (word_of_nat (f_height f)) else AvFloat64 (of_int64 1))"

fun named_columns :: "expr \<Rightarrow> string list" where
  "named_columns (ECol c) = [c]"
| "named_columns (EFun g e) = named_columns e"
| "named_columns (EBin op a b) = named_columns a @ named_columns b"
| "named_columns _ = []"

fun outlier_collect :: "lazy_frame \<Rightarrow> polars_error + frame" where
  "outlier_collect (LFrame f) = Inr f"
| "outlier_collect (LLimit p n) = rmap (frame_head (unat n)) (outlier_collect p)"
| "outlier_collect (LFilter p e) = rbind (outlier_collect p) (\<lambda>f.
     case named_columns e of
       [] \<Rightarrow> Inr (frame_filter [] f)
     | c # _ \<Rightarrow> (case column f c of
         Some s \<Rightarrow> Inr (frame_filter (map (cell_kept c e) (s_cells s)) f)
       | None \<Rightarrow> Inl (PeColumnNotFound c)))"
| "outlier_collect (LSelect p es) = rbind (outlier_collect p) (\<lambda>f.
     case es of
       [ECol c] \<Rightarrow> (case column f c of Some s \<Rightarrow> Inr \<lparr>f_height = f_height f, f_columns = [s]\<rparr> | None \<Rightarrow> Inl (PeColumnNotFound c))
     | _ \<Rightarrow> Inr \<lparr>f_height = 1, f_columns = map (\<lambda>e. case split_alias e of
         Some (n, e') \<Rightarrow> \<lparr>s_name = n, s_dtype = PFloat64, s_cells = [unit_value f e']\<rparr>
       | None \<Rightarrow> \<lparr>s_name = [], s_dtype = PFloat64, s_cells = []\<rparr>) es\<rparr>)"
| "outlier_collect _ = Inl (PeColumnNotFound [])"

definition outlier_engine :: engine where
  "outlier_engine = \<lparr>le_collect = outlier_collect, le_schema = (\<lambda>_. Inr [])\<rparr>"

lemma predicate_columns: "predicate_of c st = never \<or> (\<exists>cs. named_columns (predicate_of c st) = c # cs)"
  by (auto simp: predicate_of_def z_predicate_def iqr_predicate_def mad_predicate_def centred_def deviation_def
      split: outlier_method.split option.split)

lemma filter_none: "list_all Not bs \<Longrightarrow> frame_filter bs f = frame_filter [] f"
proof -
  assume "list_all Not bs"
  then have "filter id bs = []" "filter fst (zip bs xs) = []" for xs :: "any_value list"
    by (auto simp: filter_empty_conv list_all_iff dest: set_zip_leftD)
  then show ?thesis by (simp add: frame_filter_def)
qed

lemma outlier_engine_laws: "evaluates_outliers outlier_engine unit_value"
  unfolding evaluates_outliers_def
proof (intro conjI allI impI)
  show "limits_rows outlier_engine" by (simp add: limits_rows_def outlier_engine_def)
  show "filters_floats outlier_engine"
    unfolding filters_floats_def
  proof (intro allI impI)
    fix p f c s st
    assume h: "le_collect outlier_engine p = Inr f" "column f c = Some s"
    consider "predicate_of c st = never" | cs where "named_columns (predicate_of c st) = c # cs" using predicate_columns by blast
    then show "le_collect outlier_engine (LFilter p (predicate_of c st)) =
        Inr (frame_filter (map (cell_kept c (predicate_of c st)) (s_cells s)) f)"
    proof cases
      case 1
      have "list_all Not (map (cell_kept c never) (s_cells s))"
        by (simp add: list_all_iff cell_kept_def row_true_def split: any_value.split)
      from filter_none [OF this, of f] show ?thesis using h by (simp add: 1 outlier_engine_def) (simp add: never_def)
    next
      case 2
      then show ?thesis using h by (simp add: outlier_engine_def)
    qed
  qed
  show "selects_column outlier_engine" by (simp add: selects_column_def outlier_engine_def)
  show "selects_values outlier_engine unit_value known_stat"
    unfolding selects_values_def
  proof (intro allI impI exI conjI)
    fix p f and es :: "(expr \<times> string) list"
    assume h: "le_collect outlier_engine p = Inr f"
    show "length (replicate (length es) PFloat64) = length es" by simp
    have "map (\<lambda>e. case split_alias e of
         Some (n, e') \<Rightarrow> \<lparr>s_name = n, s_dtype = PFloat64, s_cells = [unit_value f e']\<rparr>
       | None \<Rightarrow> \<lparr>s_name = [], s_dtype = PFloat64, s_cells = []\<rparr>) (map named es) =
      map2 (\<lambda>(e, n) t. \<lparr>s_name = n, s_dtype = t, s_cells = [unit_value f e]\<rparr>) es (replicate (length es) PFloat64)"
      by (induction es) (auto simp: named_def)
    moreover have "map named es \<noteq> [ECol c]" for c by (cases es) (auto simp: named_def split: prod.splits)
    ultimately show "le_collect outlier_engine (LSelect p (map named es)) =
      Inr \<lparr>f_height = 1, f_columns = map2 (\<lambda>(e, n) t. \<lparr>s_name = n, s_dtype = t, s_cells = [unit_value f e]\<rparr>) es (replicate (length es) PFloat64)\<rparr>"
      using h by (auto simp: outlier_engine_def split: list.split expr.split)
  qed
  show "unit_value f ELen = AvUInt32 (word_of_nat (f_height f))" for f by (simp add: unit_value_def)
  show "float_of_any (unit_value f e) \<noteq> None" for f e by (simp add: unit_value_def float_of_any_def)
qed

definition spread_rows :: data_set where
  "spread_rows = data_set_new (schema_new [mk_field ''x'' TFloat64])
     [[Float64 (of_int64 1)], [Null], [Float64 (of_int64 3)], [Float64 (of_int64 1000)], [Float64 (of_int64 2000)]]"

lemma outliers_exact_witness:
  "\<exists>rep. detect_outliers_frame plain_polars outlier_engine (LFrame (frame_of spread_rows)) ''x'' (ZScore (of_int64 2))
      \<lparr>oo_sampling = FullSample, oo_max_examples = 1\<rparr> = Ok rep \<and> or_rows rep = 5 \<and> or_count rep = 2 \<and> or_examples rep = [of_int64 1000]"
proof -
  let ?o = "\<lparr>oo_sampling = FullSample, oo_max_examples = 1\<rparr>" and ?xs = "[of_int64 1000, of_int64 2000]"
  have proper: "proper spread_rows" by (simp add: proper_def spread_rows_def data_set_new_def schema_new_def mk_field_def wf_ds_def wf_row_def field_names_def)
  then have "holds_frame outlier_engine (LFrame (frame_of spread_rows)) spread_rows" by (simp add: holds_frame_def outlier_engine_def)
  moreover have "typed_column spread_rows ''x'' TFloat64"
    using proper by (auto simp: typed_column_def spread_rows_def data_set_new_def schema_new_def mk_field_def index_of_def)
  moreover have "row_count spread_rows < 2 ^ 32" "oo_max_examples ?o < 2 ^ 32" by (simp_all add: spread_rows_def data_set_new_def row_count_def)
  ultimately have "detect_outliers_frame plain_polars outlier_engine (LFrame (frame_of spread_rows)) ''x'' (ZScore (of_int64 2)) ?o =
    Ok \<lparr>or_column = ''x'', or_sampling = oo_sampling ?o, or_rows = row_count (sample_rows (oo_sampling ?o) spread_rows),
      or_count = length (filter (is_outlier (column_stats unit_value (sample_rows (oo_sampling ?o) spread_rows) ''x'' (ZScore (of_int64 2))))
        (float_values (column_values (sample_rows (oo_sampling ?o) spread_rows) ''x''))),
      or_stats = column_stats unit_value (sample_rows (oo_sampling ?o) spread_rows) ''x'' (ZScore (of_int64 2)),
      or_examples = take (oo_max_examples ?o) (filter (is_outlier (column_stats unit_value (sample_rows (oo_sampling ?o) spread_rows) ''x'' (ZScore (of_int64 2))))
        (float_values (column_values (sample_rows (oo_sampling ?o) spread_rows) ''x'')))\<rparr>"
    by (rule outliers_exact [OF outlier_engine_laws])
  moreover have "filter (is_outlier (column_stats unit_value (sample_rows FullSample spread_rows) ''x'' (ZScore (of_int64 2))))
      (float_values (column_values (sample_rows FullSample spread_rows) ''x'')) = ?xs"
    by code_simp
  moreover have "row_count (sample_rows FullSample spread_rows) = 5"
    by (simp add: spread_rows_def data_set_new_def row_count_def sample_rows_def)
  ultimately show ?thesis by simp
qed

end
