(* ===== verification/Py_Convert.thy ===== *)
theory Py_Convert
  imports Outliers Watermark Remote Execution
begin

text \<open>
  Conversions of the Python binding (\<open>python-wrapper/src/convert.rs\<close>). PyO3 is a parameter: an object
  answers whether it is \<open>None\<close>, is extracted to a Rust type or fails with an error of its own, is
  cast to a list or a dictionary (read by key, which never fails for a text key); objects are made
  from Rust values; calling one has an effect on a world. Calls into the crate that panic raise at
  the boundary; the panic is kept as such.
\<close>

subsection \<open>Objects\<close>

record ('o, 'e, 'w) pyo3 =
  px_none :: "'o \<Rightarrow> bool"
  px_bool :: "'o \<Rightarrow> 'e + bool"
  px_i64 :: "'o \<Rightarrow> 'e + i64"
  px_f64 :: "'o \<Rightarrow> 'e + f64"
  px_usize :: "'o \<Rightarrow> 'e + nat"
  px_u32 :: "'o \<Rightarrow> 'e + 32 word"
  px_str :: "'o \<Rightarrow> 'e + string"
  px_list :: "'o \<Rightarrow> 'e + 'o list"
  px_dict :: "'o \<Rightarrow> 'e + (string \<Rightarrow> 'o option)"
  px_call :: "'o \<Rightarrow> 'o list \<Rightarrow> 'w \<Rightarrow> ('e + 'o) \<times> 'w"
  pn_none :: 'o
  pn_bool :: "bool \<Rightarrow> 'o"
  pn_int :: "int \<Rightarrow> 'o"
  pn_float :: "f64 \<Rightarrow> 'o"
  pn_str :: "string \<Rightarrow> 'o"
  pn_list :: "'o list \<Rightarrow> 'o"
  pn_dict :: "(string \<times> 'o) list \<Rightarrow> 'o"
  px_show_error :: "ingestion_error \<Rightarrow> string"

datatype 'e py_err = PyValueError string | PyIOError string | PyRaised 'e

type_synonym ('e, 'a) py = "('e py_err, 'a) res"

definition raised :: "'e + 'a \<Rightarrow> ('e, 'a) py" where
  "raised r = (case r of Inl e \<Rightarrow> Err (PyRaised e) | Inr a \<Rightarrow> Ok a)"

lemma raised_simps [simp]: "raised (Inl e) = Err (PyRaised e)" "raised (Inr a) = Ok a"
  by (simp_all add: raised_def)

lemma raised_Inr_iff [result_simps]: "raised r = Inr a \<longleftrightarrow> r = Inr a"
  by (cases r) simp_all

abbreviation value_error :: "string \<Rightarrow> ('e, 'a) py" where
  "value_error m \<equiv> Err (PyValueError m)"

definition ingestion_err_to_py :: "('o, 'e, 'w) pyo3 \<Rightarrow> ingestion_error \<Rightarrow> 'e py_err" where
  "ingestion_err_to_py X e = (case e of IoErr m \<Rightarrow> PyIOError m | _ \<Rightarrow> PyValueError (px_show_error X e))"

definition to_py :: "('o, 'e, 'w) pyo3 \<Rightarrow> 'a result \<Rightarrow> ('e, 'a) py" where
  "to_py X r = map_err (ingestion_err_to_py X) r"

definition need :: "(string \<Rightarrow> 'o option) \<Rightarrow> string \<Rightarrow> string \<Rightarrow> ('e, 'o) py" where
  "need d k message = ok_or (PyValueError message) (d k)"

definition need_str :: "('o, 'e, 'w) pyo3 \<Rightarrow> (string \<Rightarrow> 'o option) \<Rightarrow> string \<Rightarrow> string \<Rightarrow> ('e, string) py" where
  "need_str X d k message = rbind (need d k message) (\<lambda>v. raised (px_str X v))"

text \<open>An optional key of a dictionary that changes the options.\<close>

definition opt_key :: "(string \<Rightarrow> 'o option) \<Rightarrow> string \<Rightarrow> ('o \<Rightarrow> 'a \<Rightarrow> ('e, 'a) py) \<Rightarrow> 'a \<Rightarrow> ('e, 'a) py" where
  "opt_key d k f a = (case d k of None \<Rightarrow> Ok a | Some v \<Rightarrow> f v a)"

subsection \<open>Names\<close>

definition parse_ingestion_severity :: "string \<Rightarrow> ('e, ingestion_severity) py" where
  "parse_ingestion_severity s =
     (let l = to_ascii_lowercase s in
      if l = ''info'' then Ok ingestion_severity.Info
      else if l \<in> {''warning'', ''warn''} then Ok ingestion_severity.Warning
      else if l = ''error'' then Ok ingestion_severity.Error
      else if l = ''critical'' then Ok ingestion_severity.Critical
      else value_error (''alert_at_or_above must be '' @ sq ''info'' @ '', '' @ sq ''warning'' @ '', '' @ sq ''error'' @ '', or '' @ sq ''critical''))"

definition parse_data_type :: "string \<Rightarrow> ('e, data_type) py" where
  "parse_data_type s =
     (let l = to_ascii_lowercase s in
      if l \<in> {''int64'', ''i64''} then Ok TInt64
      else if l \<in> {''float64'', ''f64'', ''double''} then Ok TFloat64
      else if l \<in> {''bool'', ''boolean''} then Ok TBool
      else if l \<in> {''utf8'', ''string'', ''str'', ''text''} then Ok TUtf8
      else value_error (''unknown data_type '' @ sq s @ ''; expected int64, float64, bool, or utf8''))"

definition parse_format :: "string \<Rightarrow> ('e, ingestion_format) py" where
  "parse_format s =
     (let l = to_ascii_lowercase s in
      if l = ''csv'' then Ok Csv
      else if l \<in> {''json'', ''ndjson''} then Ok Json
      else if l \<in> {''parquet'', ''pq''} then Ok Parquet
      else if l \<in> {''excel'', ''xlsx'', ''xls'', ''ods''} then Ok Excel
      else if l = ''xml'' then Ok Xml
      else value_error (''unknown format '' @ sq s @ ''; expected csv, json, parquet, excel, or xml''))"

definition dashes_to_underscores :: "string \<Rightarrow> string" where
  "dashes_to_underscores s = replace_char (CHR ''-'') (CHR ''_'') s"

definition parse_reduce_op :: "string \<Rightarrow> ('e, reduce_op) py" where
  "parse_reduce_op s =
     (let l = dashes_to_underscores (to_ascii_lowercase s) in
      if l = ''count'' then Ok Count
      else if l = ''sum'' then Ok Sum
      else if l = ''min'' then Ok reduce_op.Min
      else if l = ''max'' then Ok reduce_op.Max
      else if l = ''mean'' then Ok Mean
      else if l \<in> {''variance_population'', ''var_pop''} then Ok (Variance Population)
      else if l \<in> {''variance_sample'', ''var_sample''} then Ok (Variance Sample)
      else if l \<in> {''stddev_population'', ''std_pop'', ''std_dev_population''} then Ok (StdDev Population)
      else if l \<in> {''stddev_sample'', ''std_sample'', ''std_dev_sample''} then Ok (StdDev Sample)
      else if l \<in> {''sum_squares'', ''sumsq''} then Ok SumSquares
      else if l \<in> {''l2_norm'', ''l2''} then Ok L2Norm
      else if l \<in> {''count_distinct_non_null'', ''count_distinct''} then Ok CountDistinctNonNull
      else if l = ''median'' then Ok Median
      else value_error (''unknown reduce op '' @ sq s @ ''; see API.md for supported names''))"

definition parse_variance_kind :: "string \<Rightarrow> ('e, variance_kind) py" where
  "parse_variance_kind s =
     (let l = to_ascii_lowercase s in
      if l \<in> {''population'', ''pop''} then Ok Population
      else if l = ''sample'' then Ok Sample
      else value_error (''std_kind must be '' @ sq ''population'' @ '' or '' @ sq ''sample''))"

definition severity_from_py :: "string \<Rightarrow> ('e, severity) py" where
  "severity_from_py s =
     (let l = to_ascii_lowercase s in
      if l = ''info'' then Ok severity.Info
      else if l \<in> {''warn'', ''warning''} then Ok severity.Warn
      else if l = ''error'' then Ok severity.Error
      else value_error (''severity must be '' @ sq ''info'' @ '', '' @ sq ''warn'' @ '', or '' @ sq ''error''))"

subsection \<open>Schemas, values, rows\<close>

definition field_from_py :: "('o, 'e, 'w) pyo3 \<Rightarrow> 'o \<Rightarrow> ('e, field) py" where
  "field_from_py X item =
     rbind (raised (px_dict X item)) (\<lambda>d.
     rbind (need_str X d ''name'' (''schema field missing '' @ sq ''name'')) (\<lambda>name.
     rbind (need_str X d ''data_type'' (''schema field missing '' @ sq ''data_type'')) (\<lambda>dt.
     rmap (mk_field name) (parse_data_type (trim dt)))))"

definition schema_from_py :: "('o, 'e, 'w) pyo3 \<Rightarrow> 'o \<Rightarrow> ('e, schema) py" where
  "schema_from_py X obj = rbind (raised (px_list X obj)) (\<lambda>items. rmap schema_new (traverse (field_from_py X) items))"

definition py_type_name :: "data_type \<Rightarrow> string" where
  "py_type_name t = (case t of TInt64 \<Rightarrow> ''int64'' | TFloat64 \<Rightarrow> ''float64'' | TBool \<Rightarrow> ''bool'' | TUtf8 \<Rightarrow> ''utf8'')"

definition schema_to_py_list :: "('o, 'e, 'w) pyo3 \<Rightarrow> schema \<Rightarrow> 'o" where
  "schema_to_py_list X s =
     pn_list X (map (\<lambda>f. pn_dict X [(''name'', pn_str X (fname f)), (''data_type'', pn_str X (py_type_name (ftype f)))]) (sfields s))"

definition value_to_py :: "('o, 'e, 'w) pyo3 \<Rightarrow> value_t \<Rightarrow> 'o" where
  "value_to_py X v =
     (case v of
        Null \<Rightarrow> pn_none X
      | Int64 i \<Rightarrow> pn_int X (sint i)
      | Float64 f \<Rightarrow> pn_float X f
      | Bool b \<Rightarrow> pn_bool X b
      | Utf8 s \<Rightarrow> pn_str X s)"

definition value_from_py :: "('o, 'e, 'w) pyo3 \<Rightarrow> 'o \<Rightarrow> ('e, value_t) py" where
  "value_from_py X obj =
     (if px_none X obj then Ok Null
      else case px_bool X obj of Inr b \<Rightarrow> Ok (Bool b)
      | Inl _ \<Rightarrow> (case px_i64 X obj of Inr i \<Rightarrow> Ok (Int64 i)
      | Inl _ \<Rightarrow> (case px_f64 X obj of Inr f \<Rightarrow> Ok (Float64 f)
      | Inl _ \<Rightarrow> (case px_str X obj of Inr s \<Rightarrow> Ok (Utf8 s)
      | Inl _ \<Rightarrow> value_error ''value must be None, int, float, bool, or str''))))"

definition row_from_py :: "('o, 'e, 'w) pyo3 \<Rightarrow> nat \<Rightarrow> 'o \<Rightarrow> ('e, row) py" where
  "row_from_py X ncols row_any =
     rbind (raised (px_list X row_any)) (\<lambda>cells.
     if length cells \<noteq> ncols
     then value_error (''row length '' @ show_nat (length cells) @ '' does not match schema length '' @ show_nat ncols)
     else traverse (value_from_py X) cells)"

definition dataset_from_rows_py :: "('o, 'e, 'w) pyo3 \<Rightarrow> 'o \<Rightarrow> 'o \<Rightarrow> ('e, data_set) py" where
  "dataset_from_rows_py X schema_obj rows_obj =
     rbind (schema_from_py X schema_obj) (\<lambda>s.
     rbind (raised (px_list X rows_obj)) (\<lambda>items.
     rmap (data_set_new s) (traverse (row_from_py X (length (sfields s))) items)))"

subsection \<open>Options\<close>

definition excel_selection_from_py :: "('o, 'e, 'w) pyo3 \<Rightarrow> 'o \<Rightarrow> ('e, excel_sheet_selection) py" where
  "excel_selection_from_py X obj =
     rbind (raised (px_dict X obj)) (\<lambda>d.
     rbind (need_str X d ''mode'' (''excel_sheet_selection missing '' @ sq ''mode'')) (\<lambda>mode.
     let l = to_ascii_lowercase mode in
     if l = ''first'' then Ok First
     else if l \<in> {''all'', ''all_sheets''} then Ok AllSheets
     else if l = ''sheet'' then rmap Sheet (need_str X d ''name'' (''mode '' @ sq ''sheet'' @ '' requires '' @ sq ''name''))
     else if l = ''sheets''
     then
       rbind (need d ''names'' (''mode '' @ sq ''sheets'' @ '' requires '' @ sq ''names'' @ '' (list)'')) (\<lambda>names_any.
       rbind (raised (px_list X names_any)) (\<lambda>items. rmap Sheets (traverse (\<lambda>x. raised (px_str X x)) items)))
     else value_error (''excel_sheet_selection.mode must be '' @ sq ''first'' @ '', '' @ sq ''sheet'' @ '', '' @ sq ''all'' @ '', or '' @ sq ''sheets'')))"

definition ingestion_options_from_py :: "('o, 'e, 'w) pyo3 \<Rightarrow> 'o option \<Rightarrow> ('e, 'w ingestion_options) py" where
  "ingestion_options_from_py X obj =
     (case obj of
        None \<Rightarrow> Ok default_options
      | Some ob \<Rightarrow>
          rbind (raised (px_dict X ob)) (\<lambda>d.
          rbind (opt_key d ''format'' (\<lambda>v opts. rbind (raised (px_str X v)) (\<lambda>s. rmap (\<lambda>f. opts\<lparr>opt_format := Some f\<rparr>) (parse_format (trim s))))
            (default_options :: 'w ingestion_options)) (\<lambda>o1.
          rbind (opt_key d ''excel_sheet_selection'' (\<lambda>v opts. rmap (\<lambda>x. opts\<lparr>opt_excel_sheet_selection := x\<rparr>) (excel_selection_from_py X v)) o1) (\<lambda>o2.
          rbind (opt_key d ''watermark_column'' (\<lambda>v opts. rmap (\<lambda>s. opts\<lparr>opt_watermark_column := Some s\<rparr>) (raised (px_str X v))) o2) (\<lambda>o3.
          opt_key d ''watermark_exclusive_above'' (\<lambda>v opts. rmap (\<lambda>x. opts\<lparr>opt_watermark_exclusive_above := Some x\<rparr>) (value_from_py X v)) o3)))))"

subsection \<open>Validation specifications\<close>

definition needs :: "string \<Rightarrow> string \<Rightarrow> string" where
  "needs what k = what @ '' needs '' @ sq k"

text \<open>The severity of a check, read last.\<close>

definition with_severity :: "('o, 'e, 'w) pyo3 \<Rightarrow> (string \<Rightarrow> 'o option) \<Rightarrow> string \<Rightarrow> (severity \<Rightarrow> check) \<Rightarrow> ('e, check) py" where
  "with_severity X c what mk_check =
     rbind (need_str X c ''severity'' (needs what ''severity'')) (\<lambda>sev. rmap mk_check (severity_from_py sev))"

definition check_from_py :: "('o, 'e, 'w) pyo3 \<Rightarrow> 'o \<Rightarrow> ('e, check) py" where
  "check_from_py X item =
     rbind (raised (px_dict X item)) (\<lambda>c.
     rbind (need_str X c ''kind'' (''check missing '' @ sq ''kind'')) (\<lambda>kind.
     let l = to_ascii_lowercase kind; col = (\<lambda>what. need_str X c ''column'' (needs what ''column'')) in
     if l = ''not_null'' then
       rbind (col ''not_null check'') (\<lambda>n. with_severity X c ''not_null check'' (NotNull n))
     else if l = ''range_f64'' then
       rbind (col l) (\<lambda>n.
       rbind (rbind (need c ''min'' (needs l ''min'')) (\<lambda>v. raised (px_f64 X v))) (\<lambda>lo.
       rbind (rbind (need c ''max'' (needs l ''max'')) (\<lambda>v. raised (px_f64 X v))) (\<lambda>hi.
       with_severity X c l (RangeF64 n lo hi))))
     else if l = ''regex_match'' then
       rbind (col l) (\<lambda>n.
       rbind (need_str X c ''pattern'' (needs l ''pattern'')) (\<lambda>pattern.
       rbind (need_str X c ''severity'' (needs l ''severity'')) (\<lambda>sev.
       rbind (case c ''strict'' of None \<Rightarrow> Ok True | Some v \<Rightarrow> raised (px_bool X v)) (\<lambda>strict.
       rmap (\<lambda>s. RegexMatch n pattern s strict) (severity_from_py sev)))))
     else if l = ''in_set'' then
       rbind (col l) (\<lambda>n.
       rbind (need c ''values'' (needs l ''values'' @ '' list'')) (\<lambda>vals_any.
       rbind (raised (px_list X vals_any)) (\<lambda>items.
       rbind (traverse (value_from_py X) items) (\<lambda>vs. with_severity X c l (InSet n vs)))))
     else if l = ''unique'' then
       rbind (col l) (\<lambda>n. with_severity X c l (Unique n))
     else if l = ''utf8_len_chars_between'' then
       rbind (col l) (\<lambda>n.
       rbind (rbind (need c ''min_chars'' (needs l ''min_chars'')) (\<lambda>v. raised (px_u32 X v))) (\<lambda>lo.
       rbind (rbind (need c ''max_chars'' (needs l ''max_chars'')) (\<lambda>v. raised (px_u32 X v))) (\<lambda>hi.
       with_severity X c l (Utf8LenCharsBetween n lo hi))))
     else value_error (''unknown validation check kind '' @ sq kind)))"

definition validation_spec_from_py :: "('o, 'e, 'w) pyo3 \<Rightarrow> 'o \<Rightarrow> ('e, validation_spec) py" where
  "validation_spec_from_py X obj =
     rbind (raised (px_dict X obj)) (\<lambda>d.
     rbind (need d ''checks'' (''validation spec missing '' @ sq ''checks'' @ '' list'')) (\<lambda>checks_any.
     rbind (raised (px_list X checks_any)) (\<lambda>items.
     rbind (traverse (check_from_py X) items) (\<lambda>checks.
     opt_key d ''max_examples'' (\<lambda>v spec. rmap (\<lambda>n. spec\<lparr>vs_max_examples := n\<rparr>) (raised (px_usize X v))) (validation_spec_new checks)))))"

subsection \<open>Profiling and outlier options\<close>

text \<open>A sampling given as a text or as a dictionary; \<open>other_text\<close> is the outcome of a text that is not
  \<open>full\<close>. Any other object is ignored.\<close>

definition sampling_from_py :: "('o, 'e, 'w) pyo3 \<Rightarrow> (sampling_mode \<Rightarrow> ('e, sampling_mode) py) \<Rightarrow> 'o \<Rightarrow> sampling_mode \<Rightarrow> ('e, sampling_mode) py" where
  "sampling_from_py X other_text v mode =
     (case px_str X v of
        Inr s \<Rightarrow> if to_ascii_lowercase s = ''full'' then Ok FullSample else other_text mode
      | Inl _ \<Rightarrow> (case px_dict X v of
          Inr sub \<Rightarrow> (case sub ''head'' of Some n \<Rightarrow> rmap HeadSample (raised (px_usize X n)) | None \<Rightarrow> Ok mode)
        | Inl _ \<Rightarrow> Ok mode))"

definition profile_options_from_py :: "('o, 'e, 'w) pyo3 \<Rightarrow> 'o option \<Rightarrow> ('e, profile_options) py" where
  "profile_options_from_py X obj =
     (case obj of
        None \<Rightarrow> Ok default_profile_options
      | Some ob \<Rightarrow>
          rbind (raised (px_dict X ob)) (\<lambda>d.
          rbind (opt_key d ''sampling'' (\<lambda>v opts. rmap (\<lambda>m. opts\<lparr>po_sampling := m\<rparr>) (sampling_from_py X
              (\<lambda>_. value_error (''when sampling is a string, only '' @ sq ''full'' @ '' is supported; use head_rows for head sampling''))
              v (po_sampling opts))) default_profile_options) (\<lambda>o1.
          rbind (opt_key d ''head_rows'' (\<lambda>v opts. rmap (\<lambda>n. opts\<lparr>po_sampling := HeadSample n\<rparr>) (raised (px_usize X v))) o1) (\<lambda>o2.
          opt_key d ''quantiles'' (\<lambda>v opts. rbind (raised (px_list X v)) (\<lambda>items.
              rmap (\<lambda>qs. opts\<lparr>po_quantiles := qs\<rparr>) (traverse (\<lambda>x. raised (px_f64 X x)) items))) o2))))"

definition float_or :: "('o, 'e, 'w) pyo3 \<Rightarrow> (string \<Rightarrow> 'o option) \<Rightarrow> string \<Rightarrow> f64 \<Rightarrow> ('e, f64) py" where
  "float_or X d k default_value = (case d k of None \<Rightarrow> Ok default_value | Some v \<Rightarrow> raised (px_f64 X v))"

definition outlier_method_from_py :: "('o, 'e, 'w) pyo3 \<Rightarrow> 'o \<Rightarrow> ('e, outlier_method) py" where
  "outlier_method_from_py X obj =
     rbind (raised (px_dict X obj)) (\<lambda>d.
     rbind (need_str X d ''kind'' (''outlier method missing '' @ sq ''kind'')) (\<lambda>kind.
     let l = to_ascii_lowercase kind in
     if l \<in> {''z_score'', ''zscore''} then rmap ZScore (float_or X d ''threshold'' (of_int64 3))
     else if l \<in> {''iqr'', ''tukey''} then rmap Iqr (float_or X d ''k'' (fdiv (of_int64 3) (of_int64 2)))
     else if l = ''mad'' then rmap Mad (float_or X d ''threshold'' (fdiv (of_int64 7) (of_int64 2)))
     else value_error (''outlier kind must be '' @ sq ''z_score'' @ '', '' @ sq ''iqr'' @ '', or '' @ sq ''mad'')))"

definition outlier_options_from_py :: "('o, 'e, 'w) pyo3 \<Rightarrow> 'o option \<Rightarrow> ('e, outlier_options) py" where
  "outlier_options_from_py X obj =
     (case obj of
        None \<Rightarrow> Ok default_outlier_options
      | Some ob \<Rightarrow>
          rbind (raised (px_dict X ob)) (\<lambda>d.
          rbind (opt_key d ''sampling'' (\<lambda>v opts. rmap (\<lambda>m. opts\<lparr>oo_sampling := m\<rparr>) (sampling_from_py X Ok v (oo_sampling opts)))
            default_outlier_options) (\<lambda>o1.
          rbind (opt_key d ''head_rows'' (\<lambda>v opts. rmap (\<lambda>n. opts\<lparr>oo_sampling := HeadSample n\<rparr>) (raised (px_usize X v))) o1) (\<lambda>o2.
          opt_key d ''max_examples'' (\<lambda>v opts. rmap (\<lambda>n. opts\<lparr>oo_max_examples := n\<rparr>) (raised (px_usize X v))) o2))))"

subsection \<open>Execution\<close>

definition execution_options_from_py :: "('o, 'e, 'w) pyo3 \<Rightarrow> nat \<Rightarrow> 'o option \<Rightarrow> ('e, execution_options) py" where
  "execution_options_from_py X available obj =
     (case obj of
        None \<Rightarrow> Ok (default_execution_options available)
      | Some ob \<Rightarrow>
          rbind (raised (px_dict X ob)) (\<lambda>d.
          rbind (opt_key d ''num_threads'' (\<lambda>v opts.
              if px_none X v then Ok (opts\<lparr>num_threads := None\<rparr>)
              else rmap (\<lambda>n. opts\<lparr>num_threads := Some n\<rparr>) (raised (px_usize X v))) (default_execution_options available)) (\<lambda>o1.
          rbind (opt_key d ''chunk_size'' (\<lambda>v opts. rmap (\<lambda>n. opts\<lparr>chunk_size := n\<rparr>) (raised (px_usize X v))) o1) (\<lambda>o2.
          opt_key d ''max_in_flight_chunks'' (\<lambda>v opts. rmap (\<lambda>n. opts\<lparr>max_in_flight_chunks := n\<rparr>) (raised (px_usize X v))) o2))))"

text \<open>\<open>seconds\<close> is \<open>Duration::as_secs_f64\<close>.\<close>

definition metrics_snapshot_to_py :: "('o, 'e, 'w) pyo3 \<Rightarrow> (nat \<Rightarrow> f64) \<Rightarrow> metrics_snapshot \<Rightarrow> 'o" where
  "metrics_snapshot_to_py X seconds s =
     pn_dict X
       [(''run_id'', pn_int X (int (snap_run_id s))), (''rows_processed'', pn_int X (int (snap_rows_processed s))),
        (''chunks_started'', pn_int X (int (snap_chunks_started s))), (''chunks_finished'', pn_int X (int (snap_chunks_finished s))),
        (''max_active_chunks'', pn_int X (int (snap_max_active_chunks s))),
        (''throttle_wait_seconds'', pn_float X (seconds (snap_throttle_wait s))),
        (''elapsed_seconds'', case snap_elapsed s of Some e \<Rightarrow> pn_float X (seconds e) | None \<Rightarrow> pn_none X)]"

subsection \<open>Round trips\<close>

text \<open>What the objects made from Rust values answer, as documented: a float is neither a boolean nor an
  integer, a text none of the three; integers of the 64-bit range come back as themselves.\<close>

definition faithful_objects :: "('o, 'e, 'w) pyo3 \<Rightarrow> bool" where
  "faithful_objects X \<longleftrightarrow>
     px_none X (pn_none X) \<and> (\<forall>b. \<not> px_none X (pn_bool X b) \<and> px_bool X (pn_bool X b) = Inr b) \<and>
     (\<forall>i. \<not> px_none X (pn_int X (sint i)) \<and> \<not> is_ok (px_bool X (pn_int X (sint i))) \<and> px_i64 X (pn_int X (sint i)) = Inr i) \<and>
     (\<forall>f. \<not> px_none X (pn_float X f) \<and> \<not> is_ok (px_bool X (pn_float X f)) \<and> \<not> is_ok (px_i64 X (pn_float X f)) \<and> px_f64 X (pn_float X f) = Inr f) \<and>
     (\<forall>s. \<not> px_none X (pn_str X s) \<and> \<not> is_ok (px_bool X (pn_str X s)) \<and> \<not> is_ok (px_i64 X (pn_str X s)) \<and> \<not> is_ok (px_f64 X (pn_str X s)) \<and>
        px_str X (pn_str X s) = Inr s) \<and>
     (\<forall>xs. px_list X (pn_list X xs) = Inr xs) \<and> (\<forall>kvs. distinct (map fst kvs) \<longrightarrow> px_dict X (pn_dict X kvs) = Inr (map_of kvs))"

definition rows_to_py :: "('o, 'e, 'w) pyo3 \<Rightarrow> data_set \<Rightarrow> 'o" where
  "rows_to_py X ds = pn_list X (map (\<lambda>r. pn_list X (map (value_to_py X) r)) (rows ds))"

lemma value_roundtrip_py: "faithful_objects X \<Longrightarrow> value_from_py X (value_to_py X v) = Ok v"
  by (cases v) (auto simp: faithful_objects_def value_from_py_def value_to_py_def is_ok_def split: sum.splits)

lemma type_name_roundtrip: "parse_data_type (trim (py_type_name t)) = Ok t"
proof -
  have "trim (py_type_name t) = py_type_name t" by (cases t; simp add: py_type_name_def; code_simp)
  moreover have "to_ascii_lowercase (py_type_name t) = py_type_name t" by (cases t; simp add: py_type_name_def; code_simp)
  ultimately show ?thesis by (cases t) (simp_all add: parse_data_type_def py_type_name_def)
qed

lemma schema_roundtrip_py: "faithful_objects X \<Longrightarrow> schema_from_py X (schema_to_py_list X s) = Ok s"
proof -
  assume X: "faithful_objects X"
  have "field_from_py X (pn_dict X [(''name'', pn_str X (fname f)), (''data_type'', pn_str X (py_type_name (ftype f)))]) = Ok f" for f
    using X by (simp add: faithful_objects_def field_from_py_def need_str_def need_def type_name_roundtrip mk_field_def)
  then have "traverse (field_from_py X) (map (\<lambda>f. pn_dict X [(''name'', pn_str X (fname f)), (''data_type'', pn_str X (py_type_name (ftype f)))]) fs) = Inr fs" for fs
    by (induction fs) simp_all
  with X show ?thesis by (simp add: schema_from_py_def schema_to_py_list_def faithful_objects_def schema_new_def)
qed

text \<open>A dataset handed to Python as its schema and its rows, and built again from them, is the same
  dataset, when every row has one cell per column.\<close>

theorem python_roundtrip:
  assumes "faithful_objects X" "list_all (\<lambda>r. length r = length (sfields (ds_schema ds))) (rows ds)"
  shows "dataset_from_rows_py X (schema_to_py_list X (ds_schema ds)) (rows_to_py X ds) = Ok ds"
proof -
  have list: "px_list X (pn_list X xs) = Inr xs" for xs using assms(1) by (simp add: faithful_objects_def)
  have "traverse (value_from_py X) (map (value_to_py X) r) = Inr r" for r
    using value_roundtrip_py [OF assms(1)] by (induction r) simp_all
  then have "traverse (row_from_py X (length (sfields (ds_schema ds)))) (map (\<lambda>r. pn_list X (map (value_to_py X) r)) (rows ds)) = Inr (rows ds)"
    using assms(2) by (intro traverse_nthI) (auto simp: row_from_py_def list list_all_length)
  then show ?thesis
    by (simp add: dataset_from_rows_py_def rows_to_py_def schema_roundtrip_py [OF assms(1)] list data_set_new_def)
qed

text \<open>Objects as a datatype, and extraction as PyO3 documents it: an integer object is extracted to a 64-bit
  integer when it fits, and to a float in any case.\<close>

datatype object = ONone | OBool bool | OInt int | OFloat f64 | OStr string | OList "object list" | ODict "(string \<times> object) list"

definition plain_pyo3 :: "(object, unit, unit) pyo3" where
  "plain_pyo3 = \<lparr>
     px_none = (\<lambda>x. case x of ONone \<Rightarrow> True | _ \<Rightarrow> False),
     px_bool = (\<lambda>x. case x of OBool b \<Rightarrow> Inr b | _ \<Rightarrow> Inl ()),
     px_i64 = (\<lambda>x. case x of OInt i \<Rightarrow> if sint (word_of_int i :: i64) = i then Inr (word_of_int i) else Inl () | _ \<Rightarrow> Inl ()),
     px_f64 = (\<lambda>x. case x of OFloat f \<Rightarrow> Inr f | OInt i \<Rightarrow> Inr (of_int64 i) | _ \<Rightarrow> Inl ()),
     px_usize = (\<lambda>x. case x of OInt i \<Rightarrow> if 0 \<le> i then Inr (nat i) else Inl () | _ \<Rightarrow> Inl ()),
     px_u32 = (\<lambda>x. case x of OInt i \<Rightarrow> if 0 \<le> i \<and> i < 2 ^ 32 then Inr (word_of_int i) else Inl () | _ \<Rightarrow> Inl ()),
     px_str = (\<lambda>x. case x of OStr s \<Rightarrow> Inr s | _ \<Rightarrow> Inl ()),
     px_list = (\<lambda>x. case x of OList xs \<Rightarrow> Inr xs | _ \<Rightarrow> Inl ()),
     px_dict = (\<lambda>x. case x of ODict kvs \<Rightarrow> Inr (map_of kvs) | _ \<Rightarrow> Inl ()),
     px_call = (\<lambda>_ _ w. (Inr ONone, w)),
     pn_none = ONone, pn_bool = OBool, pn_int = OInt, pn_float = OFloat, pn_str = OStr, pn_list = OList, pn_dict = ODict,
     px_show_error = (\<lambda>_. [])\<rparr>"

lemma plain_faithful: "faithful_objects plain_pyo3"
  by (simp add: faithful_objects_def plain_pyo3_def is_ok_def)

theorem python_roundtrip_witness:
  "dataset_from_rows_py plain_pyo3 (schema_to_py_list plain_pyo3 (ds_schema sample_ds)) (rows_to_py plain_pyo3 sample_ds) = Ok sample_ds
   \<and> rows sample_ds \<noteq> []"
proof -
  have "list_all (\<lambda>r. length r = length (sfields (ds_schema sample_ds))) (rows sample_ds)" "rows sample_ds \<noteq> []" by code_simp+
  with python_roundtrip [OF plain_faithful] show ?thesis by blast
qed

text \<open>An integer beyond 64 bits is not refused: it comes back as a float, a text of any kind stays a text,
  and a list is no value.\<close>

lemma large_integer_becomes_float:
  "value_from_py plain_pyo3 (OInt (2 ^ 63)) = Ok (Float64 (of_int64 (2 ^ 63)))"
  "value_from_py plain_pyo3 (OInt (2 ^ 63 - 1)) = Ok (Int64 (word_of_int (2 ^ 63 - 1)))"
  "value_from_py plain_pyo3 (OList []) = value_error ''value must be None, int, float, bool, or str''"
  by (simp_all add: value_from_py_def plain_pyo3_def)

end
