(* ===== verification/Py_Engine.thy ===== *)
theory Py_Engine
  imports Py_Convert
begin

text \<open>
  Python callables inside the library (\<open>python-wrapper/src/observer_bridge.rs\<close>, the class
  \<open>ExecutionEngine\<close> and the functions \<open>processing_filter\<close> and \<open>processing_map\<close> of \<open>lib.rs\<close>): observers
  of ingestion and execution, and predicates and mappers over rows. A parallel run shares one error
  slot among the rows; its steps are the accesses to that slot and the calls, in any interleaving. A
  call answers with anything the callable answers in some world, since others run between.
  Appending to a new Python list does not fail.
\<close>

subsection \<open>Labels\<close>

definition ingestion_format_label :: "ingestion_format \<Rightarrow> string" where
  "ingestion_format_label f =
     (case f of Csv \<Rightarrow> ''csv'' | Json \<Rightarrow> ''json'' | Parquet \<Rightarrow> ''parquet'' | Excel \<Rightarrow> ''excel'' | Xml \<Rightarrow> ''xml'')"

definition severity_str :: "ingestion_severity \<Rightarrow> string" where
  "severity_str s =
     (case s of ingestion_severity.Info \<Rightarrow> ''info'' | ingestion_severity.Warning \<Rightarrow> ''warning''
      | ingestion_severity.Error \<Rightarrow> ''error'' | ingestion_severity.Critical \<Rightarrow> ''critical'')"

definition kind_debug :: "variance_kind \<Rightarrow> string" where
  "kind_debug k = (case k of Population \<Rightarrow> ''(Population)'' | Sample \<Rightarrow> ''(Sample)'')"

definition reduce_op_label :: "reduce_op \<Rightarrow> string" where
  "reduce_op_label r =
     (case r of Count \<Rightarrow> ''Count'' | Sum \<Rightarrow> ''Sum'' | reduce_op.Min \<Rightarrow> ''Min'' | reduce_op.Max \<Rightarrow> ''Max'' | Mean \<Rightarrow> ''Mean''
      | Variance k \<Rightarrow> ''Variance'' @ kind_debug k | StdDev k \<Rightarrow> ''StdDev'' @ kind_debug k
      | SumSquares \<Rightarrow> ''SumSquares'' | L2Norm \<Rightarrow> ''L2Norm'' | CountDistinctNonNull \<Rightarrow> ''CountDistinctNonNull''
      | Median \<Rightarrow> ''Median'')"

subsection \<open>Ingestion observers\<close>

definition ctx_to_pydict :: "('o, 'e, 'w) pyo3 \<Rightarrow> ingestion_context \<Rightarrow> 'o" where
  "ctx_to_pydict X ctx =
     pn_dict X [(''path'', pn_str X (ctx_path ctx)), (''format'', pn_str X (ingestion_format_label (ctx_format ctx)))]"

record 'o py_observer =
  pb_on_success :: "'o option"
  pb_on_failure :: "'o option"
  pb_on_alert :: "'o option"

definition take_cb :: "('o, 'e, 'w) pyo3 \<Rightarrow> (string \<Rightarrow> 'o option) \<Rightarrow> string \<Rightarrow> 'o option" where
  "take_cb X d k = (case d k of None \<Rightarrow> None | Some x \<Rightarrow> if px_none X x then None else Some x)"

definition observer_from_pydict :: "('o, 'e, 'w) pyo3 \<Rightarrow> (string \<Rightarrow> 'o option) \<Rightarrow> 'o py_observer" where
  "observer_from_pydict X d =
     \<lparr>pb_on_success = take_cb X d ''on_success'', pb_on_failure = take_cb X d ''on_failure'', pb_on_alert = take_cb X d ''on_alert''\<rparr>"

text \<open>The outcome of an observer's call is ignored.\<close>

definition call_ignored :: "('o, 'e, 'w) pyo3 \<Rightarrow> 'o \<Rightarrow> 'o list \<Rightarrow> 'w \<Rightarrow> 'w" where
  "call_ignored X cb args w = snd (px_call X cb args w)"

definition failure_args :: "('o, 'e, 'w) pyo3 \<Rightarrow> ingestion_context \<Rightarrow> ingestion_severity \<Rightarrow> ingestion_error \<Rightarrow> 'o list" where
  "failure_args X ctx sev e = [ctx_to_pydict X ctx, pn_str X (severity_str sev), pn_str X (px_show_error X e)]"

definition py_on_success :: "('o, 'e, 'w) pyo3 \<Rightarrow> 'o py_observer \<Rightarrow> ingestion_context \<Rightarrow> ingestion_stats \<Rightarrow> 'w \<Rightarrow> 'w" where
  "py_on_success X b ctx stats w =
     (case pb_on_success b of
        None \<Rightarrow> w
      | Some cb \<Rightarrow> call_ignored X cb [ctx_to_pydict X ctx, pn_dict X [(''rows'', pn_int X (int (st_rows stats)))]] w)"

definition py_on_failure ::
  "('o, 'e, 'w) pyo3 \<Rightarrow> 'o py_observer \<Rightarrow> ingestion_context \<Rightarrow> ingestion_severity \<Rightarrow> ingestion_error \<Rightarrow> 'w \<Rightarrow> 'w" where
  "py_on_failure X b ctx sev e w =
     (case pb_on_failure b of None \<Rightarrow> w | Some cb \<Rightarrow> call_ignored X cb (failure_args X ctx sev e) w)"

definition py_on_alert ::
  "('o, 'e, 'w) pyo3 \<Rightarrow> 'o py_observer \<Rightarrow> ingestion_context \<Rightarrow> ingestion_severity \<Rightarrow> ingestion_error \<Rightarrow> 'w \<Rightarrow> 'w" where
  "py_on_alert X b ctx sev e w =
     (case pb_on_alert b of
        Some cb \<Rightarrow> call_ignored X cb (failure_args X ctx sev e) w
      | None \<Rightarrow> (case pb_on_failure b of Some cb \<Rightarrow> call_ignored X cb (failure_args X ctx sev e) w | None \<Rightarrow> w))"

definition py_ingestion_observer :: "('o, 'e, 'w) pyo3 \<Rightarrow> 'o py_observer \<Rightarrow> 'w observer" where
  "py_ingestion_observer X b =
     \<lparr>on_success = py_on_success X b, on_failure = py_on_failure X b, on_alert = py_on_alert X b\<rparr>"

definition apply_ingestion_observer_options ::
  "('o, 'e, 'w) pyo3 \<Rightarrow> (string \<Rightarrow> 'o option) \<Rightarrow> 'w ingestion_options \<Rightarrow> ('e, 'w ingestion_options) py" where
  "apply_ingestion_observer_options X d opts =
     rbind (opt_key d ''alert_at_or_above'' (\<lambda>v o0. rbind (raised (px_str X v)) (\<lambda>s.
         rmap (\<lambda>sev. o0\<lparr>opt_alert_at_or_above := sev\<rparr>) (parse_ingestion_severity s))) opts) (\<lambda>o1.
     opt_key d ''observer'' (\<lambda>v o0.
         if px_none X v then Ok o0
         else rmap (\<lambda>od. o0\<lparr>opt_observer := Some (py_ingestion_observer X (observer_from_pydict X od))\<rparr>) (raised (px_dict X v))) o1)"

definition merge_ingestion_options :: "('o, 'e, 'w) pyo3 \<Rightarrow> 'o option \<Rightarrow> ('e, 'w ingestion_options) py" where
  "merge_ingestion_options X options =
     rbind (ingestion_options_from_py X options) (\<lambda>opts.
     case options of
       None \<Rightarrow> Ok opts
     | Some ob \<Rightarrow> (case px_dict X ob of Inr d \<Rightarrow> apply_ingestion_observer_options X d opts | Inl _ \<Rightarrow> Ok opts))"

subsection \<open>The execution engine\<close>

definition execution_event_to_pydict :: "('o, 'e, 'w) pyo3 \<Rightarrow> (nat \<Rightarrow> f64) \<Rightarrow> execution_event \<Rightarrow> 'o" where
  "execution_event_to_pydict X seconds event =
     (let kind = (\<lambda>k. (''kind'', pn_str X k)) in
      pn_dict X (case event of
        RunStarted \<Rightarrow> [kind ''run_started'']
      | ThrottleWaited d \<Rightarrow> [kind ''throttle_waited'', (''duration_seconds'', pn_float X (seconds d))]
      | ChunkStarted start n \<Rightarrow> [kind ''chunk_started'', (''start_row'', pn_int X (int start)), (''row_count'', pn_int X (int n))]
      | ChunkFinished n \<Rightarrow> [kind ''chunk_finished'', (''output_rows'', pn_int X (int n))]
      | ReduceStarted c r \<Rightarrow> [kind ''reduce_started'', (''column'', pn_str X c), (''op'', pn_str X (reduce_op_label r))]
      | ReduceFinished v \<Rightarrow> [kind ''reduce_finished'', (''result'', case v of None \<Rightarrow> pn_none X | Some x \<Rightarrow> value_to_py X x)]
      | RunFinished e m \<Rightarrow> [kind ''run_finished'', (''elapsed_seconds'', pn_float X (seconds e)),
          (''metrics'', metrics_snapshot_to_py X seconds m)]))"

text \<open>The engine's observer, when one was given.\<close>

definition py_on_event :: "('o, 'e, 'w) pyo3 \<Rightarrow> (nat \<Rightarrow> f64) \<Rightarrow> 'o option \<Rightarrow> execution_event \<Rightarrow> 'w \<Rightarrow> 'w" where
  "py_on_event X seconds callback event w =
     (case callback of None \<Rightarrow> w | Some cb \<Rightarrow> call_ignored X cb [execution_event_to_pydict X seconds event] w)"

definition py_engine_new ::
  "('o, 'e, 'w) pyo3 \<Rightarrow> nat \<Rightarrow> 'o option \<Rightarrow> 'o option \<Rightarrow> ('e, execution_engine \<times> 'o option) py" where
  "py_engine_new X available options on_execution_event =
     rbind (execution_options_from_py X available options) (\<lambda>opts.
     rmap (\<lambda>e. (e, on_execution_event)) (to_py X (engine_new available opts)))"

text \<open>The events before a panic have been delivered.\<close>

definition py_engine_reduce ::
  "('o, 'e, 'w) pyo3 \<Rightarrow> (nat \<Rightarrow> f64) \<Rightarrow> bool \<Rightarrow> nat \<Rightarrow> nat \<Rightarrow> 'o option \<Rightarrow> data_set \<Rightarrow> string \<Rightarrow> string \<Rightarrow> metrics \<Rightarrow> 'w \<Rightarrow>
   ('e, 'o \<times> metrics) py \<times> 'w" where
  "py_engine_reduce X seconds checks ns1 ns2 callback ds c oper m w =
     (case parse_reduce_op oper of
        Inl e \<Rightarrow> (Inl e, w)
      | Inr rop \<Rightarrow>
          (case engine_reduce checks ns1 ns2 ds c rop m of
             Inl e \<Rightarrow> (Inl (map_fault (ingestion_err_to_py X) e), fold (py_on_event X seconds callback) [RunStarted, ReduceStarted c rop] w)
           | Inr (out, m', evs) \<Rightarrow>
               (Ok (case out of None \<Rightarrow> pn_none X | Some v \<Rightarrow> value_to_py X v, m'), fold (py_on_event X seconds callback) evs w)))"

definition py_metrics_snapshot :: "('o, 'e, 'w) pyo3 \<Rightarrow> (nat \<Rightarrow> f64) \<Rightarrow> metrics \<Rightarrow> 'o" where
  "py_metrics_snapshot X seconds m = metrics_snapshot_to_py X seconds (snapshot m)"

subsection \<open>Predicates and mappers\<close>

definition row_to_py :: "('o, 'e, 'w) pyo3 \<Rightarrow> row \<Rightarrow> 'o" where
  "row_to_py X r = pn_list X (map (value_to_py X) r)"

definition filter_answer :: "('o, 'e, 'w) pyo3 \<Rightarrow> 'e + 'o \<Rightarrow> ('e, bool) py" where
  "filter_answer X r = rbind (raised r) (\<lambda>ob. raised (px_bool X ob))"

text \<open>\<open>noun\<close> ends the message about the length: the two mappers word it differently.\<close>

definition map_answer :: "('o, 'e, 'w) pyo3 \<Rightarrow> nat \<Rightarrow> string \<Rightarrow> 'e + 'o \<Rightarrow> ('e, row) py" where
  "map_answer X ncols noun r =
     rbind (raised r) (\<lambda>new_row.
     case px_list X new_row of
       Inl _ \<Rightarrow> value_error ''mapper must return a list of cell values''
     | Inr cells \<Rightarrow>
         if length cells \<noteq> ncols
         then value_error (''mapper returned length '' @ show_nat (length cells) @ '', expected '' @ show_nat ncols @ noun)
         else traverse (value_from_py X) cells)"

text \<open>The sequential functions: the first error ends the loop.\<close>

definition call_row :: "('o, 'e, 'w) pyo3 \<Rightarrow> ('e + 'o \<Rightarrow> ('e, 'a) py) \<Rightarrow> 'o \<Rightarrow> row \<Rightarrow> ('w, 'e py_err, 'a) io" where
  "call_row X answer callee r = (\<lambda>w. case px_call X callee [row_to_py X r] w of (res, w') \<Rightarrow> (answer res, w'))"

definition kept_rows :: "row list \<Rightarrow> bool list \<Rightarrow> row list" where
  "kept_rows rs keeps = map fst (filter snd (zip rs keeps))"

definition processing_filter :: "('o, 'e, 'w) pyo3 \<Rightarrow> data_set \<Rightarrow> 'o \<Rightarrow> ('w, 'e py_err, data_set) io" where
  "processing_filter X ds pred =
     io_bind (io_traverse (call_row X (filter_answer X) pred) (rows ds)) (\<lambda>keeps.
     io_ok (data_set_new (ds_schema ds) (kept_rows (rows ds) keeps)))"

definition processing_map :: "('o, 'e, 'w) pyo3 \<Rightarrow> data_set \<Rightarrow> 'o \<Rightarrow> ('w, 'e py_err, data_set) io" where
  "processing_map X ds mapper =
     io_bind (io_traverse (call_row X (map_answer X (length (sfields (ds_schema ds))) '' columns'') mapper) (rows ds)) (\<lambda>out.
     io_ok (data_set_new (ds_schema ds) out))"


subsection \<open>Parallel calls with one error slot\<close>

datatype 'a row_phase = Waiting | Calling | Returned 'a

record ('e, 'a) par_state =
  par_err :: "'e py_err option"
  par_rows :: "'a row_phase list"

text \<open>\<open>answers r x\<close>: the callable may answer \<open>x\<close> for the row. \<open>fallback\<close> is what the closure returns after an
  error: \<open>false\<close> for a predicate, a row of nulls for a mapper.\<close>

inductive par_step :: "(row \<Rightarrow> ('e, 'a) py \<Rightarrow> bool) \<Rightarrow> 'a \<Rightarrow> row list \<Rightarrow> ('e, 'a) par_state \<Rightarrow> ('e, 'a) par_state \<Rightarrow> bool"
  for answers fallback rs where
  skip: "i < length rs \<Longrightarrow> par_rows s ! i = Waiting \<Longrightarrow> par_err s \<noteq> None \<Longrightarrow>
     par_step answers fallback rs s (s\<lparr>par_rows := (par_rows s)[i := Returned fallback]\<rparr>)"
| enter: "i < length rs \<Longrightarrow> par_rows s ! i = Waiting \<Longrightarrow> par_err s = None \<Longrightarrow>
     par_step answers fallback rs s (s\<lparr>par_rows := (par_rows s)[i := Calling]\<rparr>)"
| returns: "i < length rs \<Longrightarrow> par_rows s ! i = Calling \<Longrightarrow> answers (rs ! i) (Ok a) \<Longrightarrow>
     par_step answers fallback rs s (s\<lparr>par_rows := (par_rows s)[i := Returned a]\<rparr>)"
| raises: "i < length rs \<Longrightarrow> par_rows s ! i = Calling \<Longrightarrow> answers (rs ! i) (Err e) \<Longrightarrow>
     par_step answers fallback rs s (s\<lparr>par_err := Some e, par_rows := (par_rows s)[i := Returned fallback]\<rparr>)"

definition par_init :: "row list \<Rightarrow> ('e, 'a) par_state" where
  "par_init rs = \<lparr>par_err = None, par_rows = replicate (length rs) Waiting\<rparr>"

definition par_reachable :: "(row \<Rightarrow> ('e, 'a) py \<Rightarrow> bool) \<Rightarrow> 'a \<Rightarrow> row list \<Rightarrow> ('e, 'a) par_state \<Rightarrow> bool" where
  "par_reachable answers fallback rs = (par_step answers fallback rs)\<^sup>*\<^sup>* (par_init rs)"

fun has_returned :: "'a row_phase \<Rightarrow> bool" where
  "has_returned (Returned _) = True"
| "has_returned _ = False"

definition par_over :: "('e, 'a) par_state \<Rightarrow> bool" where
  "par_over s \<longleftrightarrow> list_all has_returned (par_rows s)"

fun returned_or :: "'a \<Rightarrow> 'a row_phase \<Rightarrow> 'a" where
  "returned_or d (Returned a) = a"
| "returned_or d _ = d"

definition par_result :: "'a \<Rightarrow> ('a list \<Rightarrow> 'b) \<Rightarrow> ('e, 'a) par_state \<Rightarrow> ('e, 'b) py" where
  "par_result fallback f s =
     (case par_err s of Some e \<Rightarrow> Err e | None \<Rightarrow> Ok (f (map (returned_or fallback) (par_rows s))))"

definition may_answer :: "('o, 'e, 'w) pyo3 \<Rightarrow> ('e + 'o \<Rightarrow> ('e, 'a) py) \<Rightarrow> 'o \<Rightarrow> row \<Rightarrow> ('e, 'a) py \<Rightarrow> bool" where
  "may_answer X answer callee r x \<longleftrightarrow> (\<exists>w. answer (fst (px_call X callee [row_to_py X r] w)) = x)"

text \<open>The methods, after all rows; the chunks are put together in the order of the rows (as
  \<open>filter_parallel_correct\<close> shows of the engine).\<close>

definition py_filter_parallel :: "data_set \<Rightarrow> ('e, bool) par_state \<Rightarrow> ('e, data_set) py" where
  "py_filter_parallel ds s = par_result False (\<lambda>keeps. data_set_new (ds_schema ds) (kept_rows (rows ds) keeps)) s"

definition null_row :: "data_set \<Rightarrow> row" where
  "null_row ds = replicate (length (sfields (ds_schema ds))) Null"

definition py_map_parallel :: "data_set \<Rightarrow> ('e, row) par_state \<Rightarrow> ('e, data_set) py" where
  "py_map_parallel ds s = par_result (null_row ds) (data_set_new (ds_schema ds)) s"

subsection \<open>What the slot shows\<close>

definition par_inv :: "(row \<Rightarrow> ('e, 'a) py \<Rightarrow> bool) \<Rightarrow> row list \<Rightarrow> ('e, 'a) par_state \<Rightarrow> bool" where
  "par_inv answers rs s \<longleftrightarrow>
     length (par_rows s) = length rs \<and>
     (case par_err s of
        None \<Rightarrow> \<forall>i<length rs. \<forall>a. par_rows s ! i = Returned a \<longrightarrow> answers (rs ! i) (Ok a)
      | Some e \<Rightarrow> \<exists>r\<in>set rs. answers r (Err e))"

lemma par_inv_init: "par_inv answers rs (par_init rs)"
  by (simp add: par_inv_def par_init_def)

lemma par_inv_step: "par_step answers fallback rs s s' \<Longrightarrow> par_inv answers rs s \<Longrightarrow> par_inv answers rs s'"
  by (induction rule: par_step.induct) (auto simp: par_inv_def nth_list_update split: option.splits intro: nth_mem)

lemma par_reachable_inv: "par_reachable answers fallback rs s \<Longrightarrow> par_inv answers rs s"
  unfolding par_reachable_def by (induction rule: rtranclp_induct) (auto intro: par_inv_init par_inv_step)

text \<open>Every row makes at most two steps, and no row waits for another one.\<close>

fun steps_left :: "'a row_phase \<Rightarrow> nat" where
  "steps_left Waiting = 2"
| "steps_left Calling = 1"
| "steps_left (Returned _) = 0"

definition par_measure :: "('e, 'a) par_state \<Rightarrow> nat" where
  "par_measure s = sum_list (map steps_left (par_rows s))"

lemma sum_list_update_less:
  fixes f :: "'a \<Rightarrow> nat"
  assumes "i < length xs" "f y < f (xs ! i)"
  shows "sum_list (map f (xs[i := y])) < sum_list (map f xs)"
  using assms by (induction xs arbitrary: i) (auto split: nat.splits)

lemma par_step_decreases:
  assumes "par_step answers fallback rs s s'" "length (par_rows s) = length rs"
  shows "par_measure s' < par_measure s"
  using assms by (induction rule: par_step.induct) (auto simp: par_measure_def intro!: sum_list_update_less)

lemma par_progress:
  assumes "par_inv answers rs s" "\<not> par_over s" "\<And>r. r \<in> set rs \<Longrightarrow> \<exists>a. answers r (Ok a) \<or> (\<exists>e. answers r (Err e))"
  shows "\<exists>s'. par_step answers fallback rs s s'"
proof -
  from assms obtain i where i: "i < length rs" "\<not> has_returned (par_rows s ! i)"
    by (auto simp: par_over_def par_inv_def list_all_length)
  show ?thesis
  proof (cases "par_rows s ! i")
    case Waiting
    with i show ?thesis by (cases "par_err s") (blast intro: par_step.intros)+
  next
    case Calling
    with i assms(3) [OF nth_mem [OF i(1)]] show ?thesis by (blast intro: par_step.intros)
  qed (use i in simp)
qed

lemma par_completes:
  assumes "\<And>r. r \<in> set rs \<Longrightarrow> \<exists>a. answers r (Ok a) \<or> (\<exists>e. answers r (Err e))"
  shows "\<exists>s. par_reachable answers fallback rs s \<and> par_over s"
proof -
  have "par_reachable answers fallback rs s \<Longrightarrow> \<exists>s'. par_reachable answers fallback rs s' \<and> par_over s'"
    for s :: "('b, 'a) par_state"
  proof (induction "par_measure s" arbitrary: s rule: less_induct)
    case less
    show ?case
    proof (cases "par_over s")
      case False
      note inv = par_reachable_inv [OF less.prems]
      from par_progress [OF inv False assms] obtain s' where s': "par_step answers fallback rs s s'" by blast
      moreover from this less.prems have "par_reachable answers fallback rs s'"
        by (auto simp: par_reachable_def)
      moreover have "par_measure s' < par_measure s"
        using par_step_decreases [OF s'] inv by (simp add: par_inv_def)
      ultimately show ?thesis using less.hyps by blast
    qed (use less.prems in blast)
  qed
  then show ?thesis by (auto simp: par_reachable_def)
qed


subsection \<open>Agreement with the sequential functions\<close>

lemma io_traverse_independent:
  assumes "\<And>r w. r \<in> set rs \<Longrightarrow> fst (f r w) = g r"
  shows "fst (io_traverse f rs w) = traverse g rs"
  using assms
proof (induction rs arbitrary: w)
  case (Cons r rs)
  then have "fst (f r w) = g r" and IH: "fst (io_traverse f rs u) = traverse g rs" for u by simp_all
  then show ?case
  proof (cases "f r w")
    case (Pair a u)
    with \<open>fst (f r w) = g r\<close> have "g r = a" by simp
    with Pair IH [of u] show ?thesis
      by (cases a; cases "io_traverse f rs u"; cases "fst (io_traverse f rs u)") (simp_all add: io_bind_def)
  qed
qed simp

text \<open>When every row has one possible answer, the slot ends empty exactly when no row raises.\<close>

lemma par_result_exact:
  assumes "par_reachable answers fallback rs s" "par_over s"
    and "\<And>r x. r \<in> set rs \<Longrightarrow> answers r x \<Longrightarrow> x = g r"
  shows "traverse g rs = Ok vs \<Longrightarrow> par_result fallback f s = Ok (f vs)"
    and "traverse g rs = Inl e \<Longrightarrow> \<exists>r\<in>set rs. \<exists>e. g r = Err e \<and> par_result fallback f s = Err e"
proof -
  note inv = par_reachable_inv [OF assms(1)]
  have len: "length (par_rows s) = length rs" using inv by (simp add: par_inv_def)
  have ok: "traverse g rs = Ok (map (returned_or fallback) (par_rows s))" if "par_err s = None"
  proof (rule traverse_nthI)
    fix i assume i: "i < length rs"
    with assms(2) len obtain a where a: "par_rows s ! i = Returned a"
      by (auto simp: par_over_def list_all_length elim!: has_returned.elims)
    with inv that i have "answers (rs ! i) (Ok a)" by (auto simp: par_inv_def)
    with assms(3) i a len show "g (rs ! i) = Inr (map (returned_or fallback) (par_rows s) ! i)" by fastforce
  qed (simp add: len)
  have bad: "\<exists>r\<in>set rs. g r = Err e" if "par_err s = Some e" for e
    using inv that assms(3) by (fastforce simp: par_inv_def)
  show "par_result fallback f s = Ok (f vs)" if tr: "traverse g rs = Ok vs"
  proof (cases "par_err s")
    case None
    with ok tr show ?thesis by (simp add: par_result_def)
  next
    case (Some e)
    with bad obtain r where "r \<in> set rs" "g r = Err e" by blast
    moreover from tr have "\<forall>r\<in>set rs. is_ok (g r)" by (metis is_ok_simps(2) traverse_is_ok)
    ultimately show ?thesis by force
  qed
  show "\<exists>r\<in>set rs. \<exists>e. g r = Err e \<and> par_result fallback f s = Err e" if "traverse g rs = Inl e"
  proof (cases "par_err s")
    case None
    with ok that show ?thesis by simp
  next
    case (Some e')
    with bad show ?thesis by (auto simp: par_result_def)
  qed
qed

lemma kept_rows_map: "kept_rows rs (map p rs) = filter p rs"
  by (induction rs) (simp_all add: kept_rows_def)

text \<open>A callable whose answer for a row does not depend on the world.\<close>

definition answers_alike :: "('o, 'e, 'w) pyo3 \<Rightarrow> 'o \<Rightarrow> (row \<Rightarrow> 'e + 'o) \<Rightarrow> row list \<Rightarrow> bool" where
  "answers_alike X callee ans rs \<longleftrightarrow> (\<forall>r\<in>set rs. \<forall>w. fst (px_call X callee [row_to_py X r] w) = ans r)"

lemma call_row_alike:
  assumes "answers_alike X callee ans rs"
  shows "fst (io_traverse (call_row X answer callee) rs w) = traverse (\<lambda>r. answer (ans r)) rs"
proof (rule io_traverse_independent)
  fix r u assume "r \<in> set rs"
  with assms show "fst (call_row X answer callee r u) = answer (ans r)"
    by (simp add: call_row_def answers_alike_def split: prod.splits) (metis fst_conv)
qed

lemma may_answer_alike: "answers_alike X callee ans rs \<Longrightarrow> r \<in> set rs \<Longrightarrow> may_answer X answer callee r x \<Longrightarrow> x = answer (ans r)"
  by (auto simp: may_answer_def answers_alike_def)

lemma fst_io_bind_ok: "fst (io_bind m (\<lambda>a. io_ok (f a)) w) = rmap f (fst (m w))"
  by (cases "m w"; cases "fst (m w)") (simp_all add: io_bind_def)

text \<open>C39: A predicate that answers alike in every world, run by the engine with its shared error slot:
  in every interleaving, once all rows have returned, the call returns the dataset the sequential filter
  returns, which is the dataset filtered by the answers; or, when some row raises, an error one of the rows
  raised.\<close>

theorem python_filter_agrees:
  assumes "answers_alike X pred ans (rows ds)"
    and "par_reachable (may_answer X (filter_answer X) pred) False (rows ds) s" "par_over s"
  shows "case fst (processing_filter X ds pred w) of
           Inr out \<Rightarrow> py_filter_parallel ds s = Ok out \<and> out = filter_ds ds (\<lambda>r. filter_answer X (ans r) = Ok True)
         | Inl _ \<Rightarrow> \<exists>r\<in>set (rows ds). \<exists>e. filter_answer X (ans r) = Err e \<and> py_filter_parallel ds s = Err e"
proof -
  let ?g = "\<lambda>r. filter_answer X (ans r)"
  have seq: "fst (processing_filter X ds pred w) =
      rmap (\<lambda>keeps. data_set_new (ds_schema ds) (kept_rows (rows ds) keeps)) (traverse ?g (rows ds))"
    by (simp add: processing_filter_def fst_io_bind_ok call_row_alike [OF assms(1)])
  have alike: "x = ?g r" if "r \<in> set (rows ds)" "may_answer X (filter_answer X) pred r x" for r x
    using may_answer_alike [OF assms(1) that] .
  let ?f = "\<lambda>keeps. data_set_new (ds_schema ds) (kept_rows (rows ds) keeps)"
  have ok: "par_result False ?f s = Ok (?f vs)" if "traverse ?g (rows ds) = Ok vs" for vs
    by (rule par_result_exact(1) [OF assms(2,3) alike that])
  have bad: "\<exists>r\<in>set (rows ds). \<exists>e. ?g r = Err e \<and> par_result False ?f s = Err e" if "traverse ?g (rows ds) = Inl e'" for e'
    by (rule par_result_exact(2) [OF assms(2,3) alike that])
  show ?thesis
  proof (cases "traverse ?g (rows ds)")
    case (Inl e)
    with seq bad [OF Inl] show ?thesis by (simp add: py_filter_parallel_def)
  next
    case (Inr keeps)
    then have "list_all2 (\<lambda>r k. ?g r = Inr k) (rows ds) keeps" by (simp add: traverse_Inr_iff)
    then have "keeps = map (\<lambda>r. ?g r = Ok True) (rows ds)"
      by (auto simp: list_all2_conv_all_nth intro!: nth_equalityI)
    with seq ok [OF Inr] Inr show ?thesis
      by (simp add: py_filter_parallel_def kept_rows_map filter_ds_def filter_rows_def)
  qed
qed


text \<open>A predicate on objects: the first cell is not \<open>None\<close>.\<close>

definition not_none_pyo3 :: "(object, unit, unit) pyo3" where
  "not_none_pyo3 = plain_pyo3\<lparr>px_call :=
     (\<lambda>_ args w. (Inr (OBool (case args of [OList (c # _)] \<Rightarrow> c \<noteq> ONone | _ \<Rightarrow> False)), w))\<rparr>"

definition first_not_null :: "row \<Rightarrow> bool" where
  "first_not_null r = (case r of c # _ \<Rightarrow> c \<noteq> Null | [] \<Rightarrow> False)"

lemma not_none_alike: "answers_alike not_none_pyo3 ONone (\<lambda>r. Inr (OBool (first_not_null r))) rs"
  by (auto simp: answers_alike_def not_none_pyo3_def plain_pyo3_def row_to_py_def first_not_null_def value_to_py_def
      split: list.splits value_t.splits)

theorem python_filter_agrees_witness:
  "\<exists>s. par_reachable (may_answer not_none_pyo3 (filter_answer not_none_pyo3) ONone) False (rows sample_ds) s \<and> par_over s \<and>
     py_filter_parallel sample_ds s = Ok (filter_ds sample_ds first_not_null) \<and> length (filter first_not_null (rows sample_ds)) = 3"
proof -
  let ?X = not_none_pyo3 and ?ans = "\<lambda>r. Inr (OBool (first_not_null r))"
  have ans: "filter_answer ?X (?ans r) = Ok (first_not_null r)" for r
    by (simp add: filter_answer_def not_none_pyo3_def plain_pyo3_def)
  have may: "\<exists>a. may_answer ?X (filter_answer ?X) ONone r (Ok a)" if "r \<in> set (rows sample_ds)" for r
    using not_none_alike [of "[r]"] ans by (auto simp: may_answer_def answers_alike_def)
  obtain s where s: "par_reachable (may_answer ?X (filter_answer ?X) ONone) False (rows sample_ds) s" "par_over s"
    using par_completes [of "rows sample_ds" "may_answer ?X (filter_answer ?X) ONone" False] may by blast
  have seq: "fst (processing_filter ?X sample_ds ONone ()) =
      rmap (\<lambda>keeps. data_set_new (ds_schema sample_ds) (kept_rows (rows sample_ds) keeps)) (traverse (\<lambda>r. Ok (first_not_null r)) (rows sample_ds))"
    by (simp add: processing_filter_def fst_io_bind_ok call_row_alike [OF not_none_alike] ans)
  have "traverse (\<lambda>r. Ok (first_not_null r) :: (unit, bool) py) (rows sample_ds) = Ok (map first_not_null (rows sample_ds))" by (rule traverse_ok) simp
  with seq python_filter_agrees [OF not_none_alike s, of "()"]
  have "py_filter_parallel sample_ds s = Ok (filter_ds sample_ds first_not_null)" by (simp add: ans)
  moreover have "length (filter first_not_null (rows sample_ds)) = 3" by code_simp
  ultimately show ?thesis using s by blast
qed

text \<open>The two mappers fail on the same rows, with texts of their own.\<close>

lemma map_answer_noun: "map_answer X n noun r = Ok v \<longleftrightarrow> map_answer X n noun' r = Ok v"
  by (auto simp: map_answer_def result_simps split: sum.splits if_splits)

lemma map_answer_length: "map_answer X n noun r = Ok v \<Longrightarrow> length v = n"
  by (cases r; cases "px_list X (projr r)") (auto simp: map_answer_def dest: traverse_length split: if_splits)

lemma python_map_agrees:
  assumes alike: "answers_alike X mapper ans (rows ds)"
    and par: "par_reachable (may_answer X (map_answer X (length (sfields (ds_schema ds))) []) mapper) (null_row ds) (rows ds) s" "par_over s"
  shows "case fst (processing_map X ds mapper w) of
           Inr out \<Rightarrow> py_map_parallel ds s = Ok out \<and> list_all (\<lambda>r. length r = length (sfields (ds_schema ds))) (rows out)
         | Inl _ \<Rightarrow> \<exists>e. py_map_parallel ds s = Err e"
proof -
  let ?n = "length (sfields (ds_schema ds))"
  let ?g = "\<lambda>noun r. map_answer X ?n noun (ans r)"
  have seq: "fst (processing_map X ds mapper w) = rmap (data_set_new (ds_schema ds)) (traverse (?g '' columns'') (rows ds))"
    by (simp add: processing_map_def fst_io_bind_ok call_row_alike [OF alike])
  have same: "traverse (?g '' columns'') (rows ds) = Ok vs \<longleftrightarrow> traverse (?g []) (rows ds) = Ok vs" for vs
    by (simp add: traverse_Inr_iff map_answer_noun [of X ?n "'' columns''" _ _ "[]"])
  have ans: "x = ?g [] r" if "r \<in> set (rows ds)" "may_answer X (map_answer X ?n []) mapper r x" for r x
    using may_answer_alike [OF alike that] .
  show ?thesis
  proof (cases "traverse (?g []) (rows ds)")
    case (Inl e)
    have "py_map_parallel ds s = Err e'" if "par_result (null_row ds) (data_set_new (ds_schema ds)) s = Err e'" for e'
      using that by (simp add: py_map_parallel_def)
    with par_result_exact(2) [OF par ans Inl, of "data_set_new (ds_schema ds)"]
    have "\<exists>e'. py_map_parallel ds s = Err e'" by blast
    moreover have "\<nexists>out. fst (processing_map X ds mapper w) = Inr out" using seq same Inl by (auto simp: result_simps)
    ultimately show ?thesis by (cases "fst (processing_map X ds mapper w)") auto
  next
    case (Inr vs)
    have "length v = ?n" if "v \<in> set vs" for v
      using traverse_set [OF Inr that] by (auto dest: map_answer_length)
    with par_result_exact(1) [OF par ans Inr, of "data_set_new (ds_schema ds)"] seq same [of vs] Inr
    show ?thesis by (simp add: py_map_parallel_def list_all_iff data_set_new_def)
  qed
qed

text \<open>An observer with a failure callback only: a failure at or above the threshold calls it twice.\<close>

lemma failure_callback_twice:
  assumes "opt_observer opts = Some (py_ingestion_observer X \<lparr>pb_on_success = None, pb_on_failure = Some cb, pb_on_alert = None\<rparr>)"
    and "opt_alert_at_or_above opts \<le> severity_for_error e"
  shows "notify opts ctx (Err e) w =
    (let call = call_ignored X cb (failure_args X ctx (severity_for_error e) e) in call (call w))"
  using assms by (simp add: notify_def py_ingestion_observer_def py_on_failure_def py_on_alert_def Let_def)

end
