(* ===== verification/Py_Frame.thy ===== *)
theory Py_Frame
  imports Py_Convert Sql_Query
begin

text \<open>
  The classes of the Python module that hold data (\<open>python-wrapper/src/lib.rs\<close>): \<open>DataSet\<close>, the lazy
  \<open>DataFrame\<close> and \<open>SqlContext\<close>. A method converts its arguments, calls the library on a copy of the
  frame and converts the outcome. Arguments PyO3 extracts from the signature come extracted.
\<close>

subsection \<open>Arguments\<close>

definition dict_req_str :: "('o, 'e, 'w) pyo3 \<Rightarrow> (string \<Rightarrow> 'o option) \<Rightarrow> string \<Rightarrow> ('e, string) py" where
  "dict_req_str X d k = need_str X d k (''aggregation dict missing '' @ sq k)"

text \<open>An aggregation over a column under an alias, in the order the keys are read.\<close>

definition column_agg :: "('o, 'e, 'w) pyo3 \<Rightarrow> (string \<Rightarrow> 'o option) \<Rightarrow> (string \<Rightarrow> string \<Rightarrow> agg) \<Rightarrow> ('e, agg) py" where
  "column_agg X d f = rbind (dict_req_str X d ''column'') (\<lambda>c. rmap (f c) (dict_req_str X d ''alias''))"

definition agg_kind :: "('o, 'e, 'w) pyo3 \<Rightarrow> (string \<Rightarrow> 'o option) \<Rightarrow> ('e, variance_kind) py" where
  "agg_kind X d = (case d ''kind'' of None \<Rightarrow> Ok Sample | Some v \<Rightarrow> rbind (raised (px_str X v)) parse_variance_kind)"

definition agg_from_py :: "('o, 'e, 'w) pyo3 \<Rightarrow> (string \<Rightarrow> 'o option) \<Rightarrow> ('e, agg) py" where
  "agg_from_py X d =
     rbind (dict_req_str X d ''type'') (\<lambda>typ.
     let l = dashes_to_underscores (to_ascii_lowercase typ) in
     if l = ''count_rows'' then rmap CountRows (dict_req_str X d ''alias'')
     else if l = ''count_not_null'' then column_agg X d CountNotNull
     else if l = ''sum'' then column_agg X d AggSum
     else if l = ''min'' then column_agg X d AggMin
     else if l = ''max'' then column_agg X d AggMax
     else if l = ''mean'' then column_agg X d AggMean
     else if l = ''variance'' then rbind (agg_kind X d) (\<lambda>k. column_agg X d (\<lambda>c a. AggVariance c a k))
     else if l \<in> {''std_dev'', ''stddev''} then rbind (agg_kind X d) (\<lambda>k. column_agg X d (\<lambda>c a. AggStdDev c a k))
     else if l = ''sum_squares'' then column_agg X d AggSumSquares
     else if l \<in> {''l2_norm'', ''l2''} then column_agg X d AggL2Norm
     else if l \<in> {''count_distinct_non_null'', ''count_distinct''} then column_agg X d AggCountDistinctNonNull
     else if l = ''median'' then column_agg X d AggMedian
     else value_error (''unknown aggregation type '' @ sq typ))"

definition join_kind_from_str :: "string \<Rightarrow> ('e, join_kind) py" where
  "join_kind_from_str s =
     (let l = to_ascii_lowercase s in
      if l = ''inner'' then Ok Inner
      else if l = ''left'' then Ok LeftJoin
      else if l = ''right'' then Ok RightJoin
      else if l \<in> {''full'', ''outer''} then Ok Full
      else value_error (''join kind must be '' @ sq ''inner'' @ '', '' @ sq ''left'' @ '', '' @ sq ''right'' @ '', or '' @ sq ''full''))"

definition cast_mode_from_str :: "string \<Rightarrow> ('e, cast_mode) py" where
  "cast_mode_from_str s =
     (let l = to_ascii_lowercase s in
      if l = ''strict'' then Ok Strict
      else if l = ''lossy'' then Ok Lossy
      else value_error (''cast mode must be '' @ sq ''strict'' @ '' or '' @ sq ''lossy''))"

definition std_kind_from_py :: "string option \<Rightarrow> ('e, variance_kind) py" where
  "std_kind_from_py k = (case k of None \<Rightarrow> Ok Sample | Some s \<Rightarrow> parse_variance_kind s)"

subsection \<open>DataSet\<close>

definition py_row_count :: "data_set \<Rightarrow> nat" where
  "py_row_count ds = row_count ds"

definition py_column_names :: "data_set \<Rightarrow> string list" where
  "py_column_names ds = map fname (sfields (ds_schema ds))"

definition py_data_set_repr :: "data_set \<Rightarrow> string" where
  "py_data_set_repr ds = ''DataSet(rows='' @ show_nat (row_count ds) @ '', columns='' @ show_nat (length (sfields (ds_schema ds))) @ '')''"

subsection \<open>DataFrame\<close>

definition py_from_dataset :: "('o, 'e, 'w) pyo3 \<Rightarrow> polars \<Rightarrow> data_set \<Rightarrow> ('e, lazy_frame) py" where
  "py_from_dataset X P ds = to_py X (from_dataset P ds)"

definition py_filter_eq :: "('o, 'e, 'w) pyo3 \<Rightarrow> lazy_frame \<Rightarrow> string \<Rightarrow> 'o \<Rightarrow> ('e, lazy_frame) py" where
  "py_filter_eq X df c v = rmap (\<lambda>x. df_filter df (PredEq c x)) (value_from_py X v)"

definition py_filter_not_null :: "lazy_frame \<Rightarrow> string \<Rightarrow> ('e, lazy_frame) py" where
  "py_filter_not_null df c = Ok (df_filter df (PredNotNull c))"

definition py_filter_mod_eq_int64 :: "lazy_frame \<Rightarrow> string \<Rightarrow> i64 \<Rightarrow> i64 \<Rightarrow> ('e, lazy_frame) py" where
  "py_filter_mod_eq_int64 df c modulus equals = Ok (df_filter df (PredModEqInt64 c modulus equals))"

definition py_select :: "lazy_frame \<Rightarrow> string list \<Rightarrow> ('e, lazy_frame) py" where
  "py_select df columns = Ok (df_select df columns)"

definition py_rename :: "lazy_frame \<Rightarrow> (string \<times> string) list \<Rightarrow> ('e, lazy_frame) py" where
  "py_rename df pairs = Ok (df_rename df pairs)"

definition py_drop :: "lazy_frame \<Rightarrow> string list \<Rightarrow> ('e, lazy_frame) py" where
  "py_drop df columns = Ok (df_drop df columns)"

definition py_cast :: "lazy_frame \<Rightarrow> string \<Rightarrow> string \<Rightarrow> ('e, lazy_frame) py" where
  "py_cast df c to = rmap (df_cast df c) (parse_data_type to)"

definition py_cast_with_mode :: "lazy_frame \<Rightarrow> string \<Rightarrow> string \<Rightarrow> string \<Rightarrow> ('e, lazy_frame) py" where
  "py_cast_with_mode df c to mode = rbind (parse_data_type to) (\<lambda>t. rmap (cast_with_mode df c t) (cast_mode_from_str mode))"

definition py_fill_null :: "('o, 'e, 'w) pyo3 \<Rightarrow> lazy_frame \<Rightarrow> string \<Rightarrow> 'o \<Rightarrow> ('e, lazy_frame) py" where
  "py_fill_null X df c v = rbind (value_from_py X v) (\<lambda>x. to_py X (fill_null df c x))"

definition py_with_literal :: "('o, 'e, 'w) pyo3 \<Rightarrow> lazy_frame \<Rightarrow> string \<Rightarrow> 'o \<Rightarrow> ('e, lazy_frame) py" where
  "py_with_literal X df name v = rbind (value_from_py X v) (\<lambda>x. to_py X (with_literal df name x))"

definition py_multiply_f64 :: "lazy_frame \<Rightarrow> string \<Rightarrow> f64 \<Rightarrow> ('e, lazy_frame) py" where
  "py_multiply_f64 df c factor = Ok (multiply_f64 df c factor)"

definition py_add_f64 :: "lazy_frame \<Rightarrow> string \<Rightarrow> f64 \<Rightarrow> ('e, lazy_frame) py" where
  "py_add_f64 df c delta = Ok (add_f64 df c delta)"

definition py_with_mul_f64 :: "lazy_frame \<Rightarrow> string \<Rightarrow> string \<Rightarrow> f64 \<Rightarrow> ('e, lazy_frame) py" where
  "py_with_mul_f64 df name src factor = Ok (with_mul_f64 df name src factor)"

definition py_with_add_f64 :: "lazy_frame \<Rightarrow> string \<Rightarrow> string \<Rightarrow> f64 \<Rightarrow> ('e, lazy_frame) py" where
  "py_with_add_f64 df name src delta = Ok (with_add_f64 df name src delta)"

definition py_group_by :: "('o, 'e, 'w) pyo3 \<Rightarrow> lazy_frame \<Rightarrow> string list \<Rightarrow> 'o list \<Rightarrow> ('e, lazy_frame) py" where
  "py_group_by X df keys aggs =
     rbind (traverse (\<lambda>item. rbind (raised (px_dict X item)) (agg_from_py X)) aggs) (\<lambda>out_aggs.
     to_py X (df_group_by df keys out_aggs))"

definition py_join :: "('o, 'e, 'w) pyo3 \<Rightarrow> lazy_frame \<Rightarrow> lazy_frame \<Rightarrow> string list \<Rightarrow> string list \<Rightarrow> string \<Rightarrow> ('e, lazy_frame) py" where
  "py_join X df other left_on right_on how =
     rbind (join_kind_from_str how) (\<lambda>k. to_py X (df_join df other left_on right_on k))"

definition py_collect :: "('o, 'e, 'w) pyo3 \<Rightarrow> polars \<Rightarrow> engine \<Rightarrow> lazy_frame \<Rightarrow> ('e, data_set) py" where
  "py_collect X P E df = to_py X (collect_plan P E df)"

definition py_collect_with_schema :: "('o, 'e, 'w) pyo3 \<Rightarrow> polars \<Rightarrow> engine \<Rightarrow> lazy_frame \<Rightarrow> 'o \<Rightarrow> ('e, data_set) py" where
  "py_collect_with_schema X P E df s = rbind (schema_from_py X s) (\<lambda>sch. to_py X (collect_with_schema P E df sch))"

text \<open>No value is \<open>None\<close>, and so is the null value.\<close>

definition opt_value_to_py :: "('o, 'e, 'w) pyo3 \<Rightarrow> value_t option \<Rightarrow> 'o" where
  "opt_value_to_py X v = (case v of None \<Rightarrow> pn_none X | Some x \<Rightarrow> value_to_py X x)"

definition py_df_reduce :: "('o, 'e, 'w) pyo3 \<Rightarrow> polars \<Rightarrow> engine \<Rightarrow> lazy_frame \<Rightarrow> string \<Rightarrow> string \<Rightarrow> ('e, 'o) py" where
  "py_df_reduce X P E df c oper =
     rbind (parse_reduce_op oper) (\<lambda>rop. rmap (opt_value_to_py X) (to_py X (df_reduce P E df c rop)))"

definition py_df_sum :: "('o, 'e, 'w) pyo3 \<Rightarrow> polars \<Rightarrow> engine \<Rightarrow> lazy_frame \<Rightarrow> string \<Rightarrow> ('e, 'o) py" where
  "py_df_sum X P E df c = rmap (opt_value_to_py X) (to_py X (df_sum P E df c))"

definition mean_std_to_py :: "('o, 'e, 'w) pyo3 \<Rightarrow> (string \<times> feature_mean_std) list \<Rightarrow> 'o" where
  "mean_std_to_py X rs =
     pn_list X (map (\<lambda>(name, m). pn_dict X [(''column'', pn_str X name), (''mean'', value_to_py X (fm_mean m)),
       (''std_dev'', value_to_py X (fm_std_dev m))]) rs)"

definition py_df_feature_wise_mean_std ::
  "('o, 'e, 'w) pyo3 \<Rightarrow> polars \<Rightarrow> engine \<Rightarrow> lazy_frame \<Rightarrow> string list \<Rightarrow> string option \<Rightarrow> ('e, 'o) py" where
  "py_df_feature_wise_mean_std X P E df columns std_kind =
     rbind (std_kind_from_py std_kind) (\<lambda>k.
     rmap (mean_std_to_py X) (to_py X (df_feature_wise_mean_std P E df columns k)))"

definition py_data_frame_repr :: string where
  "py_data_frame_repr = ''DataFrame(lazy)''"

subsection \<open>SqlContext\<close>

definition py_context_new :: sql_tables where
  "py_context_new = context_new"

definition py_context_register :: "('o, 'e, 'w) pyo3 \<Rightarrow> sql_tables \<Rightarrow> string \<Rightarrow> lazy_frame \<Rightarrow> ('e, sql_tables) py" where
  "py_context_register X tables name df = to_py X (context_register tables name df)"

definition py_context_execute :: "('o, 'e, 'w) pyo3 \<Rightarrow> sql_engine \<Rightarrow> sql_tables \<Rightarrow> string \<Rightarrow> ('e, lazy_frame \<times> sql_tables) py" where
  "py_context_execute X S tables sql = to_py X (context_execute S tables sql)"

definition sql_query_dataset ::
  "('o, 'e, 'w) pyo3 \<Rightarrow> polars \<Rightarrow> engine \<Rightarrow> sql_engine \<Rightarrow> data_set \<Rightarrow> string \<Rightarrow> ('e, data_set) py" where
  "sql_query_dataset X P E S ds sql =
     rbind (to_py X (from_dataset P ds)) (\<lambda>df.
     rbind (to_py X (sql_query S df sql)) (\<lambda>out. to_py X (collect_plan P E out)))"

end
