(* ===== verification/Jvm_Kafka.thy ===== *)
theory Jvm_Kafka
  imports Jvm_Ingest Kafka
begin

text \<open>
  Kafka over the C interface of the JVM binding (\<open>bindings/jvm-sys/src/kafka.rs\<close>): configurations as JSON,
  and the answers to the four exported functions. Records are serialised as the derived implementations
  of \<open>src/kafka/record.rs\<close> do; documents have no repeated keys. A poll answers \<open>None\<close> while its window
  is still open.
\<close>

subsection \<open>Fields with defaults\<close>

text \<open>
  A field of a struct with the document it takes when it is absent, from an object and from the end of a
  list: an optional field may be absent from an object, one with a default from both.
\<close>

type_synonym slot = "string \<times> json option \<times> json option"

definition required :: "string \<Rightarrow> slot" where
  "required n = (n, None, None)"

definition optional :: "string \<Rightarrow> slot" where
  "optional n = (n, Some JNull, None)"

definition defaulted :: "string \<Rightarrow> json \<Rightarrow> slot" where
  "defaulted n d = (n, Some d, Some d)"

definition map_slots :: "slot list \<Rightarrow> (string \<times> json) list \<Rightarrow> json list option" where
  "map_slots slots m = all_some (map (\<lambda>(n, absent, _). case map_of m n of Some x \<Rightarrow> Some x | None \<Rightarrow> absent) slots)"

fun seq_slots :: "slot list \<Rightarrow> json list \<Rightarrow> json list option" where
  "seq_slots [] [] = Some []"
| "seq_slots [] (x # xs) = None"
| "seq_slots ((n, a, absent) # slots) [] = Option.bind absent (\<lambda>d. map_option (Cons d) (seq_slots slots []))"
| "seq_slots ((n, a, absent) # slots) (x # xs) = map_option (Cons x) (seq_slots slots xs)"

definition struct_slots :: "slot list \<Rightarrow> json \<Rightarrow> json list option" where
  "struct_slots slots j = (case j of JObject m \<Rightarrow> map_slots slots m | JArray xs \<Rightarrow> seq_slots slots xs | _ \<Rightarrow> None)"

definition opt_of_json :: "(json \<Rightarrow> 'a option) \<Rightarrow> json \<Rightarrow> 'a option option" where
  "opt_of_json f j = (if j = JNull then Some None else map_option Some (f j))"

definition as_i32 :: "json \<Rightarrow> 32 word option" where
  "as_i32 j = Option.bind (as_i64 j) (\<lambda>i. if - (2 ^ 31) \<le> sint i \<and> sint i < 2 ^ 31 then Some (scast i) else None)"

definition as_u32 :: "json \<Rightarrow> 32 word option" where
  "as_u32 j = Option.bind (as_u64 j) (\<lambda>n. if n < 2 ^ 32 then Some (word_of_nat n) else None)"

subsection \<open>Records\<close>

definition json_of_header :: "kafka_header \<Rightarrow> json" where
  "json_of_header h = JObject [(''name'', JString (kh_name h)), (''value'', JString (kh_value h))]"

definition json_of_record :: "kafka_record \<Rightarrow> json" where
  "json_of_record r = JObject (
     [(''topic'', JString (kr_topic r)), (''partition'', json_of_i64 (scast (kr_partition r))), (''offset'', json_of_i64 (kr_offset r))] @
     (case kr_timestamp_ms r of Some t \<Rightarrow> [(''timestamp_ms'', json_of_i64 t)] | None \<Rightarrow> []) @
     (case kr_key r of Some k \<Rightarrow> [(''key'', JString k)] | None \<Rightarrow> []) @
     [(''value'', JString (kr_value r))] @
     (if kr_headers r = [] then [] else [(''headers'', JArray (map json_of_header (kr_headers r)))]))"

definition header_of_json :: "json \<Rightarrow> kafka_header option" where
  "header_of_json j =
     Option.bind (struct_slots [required ''name'', required ''value''] j) (\<lambda>fs.
     Option.bind (as_str (fs ! 0)) (\<lambda>n. map_option (\<lambda>v. \<lparr>kh_name = n, kh_value = v\<rparr>) (as_str (fs ! 1))))"

definition record_slots :: "slot list" where
  "record_slots = [required ''topic'', required ''partition'', required ''offset'', defaulted ''timestamp_ms'' JNull,
     defaulted ''key'' JNull, required ''value'', defaulted ''headers'' (JArray [])]"

definition record_of_json :: "json \<Rightarrow> kafka_record option" where
  "record_of_json j =
     Option.bind (struct_slots record_slots j) (\<lambda>fs.
     Option.bind (as_str (fs ! 0)) (\<lambda>topic.
     Option.bind (as_i32 (fs ! 1)) (\<lambda>partition.
     Option.bind (as_i64 (fs ! 2)) (\<lambda>offset.
     Option.bind (opt_of_json as_i64 (fs ! 3)) (\<lambda>ts.
     Option.bind (opt_of_json as_str (fs ! 4)) (\<lambda>k.
     Option.bind (as_str (fs ! 5)) (\<lambda>v.
     Option.bind (as_array (fs ! 6)) (\<lambda>hs.
     map_option (\<lambda>headers. \<lparr>kr_topic = topic, kr_partition = partition, kr_offset = offset, kr_timestamp_ms = ts,
       kr_key = k, kr_value = v, kr_headers = headers\<rparr>) (all_some (map header_of_json hs))))))))))"

text \<open>The two accepted documents of the load step.\<close>

definition records_of_json :: "json \<Rightarrow> kafka_record list option" where
  "records_of_json j = Option.bind (as_array j) (\<lambda>xs. all_some (map record_of_json xs))"

definition envelope_of_text :: "json_lib \<Rightarrow> string \<Rightarrow> kafka_record list option" where
  "envelope_of_text L t =
     (case jl_parse L t of
        Inr j \<Rightarrow> Option.bind (struct_slots [required ''records''] j) (\<lambda>fs. records_of_json (fs ! 0))
      | Inl _ \<Rightarrow> None)"

definition bare_of_text :: "json_lib \<Rightarrow> string \<Rightarrow> string + kafka_record list" where
  "bare_of_text L t =
     (case jl_parse L t of
        Inl e \<Rightarrow> Inl e
      | Inr j \<Rightarrow> (case records_of_json j of Some rs \<Rightarrow> Inr rs | None \<Rightarrow> Inl (jl_serde_error L j)))"

subsection \<open>Configurations\<close>

record consumer_config =
  cc_brokers :: string
  cc_group_id :: string
  cc_topic :: string
  cc_max_records :: nat
  cc_auto_offset_reset :: string
  cc_session_timeout_ms :: "32 word option"

definition default_max_records :: nat where
  "default_max_records = 500"

definition default_auto_offset_reset :: string where
  "default_auto_offset_reset = ''earliest''"

definition consumer_config_of_json :: "json \<Rightarrow> consumer_config option" where
  "consumer_config_of_json j =
     Option.bind (struct_slots [required ''brokers'', required ''group_id'', required ''topic'',
       defaulted ''max_records'' (json_nat default_max_records), defaulted ''auto_offset_reset'' (JString default_auto_offset_reset),
       optional ''session_timeout_ms''] j) (\<lambda>fs.
     Option.bind (as_str (fs ! 0)) (\<lambda>brokers.
     Option.bind (as_str (fs ! 1)) (\<lambda>group_id.
     Option.bind (as_str (fs ! 2)) (\<lambda>topic.
     Option.bind (as_u64 (fs ! 3)) (\<lambda>n.
     Option.bind (as_str (fs ! 4)) (\<lambda>reset.
     map_option (\<lambda>ms. \<lparr>cc_brokers = brokers, cc_group_id = group_id, cc_topic = topic, cc_max_records = n,
       cc_auto_offset_reset = reset, cc_session_timeout_ms = ms\<rparr>) (opt_of_json as_u32 (fs ! 5))))))))"

definition consumer_from_config :: "consumer_config \<Rightarrow> consumer_builder" where
  "consumer_from_config cfg =
     (let b = with_auto_offset_reset (cc_auto_offset_reset cfg) (consumer_new (cc_brokers cfg) (cc_group_id cfg) (cc_topic cfg)) in
      case cc_session_timeout_ms cfg of Some ms \<Rightarrow> with_session_timeout_ms ms b | None \<Rightarrow> b)"

record producer_config =
  pc_brokers :: string
  pc_topic :: string
  pc_message_timeout_ms :: "64 word"
  pc_key_column :: "string option"
  pc_value_column :: "string option"
  pc_headers :: "(string \<times> string) list"

definition default_message_timeout_ms :: nat where
  "default_message_timeout_ms = 5000"

definition pair_of_json :: "json \<Rightarrow> (string \<times> string) option" where
  "pair_of_json j =
     (case j of JArray [a, b] \<Rightarrow> Option.bind (as_str a) (\<lambda>x. map_option (\<lambda>y. (x, y)) (as_str b)) | _ \<Rightarrow> None)"

definition producer_config_of_json :: "json \<Rightarrow> producer_config option" where
  "producer_config_of_json j =
     Option.bind (struct_slots [required ''brokers'', required ''topic'',
       defaulted ''message_timeout_ms'' (json_nat default_message_timeout_ms), optional ''key_column'', optional ''value_column'',
       defaulted ''headers'' (JArray [])] j) (\<lambda>fs.
     Option.bind (as_str (fs ! 0)) (\<lambda>brokers.
     Option.bind (as_str (fs ! 1)) (\<lambda>topic.
     Option.bind (as_u64 (fs ! 2)) (\<lambda>ms.
     Option.bind (opt_of_json as_str (fs ! 3)) (\<lambda>kc.
     Option.bind (opt_of_json as_str (fs ! 4)) (\<lambda>vc.
     Option.bind (as_array (fs ! 5)) (\<lambda>hs.
     map_option (\<lambda>headers. \<lparr>pc_brokers = brokers, pc_topic = topic, pc_message_timeout_ms = word_of_nat ms, pc_key_column = kc,
       pc_value_column = vc, pc_headers = headers\<rparr>) (all_some (map pair_of_json hs)))))))))"

definition producer_from_config :: "producer_config \<Rightarrow> producer_builder" where
  "producer_from_config cfg =
     (let b0 = with_message_timeout_ms (pc_message_timeout_ms cfg) (producer_new (pc_brokers cfg) (pc_topic cfg));
          b1 = (case pc_key_column cfg of Some c \<Rightarrow> with_key_column c b0 | None \<Rightarrow> b0);
          b2 = (case pc_value_column cfg of Some c \<Rightarrow> with_value_column c b1 | None \<Rightarrow> b1) in
      fold (\<lambda>(n, v). with_header n v) (pc_headers cfg) b2)"

definition parse_config :: "json_lib \<Rightarrow> (json \<Rightarrow> 'c option) \<Rightarrow> string \<Rightarrow> (string, 'c) res" where
  "parse_config L of_json t =
     (case jl_parse L t of
        Inl e \<Rightarrow> Err (''config JSON: '' @ e)
      | Inr j \<Rightarrow> ok_or (''config JSON: '' @ jl_serde_error L j) (of_json j))"

definition parse_dataset_json :: "json_lib \<Rightarrow> string \<Rightarrow> (string, data_set) res" where
  "parse_dataset_json L t =
     (case jl_parse L t of
        Inl e \<Rightarrow> Err (''dataset JSON: '' @ e)
      | Inr j \<Rightarrow> ok_or (''dataset JSON: '' @ jl_serde_error L j) (data_set_of_json j))"

subsection \<open>The exported functions\<close>

definition kafka_dataset_envelope :: "string \<Rightarrow> data_set \<Rightarrow> json" where
  "kafka_dataset_envelope kind ds = json_ok (JObject [(''kind'', JString kind), (''dataset'', json_of_data_set ds)])"

definition answer :: "json_lib \<Rightarrow> ('a \<Rightarrow> json) \<Rightarrow> 'a result \<Rightarrow> (string, json) res" where
  "answer L f r =
     (case r of Inr a \<Rightarrow> Ok (f a) | Inl (Failed e) \<Rightarrow> Ok (json_err (jl_show_error L e)) | Inl (Panic m) \<Rightarrow> Panics m)"

text \<open>A failed argument is the answer; otherwise the call is made.\<close>

definition with_args :: "(string, 'a) res \<Rightarrow> ((string, json) res \<Rightarrow> 'r) \<Rightarrow> ('a \<Rightarrow> 'r) \<Rightarrow> 'r" where
  "with_args args ret f =
     (case args of Inr a \<Rightarrow> f a | Inl (Failed e) \<Rightarrow> ret (Ok (json_err e)) | Inl (Panic m) \<Rightarrow> ret (Panics m))"

definition kafka_elt_load_records_json_impl :: "json_lib \<Rightarrow> string option \<Rightarrow> string option \<Rightarrow> (string, json) res" where
  "kafka_elt_load_records_json_impl L records_json_ptr schema_json_ptr =
     with_args
       (rbind (cstr_to_str L records_json_ptr ''records_json'') (\<lambda>records_json.
        rbind (cstr_to_str L schema_json_ptr ''schema_json'') (\<lambda>schema_json.
        rmap (\<lambda>s. (records_json, s)) (parse_schema_json L schema_json)))) id
       (\<lambda>(records_json, s). answer L (kafka_dataset_envelope ''kafka_elt_load'')
          (elt_load_kafka_records_json (jl_text L) (jl_parse L) (envelope_of_text L) (bare_of_text L) records_json s))"

definition kafka_poll_window_json_impl ::
  "json_lib \<Rightarrow> (consumer_builder \<Rightarrow> err_src option) \<Rightarrow> (consumer_builder \<Rightarrow> err_src + (nat \<times> poll) list) \<Rightarrow> string option \<Rightarrow>
   (string, json) res option" where
  "kafka_poll_window_json_impl L create subscribe config_json_ptr =
     with_args (rbind (cstr_to_str L config_json_ptr ''config_json'') (parse_config L consumer_config_of_json)) Some
       (\<lambda>cfg. map_option
          (answer L (\<lambda>rs. json_ok (JObject [(''kind'', JString ''kafka_poll_window''), (''records'', JArray (map json_of_record rs))])))
          (poll_kafka_window create subscribe (consumer_from_config cfg) (cc_max_records cfg)))"

definition kafka_poll_window_loaded_json_impl ::
  "json_lib \<Rightarrow> (consumer_builder \<Rightarrow> err_src option) \<Rightarrow> (consumer_builder \<Rightarrow> err_src + (nat \<times> poll) list) \<Rightarrow> string option \<Rightarrow>
   string option \<Rightarrow> (string, json) res option" where
  "kafka_poll_window_loaded_json_impl L create subscribe config_json_ptr schema_json_ptr =
     with_args
       (rbind (cstr_to_str L config_json_ptr ''config_json'') (\<lambda>config_json.
        rbind (cstr_to_str L schema_json_ptr ''schema_json'') (\<lambda>schema_json.
        rbind (parse_config L consumer_config_of_json config_json) (\<lambda>cfg.
        rmap (\<lambda>s. (cfg, s)) (parse_schema_json L schema_json))))) Some
       (\<lambda>(cfg, s). map_option (answer L (kafka_dataset_envelope ''kafka_poll_window_loaded''))
          (poll_kafka_window_loaded (jl_text L) (jl_parse L) create subscribe (consumer_from_config cfg) s (cc_max_records cfg)))"

definition kafka_export_dataset_json_impl ::
  "json_lib \<Rightarrow> (producer_builder \<Rightarrow> err_src + 'p) \<Rightarrow> (kafka_message \<Rightarrow> 'p \<Rightarrow> err_src + 'p) \<Rightarrow> ('p \<Rightarrow> err_src option \<times> 'p) \<Rightarrow>
   (f64 \<Rightarrow> string) \<Rightarrow> string option \<Rightarrow> string option \<Rightarrow> (string, json) res \<times> 'p option" where
  "kafka_export_dataset_json_impl L create send flush show_f64 config_json_ptr dataset_json_ptr =
     with_args
       (rbind (cstr_to_str L config_json_ptr ''config_json'') (\<lambda>config_json.
        rbind (cstr_to_str L dataset_json_ptr ''dataset_json'') (\<lambda>dataset_json.
        rbind (parse_config L producer_config_of_json config_json) (\<lambda>cfg.
        rmap (\<lambda>ds. (cfg, ds)) (parse_dataset_json L dataset_json))))) (\<lambda>r. (r, None))
       (\<lambda>(cfg, ds). case export_dataset_to_kafka create send flush (jl_text L) show_f64 (producer_from_config cfg) ds of
          (sent, pr) \<Rightarrow> (answer L (\<lambda>n. json_ok (JObject [(''kind'', JString ''kafka_export''), (''topic'', JString (pc_topic cfg)),
            (''row_count'', json_nat n)])) sent, pr))"


subsection \<open>Round trips\<close>

lemma as_str_simps [simp]: "as_str (JString s) = Some s" "as_array (JArray xs) = Some xs"
  by (simp_all add: as_str_def as_array_def)

lemma header_roundtrip: "header_of_json (json_of_header h) = Some h"
  by (simp add: header_of_json_def json_of_header_def struct_slots_def map_slots_def required_def)

lemma as_i32_roundtrip [simp]: "as_i32 (json_of_i64 (scast p)) = Some p" for p :: "32 word"
proof -
  have range: "- (2 ^ 31) \<le> sint p \<and> sint p < 2 ^ 31" using sint_ge [of p] sint_lt [of p] by simp
  then have "sint (scast p :: i64) = sint p" by (simp add: signed_scast_eq signed_take_bit_int_eq_self)
  moreover have "scast (scast p :: i64) = p" by (rule bit_word_eqI) (auto simp: bit_signed_iff)
  ultimately show ?thesis using range by (simp add: as_i32_def)
qed

lemma record_roundtrip: "record_of_json (json_of_record r) = Some r"
proof -
  have hs: "all_some (map header_of_json (map json_of_header (kr_headers r))) = Some (kr_headers r)"
    using all_some_map [of "kr_headers r" header_of_json json_of_header] header_roundtrip by (simp add: comp_def)
  have "map_slots record_slots (case json_of_record r of JObject m \<Rightarrow> m | _ \<Rightarrow> []) =
     Some [JString (kr_topic r), json_of_i64 (scast (kr_partition r)), json_of_i64 (kr_offset r),
       (case kr_timestamp_ms r of Some t \<Rightarrow> json_of_i64 t | None \<Rightarrow> JNull), (case kr_key r of Some k \<Rightarrow> JString k | None \<Rightarrow> JNull),
       JString (kr_value r), JArray (map json_of_header (kr_headers r))]"
    by (simp add: map_slots_def record_slots_def json_of_record_def required_def defaulted_def split: option.splits)
  then show ?thesis
    by (cases r) (use hs in \<open>auto simp: record_of_json_def struct_slots_def json_of_record_def opt_of_json_def
      split: option.splits\<close>)
qed

lemma records_roundtrip: "records_of_json (JArray (map json_of_record rs)) = Some rs"
  using all_some_map [of rs record_of_json json_of_record] record_roundtrip by (simp add: records_of_json_def comp_def)

lemma envelope_roundtrip:
  assumes "jl_parse L t = Inr (JObject [(''records'', JArray (map json_of_record rs))])"
  shows "elt_load_kafka_records_json (jl_text L) (jl_parse L) (envelope_of_text L) (bare_of_text L) t s =
    elt_load_kafka_records (jl_text L) (jl_parse L) rs s"
  using assms
  by (simp add: elt_load_kafka_records_json_def envelope_of_text_def struct_slots_def map_slots_def required_def records_roundtrip)

lemma with_args_Some_ok:
  assumes "with_args args Some f = Some (Ok (json_ok j))"
  obtains a where "args = Inr a" "f a = Some (Ok (json_ok j))"
  using assms by (auto simp: with_args_def json_ok_def json_err_def split: sum.splits fault.splits)

lemma answer_json_ok: "answer L f r = Ok (json_ok j) \<Longrightarrow> \<exists>a. r = Inr a \<and> f a = json_ok j"
  by (auto simp: answer_def json_ok_def json_err_def split: sum.splits fault.splits)

lemma json_ok_inject [simp]: "json_ok a = json_ok b \<longleftrightarrow> a = b"
  by (simp add: json_ok_def)

text \<open>C40: A host that polls a window, keeps the records of the answer and hands them to the load function
  gets the answer of the function that polls and loads at once, under its own kind.\<close>

theorem kafka_poll_then_load:
  assumes poll: "kafka_poll_window_json_impl L create subscribe cfg = Some (Ok (json_ok (JObject [(''kind'', k), (''records'', recs)])))"
    and doc: "jl_parse L t = Inr (JObject [(''records'', recs)])" "jl_utf8_error L t = None"
    and sch: "rbind (cstr_to_str L sp ''schema_json'') (parse_schema_json L) = Ok s"
  shows "\<exists>r. kafka_elt_load_records_json_impl L (Some t) sp = answer L (kafka_dataset_envelope ''kafka_elt_load'') r \<and>
    kafka_poll_window_loaded_json_impl L create subscribe cfg sp = Some (answer L (kafka_dataset_envelope ''kafka_poll_window_loaded'') r)"
proof -
  from sch obtain st where st: "cstr_to_str L sp ''schema_json'' = Ok st" "parse_schema_json L st = Ok s"
    by (auto simp: result_simps)
  from poll obtain c where c: "rbind (cstr_to_str L cfg ''config_json'') (parse_config L consumer_config_of_json) = Inr c"
    and res: "map_option (answer L (\<lambda>rs. json_ok (JObject [(''kind'', JString ''kafka_poll_window''), (''records'', JArray (map json_of_record rs))])))
      (poll_kafka_window create subscribe (consumer_from_config c) (cc_max_records c)) = Some (Ok (json_ok (JObject [(''kind'', k), (''records'', recs)])))"
    unfolding kafka_poll_window_json_impl_def by (rule with_args_Some_ok)
  from res obtain rs where rs: "poll_kafka_window create subscribe (consumer_from_config c) (cc_max_records c) = Some (Ok rs)"
      "recs = JArray (map json_of_record rs)"
    by (fastforce dest: answer_json_ok)
  from c obtain ct where ct: "cstr_to_str L cfg ''config_json'' = Ok ct" "parse_config L consumer_config_of_json ct = Ok c"
    by (auto simp: result_simps)
  let ?r = "elt_load_kafka_records (jl_text L) (jl_parse L) rs s"
  have "kafka_elt_load_records_json_impl L (Some t) sp = answer L (kafka_dataset_envelope ''kafka_elt_load'') ?r"
    using doc st envelope_roundtrip [of L t rs s] rs(2)
    by (simp add: kafka_elt_load_records_json_impl_def with_args_def cstr_to_str_def [of L "Some t"])
  moreover have "kafka_poll_window_loaded_json_impl L create subscribe cfg sp = Some (answer L (kafka_dataset_envelope ''kafka_poll_window_loaded'') ?r)"
    using st ct rs(1) by (simp add: kafka_poll_window_loaded_json_impl_def with_args_def poll_kafka_window_loaded_def)
  ultimately show ?thesis by blast
qed


subsection \<open>Witness\<close>

text \<open>One message without a key, a landing table of its offset and its text, and a parser of three texts.\<close>

definition landing_schema :: schema where
  "landing_schema = schema_new [mk_field ''_kafka_offset'' TInt64, mk_field ''text'' TUtf8]"

definition kafka_texts :: json_lib where
  "kafka_texts = no_options\<lparr>jl_parse := (\<lambda>t.
     if t = ''cfg'' then Inr (JObject [(''brokers'', JString ''b''), (''group_id'', JString ''g''), (''topic'', JString ''t'')])
     else if t = ''schema'' then Inr (json_of_schema landing_schema)
     else if t = ''doc'' then Inr (JObject [(''records'', JArray [json_of_record (record_of_message one_message)])])
     else Inl ''bad'')\<rparr>"

definition one_turn :: "consumer_builder \<Rightarrow> err_src + (nat \<times> poll) list" where
  "one_turn _ = Inr [(0, PMessage one_message), (15000, PNothing)]"

theorem kafka_poll_then_load_witness:
  "kafka_elt_load_records_json_impl kafka_texts (Some ''doc'') (Some ''schema'') =
     Ok (kafka_dataset_envelope ''kafka_elt_load'' (data_set_new landing_schema [[Int64 9, Utf8 ''x'']]))
   \<and> kafka_poll_window_loaded_json_impl kafka_texts (\<lambda>_. None) one_turn (Some ''cfg'') (Some ''schema'') =
     Some (Ok (kafka_dataset_envelope ''kafka_poll_window_loaded'' (data_set_new landing_schema [[Int64 9, Utf8 ''x'']])))"
proof -
  have texts: "jl_utf8_error kafka_texts t = None" "jl_text kafka_texts = (\<lambda>_. ''{}'')"
    "jl_parse kafka_texts ''doc'' = Inr (JObject [(''records'', JArray [json_of_record (record_of_message one_message)])])"
    "jl_parse kafka_texts ''schema'' = Inr (json_of_schema landing_schema)" for t
    by (simp_all add: kafka_texts_def no_options_def)
  have poll: "kafka_poll_window_json_impl kafka_texts (\<lambda>_. None) one_turn (Some ''cfg'') =
    Some (Ok (json_ok (JObject [(''kind'', JString ''kafka_poll_window''), (''records'', JArray [json_of_record (record_of_message one_message)])])))"
  proof -
    let ?b = "consumer_from_config \<lparr>cc_brokers = ''b'', cc_group_id = ''g'', cc_topic = ''t'', cc_max_records = 500,
      cc_auto_offset_reset = ''earliest'', cc_session_timeout_ms = None\<rparr>"
    have "poll_kafka_window (\<lambda>_. None) one_turn ?b 500 = Some (Ok [record_of_message one_message])"
    proof -
      have "consumer_validate ?b = Ok ()" by code_simp
      then show ?thesis
        by (simp add: poll_kafka_window_def consumer_build_def one_turn_def poll_window_def poll_loop.simps)
    qed
    then show ?thesis
      by (simp add: kafka_poll_window_json_impl_def with_args_def cstr_to_str_def kafka_texts_def no_options_def parse_config_def
        consumer_config_of_json_def struct_slots_def map_slots_def required_def optional_def defaulted_def json_nat_def as_u64_def
        default_max_records_def default_auto_offset_reset_def opt_of_json_def answer_def)
  qed
  have sch: "rbind (cstr_to_str kafka_texts (Some ''schema'') ''schema_json'') (parse_schema_json kafka_texts) = Ok landing_schema"
    by code_simp
  have load: "kafka_elt_load_records_json_impl kafka_texts (Some ''doc'') (Some ''schema'') =
     Ok (kafka_dataset_envelope ''kafka_elt_load'' (data_set_new landing_schema [[Int64 9, Utf8 ''x'']]))"
    by code_simp
  from kafka_poll_then_load [OF poll texts(3,1) sch] obtain r where
    r: "answer kafka_texts (kafka_dataset_envelope ''kafka_elt_load'') r =
      Ok (kafka_dataset_envelope ''kafka_elt_load'' (data_set_new landing_schema [[Int64 9, Utf8 ''x'']]))"
    and loaded: "kafka_poll_window_loaded_json_impl kafka_texts (\<lambda>_. None) one_turn (Some ''cfg'') (Some ''schema'') =
      Some (answer kafka_texts (kafka_dataset_envelope ''kafka_poll_window_loaded'') r)"
    using load by auto
  from r have "answer kafka_texts (kafka_dataset_envelope ''kafka_poll_window_loaded'') r =
      Ok (kafka_dataset_envelope ''kafka_poll_window_loaded'' (data_set_new landing_schema [[Int64 9, Utf8 ''x'']]))"
    by (cases r) (auto simp: answer_def kafka_dataset_envelope_def json_ok_def json_err_def split: fault.splits)
  with load loaded show ?thesis by simp
qed

end
