(* ===== verification/Py_Api.thy ===== *)
theory Py_Api
  imports Py_Engine Py_Frame Jvm_Kafka Database Export Transform Validation Partition Utf8_Steps
begin

text \<open>
  The functions of the Python module (\<open>python-wrapper/src/lib.rs\<close>): ingestion, Kafka, object stores and
  file transfer, exports, reports, reductions and file discovery. Each converts its arguments in the order
  of the code, calls the library and converts the outcome; a path is its UTF-8 text on both sides.
\<close>

subsection \<open>Ingestion\<close>

text \<open>Calls with an effect on the observers' world.\<close>

definition io_py :: "('o, 'e, 'w) pyo3 \<Rightarrow> ('v, ingestion_error, 'a) io \<Rightarrow> ('v, 'e py_err, 'a) io" where
  "io_py X m = io_map_err (ingestion_err_to_py X) m"

text \<open>The schema and the options, in this order.\<close>

definition schema_and_options :: "('o, 'e, 'w) pyo3 \<Rightarrow> 'o \<Rightarrow> 'o option \<Rightarrow> ('e, schema \<times> 'w ingestion_options) py" where
  "schema_and_options X s options =
     rbind (schema_from_py X s) (\<lambda>sch. rmap (\<lambda>opts. (sch, opts)) (merge_ingestion_options X options))"

definition ingest_from_path_py ::
  "('o, 'e, 'w) pyo3 \<Rightarrow> env \<Rightarrow> path \<Rightarrow> 'o \<Rightarrow> 'o option \<Rightarrow> ('w, 'e py_err, data_set) io" where
  "ingest_from_path_py X E p s options =
     io_bind (io_of (schema_and_options X s options)) (\<lambda>(sch, opts). io_py X (ingest_from_path E p sch opts))"

definition infer_schema_from_path_py :: "('o, 'e, 'w) pyo3 \<Rightarrow> env \<Rightarrow> path \<Rightarrow> 'o option \<Rightarrow> ('e, 'o) py" where
  "infer_schema_from_path_py X E p options =
     rbind (merge_ingestion_options X options) (\<lambda>opts.
     rmap (schema_to_py_list X) (to_py X (infer_schema_from_path E p opts)))"

definition batch_metadata_to_py :: "('o, 'e, 'w) pyo3 \<Rightarrow> ordered_batch_metadata \<Rightarrow> 'o" where
  "batch_metadata_to_py X meta =
     pn_dict X
       [(''paths'', pn_list X (map (pn_str X) (bm_paths meta))),
        (''last_path'', case bm_last_path meta of Some p \<Rightarrow> pn_str X p | None \<Rightarrow> pn_none X),
        (''max_watermark_value'', case bm_max_watermark_value meta of Some v \<Rightarrow> value_to_py X v | None \<Rightarrow> pn_none X)]"

definition ingest_from_ordered_paths_py ::
  "('o, 'e, 'w) pyo3 \<Rightarrow> env \<Rightarrow> path list \<Rightarrow> 'o \<Rightarrow> 'o option \<Rightarrow> ('w, 'e py_err, data_set \<times> 'o) io" where
  "ingest_from_ordered_paths_py X E paths s options =
     io_bind (io_of (schema_and_options X s options)) (\<lambda>(sch, opts).
     io_bind (io_py X (ingest_from_ordered_paths E paths sch opts)) (\<lambda>(ds, meta). io_ok (ds, batch_metadata_to_py X meta)))"

definition ingest_from_path_infer_py :: "('o, 'e, 'w) pyo3 \<Rightarrow> env \<Rightarrow> path \<Rightarrow> 'o option \<Rightarrow> ('w, 'e py_err, data_set) io" where
  "ingest_from_path_infer_py X E p options =
     io_bind (io_of (merge_ingestion_options X options)) (\<lambda>opts. io_py X (ingest_from_path_infer E p opts))"

definition ingest_from_db_py :: "('o, 'e, 'w) pyo3 \<Rightarrow> connectorx \<Rightarrow> string \<Rightarrow> string \<Rightarrow> 'o \<Rightarrow> 'o option \<Rightarrow> ('e, data_set) py" where
  "ingest_from_db_py X C conn query s options =
     rbind (schema_and_options X s options) (\<lambda>(sch, opts). to_py X (ingest_from_db C conn query sch opts))"

definition ingest_from_db_infer_py :: "('o, 'e, 'w) pyo3 \<Rightarrow> connectorx \<Rightarrow> string \<Rightarrow> string \<Rightarrow> 'o option \<Rightarrow> ('e, data_set) py" where
  "ingest_from_db_infer_py X C conn query options =
     rbind (merge_ingestion_options X options) (\<lambda>opts. to_py X (ingest_from_db_infer C conn query opts))"

definition ingest_from_object_store_uri_py ::
  "('o, 'e, 'w) pyo3 \<Rightarrow> remote \<Rightarrow> string \<Rightarrow> 'o \<Rightarrow> 'o option \<Rightarrow> (net_call list \<times> 'w, 'e py_err, data_set) io" where
  "ingest_from_object_store_uri_py X R uri s options =
     io_bind (io_of (schema_and_options X s options)) (\<lambda>(sch, opts). io_py X (ingest_from_object_store_uri R uri sch opts))"

definition export_dataset_to_object_store_uri_py ::
  "('o, 'e, 'w) pyo3 \<Rightarrow> remote \<Rightarrow> string \<Rightarrow> data_set \<Rightarrow> (net_call list \<times> 'w, 'e py_err, unit) io" where
  "export_dataset_to_object_store_uri_py X R uri ds = io_py X (export_dataset_to_object_store_uri R uri ds)"

definition ingest_from_file_transfer_uri_py ::
  "('o, 'e, 'w) pyo3 \<Rightarrow> remote \<Rightarrow> string \<Rightarrow> 'o \<Rightarrow> 'o option \<Rightarrow> (net_call list \<times> 'w, 'e py_err, data_set) io" where
  "ingest_from_file_transfer_uri_py X R uri s options =
     io_bind (io_of (schema_and_options X s options)) (\<lambda>(sch, opts). io_py X (ingest_from_file_transfer_uri R uri sch opts))"

subsection \<open>Kafka\<close>

definition elt_load_kafka_records_json_py :: "('o, 'e, 'w) pyo3 \<Rightarrow> json_lib \<Rightarrow> string \<Rightarrow> 'o \<Rightarrow> ('e, data_set) py" where
  "elt_load_kafka_records_json_py X L records_json landing =
     rbind (schema_from_py X landing) (\<lambda>s.
     to_py X (elt_load_kafka_records_json (jl_text L) (jl_parse L) (envelope_of_text L) (bare_of_text L) records_json s))"

definition py_consumer :: "string \<Rightarrow> string \<Rightarrow> string \<Rightarrow> string \<Rightarrow> 32 word option \<Rightarrow> consumer_builder" where
  "py_consumer brokers group_id topic auto_offset_reset session_timeout_ms =
     (let b = with_auto_offset_reset auto_offset_reset (consumer_new brokers group_id topic) in
      case session_timeout_ms of Some ms \<Rightarrow> with_session_timeout_ms ms b | None \<Rightarrow> b)"

text \<open>\<open>text_of\<close> is \<open>serde_json::to_string\<close>.\<close>

definition poll_kafka_window_py ::
  "('o, 'e, 'w) pyo3 \<Rightarrow> (json \<Rightarrow> string + string) \<Rightarrow> (consumer_builder \<Rightarrow> err_src option) \<Rightarrow>
   (consumer_builder \<Rightarrow> err_src + (nat \<times> poll) list) \<Rightarrow> string \<Rightarrow> string \<Rightarrow> string \<Rightarrow> nat \<Rightarrow> string \<Rightarrow> 32 word option \<Rightarrow>
   ('e, string) py option" where
  "poll_kafka_window_py X text_of create subscribe brokers group_id topic max_records auto_offset_reset session_timeout_ms =
     map_option (\<lambda>r. rbind (to_py X r) (\<lambda>records.
         case text_of (JObject [(''records'', JArray (map json_of_record records))]) of
           Inl e \<Rightarrow> value_error e
         | Inr t \<Rightarrow> Ok t))
       (poll_kafka_window create subscribe (py_consumer brokers group_id topic auto_offset_reset session_timeout_ms) max_records)"

definition poll_kafka_window_loaded_py ::
  "('o, 'e, 'w) pyo3 \<Rightarrow> json_lib \<Rightarrow> (consumer_builder \<Rightarrow> err_src option) \<Rightarrow> (consumer_builder \<Rightarrow> err_src + (nat \<times> poll) list) \<Rightarrow>
   string \<Rightarrow> string \<Rightarrow> string \<Rightarrow> 'o \<Rightarrow> nat \<Rightarrow> string \<Rightarrow> 32 word option \<Rightarrow> ('e, data_set) py option" where
  "poll_kafka_window_loaded_py X L create subscribe brokers group_id topic landing max_records auto_offset_reset session_timeout_ms =
     (case schema_from_py X landing of
        Inl e \<Rightarrow> Some (Inl e)
      | Inr s \<Rightarrow> map_option (to_py X)
          (poll_kafka_window_loaded (jl_text L) (jl_parse L) create subscribe
            (py_consumer brokers group_id topic auto_offset_reset session_timeout_ms) s max_records))"

definition export_dataset_to_kafka_py ::
  "('o, 'e, 'w) pyo3 \<Rightarrow> (producer_builder \<Rightarrow> err_src + 'p) \<Rightarrow> (kafka_message \<Rightarrow> 'p \<Rightarrow> err_src + 'p) \<Rightarrow> ('p \<Rightarrow> err_src option \<times> 'p) \<Rightarrow>
   (json \<Rightarrow> string) \<Rightarrow> (f64 \<Rightarrow> string) \<Rightarrow> string \<Rightarrow> string \<Rightarrow> data_set \<Rightarrow> string option \<Rightarrow> string option \<Rightarrow> 64 word \<Rightarrow>
   ('e, nat) py \<times> 'p option" where
  "export_dataset_to_kafka_py X create send flush jtext show_f64 brokers topic ds key_column value_column message_timeout_ms =
     (let b0 = with_message_timeout_ms message_timeout_ms (producer_new brokers topic);
          b1 = (case key_column of Some c \<Rightarrow> with_key_column c b0 | None \<Rightarrow> b0);
          b2 = (case value_column of Some c \<Rightarrow> with_value_column c b1 | None \<Rightarrow> b1) in
      case export_dataset_to_kafka create send flush jtext show_f64 b2 ds of (r, pr) \<Rightarrow> (to_py X r, pr))"

subsection \<open>Transforms and exports\<close>

text \<open>\<open>spec_of_text\<close> deserializes a specification.\<close>

definition transform_apply_json ::
  "('o, 'e, 'w) pyo3 \<Rightarrow> transform_env \<Rightarrow> (string \<Rightarrow> string + transform_spec) \<Rightarrow> data_set \<Rightarrow> string \<Rightarrow> ('e, data_set) py" where
  "transform_apply_json X T spec_of_text ds spec_json =
     (case spec_of_text spec_json of
        Inl e \<Rightarrow> value_error e
      | Inr spec \<Rightarrow> to_py X (transform_apply T spec ds))"

definition export_dataset_jsonl_py :: "('o, 'e, 'w) pyo3 \<Rightarrow> (json \<Rightarrow> string) \<Rightarrow> data_set \<Rightarrow> string list \<Rightarrow> ('e, string) py" where
  "export_dataset_jsonl_py X jtext ds columns = to_py X (dataset_to_jsonl jtext ds columns)"

definition export_train_test_row_indices_py :: "nat \<Rightarrow> f64 \<Rightarrow> nat list \<times> nat list" where
  "export_train_test_row_indices_py n test_fraction = train_test_row_indices n test_fraction"

definition export_filter_rows_max_utf8_chars_py :: "('o, 'e, 'w) pyo3 \<Rightarrow> data_set \<Rightarrow> string \<Rightarrow> nat \<Rightarrow> ('e, data_set) py" where
  "export_filter_rows_max_utf8_chars_py X ds c max_chars = to_py X (filter_rows_max_utf8_chars ds c max_chars)"

definition reports_truncate_utf8_bytes_py :: "string \<Rightarrow> nat \<Rightarrow> string" where
  "reports_truncate_utf8_bytes_py t max_bytes = truncate_utf8_by_bytes t max_bytes"

subsection \<open>Reports\<close>

definition privacy_summarize_utf8_changes_json_py ::
  "('o, 'e, 'w) pyo3 \<Rightarrow> (json \<Rightarrow> string + string) \<Rightarrow> data_set \<Rightarrow> data_set \<Rightarrow> string list \<Rightarrow> ('e, string) py" where
  "privacy_summarize_utf8_changes_json_py X pretty before after columns =
     to_py X (render_privacy_report_json pretty (summarize_utf8_column_changes before after columns))"

definition privacy_summarize_utf8_changes_markdown_py :: "data_set \<Rightarrow> data_set \<Rightarrow> string list \<Rightarrow> ('e, string) py" where
  "privacy_summarize_utf8_changes_markdown_py before after columns =
     Ok (render_privacy_report_markdown (summarize_utf8_column_changes before after columns))"

text \<open>A report of the dataset, rendered; the formatting of floats and of \<open>Debug\<close> values is a parameter.\<close>

definition profile_report_py ::
  "('o, 'e, 'w) pyo3 \<Rightarrow> polars \<Rightarrow> engine \<Rightarrow> (f64 \<Rightarrow> string) \<Rightarrow> data_set \<Rightarrow> 'o option \<Rightarrow> ('e, profile_report) py" where
  "profile_report_py X P E show_f64 ds options =
     rbind (profile_options_from_py X options) (\<lambda>opts. to_py X (profile_dataset P E show_f64 ds opts))"

definition profile_dataset_json ::
  "('o, 'e, 'w) pyo3 \<Rightarrow> polars \<Rightarrow> engine \<Rightarrow> (f64 \<Rightarrow> string) \<Rightarrow> (json \<Rightarrow> string + string) \<Rightarrow> data_set \<Rightarrow> 'o option \<Rightarrow> ('e, string) py" where
  "profile_dataset_json X P E show_f64 pretty ds options =
     rbind (profile_report_py X P E show_f64 ds options) (\<lambda>rep. to_py X (render_profile_report_json pretty rep))"

definition profile_dataset_markdown ::
  "('o, 'e, 'w) pyo3 \<Rightarrow> polars \<Rightarrow> engine \<Rightarrow> (f64 \<Rightarrow> string) \<Rightarrow> (nat \<Rightarrow> f64 \<Rightarrow> string) \<Rightarrow> data_set \<Rightarrow> 'o option \<Rightarrow> ('e, string) py" where
  "profile_dataset_markdown X P E show_f64 fixed ds options =
     rmap (render_profile_report_markdown fixed) (profile_report_py X P E show_f64 ds options)"

definition validation_report_py ::
  "('o, 'e, 'w) pyo3 \<Rightarrow> polars \<Rightarrow> engine \<Rightarrow> (f64 \<Rightarrow> string) \<Rightarrow> data_set \<Rightarrow> 'o \<Rightarrow> ('e, validation_report) py" where
  "validation_report_py X P E show_f64 ds spec =
     rbind (validation_spec_from_py X spec) (\<lambda>sp. to_py X (validate_dataset P E show_f64 ds sp))"

definition validate_dataset_json ::
  "('o, 'e, 'w) pyo3 \<Rightarrow> polars \<Rightarrow> engine \<Rightarrow> (f64 \<Rightarrow> string) \<Rightarrow> (check \<Rightarrow> string) \<Rightarrow> (json \<Rightarrow> string + string) \<Rightarrow> data_set \<Rightarrow> 'o \<Rightarrow> ('e, string) py" where
  "validate_dataset_json X P E show_f64 dbg_check pretty ds spec =
     rbind (validation_report_py X P E show_f64 ds spec) (\<lambda>rep. to_py X (render_validation_report_json dbg_check pretty rep))"

definition validate_dataset_markdown ::
  "('o, 'e, 'w) pyo3 \<Rightarrow> polars \<Rightarrow> engine \<Rightarrow> (f64 \<Rightarrow> string) \<Rightarrow> (check \<Rightarrow> string) \<Rightarrow> (value_t \<Rightarrow> string) \<Rightarrow> data_set \<Rightarrow> 'o \<Rightarrow> ('e, string) py" where
  "validate_dataset_markdown X P E show_f64 dbg_check dbg_value ds spec =
     rmap (render_validation_report_markdown dbg_check dbg_value) (validation_report_py X P E show_f64 ds spec)"

definition outlier_report_py ::
  "('o, 'e, 'w) pyo3 \<Rightarrow> polars \<Rightarrow> engine \<Rightarrow> data_set \<Rightarrow> string \<Rightarrow> 'o \<Rightarrow> 'o option \<Rightarrow> ('e, outlier_report) py" where
  "outlier_report_py X P E ds c how options =
     rbind (outlier_method_from_py X how) (\<lambda>m.
     rbind (outlier_options_from_py X options) (\<lambda>opts. to_py X (detect_outliers_dataset P E ds c m opts)))"

definition detect_outliers_json ::
  "('o, 'e, 'w) pyo3 \<Rightarrow> polars \<Rightarrow> engine \<Rightarrow> (f64 \<Rightarrow> string) \<Rightarrow> (json \<Rightarrow> string + string) \<Rightarrow> data_set \<Rightarrow> string \<Rightarrow> 'o \<Rightarrow> 'o option \<Rightarrow>
   ('e, string) py" where
  "detect_outliers_json X P E dbg_f64 pretty ds c how options =
     rbind (outlier_report_py X P E ds c how options) (\<lambda>rep. to_py X (render_outlier_report_json dbg_f64 pretty rep))"

definition detect_outliers_markdown ::
  "('o, 'e, 'w) pyo3 \<Rightarrow> polars \<Rightarrow> engine \<Rightarrow> (nat \<Rightarrow> f64 \<Rightarrow> string) \<Rightarrow> (f64 \<Rightarrow> string) \<Rightarrow> (f64 \<Rightarrow> string) \<Rightarrow> data_set \<Rightarrow> string \<Rightarrow> 'o \<Rightarrow>
   'o option \<Rightarrow> ('e, string) py" where
  "detect_outliers_markdown X P E fixed show_f64 dbg_f64 ds c how options =
     rmap (render_outlier_report_markdown fixed show_f64 dbg_f64) (outlier_report_py X P E ds c how options)"

subsection \<open>Reductions\<close>

definition processing_reduce :: "('o, 'e, 'w) pyo3 \<Rightarrow> bool \<Rightarrow> data_set \<Rightarrow> string \<Rightarrow> string \<Rightarrow> ('e, 'o) py" where
  "processing_reduce X checks ds c oper =
     rbind (parse_reduce_op oper) (\<lambda>rop. rmap (opt_value_to_py X) (to_py X (reduce checks ds c rop)))"

definition processing_feature_wise_mean_std :: "('o, 'e, 'w) pyo3 \<Rightarrow> data_set \<Rightarrow> string list \<Rightarrow> string option \<Rightarrow> ('e, 'o) py" where
  "processing_feature_wise_mean_std X ds columns std_kind =
     rbind (std_kind_from_py std_kind) (\<lambda>k.
     rmap (mean_std_to_py X)
       (ok_or (PyValueError ''feature_wise_mean_std: unknown column or non-numeric type'') (feature_wise_mean_std ds columns k)))"

text \<open>A row index and its value, or \<open>None\<close>.\<close>

definition arg_row_to_py :: "('o, 'e, 'w) pyo3 \<Rightarrow> string \<Rightarrow> (nat \<times> value_t) option option \<Rightarrow> ('e, (nat \<times> 'o) option) py" where
  "arg_row_to_py X c r =
     rmap (map_option (\<lambda>(i, v). (i, value_to_py X v))) (ok_or (PyValueError (''unknown column '' @ sq c)) r)"

definition processing_arg_max_row :: "('o, 'e, 'w) pyo3 \<Rightarrow> data_set \<Rightarrow> string \<Rightarrow> ('e, (nat \<times> 'o) option) py" where
  "processing_arg_max_row X ds c = arg_row_to_py X c (arg_max_row ds c)"

definition processing_arg_min_row :: "('o, 'e, 'w) pyo3 \<Rightarrow> data_set \<Rightarrow> string \<Rightarrow> ('e, (nat \<times> 'o) option) py" where
  "processing_arg_min_row X ds c = arg_row_to_py X c (arg_min_row ds c)"

definition processing_top_k_by_frequency ::
  "('o, 'e, 'w) pyo3 \<Rightarrow> ((value_t \<times> i64) list \<Rightarrow> (value_t \<times> i64) list) \<Rightarrow> data_set \<Rightarrow> string \<Rightarrow> nat \<Rightarrow> ('e, 'o) py" where
  "processing_top_k_by_frequency X hash_order ds c k =
     rmap (\<lambda>rs. pn_list X (map (\<lambda>(v, n). pn_list X [value_to_py X v, pn_int X (sint n)]) rs))
       (ok_or (PyValueError (''unknown column '' @ sq c)) (top_k_by_frequency hash_order ds c k))"

subsection \<open>File discovery\<close>

definition segment_to_py :: "('o, 'e, 'w) pyo3 \<Rightarrow> partition_segment \<Rightarrow> 'o" where
  "segment_to_py X s = pn_dict X [(''key'', pn_str X (sg_key s)), (''value'', pn_str X (sg_value s))]"

definition discover_hive_partitioned_files_py :: "('o, 'e, 'w) pyo3 \<Rightarrow> file_system \<Rightarrow> path \<Rightarrow> string option \<Rightarrow> ('e, 'o) py" where
  "discover_hive_partitioned_files_py X F root_dir file_pattern =
     rmap (\<lambda>fs. pn_list X (map (\<lambda>pf. pn_dict X [(''path'', pn_str X (pf_path pf)),
         (''segments'', pn_list X (map (segment_to_py X) (pf_segments pf)))]) fs))
       (to_py X (discover_hive_partitioned_files F root_dir file_pattern))"

definition paths_to_py :: "('o, 'e, 'w) pyo3 \<Rightarrow> path list \<Rightarrow> 'o" where
  "paths_to_py X ps = pn_list X (map (pn_str X) ps)"

definition paths_from_glob_py :: "('o, 'e, 'w) pyo3 \<Rightarrow> file_system \<Rightarrow> string \<Rightarrow> ('e, 'o) py" where
  "paths_from_glob_py X F pattern = rmap (paths_to_py X) (to_py X (paths_from_glob F pattern))"

definition paths_from_directory_scan_py :: "('o, 'e, 'w) pyo3 \<Rightarrow> file_system \<Rightarrow> path \<Rightarrow> string option \<Rightarrow> ('e, 'o) py" where
  "paths_from_directory_scan_py X F root_dir relative_pattern =
     rmap (paths_to_py X) (to_py X (paths_from_directory_scan F root_dir relative_pattern))"

definition paths_from_explicit_list_py :: "('o, 'e, 'w) pyo3 \<Rightarrow> file_system \<Rightarrow> path list \<Rightarrow> ('e, 'o) py" where
  "paths_from_explicit_list_py X F paths = rmap (paths_to_py X) (to_py X (paths_from_explicit_list F paths))"

definition parse_partition_segment_py :: "('o, 'e, 'w) pyo3 \<Rightarrow> string \<Rightarrow> ('e, 'o) py" where
  "parse_partition_segment_py X c =
     (case parse_partition_segment c of Some s \<Rightarrow> Ok (segment_to_py X s) | None \<Rightarrow> Ok (pn_none X))"

end
