(* ===== verification/Jvm_Parity.thy ===== *)
theory Jvm_Parity
  imports Jvm_Ingest Transform Validation Outliers Export Sql_Query
begin

text \<open>
  The parity functions of the JVM binding (\<open>bindings/jvm-sys/src/parity.rs\<close>): the ingestion of one Excel
  sheet under its inferred schema, exports to temporary files, and fixed scenarios over the other
  components; with the types of change data capture (\<open>src/cdc/mod.rs\<close>). The exported functions put an
  outcome into an envelope.
\<close>

subsection \<open>Envelopes\<close>

definition parity :: "(string, json) res \<Rightarrow> (string, json) res" where
  "parity r =
     (case r of Inr v \<Rightarrow> Ok (json_ok v) | Inl (Failed e) \<Rightarrow> Ok (json_err e) | Inl (Panic m) \<Rightarrow> Panics m)"

text \<open>\<open>map_err(|e| e.to_string())\<close>.\<close>

definition shown :: "json_lib \<Rightarrow> 'a result \<Rightarrow> (string, 'a) res" where
  "shown L r = map_err (jl_show_error L) r"

subsection \<open>One Excel sheet\<close>

definition sheet_options :: "string \<Rightarrow> unit ingestion_options" where
  "sheet_options sheet = default_options\<lparr>opt_format := Some Excel, opt_excel_sheet_selection := Sheet sheet\<rparr>"

definition excel_ingest_path_sheet :: "json_lib \<Rightarrow> env \<Rightarrow> string \<Rightarrow> string \<Rightarrow> (string, json) res" where
  "excel_ingest_path_sheet L E p sheet =
     (case jl_utf8_error L p of
        Some e \<Rightarrow> Ok (json_err (''excel path not valid UTF-8: '' @ e))
      | None \<Rightarrow> (case jl_utf8_error L sheet of
          Some e \<Rightarrow> Ok (json_err (''excel sheet name not valid UTF-8: '' @ e))
        | None \<Rightarrow> (case infer_schema_from_path E p (sheet_options sheet) of
            Inl (Failed e) \<Rightarrow> Ok (json_err (''infer Excel schema failed: '' @ jl_show_error L e))
          | Inl (Panic m) \<Rightarrow> Panics m
          | Inr s \<Rightarrow> (case fst (ingest_from_path E p s (sheet_options sheet) ()) of
              Inl (Failed e) \<Rightarrow> Ok (json_err (''Excel ingest failed: '' @ jl_show_error L e))
            | Inl (Panic m) \<Rightarrow> Panics m
            | Inr ds \<Rightarrow> Ok (json_ok (JObject [(''kind'', JString ''excel_ingest_sheet''), (''dataset'', json_of_data_set ds)]))))))"

subsection \<open>Exports to temporary files\<close>

definition names_data :: data_set where
  "names_data = data_set_new (schema_new [mk_field ''id'' TInt64, mk_field ''name'' TUtf8])
     [[Int64 1, Utf8 ''Ada''], [Int64 2, Utf8 ''Bob'']]"

definition active_data :: data_set where
  "active_data = data_set_new (schema_new [mk_field ''id'' TInt64, mk_field ''active'' TBool])
     [[Int64 1, Bool True], [Int64 2, Bool False]]"

text \<open>A file named by the clock, below a directory created when it is missing.\<close>

definition temp_file ::
  "json_lib \<Rightarrow> temp_files \<Rightarrow> string \<Rightarrow> string \<Rightarrow> string \<Rightarrow> (path \<Rightarrow> data_set \<Rightarrow> string result) \<Rightarrow> string \<Rightarrow> data_set \<Rightarrow> (string, json) res" where
  "temp_file L T dir_name stem ext export kind ds =
     (let base = path_join (tf_dir T) dir_name in
      case tf_create_dir T base of
        Some e \<Rightarrow> Err e
      | None \<Rightarrow> (case tf_stamp T of
          Inl e \<Rightarrow> Err e
        | Inr stamp \<Rightarrow>
            (let p = path_join base (stem @ show_nat stamp @ ext) in
             rmap (\<lambda>_. JObject
               [(''kind'', JString kind), (''path'', JString p), (''row_count'', json_nat (row_count ds)),
                (''schema'', json_of_schema (ds_schema ds))]) (shown L (export p ds)))))"

definition export_parquet_temp_impl :: "json_lib \<Rightarrow> temp_files \<Rightarrow> polars \<Rightarrow> (string, json) res" where
  "export_parquet_temp_impl L T P =
     temp_file L T ''rdp_jvm_parquet'' ''rdp_export_'' ''.parquet'' (export_dataset_to_parquet P (tf_create T) (tf_parquet T))
       ''parquet_export_temp'' names_data"

definition export_arrow_ipc_temp_impl :: "json_lib \<Rightarrow> temp_files \<Rightarrow> polars \<Rightarrow> (string, json) res" where
  "export_arrow_ipc_temp_impl L T P =
     temp_file L T ''rdp_jvm_arrow_ipc'' ''rdp_export_'' ''.arrow'' (export_dataset_to_arrow_ipc P (tf_create T) (tf_ipc T))
       ''arrow_ipc_export_temp'' names_data"

text \<open>The active rows by SQL.\<close>

definition active_sql :: string where
  "active_sql = ''SELECT id FROM df WHERE active = TRUE ORDER BY id''"

definition active_ids :: "json_lib \<Rightarrow> polars \<Rightarrow> engine \<Rightarrow> sql_engine \<Rightarrow> (string, data_set) res" where
  "active_ids L P E S =
     rbind (shown L (from_dataset P active_data)) (\<lambda>df.
     rbind (shown L (sql_query S df active_sql)) (\<lambda>out. shown L (collect_plan P E out)))"

definition export_polars_parquet_temp_impl :: "json_lib \<Rightarrow> temp_files \<Rightarrow> polars \<Rightarrow> engine \<Rightarrow> sql_engine \<Rightarrow> (string, json) res" where
  "export_polars_parquet_temp_impl L T P E S =
     rbind (active_ids L P E S)
       (temp_file L T ''rdp_jvm_polars_parquet'' ''rdp_polars_export_'' ''.parquet'' (export_dataset_to_parquet P (tf_create T) (tf_parquet T))
         ''polars_parquet_export_temp'')"

subsection \<open>Scenarios\<close>

definition types_dataset_impl :: "(string, json) res" where
  "types_dataset_impl = Ok (JObject
     [(''kind'', JString ''types_dataset''), (''engine'', JString ''in_memory_data_set''), (''dataset'', json_of_data_set names_data)])"

text \<open>\<open>csv_records\<close> is the reader of the \<open>csv\<close> library.\<close>

definition ingestion_impl ::
  "json_lib \<Rightarrow> (string list \<Rightarrow> string) \<Rightarrow> (string \<Rightarrow> (csv_error + string list) \<times> (csv_error + string list) list) \<Rightarrow> (string, json) res" where
  "ingestion_impl L dbg csv_records =
     (let (headers, records) = csv_records (''id,name'' @ [CHR 0x0A] @ ''1,Ada'' @ [CHR 0x0A] @ ''2,Bob'' @ [CHR 0x0A]) in
      rmap (\<lambda>ds. JObject
          [(''kind'', JString ''ingestion_csv_reader_polars''), (''engine'', JString ''polars_csv_then_dataframe_to_dataset''),
           (''dataset'', json_of_data_set ds)])
        (shown L (ingest_csv_from_reader dbg headers records (ds_schema names_data))))"

definition scores :: data_set where
  "scores = data_set_new (schema_new [mk_field ''id'' TInt64, mk_field ''score'' TFloat64])
     [[Int64 1, Float64 (of_int64 10)], [Int64 2, Float64 (of_int64 20)]]"

definition id_above_one :: "row \<Rightarrow> bool" where
  "id_above_one r = (case get r 0 of Some (Int64 i) \<Rightarrow> 1 < sint i | _ \<Rightarrow> False)"

definition double_score :: "row \<Rightarrow> row" where
  "double_score r = (case get r 1 of Some (Float64 x) \<Rightarrow> r[1 := Float64 (fmul x (of_int64 2))] | _ \<Rightarrow> r)"

definition processing_impl :: "json_lib \<Rightarrow> bool \<Rightarrow> (string, json) res" where
  "processing_impl L checks =
     (let filtered = filter_ds scores id_above_one in
      rbind (shown L (map_ds filtered double_score)) (\<lambda>mapped.
      rmap (\<lambda>s. JObject
          [(''kind'', JString ''processing_filter_map_reduce''), (''filtered_row_count'', json_nat (row_count filtered)),
           (''mapped_row_count'', json_nat (row_count mapped)),
           (''reduce_sum_score'', json_of_value (case s of Some v \<Rightarrow> v | None \<Rightarrow> Null))])
        (shown L (reduce checks mapped ''score'' Sum))))"

definition pipeline_sql_impl :: "json_lib \<Rightarrow> polars \<Rightarrow> engine \<Rightarrow> sql_engine \<Rightarrow> (string, json) res" where
  "pipeline_sql_impl L P E S =
     rmap (\<lambda>out. JObject
         [(''kind'', JString ''pipeline_sql_polars''), (''engine'', JString ''polars_sql''), (''dataset'', json_of_data_set out)])
       (active_ids L P E S)"

definition profiled :: data_set where
  "profiled = data_set_new (ds_schema scores) [[Int64 1, Float64 (of_int64 10)], [Int64 2, Float64 (of_int64 30)]]"

definition profiling_impl ::
  "json_lib \<Rightarrow> polars \<Rightarrow> engine \<Rightarrow> (f64 \<Rightarrow> string) \<Rightarrow> (json \<Rightarrow> string + string) \<Rightarrow> (string, json) res" where
  "profiling_impl L P E show_f64 pretty =
     rbind (shown L (profile_dataset P E show_f64 profiled default_profile_options)) (\<lambda>rep.
     rbind (shown L (render_profile_report_json pretty rep)) (\<lambda>json_txt.
     case jl_parse L json_txt of
       Inl e \<Rightarrow> Err e
     | Inr parsed \<Rightarrow> Ok (JObject
         [(''kind'', JString ''profiling_polars''), (''engine'', JString ''polars_profile_dataset''), (''report'', parsed)])))"

definition one_missing :: data_set where
  "one_missing = data_set_new (ds_schema names_data) [[Int64 1, Utf8 ''ok''], [Int64 2, Null]]"

definition name_present :: validation_spec where
  "name_present = validation_spec_new [NotNull ''name'' severity.Error]"

definition validation_impl :: "json_lib \<Rightarrow> polars \<Rightarrow> engine \<Rightarrow> (f64 \<Rightarrow> string) \<Rightarrow> (string, json) res" where
  "validation_impl L P E show_f64 =
     rmap (\<lambda>rep. JObject
         [(''kind'', JString ''validation_polars_dsl''), (''engine'', JString ''polars_expr_checks''),
          (''summary'', JObject
            [(''total_checks'', json_nat (sm_total_checks (vr_summary rep))), (''failed_checks'', json_nat (sm_failed_checks (vr_summary rep)))])])
       (shown L (validate_dataset P E show_f64 one_missing name_present))"

definition one_large :: data_set where
  "one_large = data_set_new (schema_new [mk_field ''x'' TFloat64])
     [[Float64 (of_int64 1)], [Float64 (of_int64 1)], [Float64 (of_int64 1)], [Float64 (of_int64 1)], [Float64 (of_int64 1000)]]"

definition outliers_impl :: "json_lib \<Rightarrow> polars \<Rightarrow> engine \<Rightarrow> (string, json) res" where
  "outliers_impl L P E =
     rmap (\<lambda>rep. JObject
         [(''kind'', JString ''outliers_polars''), (''engine'', JString ''polars_stats_fences''), (''column'', JString (or_column rep)),
          (''row_count'', json_nat (or_rows rep)), (''outlier_count'', json_nat (or_count rep))])
       (shown L (detect_outliers_dataset P E one_large ''x'' (Iqr (fdiv (of_int64 3) (of_int64 2)))
         \<lparr>oo_sampling = FullSample, oo_max_examples = 3\<rparr>))"

definition int_scores :: data_set where
  "int_scores = data_set_new (schema_new [mk_field ''id'' TInt64, mk_field ''score'' TInt64]) [[Int64 1, Int64 10], [Int64 2, Null]]"

definition score_steps :: "transform_step list" where
  "score_steps = [Rename [(''score'', ''score_f'')], Cast ''score_f'' TFloat64 Lossy, FillNull ''score_f'' (Float64 (fzero False))]"

definition score_spec :: transform_spec where
  "score_spec = fold with_step score_steps
     (transform_spec_new (schema_new [mk_field ''id'' TInt64, mk_field ''score_f'' TFloat64]))"

definition transform_impl :: "json_lib \<Rightarrow> transform_env \<Rightarrow> (string, json) res" where
  "transform_impl L T =
     rmap (\<lambda>out. JObject
         [(''kind'', JString ''transform_spec_polars''), (''engine'', JString ''polars_lazy_plan''), (''dataset'', json_of_data_set out)])
       (shown L (transform_apply T score_spec int_scores))"

definition emails :: data_set where
  "emails = data_set_new (schema_new [mk_field ''email'' TUtf8]) [[Utf8 ''a@x.com''], [Utf8 ''b@x.com'']]"

definition masked_emails :: data_set where
  "masked_emails = emails\<lparr>rows := (rows emails)[0 := (rows emails ! 0)[0 := Utf8 ''masked'']]\<rparr>"

definition export_privacy_reports_impl :: "json_lib \<Rightarrow> (json \<Rightarrow> string + string) \<Rightarrow> (string, json) res" where
  "export_privacy_reports_impl L pretty =
     rbind (shown L (dataset_to_jsonl (jl_text L) emails [''email''])) (\<lambda>jsonl.
     rbind (shown L (render_privacy_report_json pretty (summarize_utf8_column_changes emails masked_emails [''email'']))) (\<lambda>privacy_json.
     let (train, test) = train_test_row_indices 100 (fdiv (of_int64 1) (of_int64 5)) in
     Ok (JObject
       [(''kind'', JString ''export_privacy_reports_phase2''),
        (''jsonl_preview_lines'', JArray (map JString (take 2 (str_lines jsonl)))),
        (''privacy_report_json'', case jl_parse L privacy_json of Inr j \<Rightarrow> j | Inl _ \<Rightarrow> JNull),
        (''reports_truncated_sample'', JString (truncate_utf8_by_bytes privacy_json 120)),
        (''train_test_indices_demo'', JObject [(''train_len'', json_nat (length train)), (''test_len'', json_nat (length test))])])))"

definition parity_kafka :: json where
  "parity_kafka = json_ok (JObject
     [(''kind'', JString ''kafka''), (''status'', JString ''in_progress''), (''model'', JString ''streaming_elt''),
      (''extract'', JString ''poll_kafka_window (rdp_kafka_poll_window_json FFI)''),
      (''load'', JString ''elt_load_kafka_records_json''), (''transform'', JString ''separate Polars SQL / rdp_run_pipeline_json''),
      (''docs'', JString ''docs/KAFKA_ELT.md''), (''tracker'', JString ''P3-E2'')])"

subsection \<open>Change data capture\<close>

datatype cdc_op = CdcInsert | CdcUpdate | CdcDelete | CdcTruncate

record table_ref =
  tr_schema :: "string option"
  tr_name :: string

definition table_ref_new :: "string \<Rightarrow> table_ref" where
  "table_ref_new n = \<lparr>tr_schema = None, tr_name = n\<rparr>"

definition table_ref_with_schema :: "string \<Rightarrow> string \<Rightarrow> table_ref" where
  "table_ref_with_schema s n = \<lparr>tr_schema = Some s, tr_name = n\<rparr>"

type_synonym row_image = "(string \<times> value_t) list"

record source_meta =
  sm_source :: "string option"
  sm_checkpoint :: "string option"

record cdc_event =
  ce_meta :: source_meta
  ce_table :: table_ref
  ce_op :: cdc_op
  ce_before :: "row_image option"
  ce_after :: "row_image option"

definition show_cdc_op :: "cdc_op \<Rightarrow> string" where
  "show_cdc_op c = (case c of CdcInsert \<Rightarrow> ''Insert'' | CdcUpdate \<Rightarrow> ''Update'' | CdcDelete \<Rightarrow> ''Delete'' | CdcTruncate \<Rightarrow> ''Truncate'')"

definition user_inserted :: cdc_event where
  "user_inserted = \<lparr>ce_meta = \<lparr>sm_source = Some ''demo'', sm_checkpoint = None\<rparr>, ce_table = table_ref_with_schema ''public'' ''users'',
     ce_op = CdcInsert, ce_before = None, ce_after = Some [(''id'', Int64 1), (''name'', Utf8 ''Ada'')]\<rparr>"

definition cdc_impl :: "(string, json) res" where
  "cdc_impl = Ok (JObject
     [(''kind'', JString ''cdc_boundary_types''), (''engine'', JString ''crate_cdc_module''),
      (''event'', JObject
        [(''op'', JString (show_cdc_op (ce_op user_inserted))), (''table'', JString (tr_name (ce_table user_inserted))),
         (''schema'', json_str_opt (tr_schema (ce_table user_inserted)))])])"

subsection \<open>The scenarios\<close>

text \<open>An envelope says whether its content is an outcome or an error; only a panic gets through it.\<close>

lemma parity_answers: "(\<exists>j. parity r = Ok j) \<or> (\<exists>m. r = Panics m)"
  by (auto simp: parity_def split: sum.splits fault.splits)

text \<open>Row 2 passes the filter, its score doubles, and 40 is the sum.\<close>

lemma processing_data:
  "row_count (filter_ds scores id_above_one) = 1"
  "map_ds (filter_ds scores id_above_one) double_score =
     Ok \<lparr>ds_schema = ds_schema scores, rows = [[Int64 2, Float64 (of_int64 40)]]\<rparr>"
  "reduce checks \<lparr>ds_schema = ds_schema scores, rows = [[Int64 2, Float64 (of_int64 40)]]\<rparr> ''score'' Sum =
     Ok (Some (Float64 (of_int64 40)))"
  by code_simp+

lemma processing_scenario:
  "processing_impl L checks = Ok (JObject
     [(''kind'', JString ''processing_filter_map_reduce''), (''filtered_row_count'', json_nat 1),
      (''mapped_row_count'', json_nat 1), (''reduce_sum_score'', json_of_value (Float64 (of_int64 40)))])"
  by (simp add: processing_impl_def processing_data [unfolded row_count_def, simplified] shown_def row_count_def)

text \<open>A sheet whose headers are distinct and whose schema can be inferred is answered with its data.\<close>

lemma sheet_read:
  assumes "e_excel E p = Inr wb" "wb_range wb sheet = Inr cells"
    and "infer_schema_from_sheet_range (e_show_f64 E) sheet cells = Ok s" "headers_distinct (e_show_f64 E) cells"
  shows "\<exists>ds. fst (ingest_from_path E p s (sheet_options sheet) w) = Ok ds \<and> ds_schema ds = s \<and> wf_ds ds"
proof -
  from ingest_inferred_sheet [OF assms(3,4), of "e_dbg_list E" "e_display E"] assms(1,2) show ?thesis
    by (auto simp: ingest_from_path_def sheet_options_def default_options_def validate_watermark_config_def chosen_format_def
        read_format_def ingest_excel_dispatch_def ingest_excel_from_path_def ingest_excel_workbook_from_path_def excel_try_def
        selected_sheets_def apply_watermark_after_ingest_def apply_max_rows_def data_set_new_def wf_ds_def
        split: option.splits)
qed

lemma excel_sheet_answered:
  assumes "jl_utf8_error L p = None" "jl_utf8_error L sheet = None" "e_excel E p = Inr wb" "wb_range wb sheet = Inr cells"
    and "infer_schema_from_sheet_range (e_show_f64 E) sheet cells = Ok s" "headers_distinct (e_show_f64 E) cells"
  shows "\<exists>ds. excel_ingest_path_sheet L E p sheet =
      Ok (json_ok (JObject [(''kind'', JString ''excel_ingest_sheet''), (''dataset'', json_of_data_set ds)])) \<and>
    ds_schema ds = s \<and> wf_ds ds"
proof -
  have "infer_schema_from_path E p (sheet_options sheet) = Ok s"
    using assms by (simp add: infer_schema_from_path_def sheet_options_def default_options_def chosen_format_def
        infer_excel_schema_dispatch_def infer_excel_schema_from_path_def infer_excel_schema_workbook_from_path_def excel_try_def
        selected_sheets_def wrap_schema_err_with_sheet_def)
  moreover obtain ds where "fst (ingest_from_path E p s (sheet_options sheet) ()) = Ok ds" "ds_schema ds = s" "wf_ds ds"
    using sheet_read [OF assms(3-6)] by blast
  ultimately show ?thesis using assms(1,2) by (auto simp: excel_ingest_path_sheet_def)
qed
end
