(* ===== verification/Jvm_Mirrors.thy ===== *)
theory Jvm_Mirrors
  imports Execution Jvm_Parity Bundle Multi Partition
begin

text \<open>
  The mirror functions of the JVM binding (\<open>bindings/jvm-sys/src/parity_mirrors.rs\<close>): scenarios that
  put the operations of several components together, on literal data and on files below the
  repository, and answer with what they yield. The exported functions pass the outcome through \<open>parity\<close>.
  A parallel run is nondeterministic: the states its runs end in are arguments.
\<close>

subsection \<open>Answers\<close>

definition json_of_row :: "row \<Rightarrow> json" where
  "json_of_row r = JArray (map json_of_value r)"

definition json_opt :: "('a \<Rightarrow> json) \<Rightarrow> 'a option \<Rightarrow> json" where
  "json_opt f x = (case x of None \<Rightarrow> JNull | Some a \<Rightarrow> f a)"

definition json_names :: "schema \<Rightarrow> json" where
  "json_names s = JArray (map JString (field_names s))"

text \<open>\<open>is_err()\<close>, and the text of the error or nothing; a panic goes on.\<close>

definition is_err :: "'a result \<Rightarrow> (string, bool) res" where
  "is_err r = (case r of Inr _ \<Rightarrow> Ok False | Inl (Failed _) \<Rightarrow> Ok True | Inl (Panic m) \<Rightarrow> Panics m)"

definition err_text :: "json_lib \<Rightarrow> 'a result \<Rightarrow> (string, string) res" where
  "err_text L r = (case r of Inr _ \<Rightarrow> Ok [] | Inl (Failed e) \<Rightarrow> Ok (jl_show_error L e) | Inl (Panic m) \<Rightarrow> Panics m)"

definition unwrap :: "'a option \<Rightarrow> (string, 'a) res" where
  "unwrap x = (case x of Some a \<Rightarrow> Ok a | None \<Rightarrow> Panics ''called `Option::unwrap()` on a `None` value'')"

text \<open>The number \<open>m\<close> over a power of ten, as a literal denotes it.\<close>

definition ratio :: "int \<Rightarrow> int \<Rightarrow> f64" where
  "ratio m d = fdiv (of_int64 m) (of_int64 d)"

definition repo_root :: "path \<Rightarrow> path" where
  "repo_root manifest_dir = join_path manifest_dir ''../..''"

definition fixtures :: "path \<Rightarrow> path" where
  "fixtures manifest_dir = join_path (repo_root manifest_dir) ''tests/fixtures''"

subsection \<open>Bindings\<close>

definition active_scores :: data_set where
  "active_scores = data_set_new (schema_new [mk_field ''id'' TInt64, mk_field ''active'' TBool, mk_field ''score'' TFloat64])
     [[Int64 1, Bool True, Float64 (of_int64 10)], [Int64 2, Bool False, Float64 (of_int64 20)], [Int64 3, Bool True, Null]]"

definition is_active :: "row \<Rightarrow> bool" where
  "is_active r = (get r 1 = Some (Bool True))"

definition grouped_values :: data_set where
  "grouped_values = data_set_new (schema_new [mk_field ''g'' TUtf8, mk_field ''v'' TInt64])
     [[Utf8 ''a'', Int64 1], [Utf8 ''a'', Int64 2], [Utf8 ''b'', Int64 3]]"

definition sparse_floats :: data_set where
  "sparse_floats = data_set_new (schema_new [mk_field ''x'' TFloat64]) [[Float64 (of_int64 1)], [Null], [Float64 (of_int64 3)]]"

definition no_email :: data_set where
  "no_email = data_set_new (schema_new [mk_field ''email'' TUtf8]) [[Null]]"

definition one_two_three :: data_set where
  "one_two_three = data_set_new (schema_new [mk_field ''n'' TInt64]) [[Int64 1], [Int64 2], [Int64 3]]"

definition ten_rows :: data_set where
  "ten_rows = data_set_new (schema_new [mk_field ''i'' TInt64]) (map (\<lambda>j. [Int64 (word_of_int (int j))]) [0..<10])"

definition even_first :: "row \<Rightarrow> bool" where
  "even_first r = (case get r 0 of Some (Int64 v) \<Rightarrow> even (sint v) | _ \<Rightarrow> False)"

text \<open>The multiplication panics on overflow in a build that checks it.\<close>

definition ten_times :: "bool \<Rightarrow> row \<Rightarrow> row option" where
  "ten_times checks r =
     (case get r 0 of
        Some (Int64 v) \<Rightarrow> if checks \<and> \<not> in_i64 (sint v * 10) then None else Some [Int64 (v * 10)]
      | _ \<Rightarrow> Some r)"

definition small_engine :: "nat \<Rightarrow> execution_engine result" where
  "small_engine available = engine_new available \<lparr>num_threads = Some 1, chunk_size = 2, max_in_flight_chunks = 4\<rparr>"

definition pair_engine :: "nat \<Rightarrow> execution_engine result" where
  "pair_engine available = engine_new available \<lparr>num_threads = Some 2, chunk_size = 3, max_in_flight_chunks = 8\<rparr>"

definition even_run :: "execution_engine \<Rightarrow> job" where
  "even_run e = filter_parallel e ten_rows (\<lambda>r. Some (even_first r))"

definition tens_run :: "bool \<Rightarrow> execution_engine \<Rightarrow> job" where
  "tens_run checks e = map_parallel e ten_rows (ten_times checks)"

definition mirror_bindings_impl ::
  "json_lib \<Rightarrow> transform_env \<Rightarrow> (f64 \<Rightarrow> string) \<Rightarrow> nat \<Rightarrow> nat \<Rightarrow> nat \<Rightarrow> (job \<Rightarrow> run_state) \<Rightarrow> (string, json) res" where
  "mirror_bindings_impl L T show_f64 available ns1 ns2 run_of =
     (let checks = te_checks T; P = te_polars T; E = te_engine T in
      rbind (shown L (reduce checks active_scores ''score'' Sum)) (\<lambda>red.
      rbind (ok_or ''reduce sum'' red) (\<lambda>sum.
      rbind (shown L (transform_apply T score_spec int_scores)) (\<lambda>transformed.
      rbind (shown L (from_dataset P grouped_values)) (\<lambda>lf.
      rbind (shown L (df_group_by lf [''g''] [AggSum ''v'' ''s''])) (\<lambda>gb.
      rbind (shown L (collect_plan P E gb)) (\<lambda>coll.
      rbind (shown L (profile_dataset P E show_f64 sparse_floats \<lparr>po_sampling = HeadSample 2, po_quantiles = [ratio 5 10]\<rparr>)) (\<lambda>prof.
      rbind (shown L (validate_dataset P E show_f64 no_email (validation_spec_new [NotNull ''email'' severity.Error]))) (\<lambda>vrep.
      rbind (shown L (detect_outliers_dataset P E one_large ''x'' (Iqr (ratio 15 10)) \<lparr>oo_sampling = FullSample, oo_max_examples = 3\<rparr>)) (\<lambda>ore.
      rbind (shown L (small_engine available)) (\<lambda>eng.
      rbind (shown L (engine_reduce checks ns1 ns2 one_two_three ''n'' Sum metrics_new)) (\<lambda>(rsum, m, _).
      rbind (shown L (pair_engine available)) (\<lambda>eng2.
      let filt_p = run_result ten_rows (run_of (even_run eng2)); mapped_p = run_result ten_rows (run_of (tens_run checks eng2)) in
      Ok (JObject
        [(''kind'', JString ''bindings_mirror_pytest''), (''processing_reduce_sum'', json_of_value sum),
         (''processing_filter_kept_rows'', json_nat (row_count (filter_ds active_scores is_active))),
         (''transform_columns'', json_names (ds_schema transformed)),
         (''transform_first_row'', json_opt json_of_row (get (rows transformed) 0)),
         (''group_by_row_count'', json_nat (row_count coll)), (''profile_row_count'', json_nat (pr_rows prof)),
         (''validation_failed_checks'', json_nat (sm_failed_checks (vr_summary vrep))), (''outlier_count'', json_nat (or_count ore)),
         (''execution_reduce_sum'', json_opt json_of_value rsum),
         (''execution_metrics_rows_processed'', json_nat (snap_rows_processed (snapshot m))),
         (''parallel_filter_rows'', json_nat (row_count filt_p)),
         (''parallel_map_first'', json_opt json_of_row (get (rows mapped_p) 0))]))))))))))))))"

subsection \<open>Transform specifications\<close>

definition named_scores :: data_set where
  "named_scores = data_set_new (schema_new [mk_field ''id'' TInt64, mk_field ''score'' TInt64, mk_field ''name'' TUtf8])
     [[Int64 1, Int64 10, Utf8 ''Ada''], [Int64 2, Null, Utf8 ''Grace'']]"

definition select_spec :: transform_spec where
  "select_spec = fold with_step
     [Rename [(''score'', ''score_i'')], Cast ''score_i'' TFloat64 Strict, FillNull ''score_i'' (Float64 (fzero False)),
      Select [''id'', ''score_i'']]
     (transform_spec_new (schema_new [mk_field ''id'' TInt64, mk_field ''score_i'' TFloat64]))"

definition tag_steps :: "transform_step list" where
  "tag_steps = [WithLiteral ''tag'' (Utf8 ''v1''), DropCols [''name''], Select [''id'', ''score'', ''tag'']]"

definition tag_spec :: transform_spec where
  "tag_spec = fold with_step tag_steps
     (transform_spec_new (schema_new [mk_field ''id'' TInt64, mk_field ''score'' TInt64, mk_field ''tag'' TUtf8]))"

definition mirror_mapping_spec_impl :: "json_lib \<Rightarrow> transform_env \<Rightarrow> (string, json) res" where
  "mirror_mapping_spec_impl L T =
     rbind (shown L (transform_apply T select_spec named_scores)) (\<lambda>out1.
     rbind (shown L (transform_apply T tag_spec named_scores)) (\<lambda>out2.
     Ok (JObject
       [(''kind'', JString ''mapping_spec_mirror_pytest''),
        (''rename_cast_fill_select'', JObject
          [(''columns'', json_names (ds_schema out1)), (''rows'', JArray (map json_of_row (rows out1)))]),
        (''drop_with_literal'', JObject
          [(''columns'', json_names (ds_schema out2)),
           (''first_row_tag'', json_opt json_of_value (Option.bind (get (rows out2) 0) (\<lambda>r. get r 2)))])])))"

subsection \<open>SQL\<close>

definition people_dataset :: data_set where
  "people_dataset = data_set_new
     (schema_new [mk_field ''id'' TInt64, mk_field ''active'' TBool, mk_field ''score'' TFloat64, mk_field ''name'' TUtf8,
        mk_field ''grp'' TUtf8])
     [[Int64 1, Bool True, Float64 (of_int64 10), Utf8 ''Ada'', Utf8 ''A''],
      [Int64 2, Bool False, Float64 (of_int64 20), Utf8 ''Grace'', Utf8 ''A''],
      [Int64 3, Bool True, Float64 (of_int64 3), Utf8 ''Linus'', Utf8 ''B''],
      [Int64 4, Bool True, Null, Utf8 ''Ken'', Utf8 ''B'']]"

definition basic_sql :: string where
  "basic_sql = join_with (CHR 0x0A)
     [[], ''        SELECT id, name, score'', ''        FROM df'', ''        WHERE active = TRUE'', ''        ORDER BY id DESC'',
      ''        LIMIT 2'', ''        '']"

definition having_sql :: string where
  "having_sql = join_with (CHR 0x0A)
     [[], ''        SELECT'', ''          grp,'', ''          SUM(score) AS sum_score,'', ''          COUNT(*) AS cnt'',
      ''        FROM df'', ''        GROUP BY grp'', ''        HAVING SUM(score) > 10'', ''        ORDER BY grp ASC'', ''        '']"

definition queried :: "json_lib \<Rightarrow> polars \<Rightarrow> engine \<Rightarrow> lazy_frame result \<Rightarrow> (string, data_set) res" where
  "queried L P E q = rbind (shown L q) (\<lambda>lf. shown L (collect_plan P E lf))"

text \<open>The two tables of the join, read from a bundle below the library's directory, and its statement.\<close>

definition joined_tables ::
  "json_lib \<Rightarrow> polars \<Rightarrow> engine \<Rightarrow> sql_engine \<Rightarrow> bundle_io \<Rightarrow> path \<Rightarrow> (string, data_set) res" where
  "joined_tables L P E S B lib_dir =
     (let b = from_repo_fixture lib_dir ''sql_parity''; file = \<lambda>rel. bd_read B (join_path (pb_root b) rel);
          text = \<lambda>rel. (case file rel of Inl e \<Rightarrow> Err e | Inr t \<Rightarrow> Ok t) in
      rbind (shown L (load_schema B b ''schemas/join_left.schema.json'')) (\<lambda>left_schema.
      rbind (shown L (load_schema B b ''schemas/join_right.schema.json'')) (\<lambda>right_schema.
      rbind (text ''data/join_left.json'') (\<lambda>left_json.
      rbind (text ''data/join_right.json'') (\<lambda>right_json.
      rbind (shown L (ingest_json_from_str (jl_text L) (jl_parse L) left_json left_schema)) (\<lambda>left_ds.
      rbind (shown L (ingest_json_from_str (jl_text L) (jl_parse L) right_json right_schema)) (\<lambda>right_ds.
      rbind (shown L (load_query_sql B b ''queries/join_people_scores.sql.json'')) (\<lambda>join_sql.
      rbind (shown L (from_dataset P left_ds)) (\<lambda>df_left.
      rbind (shown L (from_dataset P right_ds)) (\<lambda>df_right.
      rbind (shown L (context_register context_new ''people'' df_left)) (\<lambda>ctx1.
      rbind (shown L (context_register ctx1 ''scores'' df_right)) (\<lambda>ctx2.
      queried L P E (rmap fst (context_execute S ctx2 join_sql))))))))))))))"

definition mirror_sql_suite_impl ::
  "json_lib \<Rightarrow> polars \<Rightarrow> engine \<Rightarrow> sql_engine \<Rightarrow> bundle_io \<Rightarrow> path \<Rightarrow> (string, json) res" where
  "mirror_sql_suite_impl L P E S B lib_dir =
     rbind (shown L (from_dataset P people_dataset)) (\<lambda>df.
     rbind (queried L P E (sql_query S df basic_sql)) (\<lambda>basic.
     rbind (queried L P E (sql_query S df having_sql)) (\<lambda>grouped.
     rbind (joined_tables L P E S B lib_dir) (\<lambda>joined.
     rbind (err_text L (sql_query S df ''SELECT * FROM does_not_exist'')) (\<lambda>no_table.
     rbind (err_text L (sql_query S df ''SELECT missing_col FROM df'')) (\<lambda>no_column.
     Ok (JObject
       [(''kind'', JString ''sql_suite_mirror_pytest''), (''basic_select'', json_of_data_set basic),
        (''group_having'', json_of_data_set grouped), (''join'', json_of_data_set joined), (''missing_table_error'', JString no_table),
        (''missing_column_error_lower_has_missing'', JBool (contains_str ''missing'' (to_ascii_lowercase no_column)))])))))))"

subsection \<open>Partitions\<close>

definition mirror_partition_discovery_impl :: "json_lib \<Rightarrow> file_system \<Rightarrow> path \<Rightarrow> (string, json) res" where
  "mirror_partition_discovery_impl L F manifest_dir =
     (let fx = fixtures manifest_dir; tree = join_path fx ''hive_partitioned''; a = join_path fx ''hive_partitioned/at_root.csv'';
          b = join_path fx ''hive_partitioned/dt=2024-01-01/region=us/events.csv'';
          pat = map (\<lambda>c. if c = CHR 0x5C then CHR ''/'' else c) (join_path tree ''**/*.csv'') in
      rbind (shown L (discover_hive_partitioned_files F tree None)) (\<lambda>files.
      rbind (shown L (discover_hive_partitioned_files F tree (Some ''**/events.csv''))) (\<lambda>glob_files.
      rbind (shown L (discover_hive_partitioned_files F (join_path fx ''hive_partitioned_skip'') None)) (\<lambda>skip_files.
      rbind (is_err (discover_hive_partitioned_files F a None)) (\<lambda>rejects.
      rbind (shown L (paths_from_glob F pat)) (\<lambda>glob_paths.
      rbind (shown L (paths_from_explicit_list F [a, b, a])) (\<lambda>listed.
      Ok (JObject
        [(''kind'', JString ''partition_discovery_mirror_pytest''), (''discover_all_len'', json_nat (length files)),
         (''discover_events_glob_len'', json_nat (length glob_files)), (''skip_non_hive_len'', json_nat (length skip_files)),
         (''reject_non_directory_ok'', JBool rejects), (''glob_csv_count'', json_nat (length glob_paths)),
         (''explicit_list_len'', json_nat (length listed)),
         (''parse_dt'', json_opt (\<lambda>s. JObject [(''key'', JString (sg_key s)), (''value'', JString (sg_value s))])
            (parse_partition_segment ''dt=2024-01-01'')),
         (''parse_nodash_is_null'', JBool (parse_partition_segment ''nodash'' = None))]))))))))"

subsection \<open>Watermarks and a missing file\<close>

definition event_schema :: schema where
  "event_schema = schema_new [mk_field ''id'' TInt64, mk_field ''ts'' TInt64]"

definition floor_options :: "value_t option \<Rightarrow> unit ingestion_options" where
  "floor_options lo = default_options\<lparr>opt_watermark_column := Some ''ts'', opt_watermark_exclusive_above := lo\<rparr>"

definition ingest_plainly :: "env \<Rightarrow> path \<Rightarrow> schema \<Rightarrow> unit ingestion_options \<Rightarrow> data_set result" where
  "ingest_plainly E p s opts = fst (ingest_from_path E p s opts ())"

definition mirror_watermark_impl :: "json_lib \<Rightarrow> env \<Rightarrow> path \<Rightarrow> (string, json) res" where
  "mirror_watermark_impl L E manifest_dir =
     (let csv_path = join_path (fixtures manifest_dir) ''watermark_events.csv'';
          json_path = join_path (fixtures manifest_dir) ''watermark_events.json'' in
      rbind (shown L (ingest_plainly E csv_path event_schema (floor_options (Some (Int64 100))))) (\<lambda>ds_csv.
      rbind (shown L (ingest_plainly E csv_path event_schema (floor_options (Some (Int64 200))))) (\<lambda>ds_empty.
      rbind (shown L (ingest_plainly E json_path event_schema (floor_options (Some (Int64 100))))) (\<lambda>ds_json.
      rbind (is_err (ingest_plainly E csv_path event_schema (floor_options None))) (\<lambda>rejects.
      Ok (JObject
        [(''kind'', JString ''watermark_mirror_pytest''), (''csv_row_count'', json_nat (row_count ds_csv)),
         (''csv_ids'', JArray (map json_of_value (List.map_filter (\<lambda>r. get r 0) (rows ds_csv)))),
         (''empty_row_count'', json_nat (row_count ds_empty)), (''json_row_count'', json_nat (row_count ds_json)),
         (''watermark_rejects_incomplete_options'', JBool rejects)]))))))"

definition mirror_observability_impl :: "env \<Rightarrow> path \<Rightarrow> (string, json) res" where
  "mirror_observability_impl E manifest_dir =
     rmap (\<lambda>missing. JObject
         [(''kind'', JString ''observability_mirror_pytest''), (''missing_file_is_err'', JBool missing),
          (''note'', JString ''Python/JVM ingestion observers are not wired over this FFI; mirror checks Rust error path only.'')])
       (is_err (ingest_plainly E (join_path (fixtures manifest_dir) ''__does_not_exist_rdp_obs__.csv'') (schema_new [mk_field ''id'' TInt64])
          default_options))"

subsection \<open>The Seattle weather\<close>

definition weather_schema :: schema where
  "weather_schema = schema_new
     [mk_field ''date'' TUtf8, mk_field ''precipitation'' TFloat64, mk_field ''temp_max'' TFloat64, mk_field ''temp_min'' TFloat64,
      mk_field ''wind'' TFloat64, mk_field ''weather'' TUtf8]"

definition weather_features :: "string list" where
  "weather_features = [''precipitation'', ''temp_max'', ''temp_min'', ''wind'']"

definition weather_aggs :: "agg list" where
  "weather_aggs = [AggMean ''temp_max'' ''mu_tmax'', AggMax ''temp_min'' ''max_tmin'', CountRows ''n_rows'',
     AggCountDistinctNonNull ''date'' ''n_dates'', AggStdDev ''wind'' ''sd_wind'' Sample]"

text \<open>The loop that adds up the 64-bit counts of a column.\<close>

fun total_counts :: "bool \<Rightarrow> nat \<Rightarrow> i64 \<Rightarrow> row list \<Rightarrow> (string, i64) res" where
  "total_counts checks k acc [] = Ok acc"
| "total_counts checks k acc (r # rs) =
     (case get r k of
        Some (Int64 v) \<Rightarrow>
          if checks \<and> \<not> in_i64 (sint acc + sint v) then Panics ''attempt to add with overflow''
          else total_counts checks k (acc + v) rs
      | _ \<Rightarrow> total_counts checks k acc rs)"

definition grouped_weather :: "json_lib \<Rightarrow> polars \<Rightarrow> engine \<Rightarrow> data_set \<Rightarrow> (string, data_set) res" where
  "grouped_weather L P E ds =
     rbind (shown L (from_dataset P ds)) (\<lambda>lf.
     rbind (shown L (df_group_by lf [''weather''] weather_aggs)) (\<lambda>gb. shown L (collect_plan P E gb)))"

definition cells_ge :: "value_t option \<Rightarrow> value_t option \<Rightarrow> bool" where
  "cells_ge x y =
     (case (x, y) of (Some (Float64 a), Some (Float64 b)) \<Rightarrow> partial_cmp a b = Some Greater \<or> partial_cmp a b = Some Equal | _ \<Rightarrow> False)"

definition mirror_deep_seattle_impl ::
  "json_lib \<Rightarrow> env \<Rightarrow> bool \<Rightarrow> polars \<Rightarrow> engine \<Rightarrow> ((value_t \<times> i64) list \<Rightarrow> (value_t \<times> i64) list) \<Rightarrow> path \<Rightarrow> (string, json) res" where
  "mirror_deep_seattle_impl L V checks P E hash_order manifest_dir =
     rbind (shown L (ingest_plainly V (join_path (fixtures manifest_dir) ''deep/seattle-weather.csv'') weather_schema default_options)) (\<lambda>ds.
     rbind (shown L (reduce checks ds ''temp_max'' Mean)) (\<lambda>mean_mem.
     rbind (shown L (from_dataset P ds)) (\<lambda>lf.
     rbind (shown L (df_reduce P E lf ''temp_max'' Mean)) (\<lambda>mean_pol.
     rbind (ok_or ''feature_wise sample'' (feature_wise_mean_std ds weather_features Sample)) (\<lambda>fw_s.
     rbind (shown L (df_feature_wise_mean_std P E lf weather_features Sample)) (\<lambda>fw_p.
     rbind (grouped_weather L P E ds) (\<lambda>gb.
     rbind (unwrap (index_of (ds_schema ds) ''date'')) (\<lambda>idx_date.
     rbind (unwrap (position (\<lambda>n. n = ''n_rows'') (field_names (ds_schema gb)))) (\<lambda>nidx.
     rbind (total_counts checks nidx 0 (rows gb)) (\<lambda>total_n.
     let hi = (case arg_max_row ds ''temp_max'' of Some m \<Rightarrow> m | None \<Rightarrow> None);
         lo = (case arg_min_row ds ''temp_max'' of Some m \<Rightarrow> m | None \<Rightarrow> None);
         top = (case top_k_by_frequency hash_order ds ''weather'' 5 of Some t \<Rightarrow> t | None \<Rightarrow> []) in
     Ok (JObject
       [(''kind'', JString ''deep_seattle_mirror_pytest''), (''row_count'', json_nat (row_count ds)),
        (''first_date'', json_opt json_of_value (Option.bind (get (rows ds) 0) (\<lambda>r. get r idx_date))),
        (''reduce_mean_mem_vs_polars'', JObject [(''mem'', json_opt json_of_value mean_mem), (''polars'', json_opt json_of_value mean_pol)]),
        (''feature_wise_len_match'', JBool (length fw_s = length fw_p)), (''group_by_total_rows_sum'', json_of_i64 total_n),
        (''dataset_row_count'', json_of_i64 (word_of_int (int (row_count ds)))), (''arg_max_idx'', json_opt json_nat (map_option fst hi)),
        (''top_weather_pairs'', JArray (map (\<lambda>(v, n). JArray [json_of_value v, json_of_i64 n]) top)),
        (''arg_max_ge_min'', JBool (cells_ge (map_option snd hi) (map_option snd lo)))])))))))))))"

subsection \<open>Training samples\<close>

definition sample_columns :: "string list" where
  "sample_columns = [''instruction'', ''input'', ''output'']"

definition mirror_sft_sample_impl :: "json_lib \<Rightarrow> env \<Rightarrow> path \<Rightarrow> (string, json) res" where
  "mirror_sft_sample_impl L V manifest_dir =
     rbind (shown L (ingest_plainly V (join_path (repo_root manifest_dir) ''examples/sft/sample_alpaca.ndjson'')
       (schema_new (map (\<lambda>c. mk_field c TUtf8) sample_columns)) default_options)) (\<lambda>ds.
     rbind (shown L (dataset_to_jsonl (jl_text L) ds sample_columns)) (\<lambda>jsonl.
     let ls = str_lines jsonl in
     Ok (JObject
       [(''kind'', JString ''sft_sample_mirror_pytest''), (''row_count'', json_nat (row_count ds)), (''jsonl_line_count'', json_nat (length ls)),
        (''first_line_has_instruction'', JBool (case ls of l # _ \<Rightarrow> contains_str ''instruction'' l | [] \<Rightarrow> False))])))"

subsection \<open>The benchmark\<close>

definition wide_row :: "nat \<Rightarrow> row" where
  "wide_row i =
     [Int64 (word_of_int (int i)), Bool (i mod 3 \<noteq> 0), Float64 (fmul (of_int64 (int i)) (ratio 1 10)),
      Float64 (fadd (fmul (of_int64 (int i)) (ratio 3 100)) (of_int64 1)), Utf8 (''g'' @ show_nat (i mod 8))]"

definition wide_data :: "nat \<Rightarrow> data_set" where
  "wide_data n = data_set_new
     (schema_new [mk_field ''id'' TInt64, mk_field ''active'' TBool, mk_field ''score'' TFloat64, mk_field ''aux'' TFloat64, mk_field ''grp'' TUtf8])
     (map wide_row [0..<n])"

definition active_even :: "row \<Rightarrow> bool" where
  "active_even r = (get r 1 = Some (Bool True) \<and> even_first r)"

definition raise_score :: "row \<Rightarrow> row" where
  "raise_score r = (case get r 2 of Some (Float64 x) \<Rightarrow> r[2 := Float64 (fmul x (ratio 11 10))] | _ \<Rightarrow> r)"

definition wide_engine :: "nat \<Rightarrow> execution_engine result" where
  "wide_engine available = engine_new available \<lparr>num_threads = Some 2, chunk_size = 512, max_in_flight_chunks = 16\<rparr>"

definition half_data :: data_set where
  "half_data = data_set_new (ds_schema (wide_data 8000)) (take 4000 (rows (wide_data 8000)))"

definition half_run :: "execution_engine \<Rightarrow> job" where
  "half_run e = filter_parallel e half_data (\<lambda>r. Some (even_first r))"

definition mirror_benchmark_smoke_impl ::
  "json_lib \<Rightarrow> bool \<Rightarrow> polars \<Rightarrow> engine \<Rightarrow> nat \<Rightarrow> (job \<Rightarrow> run_state) \<Rightarrow> (string, json) res" where
  "mirror_benchmark_smoke_impl L checks P E available run_of =
     (let ds = wide_data 8000; filt = filter_ds ds active_even in
      rbind (shown L (map_ds filt raise_score)) (\<lambda>mapped.
      rbind (shown L (reduce checks mapped ''score'' Sum)) (\<lambda>red.
      rbind (shown L (from_dataset P ds)) (\<lambda>lf.
      rbind (shown L (df_group_by lf [''grp''] [AggMean ''score'' ''m'', AggSum ''aux'' ''s''])) (\<lambda>gb.
      rbind (shown L (collect_plan P E gb)) (\<lambda>_.
      rbind (shown L (wide_engine available)) (\<lambda>eng.
      Ok (JObject
        [(''kind'', JString ''benchmark_smoke_mirror_pytest''), (''wide_row_count'', json_nat (row_count ds)),
         (''filtered_rows'', json_nat (row_count filt)), (''reduce_sum'', json_opt json_of_value red), (''group_by_collect_ok'', JBool True),
         (''parallel_filter_rows'', json_nat (row_count (run_result half_data (run_of (half_run eng)))))]))))))))"

subsection \<open>What the scenarios answer\<close>

text \<open>Whatever the schedule, a finished run has the rows its work yields, in order.\<close>

lemma schedule_rows:
  assumes "engine_new available opts = Ok e" "length (rows ds) < 2 ^ 63" "max_in_flight_chunks opts < 2 ^ 64"
    and "reachable m (engine_job e ds work) s" "finished s"
  shows "rows (run_result ds s) = concat (map (the \<circ> work) (rows ds))"
proof -
  have ok: "job_ok (engine_job e ds work)" by (rule engine_job_ok [OF assms(1-3)])
  from finished_collected [OF reachable_inv [OF assms(4) ok] ok assms(5)] show ?thesis
    by (simp add: yields_def run_result_def data_set_new_def)
qed

lemma run_kept:
  assumes "engine_new available opts = Ok e" "length (rows ds) < 2 ^ 63" "max_in_flight_chunks opts < 2 ^ 64"
    and "reachable m (filter_parallel e ds (\<lambda>r. Some (p r))) s" "finished s"
  shows "rows (run_result ds s) = filter p (rows ds)"
  using schedule_rows [OF assms(1-3) assms(4) [unfolded filter_parallel_def] assms(5)] by (simp add: comp_def concat_if)

lemma ten_even: "length (filter even_first (rows ten_rows)) = 5"
  by code_simp

lemma even_run_rows:
  assumes "pair_engine available = Ok e" "reachable m (even_run e) s" "finished s"
  shows "row_count (run_result ten_rows s) = 5"
  using run_kept [OF assms(1) [unfolded pair_engine_def] _ _ assms(2) [unfolded even_run_def] assms(3)] ten_even
  by (simp add: row_count_def ten_rows_def data_set_new_def)

lemma sint_small: "i < 2 ^ 63 \<Longrightarrow> sint (word_of_nat i :: i64) = int i"
  using sint_of_int [of "int i"] by (simp add: in_i64_def i64_min_def i64_max_def)

lemma tens_run_rows:
  assumes "pair_engine available = Ok e" "reachable m (tens_run checks e) s" "finished s"
  shows "rows (run_result ten_rows s) = map (\<lambda>j. [Int64 (word_of_int (10 * int j))]) [0..<10]"
proof -
  let ?work = "\<lambda>r. Option.bind (ten_times checks r) (\<lambda>mapped. if length mapped = length (sfields (ds_schema ten_rows)) then Some [mapped] else None)"
  have "ten_times checks [Int64 (word_of_int (int j))] = Some [Int64 (word_of_int (10 * int j))]" if "j < 10" for j
    using that by (simp add: ten_times_def in_i64_def i64_min_def i64_max_def sint_small mult.commute)
  then have "map (the \<circ> ?work) (rows ten_rows) = map (\<lambda>j. [[Int64 (word_of_int (10 * int j))]]) [0..<10]"
    by (simp add: ten_rows_def data_set_new_def schema_new_def)
  moreover have "rows (run_result ten_rows s) = concat (map (the \<circ> ?work) (rows ten_rows))"
    using schedule_rows [OF assms(1) [unfolded pair_engine_def] _ _ assms(2) [unfolded tens_run_def map_parallel_def] assms(3)]
    by (simp add: ten_rows_def data_set_new_def)
  ultimately show ?thesis by (simp add: concat_map_singleton)
qed

lemma even_wide: "i < 2 ^ 63 \<Longrightarrow> even_first (wide_row i) = even i"
  by (simp add: even_first_def wide_row_def sint_small)

lemma half_evens: "length (filter even [0..<2 * n]) = n"
  by (induction n) simp_all

lemma half_rows: "rows half_data = map wide_row [0..<4000]"
  by (simp add: half_data_def wide_data_def data_set_new_def take_map)

lemma half_run_rows:
  assumes "wide_engine available = Ok e" "reachable m (half_run e) s" "finished s"
  shows "row_count (run_result half_data s) = 2000"
proof -
  have "rows (run_result half_data s) = filter even_first (rows half_data)"
    using run_kept [OF assms(1) [unfolded wide_engine_def] _ _ assms(2) [unfolded half_run_def] assms(3)] by (simp add: half_rows)
  also have "\<dots> = map wide_row (filter even [0..<4000])"
  proof -
    have "filter (\<lambda>i. even_first (wide_row i)) [0..<4000] = filter even [0..<4000]"
      by (rule filter_cong) (simp_all add: even_wide)
    then show ?thesis by (simp add: half_rows filter_map comp_def)
  qed
  finally show ?thesis using half_evens [of 2000] by (simp add: row_count_def)
qed

text \<open>A watermark column without a floor is rejected, whatever the file holds.\<close>

lemma incomplete_watermark_rejected: "is_err (ingest_plainly E p s (floor_options None)) = Ok True"
  by (simp add: is_err_def ingest_plainly_def ingest_from_path_def floor_options_def default_options_def validate_watermark_config_def)

text \<open>The second transform tags every row, for an engine that evaluates plans as documented.\<close>

definition tagged_scores :: data_set where
  "tagged_scores = data_set_new (schema_new [mk_field ''id'' TInt64, mk_field ''score'' TInt64, mk_field ''tag'' TUtf8])
     [[Int64 1, Int64 10, Utf8 ''v1''], [Int64 2, Null, Utf8 ''v1'']]"

lemma tag_run: "run_spec sha256 tag_steps named_scores = Some tagged_scores"
  by code_simp

lemma tag_scenario:
  assumes "transform_laws T"
  shows "transform_apply T tag_spec named_scores = Ok tagged_scores"
proof -
  have "wf_ds named_scores" "distinct (field_names (ds_schema named_scores))" "sfields (ds_schema named_scores) \<noteq> []"
    by code_simp+
  from transform_implements [OF assms this tag_run] show ?thesis
    by (simp add: tag_spec_def tag_steps_def transform_spec_new_def tagged_scores_def data_set_new_def with_step_def)
qed

end
