(* ===== verification/Semaphore.thy ===== *)
theory Semaphore
  imports Execution
begin

text \<open>
  The counting semaphore of the execution engine (\<open>src/execution/semaphore.rs\<close>): a mutex around the
  number of permits and a condition variable. Threads call \<open>acquire\<close> and \<open>release\<close> in any
  interleaving; a step is one access to the mutex, the number or the condition variable. Waiting
  gives the mutex up, a notification wakes one sleeping thread, and a thread may also wake up on its
  own, as the standard library warns. The engine uses the semaphore through two atomic steps, taking
  and giving back a permit; both the code here and the engine's runs are shown to keep to them.
\<close>

subsection \<open>The atomic contract\<close>

datatype sem_view = Outside | Wanting bool | Inside | Lost

text \<open>A thread that unwinds inside keeps its permit for ever.\<close>

inductive permit_step :: "nat \<times> sem_view list \<Rightarrow> nat \<times> sem_view list \<Rightarrow> bool" where
  ask: "i < length vs \<Longrightarrow> vs ! i = Outside \<Longrightarrow> permit_step (p, vs) (p, vs[i := Wanting False])"
| stall: "i < length vs \<Longrightarrow> vs ! i = Wanting False \<Longrightarrow> p = 0 \<Longrightarrow> permit_step (p, vs) (p, vs[i := Wanting True])"
| take_one: "i < length vs \<Longrightarrow> vs ! i = Wanting w \<Longrightarrow> 0 < p \<Longrightarrow> permit_step (p, vs) (p - 1, vs[i := Inside])"
| give_back: "i < length vs \<Longrightarrow> vs ! i = Inside \<Longrightarrow> permit_step (p, vs) (p + 1, vs[i := Outside])"
| lose: "i < length vs \<Longrightarrow> vs ! i = Inside \<Longrightarrow> permit_step (p, vs) (p, vs[i := Lost])"

definition keeps_permit :: "sem_view \<Rightarrow> nat" where
  "keeps_permit v = (case v of Inside \<Rightarrow> 1 | Lost \<Rightarrow> 1 | _ \<Rightarrow> 0)"

lemma keeps_permit_simps [simp]:
  "keeps_permit Outside = 0" "keeps_permit (Wanting w) = 0" "keeps_permit Inside = 1" "keeps_permit Lost = 1"
  by (simp_all add: keeps_permit_def)

definition permit_sum :: "nat \<times> sem_view list \<Rightarrow> nat" where
  "permit_sum v = fst v + sum_list (map keeps_permit (snd v))"

text \<open>Sums over threads, one of which moves.\<close>

lemma weight_move:
  fixes w :: "'a \<Rightarrow> nat"
  assumes "i < length ts"
  shows "sum_list (map w (ts[i := x])) + w (ts ! i) = sum_list (map w ts) + w x"
  using assms elem_le_sum_list [of i "map w ts"] by (simp add: map_update sum_list_update)

lemma keeps_move:
  "i < length vs \<Longrightarrow> vs ! i = v \<Longrightarrow>
   sum_list (map keeps_permit (vs[i := x])) = sum_list (map keeps_permit vs) + keeps_permit x - keeps_permit v"
  using weight_move [of i vs keeps_permit x] by simp

lemma keeps_member: "i < length vs \<Longrightarrow> keeps_permit (vs ! i) \<le> sum_list (map keeps_permit vs)"
  using elem_le_sum_list [of i "map keeps_permit vs"] by simp

lemma permit_step_sum: "permit_step v v' \<Longrightarrow> permit_sum v' = permit_sum v"
proof (induction rule: permit_step.induct)
  case (give_back i vs p)
  with keeps_member [of i vs] show ?case by (simp add: permit_sum_def keeps_move)
qed (simp_all add: permit_sum_def keeps_move)

locale semaphore_user =
  fixes moves :: "'s \<Rightarrow> 's \<Rightarrow> bool" and view :: "'s \<Rightarrow> nat \<times> sem_view list"
  assumes atomic: "moves s s' \<Longrightarrow> view s' = view s \<or> permit_step (view s) (view s')"
begin

lemma sum_kept: "moves\<^sup>*\<^sup>* s s' \<Longrightarrow> permit_sum (view s') = permit_sum (view s)"
proof (induction rule: rtranclp_induct)
  case (step t u)
  then show ?case using atomic [of t u] permit_step_sum by fastforce
qed simp

lemma simulates: "moves\<^sup>*\<^sup>* s s' \<Longrightarrow> permit_step\<^sup>*\<^sup>* (view s) (view s')"
proof (induction rule: rtranclp_induct)
  case (step t u)
  then show ?case using atomic [of t u] by (auto intro: rtranclp.rtrancl_into_rtrancl)
qed simp

end

subsection \<open>The engine's runs\<close>

definition task_view :: "phase \<Rightarrow> sem_view" where
  "task_view p = (case p of Queued \<Rightarrow> Outside | Blocked w \<Rightarrow> Wanting w | Done _ \<Rightarrow> Outside | Panicked _ \<Rightarrow> Lost | _ \<Rightarrow> Inside)"

definition run_view :: "run_state \<Rightarrow> nat \<times> sem_view list" where
  "run_view s = (permits s, map task_view (tasks s))"

lemma same_view: "i < length ts \<Longrightarrow> f (ts ! i) = f x \<Longrightarrow> map f (ts[i := x]) = map f ts"
  by (metis list_update_id map_update)

lemma step_atomic: "step jb s s' \<Longrightarrow> run_view s' = run_view s \<or> permit_step (run_view s) (run_view s')"
proof (induction rule: step.induct)
  case (schedule s i)
  then show ?case by (auto simp: run_view_def map_update task_view_def intro!: permit_step.ask)
next
  case (block s i)
  then show ?case by (auto simp: run_view_def map_update task_view_def intro!: permit_step.stall)
next
  case (acquire s i waited d)
  then show ?case
    using permit_step.take_one [of i "map task_view (tasks s)" waited "permits s"] by (simp add: run_view_def map_update task_view_def)
next
  case (row_panic s i k out)
  then show ?case using permit_step.lose [of i "map task_view (tasks s)" "permits s"] by (simp add: run_view_def map_update task_view_def)
next
  case (release s i out)
  then show ?case using permit_step.give_back [of i "map task_view (tasks s)" "permits s"] by (simp add: run_view_def map_update task_view_def)
qed (auto simp: run_view_def same_view task_view_def)

interpretation run: semaphore_user "step jb" run_view for jb
  by unfold_locales (rule step_atomic)

subsection \<open>The code\<close>

text \<open>
  Where a thread is: outside the semaphore; about to lock the mutex in \<open>acquire\<close>; holding the
  mutex at the loop's test, with the flag \<open>waited\<close>; asleep in \<open>wait\<close>; woken and about to lock the mutex again;
  with the permit taken, before the mutex is dropped; returned from \<open>acquire\<close>; about to lock the mutex in
  \<open>release\<close>; at its addition, at its notification, and before the mutex is dropped; unwound while it
  held a permit.
\<close>

datatype sem_phase =
    SOut | SWants | SChecks bool | SSleeps | SWoken | STaken bool | SHolds bool
  | SLeaves | SReturns | SAdded | SNotified | SGone

record sem_state =
  sem_permits :: nat
  sem_lock :: "nat option"
  sem_threads :: "sem_phase list"

definition semaphore_new :: "nat \<Rightarrow> nat \<Rightarrow> sem_state result" where
  "semaphore_new n threads =
     (if \<not> 0 < n then Panics ''permits must be > 0''
      else Ok \<lparr>sem_permits = n, sem_lock = None, sem_threads = replicate threads SOut\<rparr>)"

abbreviation sem_at :: "sem_state \<Rightarrow> nat \<Rightarrow> sem_phase \<Rightarrow> bool" where
  "sem_at s i p \<equiv> i < length (sem_threads s) \<and> sem_threads s ! i = p"

abbreviation sem_to :: "nat \<Rightarrow> sem_phase \<Rightarrow> sem_state \<Rightarrow> sem_state" where
  "sem_to i p s \<equiv> s\<lparr>sem_threads := (sem_threads s)[i := p]\<rparr>"

text \<open>What a caller or the system decides: a call, an unwinding holder, a spurious wake-up.\<close>

inductive sem_call :: "sem_state \<Rightarrow> sem_state \<Rightarrow> bool" where
  call_acquire: "sem_at s i SOut \<Longrightarrow> sem_call s (sem_to i SWants s)"
| call_release: "sem_at s i (SHolds w) \<Longrightarrow> sem_call s (sem_to i SLeaves s)"
| unwind: "sem_at s i (SHolds w) \<Longrightarrow> sem_call s (sem_to i SGone s)"
| spurious: "sem_at s i SSleeps \<Longrightarrow> sem_call s (sem_to i SWoken s)"

text \<open>What the code then does by itself.\<close>

inductive sem_move :: "sem_state \<Rightarrow> sem_state \<Rightarrow> bool" where
  lock_acquire: "sem_at s i SWants \<Longrightarrow> sem_lock s = None \<Longrightarrow> sem_move s (sem_to i (SChecks False) (s\<lparr>sem_lock := Some i\<rparr>))"
| wait: "sem_at s i (SChecks w) \<Longrightarrow> sem_permits s = 0 \<Longrightarrow> sem_move s (sem_to i SSleeps (s\<lparr>sem_lock := None\<rparr>))"
| relock: "sem_at s i SWoken \<Longrightarrow> sem_lock s = None \<Longrightarrow> sem_move s (sem_to i (SChecks True) (s\<lparr>sem_lock := Some i\<rparr>))"
| take_permit: "sem_at s i (SChecks w) \<Longrightarrow> 0 < sem_permits s \<Longrightarrow>
     sem_move s (sem_to i (STaken w) (s\<lparr>sem_permits := sem_permits s - 1\<rparr>))"
| unlock_acquire: "sem_at s i (STaken w) \<Longrightarrow> sem_move s (sem_to i (SHolds w) (s\<lparr>sem_lock := None\<rparr>))"
| lock_release: "sem_at s i SLeaves \<Longrightarrow> sem_lock s = None \<Longrightarrow> sem_move s (sem_to i SReturns (s\<lparr>sem_lock := Some i\<rparr>))"
| add_permit: "sem_at s i SReturns \<Longrightarrow> sem_move s (sem_to i SAdded (s\<lparr>sem_permits := sem_permits s + 1\<rparr>))"
| notify_one: "sem_at s i SAdded \<Longrightarrow> sem_at s j SSleeps \<Longrightarrow> sem_move s (sem_to i SNotified (sem_to j SWoken s))"
| notify_none: "sem_at s i SAdded \<Longrightarrow> SSleeps \<notin> set (sem_threads s) \<Longrightarrow> sem_move s (sem_to i SNotified s)"
| unlock_release: "sem_at s i SNotified \<Longrightarrow> sem_move s (sem_to i SOut (s\<lparr>sem_lock := None\<rparr>))"

definition sem_step :: "sem_state \<Rightarrow> sem_state \<Rightarrow> bool" where
  "sem_step s s' \<longleftrightarrow> sem_call s s' \<or> sem_move s s'"

text \<open>\<open>acquire\<close> returns the time waited, zero unless the thread has slept.\<close>

subsection \<open>The code keeps to the contract\<close>

definition thread_view :: "sem_phase \<Rightarrow> sem_view" where
  "thread_view p = (case p of
      SWants \<Rightarrow> Wanting False | SChecks w \<Rightarrow> Wanting w | SSleeps \<Rightarrow> Wanting True | SWoken \<Rightarrow> Wanting True
    | STaken _ \<Rightarrow> Inside | SHolds _ \<Rightarrow> Inside | SLeaves \<Rightarrow> Inside | SReturns \<Rightarrow> Inside | SGone \<Rightarrow> Lost | _ \<Rightarrow> Outside)"

lemma thread_view_simps [simp]:
  "thread_view SOut = Outside" "thread_view SWants = Wanting False" "thread_view (SChecks w) = Wanting w"
  "thread_view SSleeps = Wanting True" "thread_view SWoken = Wanting True" "thread_view (STaken w) = Inside"
  "thread_view (SHolds w) = Inside" "thread_view SLeaves = Inside" "thread_view SReturns = Inside"
  "thread_view SAdded = Outside" "thread_view SNotified = Outside" "thread_view SGone = Lost"
  by (simp_all add: thread_view_def)

definition sem_view_of :: "sem_state \<Rightarrow> nat \<times> sem_view list" where
  "sem_view_of s = (sem_permits s, map thread_view (sem_threads s))"

lemma sem_call_atomic: "sem_call s s' \<Longrightarrow> sem_view_of s' = sem_view_of s \<or> permit_step (sem_view_of s) (sem_view_of s')"
proof (induction rule: sem_call.induct)
  case (call_acquire s i)
  then show ?case using permit_step.ask [of i "map thread_view (sem_threads s)"] by (simp add: sem_view_of_def map_update)
next
  case (unwind s i w)
  then show ?case using permit_step.lose [of i "map thread_view (sem_threads s)"] by (simp add: sem_view_of_def map_update)
qed (simp_all add: sem_view_of_def same_view)

lemma sem_move_atomic: "sem_move s s' \<Longrightarrow> sem_view_of s' = sem_view_of s \<or> permit_step (sem_view_of s) (sem_view_of s')"
proof (induction rule: sem_move.induct)
  case (wait s i w)
  show ?case
  proof (cases w)
    case True
    with wait show ?thesis by (simp add: sem_view_of_def same_view)
  next
    case False
    with wait show ?thesis using permit_step.stall [of i "map thread_view (sem_threads s)"] by (simp add: sem_view_of_def map_update)
  qed
next
  case (take_permit s i w)
  then show ?case using permit_step.take_one [of i "map thread_view (sem_threads s)" w] by (simp add: sem_view_of_def map_update)
next
  case (add_permit s i)
  then show ?case using permit_step.give_back [of i "map thread_view (sem_threads s)"] by (simp add: sem_view_of_def map_update)
next
  case (notify_one s i j)
  then have "i \<noteq> j" by auto
  with notify_one show ?case by (simp add: sem_view_of_def same_view)
qed (simp_all add: sem_view_of_def same_view)

lemma sem_step_atomic: "sem_step s s' \<Longrightarrow> sem_view_of s' = sem_view_of s \<or> permit_step (sem_view_of s) (sem_view_of s')"
  using sem_call_atomic sem_move_atomic by (auto simp: sem_step_def)

interpretation sem: semaphore_user sem_step sem_view_of
  by unfold_locales (rule sem_step_atomic)

subsection \<open>Mutual exclusion and wake-ups\<close>

definition in_mutex :: "sem_phase \<Rightarrow> bool" where
  "in_mutex p = (case p of SChecks _ \<Rightarrow> True | STaken _ \<Rightarrow> True | SReturns \<Rightarrow> True | SAdded \<Rightarrow> True | SNotified \<Rightarrow> True | _ \<Rightarrow> False)"

text \<open>Threads that will still look at the permits, and one that is about to wake another.\<close>

definition contends :: "sem_phase \<Rightarrow> nat" where
  "contends p = (case p of SWants \<Rightarrow> 1 | SChecks _ \<Rightarrow> 1 | SWoken \<Rightarrow> 1 | SAdded \<Rightarrow> 1 | _ \<Rightarrow> 0)"

definition contending :: "sem_phase list \<Rightarrow> nat" where
  "contending ts = sum_list (map contends ts)"

definition guarded :: "sem_phase list \<Rightarrow> nat option \<Rightarrow> bool" where
  "guarded ts l \<longleftrightarrow> (\<forall>i. (i < length ts \<and> in_mutex (ts ! i)) \<longleftrightarrow> l = Some i)"

text \<open>No wake-up is lost: while a thread sleeps, every free permit has a thread that goes for it.\<close>

definition awake :: "sem_phase list \<Rightarrow> nat \<Rightarrow> bool" where
  "awake ts n \<longleftrightarrow> (SSleeps \<in> set ts \<longrightarrow> n \<le> contending ts)"

definition sem_inv :: "sem_state \<Rightarrow> bool" where
  "sem_inv s \<longleftrightarrow> guarded (sem_threads s) (sem_lock s) \<and> awake (sem_threads s) (sem_permits s)"

lemma in_mutex_simps [simp]:
  "in_mutex (SChecks w)" "in_mutex (STaken w)" "in_mutex SReturns" "in_mutex SAdded" "in_mutex SNotified"
  "\<not> in_mutex SOut" "\<not> in_mutex SWants" "\<not> in_mutex SSleeps" "\<not> in_mutex SWoken" "\<not> in_mutex (SHolds w)"
  "\<not> in_mutex SLeaves" "\<not> in_mutex SGone"
  by (simp_all add: in_mutex_def)

lemma contends_simps [simp]:
  "contends SOut = 0" "contends SWants = 1" "contends (SChecks w) = 1" "contends SSleeps = 0" "contends SWoken = 1"
  "contends (STaken w) = 0" "contends (SHolds w) = 0" "contends SLeaves = 0" "contends SReturns = 0" "contends SAdded = 1"
  "contends SNotified = 0" "contends SGone = 0"
  by (simp_all add: contends_def)

lemma contending_move:
  "i < length ts \<Longrightarrow> ts ! i = p \<Longrightarrow> contending (ts[i := x]) + contends p = contending ts + contends x"
  using weight_move [of i ts contends x] by (simp add: contending_def)

lemma sleeper_stays: "SSleeps \<in> set (ts[i := x]) \<Longrightarrow> x \<noteq> SSleeps \<Longrightarrow> SSleeps \<in> set ts"
  using set_update_subset_insert by fastforce

text \<open>A thread that moves without taking or dropping the mutex, and one that takes or drops it.\<close>

lemma guarded_kept: "guarded ts l \<Longrightarrow> i < length ts \<Longrightarrow> in_mutex x = in_mutex (ts ! i) \<Longrightarrow> guarded (ts[i := x]) l"
  unfolding guarded_def by (metis length_list_update nth_list_update)

lemma guarded_owner: "guarded ts l \<Longrightarrow> i < length ts \<Longrightarrow> in_mutex (ts ! i) \<Longrightarrow> l = Some i"
  unfolding guarded_def by blast

lemma guarded_taken:
  assumes "guarded ts None" "i < length ts" "in_mutex x"
  shows "guarded (ts[i := x]) (Some i)"
proof -
  have "\<not> in_mutex (ts ! k)" if "k < length ts" for k using guarded_owner [OF assms(1) that] by auto
  then show ?thesis using assms(2,3) by (auto simp: guarded_def nth_list_update split: if_splits)
qed

lemma guarded_dropped:
  assumes "guarded ts l" "i < length ts" "in_mutex (ts ! i)" "\<not> in_mutex x"
  shows "guarded (ts[i := x]) None"
proof -
  have "\<not> in_mutex (ts ! k)" if "k < length ts" "k \<noteq> i" for k
    using guarded_owner [OF assms(1) that(1)] guarded_owner [OF assms(1-3)] that(2) by auto
  then show ?thesis using assms(2,4) by (auto simp: guarded_def nth_list_update split: if_splits)
qed

lemma awake_kept:
  assumes "awake ts n" "i < length ts" "x \<noteq> SSleeps" "n' + contends (ts ! i) \<le> n + contends x"
  shows "awake (ts[i := x]) n'"
  using assms contending_move [OF assms(2) refl, of x] sleeper_stays [OF _ assms(3)] by (fastforce simp: awake_def)

lemma awake_empty: "awake ts 0"
  by (simp add: awake_def)

lemma sem_call_inv: "sem_call s s' \<Longrightarrow> sem_inv s \<Longrightarrow> sem_inv s'"
  by (induction rule: sem_call.induct) (auto simp: sem_inv_def intro!: guarded_kept elim!: awake_kept)

lemma sem_move_inv: "sem_move s s' \<Longrightarrow> sem_inv s \<Longrightarrow> sem_inv s'"
proof (induction rule: sem_move.induct)
  case (notify_one s i j)
  let ?ts = "(sem_threads s)[j := SWoken]"
  from notify_one have ij: "i \<noteq> j" and inv: "guarded (sem_threads s) (sem_lock s)" "awake (sem_threads s) (sem_permits s)"
    by (auto simp: sem_inv_def)
  have "awake ?ts (sem_permits s + 1)" using inv(2) notify_one by (auto elim!: awake_kept)
  then have "awake (?ts[i := SNotified]) (sem_permits s)" using notify_one ij by (auto elim!: awake_kept)
  with inv notify_one ij show ?case by (simp add: sem_inv_def guarded_kept)
next
  case (notify_none s i)
  then show ?case by (auto simp: sem_inv_def guarded_kept awake_def dest: sleeper_stays)
qed (auto simp: sem_inv_def awake_empty intro: guarded_kept guarded_taken guarded_dropped elim!: awake_kept)

subsection \<open>Threads come to rest\<close>

definition resting :: "sem_phase \<Rightarrow> bool" where
  "resting p = (case p of SOut \<Rightarrow> True | SHolds _ \<Rightarrow> True | SGone \<Rightarrow> True | SSleeps \<Rightarrow> True | _ \<Rightarrow> False)"

text \<open>A thread that has the mutex can go on, and one that wants it can have it when nobody does.\<close>

lemma owner_moves:
  assumes "sem_at s i p" "in_mutex p"
  shows "\<exists>t. sem_move s t"
proof (cases p)
  case (SChecks w)
  with assms show ?thesis using sem_move.wait [of i s w] sem_move.take_permit [of i s w] by (cases "sem_permits s = 0") blast+
next
  case SAdded
  show ?thesis
  proof (cases "SSleeps \<in> set (sem_threads s)")
    case True
    then obtain j where "sem_at s j SSleeps" by (auto simp: in_set_conv_nth)
    with assms SAdded show ?thesis using sem_move.notify_one by blast
  next
    case False
    with assms SAdded show ?thesis using sem_move.notify_none by blast
  qed
qed (use assms in \<open>auto intro: sem_move.intros\<close>)

lemma unrested_moves:
  assumes "sem_inv s" "sem_at s i p" "\<not> resting p"
  shows "\<exists>t. sem_move s t"
proof (cases "sem_lock s")
  case None
  with assms have "\<not> in_mutex p" using guarded_owner [of "sem_threads s" "sem_lock s" i] by (auto simp: sem_inv_def)
  with None assms(2,3) show ?thesis by (cases p) (auto simp: resting_def intro: sem_move.intros)
next
  case (Some k)
  with assms(1) have "k < length (sem_threads s)" "in_mutex (sem_threads s ! k)" by (auto simp: sem_inv_def guarded_def)
  then show ?thesis using owner_moves by blast
qed

lemma rest_full:
  assumes "sem_inv s" "\<nexists>t. sem_move s t"
  shows "list_all resting (sem_threads s) \<and> (SSleeps \<in> set (sem_threads s) \<longrightarrow> sem_permits s = 0)"
proof -
  have all: "list_all resting (sem_threads s)"
    using unrested_moves [OF assms(1)] assms(2) by (auto simp: list_all_length)
  have "contends p = 0" if "resting p" for p using that by (cases p) (simp_all add: resting_def)
  with all have "contending (sem_threads s) = 0" by (auto simp: contending_def list_all_iff)
  with all assms(1) show ?thesis by (simp add: sem_inv_def awake_def)
qed

text \<open>How many steps a thread still has before it.\<close>

definition effort :: "sem_phase \<Rightarrow> nat" where
  "effort p = (case p of SNotified \<Rightarrow> 1 | STaken _ \<Rightarrow> 1 | SChecks _ \<Rightarrow> 2 | SWants \<Rightarrow> 3 | SWoken \<Rightarrow> 3
     | SAdded \<Rightarrow> 5 | SReturns \<Rightarrow> 6 | SLeaves \<Rightarrow> 7 | _ \<Rightarrow> 0)"

definition efforts :: "sem_state \<Rightarrow> nat" where
  "efforts s = sum_list (map effort (sem_threads s))"

lemma effort_simps [simp]:
  "effort SOut = 0" "effort SWants = 3" "effort (SChecks w) = 2" "effort SSleeps = 0" "effort SWoken = 3"
  "effort (STaken w) = 1" "effort (SHolds w) = 0" "effort SLeaves = 7" "effort SReturns = 6" "effort SAdded = 5"
  "effort SNotified = 1" "effort SGone = 0"
  by (simp_all add: effort_def)

lemma effort_drops:
  assumes "i < length ts" "effort x < effort (ts ! i)"
  shows "sum_list (map effort (ts[i := x])) < sum_list (map effort ts)"
  using weight_move [OF assms(1), of effort x] assms(2) by linarith

lemma move_drops: "sem_move s s' \<Longrightarrow> efforts s' < efforts s"
proof (induction rule: sem_move.induct)
  case (notify_one s i j)
  then have "i \<noteq> j" by auto
  with notify_one show ?case
    using weight_move [of i "(sem_threads s)[j := SWoken]" effort SNotified] weight_move [of j "sem_threads s" effort SWoken]
    by (simp add: efforts_def)
qed (simp_all add: efforts_def effort_drops)

lemma moves_bounded: "(sem_move ^^ j) s t \<Longrightarrow> j + efforts t \<le> efforts s"
proof (induction j arbitrary: t)
  case (Suc j)
  then obtain u where "(sem_move ^^ j) s u" "sem_move u t" by auto
  with Suc.IH [of u] move_drops [of u t] show ?case by simp
qed simp

lemma efforts_bound: "efforts s \<le> 7 * length (sem_threads s)"
proof -
  have "effort p \<le> 7" for p by (cases p) simp_all
  then have "sum_list (map effort ts) \<le> 7 * length ts" for ts by (induction ts) (simp_all add: add_mono)
  then show ?thesis by (simp add: efforts_def)
qed

lemma step_threads: "sem_step s s' \<Longrightarrow> length (sem_threads s') = length (sem_threads s)"
  by (auto simp: sem_step_def elim!: sem_call.cases sem_move.cases)

subsection \<open>Reachable states\<close>

definition sem_reach :: "nat \<Rightarrow> nat \<Rightarrow> sem_state \<Rightarrow> bool" where
  "sem_reach n k s \<longleftrightarrow> (\<exists>s0. semaphore_new n k = Ok s0 \<and> sem_step\<^sup>*\<^sup>* s0 s)"

lemma step_inv_sem: "sem_step s s' \<Longrightarrow> sem_inv s \<Longrightarrow> sem_inv s'"
  using sem_call_inv sem_move_inv by (auto simp: sem_step_def)

lemma steps_inv: "sem_step\<^sup>*\<^sup>* s s' \<Longrightarrow> sem_inv s \<Longrightarrow> sem_inv s' \<and> length (sem_threads s') = length (sem_threads s)"
  by (induction rule: rtranclp_induct) (auto dest: step_inv_sem step_threads)

lemma new_semaphore:
  assumes "semaphore_new n k = Ok s0"
  shows "sem_inv s0" "length (sem_threads s0) = k" "permit_sum (sem_view_of s0) = n"
  using assms by (auto simp: semaphore_new_def sem_inv_def guarded_def awake_def sem_view_of_def permit_sum_def sum_list_replicate
      split: if_splits)

lemma reach_inv: "sem_reach n k s \<Longrightarrow> sem_inv s \<and> length (sem_threads s) = k \<and> permit_sum (sem_view_of s) = n"
  unfolding sem_reach_def using new_semaphore steps_inv sem.sum_kept by metis

lemma moves_reach: "sem_reach n k s \<Longrightarrow> sem_move\<^sup>*\<^sup>* s t \<Longrightarrow> sem_reach n k t"
proof -
  assume "sem_reach n k s" "sem_move\<^sup>*\<^sup>* s t"
  moreover from this(2) have "sem_step\<^sup>*\<^sup>* s t"
    by (rule rtranclp_mono [THEN predicate2D, rotated]) (auto simp: sem_step_def)
  ultimately show ?thesis unfolding sem_reach_def by (meson rtranclp_trans)
qed

lemma keeps_count: "sum_list (map keeps_permit vs) = length (filter (\<lambda>v. v = Inside \<or> v = Lost) vs)"
proof (induction vs)
  case (Cons v vs)
  then show ?case by (cases v) simp_all
qed simp

lemma run_start: "run_view (run_init m jb) = (jb_permits jb, replicate (length (jb_ranges jb)) Outside)"
  by (simp add: run_view_def run_init_def task_view_def)

text \<open>A run of the engine uses the semaphore by its contract alone.\<close>

lemma run_refines:
  assumes "reachable m jb s"
  shows "permit_step\<^sup>*\<^sup>* (jb_permits jb, replicate (length (jb_ranges jb)) Outside) (run_view s)"
  using run.simulates [OF assms [unfolded reachable_def]] by (simp add: run_start)

text \<open>A run of the engine never holds more permits than it was given, panicked chunks included.\<close>

lemma run_permits:
  assumes "reachable m jb s"
  shows "permits s + length (filter (\<lambda>v. v = Inside \<or> v = Lost) (map task_view (tasks s))) = jb_permits jb"
proof -
  have "permit_sum (run_view (run_init m jb)) = jb_permits jb"
    by (simp add: permit_sum_def run_start sum_list_replicate)
  with run.sum_kept [OF assms [unfolded reachable_def]] show ?thesis
    by (simp add: permit_sum_def run_view_def keeps_count [symmetric])
qed

subsection \<open>Properties\<close>

text \<open>C6: In every interleaving of calls, with spurious wake-ups and callers that unwind, the code of the
  semaphore does what the atomic contract allows: the threads it shows inside, waiting and lost, and the free permits,
  are reached by atomic steps from the permits it was made with. Free permits and those held or lost always add up to
  these, and at most one thread is inside the mutex.\<close>

theorem semaphore_refines:
  assumes "sem_reach n k s"
  shows "permit_step\<^sup>*\<^sup>* (n, replicate k Outside) (sem_view_of s) \<and>
    sem_permits s + length (filter (\<lambda>v. v = Inside \<or> v = Lost) (map thread_view (sem_threads s))) = n \<and>
    (\<forall>i<k. \<forall>j<k. in_mutex (sem_threads s ! i) \<and> in_mutex (sem_threads s ! j) \<longrightarrow> i = j)"
proof -
  from assms obtain s0 where "semaphore_new n k = Ok s0" "sem_step\<^sup>*\<^sup>* s0 s" by (auto simp: sem_reach_def)
  then have "permit_step\<^sup>*\<^sup>* (n, replicate k Outside) (sem_view_of s)"
    using sem.simulates by (fastforce simp: semaphore_new_def sem_view_of_def split: if_splits)
  moreover note inv = reach_inv [OF assms]
  then have "sem_permits s + length (filter (\<lambda>v. v = Inside \<or> v = Lost) (map thread_view (sem_threads s))) = n"
    by (simp add: permit_sum_def sem_view_of_def keeps_count [symmetric])
  moreover have "i = j" if "i < k" "j < k" "in_mutex (sem_threads s ! i)" "in_mutex (sem_threads s ! j)" for i j
  proof -
    have "sem_lock s = Some l" if "l < k" "in_mutex (sem_threads s ! l)" for l
      using inv that guarded_owner [of "sem_threads s" "sem_lock s" l] by (simp add: sem_inv_def)
    from this [OF that(1,3)] this [OF that(2,4)] show ?thesis by simp
  qed
  ultimately show ?thesis by blast
qed

text \<open>C7: No wake-up is lost. Left to themselves (no new calls, no spurious wake-ups), the threads come to
  rest: all together they make at most seven times as many steps as there are threads. Then every one
  of them is outside, holds a permit, or sleeps, and none sleeps while a permit is free.\<close>

theorem semaphore_settles:
  assumes "sem_reach n k s"
  shows "(\<forall>j t. (sem_move ^^ j) s t \<longrightarrow> j \<le> 7 * k) \<and>
    (\<forall>t. sem_move\<^sup>*\<^sup>* s t \<and> (\<nexists>u. sem_move t u) \<longrightarrow>
       list_all resting (sem_threads t) \<and> (SSleeps \<in> set (sem_threads t) \<longrightarrow> sem_permits t = 0))"
proof (intro conjI allI impI)
  fix j t assume "(sem_move ^^ j) s t"
  from moves_bounded [OF this] efforts_bound [of s] reach_inv [OF assms] show "j \<le> 7 * k" by simp
next
  fix t assume t: "sem_move\<^sup>*\<^sup>* s t \<and> (\<nexists>u. sem_move t u)"
  then have "sem_inv t" using reach_inv moves_reach [OF assms] by blast
  with rest_full [of t] t show "list_all resting (sem_threads t)" "SSleeps \<in> set (sem_threads t) \<Longrightarrow> sem_permits t = 0"
    by simp_all
qed

subsection \<open>Witnesses\<close>

text \<open>Two threads and one permit: the first takes it, the second falls asleep.\<close>

definition duel :: "nat \<Rightarrow> nat option \<Rightarrow> sem_phase \<Rightarrow> sem_phase \<Rightarrow> sem_state" where
  "duel n l p q = \<lparr>sem_permits = n, sem_lock = l, sem_threads = [p, q]\<rparr>"

lemma duel_step: "sem_reach 1 2 s \<Longrightarrow> sem_call s t \<or> sem_move s t \<Longrightarrow> sem_reach 1 2 t"
  unfolding sem_reach_def using rtranclp.rtrancl_into_rtrancl [of sem_step _ s t] by (auto simp: sem_step_def [of s t])

lemma duel_start: "sem_reach 1 2 (duel 1 None SOut SOut)"
  by (simp add: sem_reach_def semaphore_new_def duel_def numeral_2_eq_2)

lemma duel_reached: "sem_reach 1 2 (duel 0 None (SHolds False) SSleeps)"
proof -
  have "sem_reach 1 2 (duel 1 None SWants SOut)"
    using duel_step [OF duel_start] sem_call.call_acquire [of 0 "duel 1 None SOut SOut"] by (simp add: duel_def)
  then have "sem_reach 1 2 (duel 1 (Some 0) (SChecks False) SOut)"
    using duel_step sem_move.lock_acquire [of 0 "duel 1 None SWants SOut"] by (simp add: duel_def)
  then have "sem_reach 1 2 (duel 0 (Some 0) (STaken False) SOut)"
    using duel_step sem_move.take_permit [of 0 "duel 1 (Some 0) (SChecks False) SOut" False] by (simp add: duel_def)
  then have "sem_reach 1 2 (duel 0 None (SHolds False) SOut)"
    using duel_step sem_move.unlock_acquire [of 0 "duel 0 (Some 0) (STaken False) SOut" False] by (simp add: duel_def)
  then have "sem_reach 1 2 (duel 0 None (SHolds False) SWants)"
    using duel_step sem_call.call_acquire [of 1 "duel 0 None (SHolds False) SOut"] by (simp add: duel_def)
  then have "sem_reach 1 2 (duel 0 (Some 1) (SHolds False) (SChecks False))"
    using duel_step sem_move.lock_acquire [of 1 "duel 0 None (SHolds False) SWants"] by (simp add: duel_def)
  then show ?thesis
    using duel_step sem_move.wait [of 1 "duel 0 (Some 1) (SHolds False) (SChecks False)" False] by (simp add: duel_def)
qed

lemma semaphore_refines_witness:
  "permit_step\<^sup>*\<^sup>* (1, [Outside, Outside]) (0, [Inside, Wanting True])"
  using semaphore_refines [OF duel_reached] by (simp add: duel_def sem_view_of_def numeral_2_eq_2)

lemma duel_quiet: "\<not> sem_move (duel 0 None (SHolds False) SSleeps) t"
  by (auto elim!: sem_move.cases simp: duel_def less_Suc_eq)

lemma semaphore_settles_witness:
  "list_all resting (sem_threads (duel 0 None (SHolds False) SSleeps)) \<and> sem_permits (duel 0 None (SHolds False) SSleeps) = 0"
proof -
  have "SSleeps \<in> set (sem_threads (duel 0 None (SHolds False) SSleeps))" by (simp add: duel_def)
  then show ?thesis using semaphore_settles [OF duel_reached] duel_quiet by blast
qed

end
