(* ===== verification/Run_Events.thy ===== *)
theory Run_Events
  imports Execution "HOL-Library.Multiset"
begin

text \<open>
  What an observer of the execution engine is told (\<open>src/execution/mod.rs\<close>, \<open>emit\<close>): the events of a
  parallel run, in any interleaving, compared with its chunks and its metrics.
\<close>

subsection \<open>Reading the events\<close>

definition start_of :: "execution_event \<Rightarrow> (nat \<times> nat) multiset" where
  "start_of e = (case e of ChunkStarted a n \<Rightarrow> {#(a, n)#} | _ \<Rightarrow> {#})"

definition finish_of :: "execution_event \<Rightarrow> nat multiset" where
  "finish_of e = (case e of ChunkFinished n \<Rightarrow> {#n#} | _ \<Rightarrow> {#})"

definition wait_of :: "execution_event \<Rightarrow> nat" where
  "wait_of e = (case e of ThrottleWaited d \<Rightarrow> min d (2 ^ 64 - 1) | _ \<Rightarrow> 0)"

definition starts :: "execution_event list \<Rightarrow> (nat \<times> nat) multiset" where
  "starts es = sum_list (map start_of es)"

definition finishes :: "execution_event list \<Rightarrow> nat multiset" where
  "finishes es = sum_list (map finish_of es)"

definition waits :: "execution_event list \<Rightarrow> nat" where
  "waits es = sum_list (map wait_of es)"

lemmas readings = starts_def finishes_def waits_def start_of_def finish_of_def wait_of_def

subsection \<open>What the tasks account for\<close>

definition begun :: "job \<Rightarrow> nat \<Rightarrow> phase \<Rightarrow> (nat \<times> nat) multiset" where
  "begun jb i p =
     (let r = {#(fst (jb_ranges jb ! i), snd (jb_ranges jb ! i) - fst (jb_ranges jb ! i))#} in
      case p of Running _ _ \<Rightarrow> r | Emitted _ \<Rightarrow> r | Ended _ \<Rightarrow> r | Deactivated _ \<Rightarrow> r | Done _ \<Rightarrow> r | Panicked _ \<Rightarrow> r | _ \<Rightarrow> {#})"

definition ended :: "nat \<Rightarrow> phase \<Rightarrow> nat multiset" where
  "ended i p = (case p of Emitted out \<Rightarrow> {#length out#} | Ended out \<Rightarrow> {#length out#} | Deactivated out \<Rightarrow> {#length out#}
     | Done out \<Rightarrow> {#length out#} | _ \<Rightarrow> {#})"

definition gather :: "(nat \<Rightarrow> phase \<Rightarrow> 'a multiset) \<Rightarrow> phase list \<Rightarrow> 'a multiset" where
  "gather w ts = (\<Sum>i<length ts. w i (ts ! i))"

lemma gather_same: "i < length ts \<Longrightarrow> w i x = w i (ts ! i) \<Longrightarrow> gather w (ts[i := x]) = gather w ts"
  unfolding gather_def by (rule sum.cong) (auto simp: nth_list_update)

lemma gather_new:
  assumes "i < length ts" "w i (ts ! i) = {#}"
  shows "gather w (ts[i := x]) = gather w ts + w i x"
proof -
  have "gather w (ts[i := x]) = w i x + (\<Sum>j\<in>{..<length ts} - {i}. w j (ts[i := x] ! j))"
    using assms(1) by (simp add: gather_def sum.remove)
  also have "(\<Sum>j\<in>{..<length ts} - {i}. w j (ts[i := x] ! j)) = (\<Sum>j\<in>{..<length ts} - {i}. w j (ts ! j))"
    by (rule sum.cong) auto
  also have "\<dots> = gather w ts" using assms by (simp add: gather_def sum.remove)
  finally show ?thesis by (simp add: add.commute)
qed

definition told :: "job \<Rightarrow> run_state \<Rightarrow> bool" where
  "told jb s \<longleftrightarrow> (\<exists>es. events s = RunStarted # es) \<and>
     starts (events s) = gather (begun jb) (tasks s) \<and> finishes (events s) = gather ended (tasks s) \<and>
     throttle_wait_ns (run_metrics s) = waits (events s) mod 2 ^ 64"

lemma told_init: "told jb (run_init m jb)"
  by (simp add: told_def run_init_def readings gather_def begun_def ended_def begin_run_def)

text \<open>Steps that only move a task, and steps that change another metric.\<close>

lemma told_moved:
  assumes "told jb s" "i < length (tasks s)" "begun jb i p = begun jb i (tasks s ! i)" "ended i p = ended i (tasks s ! i)"
    and "events s' = events s" "tasks s' = (tasks s)[i := p]" "throttle_wait_ns (run_metrics s') = throttle_wait_ns (run_metrics s)"
  shows "told jb s'"
  using assms by (simp add: told_def gather_same)

lemma step_told: "step jb s s' \<Longrightarrow> told jb s \<Longrightarrow> told jb s'"
proof (induction rule: step.induct)
  case (throttled s i d)
  then show ?case by (auto simp: told_def gather_same begun_def ended_def readings on_throttle_wait_def fetch_add_def mod_simps add.commute)
next
  case (announce s i a b)
  then show ?case by (auto simp: told_def gather_same gather_new begun_def ended_def readings)
next
  case (finish s i k out)
  then show ?case by (auto simp: told_def gather_same gather_new begun_def ended_def readings)
qed (erule told_moved; simp add: begun_def ended_def metric_ops on_row_processed_def; fail)+

lemma reachable_told: "reachable m jb s \<Longrightarrow> told jb s"
  unfolding reachable_def by (induction rule: rtranclp_induct) (auto intro: told_init step_told)

subsection \<open>All tasks together\<close>

lemma gather_mset:
  assumes "\<And>i. i < length ts \<Longrightarrow> w i (ts ! i) = {#f (xs ! i)#}" "length ts = length xs"
  shows "gather w ts = mset (map f xs)"
proof -
  have "(\<Sum>i<length xs. {#f (xs ! i)#}) = mset (map f xs)"
    by (induction xs rule: rev_induct) (simp_all add: nth_append)
  moreover have "gather w ts = (\<Sum>i<length xs. {#f (xs ! i)#})"
    unfolding gather_def using assms by (intro sum.cong) auto
  ultimately show ?thesis by simp
qed

definition extent :: "nat \<times> nat \<Rightarrow> nat \<times> nat" where
  "extent r = (fst r, snd r - fst r)"

lemma all_begun:
  assumes "inv jb s" "finished s"
  shows "gather (begun jb) (tasks s) = mset (map extent (jb_ranges jb))"
  using assms(2) invD(1) [OF assms(1)]
  by (intro gather_mset) (auto simp: begun_def extent_def finished_def list_all_length is_done_iff)

definition done_rows :: "phase \<Rightarrow> row list" where
  "done_rows p = (case p of Done out \<Rightarrow> out | _ \<Rightarrow> [])"

lemma all_ended:
  assumes "finished s"
  shows "gather ended (tasks s) = mset (map (\<lambda>p. length (done_rows p)) (tasks s))"
  using assms by (intro gather_mset) (auto simp: ended_def done_rows_def finished_def list_all_length is_done_iff)

lemma outputs_collected: "sum_mset (mset (map (\<lambda>p. length (done_rows p)) (tasks s))) = length (collected s)"
  unfolding sum_mset_sum_list by (simp add: collected_def done_rows_def length_concat comp_def)

text \<open>Before the end, and when chunks panic: no chunk starts twice, and none ends that has not started.\<close>

lemma gather_mono:
  fixes w v :: "nat \<Rightarrow> phase \<Rightarrow> 'a multiset"
  shows "(\<And>i. i < length ts \<Longrightarrow> w i (ts ! i) \<subseteq># v i (ts ! i)) \<Longrightarrow> gather w ts \<subseteq># gather v ts"
proof -
  have "(\<forall>i<n. f i \<subseteq># g i) \<Longrightarrow> (\<Sum>i<n. f i) \<subseteq># (\<Sum>i<n. g i)" for f g :: "nat \<Rightarrow> 'a multiset" and n
    by (induction n) (auto intro: subset_mset.add_mono)
  then show "(\<And>i. i < length ts \<Longrightarrow> w i (ts ! i) \<subseteq># v i (ts ! i)) \<Longrightarrow> gather w ts \<subseteq># gather v ts"
    by (simp add: gather_def)
qed

lemma size_gather: "size (gather w ts) = (\<Sum>i<length ts. size (w i (ts ! i)))"
  by (simp add: gather_def)

lemma events_sound:
  assumes "reachable m jb s" "job_ok jb"
  shows "starts (events s) \<subseteq># mset (map extent (jb_ranges jb))" "size (finishes (events s)) \<le> size (starts (events s))"
proof -
  note t = reachable_told [OF assms(1)] and inv = reachable_inv [OF assms]
  have "gather (begun jb) (tasks s) \<subseteq># gather (\<lambda>i _. {#extent (jb_ranges jb ! i)#}) (tasks s)"
    by (rule gather_mono) (simp add: begun_def extent_def Let_def split: phase.split)
  also have "\<dots> = mset (map extent (jb_ranges jb))" using invD(1) [OF inv] by (intro gather_mset) simp_all
  finally show "starts (events s) \<subseteq># mset (map extent (jb_ranges jb))" using t by (simp add: told_def)
  have "size (ended i p) \<le> size (begun jb i p)" for i p by (cases p) (simp_all add: ended_def begun_def)
  then show "size (finishes (events s)) \<le> size (starts (events s))"
    using t by (simp add: told_def size_gather sum_mono)
qed

subsection \<open>Properties\<close>

text \<open>C8: Whatever the work and the schedule, an observer is told of the start of a run first; at every
  moment, panics included, no chunk has been announced twice and none has finished that was not
  announced. When the run finishes, it has been told of every chunk's extent once, of as many
  finished chunks, whose rows add up to the rows of the result, and last of the end of the run, with
  a snapshot whose waiting time is the sum of the waits it was told of.\<close>

theorem run_events:
  assumes "engine_new available opts = Ok e" "length (rows ds) < 2 ^ 63" "max_in_flight_chunks opts < 2 ^ 64"
    and "reachable m (engine_job e ds work) s"
  shows "hd (events s) = RunStarted \<and> starts (events s) \<subseteq># mset (map extent (chunk_ranges (row_count ds) (chunk_size (eng_opts e)))) \<and>
    size (finishes (events s)) \<le> size (starts (events s)) \<and>
    (finished s \<longrightarrow>
      (let es = events (run_end ns1 ns2 s); snap = snapshot (end_run ns1 (run_metrics s)) in
       last es = RunFinished ns2 snap \<and> starts es = mset (map extent (chunk_ranges (row_count ds) (chunk_size (eng_opts e)))) \<and>
       size (finishes es) = length (chunk_ranges (row_count ds) (chunk_size (eng_opts e))) \<and>
       sum_mset (finishes es) = row_count (run_result ds s) \<and> snap_throttle_wait snap = waits es mod 2 ^ 64))"
proof -
  have ok: "job_ok (engine_job e ds work)" by (rule engine_job_ok [OF assms(1-3)])
  note inv = reachable_inv [OF assms(4) ok] and sound = events_sound [OF assms(4) ok]
  from reachable_told [OF assms(4)] have t: "hd (events s) = RunStarted" "starts (events s) = gather (begun (engine_job e ds work)) (tasks s)"
    "finishes (events s) = gather ended (tasks s)" "throttle_wait_ns (run_metrics s) = waits (events s) mod 2 ^ 64"
    by (auto simp: told_def)
  have "finishes (events s @ [RunFinished n x]) = finishes (events s)" "starts (events s @ [RunFinished n x]) = starts (events s)"
    "waits (events s @ [RunFinished n x]) = waits (events s)" for n x by (simp_all add: readings)
  with t sound all_begun [OF inv] all_ended [of s] outputs_collected [of s] invD(1) [OF inv] show ?thesis
    by (simp add: run_end_def Let_def snapshot_def end_run_def run_result_def row_count_def data_set_new_def)
qed

subsection \<open>Witness\<close>

lemma sample_extents: "map extent (chunk_ranges (row_count sample_ds) (chunk_size (eng_opts sample_engine))) = [(0, 2), (2, 2)]"
  by code_simp

lemma run_events_witness:
  "\<exists>s. finished s \<and> starts (events (run_end 1 2 s)) = {#(0, 2), (2, 2)#} \<and>
    sum_mset (finishes (events (run_end 1 2 s))) = row_count (run_result sample_ds s)"
proof -
  obtain s where s: "reachable metrics_new (engine_job sample_engine sample_ds (\<lambda>r. Some [r])) s" "finished s"
    using sample_run [of "\<lambda>r. Some [r]"] by auto
  from run_events [OF sample_engine_new sample_bounds s(1), of 1 2] s(2) show ?thesis
    by (intro exI [of _ s]) (simp add: Let_def sample_extents del: mset_map)
qed

end
